(* ===== verification/Prelude.thy ===== *)
theory Prelude
  imports Main "HOL-Library.Word" "HOL-Library.Multiset" "HOL-Library.AList"
begin

text \<open>
  Shared vocabulary of the development: the Go machine integers the components use,
  Go's truncated integer division, the binary search of the Go package \<open>sort\<close>,
  the "keep the last k entries" slices, and the generic lemmas on lists, words and
  multisets that the component theories rely on.

  A Go \<open>uint64\<close> is a \<open>64 word\<close> wherever arithmetic on it can wrap (nonces, block
  numbers, block windows).  Event counters that only ever grow by one per event are
  \<open>nat\<close>.  A Go \<open>int\<close>, \<open>int64\<close> or \<open>time.Duration\<close> is an \<open>int\<close>; where the width matters
  the component says so.  A call that can panic returns an \<open>option\<close>, \<open>None\<close> being the
  panic.
\<close>

named_theorems inv_intros "preservation lemmas of the component invariants"

type_synonym u64 = "64 word"
type_synonym hash = nat
type_synonym addr = string
type_synonym bytes = "8 word list"

section \<open>Go integers\<close>

text \<open>Go's \<open>/\<close> and \<open>%\<close> on signed integers truncate towards zero; \<open>x / 0\<close> and \<open>x % 0\<close> panic.\<close>

definition go_quot :: "int \<Rightarrow> int \<Rightarrow> int" where
  "go_quot a b = sgn a * sgn b * (\<bar>a\<bar> div \<bar>b\<bar>)"

definition go_rem :: "int \<Rightarrow> int \<Rightarrow> int option" where
  "go_rem a b = (if b = 0 then None else Some (a - b * go_quot a b))"

lemma go_quot_nonneg [simp]: "0 \<le> a \<Longrightarrow> 0 < b \<Longrightarrow> go_quot a b = a div b"
  by (cases "a = 0") (auto simp: go_quot_def)

lemma go_rem_pos [simp]: "0 \<le> a \<Longrightarrow> 0 < b \<Longrightarrow> go_rem a b = Some (a mod b)"
  by (simp add: go_rem_def minus_mult_div_eq_mod)

lemma go_rem_zero [simp]: "go_rem a 0 = None"
  by (simp add: go_rem_def)

text \<open>The value of an \<open>int64\<close> after wrapping, and of a \<open>uint64\<close>.\<close>

definition wrap64 :: "int \<Rightarrow> int" where
  "wrap64 x = (x + 2 ^ 63) mod 2 ^ 64 - 2 ^ 63"

definition is_i64 :: "int \<Rightarrow> bool" where
  "is_i64 x \<longleftrightarrow> - (2 ^ 63) \<le> x \<and> x < 2 ^ 63"

lemma wrap64_id [simp]: "is_i64 x \<Longrightarrow> wrap64 x = x"
  by (simp add: wrap64_def is_i64_def)

lemma is_i64_wrap64 [simp]: "is_i64 (wrap64 x)"
  using pos_mod_bound [of "2 ^ 64" "x + 2 ^ 63"] pos_mod_sign [of "2 ^ 64" "x + 2 ^ 63"]
  by (auto simp: wrap64_def is_i64_def)

lemma wrap64_add_left [simp]: "wrap64 (wrap64 x + y) = wrap64 (x + y)"
proof -
  have "wrap64 x + y + 2 ^ 63 = (x + 2 ^ 63) mod 2 ^ 64 + y" by (simp add: wrap64_def)
  then show ?thesis
    unfolding wrap64_def [of "_ + y"] using mod_add_left_eq [of "x + 2 ^ 63" "2 ^ 64" y]
    by (simp add: ac_simps)
qed

text \<open>Halving a non-negative rate.\<close>

lemma half_le: "0 \<le> (x::int) \<Longrightarrow> x div 2 \<le> x"
  by simp

section \<open>64-bit words\<close>

lemma unat_u64_max: "unat (- 1 :: u64) = 2 ^ 64 - 1"
  by (simp add: unsigned_minus_1_eq_mask mask_eq_exp_minus_1)

lemma u64_unat_Suc: "n \<noteq> - 1 \<Longrightarrow> unat ((n::u64) + 1) = Suc (unat n)"
  using unatSuc [of n] by (simp add: add_eq_0_iff add.commute)

lemma u64_less_Suc: "n \<noteq> - 1 \<Longrightarrow> (x < n + 1) = (x \<le> (n::u64))"
  by (simp add: word_less_nat_alt word_le_nat_alt u64_unat_Suc less_Suc_eq_le)

lemma u64_self_less_Suc: "n \<noteq> - 1 \<Longrightarrow> (n::u64) < n + 1"
  by (simp add: u64_less_Suc)

lemma u64_atLeastLessThan_Suc:
  "b \<le> n \<Longrightarrow> n \<noteq> - 1 \<Longrightarrow> {b..<n + 1} = insert n {b..<(n::u64)}"
  unfolding set_eq_iff atLeastLessThan_iff insert_iff
  using u64_less_Suc [of n] order_le_less by metis

lemma u64_less_not_max: "(x::u64) < y \<Longrightarrow> x \<noteq> - 1"
  using word_n1_ge [of y] by auto

lemma u64_unat_less: "unat (x::u64) < 2 ^ 64"
  by (rule order_less_le_trans [OF unsigned_less]) simp

lemma u64_unat_of_nat: "j < 2 ^ 64 \<Longrightarrow> unat (of_nat j :: u64) = j"
  by (simp add: unat_of_nat)

lemma u64_add_nat: "unat x + j < 2 ^ 64 \<Longrightarrow> unat ((x::u64) + of_nat j) = unat x + j"
  by (simp add: unat_word_ariths unat_of_nat)

lemma u64_sub_nat:
  assumes "j \<le> unat (x::u64)" shows "unat (x - of_nat j) = unat x - j"
proof -
  have "j < 2 ^ 64" using assms u64_unat_less [of x] by linarith
  then have "unat (of_nat j :: u64) = j" by (rule u64_unat_of_nat)
  then show ?thesis using assms by (simp add: unat_sub word_le_nat_alt)
qed

lemma u64_mult_nat:
  assumes "unat x * j < 2 ^ 64" shows "unat ((x::u64) * of_nat j) = unat x * j"
proof (cases "unat x = 0")
  case True
  then show ?thesis by (simp add: unat_eq_0)
next
  case False
  then have "j \<le> unat x * j" by simp
  then have "j < 2 ^ 64" using assms by (rule order_le_less_trans)
  then show ?thesis using assms by (simp add: unat_word_ariths unat_of_nat)
qed

lemma u64_unat_div: "unat ((x::u64) div y) = unat x div unat y"
  by (simp add: unat_div_distrib)

lemma u64_sint:
  assumes "unat (x::u64) < 2 ^ 63" shows "sint x = int (unat x)"
proof -
  have "int (unat x) < int (2 ^ 63)" using assms by (simp only: of_nat_less_iff)
  then have "uint x < 2 ^ 63" unfolding uint_nat by simp
  moreover have "- (2 ^ 63) \<le> uint x" by (rule order_trans [OF _ uint_ge_0]) simp
  ultimately have "sint x = uint x" unfolding sint_uint by (intro signed_take_bit_int_eq_self) simp_all
  then show ?thesis unfolding uint_nat by simp
qed

lemma u64_of_int: "0 \<le> i \<Longrightarrow> (of_int i :: u64) = of_nat (nat i)"
  by simp

lemma u64_unat_of_int:
  assumes "0 \<le> i" "i < 2 ^ 64" shows "unat (of_int i :: u64) = nat i"
  unfolding u64_of_int [OF assms(1)] using assms by (intro u64_unat_of_nat) (simp add: nat_less_iff)

section \<open>Binary search: the Go function sort.Search\<close>

text \<open>
  The loop \<open>for i < j { h := (i+j)/2; if !f(h) { i = h+1 } else { j = h } }; return i\<close>.
\<close>

function sort_search :: "(nat \<Rightarrow> bool) \<Rightarrow> nat \<Rightarrow> nat \<Rightarrow> nat" where
  "sort_search p i j =
     (if i < j then
        (let h = (i + j) div 2
         in if \<not> p h then sort_search p (h + 1) j else sort_search p i h)
      else i)"
  by pat_completeness auto
termination
  by (relation "measure (\<lambda>(p, i, j). j - i)") auto

declare sort_search.simps [simp del]

lemma sort_search_spec:
  assumes "i \<le> j" and "\<And>a b. i \<le> a \<Longrightarrow> a \<le> b \<Longrightarrow> b < j \<Longrightarrow> p a \<Longrightarrow> p b"
  shows "i \<le> sort_search p i j \<and> sort_search p i j \<le> j
    \<and> (\<forall>k. i \<le> k \<longrightarrow> k < sort_search p i j \<longrightarrow> \<not> p k)
    \<and> (\<forall>k. sort_search p i j \<le> k \<longrightarrow> k < j \<longrightarrow> p k)"
  using assms
proof (induction p i j rule: sort_search.induct)
  case (1 p i j)
  show ?case
  proof (cases "i < j")
    case False
    then have "sort_search p i j = i" by (simp add: sort_search.simps [of p i j])
    with False "1.prems"(1) show ?thesis by auto
  next
    case lt: True
    define h where "h = (i + j) div 2"
    have h: "i \<le> h" "h < j" using lt by (auto simp: h_def)
    show ?thesis
    proof (cases "p h")
      case True
      have IH: "i \<le> sort_search p i h \<and> sort_search p i h \<le> h
        \<and> (\<forall>k. i \<le> k \<longrightarrow> k < sort_search p i h \<longrightarrow> \<not> p k)
        \<and> (\<forall>k. sort_search p i h \<le> k \<longrightarrow> k < h \<longrightarrow> p k)"
      proof (rule "1.IH"(2) [OF lt h_def])
        show "\<not> \<not> p h" using True by simp
        show "i \<le> h" by (rule h(1))
        show "p b" if "i \<le> a" "a \<le> b" "b < h" "p a" for a b
          using "1.prems"(2) [OF that(1,2) _ that(4)] that(3) h(2) by simp
      qed
      have up: "p k" if "h \<le> k" "k < j" for k
        using "1.prems"(2) [OF h(1) that] True .
      have "sort_search p i j = sort_search p i h"
        using lt True by (simp add: sort_search.simps [of p i j] h_def [symmetric])
      moreover have "p k" if "sort_search p i h \<le> k" "k < j" for k
        using IH up that by (cases "k < h") auto
      ultimately show ?thesis using IH h by auto
    next
      case False
      have IH: "Suc h \<le> sort_search p (Suc h) j \<and> sort_search p (Suc h) j \<le> j
        \<and> (\<forall>k. Suc h \<le> k \<longrightarrow> k < sort_search p (Suc h) j \<longrightarrow> \<not> p k)
        \<and> (\<forall>k. sort_search p (Suc h) j \<le> k \<longrightarrow> k < j \<longrightarrow> p k)"
        unfolding Suc_eq_plus1
      proof (rule "1.IH"(1) [OF lt h_def])
        show "\<not> p h" by (rule False)
        show "h + 1 \<le> j" using h(2) by simp
        show "p b" if "h + 1 \<le> a" "a \<le> b" "b < j" "p a" for a b
          using "1.prems"(2) [OF _ that(2-4)] that(1) h(1) by simp
      qed
      have down: "\<not> p k" if "i \<le> k" "k \<le> h" for k
        using "1.prems"(2) [OF that h(2)] False by blast
      have "sort_search p i j = sort_search p (Suc h) j"
        using lt False by (simp add: sort_search.simps [of p i j] h_def [symmetric])
      moreover have "\<not> p k" if "i \<le> k" "k < sort_search p (Suc h) j" for k
        using IH down that by (cases "k \<le> h") auto
      ultimately show ?thesis using IH h by auto
    qed
  qed
qed

text \<open>The insertion point in a sorted list.\<close>

lemma sort_search_sorted:
  fixes xs :: "'a::linorder list"
  assumes "sorted xs" and pos: "pos = sort_search (\<lambda>i. n \<le> xs ! i) 0 (length xs)"
  shows "pos \<le> length xs" "\<And>y. y \<in> set (take pos xs) \<Longrightarrow> y < n"
    "\<And>y. y \<in> set (drop pos xs) \<Longrightarrow> n \<le> y"
proof -
  have mono: "n \<le> xs ! b" if "a \<le> b" "b < length xs" "n \<le> xs ! a" for a b
    using sorted_nth_mono [OF assms(1) that(1,2)] that(3) by simp
  have spec: "pos \<le> length xs" "\<forall>k<pos. xs ! k < n"
    "\<forall>k. pos \<le> k \<longrightarrow> k < length xs \<longrightarrow> n \<le> xs ! k"
    using sort_search_spec [of 0 "length xs" "\<lambda>i. n \<le> xs ! i", folded pos] mono
    by (auto simp: not_le)
  show "pos \<le> length xs" by (rule spec(1))
  show "y < n" if "y \<in> set (take pos xs)" for y
    using that spec(1,2) by (auto simp: in_set_conv_nth)
  show "n \<le> y" if "y \<in> set (drop pos xs)" for y
    using that spec(1,3) by (auto simp: in_set_conv_nth)
qed

section \<open>Bounded buffers: keep the last k entries\<close>

definition take_last :: "nat \<Rightarrow> 'a list \<Rightarrow> 'a list" where
  "take_last k xs = drop (length xs - k) xs"

lemma length_take_last [simp]: "length (take_last k xs) = min k (length xs)"
  by (simp add: take_last_def)

lemma take_last_short [simp]: "length xs \<le> k \<Longrightarrow> take_last k xs = xs"
  by (simp add: take_last_def)

lemma set_take_last: "set (take_last k xs) \<subseteq> set xs"
  by (simp add: take_last_def set_drop_subset)

text \<open>The Go idiom \<open>if len(xs) > k { xs = xs[len(xs)-k:] }\<close>.\<close>

lemma trim_eq_take_last: "(if k < length xs then drop (length xs - k) xs else xs) = take_last k xs"
  by (simp add: take_last_def)

text \<open>Appending to a bounded buffer one element at a time keeps the last k of everything appended.\<close>

lemma take_last_snoc: "take_last k (take_last k xs @ [x]) = take_last k (xs @ [x])"
proof (cases "length xs \<le> k")
  case False
  then have "length xs + 1 - k = Suc (length xs - k)" by simp
  with False show ?thesis by (cases k) (auto simp: take_last_def drop_Suc min_def tl_drop)
qed simp

section \<open>Batches\<close>

text \<open>The slices \<open>xs[i:end]\<close> for \<open>i = 0, b, 2b, ...\<close> and \<open>end = min(i+b, len(xs))\<close>: the loop over batches of several components.\<close>

function batches_of :: "nat \<Rightarrow> 'd list \<Rightarrow> 'd list list" where
  "batches_of b xs = (if xs = [] \<or> b = 0 then [] else take b xs # batches_of b (drop b xs))"
  by pat_completeness auto
termination by (relation "measure (\<lambda>(b, xs). length xs)") auto

declare batches_of.simps [simp del]

lemma batches_of_concat: "0 < b \<Longrightarrow> concat (batches_of b xs) = xs"
proof (induction b xs rule: batches_of.induct)
  case (1 b xs)
  then show ?case by (subst batches_of.simps) auto
qed

lemma batches_of_length: "bt \<in> set (batches_of b xs) \<Longrightarrow> length bt \<le> b"
proof (induction b xs rule: batches_of.induct)
  case (1 b xs)
  then show ?case using batches_of.simps [of b xs] by (auto split: if_splits)
qed

section \<open>Go maps\<close>

text \<open>
  A Go map is an association list with distinct keys (\<^verbatim>\<open>map_wf\<close>); the order of the list is an
  artefact of the representation, no operation of the model depends on it unless it says so.
\<close>

type_synonym ('k, 'v) gomap = "('k \<times> 'v) list"

definition map_get :: "('k, 'v) gomap \<Rightarrow> 'k \<Rightarrow> 'v option" where
  "map_get m k = map_of m k"

definition map_put :: "'k \<Rightarrow> 'v \<Rightarrow> ('k, 'v) gomap \<Rightarrow> ('k, 'v) gomap" where
  "map_put k v m = AList.update k v m"

definition map_del :: "'k \<Rightarrow> ('k, 'v) gomap \<Rightarrow> ('k, 'v) gomap" where
  "map_del k m = AList.delete k m"

definition map_keys :: "('k, 'v) gomap \<Rightarrow> 'k set" where
  "map_keys m = fst ` set m"

definition map_wf :: "('k, 'v) gomap \<Rightarrow> bool" where
  "map_wf m \<longleftrightarrow> distinct (map fst m)"

lemma map_get_Nil [simp]: "map_get [] k = None" by (simp add: map_get_def)
lemma map_wf_Nil [simp]: "map_wf []" by (simp add: map_wf_def)
lemma map_keys_Nil [simp]: "map_keys [] = {}" by (simp add: map_keys_def)

lemma map_get_put [simp]: "map_get (map_put k v m) k' = (if k' = k then Some v else map_get m k')"
  by (simp add: map_get_def map_put_def update_conv')

lemma map_get_del [simp]: "map_get (map_del k m) k' = (if k' = k then None else map_get m k')"
  by (simp add: map_get_def map_del_def delete_conv')

lemma map_keys_put [simp]: "map_keys (map_put k v m) = insert k (map_keys m)"
  by (auto simp: map_keys_def map_put_def dom_update simp flip: dom_map_of_conv_image_fst)
     (auto simp: update_conv' dom_map_of_conv_image_fst)

lemma map_keys_del [simp]: "map_keys (map_del k m) = map_keys m - {k}"
  by (auto simp: map_keys_def map_del_def delete_conv' simp flip: dom_map_of_conv_image_fst)

lemma map_wf_put [simp]: "map_wf m \<Longrightarrow> map_wf (map_put k v m)"
  by (simp add: map_wf_def map_put_def distinct_update)

lemma map_wf_del [simp]: "map_wf m \<Longrightarrow> map_wf (map_del k m)"
  by (simp add: map_wf_def map_del_def distinct_delete)

lemma map_keys_get: "k \<in> map_keys m \<longleftrightarrow> map_get m k \<noteq> None"
  by (simp add: map_keys_def map_get_def flip: dom_map_of_conv_image_fst) auto

lemma map_len_card: "map_wf m \<Longrightarrow> length m = card (map_keys m)"
  using distinct_card [of "map fst m"] by (simp add: map_wf_def map_keys_def)

lemma finite_map_keys [simp]: "finite (map_keys m)"
  by (simp add: map_keys_def)

section \<open>Polling\<close>

text \<open>
  A loop that repeats a step until it has an outcome; \<open>None\<close> is the loop that never ends.  The step
  sees the number of the round, through which a model passes what the clock and the peer answer then.
\<close>

partial_function (option) poll_loop :: "(nat \<Rightarrow> 'r option) \<Rightarrow> nat \<Rightarrow> 'r option" where
  "poll_loop step k = (case step k of Some r \<Rightarrow> Some r | None \<Rightarrow> poll_loop step (k + 1))"

lemma poll_loop_now: "step k = Some r \<Longrightarrow> poll_loop step k = Some r"
  by (subst poll_loop.simps) simp

lemma poll_loop_later: "step k = None \<Longrightarrow> poll_loop step k = poll_loop step (k + 1)"
  by (subst poll_loop.simps) simp

text \<open>The loop ends with its first outcome.\<close>

lemma poll_loop_first:
  assumes "step n \<noteq> None" "k \<le> n"
  shows "\<exists>j r. k \<le> j \<and> j \<le> n \<and> step j = Some r \<and> poll_loop step k = Some r \<and> (\<forall>i. k \<le> i \<longrightarrow> i < j \<longrightarrow> step i = None)"
  using assms(2)
proof (induction "n - k" arbitrary: k)
  case 0
  then have "k = n" by simp
  then show ?case using assms(1) by (auto simp: poll_loop_now intro!: exI [of _ n])
next
  case (Suc d)
  show ?case
  proof (cases "step k")
    case (Some r)
    then show ?thesis using Suc.prems by (intro exI [of _ k] exI [of _ r]) (simp add: poll_loop_now)
  next
    case None
    have "d = n - (k + 1)" "k + 1 \<le> n" using Suc.hyps(2) by simp_all
    then obtain j r where j: "k + 1 \<le> j" "j \<le> n" "step j = Some r" "poll_loop step (k + 1) = Some r"
      "\<forall>i. k + 1 \<le> i \<longrightarrow> i < j \<longrightarrow> step i = None" using Suc.hyps(1) by blast
    have "step i = None" if "k \<le> i" "i < j" for i using that j(5) None by (cases "i = k") auto
    then show ?thesis using j None by (intro exI [of _ j] exI [of _ r]) (simp add: poll_loop_later)
  qed
qed

end
