(* ===== verification/Nonce_Account.thy ===== *)
theory Nonce_Account
  imports Prelude
begin

text \<open>
  The per-account nonce allocator of \<open>src/internal/account/account.go\<close>: the account's
  counter and sorted free list, the reserved-nonce handles with their commit/rollback
  flag, the resynchronisation operations and the direct setters.

  Every operation the code performs under \<open>a.mu\<close> is one function on the account
  record.  \<open>Rollback\<close> is two atomic actions in the code (the flag swap, then the locked
  \<open>rollback\<close>) and is two functions here.  The private key and the address are only passed
  to the RPC client and to the signing library and are not part of the record.  The nonce
  that the chain reports is a parameter of the resync operations: \<open>Inl\<close> is the RPC error.
\<close>

section \<open>State\<close>

record account =
  nonce :: u64
  freeNonces :: "u64 list"
  lastResyncNano :: int

record nonce_h =
  nvalue :: u64
  committed :: bool

definition NewAccount :: account where
  "NewAccount = \<lparr>nonce = 0, freeNonces = [], lastResyncNano = 0\<rparr>"

section \<open>Reserve, commit, roll back\<close>

definition Value :: "nonce_h \<Rightarrow> u64" where
  "Value n = nvalue n"

definition Commit :: "nonce_h \<Rightarrow> nonce_h" where
  "Commit n = n\<lparr>committed := True\<rparr>"

definition ReserveNonce :: "account \<Rightarrow> nonce_h \<times> account" where
  "ReserveNonce a =
     (case freeNonces a of
        n # rest \<Rightarrow> (\<lparr>nvalue = n, committed = False\<rparr>, a\<lparr>freeNonces := rest\<rparr>)
      | [] \<Rightarrow> (\<lparr>nvalue = nonce a, committed = False\<rparr>, a\<lparr>nonce := nonce a + 1\<rparr>))"

definition rollback :: "account \<Rightarrow> u64 \<Rightarrow> account" where
  "rollback a n =
     (if nonce a = n + 1 then a\<lparr>nonce := n\<rparr>
      else
        let free = freeNonces a;
            pos = sort_search (\<lambda>i. n \<le> free ! i) 0 (length free)
        in if pos < length free \<and> free ! pos = n then a
           else a\<lparr>freeNonces := take pos free @ n # drop pos free\<rparr>)"

text \<open>The flag swap of \<open>Rollback\<close>: the old flag and the handle with the flag set.\<close>

definition swap_committed :: "nonce_h \<Rightarrow> bool \<times> nonce_h" where
  "swap_committed n = (committed n, n\<lparr>committed := True\<rparr>)"

definition Rollback :: "nonce_h \<Rightarrow> account \<Rightarrow> nonce_h \<times> account" where
  "Rollback n a =
     (let (was, n') = swap_committed n
      in if was then (n', a) else (n', rollback a (nvalue n)))"

section \<open>Resynchronisation with the chain\<close>

definition set_if_higher :: "account \<Rightarrow> u64 \<Rightarrow> account" where
  "set_if_higher a n = (if n > nonce a then a\<lparr>nonce := n\<rparr> else a)"

definition Resync :: "account \<Rightarrow> 'e + u64 \<Rightarrow> 'e option \<times> account" where
  "Resync a r =
     (case r of Inl e \<Rightarrow> (Some e, a)
      | Inr n \<Rightarrow> (None, (set_if_higher a n)\<lparr>freeNonces := []\<rparr>))"

definition ResyncFromChain :: "account \<Rightarrow> 'e + u64 \<Rightarrow> 'e option \<times> account" where
  "ResyncFromChain a r =
     (case r of Inl e \<Rightarrow> (Some e, a)
      | Inr n \<Rightarrow> (None, (set_if_higher a n)\<lparr>freeNonces := []\<rparr>))"

definition ForceResync :: "account \<Rightarrow> 'e + u64 \<Rightarrow> 'e option \<times> account" where
  "ForceResync a r =
     (case r of Inl e \<Rightarrow> (Some e, a)
      | Inr n \<Rightarrow> (None, a\<lparr>nonce := n, freeNonces := []\<rparr>))"

definition ForceResyncFromChain :: "account \<Rightarrow> 'e + u64 \<Rightarrow> 'e option \<times> account" where
  "ForceResyncFromChain a r =
     (case r of Inl e \<Rightarrow> (Some e, a)
      | Inr n \<Rightarrow> (None, a\<lparr>nonce := n, freeNonces := []\<rparr>))"

text \<open>
  \<open>MaybeResyncFromChain\<close> in its three atomic parts: the rate gate on the loaded time
  stamp \<open>last\<close>, the compare-and-swap that lets one of several concurrent callers through,
  and the locked update with the nonce the RPC returned.  A caller that reads
  \<open>last\<close> and swaps without interference is the sequential function below.
\<close>

definition resync_due :: "int \<Rightarrow> int \<Rightarrow> int \<Rightarrow> bool" where
  "resync_due now prev minInterval \<longleftrightarrow> \<not> (now - prev < minInterval)"

definition cas_lastResync :: "account \<Rightarrow> int \<Rightarrow> int \<Rightarrow> bool \<times> account" where
  "cas_lastResync a prev now =
     (if lastResyncNano a = prev then (True, a\<lparr>lastResyncNano := now\<rparr>) else (False, a))"

definition apply_confirmed :: "account \<Rightarrow> u64 \<Rightarrow> account" where
  "apply_confirmed a n =
     (set_if_higher a n)\<lparr>freeNonces := filter (\<lambda>f. f \<ge> n) (freeNonces a)\<rparr>"

definition MaybeResyncFromChain ::
  "account \<Rightarrow> int \<Rightarrow> int \<Rightarrow> 'e + u64 \<Rightarrow> (bool \<times> 'e option) \<times> account" where
  "MaybeResyncFromChain a now minInterval r =
     (let prev = lastResyncNano a in
      if \<not> resync_due now prev minInterval then ((False, None), a)
      else case cas_lastResync a prev now of
          (False, a') \<Rightarrow> ((False, None), a')
        | (True, a') \<Rightarrow>
            (case r of Inl e \<Rightarrow> ((True, Some e), a')
             | Inr n \<Rightarrow> ((True, None), apply_confirmed a' n)))"

section \<open>Direct access\<close>

definition SetNonce :: "account \<Rightarrow> u64 \<Rightarrow> account" where
  "SetNonce a n = a\<lparr>nonce := n, freeNonces := []\<rparr>"

definition PeekNonce :: "account \<Rightarrow> u64" where
  "PeekNonce a = nonce a"

definition GetNonce :: "account \<Rightarrow> u64 \<times> account" where
  "GetNonce a = (nonce a, a\<lparr>nonce := nonce a + 1\<rparr>)"

definition DecrementNonce :: "account \<Rightarrow> bool \<times> account" where
  "DecrementNonce a =
     (if nonce a = 0 then (False, a) else (True, a\<lparr>nonce := nonce a - 1\<rparr>))"

section \<open>The allocator's invariant\<close>

text \<open>
  \<open>acc_inv base a Out\<close>: counted from \<open>base\<close>, every nonce below the counter is either in
  the free list or in \<open>Out\<close>, the nonces handed out and not given back, and in one of
  them only; the free list is sorted without duplicates.
\<close>

definition acc_inv :: "u64 \<Rightarrow> account \<Rightarrow> u64 set \<Rightarrow> bool" where
  "acc_inv base a Out \<longleftrightarrow>
     sorted (freeNonces a) \<and> distinct (freeNonces a) \<and> base \<le> nonce a
     \<and> set (freeNonces a) \<inter> Out = {} \<and> set (freeNonces a) \<union> Out = {base..<nonce a}"

text \<open>How many fresh nonces the 64-bit counter has left.\<close>

definition acc_room :: "account \<Rightarrow> nat" where
  "acc_room a = unat (- 1 :: u64) - unat (nonce a)"

lemma acc_room_pos: "(0 < acc_room a) = (nonce a \<noteq> - 1)"
proof -
  have "nonce a \<le> - 1" by simp
  then have "(unat (nonce a) < unat (- 1 :: u64)) = (nonce a \<noteq> - 1)"
    by (metis order_less_le word_less_nat_alt)
  then show ?thesis by (simp add: acc_room_def)
qed

lemma acc_inv_fresh: "acc_inv b (SetNonce a b) {}"
  by (simp add: acc_inv_def SetNonce_def)

lemma ReserveNonce_free:
  "freeNonces a = n # rest \<Longrightarrow>
     ReserveNonce a = (\<lparr>nvalue = n, committed = False\<rparr>, a\<lparr>freeNonces := rest\<rparr>)"
  by (simp add: ReserveNonce_def)

lemma ReserveNonce_counter:
  "freeNonces a = [] \<Longrightarrow>
     ReserveNonce a = (\<lparr>nvalue = nonce a, committed = False\<rparr>, a\<lparr>nonce := nonce a + 1\<rparr>)"
  by (simp add: ReserveNonce_def)

lemma ReserveNonce_open: "\<not> committed (fst (ReserveNonce a))"
  by (simp add: ReserveNonce_def split: list.split)

lemma ReserveNonce_not_out:
  assumes "acc_inv base a Out"
  shows "nvalue (fst (ReserveNonce a)) \<notin> Out"
proof (cases "freeNonces a")
  case Nil
  then show ?thesis using assms by (auto simp: acc_inv_def ReserveNonce_def)
next
  case (Cons n rest)
  then show ?thesis using assms by (auto simp: acc_inv_def ReserveNonce_def)
qed

lemma ReserveNonce_inv [inv_intros]:
  assumes inv: "acc_inv base a Out" and room: "0 < acc_room a"
  shows "acc_inv base (snd (ReserveNonce a)) (insert (nvalue (fst (ReserveNonce a))) Out)"
proof (cases "freeNonces a")
  case Nil
  with room inv have "nonce a \<noteq> - 1" "base \<le> nonce a" "{base..<nonce a} = Out"
    by (auto simp: acc_room_pos acc_inv_def)
  moreover from this have "base \<le> nonce a + 1"
    using u64_self_less_Suc by (meson order.strict_implies_order order_trans)
  ultimately show ?thesis
    using Nil by (auto simp: acc_inv_def ReserveNonce_def u64_atLeastLessThan_Suc)
next
  case (Cons n rest)
  with inv show ?thesis by (auto simp: acc_inv_def ReserveNonce_def)
qed

text \<open>The nonce handed out is the least one that is not out: gaps are filled first.\<close>

lemma ReserveNonce_least:
  assumes inv: "acc_inv base a Out" and m: "base \<le> m" "m < nvalue (fst (ReserveNonce a))"
  shows "m \<in> Out"
proof (cases "freeNonces a")
  case Nil
  with inv m show ?thesis by (auto simp: acc_inv_def ReserveNonce_def)
next
  case (Cons n rest)
  then have n: "m < n" using m by (simp add: ReserveNonce_def)
  have "n < nonce a" using inv Cons by (auto simp: acc_inv_def)
  with m n have "m \<in> set (freeNonces a) \<union> Out" using inv by (auto simp: acc_inv_def)
  moreover have "m \<notin> set (freeNonces a)" using inv Cons n by (auto simp: acc_inv_def)
  ultimately show ?thesis by blast
qed

lemma ReserveNonce_room: "acc_room a \<le> acc_room (snd (ReserveNonce a)) + 1"
proof (cases "freeNonces a")
  case Nil
  show ?thesis
  proof (cases "nonce a = - 1")
    case True
    then show ?thesis by (simp add: acc_room_def)
  next
    case False
    then show ?thesis using Nil by (simp add: acc_room_def ReserveNonce_def u64_unat_Suc)
  qed
next
  case (Cons n rest)
  then show ?thesis by (simp add: acc_room_def ReserveNonce_def)
qed

section \<open>Giving a nonce back\<close>

lemma rollback_head: "nonce a = n + 1 \<Longrightarrow> rollback a n = a\<lparr>nonce := n\<rparr>"
  by (simp add: rollback_def)

lemma rollback_insert:
  assumes "nonce a \<noteq> n + 1" "sorted (freeNonces a)" "n \<notin> set (freeNonces a)"
  obtains xs ys where "freeNonces a = xs @ ys"
    "rollback a n = a\<lparr>freeNonces := xs @ n # ys\<rparr>"
    "\<forall>x \<in> set xs. x < n" "\<forall>y \<in> set ys. n \<le> y"
proof -
  define pos where "pos = sort_search (\<lambda>i. n \<le> freeNonces a ! i) 0 (length (freeNonces a))"
  note pos = sort_search_sorted [OF assms(2) pos_def]
  have "\<not> (pos < length (freeNonces a) \<and> freeNonces a ! pos = n)"
    using assms(3) nth_mem by metis
  then have "rollback a n = a\<lparr>freeNonces := take pos (freeNonces a) @ n # drop pos (freeNonces a)\<rparr>"
    using assms(1) by (auto simp: rollback_def Let_def pos_def [symmetric])
  then show thesis using pos that [of "take pos (freeNonces a)" "drop pos (freeNonces a)"] by simp
qed

lemma rollback_inv [inv_intros]:
  assumes inv: "acc_inv base a Out" and out: "n \<in> Out"
  shows "acc_inv base (rollback a n) (Out - {n})"
proof -
  have n: "base \<le> n" "n < nonce a" "n \<notin> set (freeNonces a)"
    using inv out by (auto simp: acc_inv_def)
  show ?thesis
  proof (cases "nonce a = n + 1")
    case True
    with n have "n \<noteq> - 1" using u64_less_not_max by blast
    with True n inv out show ?thesis
      by (auto simp: acc_inv_def rollback_head u64_atLeastLessThan_Suc)
  next
    case False
    obtain xs ys where split: "freeNonces a = xs @ ys"
      and rb: "rollback a n = a\<lparr>freeNonces := xs @ n # ys\<rparr>"
      and ord: "\<forall>x \<in> set xs. x < n" "\<forall>y \<in> set ys. n \<le> y"
      using rollback_insert [OF False _ n(3)] inv unfolding acc_inv_def by blast
    from inv have "sorted (xs @ ys)" "distinct (xs @ ys)" by (auto simp: acc_inv_def split)
    then have "sorted (xs @ n # ys)" "distinct (xs @ n # ys)"
      using ord n(3) split by (auto simp: sorted_append)
    moreover have "set (xs @ n # ys) = insert n (set (freeNonces a))" by (simp add: split)
    ultimately show ?thesis using inv out by (auto simp: acc_inv_def rb)
  qed
qed

lemma rollback_room:
  assumes "acc_inv base a Out" "n \<in> Out"
  shows "acc_room a \<le> acc_room (rollback a n)"
proof (cases "nonce a = n + 1")
  case True
  have "n < nonce a" using assms by (auto simp: acc_inv_def)
  then have "n \<noteq> - 1" by (rule u64_less_not_max)
  with True show ?thesis by (simp add: acc_room_def rollback_head u64_unat_Suc)
next
  case False
  then show ?thesis by (simp add: acc_room_def rollback_def Let_def)
qed

section \<open>The interface the senders rely on\<close>

text \<open>
  What a client that reserves nonces and gives them back may assume of the allocator:
  \<open>held a Out\<close> says that exactly the nonces of \<open>Out\<close> are handed out.
\<close>

locale nonce_source =
  fixes reserve :: "'a \<Rightarrow> nonce_h \<times> 'a"
    and giveback :: "'a \<Rightarrow> u64 \<Rightarrow> 'a"
    and held :: "'a \<Rightarrow> u64 set \<Rightarrow> bool"
    and room :: "'a \<Rightarrow> nat"
  assumes reserve_open: "\<not> committed (fst (reserve a))"
    and reserve_fresh: "held a Out \<Longrightarrow> nvalue (fst (reserve a)) \<notin> Out"
    and reserve_held:
      "held a Out \<Longrightarrow> 0 < room a \<Longrightarrow> held (snd (reserve a)) (insert (nvalue (fst (reserve a))) Out)"
    and reserve_room: "room a \<le> room (snd (reserve a)) + 1"
    and giveback_held: "held a Out \<Longrightarrow> n \<in> Out \<Longrightarrow> held (giveback a n) (Out - {n})"
    and giveback_room: "held a Out \<Longrightarrow> n \<in> Out \<Longrightarrow> room a \<le> room (giveback a n)"
begin

text \<open>A reservation that is given back leaves the set of handed-out nonces as it was.\<close>

lemma reserve_giveback:
  assumes "held a Out" "0 < room a"
  shows "held (giveback (snd (reserve a)) (nvalue (fst (reserve a)))) Out"
  using giveback_held [OF reserve_held [OF assms], of "nvalue (fst (reserve a))"]
    reserve_fresh [OF assms(1)]
  by simp

text \<open>Giving back a whole batch, one nonce at a time, in any order.\<close>

lemma giveback_all:
  assumes "held a Out" "distinct vs" "set vs \<subseteq> Out"
  shows "held (foldl giveback a vs) (Out - set vs) \<and> room a \<le> room (foldl giveback a vs)"
  using assms
proof (induction vs arbitrary: a Out)
  case (Cons v vs)
  then have "held (giveback a v) (Out - {v})" "room a \<le> room (giveback a v)"
    by (auto intro: giveback_held giveback_room)
  moreover have "Out - set (v # vs) = Out - {v} - set vs" by auto
  ultimately show ?case
    using Cons.IH [of "giveback a v" "Out - {v}"] Cons.prems by fastforce
qed simp

end

interpretation acct: nonce_source ReserveNonce rollback "acc_inv base" acc_room for base
  by unfold_locales
    (rule ReserveNonce_open ReserveNonce_not_out ReserveNonce_inv ReserveNonce_room
      rollback_inv rollback_room; assumption)+

section \<open>The part of the invariant that survives a resync\<close>

text \<open>
  A resync skips nonces, so the nonces below the counter are no longer all accounted for; what
  remains is that no nonce is in two places and that all of them lie below the counter.
\<close>

definition acc_apart :: "account \<Rightarrow> u64 set \<Rightarrow> bool" where
  "acc_apart a Out \<longleftrightarrow>
     sorted (freeNonces a) \<and> distinct (freeNonces a) \<and> set (freeNonces a) \<inter> Out = {}
     \<and> (\<forall>n \<in> set (freeNonces a) \<union> Out. n < nonce a)"

lemma acc_inv_apart: "acc_inv base a Out \<Longrightarrow> acc_apart a Out"
  by (auto simp: acc_inv_def acc_apart_def)

lemma apart_fresh:
  assumes "acc_apart a Out" shows "nvalue (fst (ReserveNonce a)) \<notin> Out"
  using assms by (cases "freeNonces a") (auto simp: acc_apart_def ReserveNonce_def)

lemma apart_reserve:
  assumes "acc_apart a Out" "0 < acc_room a"
  shows "acc_apart (snd (ReserveNonce a)) (insert (nvalue (fst (ReserveNonce a))) Out)"
proof (cases "freeNonces a")
  case Nil
  have "nonce a \<noteq> - 1" using assms(2) by (simp add: acc_room_pos)
  then show ?thesis
    using assms(1) Nil by (auto simp: acc_apart_def ReserveNonce_def u64_less_Suc order.strict_implies_order)
next
  case (Cons n rest)
  with assms show ?thesis by (auto simp: acc_apart_def ReserveNonce_def)
qed

lemma apart_giveback:
  assumes inv: "acc_apart a Out" and out: "n \<in> Out"
  shows "acc_apart (rollback a n) (Out - {n})"
proof -
  have n: "n < nonce a" "n \<notin> set (freeNonces a)" using inv out by (auto simp: acc_apart_def)
  show ?thesis
  proof (cases "nonce a = n + 1")
    case True
    with n(1) have "n \<noteq> - 1" using u64_less_not_max by blast
    then have "m < n" if "m < nonce a" "m \<noteq> n" for m
      using that True by (simp add: u64_less_Suc)
    with True n inv show ?thesis by (auto simp: acc_apart_def rollback_head)
  next
    case False
    obtain xs ys where split: "freeNonces a = xs @ ys"
      and rb: "rollback a n = a\<lparr>freeNonces := xs @ n # ys\<rparr>"
      and ord: "\<forall>x \<in> set xs. x < n" "\<forall>y \<in> set ys. n \<le> y"
      using rollback_insert [OF False _ n(2)] inv unfolding acc_apart_def by blast
    from inv have "sorted (xs @ ys)" "distinct (xs @ ys)" by (auto simp: acc_apart_def split)
    then have "sorted (xs @ n # ys)" "distinct (xs @ n # ys)"
      using ord n(2) split by (auto simp: sorted_append)
    moreover have "set (xs @ n # ys) = insert n (set (freeNonces a))" by (simp add: split)
    ultimately show ?thesis using inv n(1) out by (auto simp: acc_apart_def rb)
  qed
qed

lemma apart_giveback_room:
  assumes "acc_apart a Out" "n \<in> Out" shows "acc_room a \<le> acc_room (rollback a n)"
proof (cases "nonce a = n + 1")
  case True
  have "n < nonce a" using assms by (auto simp: acc_apart_def)
  then have "n \<noteq> - 1" by (rule u64_less_not_max)
  with True show ?thesis by (simp add: acc_room_def rollback_head u64_unat_Suc)
next
  case False
  then show ?thesis by (simp add: acc_room_def rollback_def Let_def)
qed

interpretation apart: nonce_source ReserveNonce rollback acc_apart acc_room
  by unfold_locales
    (rule ReserveNonce_open apart_fresh apart_reserve ReserveNonce_room apart_giveback
      apart_giveback_room; assumption)+

lemma apart_resync:
  assumes "acc_apart a Out" shows "acc_apart (snd (MaybeResyncFromChain a now m r)) Out"
proof -
  have "acc_apart (apply_confirmed b c) Out" if "acc_apart b Out" for b c
    using that by (auto simp: acc_apart_def apply_confirmed_def set_if_higher_def sorted_filter
        dest: less_trans intro: sorted_wrt_filter)
  moreover have "acc_apart (a\<lparr>lastResyncNano := now\<rparr>) Out" using assms by (simp add: acc_apart_def)
  ultimately show ?thesis
    using assms by (auto simp: MaybeResyncFromChain_def cas_lastResync_def Let_def split: sum.split)
qed

end
