(* ===== verification/Nonce_Pool.thy ===== *)
theory Nonce_Pool
  imports Nonce_Account
begin

text \<open>
  All interleavings of the goroutines that share one account.  A pool is the account,
  every handle \<open>ReserveNonce\<close> has returned, and two ghost lists: \<open>transit\<close>, the nonces of
  \<open>Rollback\<close> calls that have swapped the handle's flag and have not yet taken the account's
  lock, and \<open>used\<close>, the nonces that were committed.  One operation is one atomic action of
  the code, so a list of operations is one interleaving.  The resynchronisation that the
  adaptive controller triggers on a running test (\<open>resyncAllNonces\<close> of
  \<open>src/internal/loadgen/builder.go\<close>) is at the end.
\<close>

section \<open>The shared pool\<close>

record nonce_pool =
  acct :: account
  handles :: "nonce_h list"
  transit :: "u64 list"
  used :: "u64 list"

definition pool_init :: "u64 \<Rightarrow> nonce_pool" where
  "pool_init base =
     \<lparr>acct = SetNonce NewAccount base, handles = [], transit = [], used = []\<rparr>"

datatype pool_op = OpReserve | OpCommit nat | OpRollbackSwap nat | OpRollbackLocked nat

definition live_nonces :: "nonce_h list \<Rightarrow> u64 list" where
  "live_nonces hs = map nvalue (filter (\<lambda>h. \<not> committed h) hs)"

text \<open>The nonces handed out and not given back.\<close>

definition pool_out :: "nonce_pool \<Rightarrow> u64 list" where
  "pool_out s = live_nonces (handles s) @ transit s @ used s"

definition remove_nth :: "nat \<Rightarrow> 'a list \<Rightarrow> 'a list" where
  "remove_nth k xs = take k xs @ drop (Suc k) xs"

fun pool_step :: "nonce_pool \<Rightarrow> pool_op \<Rightarrow> nonce_pool" where
  "pool_step s OpReserve =
     (let (h, a) = ReserveNonce (acct s)
      in s\<lparr>acct := a, handles := handles s @ [h]\<rparr>)"
| "pool_step s (OpCommit i) =
     (if i < length (handles s) then
        let h = handles s ! i
        in s\<lparr>handles := (handles s)[i := Commit h],
             used := (if committed h then used s else nvalue h # used s)\<rparr>
      else s)"
| "pool_step s (OpRollbackSwap i) =
     (if i < length (handles s) then
        let (was, h) = swap_committed (handles s ! i)
        in s\<lparr>handles := (handles s)[i := h],
             transit := (if was then transit s else nvalue h # transit s)\<rparr>
      else s)"
| "pool_step s (OpRollbackLocked k) =
     (if k < length (transit s) then
        s\<lparr>acct := rollback (acct s) (transit s ! k), transit := remove_nth k (transit s)\<rparr>
      else s)"

fun pool_run :: "nonce_pool \<Rightarrow> pool_op list \<Rightarrow> nonce_pool" where
  "pool_run s [] = s"
| "pool_run s (x # xs) = pool_run (pool_step s x) xs"

text \<open>The invariant: the handed-out nonces are pairwise distinct and are exactly what the account misses.\<close>

definition pool_ok :: "u64 \<Rightarrow> nonce_pool \<Rightarrow> bool" where
  "pool_ok base s \<longleftrightarrow>
     acc_inv base (acct s) (set (pool_out s)) \<and> distinct (pool_out s)"

lemma live_nonces_simps [simp]:
  "live_nonces [] = []"
  "live_nonces (h # hs) = (if committed h then live_nonces hs else nvalue h # live_nonces hs)"
  "live_nonces (xs @ ys) = live_nonces xs @ live_nonces ys"
  by (auto simp: live_nonces_def)

lemma live_nonces_split:
  assumes "i < length hs"
  shows "live_nonces hs = live_nonces (take i hs) @ live_nonces [hs ! i] @ live_nonces (drop (Suc i) hs)"
    and "live_nonces (hs[i := h'])
      = live_nonces (take i hs) @ live_nonces [h'] @ live_nonces (drop (Suc i) hs)"
  using arg_cong [OF id_take_nth_drop [OF assms], of live_nonces]
    arg_cong [OF upd_conv_take_nth_drop [OF assms], of live_nonces]
  by simp_all

lemma mset_live_close:
  assumes "i < length hs" "\<not> committed (hs ! i)" "committed h'"
  shows "mset (live_nonces hs) = add_mset (nvalue (hs ! i)) (mset (live_nonces (hs[i := h'])))"
  by (subst live_nonces_split(1) [OF assms(1)], subst live_nonces_split(2) [OF assms(1)])
    (simp add: assms(2,3))

lemma live_nonces_committed:
  assumes "i < length hs" "committed (hs ! i)" "committed h'"
  shows "live_nonces (hs[i := h']) = live_nonces hs"
  by (subst live_nonces_split(1) [OF assms(1)], subst live_nonces_split(2) [OF assms(1)])
    (simp add: assms(2,3))

lemma mset_remove_nth:
  "k < length xs \<Longrightarrow> mset xs = add_mset (xs ! k) (mset (remove_nth k xs))"
  unfolding remove_nth_def
  by (subst (1) id_take_nth_drop [of k xs]) auto

text \<open>The invariant speaks of the handed-out nonces as a multiset only.\<close>

lemma pool_ok_mset:
  assumes "pool_ok base s" "acct t = acct s" "mset (pool_out t) = mset (pool_out s)"
  shows "pool_ok base t"
  using assms mset_eq_setD [OF assms(3)] mset_eq_imp_distinct_iff [OF assms(3)]
  by (simp add: pool_ok_def)

lemma pool_step_ok:
  assumes ok: "pool_ok base s" and room: "0 < acc_room (acct s)"
  shows "pool_ok base (pool_step s x)"
proof (cases x)
  case OpReserve
  obtain h a where ha: "ReserveNonce (acct s) = (h, a)" by (cases "ReserveNonce (acct s)")
  have inv: "acc_inv base (acct s) (set (pool_out s))" using ok by (simp add: pool_ok_def)
  have "mset (pool_out (pool_step s x)) = add_mset (nvalue h) (mset (pool_out s))"
    using ReserveNonce_open [of "acct s"]
    by (simp add: OpReserve ha pool_out_def live_nonces_def)
  then have "set (pool_out (pool_step s x)) = insert (nvalue h) (set (pool_out s))"
    "distinct (pool_out (pool_step s x)) = distinct (nvalue h # pool_out s)"
    by (metis mset.simps(2) mset_eq_setD list.simps(15), metis mset.simps(2) mset_eq_imp_distinct_iff)
  moreover have "acct (pool_step s x) = a" by (simp add: OpReserve ha)
  ultimately show ?thesis
    using acct.reserve_held [OF inv room] acct.reserve_fresh [OF inv] ok
    by (simp add: pool_ok_def ha)
next
  case (OpCommit i)
  show ?thesis
  proof (cases "i < length (handles s)")
    case True
    then show ?thesis
      using mset_live_close [OF True, of "Commit (handles s ! i)"]
        live_nonces_committed [OF True, of "Commit (handles s ! i)"]
      by (intro pool_ok_mset [OF ok]) (auto simp: OpCommit Let_def pool_out_def Commit_def)
  qed (simp add: OpCommit ok)
next
  case (OpRollbackSwap i)
  let ?h = "(handles s ! i)\<lparr>committed := True\<rparr>"
  show ?thesis
  proof (cases "i < length (handles s)")
    case True
    then show ?thesis
      using mset_live_close [OF True, of ?h] live_nonces_committed [OF True, of ?h]
      by (intro pool_ok_mset [OF ok]) (auto simp: OpRollbackSwap Let_def pool_out_def swap_committed_def)
  qed (simp add: OpRollbackSwap ok)
next
  case (OpRollbackLocked k)
  show ?thesis
  proof (cases "k < length (transit s)")
    case True
    let ?n = "transit s ! k" and ?t = "pool_step s x"
    have m: "mset (pool_out s) = add_mset ?n (mset (pool_out ?t))"
      using mset_remove_nth [OF True] True by (simp add: OpRollbackLocked pool_out_def)
    then have "mset (pool_out s) = mset (?n # pool_out ?t)" by simp
    then have "set (pool_out s) = insert ?n (set (pool_out ?t))"
      and "distinct (?n # pool_out ?t)"
      using ok mset_eq_setD mset_eq_imp_distinct_iff unfolding pool_ok_def by (metis list.simps(15))+
    moreover have "acct ?t = rollback (acct s) ?n" using True by (simp add: OpRollbackLocked)
    ultimately show ?thesis
      using acct.giveback_held [of base "acct s" "set (pool_out s)" ?n] ok
      by (auto simp: pool_ok_def)
  qed (simp add: OpRollbackLocked ok)
qed

lemma pool_step_room:
  assumes "pool_ok base s"
  shows "acc_room (acct s) \<le> acc_room (acct (pool_step s x)) + 1"
proof (cases x)
  case OpReserve
  then show ?thesis using ReserveNonce_room [of "acct s"] by (simp add: Let_def split_beta)
next
  case (OpRollbackLocked k)
  then show ?thesis
    using rollback_room [of base "acct s" "set (pool_out s)" "transit s ! k"] assms
    by (auto simp: pool_ok_def pool_out_def)
qed (auto simp: Let_def swap_committed_def)

lemma pool_run_ok:
  assumes "pool_ok base s" "length ops \<le> acc_room (acct s)"
  shows "pool_ok base (pool_run s ops)"
  using assms
proof (induction ops arbitrary: s)
  case (Cons x ops)
  have "pool_ok base (pool_step s x)" using Cons.prems by (intro pool_step_ok) auto
  moreover have "length ops \<le> acc_room (acct (pool_step s x))"
    using pool_step_room [OF Cons.prems(1), of x] Cons.prems(2) by simp
  ultimately show ?case by (simp add: Cons.IH)
qed simp

lemma pool_init_ok: "pool_ok base (pool_init base)"
  using acc_inv_fresh by (simp add: pool_ok_def pool_init_def pool_out_def live_nonces_def
      acc_inv_def SetNonce_def)

lemma pool_init_room: "acc_room (acct (pool_init base)) = unat (- 1 :: u64) - unat base"
  by (simp add: acc_room_def pool_init_def SetNonce_def)

lemma pool_reachable_ok:
  "unat base + length ops < 2 ^ 64 \<Longrightarrow> pool_ok base (pool_run (pool_init base) ops)"
  by (rule pool_run_ok [OF pool_init_ok]) (simp add: pool_init_room unat_u64_max)

section \<open>Calls on one handle\<close>

datatype handle_call = CallCommit | CallRollback

fun handle_run :: "nonce_h \<Rightarrow> account \<Rightarrow> handle_call list \<Rightarrow> nonce_h \<times> account" where
  "handle_run h a [] = (h, a)"
| "handle_run h a (CallCommit # cs) = handle_run (Commit h) a cs"
| "handle_run h a (CallRollback # cs) = (let (h', a') = Rollback h a in handle_run h' a' cs)"

lemma handle_run_closed: "committed h \<Longrightarrow> handle_run h a cs = (h, a)"
proof (induction cs)
  case (Cons c cs)
  have "Commit h = h" "Rollback h a = (h, a)"
    using Cons.prems by (cases h, simp add: Commit_def Rollback_def swap_committed_def)+
  with Cons show ?case by (cases c) simp_all
qed simp

section \<open>Runs of reservations\<close>

fun reserve_many :: "nat \<Rightarrow> account \<Rightarrow> nonce_h list \<times> account" where
  "reserve_many 0 a = ([], a)"
| "reserve_many (Suc k) a =
     (let (h, a') = ReserveNonce a; (hs, a'') = reserve_many k a' in (h # hs, a''))"

lemma reserve_many_ge:
  assumes "freeNonces a = []" "k \<le> acc_room a" "h \<in> set (fst (reserve_many k a))"
  shows "nonce a \<le> nvalue h"
  using assms
proof (induction k arbitrary: a)
  case (Suc k)
  let ?a = "a\<lparr>nonce := nonce a + 1\<rparr>"
  have ne: "nonce a \<noteq> - 1" using Suc.prems(2) acc_room_pos [of a] by simp
  have "k \<le> acc_room ?a" using Suc.prems(2) ne by (simp add: acc_room_def u64_unat_Suc)
  then have "nonce a + 1 \<le> nvalue h" if "h \<in> set (fst (reserve_many k ?a))"
    using Suc.IH [of ?a] Suc.prems(1) that by simp
  moreover have "nonce a < nonce a + 1" using ne by (rule u64_self_less_Suc)
  ultimately show ?case
    using Suc.prems(1,3) by (auto simp: ReserveNonce_counter split_beta Let_def)
qed simp

section \<open>Concurrent callers of the rate-limited resync\<close>

text \<open>Callers that all loaded the same time stamp before any of them swapped, in swap order.\<close>

fun resync_race :: "account \<Rightarrow> int \<Rightarrow> int \<Rightarrow> int list \<Rightarrow> bool list \<times> account" where
  "resync_race a prev minInterval [] = ([], a)"
| "resync_race a prev minInterval (now # ts) =
     (if resync_due now prev minInterval then
        let (ok, a') = cas_lastResync a prev now; (oks, a'') = resync_race a' prev minInterval ts
        in (ok # oks, a'')
      else let (oks, a'') = resync_race a prev minInterval ts in (False # oks, a''))"

lemma resync_race_lost:
  "lastResyncNano a \<noteq> prev \<Longrightarrow> count_list (fst (resync_race a prev m ts)) True = 0"
  by (induction ts) (auto simp: cas_lastResync_def split_beta Let_def)

lemma resync_race_once:
  "0 < m \<Longrightarrow> count_list (fst (resync_race a prev m ts)) True \<le> 1"
proof (induction ts arbitrary: a)
  case (Cons t ts)
  show ?case
  proof (cases "resync_due t prev m \<and> lastResyncNano a = prev")
    case True
    then have "lastResyncNano (a\<lparr>lastResyncNano := t\<rparr>) \<noteq> prev"
      using Cons.prems by (auto simp: resync_due_def)
    with True show ?thesis
      using resync_race_lost [of "a\<lparr>lastResyncNano := t\<rparr>" prev m ts]
      by (simp add: cas_lastResync_def split_beta Let_def)
  next
    case False
    with Cons.IH [OF Cons.prems] show ?thesis
      by (auto simp: cas_lastResync_def split_beta Let_def)
  qed
qed simp

section \<open>Resynchronising every account of a running test\<close>

record resync_counts =
  resyncedCount :: nat
  fallbackCount :: nat
  failedCount :: nat

text \<open>
  One account with the builder's answer and the chain's answer: the builder first, the
  chain only when the builder fails.
\<close>

fun resyncAllNonces ::
  "(account \<times> ('e + u64) \<times> ('e + u64)) list \<Rightarrow> resync_counts \<Rightarrow> account list \<times> resync_counts" where
  "resyncAllNonces [] c = ([], c)"
| "resyncAllNonces ((a, builder, l2) # rest) c =
     (let (e, a1) = Resync a builder;
          (a', c') =
            (case e of
               None \<Rightarrow> (a1, c\<lparr>resyncedCount := resyncedCount c + 1\<rparr>)
             | Some _ \<Rightarrow>
                 (let (e2, a2) = ResyncFromChain a1 l2
                  in case e2 of
                       None \<Rightarrow> (a2, c\<lparr>fallbackCount := fallbackCount c + 1\<rparr>)
                     | Some _ \<Rightarrow> (a2, c\<lparr>failedCount := failedCount c + 1\<rparr>)));
          (as, c'') = resyncAllNonces rest c'
      in (a' # as, c''))"

section \<open>Properties\<close>

text \<open>
  C5: However the goroutines sharing an account interleave their reservations, commits and
  rollbacks, the nonces below the counter are split without overlap into those that are
  handed out (still open, on their way back, or spent) and the sorted free list; in
  particular no nonce is ever held twice and none below the counter is lost.
\<close>
theorem nonce_handout_partition:
  assumes "unat base + length ops < 2 ^ 64" and "s = pool_run (pool_init base) ops"
  shows "distinct (pool_out s @ freeNonces (acct s))
    \<and> set (pool_out s @ freeNonces (acct s)) = {base..<nonce (acct s)}
    \<and> sorted (freeNonces (acct s))"
  using pool_reachable_ok [OF assms(1)] assms(2) by (auto simp: pool_ok_def acc_inv_def)

theorem nonce_handout_partition_witness:
  "let s = pool_run (pool_init 7) [OpReserve, OpReserve, OpReserve, OpRollbackSwap 1,
             OpCommit 0, OpRollbackLocked 0]
   in freeNonces (acct s) = [8] \<and> used s = [7] \<and> nonce (acct s) = 10
      \<and> distinct (pool_out s @ freeNonces (acct s))"
proof -
  let ?ops = "[OpReserve, OpReserve, OpReserve, OpRollbackSwap 1, OpCommit 0, OpRollbackLocked 0]"
  let ?s = "pool_run (pool_init 7) ?ops"
  have "freeNonces (acct ?s) = [8] \<and> used ?s = [7] \<and> nonce (acct ?s) = 10"
    by (simp add: Let_def pool_init_def SetNonce_def ReserveNonce_def swap_committed_def Commit_def
        rollback_def sort_search.simps remove_nth_def)
  moreover have "unat (7::u64) + length ?ops < 2 ^ 64" by simp
  ultimately show ?thesis
    using nonce_handout_partition [of 7 ?ops, OF _ refl] by (simp only: Let_def)
qed

text \<open>
  C6: The allocator refines the abstract one that always hands out the least nonce not
  currently handed out: after any interleaving, the next reservation returns exactly that
  nonce, so gaps left by rolled-back sends are refilled before the counter moves.
\<close>
theorem next_nonce_is_least_missing:
  assumes "unat base + length ops < 2 ^ 64" and "s = pool_run (pool_init base) ops"
  shows "nvalue (fst (ReserveNonce (acct s))) = (LEAST n. base \<le> n \<and> n \<notin> set (pool_out s))"
proof -
  let ?v = "nvalue (fst (ReserveNonce (acct s)))"
  have inv: "acc_inv base (acct s) (set (pool_out s))"
    using pool_reachable_ok [OF assms(1)] assms(2) by (simp add: pool_ok_def)
  have "base \<le> ?v" using inv by (auto simp: acc_inv_def ReserveNonce_def split: list.split)
  then have "(LEAST n. base \<le> n \<and> n \<notin> set (pool_out s)) = ?v"
    using acct.reserve_fresh [OF inv] ReserveNonce_least [OF inv]
    by (intro Least_equality) (auto simp: not_less [symmetric])
  then show ?thesis by simp
qed

theorem next_nonce_is_least_missing_witness:
  "let s = pool_run (pool_init 7) [OpReserve, OpReserve, OpRollbackSwap 0, OpRollbackLocked 0]
   in nvalue (fst (ReserveNonce (acct s))) = 7
      \<and> (LEAST n. 7 \<le> n \<and> n \<notin> set (pool_out s)) = 7"
proof -
  let ?ops = "[OpReserve, OpReserve, OpRollbackSwap 0, OpRollbackLocked 0]"
  let ?s = "pool_run (pool_init 7) ?ops"
  have v: "nvalue (fst (ReserveNonce (acct ?s))) = 7"
    by (simp add: Let_def pool_init_def SetNonce_def ReserveNonce_def swap_committed_def
        rollback_def sort_search.simps remove_nth_def)
  have "unat (7::u64) + length ?ops < 2 ^ 64" by simp
  from next_nonce_is_least_missing [OF this refl] v show ?thesis by (simp only: Let_def)
qed

text \<open>
  Commit and Rollback are idempotent and the first call decides: whatever further calls
  follow on the same handle, the account ends as that first call left it.
\<close>
theorem first_handle_call_decides:
  assumes "\<not> committed h"
  shows "snd (handle_run h a (CallCommit # cs)) = a
    \<and> snd (handle_run h a (CallRollback # cs)) = rollback a (nvalue h)"
  using assms handle_run_closed
  by (simp add: Commit_def Rollback_def swap_committed_def)

theorem first_handle_call_decides_witness:
  "snd (handle_run (fst (ReserveNonce (SetNonce NewAccount 5))) (SetNonce NewAccount 6)
     [CallRollback, CallCommit, CallRollback]) = SetNonce NewAccount 5"
  using first_handle_call_decides [of "fst (ReserveNonce (SetNonce NewAccount 5))"
      "SetNonce NewAccount 6" "[CallCommit, CallRollback]"]
  by (simp add: ReserveNonce_def SetNonce_def rollback_def)

text \<open>
  The in-test resync never moves the counter backwards, keeps exactly the free nonces
  the chain has not consumed, and of any number of concurrent callers that saw the same
  time stamp at most one gets through to the RPC.
\<close>
theorem in_test_resync_forward_and_throttled:
  assumes "0 < minInterval"
  shows "nonce a \<le> nonce (snd (MaybeResyncFromChain a now minInterval r))
    \<and> (fst (fst (MaybeResyncFromChain a now minInterval (Inr c))) \<longrightarrow>
         c \<le> nonce (snd (MaybeResyncFromChain a now minInterval (Inr c)))
         \<and> freeNonces (snd (MaybeResyncFromChain a now minInterval (Inr c)))
             = filter (\<lambda>f. c \<le> f) (freeNonces a))
    \<and> count_list (fst (resync_race a prev minInterval ts)) True \<le> 1"
proof (intro conjI)
  show "nonce a \<le> nonce (snd (MaybeResyncFromChain a now minInterval r))"
    by (auto simp: MaybeResyncFromChain_def cas_lastResync_def apply_confirmed_def
        set_if_higher_def Let_def split: sum.split)
  show "count_list (fst (resync_race a prev minInterval ts)) True \<le> 1"
    by (rule resync_race_once [OF assms])
qed (auto simp: MaybeResyncFromChain_def cas_lastResync_def apply_confirmed_def set_if_higher_def
    Let_def not_less)

theorem in_test_resync_forward_and_throttled_witness:
  "count_list (fst (resync_race (SetNonce NewAccount 5) 0 750 [800, 810, 820])) True \<le> 1
   \<and> fst (resync_race (SetNonce NewAccount 5) 0 750 [800, 810, 820]) = [True, False, False]"
  using in_test_resync_forward_and_throttled [of 750 "SetNonce NewAccount 5" 0
      "Inl ()" 0 0 "[800, 810, 820]"]
  by (simp add: resync_due_def cas_lastResync_def SetNonce_def NewAccount_def)

text \<open>
  A plain resync on a running account strands its rolled-back nonces: it empties the
  free list, so when the chain is not ahead of the counter every later reservation is at or
  above the counter and the discarded nonces below it are never offered again.
\<close>
theorem plain_resync_strands_free_nonces:
  assumes inv: "acc_inv base a Out" and n: "n \<in> set (freeNonces a)" and c: "c \<le> nonce a"
    and k: "k \<le> acc_room a"
  shows "n \<notin> nvalue ` set (fst (reserve_many k (snd (Resync a (Inr c :: 'e + u64)))))"
proof -
  define b where "b = snd (Resync a (Inr c :: 'e + u64))"
  have b: "freeNonces b = []" "nonce b = nonce a"
    using c by (auto simp: b_def Resync_def set_if_higher_def)
  then have "nonce a \<le> nvalue h" if "h \<in> set (fst (reserve_many k b))" for h
    using reserve_many_ge [OF b(1) _ that] k by (simp add: acc_room_def)
  moreover have "n < nonce a" using inv n by (auto simp: acc_inv_def)
  ultimately show ?thesis by (force simp: b_def)
qed

theorem plain_resync_strands_free_nonces_witness:
  "let a = \<lparr>nonce = 9, freeNonces = [6], lastResyncNano = 0\<rparr>
   in (6::u64) \<notin> nvalue ` set (fst (reserve_many 3 (snd (Resync a (Inr 6)))))
      \<and> map nvalue (fst (reserve_many 3 (snd (Resync a (Inr 6))))) = [9, 10, 11]"
proof -
  let ?a = "\<lparr>nonce = 9, freeNonces = [6], lastResyncNano = 0\<rparr>"
  have "{5..<9} = {5, 6, 7, 8 :: u64}"
    using u64_atLeastLessThan_Suc [of 5 8] u64_atLeastLessThan_Suc [of 5 7]
      u64_atLeastLessThan_Suc [of 5 6] u64_atLeastLessThan_Suc [of 5 5] by auto
  then have "acc_inv 5 ?a {5, 7, 8}" by (auto simp: acc_inv_def)
  from plain_resync_strands_free_nonces [OF this, of 6 6 3] show ?thesis
    by (simp add: acc_room_def Resync_def set_if_higher_def ReserveNonce_def numeral_3_eq_3)
qed

text \<open>
  A forced resync is safe only when no reservation is outstanding: if a send that was in
  flight when the counter was lowered is rolled back afterwards, the allocator hands the
  same nonce out twice.
\<close>
theorem forced_resync_stale_rollback_reissues:
  "map nvalue (fst (reserve_many 4 (rollback (snd (ForceResync a (Inr 2))) 4))) = [4, 2, 3, 4]"
  by (simp add: ForceResync_def rollback_def sort_search.simps ReserveNonce_def eval_nat_numeral)

end
