(* ===== verification/Float64.thy ===== *)
theory Float64
  imports Complex_Main "HOL-Library.Log_Nat" Prelude
begin

text \<open>
  Go's float64 on the values this program computes with: finite, zero or of normal magnitude.
  A float64 is the rational it denotes, and every arithmetic operation is the exact rational
  operation followed by rounding to 53 significant bits, ties to even. Infinities, NaN, subnormals
  and the sign of zero are outside the model, and so is the fusing of a multiplication with an
  addition that some targets of the Go compiler do.
\<close>
type_synonym f64 = rat

text \<open>The nearest integer, ties to the even one.\<close>

definition round_even :: "rat \<Rightarrow> int" where
  "round_even q =
     (let f = \<lfloor>q\<rfloor>; r = q - of_int f in
      if r < 1/2 then f else if 1/2 < r then f + 1 else if even f then f else f + 1)"

text \<open>The binary exponent of a positive rational.\<close>

definition fexp :: "rat \<Rightarrow> int" where
  "fexp x =
     (let (n, d) = quotient_of x; k = bitlen n - bitlen d in
      if 2 powi k \<le> x then k else k - 1)"

text \<open>Rounding to float64.\<close>

definition fl :: "rat \<Rightarrow> f64" where
  "fl x = (if x = 0 then 0 else
     let u = 2 powi (fexp \<bar>x\<bar> - 52) in of_int (round_even (x / u)) * u)"

text \<open>Conversion from an integer, truncating conversion to an integer, and the operations.\<close>

definition f64_of_int :: "int \<Rightarrow> f64" where
  "f64_of_int i = fl (of_int i)"

definition f64_trunc :: "f64 \<Rightarrow> int" where
  "f64_trunc x = (if 0 \<le> x then \<lfloor>x\<rfloor> else \<lceil>x\<rceil>)"

definition fadd :: "f64 \<Rightarrow> f64 \<Rightarrow> f64" where "fadd x y = fl (x + y)"
definition fsub :: "f64 \<Rightarrow> f64 \<Rightarrow> f64" where "fsub x y = fl (x - y)"
definition fmul :: "f64 \<Rightarrow> f64 \<Rightarrow> f64" where "fmul x y = fl (x * y)"
definition fdiv :: "f64 \<Rightarrow> f64 \<Rightarrow> f64" where "fdiv x y = fl (x / y)"

text \<open>A \<open>time.Duration\<close> is a number of nanoseconds.\<close>

definition second :: int where "second = 1000000000"

definition duration_Seconds :: "int \<Rightarrow> f64" where
  "duration_Seconds d = fadd (f64_of_int (go_quot d second)) (fdiv (f64_of_int (d - second * go_quot d second)) (of_int second))"

definition Milliseconds :: "int \<Rightarrow> int" where
  "Milliseconds d = go_quot d 1000000"

lemmas float_ops = f64_of_int_def fadd_def fsub_def fmul_def fdiv_def

subsection \<open>Rounding\<close>

lemma round_even_near: "\<bar>of_int (round_even q) - q\<bar> \<le> 1/2"
  unfolding round_even_def Let_def
  using floor_correct [of q] by (auto simp: abs_le_iff algebra_simps)

lemma round_even_of_int [simp]: "round_even (of_int i) = i"
  by (simp add: round_even_def)

lemma round_even_0 [simp]: "round_even 0 = 0"
  by (simp add: round_even_def)

lemma round_even_mono: "q \<le> p \<Longrightarrow> round_even q \<le> round_even p"
proof -
  assume le: "q \<le> p"
  then have "\<lfloor>q\<rfloor> \<le> \<lfloor>p\<rfloor>" by (rule floor_mono)
  then consider "\<lfloor>q\<rfloor> = \<lfloor>p\<rfloor>" | "\<lfloor>q\<rfloor> + 1 \<le> \<lfloor>p\<rfloor>" by linarith
  then show ?thesis
  proof cases
    case 1
    then show ?thesis using le by (auto simp: round_even_def Let_def)
  next
    case 2
    have "round_even q \<le> \<lfloor>q\<rfloor> + 1" "\<lfloor>p\<rfloor> \<le> round_even p"
      by (auto simp: round_even_def Let_def)
    with 2 show ?thesis by linarith
  qed
qed

lemma round_even_minus: "round_even (- q) = - round_even q"
proof (cases "q = of_int \<lfloor>q\<rfloor>")
  case True
  then have "- q = of_int (- \<lfloor>q\<rfloor>)" by simp
  then show ?thesis using True by (metis round_even_of_int)
next
  case False
  have lo: "of_int \<lfloor>q\<rfloor> < q" and hi: "q < of_int \<lfloor>q\<rfloor> + 1"
    using False of_int_floor_le [of q] floor_correct [of q] by (auto simp: less_le)
  have fm: "\<lfloor>- q\<rfloor> = - \<lfloor>q\<rfloor> - 1"
    using lo hi by (intro floor_unique) auto
  show ?thesis
    unfolding round_even_def Let_def fm by (auto simp: algebra_simps)
qed

subsection \<open>The exponent\<close>

lemma powi_two_pos [simp]: "0 < (2::rat) powi k"
  by simp

lemma powi_two_mono: "i \<le> j \<Longrightarrow> (2::rat) powi i \<le> 2 powi j"
  by (simp add: power_int_increasing)

lemma powi_two_le_iff: "(2::rat) powi i \<le> 2 powi j \<longleftrightarrow> i \<le> j"
proof
  assume "(2::rat) powi i \<le> 2 powi j"
  then show "i \<le> j" by (metis not_le power_int_strict_increasing one_less_numeral_iff semiring_norm(76))
qed (rule powi_two_mono)

lemma powi_two_Suc: "(2::rat) powi (k + 1) = 2 * 2 powi k"
  by (simp add: power_int_add)

lemma bitlen_powi:
  assumes "0 < n"
  shows "2 powi (bitlen n - 1) \<le> (of_int n :: rat)" "(of_int n :: rat) < 2 powi bitlen n"
proof -
  have b: "2 ^ nat (bitlen n - 1) \<le> n" "n < 2 ^ nat (bitlen n)"
    using bitlen_bounds [OF assms] by auto
  have p: "0 < bitlen n" using assms by (simp add: bitlen_alt_def add_pos_nonneg)
  have "(2::rat) ^ nat (bitlen n - 1) = of_int (2 ^ nat (bitlen n - 1))" by simp
  also have "\<dots> \<le> of_int n" using b(1) of_int_le_iff by blast
  finally show "2 powi (bitlen n - 1) \<le> (of_int n :: rat)"
    using p by (simp add: power_int_def)
  have "(of_int n :: rat) < of_int (2 ^ nat (bitlen n))" using b(2) of_int_less_iff by blast
  also have "\<dots> = 2 ^ nat (bitlen n)" by simp
  finally show "(of_int n :: rat) < 2 powi bitlen n"
    using p by (simp add: power_int_def)
qed

lemma fexp_bounds:
  assumes "0 < x"
  shows "2 powi fexp x \<le> x" "x < 2 powi (fexp x + 1)"
proof -
  obtain n d where q: "quotient_of x = (n, d)" by (cases "quotient_of x")
  have d: "0 < d" using q by (rule quotient_of_denom_pos)
  have x: "x = of_int n / of_int d" using q by (rule quotient_of_div)
  with assms d have n: "0 < n" by (simp add: zero_less_divide_iff)
  let ?k = "bitlen n - bitlen d"
  note bn = bitlen_powi [OF n] and bd = bitlen_powi [OF d]
  have up: "x < 2 powi (?k + 1)"
  proof -
    have "of_int n < (2::rat) powi bitlen n" by (rule bn(2))
    also have "\<dots> = 2 powi (?k + 1) * 2 powi (bitlen d - 1)"
      by (simp flip: power_int_add)
    also have "\<dots> \<le> 2 powi (?k + 1) * of_int d"
      by (rule mult_left_mono [OF bd(1)]) simp
    finally show ?thesis using d unfolding x by (simp add: divide_simps)
  qed
  have lo: "2 powi (?k - 1) \<le> x"
  proof -
    have "2 powi (?k - 1) * of_int d \<le> 2 powi (?k - 1) * (2::rat) powi bitlen d"
      by (rule mult_left_mono) (use bd(2) in simp_all)
    also have "\<dots> = 2 powi (bitlen n - 1)" by (simp flip: power_int_add)
    also have "\<dots> \<le> of_int n" by (rule bn(1))
    finally show ?thesis using d unfolding x by (simp add: divide_simps mult.commute)
  qed
  have e: "fexp x = (if 2 powi ?k \<le> x then ?k else ?k - 1)"
    by (simp add: fexp_def q Let_def)
  show "2 powi fexp x \<le> x" using lo e by simp
  show "x < 2 powi (fexp x + 1)" using up e by (cases "2 powi ?k \<le> x") auto
qed

lemma fexp_mono:
  assumes "0 < x" "x \<le> y" shows "fexp x \<le> fexp y"
proof (rule ccontr)
  assume "\<not> ?thesis"
  then have "(2::rat) powi (fexp y + 1) \<le> 2 powi fexp x" by (intro powi_two_mono) simp
  then show False
    using fexp_bounds [OF assms(1)] fexp_bounds [of y] assms by linarith
qed

subsection \<open>Rounding to 53 bits\<close>

lemma fl_0 [simp]: "fl 0 = 0" by (simp add: fl_def)

lemma fl_minus: "fl (- x) = - fl x"
  by (simp add: fl_def Let_def round_even_minus)

text \<open>A number of at most 53 significant bits is represented exactly.\<close>

definition f64_exact :: "rat \<Rightarrow> bool" where
  "f64_exact x \<longleftrightarrow> fl x = x"

lemma fl_exact_powi:
  assumes "\<bar>m\<bar> \<le> 2 ^ 53" shows "fl (of_int m * 2 powi k) = of_int m * 2 powi k"
proof (cases "m = 0")
  case False
  let ?x = "of_int m * 2 powi k :: rat"
  have x0: "?x \<noteq> 0" using False by simp
  let ?e = "fexp \<bar>?x\<bar>"
  have "2 powi ?e \<le> \<bar>?x\<bar>" using fexp_bounds(1) [of "\<bar>?x\<bar>"] x0 by simp
  also have "\<dots> \<le> 2 ^ 53 * 2 powi k"
  proof -
    have "of_int \<bar>m\<bar> \<le> (of_int (2 ^ 53) :: rat)" using assms by (simp only: of_int_le_iff)
    then show ?thesis by (simp add: abs_mult)
  qed
  also have "\<dots> = 2 powi (k + 53)" by (simp add: power_int_add)
  finally have "?e \<le> k + 53" by (simp add: powi_two_le_iff)
  then consider "?e - 52 \<le> k" | "?e - 52 = k + 1" by linarith
  then show ?thesis
  proof cases
    case 1
    define j where "j = nat (k - (?e - 52))"
    have "?x / 2 powi (?e - 52) = of_int m * 2 powi (k - (?e - 52))"
      by (simp add: power_int_diff)
    also have "\<dots> = of_int (m * 2 ^ j)" using 1 by (simp add: j_def power_int_def)
    finally have eq: "?x / 2 powi (?e - 52) = of_int (m * 2 ^ j)" .
    then have "round_even (?x / 2 powi (?e - 52)) = m * 2 ^ j"
      by (metis round_even_of_int)
    moreover have "of_int (m * 2 ^ j) * 2 powi (?e - 52) = ?x"
      unfolding eq [symmetric] by simp
    ultimately show ?thesis using x0 by (simp add: fl_def Let_def)
  next
    case 2
    have "(2::rat) powi (k + 53) \<le> \<bar>?x\<bar>"
      using fexp_bounds(1) [of "\<bar>?x\<bar>"] x0 2 by (simp add: algebra_simps)
    then have "2 ^ 53 \<le> of_int \<bar>m\<bar> * (1::rat)"
      by (simp add: abs_mult power_int_add)
    then have "(of_int (2 ^ 53) :: rat) \<le> of_int \<bar>m\<bar>" by simp
    then have "\<bar>m\<bar> = 2 ^ 53" using assms by (simp only: of_int_le_iff)
    then have m: "m = 2 * 2 ^ 52 \<or> m = 2 * (- (2 ^ 52))" by (auto simp: abs_if split: if_splits)
    have "?x / 2 powi (?e - 52) = of_int (m div 2)"
      unfolding 2 using m by (auto simp: powi_two_Suc)
    then have "round_even (?x / 2 powi (?e - 52)) = m div 2"
      by (metis round_even_of_int)
    then show ?thesis using x0 m unfolding 2 by (auto simp: fl_def Let_def 2 powi_two_Suc)
  qed
qed simp

lemma f64_exact_powi: "\<bar>m\<bar> \<le> 2 ^ 53 \<Longrightarrow> f64_exact (of_int m * 2 powi k)"
  by (simp add: f64_exact_def fl_exact_powi)

lemma fl_of_int: "\<bar>m\<bar> \<le> 2 ^ 53 \<Longrightarrow> fl (of_int m) = of_int m"
  using fl_exact_powi [of m 0] by simp

lemma fl_1 [simp]: "fl 1 = 1" using fl_of_int [of 1] by simp

lemma f64_of_int_exact: "\<bar>m\<bar> \<le> 2 ^ 53 \<Longrightarrow> f64_of_int m = of_int m"
  by (simp add: f64_of_int_def fl_of_int)

lemma fl_pos_bounds:
  assumes "0 < x"
  shows "2 powi fexp x \<le> fl x" "fl x \<le> 2 powi (fexp x + 1)"
proof -
  let ?u = "2 powi (fexp x - 52) :: rat"
  note b = fexp_bounds [OF assms]
  have p: "(2::rat) powi fexp x = of_int (2 ^ 52) * ?u" "(2::rat) powi (fexp x + 1) = of_int (2 ^ 53) * ?u"
    by (simp_all add: power_int_add power_int_diff)
  have "of_int (2 ^ 52) \<le> x / ?u" "x / ?u \<le> of_int (2 ^ 53)"
    using b unfolding p by (simp_all add: pos_le_divide_eq pos_divide_le_eq del: of_int_power)
  then have "2 ^ 52 \<le> round_even (x / ?u)" "round_even (x / ?u) \<le> 2 ^ 53"
    using round_even_mono round_even_of_int by metis+
  then have "of_int (2 ^ 52) * ?u \<le> of_int (round_even (x / ?u)) * ?u"
    "of_int (round_even (x / ?u)) * ?u \<le> of_int (2 ^ 53) * ?u"
    by (simp_all only: mult_le_cancel_right_pos powi_two_pos of_int_le_iff)
  then show "2 powi fexp x \<le> fl x" "fl x \<le> 2 powi (fexp x + 1)"
    using assms unfolding p by (simp_all add: fl_def Let_def)
qed

lemma fl_pos: "0 < x \<Longrightarrow> 0 < fl x"
  using fl_pos_bounds(1) [of x] powi_two_pos less_le_trans by blast

lemma fl_mono_pos:
  assumes "0 < x" "x \<le> y" shows "fl x \<le> fl y"
proof (cases "fexp x = fexp y")
  case True
  let ?u = "2 powi (fexp y - 52) :: rat"
  have "round_even (x / ?u) \<le> round_even (y / ?u)"
    using assms by (intro round_even_mono divide_right_mono) simp_all
  then have "of_int (round_even (x / ?u)) * ?u \<le> of_int (round_even (y / ?u)) * ?u"
    by (simp only: mult_le_cancel_right_pos powi_two_pos of_int_le_iff)
  then show ?thesis using True assms by (simp add: fl_def Let_def)
next
  case False
  then have "fexp x + 1 \<le> fexp y" using fexp_mono [OF assms] by simp
  have "fl x \<le> 2 powi (fexp x + 1)" by (rule fl_pos_bounds) (rule assms)
  also have "\<dots> \<le> 2 powi fexp y" by (rule powi_two_mono) fact
  also have "\<dots> \<le> fl y" by (rule fl_pos_bounds) (use assms in simp)
  finally show ?thesis .
qed

lemma fl_mono: "x \<le> y \<Longrightarrow> fl x \<le> fl y"
proof -
  assume le: "x \<le> y"
  consider "0 < x" | "y < 0" | "x \<le> 0" "0 \<le> y" by linarith
  then show ?thesis
  proof cases
    case 1 then show ?thesis using le by (rule fl_mono_pos)
  next
    case 2
    then have "fl (- y) \<le> fl (- x)" using le by (intro fl_mono_pos) auto
    then show ?thesis by (simp add: fl_minus)
  next
    case 3
    have "fl x \<le> 0" using fl_pos [of "- x"] 3 by (cases "x = 0") (auto simp: fl_minus)
    moreover have "0 \<le> fl y" using fl_pos [of y] 3 by (cases "y = 0") auto
    ultimately show ?thesis by simp
  qed
qed

lemma fl_nonneg: "0 \<le> x \<Longrightarrow> 0 \<le> fl x"
  using fl_mono [of 0 x] by simp

lemma fl_le_exact: "x \<le> b \<Longrightarrow> f64_exact b \<Longrightarrow> fl x \<le> b"
  using fl_mono [of x b] by (simp add: f64_exact_def)

lemma fl_ge_exact: "b \<le> x \<Longrightarrow> f64_exact b \<Longrightarrow> b \<le> fl x"
  using fl_mono [of b x] by (simp add: f64_exact_def)

lemma fl_error: "\<bar>fl x - x\<bar> \<le> \<bar>x\<bar> / 2 ^ 53"
proof (cases "x = 0")
  case False
  let ?u = "2 powi (fexp \<bar>x\<bar> - 52) :: rat"
  have u: "0 < ?u" by simp
  have "fl x - x = (of_int (round_even (x / ?u)) - x / ?u) * ?u"
    using False u by (simp add: fl_def Let_def left_diff_distrib)
  then have "\<bar>fl x - x\<bar> = \<bar>of_int (round_even (x / ?u)) - x / ?u\<bar> * ?u"
    by (simp only: abs_mult) simp
  also have "\<dots> \<le> 1/2 * ?u"
    by (rule mult_right_mono [OF round_even_near]) simp
  also have "1/2 * ?u = 2 powi fexp \<bar>x\<bar> / 2 ^ 53" by (simp add: power_int_diff)
  also have "\<dots> \<le> \<bar>x\<bar> / 2 ^ 53"
    using fexp_bounds(1) [of "\<bar>x\<bar>"] False by (intro divide_right_mono) simp_all
  finally show ?thesis .
qed simp

lemma f64_exact_of_int: "\<bar>m\<bar> \<le> 2 ^ 53 \<Longrightarrow> f64_exact (of_int m)"
  by (simp add: f64_exact_def fl_of_int)

lemma f64_exact_0 [simp]: "f64_exact 0" and f64_exact_1 [simp]: "f64_exact 1"
  by (simp_all add: f64_exact_def)

lemma f64_exact_half [simp]: "f64_exact (1/2)"
  using f64_exact_powi [of 1 "- 1"] by (simp add: power_int_minus)

text \<open>Rounding lands on numbers that are their own rounding.\<close>

lemma fl_idem [simp]: "fl (fl x) = fl x"
proof (cases "x = 0")
  case False
  let ?u = "2 powi (fexp \<bar>x\<bar> - 52) :: rat"
  have e: "fl x = of_int (round_even (x / ?u)) * ?u" using False by (simp add: fl_def Let_def)
  have "fl \<bar>x\<bar> \<le> of_int (2 ^ 53) * ?u"
    using fl_pos_bounds(2) [of "\<bar>x\<bar>"] False by (simp add: power_int_add power_int_diff)
  moreover have "fl \<bar>x\<bar> = \<bar>of_int (round_even (x / ?u))\<bar> * ?u"
  proof (cases "0 < x")
    case True
    then show ?thesis using e fl_pos [OF True] abs_of_pos [of "fl x"] by (simp add: abs_mult)
  next
    case False
    then have "0 < - x" using \<open>x \<noteq> 0\<close> by simp
    from fl_pos [OF this] have "fl x < 0" by (simp add: fl_minus)
    then have "\<bar>fl x\<bar> = fl \<bar>x\<bar>" using False by (simp add: fl_minus abs_if)
    then show ?thesis by (metis e abs_mult abs_of_pos powi_two_pos)
  qed
  ultimately have "of_int \<bar>round_even (x / ?u)\<bar> * ?u \<le> of_int (2 ^ 53) * ?u" by simp
  then have "\<bar>round_even (x / ?u)\<bar> \<le> 2 ^ 53"
    by (simp only: mult_le_cancel_right_pos powi_two_pos of_int_le_iff)
  then show ?thesis unfolding e by (rule fl_exact_powi)
qed simp

lemma f64_exact_fl [simp]: "f64_exact (fl x)"
  by (simp add: f64_exact_def)

lemma f64_trunc_mono: "x \<le> y \<Longrightarrow> f64_trunc x \<le> f64_trunc y"
  by (auto simp: f64_trunc_def floor_mono ceiling_mono)
     (metis ceiling_le_zero le_floor_iff of_int_0 order_trans zero_le_floor linear)

lemma f64_trunc_of_int [simp]: "f64_trunc (of_int i) = i"
  by (simp add: f64_trunc_def)

end
