(* ===== verification/Types.thy ===== *)
theory Types
  imports Float64
begin

text \<open>
  \<open>pkg/types/types.go\<close>: the data that crosses the program's interfaces.  A Go string type with
  named constants is a datatype with one constructor per constant and one for every other string
  a client can send.  A pointer that may be \<open>nil\<close> is an \<open>option\<close>.  Prefixes (\<open>rt_\<close>, \<open>rl_\<close>, \<open>rq_\<close>, ...)
  keep the field names of different structs apart.
\<close>

datatype load_pattern =
    PatternConstant | PatternRamp | PatternSpike | PatternAdaptive
  | PatternRealistic | PatternAdaptiveRealistic | PatternOther string

datatype transaction_type =
    TxTypeEthTransfer | TxTypeERC20Transfer | TxTypeERC20Approve | TxTypeERC721Transfer
  | TxTypeUniswapSwap | TxTypeStorageWrite | TxTypeHeavyCompute | TxTypeOther string

datatype test_status =
    StatusIdle | StatusInitializing | StatusRunning | StatusVerifying | StatusCompleted | StatusError

datatype tip_distribution =
    TipDistExponential | TipDistPowerLaw | TipDistUniform | TipDistOther string

record tx_type_ratio =
  EthTransfer :: int
  ERC20Transfer :: int
  ERC20Approve :: int
  UniswapSwap :: int
  StorageWrite :: int
  HeavyCompute :: int

record realistic_config =
  rt_NumAccounts :: int
  rt_TargetTPS :: int
  rt_MinTipGwei :: f64
  rt_MaxTipGwei :: f64
  rt_TipDistribution :: tip_distribution
  rt_TxTypeRatios :: tx_type_ratio

datatype read_block_selection =
    ReadBlockUnset | ReadBlockLatest | ReadBlockRecent | ReadBlockArchive | ReadBlockOther string

datatype read_method =
    ReadMethodCall | ReadMethodGetBalance | ReadMethodGetLogs | ReadMethodGetBlock | ReadMethodGetReceipt

record read_mix =
  EthCall :: int
  GetBalance :: int
  GetLogs :: int
  GetBlockByNumber :: int
  GetReceipt :: int

definition mix_Sum :: "read_mix \<Rightarrow> int" where
  "mix_Sum m = EthCall m + GetBalance m + GetLogs m + GetBlockByNumber m + GetReceipt m"

record read_load_config =
  rl_Enabled :: bool
  rl_TargetRPS :: int
  rl_Concurrency :: int
  rl_RPCURL :: string
  rl_BlockSelection :: read_block_selection
  rl_BlockWindow :: int
  rl_ArchiveDepthPct :: int
  rl_RequireArchive :: "bool option"
  rl_LogsRangeBlocks :: int
  rl_FullBlocks :: bool
  rl_Mix :: read_mix

record start_test_request =
  rq_Pattern :: load_pattern
  rq_DurationSec :: int
  rq_NumAccounts :: int
  rq_TransactionType :: transaction_type
  rq_ConstantRate :: int
  rq_RampStart :: int
  rq_RampEnd :: int
  rq_RampSteps :: int
  rq_BaselineRate :: int
  rq_SpikeRate :: int
  rq_SpikeDuration :: int
  rq_SpikeInterval :: int
  rq_AdaptiveInitialRate :: int
  rq_AdaptiveTargetPending :: int
  rq_AdaptiveRateStep :: int
  rq_RealisticConfig :: "realistic_config option"
  rq_ReadLoad :: "read_load_config option"
  rq_PrivacyMode :: bool
  rq_Gasless :: bool
  rq_FixNonceGaps :: bool
  rq_Erc721PreMint :: int

section \<open>Preconfirmation messages\<close>

definition PreconfStagePending :: string where "PreconfStagePending = ''pending''"
definition PreconfStagePreconfirmed :: string where "PreconfStagePreconfirmed = ''preconfirmed''"
definition PreconfStageConfirmed :: string where "PreconfStageConfirmed = ''confirmed''"
definition PreconfStageDropped :: string where "PreconfStageDropped = ''dropped''"
definition PreconfStageRequeued :: string where "PreconfStageRequeued = ''requeued''"
definition PreconfStageRevoked :: string where "PreconfStageRevoked = ''revoked''"

lemmas preconf_stages = PreconfStagePending_def PreconfStagePreconfirmed_def PreconfStageConfirmed_def
  PreconfStageDropped_def PreconfStageRequeued_def PreconfStageRevoked_def

record preconf_event =
  pe_TxHash :: string
  pe_Status :: string
  pe_BlockNumber :: u64
  pe_Position :: int
  pe_Timestamp :: int

text \<open>A message is a batch or a single event; an entry of a batch may be \<open>nil\<close>.\<close>

record preconf_message =
  pm_Type :: string
  pm_Events :: "preconf_event option list"
  pm_SeqNum :: u64
  pm_TxHash :: string
  pm_Status :: string
  pm_BlockNumber :: u64
  pm_Position :: int
  pm_Timestamp :: int

definition IsBatch :: "preconf_message \<Rightarrow> bool" where
  "IsBatch m \<longleftrightarrow> pm_Type m \<noteq> '''' \<and> 0 < length (pm_Events m)"

definition GetEvents :: "preconf_message \<Rightarrow> preconf_event option list" where
  "GetEvents m =
     (if IsBatch m then pm_Events m
      else if pm_TxHash m \<noteq> '''' then
        [Some \<lparr>pe_TxHash = pm_TxHash m, pe_Status = pm_Status m, pe_BlockNumber = pm_BlockNumber m,
               pe_Position = pm_Position m, pe_Timestamp = pm_Timestamp m\<rparr>]
      else [])"

record builder_rejections =
  NonceTooLow :: int
  NonceTooHigh :: int
  GasLimitExceeded :: int
  InsufficientFunds :: int
  Duplicate :: int
  OtherRejections :: int

record builder_block_metrics =
  bm_BlockNumber :: u64
  bm_BlockHash :: string
  bm_Timestamp :: int
  bm_EmittedAt :: int
  bm_GasUsed :: u64
  bm_GasLimit :: u64
  bm_TxCount :: int
  bm_FillRate :: f64
  bm_FilterDurationMs :: int
  bm_EngineApiDurationMs :: int
  bm_TotalBuildDurationMs :: int
  bm_Rejections :: builder_rejections

end
