(* ===== verification/Atomic.thy ===== *)
theory Atomic
  imports Prelude
begin

text \<open>
  \<open>internal/metrics/atomic.go\<close>: the saturating counters.  The three compare-and-swap loops are
  modelled at the grain at which goroutines interleave: one step is one atomic load (with the
  local computation that follows it) or one compare-and-swap.  Any number of goroutines, each in
  one of the loops on the same address, run under an arbitrary schedule; the property is that the
  address and the returned values are always those of running the completed calls one after the
  other, atomically, in the order in which they completed.
\<close>

section \<open>The loops, step by step\<close>

datatype atomic_call =
    SubSaturating int
  | AddSaturating int int
  | MaxOf int

datatype cas_pc =
    AtLoad
  | AtCas int int
  | Returned int

text \<open>The value each loop tries to store, computed from the value it loaded.\<close>

definition sub_new :: "int \<Rightarrow> int \<Rightarrow> int" where
  "sub_new delta current =
     (let newVal = wrap64 (current - delta) in if newVal < 0 then 0 else newVal)"

definition add_new :: "int \<Rightarrow> int \<Rightarrow> int \<Rightarrow> int" where
  "add_new delta maxVal current =
     (let newVal = wrap64 (current + delta) in if maxVal < newVal then maxVal else newVal)"

definition compare_and_swap :: "int \<Rightarrow> int \<Rightarrow> int \<Rightarrow> bool \<times> int" where
  "compare_and_swap v old new = (if v = old then (True, new) else (False, v))"

fun AtomicSubSaturating :: "int \<Rightarrow> int \<Rightarrow> cas_pc \<Rightarrow> int \<times> cas_pc" where
  "AtomicSubSaturating delta v AtLoad = (v, AtCas v (sub_new delta v))"
| "AtomicSubSaturating delta v (AtCas current newVal) =
     (case compare_and_swap v current newVal of
        (True, v') \<Rightarrow> (v', Returned newVal) | (False, v') \<Rightarrow> (v', AtLoad))"
| "AtomicSubSaturating delta v (Returned r) = (v, Returned r)"

fun AtomicAddSaturating :: "int \<Rightarrow> int \<Rightarrow> int \<Rightarrow> cas_pc \<Rightarrow> int \<times> cas_pc" where
  "AtomicAddSaturating delta maxVal v AtLoad = (v, AtCas v (add_new delta maxVal v))"
| "AtomicAddSaturating delta maxVal v (AtCas current newVal) =
     (case compare_and_swap v current newVal of
        (True, v') \<Rightarrow> (v', Returned newVal) | (False, v') \<Rightarrow> (v', AtLoad))"
| "AtomicAddSaturating delta maxVal v (Returned r) = (v, Returned r)"

fun AtomicMax :: "int \<Rightarrow> int \<Rightarrow> cas_pc \<Rightarrow> int \<times> cas_pc" where
  "AtomicMax val v AtLoad = (if val \<le> v then (v, Returned v) else (v, AtCas v val))"
| "AtomicMax val v (AtCas current newVal) =
     (case compare_and_swap v current newVal of
        (True, v') \<Rightarrow> (v', Returned newVal) | (False, v') \<Rightarrow> (v', AtLoad))"
| "AtomicMax val v (Returned r) = (v, Returned r)"

fun call_step :: "atomic_call \<Rightarrow> int \<Rightarrow> cas_pc \<Rightarrow> int \<times> cas_pc" where
  "call_step (SubSaturating d) = AtomicSubSaturating d"
| "call_step (AddSaturating d m) = AtomicAddSaturating d m"
| "call_step (MaxOf w) = AtomicMax w"

text \<open>What a call does when nothing interferes, as one atomic transition.\<close>

fun call_atomic :: "atomic_call \<Rightarrow> int \<Rightarrow> int" where
  "call_atomic (SubSaturating d) v = sub_new d v"
| "call_atomic (AddSaturating d m) v = add_new d m v"
| "call_atomic (MaxOf w) v = max v w"

section \<open>Goroutines under a schedule\<close>

text \<open>
  A goroutine is its call and its program counter.  Every element of the schedule lets one
  goroutine do one step.  The log holds the calls that completed with their results, oldest
  first.
\<close>

type_synonym goroutine = "atomic_call \<times> cas_pc"
type_synonym call_log = "(atomic_call \<times> int) list"

fun returned :: "cas_pc \<Rightarrow> bool" where
  "returned (Returned r) = True"
| "returned pc = False"

fun pc_result :: "cas_pc \<Rightarrow> int list" where
  "pc_result (Returned r) = [r]"
| "pc_result pc = []"

definition sched_step :: "nat \<Rightarrow> int \<times> goroutine list \<times> call_log \<Rightarrow> int \<times> goroutine list \<times> call_log" where
  "sched_step i s =
     (case s of (v, gs, log) \<Rightarrow>
        if i < length gs then
          (let (c, pc) = gs ! i; (v', pc') = call_step c v pc in
           (v', gs[i := (c, pc')],
            log @ (if returned pc then [] else map (Pair c) (pc_result pc'))))
        else (v, gs, log))"

definition run_schedule :: "nat list \<Rightarrow> int \<Rightarrow> atomic_call list \<Rightarrow> int \<times> goroutine list \<times> call_log" where
  "run_schedule is v cs = fold sched_step is (v, map (\<lambda>c. (c, AtLoad)) cs, [])"

text \<open>The atomic replay of a log: it fails if a logged result is not the atomic one.\<close>

fun replay :: "call_log \<Rightarrow> int \<Rightarrow> int option" where
  "replay [] v = Some v"
| "replay ((c, r) # log) v = (if call_atomic c v = r then replay log r else None)"

lemma replay_append:
  "replay (l1 @ l2) v = (case replay l1 v of None \<Rightarrow> None | Some v' \<Rightarrow> replay l2 v')"
  by (induction l1 v rule: replay.induct) auto

text \<open>A pending swap stores what the call computes from the value it expects to find.\<close>

fun pc_ok :: "atomic_call \<Rightarrow> cas_pc \<Rightarrow> bool" where
  "pc_ok c (AtCas current newVal) = (newVal = call_atomic c current)"
| "pc_ok c pc = True"

lemma call_step_ok: "pc_ok c pc \<Longrightarrow> pc_ok c (snd (call_step c v pc))"
  by (cases c; cases pc) (auto simp: compare_and_swap_def)

lemma call_step_replay:
  assumes "pc_ok c pc" "\<not> returned pc" "call_step c v pc = (v', pc')"
  shows "replay (map (Pair c) (pc_result pc')) v = Some v'"
  using assms by (cases c; cases pc) (auto simp: compare_and_swap_def split: if_splits)

lemma call_step_returned: "returned pc \<Longrightarrow> call_step c v pc = (v, pc)"
  by (cases c; cases pc) auto

definition sched_inv :: "int \<Rightarrow> int \<times> goroutine list \<times> call_log \<Rightarrow> bool" where
  "sched_inv v0 s = (case s of (v, gs, log) \<Rightarrow>
     replay log v0 = Some v \<and> (\<forall>(c, pc) \<in> set gs. pc_ok c pc) \<and>
     mset log = mset (concat (map (\<lambda>(c, pc). map (Pair c) (pc_result pc)) gs)))"

lemma concat_map_update:
  assumes "i < length xs"
  shows "mset (concat (map f (xs[i := y]))) + mset (f (xs ! i)) = mset (concat (map f xs)) + mset (f y)"
  using assms
proof (induction xs arbitrary: i)
  case (Cons x xs)
  then show ?case by (cases i) (auto simp: ac_simps)
qed simp

lemma sched_step_inv:
  assumes "sched_inv v0 s" shows "sched_inv v0 (sched_step i s)"
proof -
  obtain v gs log where s: "s = (v, gs, log)" by (cases s) auto
  show ?thesis
  proof (cases "i < length gs")
    case True
    obtain c pc where g: "gs ! i = (c, pc)" by (cases "gs ! i")
    obtain v' pc' where st: "call_step c v pc = (v', pc')" by (cases "call_step c v pc")
    let ?new = "if returned pc then [] else map (Pair c) (pc_result pc')"
    have e: "sched_step i s = (v', gs[i := (c, pc')], log @ ?new)"
      using True by (simp add: sched_step_def s g st)
    have ok: "pc_ok c pc" using assms True nth_mem [OF True] by (auto simp: sched_inv_def s g)
    have r: "replay log v0 = Some v" using assms by (simp add: sched_inv_def s)
    have "replay (log @ ?new) v0 = Some v'"
      using r call_step_replay [OF ok _ st] call_step_returned [of pc c v] st
      by (auto simp: replay_append)
    moreover have "\<forall>(c, pc) \<in> set (gs[i := (c, pc')]). pc_ok c pc"
      using assms call_step_ok [OF ok, of v] set_update_subset_insert [of gs i "(c, pc')"]
      by (fastforce simp: sched_inv_def s st)
    moreover have "mset (log @ ?new)
        = mset (concat (map (\<lambda>(c, pc). map (Pair c) (pc_result pc)) (gs[i := (c, pc')])))"
    proof (cases "returned pc")
      case True
      then have "pc' = pc" using st by (simp add: call_step_returned)
      then show ?thesis using assms True g by (simp add: sched_inv_def s list_update_same_conv
            list_update_beyond) (metis g list_update_id)
    next
      case False
      then have "pc_result pc = []" by (cases pc) auto
      then show ?thesis
        using assms False concat_map_update [OF True, of "\<lambda>(c, pc). map (Pair c) (pc_result pc)" "(c, pc')"]
        by (simp add: sched_inv_def s g)
    qed
    ultimately show ?thesis by (simp add: e sched_inv_def)
  qed (use assms in \<open>simp add: sched_step_def s\<close>)
qed

lemma run_schedule_inv: "sched_inv v (run_schedule is v cs)"
proof -
  have "sched_inv v (fold sched_step is s)" if "sched_inv v s" for s
    using that
  proof (induction "is" arbitrary: s)
    case (Cons i "is")
    from Cons.IH [OF sched_step_inv [OF Cons.prems]] show ?case by simp
  qed simp
  moreover have "sched_inv v (v, map (\<lambda>c. (c, AtLoad)) cs, [])"
    by (auto simp: sched_inv_def)
  ultimately show ?thesis unfolding run_schedule_def by blast
qed

text \<open>A goroutine left alone returns within three steps, whatever it had loaded before.\<close>

fun run_alone :: "nat \<Rightarrow> atomic_call \<Rightarrow> int \<Rightarrow> cas_pc \<Rightarrow> int \<times> cas_pc" where
  "run_alone 0 c v pc = (v, pc)"
| "run_alone (Suc n) c v pc = (case call_step c v pc of (v', pc') \<Rightarrow> run_alone n c v' pc')"

lemma run_alone_returns: "returned (snd (run_alone 3 c v pc))"
  by (cases c; cases pc) (auto simp: compare_and_swap_def numeral_3_eq_3)

lemma run_alone_atomic:
  "snd (run_alone 3 c v AtLoad) = Returned (call_atomic c v)"
  "fst (run_alone 3 c v AtLoad) = call_atomic c v"
  by (cases c; auto simp: compare_and_swap_def numeral_3_eq_3)+

text \<open>
  C1: The compare-and-swap loops are linearizable: under every schedule of any number of
  goroutines on one counter, replaying the completed calls as single atomic transitions, in the
  order of their completion, gives exactly the value the counter holds and the results the calls
  returned; and the completed calls are exactly the goroutines that have returned.
\<close>
theorem cas_loops_linearizable:
  "case run_schedule is v cs of (v', gs, log) \<Rightarrow>
     replay log v = Some v' \<and>
     mset log = mset (concat (map (\<lambda>(c, pc). map (Pair c) (pc_result pc)) gs))"
  using run_schedule_inv [of v "is" cs] by (auto simp: sched_inv_def split: prod.splits)

section \<open>Counters\<close>

record counter =
  cnt :: int

definition Counter_Add :: "counter \<Rightarrow> int \<Rightarrow> int \<times> counter" where
  "Counter_Add c delta = (let v = wrap64 (cnt c + delta) in (v, c\<lparr>cnt := v\<rparr>))"

definition Counter_Inc :: "counter \<Rightarrow> int \<times> counter" where
  "Counter_Inc c = (let v = wrap64 (cnt c + 1) in (v, c\<lparr>cnt := v\<rparr>))"

definition Counter_Load :: "counter \<Rightarrow> int" where
  "Counter_Load c = cnt c"

definition Counter_Store :: "counter \<Rightarrow> int \<Rightarrow> counter" where
  "Counter_Store c v = c\<lparr>cnt := v\<rparr>"

definition Counter_Reset :: "counter \<Rightarrow> counter" where
  "Counter_Reset c = c\<lparr>cnt := 0\<rparr>"

definition Counter_SubSaturating :: "counter \<Rightarrow> int \<Rightarrow> int \<times> counter" where
  "Counter_SubSaturating c delta =
     (let v = call_atomic (SubSaturating delta) (cnt c) in (v, c\<lparr>cnt := v\<rparr>))"

record ucounter =
  ucnt :: u64

definition UCounter_Add :: "ucounter \<Rightarrow> u64 \<Rightarrow> u64 \<times> ucounter" where
  "UCounter_Add c delta = (let v = ucnt c + delta in (v, c\<lparr>ucnt := v\<rparr>))"

definition UCounter_Inc :: "ucounter \<Rightarrow> u64 \<times> ucounter" where
  "UCounter_Inc c = (let v = ucnt c + 1 in (v, c\<lparr>ucnt := v\<rparr>))"

definition UCounter_Load :: "ucounter \<Rightarrow> u64" where
  "UCounter_Load c = ucnt c"

definition UCounter_Store :: "ucounter \<Rightarrow> u64 \<Rightarrow> ucounter" where
  "UCounter_Store c v = c\<lparr>ucnt := v\<rparr>"

definition UCounter_Reset :: "ucounter \<Rightarrow> ucounter" where
  "UCounter_Reset c = c\<lparr>ucnt := 0\<rparr>"

lemma sub_new_bounds:
  assumes "0 \<le> v" "0 \<le> d" "is_i64 v" "is_i64 d"
  shows "sub_new d v = max 0 (v - d)"
  using assms by (auto simp: sub_new_def Let_def is_i64_def)

lemma add_new_bounds:
  assumes "is_i64 (v + d)" shows "add_new d m v = min m (v + d)"
  using assms by (auto simp: add_new_def Let_def)

end
