(* ===== verification/Tx_Tracker.thy ===== *)
theory Tx_Tracker
  imports Prelude
begin

text \<open>
  \<open>internal/metrics/txtracker.go\<close>: the bounded map from transaction hash to send time, with its
  ring buffer of insertion order.  A hash is a number and the zero hash, which marks an empty
  slot, is \<open>0\<close>; a time is a number of nanoseconds.  The sizes are natural numbers: Go's
  \<open>make\<close> panics on a negative one.  Every method holds the tracker's lock from start to end, so an
  operation is one step.
\<close>

record tx_tracker =
  times :: "(hash, int) gomap"
  insertOrder :: "hash list"
  head :: nat
  maxSize :: nat
  evictBatch :: nat

definition NewTxTrackerWithSize :: "nat \<Rightarrow> nat \<Rightarrow> tx_tracker" where
  "NewTxTrackerWithSize m e =
     \<lparr>times = [], insertOrder = replicate m 0, head = 0, maxSize = m, evictBatch = e\<rparr>"

definition NewTxTracker :: tx_tracker where
  "NewTxTracker = NewTxTrackerWithSize 100000 10000"

text \<open>The eviction loop, \<open>n\<close> iterations from \<open>evicted\<close> on.\<close>

fun evict_from :: "nat \<Rightarrow> nat \<Rightarrow> tx_tracker \<Rightarrow> tx_tracker" where
  "evict_from 0 evicted t = t"
| "evict_from (Suc n) evicted t =
     (let oldestIdx = (head t + evicted) mod maxSize t;
          oldHash = insertOrder t ! oldestIdx;
          t' = if oldHash \<noteq> 0
               then t\<lparr>times := map_del oldHash (times t), insertOrder := (insertOrder t)[oldestIdx := 0]\<rparr>
               else t
      in evict_from n (evicted + 1) t')"

definition evictOldest :: "tx_tracker \<Rightarrow> tx_tracker" where
  "evictOldest t = evict_from (evictBatch t) 0 t"

text \<open>With \<open>maxSize = 0\<close> the ring is empty and \<open>Set\<close> panics on its first index.\<close>

definition Set :: "hash \<Rightarrow> int \<Rightarrow> tx_tracker \<Rightarrow> tx_tracker option" where
  "Set h sentTime t0 =
     (if maxSize t0 = 0 then None else
      let t = (if maxSize t0 \<le> length (times t0) then evictOldest t0 else t0);
          m = map_put h sentTime (times t);
          oldHash = insertOrder t ! head t;
          m' = (if oldHash \<noteq> 0 then map_del oldHash m else m)
      in Some (t\<lparr>times := m', insertOrder := (insertOrder t)[head t := h],
                 head := (head t + 1) mod maxSize t\<rparr>))"

definition Get :: "hash \<Rightarrow> tx_tracker \<Rightarrow> int option" where
  "Get h t = map_get (times t) h"

definition GetAndDelete :: "hash \<Rightarrow> tx_tracker \<Rightarrow> int option \<times> tx_tracker" where
  "GetAndDelete h t = (map_get (times t) h, t\<lparr>times := map_del h (times t)\<rparr>)"

definition Size :: "tx_tracker \<Rightarrow> nat" where
  "Size t = length (times t)"

definition Reset_tracker :: "tx_tracker \<Rightarrow> tx_tracker" where
  "Reset_tracker t =
     t\<lparr>times := [], insertOrder := replicate (length (insertOrder t)) 0, head := 0\<rparr>"

section \<open>The invariant\<close>

text \<open>
  Every tracked hash sits in the ring, so there are never more entries than slots.
\<close>

definition tracker_inv :: "tx_tracker \<Rightarrow> bool" where
  "tracker_inv t \<longleftrightarrow>
     map_wf (times t) \<and> length (insertOrder t) = maxSize t \<and> 0 < maxSize t \<and> head t < maxSize t \<and>
     map_keys (times t) \<subseteq> set (insertOrder t) \<and> 0 \<notin> map_keys (times t)"

lemma tracker_inv_size:
  assumes "tracker_inv t" shows "Size t \<le> maxSize t"
proof -
  have "length (times t) = card (map_keys (times t))"
    using assms by (simp add: tracker_inv_def map_len_card)
  also have "\<dots> \<le> card (set (insertOrder t))"
    using assms by (intro card_mono) (auto simp: tracker_inv_def)
  also have "\<dots> \<le> maxSize t"
    using assms card_length [of "insertOrder t"] by (simp add: tracker_inv_def)
  finally show ?thesis by (simp add: Size_def)
qed

lemma new_inv: "0 < m \<Longrightarrow> tracker_inv (NewTxTrackerWithSize m e)"
  by (simp add: tracker_inv_def NewTxTrackerWithSize_def)

lemma keys_after_clear:
  assumes "K \<subseteq> set xs" "i < length xs"
  shows "K - {xs ! i} \<subseteq> set (xs[i := y])"
proof
  fix k assume k: "k \<in> K - {xs ! i}"
  then obtain j where j: "j < length xs" "xs ! j = k" using assms by (metis DiffD1 in_set_conv_nth subsetD)
  with k have "j \<noteq> i" by auto
  with j show "k \<in> set (xs[i := y])" by (metis length_list_update nth_list_update_neq nth_mem)
qed

lemma evict_from_inv:
  "tracker_inv t \<Longrightarrow> tracker_inv (evict_from n e t) \<and> maxSize (evict_from n e t) = maxSize t
     \<and> evictBatch (evict_from n e t) = evictBatch t \<and> head (evict_from n e t) = head t"
proof (induction n e t rule: evict_from.induct)
  case (2 n e t)
  let ?i = "(head t + e) mod maxSize t"
  have i: "?i < length (insertOrder t)" using 2(2) by (simp add: tracker_inv_def)
  have "tracker_inv (t\<lparr>times := map_del (insertOrder t ! ?i) (times t),
      insertOrder := (insertOrder t)[?i := 0]\<rparr>)"
    using 2(2) keys_after_clear [OF _ i, of "map_keys (times t)" 0]
    by (auto simp: tracker_inv_def)
  then show ?case using 2 by (auto simp: Let_def)
qed simp

lemma Set_inv:
  assumes "tracker_inv t" "h \<noteq> 0" "Set h s t = Some t'"
  shows "tracker_inv t' \<and> maxSize t' = maxSize t \<and> evictBatch t' = evictBatch t"
proof -
  define u where "u = (if maxSize t \<le> length (times t) then evictOldest t else t)"
  have u: "tracker_inv u" "maxSize u = maxSize t" "evictBatch u = evictBatch t" "head u = head t"
    using assms(1) evict_from_inv by (auto simp: u_def evictOldest_def)
  let ?o = "insertOrder u ! head u"
  have hd: "head u < length (insertOrder u)" using u(1) by (simp add: tracker_inv_def)
  have t': "t' = u\<lparr>times := if ?o \<noteq> 0 then map_del ?o (map_put h s (times u)) else map_put h s (times u),
      insertOrder := (insertOrder u)[head u := h], head := (head u + 1) mod maxSize u\<rparr>"
    using assms(3) u by (auto simp: Set_def Let_def u_def [symmetric] split: if_splits)
  have "map_keys (times u) - {?o} \<subseteq> set ((insertOrder u)[head u := h])"
    by (rule keys_after_clear [OF _ hd]) (use u(1) in \<open>simp add: tracker_inv_def\<close>)
  moreover have "h \<in> set ((insertOrder u)[head u := h])" by (rule set_update_memI [OF hd])
  ultimately have "map_keys (times t') \<subseteq> set (insertOrder t')"
    using u(1) unfolding t' by (auto simp: tracker_inv_def)
  then show ?thesis using u assms(2) unfolding t' by (auto simp: tracker_inv_def)
qed

lemma Set_total: "0 < maxSize t \<Longrightarrow> \<exists>t'. Set h s t = Some t'"
  by (simp add: Set_def Let_def)

lemma GetAndDelete_inv: "tracker_inv t \<Longrightarrow> tracker_inv (snd (GetAndDelete h t))"
  by (auto simp: tracker_inv_def GetAndDelete_def)

lemma Reset_tracker_inv: "tracker_inv t \<Longrightarrow> tracker_inv (Reset_tracker t)"
  by (auto simp: tracker_inv_def Reset_tracker_def)

text \<open>No operation makes a hash appear in the map other than the one being set.\<close>

lemma evict_from_keys: "map_keys (times (evict_from n e t)) \<subseteq> map_keys (times t)"
proof (induction n e t rule: evict_from.induct)
  case (2 n e t)
  then show ?case by (fastforce simp: Let_def split: if_splits)
qed simp

lemma Set_keys:
  assumes "Set h s t = Some t'" shows "map_keys (times t') \<subseteq> insert h (map_keys (times t))"
  using assms evict_from_keys [of "evictBatch t" 0 t]
  by (auto simp: Set_def Let_def evictOldest_def split: if_splits)

lemma inv_size_card: "tracker_inv t \<Longrightarrow> Size t = card (map_keys (times t))"
  by (simp add: Size_def tracker_inv_def map_len_card)

lemma Set_size:
  assumes "tracker_inv t" "h \<noteq> 0" "Set h s t = Some t'" shows "Size t' \<le> Size t + 1"
proof -
  have "card (map_keys (times t')) \<le> card (insert h (map_keys (times t)))"
    using Set_keys [OF assms(3)] by (intro card_mono) auto
  also have "\<dots> \<le> card (map_keys (times t)) + 1" by (simp add: card_insert_if)
  finally show ?thesis using Set_inv [OF assms] assms(1) by (simp add: inv_size_card)
qed

lemma GetAndDelete_size:
  assumes "tracker_inv t"
  shows "Size (snd (GetAndDelete h t)) = Size t - (if Get h t = None then 0 else 1)"
proof -
  have "card (map_keys (times t) - {h}) = card (map_keys (times t)) - (if h \<in> map_keys (times t) then 1 else 0)"
    by (simp add: card_Diff_singleton)
  then show ?thesis
    using assms GetAndDelete_inv [OF assms, of h]
    by (simp add: inv_size_card) (simp add: GetAndDelete_def Get_def map_keys_get)
qed

lemma Get_pos_size: "tracker_inv t \<Longrightarrow> Get h t \<noteq> None \<Longrightarrow> 0 < Size t"
proof -
  assume "tracker_inv t" "Get h t \<noteq> None"
  then have "h \<in> map_keys (times t)" by (simp add: map_keys_get Get_def)
  then show ?thesis using \<open>tracker_inv t\<close> by (auto simp: inv_size_card card_gt_0_iff)
qed

section \<open>Runs of operations\<close>

datatype tracker_op = OpSet hash int | OpGetAndDelete hash | OpReset

fun tracker_step :: "tracker_op \<Rightarrow> tx_tracker \<Rightarrow> tx_tracker option" where
  "tracker_step (OpSet h s) t = Set h s t"
| "tracker_step (OpGetAndDelete h) t = Some (snd (GetAndDelete h t))"
| "tracker_step OpReset t = Some (Reset_tracker t)"

fun tracker_run :: "tracker_op list \<Rightarrow> tx_tracker \<Rightarrow> tx_tracker option" where
  "tracker_run [] t = Some t"
| "tracker_run (p # ps) t = (case tracker_step p t of None \<Rightarrow> None | Some t' \<Rightarrow> tracker_run ps t')"

fun op_nonzero :: "tracker_op \<Rightarrow> bool" where
  "op_nonzero (OpSet h s) = (h \<noteq> 0)"
| "op_nonzero p = True"

lemma tracker_step_inv:
  assumes "tracker_inv t" "op_nonzero p"
  shows "\<exists>t'. tracker_step p t = Some t' \<and> tracker_inv t' \<and> maxSize t' = maxSize t
    \<and> evictBatch t' = evictBatch t"
proof (cases p)
  case (OpSet h s)
  have "0 < maxSize t" using assms by (simp add: tracker_inv_def)
  then obtain t' where "Set h s t = Some t'" using Set_total by blast
  then show ?thesis using Set_inv [OF assms(1), of h s t'] assms(2) OpSet by simp
qed (use assms GetAndDelete_inv Reset_tracker_inv in
    \<open>auto simp: GetAndDelete_def Reset_tracker_def\<close>)

lemma tracker_run_inv:
  assumes "tracker_inv t" "\<forall>p \<in> set ps. op_nonzero p"
  shows "\<exists>t'. tracker_run ps t = Some t' \<and> tracker_inv t' \<and> maxSize t' = maxSize t"
  using assms
proof (induction ps arbitrary: t)
  case (Cons p ps)
  then obtain t' where "tracker_step p t = Some t'" "tracker_inv t'" "maxSize t' = maxSize t"
    using tracker_step_inv [of t p] by auto
  moreover have "\<forall>p \<in> set ps. op_nonzero p" using Cons.prems by simp
  ultimately show ?case using Cons.IH [of t'] by simp
qed simp

text \<open>
  The tracker never panics and never holds more than \<open>maxSize\<close> entries, whatever sequence of
  sets, deletions and resets it goes through; each tracked hash sits in the ring.
\<close>
theorem tracker_bounded:
  assumes "0 < m" "\<forall>p \<in> set ps. op_nonzero p"
  shows "\<exists>t. tracker_run ps (NewTxTrackerWithSize m e) = Some t \<and> Size t \<le> m \<and>
    map_keys (times t) \<subseteq> set (insertOrder t)"
proof -
  obtain t where "tracker_run ps (NewTxTrackerWithSize m e) = Some t" "tracker_inv t"
    "maxSize t = m"
    using tracker_run_inv [OF new_inv [OF assms(1)] assms(2)]
    by (auto simp: NewTxTrackerWithSize_def)
  then show ?thesis using tracker_inv_size by (auto simp: tracker_inv_def)
qed

theorem tracker_bounded_witness:
  "\<exists>t. tracker_run [OpSet 7 1, OpSet 8 2, OpGetAndDelete 7, OpSet 9 3] (NewTxTrackerWithSize 2 1)
     = Some t \<and> Size t \<le> 2 \<and> map_keys (times t) \<subseteq> set (insertOrder t)"
  using tracker_bounded [of 2 "[OpSet 7 1, OpSet 8 2, OpGetAndDelete 7, OpSet 9 3]" 1] by simp

section \<open>How long an entry is kept\<close>

text \<open>
  \<open>h\<close> was set \<open>k\<close> other insertions ago: it sits in exactly one slot, \<open>k + 1\<close> behind the head.
\<close>

definition kept :: "hash \<Rightarrow> int \<Rightarrow> nat \<Rightarrow> tx_tracker \<Rightarrow> bool" where
  "kept h s k t \<longleftrightarrow> tracker_inv t \<and> h \<noteq> 0 \<and> map_get (times t) h = Some s \<and>
     (\<exists>p < maxSize t. (\<forall>i < maxSize t. insertOrder t ! i = h \<longleftrightarrow> i = p) \<and>
        head t = (p + 1 + k) mod maxSize t)"

lemma ring_other_slot:
  assumes "0 < d" "d < n" "p < (n::nat)" shows "(p + d) mod n \<noteq> p"
  using assms by (cases "p + d < n") (auto simp: mod_if)

lemma kept_evict:
  "kept h s k t \<Longrightarrow> k + e + n < maxSize t \<Longrightarrow> kept h s k (evict_from n e t)"
proof (induction n e t rule: evict_from.induct)
  case (2 n e t)
  let ?i = "(head t + e) mod maxSize t"
  let ?t = "t\<lparr>times := map_del (insertOrder t ! ?i) (times t), insertOrder := (insertOrder t)[?i := 0]\<rparr>"
  obtain p where p: "p < maxSize t" "\<And>i. i < maxSize t \<Longrightarrow> insertOrder t ! i = h \<longleftrightarrow> i = p"
    "head t = (p + 1 + k) mod maxSize t"
    and k: "tracker_inv t" "h \<noteq> 0" "map_get (times t) h = Some s"
    using 2(2) by (auto simp: kept_def)
  have "?i = (p + (1 + k + e)) mod maxSize t" by (simp add: p(3) mod_simps ac_simps)
  then have ne: "?i \<noteq> p" using ring_other_slot [of "1 + k + e" "maxSize t" p] 2(3) p(1) by simp
  have i: "?i < maxSize t" using p(1) by simp
  have o: "insertOrder t ! ?i \<noteq> h" using p(2) [OF i] ne by simp
  have "tracker_inv ?t"
    using k(1) i keys_after_clear [of "map_keys (times t)" "insertOrder t" ?i 0]
    by (auto simp: tracker_inv_def)
  moreover have "\<forall>j < maxSize t. insertOrder ?t ! j = h \<longleftrightarrow> j = p"
    using k(1,2) p ne i by (auto simp: tracker_inv_def nth_list_update)
  moreover have "map_get (times ?t) h = Some s" using k(3) o [symmetric] by simp
  ultimately have "kept h s k ?t"
    unfolding kept_def using k(2) p(1,3) by (intro conjI exI [of _ p]) simp_all
  then show ?case using 2 by (simp add: Let_def)
qed simp

lemma kept_Set_other:
  assumes "kept h s k t" "h' \<noteq> h" "h' \<noteq> 0" "k + 1 + evictBatch t < maxSize t"
    "Set h' s' t = Some t'"
  shows "kept h s (k + 1) t'"
proof -
  define u where "u = (if maxSize t \<le> length (times t) then evictOldest t else t)"
  have inv: "tracker_inv t" using assms(1) by (simp add: kept_def)
  have u: "maxSize u = maxSize t" "evictBatch u = evictBatch t" "head u = head t"
    using evict_from_inv [OF inv] by (auto simp: u_def evictOldest_def)
  have ku: "kept h s k u"
    using assms(1,4) kept_evict [OF assms(1), of 0 "evictBatch t"] by (simp add: u_def evictOldest_def)
  then obtain p where p: "p < maxSize t" "\<And>i. i < maxSize t \<Longrightarrow> insertOrder u ! i = h \<longleftrightarrow> i = p"
    "head u = (p + 1 + k) mod maxSize t"
    and k: "tracker_inv u" "h \<noteq> 0" "map_get (times u) h = Some s"
    by (auto simp: kept_def u)
  have ne: "head u \<noteq> p"
    using ring_other_slot [of "1 + k" "maxSize t" p] assms(4) p by (simp add: ac_simps)
  have hd: "head u < maxSize t" using p(1,3) by simp
  let ?o = "insertOrder u ! head u"
  have o: "?o \<noteq> h" using p(2) [OF hd] ne by simp
  have t': "t' = u\<lparr>times := if ?o \<noteq> 0 then map_del ?o (map_put h' s' (times u)) else map_put h' s' (times u),
      insertOrder := (insertOrder u)[head u := h'], head := (head u + 1) mod maxSize u\<rparr>"
    using assms(5) inv u by (auto simp: Set_def Let_def u_def [symmetric] tracker_inv_def)
  have "tracker_inv t'" using Set_inv [OF inv assms(3,5)] by simp
  moreover have "map_get (times t') h = Some s" using k o assms(2) by (simp add: t')
  moreover have "\<forall>j < maxSize t. insertOrder t' ! j = h \<longleftrightarrow> j = p"
    using k(1) p(1,2) ne hd assms(2) u by (auto simp: t' tracker_inv_def nth_list_update)
  moreover have "head t' = (p + 1 + (k + 1)) mod maxSize t"
    by (simp add: t' u(1) p(3) mod_add_left_eq mod_Suc_eq)
  ultimately show ?thesis using k(2) p(1) u(1) by (auto simp: kept_def t')
qed

lemma kept_Set_fresh:
  assumes "tracker_inv t" "h \<noteq> 0" "h \<notin> set (insertOrder t)" "Set h s t = Some t'"
  shows "kept h s 0 t' \<and> evictBatch t' = evictBatch t \<and> maxSize t' = maxSize t"
proof -
  define u where "u = (if maxSize t \<le> length (times t) then evictOldest t else t)"
  have u: "tracker_inv u" "maxSize u = maxSize t" "evictBatch u = evictBatch t" "head u = head t"
    using assms(1) evict_from_inv by (auto simp: u_def evictOldest_def)
  have sub: "set (insertOrder (evict_from n e v)) \<subseteq> insert 0 (set (insertOrder v))" for n e v
  proof (induction n e v rule: evict_from.induct)
    case (2 n e v)
    let ?v = "if insertOrder v ! ((head v + e) mod maxSize v) \<noteq> 0
      then v\<lparr>times := map_del (insertOrder v ! ((head v + e) mod maxSize v)) (times v),
        insertOrder := (insertOrder v)[(head v + e) mod maxSize v := 0]\<rparr> else v"
    have "set (insertOrder ?v) \<subseteq> insert 0 (set (insertOrder v))"
      by (auto dest: subsetD [OF set_update_subset_insert])
    with 2 [OF refl refl refl] show ?case by (auto simp: Let_def)
  qed auto
  have fresh: "h \<notin> set (insertOrder u)"
    using assms(2,3) sub [of "evictBatch t" 0 t] by (auto simp: u_def evictOldest_def)
  let ?o = "insertOrder u ! head u"
  have hd: "head u < length (insertOrder u)" "length (insertOrder u) = maxSize u"
    using u(1) by (auto simp: tracker_inv_def)
  then have o: "?o \<noteq> h" using fresh nth_mem by metis
  have t': "t' = u\<lparr>times := if ?o \<noteq> 0 then map_del ?o (map_put h s (times u)) else map_put h s (times u),
      insertOrder := (insertOrder u)[head u := h], head := (head u + 1) mod maxSize u\<rparr>"
    using assms(1,4) u by (auto simp: Set_def Let_def u_def [symmetric] tracker_inv_def)
  have "map_get (times t') h = Some s" using o by (simp add: t')
  moreover have "\<forall>i < maxSize u. insertOrder t' ! i = h \<longleftrightarrow> i = head u"
    using hd fresh nth_mem by (auto simp: t' nth_list_update)
  ultimately show ?thesis
    using Set_inv [OF assms(1,2,4)] assms(2) hd u by (auto simp: kept_def t')
qed

text \<open>The operations that leave an entry alone, and the number of insertions among them.\<close>

fun op_spares :: "hash \<Rightarrow> tracker_op \<Rightarrow> bool" where
  "op_spares h (OpSet h' s) = (h' \<noteq> h \<and> h' \<noteq> 0)"
| "op_spares h (OpGetAndDelete h') = (h' \<noteq> h)"
| "op_spares h OpReset = False"

fun op_sets :: "tracker_op \<Rightarrow> nat" where
  "op_sets (OpSet h s) = 1"
| "op_sets p = 0"

lemma kept_run:
  assumes "kept h s k t" "\<forall>p \<in> set ps. op_spares h p"
    "k + sum_list (map op_sets ps) + evictBatch t < maxSize t"
  shows "\<exists>t'. tracker_run ps t = Some t' \<and> Get h t' = Some s"
  using assms
proof (induction ps arbitrary: k t)
  case Nil
  then show ?case by (simp add: kept_def Get_def)
next
  case (Cons p ps)
  have inv: "tracker_inv t" using Cons.prems by (simp add: kept_def)
  have rest: "\<forall>p \<in> set ps. op_spares h p" using Cons.prems by simp
  show ?case
  proof (cases p)
    case (OpSet h' s')
    have "0 < maxSize t" using Cons.prems by linarith
    then obtain t' where t': "Set h' s' t = Some t'" using Set_total by blast
    have ok: "h' \<noteq> h" "h' \<noteq> 0" using Cons.prems OpSet by auto
    have "kept h s (k + 1) t'"
      by (rule kept_Set_other [OF Cons.prems(1) ok _ t']) (use Cons.prems(3) OpSet in simp)
    moreover have "maxSize t' = maxSize t" "evictBatch t' = evictBatch t"
      using Set_inv [OF inv ok(2) t'] by auto
    ultimately show ?thesis
      using Cons.IH [of "k + 1" t'] rest Cons.prems(3) OpSet t' by simp
  next
    case (OpGetAndDelete h')
    then have "kept h s k (snd (GetAndDelete h' t))"
      using Cons.prems(1,2) GetAndDelete_inv [of t h'] by (auto simp: kept_def GetAndDelete_def)
    then show ?thesis
      using Cons.IH [of k "snd (GetAndDelete h' t)"] rest Cons.prems(3) OpGetAndDelete
      by (simp add: GetAndDelete_def)
  qed (use Cons.prems in auto)
qed

text \<open>
  An entry whose hash is new to the ring can be looked up, with the time it was set with, for
  at least the next \<open>maxSize - evictBatch - 1\<close> insertions of other hashes, whatever lookups and
  deletions happen between them.
\<close>
theorem tracker_keeps_recent:
  assumes "tracker_inv t" "h \<noteq> 0" "h \<notin> set (insertOrder t)"
    "\<forall>p \<in> set ps. op_spares h p" "sum_list (map op_sets ps) + evictBatch t < maxSize t"
  shows "\<exists>t'. tracker_run (OpSet h s # ps) t = Some t' \<and> Get h t' = Some s"
proof -
  have "0 < maxSize t" using assms by linarith
  then obtain u where u: "Set h s t = Some u" using Set_total by blast
  from kept_Set_fresh [OF assms(1-3) u] have "kept h s 0 u" "evictBatch u = evictBatch t"
    "maxSize u = maxSize t" by auto
  then show ?thesis using kept_run [of h s 0 u ps] assms(4,5) u by simp
qed

theorem tracker_keeps_recent_witness:
  "\<exists>t'. tracker_run [OpSet 5 50, OpSet 6 60, OpGetAndDelete 6, OpSet 7 70]
      (NewTxTrackerWithSize 4 1) = Some t' \<and> Get 5 t' = Some 50"
  using tracker_keeps_recent [OF new_inv, of 4 5 1 "[OpSet 6 60, OpGetAndDelete 6, OpSet 7 70]" 50]
  by (simp add: NewTxTrackerWithSize_def)

text \<open>
  When the hash being set is the one that already sits in the slot the ring is about to
  reuse, \<open>Set\<close> deletes the entry it has just stored: the transaction is untracked right
  after its send was recorded.
\<close>
theorem tracker_set_stale_slot_loses_entry:
  assumes "0 < maxSize t" "length (times t) < maxSize t" "h \<noteq> 0" "insertOrder t ! head t = h"
    "Set h s t = Some t'"
  shows "Get h t' = None"
  using assms by (auto simp: Set_def Get_def Let_def)

theorem tracker_set_stale_slot_loses_entry_witness:
  "\<exists>t. tracker_run [OpSet 5 1, OpGetAndDelete 5, OpSet 6 2, OpGetAndDelete 6]
       (NewTxTrackerWithSize 2 1) = Some t \<and>
     (\<exists>t'. Set 5 3 t = Some t' \<and> Get 5 t' = None)"
proof -
  let ?t = "\<lparr>times = [], insertOrder = [5, 6], head = 0, maxSize = 2, evictBatch = 1\<rparr>"
  have r: "tracker_run [OpSet 5 1, OpGetAndDelete 5, OpSet 6 2, OpGetAndDelete 6]
       (NewTxTrackerWithSize 2 1) = Some ?t"
    by (simp add: NewTxTrackerWithSize_def Set_def GetAndDelete_def Let_def map_put_def map_del_def
        numeral_2_eq_2)
  obtain t' where "Set 5 3 ?t = Some t'" using Set_total [of ?t 5 3] by auto
  with tracker_set_stale_slot_loses_entry [of ?t 5 3 t'] r show ?thesis by auto
qed

end
