(* ===== verification/Tx_Flow.thy ===== *)
theory Tx_Flow
  imports Float64
begin

text \<open>
  \<open>internal/metrics/txflow.go\<close>: the journey of every transaction through the stages of the
  sequencer, and the counters that classify finished journeys.  A record is modelled as one step;
  the code is not atomic when two goroutines record stages of the same hash at once, which is
  outside the model.  Counters grow by one per event and are natural numbers.
\<close>

datatype tx_stage =
    StageSent | StagePending | StagePreconfirmed | StageConfirmed
  | StageDropped | StageRequeued | StageRevoked | StageFailed

fun stage_String :: "tx_stage \<Rightarrow> string" where
  "stage_String StageSent = ''sent''"
| "stage_String StagePending = ''pending''"
| "stage_String StagePreconfirmed = ''preconfirmed''"
| "stage_String StageConfirmed = ''confirmed''"
| "stage_String StageDropped = ''dropped''"
| "stage_String StageRequeued = ''requeued''"
| "stage_String StageRevoked = ''revoked''"
| "stage_String StageFailed = ''failed''"

type_synonym tx_flow = "(tx_stage \<times> int) list"

definition HasStage :: "tx_flow \<Rightarrow> tx_stage \<Rightarrow> bool" where
  "HasStage f stage = list_ex (\<lambda>(s, t). s = stage) f"

definition StageCount :: "tx_flow \<Rightarrow> nat" where
  "StageCount f = length f"

record flow_tracker =
  flows :: "(hash, tx_flow) gomap"
  totalTracked :: nat
  directConfirmed :: nat
  pendingConfirmed :: nat
  preconfConfirmed :: nat
  droppedRequeued :: nat
  revokedFlow :: nat
  failedFlow :: nat
  totalStages :: nat

definition NewTxFlowTracker :: flow_tracker where
  "NewTxFlowTracker =
     \<lparr>flows = [], totalTracked = 0, directConfirmed = 0, pendingConfirmed = 0, preconfConfirmed = 0,
      droppedRequeued = 0, revokedFlow = 0, failedFlow = 0, totalStages = 0\<rparr>"

definition updateConfirmedCounters :: "hash \<Rightarrow> flow_tracker \<Rightarrow> flow_tracker" where
  "updateConfirmedCounters h t =
     (case map_get (flows t) h of
        None \<Rightarrow> t
      | Some f \<Rightarrow>
          let t1 = (if HasStage f StageDropped \<or> HasStage f StageRequeued
                    then t\<lparr>droppedRequeued := droppedRequeued t + 1\<rparr> else t);
              t2 = (if HasStage f StageRevoked then t1\<lparr>revokedFlow := revokedFlow t1 + 1\<rparr> else t1)
          in if HasStage f StagePreconfirmed then t2\<lparr>preconfConfirmed := preconfConfirmed t2 + 1\<rparr>
             else if HasStage f StagePending then t2\<lparr>pendingConfirmed := pendingConfirmed t2 + 1\<rparr>
             else t2\<lparr>directConfirmed := directConfirmed t2 + 1\<rparr>)"

definition append_stage :: "hash \<Rightarrow> tx_stage \<Rightarrow> int \<Rightarrow> flow_tracker \<Rightarrow> flow_tracker" where
  "append_stage h stage ts t =
     (case map_get (flows t) h of
        Some f \<Rightarrow> t\<lparr>flows := map_put h (f @ [(stage, ts)]) (flows t)\<rparr>
      | None \<Rightarrow> t\<lparr>flows := map_put h [(stage, ts)] (flows t), totalTracked := totalTracked t + 1\<rparr>)"

definition RecordStage :: "hash \<Rightarrow> tx_stage \<Rightarrow> int \<Rightarrow> flow_tracker \<Rightarrow> flow_tracker" where
  "RecordStage h stage ts t =
     (let t1 = append_stage h stage ts t;
          t2 = t1\<lparr>totalStages := totalStages t1 + 1\<rparr>
      in case stage of
           StageConfirmed \<Rightarrow>
             (let t3 = updateConfirmedCounters h t2 in t3\<lparr>flows := map_del h (flows t3)\<rparr>)
         | StageFailed \<Rightarrow> t2\<lparr>failedFlow := failedFlow t2 + 1, flows := map_del h (flows t2)\<rparr>
         | StageDropped \<Rightarrow> t2\<lparr>flows := map_del h (flows t2)\<rparr>
         | StageRevoked \<Rightarrow> t2\<lparr>flows := map_del h (flows t2)\<rparr>
         | _ \<Rightarrow> t2)"

record flow_stats =
  fs_direct :: nat
  fs_pending :: nat
  fs_preconf :: nat
  fs_dropped :: nat
  fs_revoked :: nat
  fs_failed :: nat
  fs_total :: nat
  fs_avgStages :: f64
  fs_stageCounts :: "(string, nat) gomap"

definition flow_GetStats :: "flow_tracker \<Rightarrow> flow_stats" where
  "flow_GetStats t =
     \<lparr>fs_direct = directConfirmed t, fs_pending = pendingConfirmed t,
      fs_preconf = preconfConfirmed t, fs_dropped = droppedRequeued t,
      fs_revoked = revokedFlow t, fs_failed = failedFlow t, fs_total = totalTracked t,
      fs_avgStages = (if 0 < totalTracked t
        then fdiv (f64_of_int (int (totalStages t))) (f64_of_int (int (totalTracked t))) else 0),
      fs_stageCounts = []\<rparr>"

definition incr_count :: "'k \<Rightarrow> ('k, nat) gomap \<Rightarrow> ('k, nat) gomap" where
  "incr_count k m = map_put k (case map_get m k of None \<Rightarrow> 1 | Some n \<Rightarrow> n + 1) m"

definition flow_GetDetailedStats :: "flow_tracker \<Rightarrow> flow_stats" where
  "flow_GetDetailedStats t =
     (flow_GetStats t)\<lparr>fs_stageCounts :=
        fold (\<lambda>(h, f). fold (\<lambda>(s, ts). incr_count (stage_String s)) f) (flows t) []\<rparr>"

definition flow_Reset :: "flow_tracker \<Rightarrow> flow_tracker" where
  "flow_Reset t = NewTxFlowTracker"

definition GetFlow :: "hash \<Rightarrow> flow_tracker \<Rightarrow> tx_flow option" where
  "GetFlow h t = map_get (flows t) h"

definition flow_Size :: "flow_tracker \<Rightarrow> nat" where
  "flow_Size t = totalTracked t"

section \<open>What the counters count\<close>

definition terminal :: "tx_stage \<Rightarrow> bool" where
  "terminal s \<longleftrightarrow> s \<in> {StageConfirmed, StageFailed, StageDropped, StageRevoked}"

text \<open>
  Journeys in the map never contain a terminal stage: the record that adds one removes the
  journey.
\<close>

definition flow_inv :: "flow_tracker \<Rightarrow> bool" where
  "flow_inv t \<longleftrightarrow> map_wf (flows t) \<and>
     (\<forall>h f. map_get (flows t) h = Some f \<longrightarrow> f \<noteq> [] \<and> (\<forall>(s, ts) \<in> set f. \<not> terminal s))"

lemma HasStage_mem: "HasStage f s \<longleftrightarrow> s \<in> fst ` set f"
  by (force simp: HasStage_def list_ex_iff)

lemma append_stage_get:
  "map_get (flows (append_stage h s ts t)) h' =
     (if h' = h then Some ((case map_get (flows t) h of None \<Rightarrow> [] | Some f \<Rightarrow> f) @ [(s, ts)])
      else map_get (flows t) h')"
  by (auto simp: append_stage_def split: option.splits)

lemma append_stage_wf: "map_wf (flows t) \<Longrightarrow> map_wf (flows (append_stage h s ts t))"
  by (auto simp: append_stage_def split: option.splits)

lemma updateConfirmed_flows [simp]: "flows (updateConfirmedCounters h t) = flows t"
  by (simp add: updateConfirmedCounters_def Let_def split: option.split)

lemma append_stage_others [simp]:
  "totalStages (append_stage h s ts t) = totalStages t"
  "directConfirmed (append_stage h s ts t) = directConfirmed t"
  "pendingConfirmed (append_stage h s ts t) = pendingConfirmed t"
  "preconfConfirmed (append_stage h s ts t) = preconfConfirmed t"
  "droppedRequeued (append_stage h s ts t) = droppedRequeued t"
  "revokedFlow (append_stage h s ts t) = revokedFlow t"
  "failedFlow (append_stage h s ts t) = failedFlow t"
  by (simp_all add: append_stage_def split: option.split)

text \<open>The map after a record, in one equation.\<close>

lemma RecordStage_flows:
  "flows (RecordStage h s ts t) =
     (if terminal s then map_del h (flows (append_stage h s ts t)) else flows (append_stage h s ts t))"
  by (cases s) (simp_all add: RecordStage_def Let_def terminal_def)

lemma RecordStage_inv:
  assumes "flow_inv t" shows "flow_inv (RecordStage h s ts t)"
proof -
  have "map_wf (flows (RecordStage h s ts t))"
    using assms by (simp add: RecordStage_flows flow_inv_def append_stage_wf)
  moreover have "f \<noteq> [] \<and> (\<forall>(s', ts') \<in> set f. \<not> terminal s')"
    if "map_get (flows (RecordStage h s ts t)) h' = Some f" for h' f
    using that assms
    by (auto simp: RecordStage_flows append_stage_get flow_inv_def split: if_splits option.splits)
       blast+
  ultimately show ?thesis by (simp add: flow_inv_def)
qed

type_synonym stage_event = "hash \<times> tx_stage \<times> int"

definition record_all :: "stage_event list \<Rightarrow> flow_tracker \<Rightarrow> flow_tracker" where
  "record_all es t = fold (\<lambda>(h, s, ts). RecordStage h s ts) es t"

lemma record_all_snoc: "record_all (es @ [(h, s, ts)]) t = RecordStage h s ts (record_all es t)"
  by (simp add: record_all_def)

lemma record_all_inv: "flow_inv (record_all es NewTxFlowTracker)"
proof (induction es rule: rev_induct)
  case Nil
  show ?case by (simp add: record_all_def flow_inv_def NewTxFlowTracker_def)
next
  case (snoc e es)
  then show ?case by (cases e) (simp add: record_all_snoc RecordStage_inv)
qed

definition count_stage :: "(tx_stage \<Rightarrow> bool) \<Rightarrow> stage_event list \<Rightarrow> nat" where
  "count_stage P es = length (filter (\<lambda>(h, s, ts). P s) es)"

lemma count_stage_snoc:
  "count_stage P (es @ [(h, s, ts)]) = count_stage P es + (if P s then 1 else 0)"
  by (simp add: count_stage_def)

text \<open>A confirmation is counted in exactly one of the three patterns.\<close>

lemma updateConfirmed_sum:
  assumes "map_get (flows t) h = Some f"
  shows "directConfirmed (updateConfirmedCounters h t) + pendingConfirmed (updateConfirmedCounters h t)
      + preconfConfirmed (updateConfirmedCounters h t)
    = directConfirmed t + pendingConfirmed t + preconfConfirmed t + 1"
  "HasStage f StageRevoked = False \<Longrightarrow> revokedFlow (updateConfirmedCounters h t) = revokedFlow t"
  "failedFlow (updateConfirmedCounters h t) = failedFlow t"
  "totalTracked (updateConfirmedCounters h t) = totalTracked t"
  "totalStages (updateConfirmedCounters h t) = totalStages t"
  using assms by (auto simp: updateConfirmedCounters_def Let_def)

lemma RecordStage_counts:
  assumes "flow_inv t"
  shows "totalStages (RecordStage h s ts t) = totalStages t + 1"
  "directConfirmed (RecordStage h s ts t) + pendingConfirmed (RecordStage h s ts t)
     + preconfConfirmed (RecordStage h s ts t)
   = directConfirmed t + pendingConfirmed t + preconfConfirmed t + (if s = StageConfirmed then 1 else 0)"
  "revokedFlow (RecordStage h s ts t) = revokedFlow t"
  "failedFlow (RecordStage h s ts t) = failedFlow t + (if s = StageFailed then 1 else 0)"
  "totalTracked (RecordStage h s ts t) + length (flows t)
   = totalTracked t + length (flows (RecordStage h s ts t)) + (if terminal s then 1 else 0)"
proof -
  let ?t1 = "append_stage h s ts t"
  let ?t2 = "?t1\<lparr>totalStages := totalStages ?t1 + 1\<rparr>"
  let ?f = "(case map_get (flows t) h of None \<Rightarrow> [] | Some f \<Rightarrow> f) @ [(s, ts)]"
  have g: "map_get (flows ?t2) h = Some ?f" by (simp add: append_stage_get)
  have nr: "HasStage ?f StageRevoked = False" if "s = StageConfirmed"
    using that assms
    by (cases "map_get (flows t) h") (fastforce simp: HasStage_mem flow_inv_def terminal_def)+
  note u = updateConfirmed_sum [OF g]
  show "totalStages (RecordStage h s ts t) = totalStages t + 1"
    using u(5) by (cases s) (simp_all add: RecordStage_def Let_def)
  show "directConfirmed (RecordStage h s ts t) + pendingConfirmed (RecordStage h s ts t)
     + preconfConfirmed (RecordStage h s ts t)
   = directConfirmed t + pendingConfirmed t + preconfConfirmed t + (if s = StageConfirmed then 1 else 0)"
    using u(1) by (cases s) (simp_all add: RecordStage_def Let_def)
  show "revokedFlow (RecordStage h s ts t) = revokedFlow t"
    using u(2) nr by (cases s) (simp_all add: RecordStage_def Let_def)
  show "failedFlow (RecordStage h s ts t) = failedFlow t + (if s = StageFailed then 1 else 0)"
    using u(3) by (cases s) (simp_all add: RecordStage_def Let_def)
  have tt: "totalTracked (RecordStage h s ts t) = totalTracked ?t1"
    using u(4) by (cases s) (simp_all add: RecordStage_def Let_def)
  have wf: "map_wf (flows t)" "map_wf (flows ?t1)" using assms append_stage_wf by (auto simp: flow_inv_def)
  have len: "length (flows ?t1) + totalTracked t = length (flows t) + totalTracked ?t1"
    using wf by (auto simp: append_stage_def map_len_card card_insert_if map_keys_get split: option.split)
  have "h \<in> map_keys (flows ?t1)" by (simp add: map_keys_get append_stage_get)
  then have del: "length (map_del h (flows ?t1)) + 1 = length (flows ?t1)"
    using wf(2) by (simp add: map_len_card card_Diff_singleton card_gt_0_iff) (metis
        Suc_pred card_gt_0_iff empty_iff finite_map_keys)
  show "totalTracked (RecordStage h s ts t) + length (flows t)
   = totalTracked t + length (flows (RecordStage h s ts t)) + (if terminal s then 1 else 0)"
    using len del by (simp add: tt RecordStage_flows)
qed

text \<open>
  C2: The flow counters account for every record: the stages are counted one by one, the three
  confirmation patterns sum to the confirmations recorded, the failures to the failures recorded,
  and the number of journeys tracked is the number still open plus the number of terminal records.
\<close>
theorem flow_accounting:
  "let t = record_all es NewTxFlowTracker in
     totalStages t = length es \<and>
     directConfirmed t + pendingConfirmed t + preconfConfirmed t
       = count_stage (\<lambda>s. s = StageConfirmed) es \<and>
     failedFlow t = count_stage (\<lambda>s. s = StageFailed) es \<and>
     totalTracked t = length (flows t) + count_stage terminal es"
proof (induction es rule: rev_induct)
  case Nil
  show ?case by (simp add: record_all_def NewTxFlowTracker_def count_stage_def)
next
  case (snoc e es)
  obtain h s ts where e: "e = (h, s, ts)" by (cases e)
  note c = RecordStage_counts [OF record_all_inv [of es], of h s ts]
  show ?case
    using snoc c(1,2,4,5) by (simp add: e record_all_snoc count_stage_snoc Let_def)
qed

text \<open>
  The counter of journeys that had a revocation is never incremented: a revocation removes
  the journey it is recorded in, so no confirmed journey contains one, although the revoked
  transaction may well be confirmed afterwards.
\<close>
theorem revoked_flow_never_counted:
  "fs_revoked (flow_GetStats (record_all es NewTxFlowTracker)) = 0"
proof -
  have "revokedFlow (record_all es NewTxFlowTracker) = 0"
  proof (induction es rule: rev_induct)
    case Nil
    show ?case by (simp add: record_all_def NewTxFlowTracker_def)
  next
    case (snoc e es)
    then show ?case
      by (cases e) (simp add: record_all_snoc RecordStage_counts(3) [OF record_all_inv])
  qed
  then show ?thesis by (simp add: flow_GetStats_def)
qed

text \<open>The average number of stages is at least one as soon as something is tracked.\<close>

lemma avg_stages_ge_1:
  assumes "0 < totalTracked (record_all es NewTxFlowTracker)"
  shows "1 \<le> fs_avgStages (flow_GetStats (record_all es NewTxFlowTracker))"
proof -
  let ?t = "record_all es NewTxFlowTracker"
  have le: "totalTracked ?t \<le> totalStages ?t"
  proof (induction es rule: rev_induct)
    case (snoc e es)
    obtain h s ts where e: "e = (h, s, ts)" by (cases e)
    let ?u = "record_all es NewTxFlowTracker"
    have "totalTracked (append_stage h s ts ?u) \<le> totalTracked ?u + 1"
      by (simp add: append_stage_def split: option.split)
    moreover have "totalTracked (RecordStage h s ts ?u) = totalTracked (append_stage h s ts ?u)"
      by (cases s) (simp_all add: RecordStage_def Let_def updateConfirmedCounters_def split: option.split)
    ultimately show ?case
      using snoc RecordStage_counts(1) [OF record_all_inv, of h s ts es] by (simp add: e record_all_snoc)
  qed (simp add: record_all_def NewTxFlowTracker_def)
  have p: "0 < fl (of_nat (totalTracked ?t))" using assms by (intro fl_pos) simp
  moreover have "fl (of_nat (totalTracked ?t)) \<le> fl (of_nat (totalStages ?t))"
    using le by (intro fl_mono) simp
  ultimately have "1 \<le> fl (of_nat (totalStages ?t)) / fl (of_nat (totalTracked ?t))"
    by (simp add: le_divide_eq)
  then have "1 \<le> fdiv (f64_of_int (int (totalStages ?t))) (f64_of_int (int (totalTracked ?t)))"
    unfolding float_ops by (intro fl_ge_exact) simp_all
  then show ?thesis using assms by (simp add: flow_GetStats_def)
qed

end
