(* ===== verification/Latency.thy ===== *)
theory Latency
  imports Float64
begin

text \<open>
  \<open>internal/metrics/latency.go\<close>: streaming latency statistics.  Counts, extrema, a histogram and
  a reservoir of samples from which the percentiles are interpolated.  Samples are float64
  values (\<open>Float64\<close>); the random state is the code's xorshift64* generator on 64-bit words.
\<close>

unbundle bit_operations_syntax

record latency_stats =
  l_count :: nat
  l_sum :: f64
  l_min :: f64
  l_max :: f64
  reservoir :: "f64 list"
  reservoirSize :: nat
  seen :: nat
  buckets :: "nat list"
  bucketBounds :: "f64 list"
  randState :: u64

text \<open>\<open>math.MaxFloat64\<close>.\<close>

definition MaxFloat64 :: f64 where
  "MaxFloat64 = (2 ^ 53 - 1) * 2 ^ 971"

definition NewStreamingLatencyStats :: latency_stats where
  "NewStreamingLatencyStats =
     \<lparr>l_count = 0, l_sum = 0, l_min = MaxFloat64, l_max = 0, reservoir = [], reservoirSize = 10000,
      seen = 0, buckets = replicate 5 0, bucketBounds = [250, 500, 1000, 2000], randState = 1\<rparr>"

fun bucket_index :: "f64 list \<Rightarrow> nat \<Rightarrow> f64 \<Rightarrow> nat" where
  "bucket_index [] i x = i"
| "bucket_index (b # bs) i x = (if x < b then i else bucket_index bs (i + 1) x)"

definition getBucketIndex :: "latency_stats \<Rightarrow> f64 \<Rightarrow> nat" where
  "getBucketIndex s x = bucket_index (bucketBounds s) 0 x"

definition fastRand :: "latency_stats \<Rightarrow> u64 \<times> latency_stats" where
  "fastRand s =
     (let r1 = randState s XOR drop_bit 12 (randState s);
          r2 = r1 XOR push_bit 25 r1;
          r3 = r2 XOR drop_bit 27 r2
      in (r3 * 0x2545F4914F6CDD1D, s\<lparr>randState := r3\<rparr>))"

definition reservoir_add :: "f64 \<Rightarrow> latency_stats \<Rightarrow> latency_stats" where
  "reservoir_add x s =
     (if length (reservoir s) < reservoirSize s then s\<lparr>reservoir := reservoir s @ [x]\<rparr>
      else case fastRand s of (r, s') \<Rightarrow>
        let j = r mod of_nat (seen s') in
        if j < of_nat (reservoirSize s') then s'\<lparr>reservoir := (reservoir s')[unat j := x]\<rparr> else s')"

definition latency_Add :: "f64 \<Rightarrow> latency_stats \<Rightarrow> latency_stats" where
  "latency_Add x s0 =
     (let s1 = s0\<lparr>l_count := l_count s0 + 1, l_sum := fadd (l_sum s0) x, seen := seen s0 + 1\<rparr>;
          s2 = (if x < l_min s1 then s1\<lparr>l_min := x\<rparr> else s1);
          s3 = (if l_max s2 < x then s2\<lparr>l_max := x\<rparr> else s2);
          b = getBucketIndex s3 x;
          s4 = s3\<lparr>buckets := (buckets s3)[b := buckets s3 ! b + 1]\<rparr>
      in reservoir_add x s4)"

definition percentile :: "f64 list \<Rightarrow> f64 \<Rightarrow> f64" where
  "percentile srt p =
     (if length srt = 0 then 0
      else if length srt = 1 then srt ! 0
      else let idx = fmul p (f64_of_int (int (length srt) - 1));
               lower = f64_trunc idx; upper = lower + 1
           in if int (length srt) \<le> upper then srt ! (length srt - 1)
              else let frac = fsub idx (f64_of_int lower)
                   in fadd (fmul (srt ! nat lower) (fsub 1 frac)) (fmul (srt ! nat upper) frac))"

record latency_report =
  r_Count :: nat
  r_Min :: f64
  r_Max :: f64
  r_Avg :: f64
  r_P50 :: f64
  r_P75 :: f64
  r_P90 :: f64
  r_P95 :: f64
  r_P99 :: f64
  r_Buckets :: "(string \<times> nat) list"

definition latency_GetStats :: "latency_stats \<Rightarrow> latency_report option" where
  "latency_GetStats s =
     (if l_count s = 0 then None else
      let srt = sort (reservoir s) in
      Some \<lparr>r_Count = l_count s, r_Min = l_min s, r_Max = l_max s,
            r_Avg = fdiv (l_sum s) (f64_of_int (int (l_count s))),
            r_P50 = percentile srt (fl (50/100)), r_P75 = percentile srt (fl (75/100)),
            r_P90 = percentile srt (fl (90/100)), r_P95 = percentile srt (fl (95/100)),
            r_P99 = percentile srt (fl (99/100)),
            r_Buckets = [(''0-250ms'', buckets s ! 0), (''250-500ms'', buckets s ! 1),
              (''500-1s'', buckets s ! 2), (''1-2s'', buckets s ! 3), (''2s+'', buckets s ! 4)]\<rparr>)"

definition latency_Reset :: "latency_stats \<Rightarrow> latency_stats" where
  "latency_Reset s =
     s\<lparr>l_count := 0, l_sum := 0, l_min := MaxFloat64, l_max := 0, reservoir := [], seen := 0,
       buckets := replicate (length (buckets s)) 0\<rparr>"

definition latency_Count :: "latency_stats \<Rightarrow> nat" where
  "latency_Count s = l_count s"

section \<open>The invariant\<close>

lemma bucket_index_le: "bucket_index bs i x \<le> i + length bs"
  by (induction bs i x rule: bucket_index.induct) auto

definition latency_inv :: "f64 list \<Rightarrow> latency_stats \<Rightarrow> bool" where
  "latency_inv xs s \<longleftrightarrow>
     l_count s = length xs \<and> seen s = length xs \<and> sum_list (buckets s) = length xs \<and>
     length (buckets s) = 5 \<and> length (bucketBounds s) = 4 \<and> reservoirSize s = 10000 \<and>
     length (reservoir s) = min (length xs) 10000 \<and> set (reservoir s) \<subseteq> set xs \<and>
     l_min s = Min (insert MaxFloat64 (set xs)) \<and> l_max s = Max (insert 0 (set xs))"

lemma new_latency_inv: "latency_inv [] NewStreamingLatencyStats"
  by (simp add: latency_inv_def NewStreamingLatencyStats_def)

lemma sum_list_bump: "i < length xs \<Longrightarrow> sum_list (xs[i := Suc (xs ! i)]) = Suc (sum_list xs)"
  by (induction xs arbitrary: i) (auto split: nat.splits)

lemma reservoir_add_frame [simp]:
  "l_count (reservoir_add x s) = l_count s" "seen (reservoir_add x s) = seen s"
  "buckets (reservoir_add x s) = buckets s" "bucketBounds (reservoir_add x s) = bucketBounds s"
  "reservoirSize (reservoir_add x s) = reservoirSize s"
  "l_min (reservoir_add x s) = l_min s" "l_max (reservoir_add x s) = l_max s"
  by (simp_all add: reservoir_add_def fastRand_def Let_def)

lemma reservoir_add_length:
  "length (reservoir s) = min n 10000 \<Longrightarrow> reservoirSize s = 10000 \<Longrightarrow>
   length (reservoir (reservoir_add x s)) = min (n + 1) 10000"
  by (auto simp: reservoir_add_def fastRand_def Let_def)

lemma reservoir_add_set: "set (reservoir (reservoir_add x s)) \<subseteq> insert x (set (reservoir s))"
  using set_update_subset_insert [of "reservoir s"]
  by (auto simp: reservoir_add_def fastRand_def Let_def dest: subsetD [OF set_update_subset_insert])

lemma latency_Add_inv:
  assumes "latency_inv xs s" shows "latency_inv (xs @ [x]) (latency_Add x s)"
proof -
  have b: "getBucketIndex s x < 5"
    using bucket_index_le [of "bucketBounds s" 0 x] assms by (simp add: getBucketIndex_def latency_inv_def)
  define u where "u = s\<lparr>l_count := l_count s + 1, l_sum := fadd (l_sum s) x, seen := seen s + 1,
    l_min := min x (l_min s), l_max := max x (l_max s),
    buckets := (buckets s)[getBucketIndex s x := buckets s ! getBucketIndex s x + 1]\<rparr>"
  have e: "latency_Add x s = reservoir_add x u"
    by (auto simp: latency_Add_def Let_def u_def getBucketIndex_def min_def max_def)
  have "length (reservoir (reservoir_add x u)) = min (length xs + 1) 10000"
    by (rule reservoir_add_length) (use assms in \<open>simp_all add: u_def latency_inv_def\<close>)
  moreover have "set (reservoir (reservoir_add x u)) \<subseteq> set (xs @ [x])"
    using reservoir_add_set [of x u] assms by (auto simp: u_def latency_inv_def)
  moreover have "l_min u = Min (insert MaxFloat64 (set (xs @ [x])))"
    "l_max u = Max (insert 0 (set (xs @ [x])))"
    using assms by (simp_all add: u_def latency_inv_def insert_commute [of _ x])
  ultimately show ?thesis
    using assms b sum_list_bump [of "getBucketIndex s x" "buckets s"]
    by (simp add: e latency_inv_def) (simp add: u_def)
qed

definition add_all :: "f64 list \<Rightarrow> latency_stats \<Rightarrow> latency_stats" where
  "add_all xs s = fold latency_Add xs s"

lemma add_all_inv: "latency_inv xs (add_all xs NewStreamingLatencyStats)"
  by (induction xs rule: rev_induct)
     (simp_all add: add_all_def new_latency_inv latency_Add_inv)


section \<open>Percentiles\<close>

lemma fl_upper: "0 \<le> x \<Longrightarrow> fl x \<le> x * (1 + 1 / 2 ^ 53)"
proof -
  assume "0 \<le> x"
  then have "fl x \<le> x + x / 2 ^ 53" using fl_error [of x] by linarith
  also have "\<dots> = x * (1 + 1 / 2 ^ 53)" by (simp only: distrib_left) simp
  finally show ?thesis .
qed

lemma fl_lower: "0 \<le> x \<Longrightarrow> x * (1 - 1 / 2 ^ 53) \<le> fl x"
proof -
  assume "0 \<le> x"
  then have "x - x / 2 ^ 53 \<le> fl x" using fl_error [of x] by linarith
  also have "x - x / 2 ^ 53 = x * (1 - 1 / 2 ^ 53)" by (simp only: right_diff_distrib) simp
  finally show ?thesis .
qed

text \<open>Interpolation between two neighbours, with its four roundings.\<close>

lemma interpolate_bounds:
  assumes "0 \<le> a" "a \<le> b" "0 \<le> f" "f \<le> 1"
  shows "a * (1 - 1 / 2 ^ 53) ^ 3 \<le> fadd (fmul a (fsub 1 f)) (fmul b f)"
    "fadd (fmul a (fsub 1 f)) (fmul b f) \<le> b * (1 + 1 / 2 ^ 53) ^ 3"
proof -
  define d :: rat where "d = 1 - 1 / 2 ^ 53"
  define u :: rat where "u = 1 + 1 / 2 ^ 53"
  have du: "0 < d" "d \<le> 1" "1 \<le> u" by (simp_all add: d_def u_def)
  let ?g = "fl (1 - f)"
  have g: "(1 - f) * d \<le> ?g" "?g \<le> (1 - f) * u" "0 \<le> ?g"
    using assms fl_upper [of "1 - f"] fl_lower [of "1 - f"] fl_nonneg [of "1 - f"] by (simp_all add: d_def u_def)
  have b0: "0 \<le> b" using assms by simp
  have ag: "0 \<le> a * ?g" "0 \<le> b * f" using assms g(3) b0 by simp_all
  have p1: "a * ?g * d \<le> fl (a * ?g)" "fl (a * ?g) \<le> a * ?g * u"
    "b * f * d \<le> fl (b * f)" "fl (b * f) \<le> b * f * u"
    using ag fl_upper fl_lower by (simp_all add: d_def u_def)
  have nn: "0 \<le> fl (a * ?g)" "0 \<le> fl (b * f)" using ag by (simp_all add: fl_nonneg)
  let ?s = "fl (a * ?g) + fl (b * f)"
  have s: "?s * d \<le> fl ?s" "fl ?s \<le> ?s * u"
    using nn fl_upper [of ?s] fl_lower [of ?s] by (simp_all add: d_def u_def)
  have "a * (1 - f) * d * d + a * f * d * d \<le> a * ?g * d + b * f * d"
  proof (rule add_mono)
    show "a * (1 - f) * d * d \<le> a * ?g * d"
      using mult_right_mono [OF mult_left_mono [OF g(1) assms(1)], of d] du by (simp add: ac_simps)
    have "a * f * d * d \<le> a * f * d" using assms du by (simp add: mult_left_le)
    also have "\<dots> \<le> b * f * d" using assms du by (simp add: mult_right_mono)
    finally show "a * f * d * d \<le> b * f * d" .
  qed
  also have "\<dots> \<le> ?s" using p1 by linarith
  finally have "a * d * d \<le> ?s" by (simp add: algebra_simps)
  then have "a * d * d * d \<le> ?s * d" using du by (simp add: mult_right_mono)
  with s(1) have "a * d ^ 3 \<le> fl ?s" by (simp add: power3_eq_cube ac_simps)
  then show "a * (1 - 1 / 2 ^ 53) ^ 3 \<le> fadd (fmul a (fsub 1 f)) (fmul b f)"
    unfolding d_def float_ops .
  have "?s \<le> a * ?g * u + b * f * u" using p1 by linarith
  also have "\<dots> \<le> b * (1 - f) * u * u + b * f * u * u"
  proof (rule add_mono)
    have "a * ?g \<le> b * ((1 - f) * u)" using assms g by (intro mult_mono) simp_all
    then have "a * ?g * u \<le> b * ((1 - f) * u) * u" using du by (intro mult_right_mono) simp_all
    then show "a * ?g * u \<le> b * (1 - f) * u * u" by (simp add: ac_simps)
    show "b * f * u \<le> b * f * u * u" using ag du mult_left_mono [of 1 u "b * f * u"] by simp
  qed
  finally have "?s \<le> b * u * u" by (simp add: algebra_simps)
  then have "?s * u \<le> b * u * u * u" using du by (simp add: mult_right_mono)
  with s(2) have "fl ?s \<le> b * u ^ 3" by (simp add: power3_eq_cube ac_simps)
  then show "fadd (fmul a (fsub 1 f)) (fmul b f) \<le> b * (1 + 1 / 2 ^ 53) ^ 3"
    unfolding u_def float_ops .
qed

lemma latency_Count_Add [simp]: "latency_Count (latency_Add x s) = latency_Count s + 1"
  by (simp add: latency_Count_def latency_Add_def Let_def)

text \<open>The index a percentile computes lies between zero and the last index.\<close>

lemma percentile_index:
  fixes p :: rat
  assumes "1 \<le> n" "n \<le> 10000" "0 \<le> p" "p \<le> 1" "idx = fmul p (f64_of_int (int n - 1))"
  shows "0 \<le> f64_trunc idx" "f64_trunc idx \<le> int n - 1" "of_int (f64_trunc idx) \<le> idx" "idx < of_int (f64_trunc idx) + 1"
proof -
  have fn: "f64_of_int (int n - 1) = of_int (int n - 1)" using assms(2) by (intro f64_of_int_exact) auto
  have idx0: "0 \<le> idx" using assms(1,3,5) unfolding fn by (simp add: float_ops fl_nonneg)
  have "p * of_int (int n - 1) \<le> of_int (int n - 1)"
    using assms(1,3,4) by (intro mult_left_le_one_le) simp_all
  then have idxn: "idx \<le> of_int (int n - 1)"
    unfolding assms(5) fn fmul_def using assms(2) by (intro fl_le_exact f64_exact_of_int) auto
  show "0 \<le> f64_trunc idx" using f64_trunc_mono [OF idx0] by (simp add: f64_trunc_def)
  show "f64_trunc idx \<le> int n - 1" using f64_trunc_mono [OF idxn] by (simp only: f64_trunc_of_int)
  show "of_int (f64_trunc idx) \<le> idx" "idx < of_int (f64_trunc idx) + 1"
    using idx0 floor_correct [of idx] by (simp_all add: f64_trunc_def)
qed

text \<open>
  A percentile never reads outside the sorted samples and lies between two neighbouring
  order statistics, those on either side of the computed index, up to the relative error of three
  roundings.
\<close>
theorem percentile_between_neighbours:
  assumes "sorted xs" "xs \<noteq> []" "\<forall>x \<in> set xs. 0 \<le> x" "0 \<le> p" "p \<le> 1" "length xs \<le> 10000"
  shows "\<exists>i. i < length xs \<and>
     int i = min (int (length xs) - 1) (f64_trunc (fmul p (f64_of_int (int (length xs) - 1)))) \<and>
     xs ! i * (1 - 1 / 2 ^ 53) ^ 3 \<le> percentile xs p \<and>
     percentile xs p \<le> xs ! min (i + 1) (length xs - 1) * (1 + 1 / 2 ^ 53) ^ 3"
proof -
  let ?n = "length xs"
  define idx where "idx = fmul p (f64_of_int (int ?n - 1))"
  define lower where "lower = f64_trunc idx"
  have n1: "1 \<le> ?n" using assms(2) by (cases xs) auto
  have idx: "0 \<le> lower" "lower \<le> int ?n - 1" "of_int lower \<le> idx" "idx < of_int lower + 1"
    unfolding lower_def using percentile_index [OF n1 assms(6,4,5) idx_def] .
  note l0 = idx(1) and ln = idx(2) and lf = idx(3,4)
  have nnx: "0 \<le> xs ! nat lower" "xs ! (?n - 1) \<ge> 0" using assms(2,3) l0 ln n1 by (auto simp: nth_mem)
  have one: "(1 - 1 / 2 ^ 53 :: rat) ^ 3 \<le> 1" "1 \<le> (1 + 1 / 2 ^ 53 :: rat) ^ 3"
    by (simp_all add: power_le_one one_le_power)
  have shrink: "x * (1 - 1 / 2 ^ 53) ^ 3 \<le> x" "x \<le> x * (1 + 1 / 2 ^ 53) ^ 3" if "0 \<le> x" for x :: rat
    using mult_left_mono [OF one(1) that] mult_left_mono [OF one(2) that] by simp_all
  show ?thesis
  proof (cases "?n \<le> lower + 1")
    case True
    then have lw: "lower = int ?n - 1" using ln by simp
    have "percentile xs p = xs ! (?n - 1)"
      using n1 lw by (auto simp: percentile_def Let_def idx_def [symmetric] lower_def [symmetric])
    then show ?thesis using n1 lw shrink [OF nnx(2)]
      by (intro exI [of _ "?n - 1"]) (auto simp: idx_def [symmetric] lower_def [symmetric] of_nat_diff)
  next
    case False
    let ?i = "nat lower"
    have i: "?i + 1 < ?n" using False l0 by linarith
    have fl: "f64_of_int lower = of_int lower"
      using l0 ln assms(6) by (intro f64_of_int_exact) auto
    define f where "f = fsub idx (f64_of_int lower)"
    have f: "0 \<le> f" "f \<le> 1"
      using lf unfolding f_def fl fsub_def by (auto intro!: fl_nonneg fl_le_exact)
    have pe: "percentile xs p = fadd (fmul (xs ! ?i) (fsub 1 f)) (fmul (xs ! (?i + 1)) f)"
      using i False l0
      by (auto simp: percentile_def Let_def idx_def [symmetric] lower_def [symmetric] f_def nat_add_distrib)
    have "xs ! ?i \<le> xs ! (?i + 1)" using assms(1) i by (intro sorted_nth_mono) auto
    from interpolate_bounds [OF nnx(1) this f]
    have "xs ! ?i * (1 - 1 / 2 ^ 53) ^ 3 \<le> percentile xs p"
      "percentile xs p \<le> xs ! min (?i + 1) (?n - 1) * (1 + 1 / 2 ^ 53) ^ 3"
      unfolding pe using min_absorb1 [of "?i + 1" "?n - 1"] i by simp_all
    moreover have "int ?i = min (int ?n - 1) lower" using l0 ln by simp
    moreover have "?i < ?n" using i by simp
    ultimately show ?thesis by (simp only: idx_def [symmetric] lower_def [symmetric]) blast
  qed
qed

theorem percentile_between_neighbours_witness:
  "\<exists>i < length [10, 20, 40 :: rat].
     percentile [10, 20, 40] (1/2) \<le> [10, 20, 40] ! min (i + 1) (length [10, 20, 40 :: rat] - 1)
       * (1 + 1 / 2 ^ 53) ^ 3"
proof -
  have "sorted [10, 20, 40 :: rat]" "[10, 20, 40 :: rat] \<noteq> []" "\<forall>x \<in> set [10, 20, 40 :: rat]. 0 \<le> x"
    "0 \<le> (1/2 :: rat)" "(1/2 :: rat) \<le> 1" "length [10, 20, 40 :: rat] \<le> 10000" by auto
  from percentile_between_neighbours [OF this] show ?thesis by blast
qed

end
