(* ===== verification/Collector.thy ===== *)
theory Collector
  imports Types Atomic Tx_Tracker Tx_Flow Latency
begin

text \<open>
  \<open>internal/metrics/collector.go\<close>: the in-memory metrics collector, built from the tracker, the
  flow tracker and three latency statistics.  Times are nanoseconds; \<open>Duration.Milliseconds\<close>
  is Go's truncated division by a million.  Counters grow by one per event.
\<close>

record tx_type_tracker =
  tt_sent :: nat
  tt_failed :: nat
  tt_tipSum :: u64

record collector =
  txTracker :: tx_tracker
  flowTracker :: flow_tracker
  latencyStats :: latency_stats
  preconfLatency :: latency_stats
  pendingLatency :: latency_stats
  txSent :: nat
  txConfirmed :: nat
  txFailed :: nat
  txPending :: nat
  txPreconfirmed :: nat
  txRevoked :: nat
  txDropped :: nat
  txRequeued :: nat
  pendingCount :: int
  peakRate :: int
  tipHistogram :: "nat list"
  txTypeTrackers :: "(transaction_type, tx_type_tracker) gomap"

definition NewMemoryCollector :: collector where
  "NewMemoryCollector =
     \<lparr>txTracker = NewTxTracker, flowTracker = NewTxFlowTracker,
      latencyStats = NewStreamingLatencyStats, preconfLatency = NewStreamingLatencyStats,
      pendingLatency = NewStreamingLatencyStats,
      txSent = 0, txConfirmed = 0, txFailed = 0, txPending = 0, txPreconfirmed = 0, txRevoked = 0,
      txDropped = 0, txRequeued = 0, pendingCount = 0, peakRate = 0,
      tipHistogram = replicate 20 0, txTypeTrackers = []\<rparr>"

definition sub_ms :: "int \<Rightarrow> int \<Rightarrow> f64" where
  "sub_ms t1 t0 = f64_of_int (go_quot (t1 - t0) 1000000)"

definition RecordTxSent :: "hash \<Rightarrow> int \<Rightarrow> collector \<Rightarrow> collector option" where
  "RecordTxSent h t c =
     (case Set h t (txTracker c) of
        None \<Rightarrow> None
      | Some tr \<Rightarrow> Some (c\<lparr>txTracker := tr,
          flowTracker := RecordStage h StageSent t (flowTracker c)\<rparr>))"

definition RecordTxConfirmed :: "hash \<Rightarrow> int \<Rightarrow> collector \<Rightarrow> collector" where
  "RecordTxConfirmed h t c0 =
     (let (sent, tr) = GetAndDelete h (txTracker c0); c = c0\<lparr>txTracker := tr\<rparr> in
      case sent of
        None \<Rightarrow> c\<lparr>flowTracker := RecordStage h StageConfirmed t (flowTracker c)\<rparr>
      | Some s \<Rightarrow> c\<lparr>latencyStats := latency_Add (sub_ms t s) (latencyStats c),
                    txConfirmed := txConfirmed c + 1,
                    flowTracker := RecordStage h StageConfirmed t (flowTracker c)\<rparr>)"

definition RecordTxConfirmedFlowOnly :: "hash \<Rightarrow> int \<Rightarrow> collector \<Rightarrow> collector" where
  "RecordTxConfirmedFlowOnly h t c =
     c\<lparr>txTracker := snd (GetAndDelete h (txTracker c)),
       flowTracker := RecordStage h StageConfirmed t (flowTracker c)\<rparr>"

definition RecordTxFailed :: "string \<Rightarrow> collector \<Rightarrow> collector" where
  "RecordTxFailed category c = c\<lparr>txFailed := txFailed c + 1\<rparr>"

definition DiscardTx :: "hash \<Rightarrow> collector \<Rightarrow> collector" where
  "DiscardTx h c = c\<lparr>txTracker := snd (GetAndDelete h (txTracker c))\<rparr>"

definition RecordPending :: "hash \<Rightarrow> int \<Rightarrow> collector \<Rightarrow> collector" where
  "RecordPending h t c0 =
     (let c = c0\<lparr>txPending := txPending c0 + 1,
                 flowTracker := RecordStage h StagePending t (flowTracker c0)\<rparr> in
      case Get h (txTracker c) of
        None \<Rightarrow> c
      | Some s \<Rightarrow> c\<lparr>pendingLatency := latency_Add (sub_ms t s) (pendingLatency c)\<rparr>)"

definition RecordPreconfirmed :: "hash \<Rightarrow> int \<Rightarrow> collector \<Rightarrow> collector" where
  "RecordPreconfirmed h t c0 =
     (let c = c0\<lparr>txPreconfirmed := txPreconfirmed c0 + 1,
                 flowTracker := RecordStage h StagePreconfirmed t (flowTracker c0)\<rparr> in
      case Get h (txTracker c) of
        None \<Rightarrow> c
      | Some s \<Rightarrow> c\<lparr>preconfLatency := latency_Add (sub_ms t s) (preconfLatency c)\<rparr>)"

definition RecordRevoked :: "hash \<Rightarrow> int \<Rightarrow> collector \<Rightarrow> collector" where
  "RecordRevoked h t c =
     c\<lparr>txRevoked := txRevoked c + 1, flowTracker := RecordStage h StageRevoked t (flowTracker c)\<rparr>"

definition RecordDropped :: "hash \<Rightarrow> int \<Rightarrow> collector \<Rightarrow> collector" where
  "RecordDropped h t c =
     c\<lparr>txDropped := txDropped c + 1, flowTracker := RecordStage h StageDropped t (flowTracker c)\<rparr>"

definition RecordRequeued :: "hash \<Rightarrow> int \<Rightarrow> collector \<Rightarrow> collector" where
  "RecordRequeued h t c =
     c\<lparr>txRequeued := txRequeued c + 1, flowTracker := RecordStage h StageRequeued t (flowTracker c)\<rparr>"

section \<open>Tips and transaction types\<close>

definition RecordTip :: "int \<Rightarrow> collector \<Rightarrow> collector" where
  "RecordTip tipWei c =
     (if 0 < length (tipHistogram c)
      then c\<lparr>tipHistogram := (tipHistogram c)[0 := tipHistogram c ! 0 + 1]\<rparr> else c)"

definition tip_bucket_size :: "f64 \<Rightarrow> f64 \<Rightarrow> nat \<Rightarrow> f64" where
  "tip_bucket_size minGwei maxGwei n =
     (let b = fdiv (fsub maxGwei minGwei) (f64_of_int (int n)) in if b \<le> 0 then 1 else b)"

text \<open>
  \<open>big.Int.Uint64\<close> is the low 64 bits of the absolute value for the non-negative tips here.  A
  quotient outside the range of a Go \<open>int\<close> converts to an unspecified value on the real machine;
  here it stays the mathematical one, which the two clamps map to a bucket all the same.
\<close>

definition tip_bucket :: "u64 \<Rightarrow> f64 \<Rightarrow> f64 \<Rightarrow> nat \<Rightarrow> nat" where
  "tip_bucket tipWei minGwei maxGwei n =
     (let tipGwei = fdiv (f64_of_int (uint tipWei)) 1000000000;
          i = f64_trunc (fdiv (fsub tipGwei minGwei) (tip_bucket_size minGwei maxGwei n));
          i1 = if i < 0 then 0 else i;
          i2 = if int n \<le> i1 then int n - 1 else i1
      in nat i2)"

definition RecordTipWithConfig :: "u64 \<Rightarrow> f64 \<Rightarrow> f64 \<Rightarrow> collector \<Rightarrow> collector" where
  "RecordTipWithConfig tipWei minGwei maxGwei c =
     (if length (tipHistogram c) = 0 then c else
      let i = tip_bucket tipWei minGwei maxGwei (length (tipHistogram c)) in
      c\<lparr>tipHistogram := (tipHistogram c)[i := tipHistogram c ! i + 1]\<rparr>)"

definition RecordTxType :: "transaction_type \<Rightarrow> u64 option \<Rightarrow> bool \<Rightarrow> collector \<Rightarrow> collector" where
  "RecordTxType ty tipWei success c =
     (let tr = (case map_get (txTypeTrackers c) ty of
                  Some tr \<Rightarrow> tr | None \<Rightarrow> \<lparr>tt_sent = 0, tt_failed = 0, tt_tipSum = 0\<rparr>);
          tr' = (if success
                 then (let tr1 = tr\<lparr>tt_sent := tt_sent tr + 1\<rparr> in
                       case tipWei of None \<Rightarrow> tr1 | Some w \<Rightarrow> tr1\<lparr>tt_tipSum := tt_tipSum tr1 + w\<rparr>)
                 else tr\<lparr>tt_failed := tt_failed tr + 1\<rparr>)
      in c\<lparr>txTypeTrackers := map_put ty tr' (txTypeTrackers c)\<rparr>)"

record tip_histogram_bucket =
  th_MinGwei :: f64
  th_MaxGwei :: f64
  th_Count :: nat

definition GetTipHistogram :: "realistic_config option \<Rightarrow> collector \<Rightarrow> tip_histogram_bucket list option" where
  "GetTipHistogram cfg c =
     (case cfg of
        None \<Rightarrow> None
      | Some cf \<Rightarrow>
          let n = length (tipHistogram c);
              b = tip_bucket_size (rt_MinTipGwei cf) (rt_MaxTipGwei cf) n
          in Some (map (\<lambda>i. \<lparr>th_MinGwei = fadd (rt_MinTipGwei cf) (fmul (f64_of_int (int i)) b),
                             th_MaxGwei = fadd (rt_MinTipGwei cf) (fmul (f64_of_int (int i + 1)) b),
                             th_Count = tipHistogram c ! i\<rparr>) [0..<n]))"

record tx_type_metrics =
  tm_Type :: transaction_type
  tm_Sent :: nat
  tm_Confirmed :: nat
  tm_Failed :: nat
  tm_AvgTipGwei :: f64

definition type_metrics :: "transaction_type \<Rightarrow> tx_type_tracker \<Rightarrow> tx_type_metrics list" where
  "type_metrics ty tr =
     (let avg = (if 0 < tt_sent tr
                 then fdiv (fdiv (f64_of_int (uint (tt_tipSum tr))) (f64_of_int (int (tt_sent tr)))) 1000000000
                 else 0)
      in if 0 < tt_sent tr \<or> 0 < tt_failed tr
         then [\<lparr>tm_Type = ty, tm_Sent = tt_sent tr, tm_Confirmed = tt_sent tr,
                tm_Failed = tt_failed tr, tm_AvgTipGwei = avg\<rparr>]
         else [])"

definition GetTxTypeMetrics :: "collector \<Rightarrow> tx_type_metrics list" where
  "GetTxTypeMetrics c = concat (map (\<lambda>(ty, tr). type_metrics ty tr) (txTypeTrackers c))"

section \<open>Pending count, rates, counters\<close>

definition SetPendingCount :: "int \<Rightarrow> collector \<Rightarrow> collector" where
  "SetPendingCount n c = c\<lparr>pendingCount := n\<rparr>"

definition AddPendingCount :: "int \<Rightarrow> collector \<Rightarrow> collector" where
  "AddPendingCount d c = c\<lparr>pendingCount := wrap64 (pendingCount c + d)\<rparr>"

definition SubPendingCount :: "int \<Rightarrow> collector \<Rightarrow> collector" where
  "SubPendingCount d c = c\<lparr>pendingCount := call_atomic (SubSaturating d) (pendingCount c)\<rparr>"

definition SetPeakRate :: "int \<Rightarrow> collector \<Rightarrow> collector" where
  "SetPeakRate r c = c\<lparr>peakRate := call_atomic (MaxOf r) (peakRate c)\<rparr>"

definition IncTxSent :: "collector \<Rightarrow> nat \<times> collector" where
  "IncTxSent c = (txSent c + 1, c\<lparr>txSent := txSent c + 1\<rparr>)"

definition IncTxFailed :: "collector \<Rightarrow> nat \<times> collector" where
  "IncTxFailed c = (txFailed c + 1, c\<lparr>txFailed := txFailed c + 1\<rparr>)"

definition GetSnapshot :: "collector \<Rightarrow> nat \<times> nat \<times> nat" where
  "GetSnapshot c = (txSent c, txConfirmed c, txFailed c)"

definition GetTxSentTime :: "hash \<Rightarrow> collector \<Rightarrow> int option" where
  "GetTxSentTime h c = Get h (txTracker c)"

definition Collector_Reset :: "collector \<Rightarrow> collector" where
  "Collector_Reset c =
     c\<lparr>txTracker := Reset_tracker (txTracker c), flowTracker := flow_Reset (flowTracker c),
       latencyStats := latency_Reset (latencyStats c), preconfLatency := latency_Reset (preconfLatency c),
       pendingLatency := latency_Reset (pendingLatency c),
       txSent := 0, txConfirmed := 0, txFailed := 0, pendingCount := 0, peakRate := 0,
       txPending := 0, txPreconfirmed := 0, txRevoked := 0, txDropped := 0, txRequeued := 0,
       tipHistogram := replicate (length (tipHistogram c)) 0, txTypeTrackers := []\<rparr>"

definition InitRealisticMetrics :: "collector \<Rightarrow> collector" where
  "InitRealisticMetrics c =
     c\<lparr>tipHistogram := replicate 20 0,
       txTypeTrackers := map (\<lambda>ty. (ty, \<lparr>tt_sent = 0, tt_failed = 0, tt_tipSum = 0\<rparr>))
         [TxTypeEthTransfer, TxTypeERC20Transfer, TxTypeERC20Approve,
          TxTypeUniswapSwap, TxTypeStorageWrite, TxTypeHeavyCompute]\<rparr>"

section \<open>What a run counts\<close>

datatype collector_event =
    EvSent hash int | EvConfirmed hash int | EvFlowOnly hash int | EvDiscard hash
  | EvPending hash int | EvPreconfirmed hash int | EvRevoked hash int | EvDropped hash int
  | EvRequeued hash int | EvFailed string

fun collect :: "collector_event \<Rightarrow> collector \<Rightarrow> collector option" where
  "collect (EvSent h t) c = RecordTxSent h t c"
| "collect (EvConfirmed h t) c = Some (RecordTxConfirmed h t c)"
| "collect (EvFlowOnly h t) c = Some (RecordTxConfirmedFlowOnly h t c)"
| "collect (EvDiscard h) c = Some (DiscardTx h c)"
| "collect (EvPending h t) c = Some (RecordPending h t c)"
| "collect (EvPreconfirmed h t) c = Some (RecordPreconfirmed h t c)"
| "collect (EvRevoked h t) c = Some (RecordRevoked h t c)"
| "collect (EvDropped h t) c = Some (RecordDropped h t c)"
| "collect (EvRequeued h t) c = Some (RecordRequeued h t c)"
| "collect (EvFailed s) c = Some (RecordTxFailed s c)"

fun collect_all :: "collector_event list \<Rightarrow> collector \<Rightarrow> collector option" where
  "collect_all [] c = Some c"
| "collect_all (e # es) c = (case collect e c of None \<Rightarrow> None | Some c' \<Rightarrow> collect_all es c')"

fun is_sent :: "collector_event \<Rightarrow> bool" where
  "is_sent (EvSent h t) = True"
| "is_sent e = False"

fun event_ok :: "collector_event \<Rightarrow> bool" where
  "event_ok (EvSent h t) = (h \<noteq> 0)"
| "event_ok e = True"

text \<open>
  The accounting invariant after \<open>n\<close> sends: every confirmation consumed an entry that a send had
  created, and contributed one latency sample.
\<close>

definition collector_inv :: "nat \<Rightarrow> collector \<Rightarrow> bool" where
  "collector_inv n c \<longleftrightarrow> tracker_inv (txTracker c) \<and> maxSize (txTracker c) = 100000 \<and>
     txConfirmed c + Size (txTracker c) \<le> n \<and>
     latency_Count (latencyStats c) = txConfirmed c \<and>
     latency_Count (pendingLatency c) \<le> txPending c \<and>
     latency_Count (preconfLatency c) \<le> txPreconfirmed c"

lemma collector_new_inv: "collector_inv 0 NewMemoryCollector"
  using new_inv [of 100000 10000]
  by (simp add: collector_inv_def NewMemoryCollector_def NewTxTracker_def Size_def
      NewTxTrackerWithSize_def latency_Count_def NewStreamingLatencyStats_def)

lemma RecordTxConfirmed_inv:
  assumes "collector_inv n c" shows "collector_inv n (RecordTxConfirmed h t c)"
proof -
  have inv: "tracker_inv (txTracker c)" using assms by (simp add: collector_inv_def)
  let ?tr = "snd (GetAndDelete h (txTracker c))"
  have tr: "tracker_inv ?tr" "maxSize ?tr = maxSize (txTracker c)"
    using GetAndDelete_inv [OF inv] by (auto simp: GetAndDelete_def)
  have e: "fst (GetAndDelete h (txTracker c)) = Get h (txTracker c)"
    by (simp add: GetAndDelete_def Get_def)
  show ?thesis
    using assms tr GetAndDelete_size [OF inv, of h] Get_pos_size [OF inv, of h]
    by (cases "Get h (txTracker c)")
       (simp_all add: RecordTxConfirmed_def collector_inv_def e split_beta)
qed

lemma drop_tracked_inv:
  assumes "collector_inv n c"
  shows "tracker_inv (snd (GetAndDelete h (txTracker c)))"
    "maxSize (snd (GetAndDelete h (txTracker c))) = 100000"
    "txConfirmed c + Size (snd (GetAndDelete h (txTracker c))) \<le> n"
  using assms GetAndDelete_size [of "txTracker c" h] GetAndDelete_inv
  by (auto simp: collector_inv_def) (simp add: GetAndDelete_def)

lemma collect_inv:
  assumes "collector_inv n c" "event_ok e"
  shows "\<exists>c'. collect e c = Some c' \<and> collector_inv (n + (if is_sent e then 1 else 0)) c'"
proof (cases e)
  case (EvSent h t)
  have inv: "tracker_inv (txTracker c)" "0 < maxSize (txTracker c)"
    using assms by (auto simp: collector_inv_def)
  obtain tr where tr: "Set h t (txTracker c) = Some tr" using Set_total [OF inv(2)] by blast
  have "h \<noteq> 0" using assms(2) EvSent by simp
  from Set_inv [OF inv(1) this tr] Set_size [OF inv(1) this tr] show ?thesis
    using assms(1) EvSent tr by (auto simp: RecordTxSent_def collector_inv_def)
next
  case (EvConfirmed h t)
  then show ?thesis using RecordTxConfirmed_inv [OF assms(1)] by simp
next
  case (EvFlowOnly h t)
  then show ?thesis
    using assms(1) drop_tracked_inv [OF assms(1), of h]
    by (simp add: RecordTxConfirmedFlowOnly_def collector_inv_def)
next
  case (EvDiscard h)
  then show ?thesis
    using assms(1) drop_tracked_inv [OF assms(1), of h] by (simp add: DiscardTx_def collector_inv_def)
qed (use assms(1) in \<open>auto simp: collector_inv_def RecordPending_def RecordPreconfirmed_def
    RecordRevoked_def RecordDropped_def RecordRequeued_def RecordTxFailed_def Let_def split: option.split\<close>)

lemma collect_all_inv:
  assumes "collector_inv n c" "\<forall>e \<in> set es. event_ok e"
  shows "\<exists>c'. collect_all es c = Some c' \<and> collector_inv (n + length (filter is_sent es)) c'"
  using assms
proof (induction es arbitrary: n c)
  case (Cons e es)
  obtain c1 where c1: "collect e c = Some c1" "collector_inv (n + (if is_sent e then 1 else 0)) c1"
    using collect_inv [of n c e] Cons.prems by auto
  obtain c2 where "collect_all es c1 = Some c2"
    "collector_inv (n + (if is_sent e then 1 else 0) + length (filter is_sent es)) c2"
    using Cons.IH [OF c1(2)] Cons.prems(2) by auto
  then show ?case using c1 by (simp split: if_splits)
qed auto

text \<open>
  C4: Whatever events the collector receives, in any order, it does not panic; the confirmed
  count plus the transactions still tracked never exceed the sends recorded, at most 100000 are
  tracked, and there is exactly one latency sample per confirmation.
\<close>
theorem collector_accounting:
  assumes "\<forall>e \<in> set es. event_ok e"
  shows "\<exists>c. collect_all es NewMemoryCollector = Some c \<and>
     txConfirmed c + Size (txTracker c) \<le> length (filter is_sent es) \<and>
     Size (txTracker c) \<le> 100000 \<and>
     latency_Count (latencyStats c) = txConfirmed c \<and>
     latency_Count (pendingLatency c) \<le> txPending c \<and>
     latency_Count (preconfLatency c) \<le> txPreconfirmed c"
proof -
  obtain c where "collect_all es NewMemoryCollector = Some c"
    "collector_inv (length (filter is_sent es)) c"
    using collect_all_inv [OF collector_new_inv assms] by auto
  then show ?thesis using tracker_inv_size [of "txTracker c"] by (auto simp: collector_inv_def)
qed

theorem collector_accounting_witness:
  "\<exists>c. collect_all [EvSent 1 10, EvPending 1 20, EvConfirmed 1 30, EvConfirmed 1 40] NewMemoryCollector
     = Some c \<and> txConfirmed c + Size (txTracker c) \<le> 1"
  using collector_accounting [of "[EvSent 1 10, EvPending 1 20, EvConfirmed 1 30, EvConfirmed 1 40]"]
  by auto

section \<open>Discarded transactions\<close>

lemma collect_untracked:
  assumes "GetTxSentTime h c = None" "\<forall>t. e \<noteq> EvSent h t" "collect e c = Some c'"
  shows "GetTxSentTime h c' = None"
proof (cases e)
  case (EvSent h' t)
  then obtain tr where "Set h' t (txTracker c) = Some tr" "txTracker c' = tr" "h' \<noteq> h"
    using assms by (auto simp: RecordTxSent_def split: option.splits)
  then show ?thesis
    using Set_keys [of h' t "txTracker c" tr] assms(1)
    by (metis GetTxSentTime_def Get_def insertE map_keys_get subsetD)
qed (use assms in \<open>auto simp: GetTxSentTime_def Get_def GetAndDelete_def RecordTxConfirmed_def
    RecordTxConfirmedFlowOnly_def DiscardTx_def RecordPending_def RecordPreconfirmed_def
    RecordRevoked_def RecordDropped_def RecordRequeued_def RecordTxFailed_def Let_def
    split: option.splits\<close>)

lemma collect_all_untracked:
  assumes "GetTxSentTime h c = None" "\<forall>t. EvSent h t \<notin> set es" "collect_all es c = Some c'"
  shows "GetTxSentTime h c' = None"
  using assms
proof (induction es arbitrary: c)
  case (Cons e es)
  then obtain c1 where c1: "collect e c = Some c1" "collect_all es c1 = Some c'"
    by (auto split: option.splits)
  have "GetTxSentTime h c1 = None"
    using collect_untracked [OF Cons.prems(1) _ c1(1)] Cons.prems(2) by auto
  then show ?case using Cons.IH [of c1] Cons.prems(2) c1(2) by simp
qed simp

text \<open>
  A discarded transaction is never counted as confirmed: until it is sent again, whatever else
  happens, its hash is not tracked and recording its confirmation leaves the confirmed counter and
  the latency statistics unchanged.  The same holds after a first confirmation.
\<close>
theorem discarded_tx_never_confirmed:
  assumes "c0 \<in> {DiscardTx h c, RecordTxConfirmed h t0 c, RecordTxConfirmedFlowOnly h t0 c}"
    "\<forall>t. EvSent h t \<notin> set es" "collect_all es c0 = Some c'"
  shows "GetTxSentTime h c' = None \<and> txConfirmed (RecordTxConfirmed h t c') = txConfirmed c' \<and>
    latencyStats (RecordTxConfirmed h t c') = latencyStats c'"
proof -
  have "GetTxSentTime h c0 = None"
    using assms(1) by (auto simp: GetTxSentTime_def Get_def GetAndDelete_def DiscardTx_def
        RecordTxConfirmed_def RecordTxConfirmedFlowOnly_def Let_def split: option.splits)
  then have "GetTxSentTime h c' = None" using assms(2,3) by (rule collect_all_untracked)
  then show ?thesis
    by (simp add: RecordTxConfirmed_def GetAndDelete_def GetTxSentTime_def Get_def Let_def)
qed

theorem discarded_tx_never_confirmed_witness:
  "txConfirmed (RecordTxConfirmed 5 9 (DiscardTx 5 NewMemoryCollector)) = 0"
  using discarded_tx_never_confirmed [of "DiscardTx 5 NewMemoryCollector" 5 NewMemoryCollector 0 "[]"
      "DiscardTx 5 NewMemoryCollector" 9]
  by (simp add: DiscardTx_def NewMemoryCollector_def)

section \<open>The tip histogram\<close>

lemma tip_bucket_in_range: "0 < n \<Longrightarrow> tip_bucket w lo hi n < n"
  by (auto simp: tip_bucket_def Let_def)

lemma tips_total:
  "sum_list (tipHistogram (fold (\<lambda>w. RecordTipWithConfig w lo hi) ws c)) =
     sum_list (tipHistogram c) + (if tipHistogram c = [] then 0 else length ws)"
proof (induction ws arbitrary: c)
  case (Cons w ws)
  have l: "length (tipHistogram (RecordTipWithConfig w lo hi c)) = length (tipHistogram c)"
    by (simp add: RecordTipWithConfig_def Let_def)
  then have e: "tipHistogram (RecordTipWithConfig w lo hi c) = [] \<longleftrightarrow> tipHistogram c = []"
    by (metis length_0_conv)
  have "sum_list (tipHistogram (RecordTipWithConfig w lo hi c)) =
     sum_list (tipHistogram c) + (if tipHistogram c = [] then 0 else 1)"
    using tip_bucket_in_range [of "length (tipHistogram c)" w lo hi]
    by (auto simp: RecordTipWithConfig_def Let_def sum_list_bump)
  then show ?case using Cons e by auto
qed simp

text \<open>
  With a realistic configuration every recorded tip falls into exactly one bucket, whatever the
  configured bounds: the counts of the reported histogram sum to the number of tips recorded since
  the metrics were initialised.
\<close>
theorem tip_histogram_counts_all:
  "\<exists>bs. GetTipHistogram (Some cfg) (fold (\<lambda>w. RecordTipWithConfig w lo hi) ws (InitRealisticMetrics c))
       = Some bs \<and> length bs = 20 \<and> sum_list (map th_Count bs) = length ws"
proof -
  let ?c = "fold (\<lambda>w. RecordTipWithConfig w lo hi) ws (InitRealisticMetrics c)"
  have len: "length (tipHistogram ?c) = 20"
  proof -
    have "length (tipHistogram (fold (\<lambda>w. RecordTipWithConfig w lo hi) ws d)) = length (tipHistogram d)" for d
      by (induction ws arbitrary: d) (simp_all add: RecordTipWithConfig_def Let_def)
    then show ?thesis by (simp add: InitRealisticMetrics_def)
  qed
  have "sum_list (tipHistogram ?c) = length ws"
    by (simp add: tips_total) (simp add: InitRealisticMetrics_def)
  moreover have "map th_Count (the (GetTipHistogram (Some cfg) ?c)) = tipHistogram ?c"
    by (simp add: GetTipHistogram_def Let_def comp_def map_nth)
  ultimately show ?thesis using len by (simp add: GetTipHistogram_def Let_def)
qed

end
