(* ===== verification/Patterns.thy ===== *)
theory Patterns
  imports Types
begin

text \<open>
  \<open>internal/pattern\<close>: the load patterns, their registry, and the pattern contract of the rate loop.
  A pattern is a state with a \<open>GetRate\<close> that may update it; the interface type \<open>Pattern\<close> is the
  datatype of its four implementations.  Durations are nanoseconds.  A call that panics is \<open>None\<close>.
\<close>


section \<open>The implementations\<close>

record constant_pattern =
  cp_rate :: int

definition NewConstant :: "int \<Rightarrow> constant_pattern" where
  "NewConstant rate = \<lparr>cp_rate = rate\<rparr>"

definition Constant_GetRate :: "int \<Rightarrow> constant_pattern \<Rightarrow> (int \<times> constant_pattern) option" where
  "Constant_GetRate elapsed c = Some (cp_rate c, c)"

definition Constant_SetCurrentRate :: "int \<Rightarrow> constant_pattern \<Rightarrow> constant_pattern" where
  "Constant_SetCurrentRate rate c = c\<lparr>cp_rate := rate\<rparr>"

record ramp_pattern =
  rp_startRate :: int
  rp_endRate :: int
  rp_duration :: int
  rp_currentRate :: int

definition NewRamp :: "int \<Rightarrow> int \<Rightarrow> int \<Rightarrow> ramp_pattern" where
  "NewRamp startRate endRate duration =
     \<lparr>rp_startRate = startRate, rp_endRate = endRate, rp_duration = duration, rp_currentRate = startRate\<rparr>"

definition Ramp_GetRate :: "int \<Rightarrow> ramp_pattern \<Rightarrow> (int \<times> ramp_pattern) option" where
  "Ramp_GetRate elapsed r =
     (if elapsed \<le> 0 then Some (rp_startRate r, r)
      else if rp_duration r \<le> elapsed then Some (rp_endRate r, r)
      else let progress = fdiv (f64_of_int elapsed) (f64_of_int (rp_duration r));
               rate = fadd (f64_of_int (rp_startRate r))
                        (fmul progress (f64_of_int (rp_endRate r - rp_startRate r)));
               currentRate = f64_trunc rate
           in Some (currentRate, r\<lparr>rp_currentRate := currentRate\<rparr>))"

definition Ramp_SetCurrentRate :: "int \<Rightarrow> ramp_pattern \<Rightarrow> ramp_pattern" where
  "Ramp_SetCurrentRate rate r = r\<lparr>rp_currentRate := rate\<rparr>"

record spike_pattern =
  sp_baselineRate :: int
  sp_spikeRate :: int
  sp_spikeDuration :: int
  sp_spikeInterval :: int
  sp_currentRate :: int

definition NewSpike :: "int \<Rightarrow> int \<Rightarrow> int \<Rightarrow> int \<Rightarrow> spike_pattern" where
  "NewSpike baselineRate spikeRate spikeDuration spikeInterval =
     \<lparr>sp_baselineRate = baselineRate, sp_spikeRate = spikeRate, sp_spikeDuration = spikeDuration,
      sp_spikeInterval = spikeInterval, sp_currentRate = baselineRate\<rparr>"

definition Spike_GetRate :: "int \<Rightarrow> spike_pattern \<Rightarrow> (int \<times> spike_pattern) option" where
  "Spike_GetRate elapsed s =
     (case go_rem elapsed (sp_spikeInterval s) of
        None \<Rightarrow> None
      | Some positionInInterval \<Rightarrow>
          let spikeStart = sp_spikeInterval s - sp_spikeDuration s;
              rate = (if spikeStart \<le> positionInInterval then sp_spikeRate s else sp_baselineRate s)
          in Some (rate, s\<lparr>sp_currentRate := rate\<rparr>))"

definition Spike_SetCurrentRate :: "int \<Rightarrow> spike_pattern \<Rightarrow> spike_pattern" where
  "Spike_SetCurrentRate rate s = s\<lparr>sp_currentRate := rate\<rparr>"

record adaptive_pattern =
  ap_initialRate :: int
  ap_currentRate :: int

definition NewAdaptive :: "int \<Rightarrow> adaptive_pattern" where
  "NewAdaptive initialRate = \<lparr>ap_initialRate = initialRate, ap_currentRate = initialRate\<rparr>"

definition Adaptive_GetRate :: "int \<Rightarrow> adaptive_pattern \<Rightarrow> (int \<times> adaptive_pattern) option" where
  "Adaptive_GetRate elapsed a = Some (ap_currentRate a, a)"

definition Adaptive_SetCurrentRate :: "int \<Rightarrow> adaptive_pattern \<Rightarrow> adaptive_pattern" where
  "Adaptive_SetCurrentRate rate a = a\<lparr>ap_currentRate := rate\<rparr>"

section \<open>The interface and the registry\<close>

datatype pattern =
    ConstantP constant_pattern
  | RampP ramp_pattern
  | SpikeP spike_pattern
  | AdaptiveP adaptive_pattern

fun GetRate :: "int \<Rightarrow> pattern \<Rightarrow> (int \<times> pattern) option" where
  "GetRate t (ConstantP c) = map_option (map_prod id ConstantP) (Constant_GetRate t c)"
| "GetRate t (RampP r) = map_option (map_prod id RampP) (Ramp_GetRate t r)"
| "GetRate t (SpikeP s) = map_option (map_prod id SpikeP) (Spike_GetRate t s)"
| "GetRate t (AdaptiveP a) = map_option (map_prod id AdaptiveP) (Adaptive_GetRate t a)"

fun NeedsAdaptiveController :: "pattern \<Rightarrow> bool" where
  "NeedsAdaptiveController (ConstantP c) = False"
| "NeedsAdaptiveController (RampP r) = False"
| "NeedsAdaptiveController (SpikeP s) = False"
| "NeedsAdaptiveController (AdaptiveP a) = True"

fun SetCurrentRate :: "int \<Rightarrow> pattern \<Rightarrow> pattern" where
  "SetCurrentRate rate (ConstantP c) = ConstantP (Constant_SetCurrentRate rate c)"
| "SetCurrentRate rate (RampP r) = RampP (Ramp_SetCurrentRate rate r)"
| "SetCurrentRate rate (SpikeP s) = SpikeP (Spike_SetCurrentRate rate s)"
| "SetCurrentRate rate (AdaptiveP a) = AdaptiveP (Adaptive_SetCurrentRate rate a)"

fun GetCurrentRate :: "pattern \<Rightarrow> int" where
  "GetCurrentRate (ConstantP c) = cp_rate c"
| "GetCurrentRate (RampP r) = rp_currentRate r"
| "GetCurrentRate (SpikeP s) = sp_currentRate s"
| "GetCurrentRate (AdaptiveP a) = ap_currentRate a"

record pattern_config =
  pc_Duration :: int
  pc_ConstantRate :: int
  pc_RampStart :: int
  pc_RampEnd :: int
  pc_BaselineRate :: int
  pc_SpikeRate :: int
  pc_SpikeDuration :: int
  pc_SpikeInterval :: int
  pc_AdaptiveInitialRate :: int
  pc_RealisticRate :: int

type_synonym pattern_registry = "(load_pattern, pattern_config \<Rightarrow> pattern) gomap"

definition Register :: "load_pattern \<Rightarrow> (pattern_config \<Rightarrow> pattern) \<Rightarrow> pattern_registry \<Rightarrow> pattern_registry" where
  "Register name factory r = map_put name factory r"

definition NewRegistry :: pattern_registry where
  "NewRegistry =
     (let r1 = Register PatternConstant (\<lambda>cfg. ConstantP (NewConstant (pc_ConstantRate cfg))) [];
          r2 = Register PatternRamp
                 (\<lambda>cfg. RampP (NewRamp (pc_RampStart cfg) (pc_RampEnd cfg) (pc_Duration cfg))) r1;
          r3 = Register PatternSpike
                 (\<lambda>cfg. SpikeP (NewSpike (pc_BaselineRate cfg) (pc_SpikeRate cfg)
                    (pc_SpikeDuration cfg) (pc_SpikeInterval cfg))) r2;
          r4 = Register PatternAdaptive (\<lambda>cfg. AdaptiveP (NewAdaptive (pc_AdaptiveInitialRate cfg))) r3;
          r5 = Register PatternRealistic (\<lambda>cfg. ConstantP (NewConstant (pc_RealisticRate cfg))) r4
      in Register PatternAdaptiveRealistic
           (\<lambda>cfg. AdaptiveP (NewAdaptive (pc_AdaptiveInitialRate cfg))) r5)"

definition pattern_Get :: "pattern_registry \<Rightarrow> load_pattern \<Rightarrow> pattern_config \<Rightarrow> string + pattern" where
  "pattern_Get r name cfg =
     (case map_get r name of
        None \<Rightarrow> Inl ''unknown pattern''
      | Some factory \<Rightarrow> Inr (factory cfg))"

lemma pattern_Get_NewRegistry:
  "pattern_Get NewRegistry p cfg =
     (case p of
        PatternConstant \<Rightarrow> Inr (ConstantP (NewConstant (pc_ConstantRate cfg)))
      | PatternRamp \<Rightarrow> Inr (RampP (NewRamp (pc_RampStart cfg) (pc_RampEnd cfg) (pc_Duration cfg)))
      | PatternSpike \<Rightarrow> Inr (SpikeP (NewSpike (pc_BaselineRate cfg) (pc_SpikeRate cfg)
          (pc_SpikeDuration cfg) (pc_SpikeInterval cfg)))
      | PatternAdaptive \<Rightarrow> Inr (AdaptiveP (NewAdaptive (pc_AdaptiveInitialRate cfg)))
      | PatternRealistic \<Rightarrow> Inr (ConstantP (NewConstant (pc_RealisticRate cfg)))
      | PatternAdaptiveRealistic \<Rightarrow> Inr (AdaptiveP (NewAdaptive (pc_AdaptiveInitialRate cfg)))
      | PatternOther s \<Rightarrow> Inl ''unknown pattern'')"
  by (cases p) (simp_all add: pattern_Get_def NewRegistry_def Register_def Let_def)

section \<open>The contract of the rate loop\<close>

text \<open>
  What the loop that follows a pattern relies on: from a good state, asking for the rate at any
  time does not panic, stays within fixed bounds and leaves the state good.
\<close>

locale rate_source =
  fixes rate_at :: "int \<Rightarrow> 'p \<Rightarrow> (int \<times> 'p) option"
    and good :: "'p \<Rightarrow> bool" and lo hi :: int
  assumes rate_at_total: "good p \<Longrightarrow> \<exists>r p'. rate_at t p = Some (r, p') \<and> lo \<le> r \<and> r \<le> hi \<and> good p'"

text \<open>The rates the loop sees at a sequence of elapsed times.\<close>

fun follow :: "(int \<Rightarrow> 'p \<Rightarrow> (int \<times> 'p) option) \<Rightarrow> int list \<Rightarrow> 'p \<Rightarrow> (int list \<times> 'p) option" where
  "follow f [] p = Some ([], p)"
| "follow f (t # ts) p =
     (case f t p of
        None \<Rightarrow> None
      | Some (r, p') \<Rightarrow>
          (case follow f ts p' of None \<Rightarrow> None | Some (rs, p'') \<Rightarrow> Some (r # rs, p'')))"

context rate_source
begin

lemma follow_bounds:
  "good p \<Longrightarrow> \<exists>rs p'. follow rate_at ts p = Some (rs, p') \<and> length rs = length ts \<and>
     (\<forall>r \<in> set rs. lo \<le> r \<and> r \<le> hi) \<and> good p'"
proof (induction ts arbitrary: p)
  case (Cons t ts)
  obtain r p1 where 1: "rate_at t p = Some (r, p1)" "lo \<le> r" "r \<le> hi" "good p1"
    using rate_at_total [OF Cons.prems] by blast
  obtain rs p2 where "follow rate_at ts p1 = Some (rs, p2)" "length rs = length ts"
    "\<forall>r \<in> set rs. lo \<le> r \<and> r \<le> hi" "good p2"
    using Cons.IH [OF 1(4)] by blast
  with 1 show ?case by simp
qed simp

end

lemma Constant_rate_source: "rate_source Constant_GetRate (\<lambda>c. cp_rate c = r) r r"
  by unfold_locales (simp add: Constant_GetRate_def)

interpretation const_rate: rate_source Constant_GetRate "\<lambda>c. cp_rate c = r" r r for r
  by (rule Constant_rate_source)

interpretation spike_rate: rate_source Spike_GetRate
    "\<lambda>s. sp_spikeInterval s \<noteq> 0 \<and> sp_baselineRate s = b \<and> sp_spikeRate s = k" "min b k" "max b k" for b k
  by unfold_locales (auto simp: Spike_GetRate_def go_rem_def Let_def)

text \<open>The interpolated rate of a ramp never leaves the interval of its two ends.\<close>

lemma ramp_progress:
  assumes "0 < t" "t < d"
  shows "0 \<le> fdiv (f64_of_int t) (f64_of_int d)" "fdiv (f64_of_int t) (f64_of_int d) \<le> 1"
proof -
  have "0 < fl (of_int t)" "0 < fl (of_int d)" using assms by (auto intro: fl_pos)
  moreover have "fl (of_int t) \<le> fl (of_int d)" using assms by (intro fl_mono) simp
  ultimately show "0 \<le> fdiv (f64_of_int t) (f64_of_int d)" "fdiv (f64_of_int t) (f64_of_int d) \<le> 1"
    unfolding float_ops by (auto intro: fl_nonneg fl_le_exact simp: divide_le_eq_1)
qed

lemma ramp_interpolation:
  fixes s e :: int
  assumes "0 \<le> p" "p \<le> 1" "\<bar>s\<bar> \<le> 2 ^ 52" "\<bar>e\<bar> \<le> 2 ^ 52"
  defines "x \<equiv> fadd (f64_of_int s) (fmul p (f64_of_int (e - s)))"
  shows "min s e \<le> f64_trunc x" "f64_trunc x \<le> max s e"
proof -
  have b: "\<bar>s\<bar> \<le> 2 ^ 53" "\<bar>e\<bar> \<le> 2 ^ 53" "\<bar>e - s\<bar> \<le> 2 ^ 53" using assms by auto
  have ds: "f64_of_int s = of_int s" "f64_of_int (e - s) = of_int (e - s)"
    by (rule f64_of_int_exact; rule b)+
  have ex: "f64_exact (of_int (e - s))" "f64_exact (of_int s)" "f64_exact (of_int e)"
    by (rule f64_exact_of_int; rule b)+
  let ?y = "fl (p * of_int (e - s))"
  have x: "x = fl (of_int s + ?y)" unfolding x_def float_ops ds [unfolded f64_of_int_def] ..
  have "of_int (min s e) \<le> of_int s + ?y \<and> of_int s + ?y \<le> of_int (max s e)"
  proof (cases "s \<le> e")
    case True
    then have "0 \<le> p * of_int (e - s)" "p * of_int (e - s) \<le> of_int (e - s)"
      using assms(1,2) by (simp_all add: mult_left_le_one_le)
    then have "0 \<le> ?y" "?y \<le> of_int (e - s)" using ex(1) by (auto intro: fl_nonneg fl_le_exact)
    then show ?thesis using True by auto
  next
    case False
    then have "p * of_int (e - s) \<le> 0" "of_int (e - s) \<le> p * of_int (e - s)"
      using assms(1,2) mult_left_mono_neg [of p 1 "of_int (e - s)"]
      by (simp_all add: mult_nonneg_nonpos mult.commute)
    then have "?y \<le> 0" "of_int (e - s) \<le> ?y" using ex(1) by (auto intro: fl_le_exact fl_ge_exact)
    then show ?thesis using False by auto
  qed
  then have "of_int (min s e) \<le> x" "x \<le> of_int (max s e)"
    unfolding x using ex by (auto intro!: fl_le_exact fl_ge_exact simp: min_def max_def)
  then show "min s e \<le> f64_trunc x" "f64_trunc x \<le> max s e"
    using f64_trunc_mono f64_trunc_of_int by metis+
qed

lemma Ramp_GetRate_bounds:
  assumes "\<bar>rp_startRate r\<bar> \<le> 2 ^ 52" "\<bar>rp_endRate r\<bar> \<le> 2 ^ 52"
  shows "\<exists>x c. Ramp_GetRate t r = Some (x, r\<lparr>rp_currentRate := c\<rparr>) \<and>
    min (rp_startRate r) (rp_endRate r) \<le> x \<and> x \<le> max (rp_startRate r) (rp_endRate r)"
proof (cases "t \<le> 0 \<or> rp_duration r \<le> t")
  case True
  then show ?thesis
    by (intro exI [of _ "if t \<le> 0 then rp_startRate r else rp_endRate r"] exI [of _ "rp_currentRate r"])
       (auto simp: Ramp_GetRate_def)
next
  case False
  then show ?thesis
    using ramp_interpolation [OF ramp_progress assms, of t "rp_duration r"]
    by (auto simp: Ramp_GetRate_def Let_def)
qed

interpretation ramp_rate: rate_source Ramp_GetRate
    "\<lambda>r. rp_startRate r = s \<and> rp_endRate r = e \<and> \<bar>s\<bar> \<le> 2 ^ 52 \<and> \<bar>e\<bar> \<le> 2 ^ 52" "min s e" "max s e" for s e
proof unfold_locales
  fix r :: ramp_pattern and t assume g: "rp_startRate r = s \<and> rp_endRate r = e \<and> \<bar>s\<bar> \<le> 2 ^ 52 \<and> \<bar>e\<bar> \<le> 2 ^ 52"
  then obtain x c where "Ramp_GetRate t r = Some (x, r\<lparr>rp_currentRate := c\<rparr>)"
    "min s e \<le> x" "x \<le> max s e"
    using Ramp_GetRate_bounds [of r t] by auto
  with g show "\<exists>x p'. Ramp_GetRate t r = Some (x, p') \<and> min s e \<le> x \<and> x \<le> max s e \<and>
      rp_startRate p' = s \<and> rp_endRate p' = e \<and> \<bar>s\<bar> \<le> 2 ^ 52 \<and> \<bar>e\<bar> \<le> 2 ^ 52"
    by auto
qed

text \<open>A pattern with its bounds: what the registry can build from a configuration in range.\<close>

fun pattern_bounds :: "pattern \<Rightarrow> int \<times> int" where
  "pattern_bounds (ConstantP c) = (cp_rate c, cp_rate c)"
| "pattern_bounds (RampP r) = (min (rp_startRate r) (rp_endRate r), max (rp_startRate r) (rp_endRate r))"
| "pattern_bounds (SpikeP s) =
     (min (sp_baselineRate s) (sp_spikeRate s), max (sp_baselineRate s) (sp_spikeRate s))"
| "pattern_bounds (AdaptiveP a) = (ap_currentRate a, ap_currentRate a)"

fun pattern_good :: "pattern \<Rightarrow> bool" where
  "pattern_good (ConstantP c) = True"
| "pattern_good (RampP r) = (\<bar>rp_startRate r\<bar> \<le> 2 ^ 52 \<and> \<bar>rp_endRate r\<bar> \<le> 2 ^ 52)"
| "pattern_good (SpikeP s) = (sp_spikeInterval s \<noteq> 0)"
| "pattern_good (AdaptiveP a) = True"

interpretation any_rate: rate_source GetRate "\<lambda>p. pattern_good p \<and> pattern_bounds p = (lo, hi)" lo hi for lo hi
proof unfold_locales
  fix p t assume g: "pattern_good p \<and> pattern_bounds p = (lo, hi)"
  show "\<exists>r p'. GetRate t p = Some (r, p') \<and> lo \<le> r \<and> r \<le> hi \<and>
      pattern_good p' \<and> pattern_bounds p' = (lo, hi)"
  proof (cases p)
    case (RampP r)
    then show ?thesis using g Ramp_GetRate_bounds [of r t] by auto
  next
    case (SpikeP s)
    then show ?thesis using g by (auto simp: Spike_GetRate_def go_rem_def Let_def)
  qed (use g in \<open>auto simp: Constant_GetRate_def Adaptive_GetRate_def\<close>)
qed

text \<open>
  Following any pattern built by the registry, at whatever times the loop samples it, never
  panics and every rate lies between the two ends the pattern was configured with, provided a
  spike interval is not zero and ramp ends are exact in a float64.  For a ramp this includes the
  float64 rounding of the interpolation.
\<close>
theorem patterns_stay_in_bounds:
  assumes "pattern_Get NewRegistry name cfg = Inr p" "pattern_good p"
  shows "\<exists>rs p'. follow GetRate ts p = Some (rs, p') \<and> length rs = length ts \<and>
    (\<forall>r \<in> set rs. fst (pattern_bounds p) \<le> r \<and> r \<le> snd (pattern_bounds p))"
  using any_rate.follow_bounds [of p "fst (pattern_bounds p)" "snd (pattern_bounds p)" ts] assms(2)
  by auto

theorem patterns_stay_in_bounds_witness:
  "\<exists>rs p'. follow GetRate [0, 30 * second, 90 * second] (RampP (NewRamp 100 1000 (60 * second)))
     = Some (rs, p') \<and> length rs = 3 \<and> (\<forall>r \<in> set rs. 100 \<le> r \<and> r \<le> 1000)"
proof -
  let ?cfg = "\<lparr>pc_Duration = 60 * second, pc_ConstantRate = 0, pc_RampStart = 100, pc_RampEnd = 1000,
    pc_BaselineRate = 0, pc_SpikeRate = 0, pc_SpikeDuration = 0, pc_SpikeInterval = 0,
    pc_AdaptiveInitialRate = 0, pc_RealisticRate = 0\<rparr>"
  have "pattern_Get NewRegistry PatternRamp ?cfg = Inr (RampP (NewRamp 100 1000 (60 * second)))"
    by (simp add: pattern_Get_NewRegistry)
  from patterns_stay_in_bounds [OF this, of "[0, 30 * second, 90 * second]"] show ?thesis
    by (simp add: NewRamp_def numeral_3_eq_3 del: follow.simps)
qed

text \<open>
  A ramp with a lower start than end never lowers the rate as time passes.
\<close>
theorem ramp_monotone:
  assumes "rp_startRate r \<le> rp_endRate r" "\<bar>rp_startRate r\<bar> \<le> 2 ^ 52" "\<bar>rp_endRate r\<bar> \<le> 2 ^ 52"
    "t1 \<le> t2" "Ramp_GetRate t1 r = Some (x1, r1)" "Ramp_GetRate t2 r = Some (x2, r2)"
  shows "x1 \<le> x2"
proof (cases "0 < t1 \<and> t2 < rp_duration r")
  case False
  obtain y1 c1 y2 c2 where "Ramp_GetRate t1 r = Some (y1, r\<lparr>rp_currentRate := c1\<rparr>)" "y1 \<le> rp_endRate r"
    "Ramp_GetRate t2 r = Some (y2, r\<lparr>rp_currentRate := c2\<rparr>)" "rp_startRate r \<le> y2"
    using Ramp_GetRate_bounds [OF assms(2,3), of t1] Ramp_GetRate_bounds [OF assms(2,3), of t2] assms(1)
    by auto
  then have b: "x1 \<le> rp_endRate r" "rp_startRate r \<le> x2" using assms by auto
  show ?thesis
  proof (cases "t1 \<le> 0")
    case True
    then have "x1 = rp_startRate r" using assms(5) by (auto simp: Ramp_GetRate_def)
    then show ?thesis using b by simp
  next
    case t1: False
    then have "rp_duration r \<le> t2" using False by simp
    then show ?thesis using assms(4,6) b t1 by (auto simp: Ramp_GetRate_def)
  qed
next
  case True
  define d where "d = rp_duration r"
  define rate where "rate t = fadd (f64_of_int (rp_startRate r))
    (fmul (fdiv (f64_of_int t) (f64_of_int d)) (f64_of_int (rp_endRate r - rp_startRate r)))" for t
  have p: "0 < d" using True assms(4) d_def by simp
  have "fl (of_int t1) / fl (of_int d) \<le> fl (of_int t2) / fl (of_int d)"
    using assms(4) p fl_pos [of "of_int d"] by (intro divide_right_mono fl_mono) simp_all
  then have "fdiv (f64_of_int t1) (f64_of_int d) \<le> fdiv (f64_of_int t2) (f64_of_int d)"
    unfolding float_ops by (rule fl_mono)
  moreover have "0 \<le> fl (of_int (rp_endRate r - rp_startRate r))" using assms(1) by (intro fl_nonneg) simp
  ultimately have "rate t1 \<le> rate t2"
    unfolding rate_def fadd_def fmul_def f64_of_int_def
    by (intro fl_mono add_mono mult_right_mono order_refl) simp_all
  then have "f64_trunc (rate t1) \<le> f64_trunc (rate t2)" by (rule f64_trunc_mono)
  then show ?thesis
    using True assms(4-6) by (simp add: Ramp_GetRate_def Let_def rate_def d_def)
qed

theorem ramp_monotone_witness:
  "fst (the (Ramp_GetRate 0 (NewRamp 100 1000 second))) \<le> fst (the (Ramp_GetRate (2 * second) (NewRamp 100 1000 second)))"
  using ramp_monotone [of "NewRamp 100 1000 second" 0 "2 * second" 100 "NewRamp 100 1000 second" 1000 "NewRamp 100 1000 second"]
  by (simp add: NewRamp_def Ramp_GetRate_def second_def)

text \<open>
  For a spike pattern with \<open>0 < spikeDuration \<le> spikeInterval\<close> the rate is the spike rate
  exactly in the last \<open>spikeDuration\<close> of every interval; with a duration longer than the interval
  every sample is a spike and the baseline is never used.
\<close>
theorem spike_schedule:
  assumes "0 \<le> t" "0 < sp_spikeDuration s" "0 < sp_spikeInterval s"
  shows "map_option fst (Spike_GetRate t s) =
    Some (if sp_spikeInterval s < sp_spikeDuration s
             \<or> sp_spikeInterval s - sp_spikeDuration s \<le> t mod sp_spikeInterval s
          then sp_spikeRate s else sp_baselineRate s)"
proof -
  have "0 \<le> t mod sp_spikeInterval s" using assms(3) by simp
  moreover have "go_rem t (sp_spikeInterval s) = Some (t mod sp_spikeInterval s)"
    using assms(1,3) by simp
  ultimately show ?thesis by (simp add: Spike_GetRate_def Let_def)
qed

theorem spike_schedule_witness:
  "map_option fst (Spike_GetRate (7 * second) (NewSpike 10 500 (3 * second) (5 * second))) = Some 500"
  using spike_schedule [of "7 * second" "NewSpike 10 500 (3 * second) (5 * second)"]
  by (simp add: NewSpike_def second_def)

end
