(* ===== verification/Rate_Limiter.thy ===== *)
theory Rate_Limiter
  imports Patterns
begin

text \<open>
  \<open>internal/ratelimit/limiter.go\<close>: the paced limiter.  \<open>Wait\<close> takes the next permit time and
  advances it under the lock (\<open>reserve\<close>), sleeps outside it, and gives the permit back when its
  context is cancelled first (\<open>give_back\<close>); these are the steps that interleave.  Times are
  nanoseconds.
\<close>

record limiter =
  nextPermitTime :: int
  interval :: int
  rateX1000 :: int

definition clamp_rate :: "f64 \<Rightarrow> f64" where
  "clamp_rate r = (if r \<le> 0 then 1 else r)"

definition permit_interval :: "f64 \<Rightarrow> int" where
  "permit_interval r = f64_trunc (fdiv (of_int second) r)"

definition NewLimiter :: "f64 \<Rightarrow> int \<Rightarrow> limiter" where
  "NewLimiter ratePerSec now =
     (let r = clamp_rate ratePerSec in
      \<lparr>nextPermitTime = now, interval = permit_interval r, rateX1000 = f64_trunc (fmul r 1000)\<rparr>)"

definition reserve :: "limiter \<Rightarrow> int \<times> limiter" where
  "reserve l = (nextPermitTime l, l\<lparr>nextPermitTime := nextPermitTime l + interval l\<rparr>)"

definition give_back :: "limiter \<Rightarrow> limiter" where
  "give_back l = l\<lparr>nextPermitTime := nextPermitTime l - interval l\<rparr>"

datatype wait_outcome = Granted int | CtxErr

text \<open>
  \<open>Wait\<close> called at \<open>now\<close>; \<open>cancelled\<close> tells whether the context ends before the timer.  The
  result carries the time at which the caller proceeds.
\<close>

definition Wait :: "int \<Rightarrow> bool \<Rightarrow> limiter \<Rightarrow> wait_outcome \<times> limiter" where
  "Wait now cancelled l =
     (let (permitTime, l') = reserve l; waitDuration = permitTime - now in
      if waitDuration \<le> 0 then (Granted now, l')
      else if cancelled then (CtxErr, give_back l')
      else (Granted permitTime, l'))"

definition SetRate :: "f64 \<Rightarrow> int \<Rightarrow> limiter \<Rightarrow> limiter" where
  "SetRate ratePerSec now l =
     (let r = clamp_rate ratePerSec;
          l' = l\<lparr>interval := permit_interval r, rateX1000 := f64_trunc (fmul r 1000)\<rparr>
      in if nextPermitTime l' < now then l'\<lparr>nextPermitTime := now\<rparr> else l')"

definition Rate :: "limiter \<Rightarrow> f64" where
  "Rate l = fdiv (f64_of_int (rateX1000 l)) 1000"

lemma clamp_rate_pos: "0 < clamp_rate r"
  by (simp add: clamp_rate_def)

lemma permit_interval_nonneg: "0 < r \<Longrightarrow> 0 \<le> permit_interval r"
  by (simp add: permit_interval_def f64_trunc_def fdiv_def fl_nonneg second_def)

text \<open>At an integer rate up to a billion per second the interval is positive, at one it is a second.\<close>

lemma permit_interval_pos:
  assumes "0 < r" "r \<le> 1000000000" shows "0 < permit_interval r"
proof -
  have "1 \<le> fl (of_int second / r)"
    by (rule fl_ge_exact) (use assms in \<open>simp_all add: second_def le_divide_eq\<close>)
  then have "0 \<le> fl (of_int second / r)" "1 \<le> \<lfloor>fl (of_int second / r)\<rfloor>"
    by linarith (simp add: le_floor_iff \<open>1 \<le> fl (of_int second / r)\<close>)
  then show ?thesis by (simp add: permit_interval_def f64_trunc_def fdiv_def)
qed

section \<open>Steps of concurrent callers\<close>

datatype limiter_step = SReserve | SCancel | SSetRate f64 int

text \<open>The permit times handed out by a sequence of steps, each with the interval in force.\<close>

fun limiter_run :: "limiter_step list \<Rightarrow> limiter \<Rightarrow> (int \<times> int) list \<times> limiter" where
  "limiter_run [] l = ([], l)"
| "limiter_run (SReserve # ss) l =
     (case limiter_run ss (snd (reserve l)) of
        (ps, l') \<Rightarrow> ((fst (reserve l), interval l) # ps, l'))"
| "limiter_run (SCancel # ss) l = limiter_run ss (give_back l)"
| "limiter_run (SSetRate r now # ss) l = limiter_run ss (SetRate r now l)"

lemma limiter_run_from:
  assumes "SCancel \<notin> set ss" "0 \<le> interval l"
  shows "\<forall>(p, i) \<in> set (fst (limiter_run ss l)). nextPermitTime l \<le> p"
    "sorted_wrt (\<lambda>(p, i) (q, j). p + i \<le> q) (fst (limiter_run ss l))"
proof -
  have "(\<forall>(p, i) \<in> set (fst (limiter_run ss l)). nextPermitTime l \<le> p \<and> 0 \<le> i) \<and>
     sorted_wrt (\<lambda>(p, i) (q, j). p + i \<le> q) (fst (limiter_run ss l))"
    using assms
  proof (induction ss l rule: limiter_run.induct)
    case (2 ss l)
    obtain ps l' where r: "limiter_run ss (snd (reserve l)) = (ps, l')"
      by (cases "limiter_run ss (snd (reserve l))")
    have "\<forall>(p, i) \<in> set ps. nextPermitTime l + interval l \<le> p \<and> 0 \<le> i"
      "sorted_wrt (\<lambda>(p, i) (q, j). p + i \<le> q) ps"
      using 2 unfolding r by (auto simp: reserve_def)
    moreover have "fst (limiter_run (SReserve # ss) l) = (nextPermitTime l, interval l) # ps"
      using r by (simp add: reserve_def)
    ultimately show ?case using 2(3) by fastforce
  next
    case (4 r now ss l)
    have "0 \<le> interval (SetRate r now l)" "nextPermitTime l \<le> nextPermitTime (SetRate r now l)"
      by (auto simp: SetRate_def Let_def permit_interval_nonneg clamp_rate_pos)
    with 4 show ?case by fastforce
  qed auto
  then show "\<forall>(p, i) \<in> set (fst (limiter_run ss l)). nextPermitTime l \<le> p"
    "sorted_wrt (\<lambda>(p, i) (q, j). p + i \<le> q) (fst (limiter_run ss l))" by auto
qed

text \<open>
  As long as no waiter cancels, however callers and rate changes interleave, any two permits
  are at least the interval apart that was in force when the earlier one was reserved.
\<close>
theorem limiter_spacing:
  assumes "SCancel \<notin> set ss" "0 \<le> interval l"
    "i < j" "j < length (fst (limiter_run ss l))"
  shows "fst (fst (limiter_run ss l) ! i) + snd (fst (limiter_run ss l) ! i)
      \<le> fst (fst (limiter_run ss l) ! j)"
  using limiter_run_from(2) [OF assms(1,2)] assms(3,4)
  by (auto simp: sorted_wrt_iff_nth_less split_beta)

theorem limiter_spacing_witness:
  "fst (fst (limiter_run [SReserve, SSetRate 100 5, SReserve] (NewLimiter 10 0)) ! 0) +
     snd (fst (limiter_run [SReserve, SSetRate 100 5, SReserve] (NewLimiter 10 0)) ! 0)
   \<le> fst (fst (limiter_run [SReserve, SSetRate 100 5, SReserve] (NewLimiter 10 0)) ! 1)"
proof (rule limiter_spacing)
  show "0 \<le> interval (NewLimiter 10 0)"
    using permit_interval_nonneg [of 10] by (simp add: NewLimiter_def clamp_rate_def)
qed (simp_all add: split_beta)

text \<open>
  A cancelled waiter that is not the last to have reserved makes the limiter issue one permit
  time twice: the caller after the cancellation gets the very time that an earlier, still waiting
  caller holds, so both proceed at the same instant.
\<close>
theorem cancel_duplicates_permit:
  "map fst (fst (limiter_run [SReserve, SReserve, SCancel, SReserve] l)) =
     [nextPermitTime l, nextPermitTime l + interval l, nextPermitTime l + interval l]"
  by (simp add: reserve_def give_back_def)

text \<open>Callers that arrive one after the other at the same instant.\<close>

fun wait_all :: "nat \<Rightarrow> int \<Rightarrow> limiter \<Rightarrow> wait_outcome list \<times> limiter" where
  "wait_all 0 now l = ([], l)"
| "wait_all (Suc n) now l =
     (case Wait now False l of (r, l') \<Rightarrow> (case wait_all n now l' of (rs, l'') \<Rightarrow> (r # rs, l'')))"

text \<open>
  A limiter that was idle has no burst limit: every caller whose permit time lies in the past
  proceeds at once, so after idling for \<open>n\<close> intervals the next \<open>n + 1\<close> callers all pass at the
  same instant.
\<close>
theorem idle_limiter_bursts:
  assumes "0 \<le> interval l" "nextPermitTime l + int n * interval l \<le> now"
  shows "fst (wait_all (Suc n) now l) = replicate (Suc n) (Granted now)"
  using assms
proof (induction n arbitrary: l)
  case (Suc n)
  let ?l = "snd (reserve l)"
  have le: "nextPermitTime l \<le> now" using Suc.prems mult_nonneg_nonneg [of "int (Suc n)" "interval l"] by linarith
  have "fst (wait_all (Suc n) now ?l) = replicate (Suc n) (Granted now)"
    by (rule Suc.IH) (use Suc.prems in \<open>simp_all add: reserve_def algebra_simps\<close>)
  moreover have "Wait now False l = (Granted now, ?l)" using le by (simp add: Wait_def reserve_def)
  ultimately show ?case
    by (simp only: wait_all.simps(2) [of "Suc n"] prod.case) (simp add: split_beta del: wait_all.simps)
qed (simp add: Wait_def reserve_def)

theorem idle_limiter_bursts_witness:
  "fst (wait_all 3 100 \<lparr>nextPermitTime = 0, interval = 50, rateX1000 = 0\<rparr>) = [Granted 100, Granted 100, Granted 100]"
  using idle_limiter_bursts [of "\<lparr>nextPermitTime = 0, interval = 50, rateX1000 = 0\<rparr>" 2 100]
  by (simp only: eval_nat_numeral) simp

end
