(* ===== verification/Adaptive.thy ===== *)
theory Adaptive
  imports Rate_Limiter
begin

text \<open>
  The rate control of \<open>internal/loadgen/workers.go\<close>: the ticks of \<open>adaptiveController\<close> (circuit
  breaker, builder backpressure, probing recovery and the pending-count controller) and the rate
  tick of \<open>tpsCalculator\<close>, with the builder pressure of \<open>builder.go\<close>.  One tick is one step; the
  counters it swaps to zero are filled by the send callbacks between ticks.
\<close>

record rate_control =
  recentSends :: int
  recentFails :: int
  recentRevocations :: int
  currentRate :: int
  rc_pendingCount :: int
  circuitOpen :: bool
  nonceResyncNeeded :: bool
  preCircuitRate :: int
  builderPressure :: f64
  latestBaseFeeGwei :: f64
  latestGasPriceGwei :: f64
  latestGasUsed :: u64
  blockAttestationEnabled :: bool
  hsmProvider :: string
  hsmKeyIDActive :: string
  hsmFailoverEnabled :: bool
  rateLimiter :: limiter
  currentPattern :: "pattern option"

text \<open>The three stores every branch of the controller does together.\<close>

definition publish_rate :: "int \<Rightarrow> int \<Rightarrow> rate_control \<Rightarrow> rate_control" where
  "publish_rate now newRate s =
     s\<lparr>currentRate := newRate,
       rateLimiter := SetRate (f64_of_int newRate) now (rateLimiter s),
       currentPattern := map_option (Patterns.SetCurrentRate newRate) (currentPattern s)\<rparr>"

definition targetPendingOf :: "int \<Rightarrow> int" where
  "targetPendingOf cfg = (if cfg \<le> 0 then 1000 else cfg)"

definition rateStepOf :: "int \<Rightarrow> int" where
  "rateStepOf cfg = (if cfg \<le> 0 then 100 else cfg)"

definition at_least :: "int \<Rightarrow> int \<Rightarrow> int" where
  "at_least lo x = (if x < lo then lo else x)"

text \<open>The evaluation of the breaker: \<open>None\<close> below the sample threshold, else the two rates.\<close>

definition circuit_rates :: "bool \<Rightarrow> int \<Rightarrow> int \<Rightarrow> int \<Rightarrow> (f64 \<times> f64) option" where
  "circuit_rates isOpen sends fails revocations =
     (let minSamples = (if isOpen then 20 else 100) in
      if minSamples \<le> sends
      then Some (fdiv (f64_of_int fails) (f64_of_int sends), fdiv (f64_of_int revocations) (f64_of_int sends))
      else None)"

definition trips :: "(f64 \<times> f64) option \<Rightarrow> bool" where
  "trips r = (case r of None \<Rightarrow> False | Some (f, v) \<Rightarrow> fl (30/100) < f \<or> fl (10/100) < v)"

definition recovers :: "(f64 \<times> f64) option \<Rightarrow> bool" where
  "recovers r = (case r of None \<Rightarrow> False | Some (f, v) \<Rightarrow> fadd f v < fl (5/100))"

text \<open>The pending-count controller.\<close>

definition pending_control :: "int \<Rightarrow> int \<Rightarrow> int \<Rightarrow> int \<Rightarrow> rate_control \<Rightarrow> rate_control" where
  "pending_control now targetPending step pending s =
     (let r = currentRate s in
      if pending < targetPending then publish_rate now (r + step) s
      else if targetPending * 4 < pending then publish_rate now (at_least 10 (go_quot r 2)) s
      else if targetPending * 2 < pending then publish_rate now (at_least 10 (r - step * 2)) s
      else if targetPending < pending then publish_rate now (at_least 10 (r - step)) s
      else s)"

text \<open>
  One tick.  The flag of the result says that a nonce resync is started (a goroutine running
  \<open>resyncAllNonces\<close>).
\<close>

definition adaptive_tick :: "int \<Rightarrow> int \<Rightarrow> int \<Rightarrow> rate_control \<Rightarrow> bool \<times> rate_control" where
  "adaptive_tick now targetPending step s0 =
     (case currentPattern s0 of
        Some (AdaptiveP a) \<Rightarrow>
          (let rates = circuit_rates (circuitOpen s0) (recentSends s0) (recentFails s0) (recentRevocations s0);
               r = currentRate s0; pending = rc_pendingCount s0;
               s = s0\<lparr>recentSends := 0, recentFails := 0, recentRevocations := 0\<rparr> in
           if \<not> circuitOpen s0 \<and> trips rates
           then (True, publish_rate now (at_least 50 (go_quot r 2))
                   (s\<lparr>circuitOpen := True, nonceResyncNeeded := True, preCircuitRate := r\<rparr>))
           else
             let s1 = (if circuitOpen s0 \<and> recovers rates then s\<lparr>circuitOpen := False\<rparr> else s) in
             if fl (8/10) < builderPressure s0 \<and> \<not> circuitOpen s1
             then (False, publish_rate now (at_least 100 (go_quot r 2)) s1)
             else if circuitOpen s1
             then (let newRate = r + go_quot r 2; ceiling = preCircuitRate s1 in
                   (False, publish_rate now (if 0 < ceiling \<and> ceiling < newRate then ceiling else newRate) s1))
             else (False, pending_control now targetPending step pending s1))
      | _ \<Rightarrow> (False, s0))"

text \<open>The rate tick of \<open>tpsCalculator\<close> for the time-based patterns.\<close>

definition rate_tick :: "int \<Rightarrow> int \<Rightarrow> rate_control \<Rightarrow> rate_control option" where
  "rate_tick startTime now s =
     (case currentPattern s of
        None \<Rightarrow> Some s
      | Some p \<Rightarrow>
          if NeedsAdaptiveController p then Some s
          else (case GetRate (now - startTime) p of
                  None \<Rightarrow> None
                | Some (newRate, p') \<Rightarrow>
                    Some (s\<lparr>currentPattern := Some p', currentRate := newRate,
                            rateLimiter := SetRate (f64_of_int newRate) now (rateLimiter s)\<rparr>)))"

text \<open>
  \<open>fetchBuilderPressure\<close>: any failure before decoding sets the pressure to zero and leaves the rest,
  a body that does not decode changes nothing.  The two answers of the L2 node are optional (no
  client, or the call failed).
\<close>

record builder_status =
  bs_PendingTxCount :: int
  bs_MaxTxsPerBlock :: int
  bs_LatestBaseFeeGwei :: f64
  bs_LatestGasUsed :: u64
  bs_BlockAttestationEnabled :: bool
  bs_HSMProvider :: string
  bs_HSMKeyIDActive :: string
  bs_HSMFailoverEnabled :: bool

datatype status_reply = StatusUnreachable | StatusUndecodable | StatusOK builder_status

definition pressure_of :: "builder_status \<Rightarrow> f64" where
  "pressure_of st =
     (let capacity = (if bs_MaxTxsPerBlock st * 2 \<le> 0 then 50000 else bs_MaxTxsPerBlock st * 2);
          pressure = fdiv (f64_of_int (bs_PendingTxCount st)) (f64_of_int capacity)
      in if 1 < pressure then 1 else pressure)"

definition gwei_or_zero :: "u64 option \<Rightarrow> f64" where
  "gwei_or_zero wei = (case wei of None \<Rightarrow> 0 | Some v \<Rightarrow> fdiv (f64_of_int (uint v)) 1000000000)"

definition fetchBuilderPressure :: "status_reply \<Rightarrow> u64 option \<Rightarrow> u64 option \<Rightarrow> rate_control \<Rightarrow> rate_control" where
  "fetchBuilderPressure reply gasPrice baseFee s =
     (case reply of
        StatusUnreachable \<Rightarrow> s\<lparr>builderPressure := 0\<rparr>
      | StatusUndecodable \<Rightarrow> s
      | StatusOK st \<Rightarrow>
          let base = gwei_or_zero baseFee;
              base' = (if base = 0 then bs_LatestBaseFeeGwei st else base)
          in s\<lparr>builderPressure := pressure_of st, latestBaseFeeGwei := base',
               latestGasPriceGwei := gwei_or_zero gasPrice, latestGasUsed := bs_LatestGasUsed st,
               blockAttestationEnabled := bs_BlockAttestationEnabled st, hsmProvider := bs_HSMProvider st,
               hsmKeyIDActive := bs_HSMKeyIDActive st, hsmFailoverEnabled := bs_HSMFailoverEnabled st\<rparr>)"

lemma pressure_le_1: "pressure_of st \<le> 1"
  by (simp add: pressure_of_def Let_def)

section \<open>The rate stays positive\<close>

lemma publish_rate_simps [simp]:
  "currentRate (publish_rate now r s) = r"
  "circuitOpen (publish_rate now r s) = circuitOpen s"
  "preCircuitRate (publish_rate now r s) = preCircuitRate s"
  "builderPressure (publish_rate now r s) = builderPressure s"
  "recentSends (publish_rate now r s) = recentSends s"
  "currentPattern (publish_rate now r s) = map_option (Patterns.SetCurrentRate r) (currentPattern s)"
  by (simp_all add: publish_rate_def)

lemma at_least_le [simp]: "lo \<le> at_least lo x"
  by (simp add: at_least_def)

definition control_inv :: "rate_control \<Rightarrow> bool" where
  "control_inv s \<longleftrightarrow> 10 \<le> currentRate s \<and> (circuitOpen s \<longrightarrow> 10 \<le> preCircuitRate s) \<and>
     (\<exists>a. currentPattern s = Some (AdaptiveP a))"

lemma pending_control_frame [simp]:
  "circuitOpen (pending_control now tp st p s) = circuitOpen s"
  "preCircuitRate (pending_control now tp st p s) = preCircuitRate s"
  by (simp_all add: pending_control_def Let_def)

lemma pending_control_pattern:
  "currentPattern s = Some (AdaptiveP a) \<Longrightarrow> \<exists>a'. currentPattern (pending_control now tp st p s) = Some (AdaptiveP a')"
  by (simp add: pending_control_def Let_def)

lemma pending_control_rate:
  "10 \<le> currentRate s \<Longrightarrow> 0 < st \<Longrightarrow> 10 \<le> currentRate (pending_control now tp st p s)"
  by (simp add: pending_control_def Let_def order_trans [OF _ at_least_le])

lemma adaptive_tick_inv:
  assumes "control_inv s" "0 < st" shows "control_inv (snd (adaptive_tick now tp st s))"
proof -
  obtain a where a: "currentPattern s = Some (AdaptiveP a)" using assms(1) by (auto simp: control_inv_def)
  have r: "10 \<le> currentRate s" using assms(1) by (simp add: control_inv_def)
  have rise: "10 \<le> currentRate s + go_quot (currentRate s) 2" using r by simp
  have lows: "(10::int) \<le> at_least 50 x" "(10::int) \<le> at_least 100 x" for x by (simp_all add: at_least_def)
  show ?thesis
    using assms r rise lows pending_control_rate [OF _ assms(2)]
    by (simp add: adaptive_tick_def a control_inv_def Let_def pending_control_pattern)
qed

text \<open>What can happen between ticks: the callbacks and the monitor change the other counters.\<close>

definition same_control :: "rate_control \<Rightarrow> rate_control \<Rightarrow> bool" where
  "same_control s s' \<longleftrightarrow> currentRate s' = currentRate s \<and> circuitOpen s' = circuitOpen s \<and>
     preCircuitRate s' = preCircuitRate s \<and> currentPattern s' = currentPattern s"

inductive control_reaches :: "int \<Rightarrow> int \<Rightarrow> rate_control \<Rightarrow> rate_control \<Rightarrow> bool"
  for tp st :: int and s0 :: rate_control where
  Start: "control_reaches tp st s0 s0"
| Between: "control_reaches tp st s0 s \<Longrightarrow> same_control s s' \<Longrightarrow> control_reaches tp st s0 s'"
| Tick: "control_reaches tp st s0 s \<Longrightarrow> control_reaches tp st s0 (snd (adaptive_tick now tp st s))"

text \<open>
  Under the adaptive controller the rate never falls below ten transactions per second once it
  is at least ten, whatever the failures, revocations, pressure and pending counts between ticks.
\<close>
theorem adaptive_rate_floor:
  assumes "control_reaches (targetPendingOf cp) (rateStepOf cs) s0 s" "control_inv s0"
  shows "10 \<le> currentRate s"
proof -
  have "control_inv s"
    using assms
  proof (induction rule: control_reaches.induct)
    case (Between s s')
    then show ?case by (auto simp: control_inv_def same_control_def)
  next
    case (Tick s now)
    then show ?case by (intro adaptive_tick_inv) (auto simp: rateStepOf_def)
  qed
  then show ?thesis by (simp add: control_inv_def)
qed

definition example_control :: rate_control where
  "example_control =
     \<lparr>recentSends = 200, recentFails = 200, recentRevocations = 0, currentRate = 400,
      rc_pendingCount = 0, circuitOpen = False, nonceResyncNeeded = False, preCircuitRate = 0,
      builderPressure = 0, latestBaseFeeGwei = 0, latestGasPriceGwei = 0, latestGasUsed = 0,
      blockAttestationEnabled = False, hsmProvider = [], hsmKeyIDActive = [], hsmFailoverEnabled = False,
      rateLimiter = NewLimiter 400 0,
      currentPattern = Some (AdaptiveP (NewAdaptive 400))\<rparr>"

theorem adaptive_rate_floor_witness:
  "10 \<le> currentRate (snd (adaptive_tick 7 (targetPendingOf 0) (rateStepOf 0) example_control))"
  by (rule adaptive_rate_floor [OF control_reaches.Tick [OF control_reaches.Start]])
     (simp add: control_inv_def example_control_def)

section \<open>The open circuit\<close>

lemma example_trips: "trips (circuit_rates False 200 200 0)"
proof -
  have "fl (3/10) \<le> 1/2" by (rule fl_le_exact) simp_all
  then have "fl (3/10) < 1" by simp
  then show ?thesis
    by (simp add: circuit_rates_def trips_def float_ops fl_of_int [of 200, simplified])
qed

text \<open>
  An open circuit that does not recover gives the whole rate back: whatever fraction of the
  sends fails, two ticks after the breaker halved a rate of at least 100 the controller sends at
  the full rate from before again, and the circuit is still open.
\<close>
theorem open_circuit_restores_rate:
  assumes "currentPattern s = Some (AdaptiveP a)" "\<not> circuitOpen s" "100 \<le> currentRate s"
    "trips (circuit_rates False (recentSends s) (recentFails s) (recentRevocations s))"
    "s1 = snd (adaptive_tick t1 tp st s)" "same_control s1 u1"
    "\<not> recovers (circuit_rates True (recentSends u1) (recentFails u1) (recentRevocations u1))"
    "s2 = snd (adaptive_tick t2 tp st u1)" "same_control s2 u2"
    "\<not> recovers (circuit_rates True (recentSends u2) (recentFails u2) (recentRevocations u2))"
  shows "circuitOpen (snd (adaptive_tick t3 tp st u2)) \<and>
    currentRate (snd (adaptive_tick t3 tp st u2)) = currentRate s"
proof -
  let ?r = "currentRate s"
  have s1: "circuitOpen s1" "preCircuitRate s1 = ?r" "currentRate s1 = ?r div 2"
    "\<exists>a. currentPattern s1 = Some (AdaptiveP a)"
    using assms(1-4) unfolding assms(5) by (auto simp: adaptive_tick_def Let_def at_least_def)
  then obtain a1 where u1: "circuitOpen u1" "preCircuitRate u1 = ?r" "currentRate u1 = ?r div 2"
    "currentPattern u1 = Some (AdaptiveP a1)"
    using assms(6) by (auto simp: same_control_def)
  have p: "0 < ?r" "0 \<le> ?r div 2" using assms(3) by auto
  define r2 where "r2 = min ?r (?r div 2 + ?r div 2 div 2)"
  have s2: "circuitOpen s2" "preCircuitRate s2 = ?r" "currentRate s2 = r2"
    "\<exists>a. currentPattern s2 = Some (AdaptiveP a)"
    using u1 assms(7) p unfolding assms(8) by (auto simp: adaptive_tick_def Let_def r2_def)
  then obtain a2 where u2: "circuitOpen u2" "preCircuitRate u2 = ?r" "currentRate u2 = r2"
    "currentPattern u2 = Some (AdaptiveP a2)"
    using assms(9) by (auto simp: same_control_def)
  have r2: "0 \<le> r2" "r2 \<le> ?r" "?r \<le> r2 + r2 div 2" using assms(3) unfolding r2_def by linarith+
  show ?thesis
    using u2 assms(10) p r2 by (auto simp: adaptive_tick_def Let_def)
qed

theorem open_circuit_restores_rate_witness:
  "let tick = \<lambda>t s. snd (adaptive_tick t 1000 100 s);
       s = tick 3 (tick 2 (tick 1 example_control))
   in circuitOpen s \<and> currentRate s = 400"
proof -
  let ?tick = "\<lambda>t s. snd (adaptive_tick t 1000 100 s)"
  let ?s1 = "?tick 1 example_control" and ?s2 = "?tick 2 (?tick 1 example_control)"
  have e: "currentPattern example_control = Some (AdaptiveP (NewAdaptive 400))"
    "\<not> circuitOpen example_control" "100 \<le> currentRate example_control"
    "trips (circuit_rates False (recentSends example_control) (recentFails example_control)
       (recentRevocations example_control))"
    using example_trips by (simp_all add: example_control_def)
  have z1: "recentSends ?s1 = 0" "circuitOpen ?s1" "\<exists>a. currentPattern ?s1 = Some (AdaptiveP a)"
    using e by (auto simp: adaptive_tick_def Let_def)
  then have n1: "\<not> recovers (circuit_rates True (recentSends ?s1) (recentFails ?s1) (recentRevocations ?s1))"
    by (simp add: circuit_rates_def recovers_def)
  then have z2: "recentSends ?s2 = 0" using z1 by (auto simp: adaptive_tick_def Let_def circuit_rates_def recovers_def)
  then have n2: "\<not> recovers (circuit_rates True (recentSends ?s2) (recentFails ?s2) (recentRevocations ?s2))"
    by (simp add: circuit_rates_def recovers_def)
  have same: "same_control x x" for x by (simp add: same_control_def)
  show ?thesis
    using open_circuit_restores_rate [OF e refl same n1 refl same n2, of 3]
    by (simp add: Let_def) (simp add: example_control_def)
qed

text \<open>
  Opening the circuit at a rate below 50 raises the rate to 50, and builder backpressure at a
  rate below 100 raises it to 100: the two floors turn the throttle into an acceleration.
\<close>
theorem throttle_floors_raise_low_rates:
  assumes "currentPattern s = Some (AdaptiveP a)" "\<not> circuitOpen s" "10 \<le> currentRate s"
  defines "rates \<equiv> circuit_rates False (recentSends s) (recentFails s) (recentRevocations s)"
  shows "(trips rates \<and> currentRate s < 50 \<longrightarrow>
      currentRate (snd (adaptive_tick now tp st s)) = 50) \<and>
    (\<not> trips rates \<and> fl (8/10) < builderPressure s \<and> currentRate s < 100 \<longrightarrow>
      currentRate (snd (adaptive_tick now tp st s)) = 100)"
  using assms by (auto simp: adaptive_tick_def Let_def at_least_def)

theorem throttle_floors_raise_low_rates_witness:
  "currentRate (snd (adaptive_tick 0 1000 100 (example_control\<lparr>currentRate := 20\<rparr>))) = 50"
proof -
  show ?thesis
    using example_trips throttle_floors_raise_low_rates [of "example_control\<lparr>currentRate := 20\<rparr>" "NewAdaptive 400" 0 1000 100]
    by (simp add: example_control_def)
qed

end
