(* ===== verification/Sender.thy ===== *)
theory Sender
  imports Prelude
begin

text \<open>
  \<open>internal/sender/sender.go\<close>: the asynchronous sender.  The semaphore is a bounded number of jobs
  in flight; a job is whatever the caller's callbacks refer to, one item per transaction, and a
  single send is a job with one item.  Queueing is one step, and so is the goroutine's completion,
  which runs the callbacks with the per-transaction results and then frees the slot.  \<open>None\<close> is
  Go's nil error.
\<close>

record 'j sender =
  capacity :: nat
  flights :: "'j list list"

definition NewSender :: "int \<Rightarrow> 'j sender" where
  "NewSender concurrency =
     \<lparr>capacity = nat (if concurrency \<le> 0 then 500 else concurrency), flights = []\<rparr>"

definition SendAsync :: "'j \<Rightarrow> 'j sender \<Rightarrow> bool \<times> 'j sender" where
  "SendAsync j s =
     (if length (flights s) < capacity s then (True, s\<lparr>flights := flights s @ [[j]]\<rparr>) else (False, s))"

definition TrySend :: "'j \<Rightarrow> 'j sender \<Rightarrow> string option \<times> 'j sender" where
  "TrySend j s =
     (case SendAsync j s of (True, s') \<Rightarrow> (None, s') | (False, s') \<Rightarrow> (Some ''sender at capacity'', s'))"

definition SendBatchAsync :: "'j list \<Rightarrow> 'j sender \<Rightarrow> bool \<times> 'j sender" where
  "SendBatchAsync js s =
     (if length js = 0 then (True, s)
      else if length (flights s) < capacity s then (True, s\<lparr>flights := flights s @ [js]\<rparr>)
      else (False, s))"

text \<open>
  Completion of the \<open>k\<close>-th job with the errors the client returned: the callbacks to run, in
  order, each with its error.  A result list that is too short counts as nil errors.
\<close>

definition callback_errs :: "'j list \<Rightarrow> 'e option list \<Rightarrow> ('j \<times> 'e option) list" where
  "callback_errs js errs = map (\<lambda>i. (js ! i, if i < length errs then errs ! i else None)) [0..<length js]"

definition finish_job :: "nat \<Rightarrow> 'e option list \<Rightarrow> 'j sender \<Rightarrow> ('j \<times> 'e option) list \<times> 'j sender" where
  "finish_job k errs s =
     (if k < length (flights s)
      then (callback_errs (flights s ! k) errs, s\<lparr>flights := take k (flights s) @ drop (Suc k) (flights s)\<rparr>)
      else ([], s))"

definition Available :: "'j sender \<Rightarrow> nat" where
  "Available s = capacity s - length (flights s)"

definition Capacity :: "'j sender \<Rightarrow> nat" where
  "Capacity s = capacity s"

definition InFlight :: "'j sender \<Rightarrow> nat" where
  "InFlight s = length (flights s)"

section \<open>Every accepted transaction is called back exactly once\<close>

datatype ('j, 'e) sender_op = Submit "'j list" | Complete nat "'e option list"

text \<open>A run with the log of the items accepted and the items called back.\<close>

fun sender_run :: "('j, 'e) sender_op list \<Rightarrow> 'j sender \<Rightarrow> 'j list \<times> 'j list \<times> 'j sender" where
  "sender_run [] s = ([], [], s)"
| "sender_run (Submit js # ops) s =
     (let (ok, s') = SendBatchAsync js s; (acc, done, s'') = sender_run ops s'
      in ((if ok then js else []) @ acc, done, s''))"
| "sender_run (Complete k errs # ops) s =
     (let (cbs, s') = finish_job k errs s; (acc, done, s'') = sender_run ops s'
      in (acc, map fst cbs @ done, s''))"

lemma callback_errs_fst [simp]: "map fst (callback_errs js errs) = js"
  by (simp add: callback_errs_def comp_def map_nth)

lemma SendBatchAsync_le: "InFlight s \<le> Capacity s \<Longrightarrow> InFlight (snd (SendBatchAsync js s)) \<le> Capacity s"
  by (simp add: SendBatchAsync_def InFlight_def Capacity_def)

lemma finish_job_le: "InFlight (snd (finish_job k errs s)) \<le> InFlight s"
  by (simp add: finish_job_def InFlight_def)

lemma cap_frame [simp]:
  "Capacity (snd (SendBatchAsync js s)) = Capacity s" "Capacity (snd (finish_job k errs s)) = Capacity s"
  by (simp_all add: SendBatchAsync_def finish_job_def Capacity_def)

lemma submit_mset:
  "mset (concat (flights (snd (SendBatchAsync js s)))) =
     mset (concat (flights s)) + (if fst (SendBatchAsync js s) then mset js else {#})"
  by (simp add: SendBatchAsync_def)

lemma finish_job_mset:
  "mset (concat (flights s)) =
     mset (map fst (fst (finish_job k errs s))) + mset (concat (flights (snd (finish_job k errs s))))"
proof (cases "k < length (flights s)")
  case True
  have "concat (flights s) = concat (take k (flights s)) @ (flights s ! k) @ concat (drop (Suc k) (flights s))"
    using arg_cong [OF id_take_nth_drop [OF True], of concat] by simp
  then show ?thesis using True by (simp add: finish_job_def)
qed (simp add: finish_job_def)


end
