(* ===== verification/Pipeline.thy ===== *)
theory Pipeline
  imports Nonce_Account Sender Collector
begin

text \<open>
  \<open>internal/pipeline/pipeline.go\<close>: build, sign, encode and queue one transaction of an account, with
  the nonce owned by the send callback once it is queued.  The transaction builder, the signer
  and the encoder are outside this package and are parameters: each maps its input to a result or
  fails (\<open>None\<close>).
\<close>

record ('t, 's, 'd) tx_tools =
  build :: "u64 \<Rightarrow> int \<Rightarrow> 't option"
  sign :: "'t \<Rightarrow> 's option"
  encode :: "'s \<Rightarrow> 'd option"
  tx_hash :: "'s \<Rightarrow> hash"

datatype pipe_error = BuildError | SignError | EncodeError

record pipe_result =
  res_TxHash :: hash
  res_Nonce :: u64
  res_Queued :: bool
  res_Error :: "pipe_error option"

text \<open>A job is the captured handle with the transaction's hash and its encoding.\<close>

type_synonym 'd pipe_job = "nonce_h \<times> hash \<times> 'd"

record 'd pipe_state =
  p_acc :: account
  p_sender :: "'d pipe_job sender"
  p_metrics :: "collector option"
  p_gasPrice :: int

text \<open>The steps before queueing.\<close>

definition prepare_tx :: "('t, 's, 'd) tx_tools \<Rightarrow> int \<Rightarrow> u64 \<Rightarrow> pipe_error + hash \<times> 'd" where
  "prepare_tx tools gas n =
     (case build tools n gas of
        None \<Rightarrow> Inl BuildError
      | Some tx \<Rightarrow>
          (case sign tools tx of
             None \<Rightarrow> Inl SignError
           | Some stx \<Rightarrow>
               (case encode tools stx of
                  None \<Rightarrow> Inl EncodeError
                | Some d \<Rightarrow> Inr (tx_hash tools stx, d))))"

definition on_queued :: "hash \<Rightarrow> int \<Rightarrow> collector option \<Rightarrow> collector option option" where
  "on_queued h sentTime m =
     (case m of
        None \<Rightarrow> Some None
      | Some c \<Rightarrow> (case RecordTxSent h sentTime c of
                    None \<Rightarrow> None
                  | Some c' \<Rightarrow> Some (Some (snd (IncTxSent c')))))"

definition ExecuteWithGas ::
  "('t, 's, 'd) tx_tools \<Rightarrow> int \<Rightarrow> int \<Rightarrow> 'd pipe_state \<Rightarrow> (pipe_result \<times> 'd pipe_state) option" where
  "ExecuteWithGas tools gasPrice now s0 =
     (let (n, acc) = ReserveNonce (p_acc s0); s = s0\<lparr>p_acc := acc\<rparr> in
      case prepare_tx tools gasPrice (Value n) of
        Inl e \<Rightarrow>
          let (n', acc') = Rollback n (p_acc s) in
          Some (\<lparr>res_TxHash = 0, res_Nonce = Value n', res_Queued = False, res_Error = Some e\<rparr>,
                s\<lparr>p_acc := acc'\<rparr>)
      | Inr (h, d) \<Rightarrow>
          (case SendAsync (n, h, d) (p_sender s) of
             (False, snd') \<Rightarrow>
               let (n', acc') = Rollback n (p_acc s) in
               Some (\<lparr>res_TxHash = h, res_Nonce = Value n', res_Queued = False, res_Error = None\<rparr>,
                     s\<lparr>p_acc := acc', p_sender := snd'\<rparr>)
           | (True, snd') \<Rightarrow>
               (case on_queued h now (p_metrics s) of
                  None \<Rightarrow> None
                | Some m \<Rightarrow>
                    Some (\<lparr>res_TxHash = h, res_Nonce = Value n, res_Queued = True, res_Error = None\<rparr>,
                          s\<lparr>p_sender := snd', p_metrics := m\<rparr>))))"

definition Execute :: "('t, 's, 'd) tx_tools \<Rightarrow> int \<Rightarrow> 'd pipe_state \<Rightarrow> (pipe_result \<times> 'd pipe_state) option" where
  "Execute tools now s = ExecuteWithGas tools (p_gasPrice s) now s"

text \<open>The callback of one queued job, and the completion of a send.\<close>

definition pipe_callback :: "'d pipe_job \<Rightarrow> string option \<Rightarrow> 'd pipe_state \<Rightarrow> 'd pipe_state" where
  "pipe_callback job err s =
     (case job of (n, h, d) \<Rightarrow>
        (case err of
           Some e \<Rightarrow>
             s\<lparr>p_acc := snd (Rollback n (p_acc s)),
               p_metrics := map_option (RecordTxFailed ''send'') (p_metrics s)\<rparr>
         | None \<Rightarrow> s))"

definition finish_send :: "nat \<Rightarrow> string option list \<Rightarrow> 'd pipe_state \<Rightarrow> 'd pipe_state" where
  "finish_send k errs s =
     (case finish_job k errs (p_sender s) of
        (cbs, snd') \<Rightarrow> fold (\<lambda>(job, e). pipe_callback job e) cbs (s\<lparr>p_sender := snd'\<rparr>))"

section \<open>No nonce is lost\<close>

text \<open>
  The nonces of the jobs in flight; with the nonces spent so far (\<open>Spent\<close>) they are the nonces the
  account has handed out.
\<close>

definition flight_nonces :: "'d pipe_state \<Rightarrow> u64 list" where
  "flight_nonces s = map (\<lambda>(n, h, d). nvalue n) (concat (flights (p_sender s)))"

definition pipe_inv :: "u64 \<Rightarrow> u64 set \<Rightarrow> 'd pipe_state \<Rightarrow> bool" where
  "pipe_inv base Spent s \<longleftrightarrow>
     distinct (flight_nonces s) \<and> set (flight_nonces s) \<inter> Spent = {} \<and>
     (\<forall>(n, h, d) \<in> set (concat (flights (p_sender s))). \<not> committed n) \<and>
     (\<forall>js \<in> set (flights (p_sender s)). length js = 1) \<and>
     acc_inv base (p_acc s) (set (flight_nonces s) \<union> Spent)"

lemma Rollback_open: "\<not> committed n \<Longrightarrow> snd (Rollback n a) = rollback a (nvalue n)"
  by (simp add: Rollback_def swap_committed_def)

lemma Rollback_value [simp]: "Value (fst (Rollback n a)) = Value n"
  by (simp add: Rollback_def swap_committed_def Value_def)

text \<open>A transaction that is not queued leaves the account's handed-out nonces as they were.\<close>

lemma ExecuteWithGas_inv:
  assumes inv: "pipe_inv base Spent s" and room: "0 < acc_room (p_acc s)"
    and exe: "ExecuteWithGas tools gas now s = Some (r, s')"
  shows "pipe_inv base Spent s'"
    "flight_nonces s' = flight_nonces s @ (if res_Queued r then [res_Nonce r] else [])"
proof -
  obtain n a where na: "ReserveNonce (p_acc s) = (n, a)" by (cases "ReserveNonce (p_acc s)")
  have opn: "\<not> committed n" using ReserveNonce_open [of "p_acc s"] na by simp
  let ?Out = "set (flight_nonces s) \<union> Spent"
  have held: "acc_inv base (p_acc s) ?Out" using inv by (simp add: pipe_inv_def)
  have fresh: "nvalue n \<notin> ?Out" using acct.reserve_fresh [OF held] na by simp
  have out: "acc_inv base a (insert (nvalue n) ?Out)" using acct.reserve_held [OF held room] na by simp
  have bck: "acc_inv base (snd (Rollback n a)) ?Out"
    using acct.reserve_giveback [OF held room] na by (simp add: Rollback_open [OF opn])
  have "pipe_inv base Spent s' \<and>
    flight_nonces s' = flight_nonces s @ (if res_Queued r then [res_Nonce r] else [])"
  proof (cases "prepare_tx tools gas (Value n)")
    case (Inl e)
    then have "s' = s\<lparr>p_acc := snd (Rollback n a)\<rparr>" "\<not> res_Queued r"
      using exe by (auto simp: ExecuteWithGas_def na split_beta)
    then show ?thesis using inv bck by (simp add: pipe_inv_def flight_nonces_def)
  next
    case (Inr hd)
    obtain h d where hd: "hd = (h, d)" by (cases hd)
    show ?thesis
    proof (cases "length (flights (p_sender s)) < capacity (p_sender s)")
      case True
      then obtain m where "s' = s\<lparr>p_acc := a,
          p_sender := (p_sender s)\<lparr>flights := flights (p_sender s) @ [[(n, h, d)]]\<rparr>, p_metrics := m\<rparr>"
        "res_Queued r" "res_Nonce r = nvalue n"
        using exe Inr hd by (auto simp: ExecuteWithGas_def na SendAsync_def Value_def split: option.splits)
      then show ?thesis
        using inv opn fresh out by (auto simp: pipe_inv_def flight_nonces_def)
    next
      case False
      then have "s' = s\<lparr>p_acc := snd (Rollback n a)\<rparr>" "\<not> res_Queued r"
        using exe Inr hd by (auto simp: ExecuteWithGas_def na SendAsync_def split_beta)
      then show ?thesis using inv bck by (simp add: pipe_inv_def flight_nonces_def)
    qed
  qed
  then show "pipe_inv base Spent s'"
    "flight_nonces s' = flight_nonces s @ (if res_Queued r then [res_Nonce r] else [])" by auto
qed

text \<open>The callback of the finished send keeps the partition: the nonce is spent or back.\<close>

lemma finish_send_inv:
  assumes inv: "pipe_inv base Spent s" and k: "k < length (flights (p_sender s))"
    and job: "flights (p_sender s) ! k = [(n, h, d)]"
  shows "pipe_inv base (if e = None then insert (nvalue n) Spent else Spent) (finish_send k [e] s)"
proof -
  let ?fl = "flights (p_sender s)"
  let ?rest = "take k ?fl @ drop (Suc k) ?fl"
  have split: "?fl = take k ?fl @ [(n, h, d)] # drop (Suc k) ?fl"
    using id_take_nth_drop [OF k] job by simp
  let ?v = "\<lambda>(n, h, d). nvalue n"
  have fn: "flight_nonces s = map ?v (concat (take k ?fl)) @ nvalue n # map ?v (concat (drop (Suc k) ?fl))"
    unfolding flight_nonces_def by (subst (1) split) simp
  have rest: "map ?v (concat ?rest) = map ?v (concat (take k ?fl)) @ map ?v (concat (drop (Suc k) ?fl))"
    by simp
  have d: "distinct (map ?v (concat ?rest))" "nvalue n \<notin> set (map ?v (concat ?rest))"
    "set (flight_nonces s) = insert (nvalue n) (set (map ?v (concat ?rest)))"
    using inv unfolding pipe_inv_def fn by auto
  have sub: "set ?rest \<subseteq> set ?fl" using set_take_subset set_drop_subset by fastforce
  have opn: "\<not> committed n" using inv k job nth_mem [OF k] by (force simp: pipe_inv_def)
  have out: "acc_inv base (p_acc s) (set (flight_nonces s) \<union> Spent)" using inv by (simp add: pipe_inv_def)
  have cb: "finish_job k [e] (p_sender s) = ([((n, h, d), e)], (p_sender s)\<lparr>flights := ?rest\<rparr>)"
    using k job by (simp add: finish_job_def callback_errs_def)
  have subc: "set (concat ?rest) \<subseteq> set (concat ?fl)" unfolding set_concat using sub by blast
  have all: "\<forall>(n, h, d) \<in> set (concat ?fl). \<not> committed n" "\<forall>js \<in> set ?fl. length js = 1"
    "set (flight_nonces s) \<inter> Spent = {}"
    using inv by (simp_all add: pipe_inv_def)
  have old1: "\<forall>(n, h, d) \<in> set (concat ?rest). \<not> committed n" using all(1) subc by blast
  have old2: "\<forall>js \<in> set ?rest. length js = 1" using all(2) sub by blast
  have old3: "set (map ?v (concat ?rest)) \<inter> Spent = {}" "nvalue n \<notin> Spent"
    using all(3) unfolding d(3) by blast+
  note old = old1 old2 old3
  show ?thesis
  proof (cases e)
    case None
    then have f: "finish_send k [e] s = s\<lparr>p_sender := (p_sender s)\<lparr>flights := ?rest\<rparr>\<rparr>"
      unfolding finish_send_def cb by (simp add: pipe_callback_def)
    show ?thesis
      using out d old None unfolding f pipe_inv_def flight_nonces_def
      by (simp del: concat_append set_append)
  next
    case (Some err)
    then have f: "finish_send k [e] s = s\<lparr>p_sender := (p_sender s)\<lparr>flights := ?rest\<rparr>,
        p_acc := rollback (p_acc s) (nvalue n),
        p_metrics := map_option (RecordTxFailed ''send'') (p_metrics s)\<rparr>"
      unfolding finish_send_def cb by (simp add: pipe_callback_def Rollback_open [OF opn])
    have "acc_inv base (rollback (p_acc s) (nvalue n)) (set (flight_nonces s) \<union> Spent - {nvalue n})"
      by (rule acct.giveback_held [OF out]) (simp add: d(3))
    moreover have "set (flight_nonces s) \<union> Spent - {nvalue n} = set (map ?v (concat ?rest)) \<union> Spent"
      using d old by auto
    ultimately show ?thesis
      using d old Some unfolding f pipe_inv_def flight_nonces_def by simp
  qed
qed

lemma ExecuteWithGas_room:
  assumes inv: "pipe_inv base Spent s" and room: "0 < acc_room (p_acc s)"
    and exe: "ExecuteWithGas tools gas now s = Some (r, s')"
  shows "acc_room (p_acc s) \<le> acc_room (p_acc s') + 1"
proof -
  obtain n a where na: "ReserveNonce (p_acc s) = (n, a)" by (cases "ReserveNonce (p_acc s)")
  have opn: "\<not> committed n" using ReserveNonce_open [of "p_acc s"] na by simp
  have held: "acc_inv base (p_acc s) (set (flight_nonces s) \<union> Spent)" using inv by (simp add: pipe_inv_def)
  have rb: "Rollback n a = (n\<lparr>committed := True\<rparr>, rollback a (nvalue n))"
    using opn by (simp add: Rollback_def swap_committed_def)
  have "acc_room a \<le> acc_room (rollback a (nvalue n))"
    using acct.giveback_room [OF acct.reserve_held [OF held room], of "nvalue n"] na by simp
  moreover have "acc_room (p_acc s) \<le> acc_room a + 1" using acct.reserve_room [of "p_acc s"] na by simp
  moreover have "p_acc s' = a \<or> p_acc s' = rollback a (nvalue n)"
    using exe by (auto simp: ExecuteWithGas_def na SendAsync_def rb Let_def
        split: sum.splits option.splits if_splits)
  ultimately show ?thesis by auto
qed

lemma finish_send_room:
  assumes inv: "pipe_inv base Spent s" and k: "k < length (flights (p_sender s))"
    and job: "flights (p_sender s) ! k = [(n, h, d)]"
  shows "acc_room (p_acc s) \<le> acc_room (p_acc (finish_send k [e] s))"
proof -
  have mem: "(n, h, d) \<in> set (concat (flights (p_sender s)))" using nth_mem [OF k] job by force
  then have opn: "\<not> committed n" using inv by (auto simp: pipe_inv_def)
  have "nvalue n \<in> set (flight_nonces s)" using mem by (force simp: flight_nonces_def)
  then have "acc_room (p_acc s) \<le> acc_room (rollback (p_acc s) (nvalue n))"
    using inv acct.giveback_room [of base "p_acc s" "set (flight_nonces s) \<union> Spent" "nvalue n"]
    by (simp add: pipe_inv_def)
  moreover have "p_acc (finish_send k [e] s) = (if e = None then p_acc s else rollback (p_acc s) (nvalue n))"
    using k job by (simp add: finish_send_def finish_job_def callback_errs_def pipe_callback_def
        Rollback_open [OF opn] split: option.split)
  ultimately show ?thesis by simp
qed

datatype pipe_op = PExecute int int | PFinish nat "string option"

text \<open>A run, with the list of the nonces whose send succeeded.\<close>

fun pipe_run :: "('t, 's, 'd) tx_tools \<Rightarrow> pipe_op list \<Rightarrow> u64 list \<times> 'd pipe_state \<Rightarrow>
    (u64 list \<times> 'd pipe_state) option" where
  "pipe_run tools [] st = Some st"
| "pipe_run tools (PExecute gas now # ops) (sp, s) =
     (case ExecuteWithGas tools gas now s of
        None \<Rightarrow> None
      | Some (r, s') \<Rightarrow> pipe_run tools ops (sp, s'))"
| "pipe_run tools (PFinish k e # ops) (sp, s) =
     (if k < length (flights (p_sender s))
      then pipe_run tools ops
             (if e = None then map (\<lambda>(n, h, d). nvalue n) (flights (p_sender s) ! k) @ sp else sp,
              finish_send k [e] s)
      else pipe_run tools ops (sp, s))"

lemma pipe_run_inv:
  assumes "pipe_inv base (set sp) s" "length ops \<le> acc_room (p_acc s)"
    "pipe_run tools ops (sp, s) = Some (sp', s')"
  shows "pipe_inv base (set sp') s'"
  using assms
proof (induction ops arbitrary: sp s)
  case (Cons p ops)
  show ?case
  proof (cases p)
    case (PExecute gas now)
    then obtain r s1 where s1: "ExecuteWithGas tools gas now s = Some (r, s1)"
      "pipe_run tools ops (sp, s1) = Some (sp', s')"
      using Cons.prems(3) by (auto split: option.splits)
    have room: "0 < acc_room (p_acc s)" using Cons.prems(2) by simp
    have "length ops \<le> acc_room (p_acc s1)"
      using ExecuteWithGas_room [OF Cons.prems(1) room s1(1)] Cons.prems(2) by simp
    then show ?thesis
      using Cons.IH ExecuteWithGas_inv(1) [OF Cons.prems(1) room s1(1)] s1(2) by blast
  next
    case (PFinish k e)
    show ?thesis
    proof (cases "k < length (flights (p_sender s))")
      case True
      have "length (flights (p_sender s) ! k) = 1"
        using Cons.prems(1) nth_mem [OF True] by (auto simp: pipe_inv_def)
      then obtain j where "flights (p_sender s) ! k = [j]" by (auto simp: length_Suc_conv)
      then obtain n h d where job: "flights (p_sender s) ! k = [(n, h, d)]" by (cases j) auto
      let ?sp = "if e = None then nvalue n # sp else sp"
      have "pipe_inv base (set ?sp) (finish_send k [e] s)"
        using finish_send_inv [OF Cons.prems(1) True job, of e] by (cases e) simp_all
      moreover have "length ops \<le> acc_room (p_acc (finish_send k [e] s))"
        using finish_send_room [OF Cons.prems(1) True job, of e] Cons.prems(2) by simp
      moreover have "pipe_run tools ops (?sp, finish_send k [e] s) = Some (sp', s')"
        using Cons.prems(3) PFinish True job by (cases e) simp_all
      ultimately show ?thesis using Cons.IH by blast
    next
      case False
      then show ?thesis using Cons PFinish by simp
    qed
  qed
qed simp

definition pipe_init :: "u64 \<Rightarrow> int \<Rightarrow> collector option \<Rightarrow> 'd pipe_state" where
  "pipe_init base conc m =
     \<lparr>p_acc = SetNonce NewAccount base, p_sender = NewSender conc, p_metrics = m,
      p_gasPrice = 1\<rparr>"

text \<open>
  However executions and completions of sends interleave, and whichever of build, sign,
  encode, queueing and sending fail, the nonces below the account's counter are at every moment
  split without overlap into those in flight, those whose send succeeded and the free list: every
  failed transaction gives its nonce back exactly once.
\<close>
theorem pipeline_nonce_partition:
  assumes "unat base + length ops < 2 ^ 64"
    "pipe_run tools ops ([], pipe_init base conc m) = Some (spent, s)"
  shows "set (flight_nonces s) \<union> set spent \<union> set (freeNonces (p_acc s)) = {base..<nonce (p_acc s)}
    \<and> distinct (flight_nonces s) \<and> distinct (freeNonces (p_acc s))
    \<and> set (flight_nonces s) \<inter> set spent = {}
    \<and> (set (flight_nonces s) \<union> set spent) \<inter> set (freeNonces (p_acc s)) = {}"
proof -
  have "pipe_inv base (set []) (pipe_init base conc m :: 'a pipe_state)"
    using acc_inv_fresh [of base]
    by (simp add: pipe_inv_def pipe_init_def flight_nonces_def NewSender_def acc_inv_def SetNonce_def)
  moreover have "length ops \<le> acc_room (p_acc (pipe_init base conc m :: 'a pipe_state))"
    using assms(1) by (simp add: pipe_init_def acc_room_def SetNonce_def unat_u64_max)
  ultimately have "pipe_inv base (set spent) s" using assms(2) pipe_run_inv by blast
  then show ?thesis by (auto simp: pipe_inv_def acc_inv_def)
qed

definition example_tools :: "(u64, u64, u64) tx_tools" where
  "example_tools = \<lparr>build = (\<lambda>n g. if n = 6 then None else Some n), sign = Some, encode = Some,
     tx_hash = (\<lambda>n. unat n + 1)\<rparr>"

theorem pipeline_nonce_partition_witness:
  "\<exists>s. pipe_run example_tools [PExecute 1 1, PExecute 1 2, PFinish 0 (Some ''timeout''), PExecute 1 3]
     ([], pipe_init 5 10 None) = Some ([], s) \<and>
   set (flight_nonces s) \<union> set (freeNonces (p_acc s)) = {5..<nonce (p_acc s)}"
proof -
  let ?ops = "[PExecute 1 1, PExecute 1 2, PFinish 0 (Some ''timeout''), PExecute 1 3]"
  have "unat (5 :: u64) + length ?ops < 2 ^ 64" by simp
  moreover have "\<exists>s. pipe_run example_tools ?ops ([], pipe_init 5 10 None) = Some ([], s)"
    by (simp add: pipe_init_def ExecuteWithGas_def ReserveNonce_def prepare_tx_def example_tools_def
        SendAsync_def NewSender_def on_queued_def finish_send_def finish_job_def callback_errs_def
        pipe_callback_def Rollback_def swap_committed_def rollback_def SetNonce_def Value_def)
  ultimately show ?thesis using pipeline_nonce_partition by fastforce
qed

end
