(* ===== verification/Tx_Log.thy ===== *)
theory Tx_Log
  imports Collector
begin

text \<open>
  The transaction log of \<open>internal/loadgen/persistence.go\<close> and the pending-transaction accounting
  of \<open>loadgen.go\<close>: the map \<open>pendingTxs\<close> from hash to log entry, the log buffer, the resolution of
  pending entries by receipt at the end of a test and their final discarding.  \<open>lg_core\<close> holds the
  fields of the load generator that the send callbacks and the confirmation paths share; other
  theories extend it.
\<close>

datatype entry_status = EntryPending | EntryConfirmed | EntryDiscarded

record tx_log_entry =
  te_TxHash :: hash
  te_SentAtMs :: int
  te_ConfirmedAtMs :: int
  te_PreconfAtMs :: int
  te_ConfirmLatencyMs :: int
  te_PreconfLatencyMs :: int
  te_Status :: entry_status
  te_FromAccount :: nat
  te_Nonce :: u64
  te_GasTipGwei :: f64

record lg_core =
  metricsCol :: collector
  lg_pendingCount :: int
  lg_recentSends :: int
  lg_recentFails :: int
  lg_recentRevocations :: int
  txLoggingEnabled :: bool
  pendingTxs :: "(hash, tx_log_entry) gomap"
  txLogBuf :: "tx_log_entry list"

definition UnixMilli :: "int \<Rightarrow> int" where
  "UnixMilli t = t div 1000000"

definition recordTxSent :: "hash \<Rightarrow> int \<Rightarrow> nat \<Rightarrow> u64 \<Rightarrow> f64 \<Rightarrow> 'a lg_core_scheme \<Rightarrow> 'a lg_core_scheme" where
  "recordTxSent h sentAt acct n tip lg =
     (if \<not> txLoggingEnabled lg then lg else
      let entry = \<lparr>te_TxHash = h, te_SentAtMs = UnixMilli sentAt, te_ConfirmedAtMs = 0, te_PreconfAtMs = 0,
            te_ConfirmLatencyMs = 0, te_PreconfLatencyMs = 0, te_Status = EntryPending,
            te_FromAccount = acct, te_Nonce = n, te_GasTipGwei = tip\<rparr>
      in lg\<lparr>pendingTxs := map_put h entry (pendingTxs lg), txLogBuf := txLogBuf lg @ [entry]\<rparr>)"

definition recordTxConfirmed :: "hash \<Rightarrow> int \<Rightarrow> 'a lg_core_scheme \<Rightarrow> 'a lg_core_scheme" where
  "recordTxConfirmed h tm lg =
     (if \<not> txLoggingEnabled lg then lg else
      case map_get (pendingTxs lg) h of
        None \<Rightarrow> lg
      | Some e \<Rightarrow>
          lg\<lparr>pendingTxs := map_put h
               (e\<lparr>te_ConfirmedAtMs := UnixMilli tm, te_ConfirmLatencyMs := UnixMilli tm - te_SentAtMs e,
                  te_Status := EntryConfirmed\<rparr>) (pendingTxs lg)\<rparr>)"

definition recordTxPreconfirmed :: "hash \<Rightarrow> int \<Rightarrow> 'a lg_core_scheme \<Rightarrow> 'a lg_core_scheme" where
  "recordTxPreconfirmed h tm lg =
     (if \<not> txLoggingEnabled lg then lg else
      case map_get (pendingTxs lg) h of
        None \<Rightarrow> lg
      | Some e \<Rightarrow>
          lg\<lparr>pendingTxs := map_put h
               (e\<lparr>te_PreconfAtMs := UnixMilli tm, te_PreconfLatencyMs := UnixMilli tm - te_SentAtMs e\<rparr>)
               (pendingTxs lg)\<rparr>)"

definition pending_hashes :: "(hash, tx_log_entry) gomap \<Rightarrow> hash list" where
  "pending_hashes m = map fst (filter (\<lambda>(h, e). te_Status e = EntryPending) m)"

definition countPendingTxs :: "'a lg_core_scheme \<Rightarrow> nat" where
  "countPendingTxs lg = length (filter (\<lambda>(h, e). te_Status e = EntryPending) (pendingTxs lg))"

definition finalizePendingTxs :: "'a lg_core_scheme \<Rightarrow> nat \<times> 'a lg_core_scheme" where
  "finalizePendingTxs lg =
     (countPendingTxs lg,
      lg\<lparr>pendingTxs := map (\<lambda>(h, e). (h, if te_Status e = EntryPending
           then e\<lparr>te_Status := EntryDiscarded\<rparr> else e)) (pendingTxs lg)\<rparr>)"

text \<open>The lock-free decrement of the pending counter.\<close>

definition sub_pending :: "'a lg_core_scheme \<Rightarrow> 'a lg_core_scheme" where
  "sub_pending lg = lg\<lparr>lg_pendingCount := call_atomic (SubSaturating 1) (lg_pendingCount lg)\<rparr>"

text \<open>
  The receipt lookups.  A lookup that a force stop skips or aborts is one of the replies that leave
  the entry pending.  The goroutines work on different hashes; they are run one after the other.
\<close>

datatype receipt_reply = LookupFailed | NotOnChain | Receipt nat

definition resolve_one :: "int \<Rightarrow> receipt_reply \<Rightarrow> hash \<Rightarrow> 'a lg_core_scheme \<Rightarrow> nat \<times> 'a lg_core_scheme" where
  "resolve_one now reply h lg =
     (case reply of
        LookupFailed \<Rightarrow> (0, lg)
      | NotOnChain \<Rightarrow> (0, lg)
      | Receipt status \<Rightarrow>
          if status \<noteq> 1 then (0, lg)
          else let lg1 = lg\<lparr>metricsCol := RecordTxConfirmed h now (metricsCol lg)\<rparr>;
                   lg2 = recordTxConfirmed h now lg1
               in (1, sub_pending lg2))"

fun resolve_all :: "int \<Rightarrow> (hash \<Rightarrow> receipt_reply) \<Rightarrow> hash list \<Rightarrow> 'a lg_core_scheme \<Rightarrow> nat \<times> 'a lg_core_scheme" where
  "resolve_all now replies [] lg = (0, lg)"
| "resolve_all now replies (h # hs) lg =
     (let (n, lg1) = resolve_one now (replies h) h lg; (m, lg2) = resolve_all now replies hs lg1
      in (n + m, lg2))"

definition resolvePendingViaReceipts ::
  "bool \<Rightarrow> int \<Rightarrow> (hash \<Rightarrow> receipt_reply) \<Rightarrow> 'a lg_core_scheme \<Rightarrow> nat \<times> 'a lg_core_scheme" where
  "resolvePendingViaReceipts hasClient now replies lg =
     (if \<not> txLoggingEnabled lg \<or> \<not> hasClient then (0, lg)
      else resolve_all now replies (pending_hashes (pendingTxs lg)) lg)"

section \<open>Pending entries\<close>

lemma pending_hashes_get:
  assumes "map_wf m" shows "h \<in> set (pending_hashes m) \<longleftrightarrow> (\<exists>e. map_get m h = Some e \<and> te_Status e = EntryPending)"
proof -
  have "map_get m h = Some e \<longleftrightarrow> (h, e) \<in> set m" for e
    using assms by (simp add: map_get_def map_wf_def map_of_eq_Some_iff)
  then show ?thesis by (force simp: pending_hashes_def)
qed

lemma pending_hashes_distinct: "map_wf m \<Longrightarrow> distinct (pending_hashes m)"
  by (simp add: map_wf_def pending_hashes_def distinct_map_filter)

lemma countPending_card:
  assumes "map_wf (pendingTxs lg)"
  shows "countPendingTxs lg = card {h. \<exists>e. map_get (pendingTxs lg) h = Some e \<and> te_Status e = EntryPending}"
proof -
  have "countPendingTxs lg = length (pending_hashes (pendingTxs lg))"
    by (simp add: countPendingTxs_def pending_hashes_def)
  also have "\<dots> = card (set (pending_hashes (pendingTxs lg)))"
    using pending_hashes_distinct [OF assms] by (simp add: distinct_card)
  also have "set (pending_hashes (pendingTxs lg)) =
      {h. \<exists>e. map_get (pendingTxs lg) h = Some e \<and> te_Status e = EntryPending}"
    using pending_hashes_get [OF assms] by auto
  finally show ?thesis .
qed

definition pend :: "'a lg_core_scheme \<Rightarrow> hash set" where
  "pend lg = {h. \<exists>e. map_get (pendingTxs lg) h = Some e \<and> te_Status e = EntryPending}"

definition status_of :: "'a lg_core_scheme \<Rightarrow> hash \<Rightarrow> entry_status option" where
  "status_of lg h = map_option te_Status (map_get (pendingTxs lg) h)"

lemma pend_status: "h \<in> pend lg \<longleftrightarrow> status_of lg h = Some EntryPending"
  by (auto simp: pend_def status_of_def)

lemma finite_pend: "map_wf (pendingTxs lg) \<Longrightarrow> finite (pend lg)"
  by (rule finite_subset [of _ "map_keys (pendingTxs lg)"]) (auto simp: pend_def map_keys_get)

lemma pendingTxs_sub_pending [simp]: "pendingTxs (sub_pending lg) = pendingTxs lg"
  "txLoggingEnabled (sub_pending lg) = txLoggingEnabled lg"
  "metricsCol (sub_pending lg) = metricsCol lg"
  by (simp_all add: sub_pending_def)

definition landed :: "receipt_reply \<Rightarrow> bool" where
  "landed r \<longleftrightarrow> r = Receipt 1"

lemma resolve_one_effect:
  assumes "txLoggingEnabled lg" "map_wf (pendingTxs lg)" "h \<in> pend lg"
  shows "fst (resolve_one now r h lg) = (if landed r then 1 else 0)"
    "status_of (snd (resolve_one now r h lg)) h' =
       (if h' = h \<and> landed r then Some EntryConfirmed else status_of lg h')"
    "map_wf (pendingTxs (snd (resolve_one now r h lg)))"
    "txLoggingEnabled (snd (resolve_one now r h lg))"
  using assms
  by (auto simp: landed_def resolve_one_def recordTxConfirmed_def Let_def status_of_def pend_def split: receipt_reply.split)

lemma resolve_all_effect:
  assumes "txLoggingEnabled lg" "map_wf (pendingTxs lg)" "distinct hs" "set hs \<subseteq> pend lg"
  shows "fst (resolve_all now rs hs lg) = length (filter (\<lambda>h. landed (rs h)) hs) \<and>
    (\<forall>h. status_of (snd (resolve_all now rs hs lg)) h =
       (if h \<in> set hs \<and> landed (rs h) then Some EntryConfirmed else status_of lg h)) \<and>
    map_wf (pendingTxs (snd (resolve_all now rs hs lg)))"
  using assms
proof (induction hs arbitrary: lg)
  case (Cons h hs)
  have h: "h \<in> pend lg" using Cons.prems(4) by simp
  note one = resolve_one_effect [OF Cons.prems(1,2) h, of now "rs h"]
  let ?lg = "snd (resolve_one now (rs h) h lg)"
  have "set hs \<subseteq> pend ?lg"
    using Cons.prems(3,4) one(2) by (auto simp: pend_status)
  then have ih: "fst (resolve_all now rs hs ?lg) = length (filter (\<lambda>h. landed (rs h)) hs)"
    "\<And>h'. status_of (snd (resolve_all now rs hs ?lg)) h' =
       (if h' \<in> set hs \<and> landed (rs h') then Some EntryConfirmed else status_of ?lg h')"
    "map_wf (pendingTxs (snd (resolve_all now rs hs ?lg)))"
    using Cons.IH [OF one(4,3)] Cons.prems(3) by auto
  have "fst (resolve_all now rs (h # hs) lg) = fst (resolve_one now (rs h) h lg) + fst (resolve_all now rs hs ?lg)"
    "snd (resolve_all now rs (h # hs) lg) = snd (resolve_all now rs hs ?lg)"
    by (simp_all add: split_beta Let_def)
  then show ?case
    using ih one(1,2) by auto
qed simp

lemma finalize_status:
  "status_of (snd (finalizePendingTxs lg)) h =
     map_option (\<lambda>s. if s = EntryPending then EntryDiscarded else s) (status_of lg h)"
  by (cases "map_of (pendingTxs lg) h")
    (auto simp: finalizePendingTxs_def status_of_def map_get_def map_of_map)

text \<open>
  C10: At the end of a test every pending transaction is accounted for exactly once: the number
  reclassified as confirmed by receipt plus the number discarded is the number that was pending,
  an entry is confirmed exactly when its receipt reports success, and nothing stays pending.
\<close>
theorem end_of_test_accounting:
  assumes "txLoggingEnabled lg" "map_wf (pendingTxs lg)"
    "resolvePendingViaReceipts True now replies lg = (resolved, lg1)"
    "finalizePendingTxs lg1 = (discarded, lg2)"
  shows "resolved + discarded = countPendingTxs lg \<and>
    (\<forall>h \<in> pend lg. status_of lg2 h = Some (if landed (replies h) then EntryConfirmed else EntryDiscarded)) \<and>
    (\<forall>h. h \<notin> pend lg \<longrightarrow> status_of lg2 h = status_of lg h)"
proof -
  let ?hs = "pending_hashes (pendingTxs lg)"
  have hs: "distinct ?hs" "set ?hs = pend lg"
    using pending_hashes_distinct [OF assms(2)] pending_hashes_get [OF assms(2)] by (auto simp: pend_def)
  have r: "resolve_all now replies ?hs lg = (resolved, lg1)"
    using assms(1,3) by (simp add: resolvePendingViaReceipts_def)
  have e: "resolved = length (filter (\<lambda>h. landed (replies h)) ?hs)"
    "\<And>h. status_of lg1 h = (if h \<in> pend lg \<and> landed (replies h) then Some EntryConfirmed else status_of lg h)"
    "map_wf (pendingTxs lg1)"
    using resolve_all_effect [OF assms(1,2) hs(1), of now replies] hs(2) r by auto
  have p1: "pend lg1 = {h \<in> pend lg. \<not> landed (replies h)}"
    by (auto simp: pend_status e(2) split: if_splits)
  have "discarded = countPendingTxs lg1" using assms(4) by (simp add: finalizePendingTxs_def)
  also have "\<dots> = card (pend lg1)" using countPending_card [OF e(3)] by (simp add: pend_def)
  also have "\<dots> = length (filter (\<lambda>h. \<not> landed (replies h)) ?hs)"
  proof -
    have "set (filter (\<lambda>h. \<not> landed (replies h)) ?hs) = pend lg1"
      unfolding p1 set_filter hs(2) by blast
    moreover have "distinct (filter (\<lambda>h. \<not> landed (replies h)) ?hs)" using hs(1) by simp
    ultimately show ?thesis by (metis distinct_card)
  qed
  finally have "resolved + discarded = length ?hs"
    using sum_length_filter_compl [of "\<lambda>h. landed (replies h)" ?hs] e(1) by simp
  moreover have "length ?hs = countPendingTxs lg" by (simp add: pending_hashes_def countPendingTxs_def)
  moreover have "status_of lg2 h = map_option (\<lambda>s. if s = EntryPending then EntryDiscarded else s) (status_of lg1 h)" for h
    using finalize_status [of lg1 h] assms(4) by simp
  moreover have "status_of lg h = Some EntryPending" if "h \<in> pend lg" for h using that by (simp add: pend_status)
  moreover have "map_option (\<lambda>s. if s = EntryPending then EntryDiscarded else s) (status_of lg h) = status_of lg h"
    if "h \<notin> pend lg" for h
    using that by (cases "status_of lg h") (auto simp: pend_status)
  ultimately show ?thesis by (auto simp: e(2))
qed

definition example_lg :: "bool \<Rightarrow> lg_core" where
  "example_lg logging =
     \<lparr>metricsCol = NewMemoryCollector, lg_pendingCount = 0, lg_recentSends = 0, lg_recentFails = 0,
      lg_recentRevocations = 0, txLoggingEnabled = logging, pendingTxs = [], txLogBuf = []\<rparr>"

theorem end_of_test_accounting_witness:
  "let lg = recordTxSent 9 0 0 1 0 (recordTxSent 8 0 0 0 0 (example_lg True));
       (resolved, lg1) = resolvePendingViaReceipts True 5 (\<lambda>h. if h = 8 then Receipt 1 else NotOnChain) lg;
       (discarded, lg2) = finalizePendingTxs lg1
   in resolved + discarded = countPendingTxs lg"
proof -
  let ?lg = "recordTxSent 9 0 0 1 0 (recordTxSent 8 0 0 0 0 (example_lg True))"
  let ?rs = "\<lambda>h. if h = (8::nat) then Receipt 1 else NotOnChain"
  obtain n lg1 where 1: "resolvePendingViaReceipts True 5 ?rs ?lg = (n, lg1)"
    by (cases "resolvePendingViaReceipts True 5 ?rs ?lg")
  obtain d lg2 where 2: "finalizePendingTxs lg1 = (d, lg2)" by (cases "finalizePendingTxs lg1")
  have "txLoggingEnabled ?lg" "map_wf (pendingTxs ?lg)"
    by (simp_all add: recordTxSent_def example_lg_def Let_def)
  from end_of_test_accounting [OF this 1 2] show ?thesis by (simp add: 1 2 Let_def)
qed

end
