(* ===== verification/Worker.thy ===== *)
theory Worker
  imports Tx_Log Nonce_Pool Go_Strings Pipeline
begin

text \<open>
  The sender worker of \<open>internal/loadgen/workers.go\<close>: one goroutine pinned to one account that fills
  batches of at most 20 signed transactions, queues each batch with the sender and reacts to the
  per-transaction results.  The worker is a state machine: every pass of the fill loop, the
  queueing of a batch, every callback, the end of every wait for acknowledgements and every
  asynchronous nonce resync is one step, and a list of events is one interleaving of the
  goroutines involved.  Building, signing and encoding are outside this code: their outcome for a
  nonce is part of the event, like the limiter's answer and the sender's (the interface
  \<open>TxSender\<close> promises no more than a boolean and callbacks).
\<close>

section \<open>Classification of send errors\<close>

record send_err =
  se_text :: string
  se_canceled :: bool

definition isAlreadyKnownTx :: "send_err option \<Rightarrow> bool" where
  "isAlreadyKnownTx err =
     (case err of None \<Rightarrow> False
      | Some e \<Rightarrow> let s = ToLower (se_text e) in
          Contains s ''already known'' \<or> Contains s ''already_exists'')"

definition isNonceTooLow :: "send_err option \<Rightarrow> bool" where
  "isNonceTooLow err =
     (case err of None \<Rightarrow> False
      | Some e \<Rightarrow> let s = ToLower (se_text e) in
          Contains s ''nonce too low'' \<or> Contains s ''nonce has already been used'')"

definition isNonceError :: "send_err option \<Rightarrow> bool" where
  "isNonceError err =
     (case err of None \<Rightarrow> False
      | Some e \<Rightarrow> let s = ToLower (se_text e) in
          Contains s ''nonce too low'' \<or> Contains s ''nonce too high'' \<or>
          Contains s ''invalid nonce'' \<or> Contains s ''nonce has already been used'')"

lemma too_low_is_nonce_error: "isNonceTooLow e \<Longrightarrow> isNonceError e"
  by (auto simp: isNonceTooLow_def isNonceError_def Let_def split: option.splits)

section \<open>Pool sizes\<close>

text \<open>The configuration is \<open>None\<close> for a nil pointer.\<close>

record worker_config =
  L2MaxSenderWorkers :: int
  L2BatchAckTimeout :: int
  L2PipelineBatchDepth :: int

definition senderWorkerPool :: "worker_config option \<Rightarrow> int" where
  "senderWorkerPool cfg =
     (case cfg of Some c \<Rightarrow> if 0 < L2MaxSenderWorkers c then L2MaxSenderWorkers c else 4000 | None \<Rightarrow> 4000)"

definition senderConcurrency :: "worker_config option \<Rightarrow> int" where
  "senderConcurrency cfg = senderWorkerPool cfg * 4"

definition batchAckTimeoutFor :: "worker_config option \<Rightarrow> int" where
  "batchAckTimeoutFor cfg =
     (case cfg of Some c \<Rightarrow> if 0 < L2BatchAckTimeout c then L2BatchAckTimeout c else 30000000000
      | None \<Rightarrow> 30000000000)"

definition pipelineBatchDepth :: "worker_config option \<Rightarrow> int" where
  "pipelineBatchDepth cfg =
     (case cfg of Some c \<Rightarrow> if 1 < L2PipelineBatchDepth c then L2PipelineBatchDepth c else 1 | None \<Rightarrow> 1)"

definition nonceResyncInterval :: int where
  "nonceResyncInterval = 750000000"

section \<open>The worker's state\<close>

text \<open>
  An item of a batch is the reserved handle with the transaction hash its callback captured.  A
  flight is a queued batch: whether a wait for its acknowledgements is still running, and the
  items whose callback has not run.  \<open>w_spent\<close> and \<open>w_lost\<close> are ghosts: the nonces committed, and
  the number of transactions cancelled at shutdown or dropped at capacity.
\<close>

type_synonym item = "nonce_h \<times> hash"

datatype worker_phase = AtTop | Filling | Sending | Awaiting | Exited

record worker = lg_core +
  w_id :: nat
  w_depth :: int
  w_phase :: worker_phase
  w_acc :: account
  w_batch :: "item list"
  w_deadline :: "int option"
  w_flights :: "(bool \<times> item list) list"
  w_spent :: "u64 list"
  w_lost :: nat

datatype prep_error = NoBuilder | BuildFailed | SignFailed | EncodeFailed
datatype wait_answer = Permit | WaitError bool

text \<open>
  The environment's answers in one pass of the fill loop: the stop conditions, the outcome of
  select-type/build/sign/encode for the reserved nonce, what the realistic mode records, the tip
  for the log, the clock, and the limiter's answer (an error carries whether the run's own context
  is cancelled).
\<close>

record fill_input =
  fi_stop :: bool
  fi_prep :: "u64 \<Rightarrow> prep_error + hash"
  fi_realistic :: "(transaction_type \<times> u64 \<times> f64 \<times> f64) option"
  fi_tipGwei :: f64
  fi_now :: int
  fi_wait :: wait_answer

datatype fill_flow = Next | FlushBatch | ExitWorker

definition batchSize :: nat where "batchSize = 20"
definition maxBatchLinger :: int where "maxBatchLinger = 100000000"

definition give_nonce_back :: "nonce_h \<Rightarrow> worker \<Rightarrow> worker" where
  "give_nonce_back n w = w\<lparr>w_acc := snd (Rollback n (w_acc w))\<rparr>"

text \<open>A prepared and permitted transaction joins the batch.  \<open>None\<close> is the tracker's panic.\<close>

definition add_to_batch :: "fill_input \<Rightarrow> nonce_h \<Rightarrow> hash \<Rightarrow> worker \<Rightarrow> worker option" where
  "add_to_batch i n h w0 =
     (let w1 = (if w_batch w0 = [] then w0\<lparr>w_deadline := Some (fi_now i + maxBatchLinger)\<rparr> else w0);
          w2 = (case fi_realistic i of
                  None \<Rightarrow> w1
                | Some (ty, tip, lo, hi) \<Rightarrow>
                    w1\<lparr>metricsCol := RecordTxType ty (Some tip) True
                         (RecordTipWithConfig tip lo hi (metricsCol w1))\<rparr>);
          w3 = w2\<lparr>w_batch := w_batch w2 @ [(n, h)]\<rparr>
      in case RecordTxSent h (fi_now i) (metricsCol w3) of
           None \<Rightarrow> None
         | Some c \<Rightarrow>
             Some (recordTxSent h (fi_now i) (w_id w3) (Value n) (fi_tipGwei i)
               (w3\<lparr>metricsCol := snd (IncTxSent c), lg_pendingCount := lg_pendingCount w3 + 1,
                   lg_recentSends := lg_recentSends w3 + 1\<rparr>)))"

definition fill_step :: "fill_input \<Rightarrow> worker \<Rightarrow> (fill_flow \<times> worker) option" where
  "fill_step i w0 =
     (if fi_stop i then Some (FlushBatch, w0) else
      let (n, a) = ReserveNonce (w_acc w0); w = w0\<lparr>w_acc := a\<rparr> in
      case fi_prep i (Value n) of
        Inl e \<Rightarrow> Some (Next, give_nonce_back n w)
      | Inr h \<Rightarrow>
          (let lingering = (w_batch w \<noteq> [] \<and> w_deadline w \<noteq> None) in
           if lingering \<and> the (w_deadline w) - fi_now i \<le> 0
           then Some (FlushBatch, give_nonce_back n w)
           else case fi_wait i of
                  Permit \<Rightarrow> map_option (Pair Next) (add_to_batch i n h w)
                | WaitError ctxDone \<Rightarrow>
                    Some (if lingering \<and> \<not> ctxDone then FlushBatch else ExitWorker, give_nonce_back n w)))"

section \<open>Callbacks\<close>

text \<open>
  The callback of one item with the send's error, and whether it starts a resync of the account.
\<close>

definition send_callback :: "item \<Rightarrow> send_err option \<Rightarrow> worker \<Rightarrow> bool \<times> worker" where
  "send_callback it err w =
     (case it of (n, h) \<Rightarrow>
        let commit = (\<lambda>w. w\<lparr>w_spent := nvalue n # w_spent w\<rparr>) in
        (case err of
           None \<Rightarrow> (False, commit w)
         | Some e \<Rightarrow>
             if isAlreadyKnownTx err then (False, commit w)
             else if isNonceTooLow err then
               (let w1 = sub_pending (commit w);
                    w2 = w1\<lparr>metricsCol := RecordTxFailed ''send'' (DiscardTx h (metricsCol w1)),
                            lg_recentFails := lg_recentFails w1 + 1\<rparr>
                in (True, w2))
             else
               (let w1 = sub_pending (give_nonce_back n w) in
                if se_canceled e then (False, w1\<lparr>w_lost := w_lost w1 + 1\<rparr>)
                else (isNonceError err,
                      w1\<lparr>metricsCol := RecordTxFailed ''send'' (metricsCol w1),
                         lg_recentFails := lg_recentFails w1 + 1\<rparr>))))"

section \<open>Queueing a batch\<close>

definition awaited :: "worker \<Rightarrow> nat" where
  "awaited w = length (filter fst (w_flights w))"

definition drop_item :: "item \<Rightarrow> worker \<Rightarrow> worker" where
  "drop_item it w =
     (let w1 = sub_pending (give_nonce_back (fst it) w) in w1\<lparr>w_lost := w_lost w1 + 1\<rparr>)"

definition drop_batch :: "worker \<Rightarrow> worker" where
  "drop_batch w = fold drop_item (w_batch w) w"

definition send_batch :: "bool \<Rightarrow> bool \<Rightarrow> worker \<Rightarrow> worker" where
  "send_batch permitHeld queued w =
     (if w_batch w = [] then w\<lparr>w_phase := AtTop\<rparr>
      else if queued then
        w\<lparr>w_flights := w_flights w @ [(w_depth w \<le> 1 \<or> permitHeld, w_batch w)],
          w_batch := [], w_phase := (if w_depth w \<le> 1 then Awaiting else AtTop)\<rparr>
      else (drop_batch w)\<lparr>w_batch := [], w_phase := AtTop\<rparr>)"

text \<open>The end of a wait for acknowledgements; inline waits let the worker continue.\<close>

definition end_wait :: "nat \<Rightarrow> worker \<Rightarrow> worker" where
  "end_wait k w =
     w\<lparr>w_flights := (w_flights w)[k := (False, snd (w_flights w ! k))],
       w_phase := (if w_phase w = Awaiting then AtTop else w_phase w)\<rparr>"

definition resync_account :: "int \<Rightarrow> string + u64 \<Rightarrow> worker \<Rightarrow> worker" where
  "resync_account now r w =
     w\<lparr>w_acc := snd (MaybeResyncFromChain (w_acc w) now nonceResyncInterval r)\<rparr>"

section \<open>The state machine\<close>

datatype worker_event =
    EvTop bool
  | EvFill fill_input
  | EvFull
  | EvSend bool bool
  | EvCallback nat nat "send_err option"
  | EvAcked nat
  | EvAckTimeout nat int "string + u64"
  | EvCtxDone nat
  | EvResync int "string + u64"

text \<open>\<open>None\<close>: the event cannot happen in this state.\<close>

fun worker_step :: "worker_event \<Rightarrow> worker \<Rightarrow> worker option" where
  "worker_step (EvTop stop) w =
     (if w_phase w \<noteq> AtTop then None
      else if stop then Some (w\<lparr>w_phase := Exited\<rparr>)
      else Some (w\<lparr>w_phase := Filling, w_deadline := None\<rparr>))"
| "worker_step (EvFill i) w =
     (if w_phase w \<noteq> Filling \<or> batchSize \<le> length (w_batch w) then None
      else case fill_step i w of
             None \<Rightarrow> None
           | Some (Next, w') \<Rightarrow> Some w'
           | Some (FlushBatch, w') \<Rightarrow> Some (w'\<lparr>w_phase := Sending\<rparr>)
           | Some (ExitWorker, w') \<Rightarrow> Some (w'\<lparr>w_phase := Exited\<rparr>))"
| "worker_step EvFull w =
     (if w_phase w = Filling \<and> batchSize \<le> length (w_batch w) then Some (w\<lparr>w_phase := Sending\<rparr>) else None)"
| "worker_step (EvSend permitHeld queued) w =
     (if w_phase w \<noteq> Sending \<or> (1 < w_depth w \<and> permitHeld \<and> w_depth w \<le> int (awaited w)) then None
      else Some (send_batch permitHeld queued w))"
| "worker_step (EvCallback k j err) w =
     (if k < length (w_flights w) \<and> j < length (snd (w_flights w ! k)) then
        let (aw, its) = w_flights w ! k in
        Some (snd (send_callback (its ! j) err
          (w\<lparr>w_flights := (w_flights w)[k := (aw, remove_nth j its)]\<rparr>)))
      else None)"
| "worker_step (EvAcked k) w =
     (if k < length (w_flights w) \<and> w_flights w ! k = (True, []) then Some (end_wait k w) else None)"
| "worker_step (EvAckTimeout k now r) w =
     (if k < length (w_flights w) \<and> fst (w_flights w ! k)
      then Some (end_wait k (resync_account now r w)) else None)"
| "worker_step (EvCtxDone k) w =
     (if k < length (w_flights w) \<and> fst (w_flights w ! k) then Some (end_wait k w) else None)"
| "worker_step (EvResync now r) w = Some (resync_account now r w)"

fun worker_run :: "worker_event list \<Rightarrow> worker \<Rightarrow> worker option" where
  "worker_run [] w = Some w"
| "worker_run (e # es) w = (case worker_step e w of None \<Rightarrow> None | Some w' \<Rightarrow> worker_run es w')"

section \<open>No nonce is in two places\<close>

definition w_items :: "worker \<Rightarrow> item list" where
  "w_items w = w_batch w @ concat (map snd (w_flights w))"

definition w_out :: "worker \<Rightarrow> u64 list" where
  "w_out w = map (nvalue \<circ> fst) (w_items w) @ w_spent w"

definition worker_inv :: "worker \<Rightarrow> bool" where
  "worker_inv w \<longleftrightarrow> distinct (w_out w) \<and> acc_apart (w_acc w) (set (w_out w)) \<and>
     (\<forall>it \<in> set (w_items w). \<not> committed (fst it))"

text \<open>The invariant sees the account, the items as a multiset and the spent nonces only.\<close>

lemma worker_inv_cong:
  assumes "worker_inv w" "w_acc w' = w_acc w" "mset (w_items w') = mset (w_items w)" "w_spent w' = w_spent w"
  shows "worker_inv w'"
proof -
  have "mset (w_out w') = mset (w_out w)" using assms by (simp add: w_out_def)
  then have "set (w_out w') = set (w_out w)" "distinct (w_out w') = distinct (w_out w)"
    by (metis mset_eq_setD, metis mset_eq_imp_distinct_iff)
  moreover have "set (w_items w') = set (w_items w)" using assms(3) by (rule mset_eq_setD)
  ultimately show ?thesis using assms by (simp add: worker_inv_def)
qed

lemma sub_pending_frame [simp]:
  "w_acc (sub_pending w) = w_acc w" "w_batch (sub_pending w) = w_batch w"
  "w_flights (sub_pending w) = w_flights w" "w_spent (sub_pending w) = w_spent w"
  "w_depth (sub_pending w) = w_depth w" "w_phase (sub_pending w) = w_phase w"
  "w_lost (sub_pending w) = w_lost w" "lg_recentFails (sub_pending w) = lg_recentFails w"
  by (simp_all add: sub_pending_def)

lemma recordTxSent_frame [simp]:
  fixes w :: worker
  shows "w_acc (recordTxSent h t i n g w) = w_acc w" "w_batch (recordTxSent h t i n g w) = w_batch w"
  "w_flights (recordTxSent h t i n g w) = w_flights w" "w_spent (recordTxSent h t i n g w) = w_spent w"
  "w_depth (recordTxSent h t i n g w) = w_depth w" "w_phase (recordTxSent h t i n g w) = w_phase w"
  "w_lost (recordTxSent h t i n g w) = w_lost w" "metricsCol (recordTxSent h t i n g w) = metricsCol w"
  "lg_pendingCount (recordTxSent h t i n g w) = lg_pendingCount w"
  by (simp_all add: recordTxSent_def Let_def)

lemma add_to_batch_frame:
  assumes "add_to_batch i n h w = Some w'"
  shows "w_acc w' = w_acc w" "w_batch w' = w_batch w @ [(n, h)]" "w_flights w' = w_flights w"
    "w_spent w' = w_spent w" "w_depth w' = w_depth w" "w_phase w' = w_phase w"
  using assms by (auto simp: add_to_batch_def Let_def split: option.splits prod.splits if_splits)

lemma give_back_frame [simp]:
  "w_batch (give_nonce_back n w) = w_batch w" "w_flights (give_nonce_back n w) = w_flights w"
  "w_spent (give_nonce_back n w) = w_spent w" "w_depth (give_nonce_back n w) = w_depth w"
  "w_phase (give_nonce_back n w) = w_phase w" "metricsCol (give_nonce_back n w) = metricsCol w"
  "lg_pendingCount (give_nonce_back n w) = lg_pendingCount w"
  "w_lost (give_nonce_back n w) = w_lost w"
  by (simp_all add: give_nonce_back_def)

lemma give_back_acc: "\<not> committed n \<Longrightarrow> w_acc (give_nonce_back n w) = rollback (w_acc w) (nvalue n)"
  by (simp add: give_nonce_back_def Rollback_open)

text \<open>One pass of the fill loop: either the nonce joins the batch or it is back.\<close>

lemma fill_step_cases:
  assumes "fill_step i w = Some (flw, w')"
  obtains (same) "w' = w"
  | (added) n a h where "ReserveNonce (w_acc w) = (n, a)" "w_acc w' = a" "w_batch w' = w_batch w @ [(n, h)]"
      "w_flights w' = w_flights w" "w_spent w' = w_spent w"
      "add_to_batch i n h (w\<lparr>w_acc := a\<rparr>) = Some w'"
  | (returned) n a where "ReserveNonce (w_acc w) = (n, a)" "w' = give_nonce_back n (w\<lparr>w_acc := a\<rparr>)"
proof (cases "fi_stop i")
  case True
  with assms same show ?thesis by (simp add: fill_step_def)
next
  case False
  obtain n a where na: "ReserveNonce (w_acc w) = (n, a)" by (cases "ReserveNonce (w_acc w)")
  let ?w = "w\<lparr>w_acc := a\<rparr>"
  have "w' = give_nonce_back n ?w \<or> (\<exists>h. add_to_batch i n h ?w = Some w')"
    using assms False
    by (auto simp: fill_step_def na Let_def split: sum.splits if_splits wait_answer.splits)
  then show ?thesis
  proof
    assume "w' = give_nonce_back n ?w"
    with na show ?thesis by (rule returned)
  next
    assume "\<exists>h. add_to_batch i n h ?w = Some w'"
    then obtain h where h: "add_to_batch i n h ?w = Some w'" by blast
    from add_to_batch_frame [OF h] show ?thesis by (intro added [OF na _ _ _ _ h]) simp_all
  qed
qed

lemma fill_step_inv:
  assumes inv: "worker_inv w" and room: "0 < acc_room (w_acc w)" and st: "fill_step i w = Some (flw, w')"
  shows "worker_inv w'"
  using st
proof (cases rule: fill_step_cases)
  case same
  then show ?thesis using inv by simp
next
  case (added n a h)
  have ap: "acc_apart (w_acc w) (set (w_out w))" using inv by (simp add: worker_inv_def)
  have "acc_apart a (insert (nvalue n) (set (w_out w)))" "nvalue n \<notin> set (w_out w)" "\<not> committed n"
    using apart.reserve_held [OF ap room] apart.reserve_fresh [OF ap] ReserveNonce_open [of "w_acc w"] added(1)
    by simp_all
  then show ?thesis
    using inv added(2-5) by (simp add: worker_inv_def w_out_def w_items_def)
next
  case (returned n a)
  have ap: "acc_apart (w_acc w) (set (w_out w))" using inv by (simp add: worker_inv_def)
  have "\<not> committed n" using ReserveNonce_open [of "w_acc w"] returned(1) by simp
  then show ?thesis
    using inv apart.reserve_giveback [OF ap room] returned
    by (simp add: worker_inv_def w_out_def w_items_def give_back_acc)
qed

text \<open>Running one callback settles its nonce: spent or back.\<close>

lemma callback_inv:
  assumes "distinct (nvalue n # w_out w)" "acc_apart (w_acc w) (insert (nvalue n) (set (w_out w)))"
    "\<forall>it \<in> set (w_items w). \<not> committed (fst it)" "\<not> committed n"
  shows "worker_inv (snd (send_callback (n, h) err w))"
proof -
  let ?w' = "snd (send_callback (n, h) err w)"
  have items: "w_items ?w' = w_items w"
    by (simp add: send_callback_def Let_def w_items_def split: option.split)
  consider (spent) "w_acc ?w' = w_acc w" "w_spent ?w' = nvalue n # w_spent w"
    | (bck) "w_acc ?w' = rollback (w_acc w) (nvalue n)" "w_spent ?w' = w_spent w"
  proof -
    have "w_acc ?w' = w_acc w \<and> w_spent ?w' = nvalue n # w_spent w \<or>
      w_acc ?w' = rollback (w_acc w) (nvalue n) \<and> w_spent ?w' = w_spent w"
      by (cases err) (simp_all add: send_callback_def Let_def give_back_acc [OF assms(4)])
    then show thesis using that by blast
  qed
  then show ?thesis
  proof cases
    case spent
    then have "set (w_out ?w') = insert (nvalue n) (set (w_out w))" "distinct (w_out ?w')"
      using assms(1) by (auto simp: w_out_def items)
    then show ?thesis using assms spent items by (simp add: worker_inv_def)
  next
    case bck
    then have o: "w_out ?w' = w_out w" by (simp add: w_out_def items)
    have "insert (nvalue n) (set (w_out w)) - {nvalue n} = set (w_out w)" using assms(1) by auto
    then have "acc_apart (rollback (w_acc w) (nvalue n)) (set (w_out w))"
      using apart.giveback_held [OF assms(2), of "nvalue n"] by simp
    then show ?thesis using assms bck items o by (simp add: worker_inv_def)
  qed
qed

lemma mset_concat_update:
  assumes "k < length xs" "j < length (snd (xs ! k))"
  shows "mset (concat (map snd xs)) =
    add_mset (snd (xs ! k) ! j) (mset (concat (map snd (xs[k := (aw, remove_nth j (snd (xs ! k)))]))))"
proof -
  have "mset (concat (map snd xs)) = mset (concat (map snd (take k xs))) + mset (snd (xs ! k))
      + mset (concat (map snd (drop (Suc k) xs)))"
    using arg_cong [OF id_take_nth_drop [OF assms(1)], of "\<lambda>xs. mset (concat (map snd xs))"] by simp
  moreover have "mset (concat (map snd (xs[k := (aw, ys)]))) = mset (concat (map snd (take k xs)))
      + mset ys + mset (concat (map snd (drop (Suc k) xs)))" for ys
    using arg_cong [OF upd_conv_take_nth_drop [OF assms(1)], of "\<lambda>xs. mset (concat (map snd xs))"] by simp
  ultimately show ?thesis using mset_remove_nth [OF assms(2)] by simp
qed

lemma callback_step_inv:
  assumes inv: "worker_inv w" and k: "k < length (w_flights w)" "j < length (snd (w_flights w ! k))"
    and w1: "w1 = w\<lparr>w_flights := (w_flights w)[k := (fst (w_flights w ! k), remove_nth j (snd (w_flights w ! k)))]\<rparr>"
    and it: "snd (w_flights w ! k) ! j = (n, h)"
  shows "worker_inv (snd (send_callback (n, h) err w1))"
proof (rule callback_inv)
  have m: "mset (w_items w) = add_mset (n, h) (mset (w_items w1))"
    using mset_concat_update [OF k, of "fst (w_flights w ! k)"] by (simp add: w_items_def w1 it)
  then have s: "set (w_items w) = insert (n, h) (set (w_items w1))"
    by (metis set_mset_add_mset_insert set_mset_mset)
  have mo: "mset (w_out w) = add_mset (nvalue n) (mset (w_out w1))"
    using m by (simp add: w_out_def w1 image_mset_add_mset)
  then have "mset (w_out w) = mset (nvalue n # w_out w1)" by simp
  then have so: "set (w_out w) = insert (nvalue n) (set (w_out w1))"
    and d: "distinct (w_out w) = distinct (nvalue n # w_out w1)"
    by (metis list.simps(15) mset_eq_setD, metis mset_eq_imp_distinct_iff)
  show "distinct (nvalue n # w_out w1)" using inv d by (simp add: worker_inv_def)
  show "acc_apart (w_acc w1) (insert (nvalue n) (set (w_out w1)))"
    using inv so by (simp add: worker_inv_def w1)
  show "\<forall>it \<in> set (w_items w1). \<not> committed (fst it)" "\<not> committed n"
    using inv s by (auto simp: worker_inv_def)
qed

text \<open>A refused batch gives all its nonces back.\<close>

lemma drop_items_frame:
  "w_flights (fold drop_item its w) = w_flights w \<and> w_spent (fold drop_item its w) = w_spent w \<and>
   w_depth (fold drop_item its w) = w_depth w \<and> w_batch (fold drop_item its w) = w_batch w"
  by (induction its arbitrary: w) (simp_all add: drop_item_def Let_def)

lemma drop_items_acc:
  "\<forall>it \<in> set its. \<not> committed (fst it) \<Longrightarrow>
   w_acc (fold drop_item its w) = foldl rollback (w_acc w) (map (nvalue \<circ> fst) its)"
  by (induction its arbitrary: w) (simp_all add: drop_item_def Let_def give_back_acc)

lemma send_batch_inv:
  assumes inv: "worker_inv w" shows "worker_inv (send_batch permitHeld queued w)"
proof (cases "w_batch w = [] \<or> queued")
  case True
  then show ?thesis
    by (intro worker_inv_cong [OF inv]) (auto simp: send_batch_def w_items_def)
next
  case False
  let ?vs = "map (nvalue \<circ> fst) (w_batch w)"
  let ?w' = "send_batch permitHeld queued w"
  have bt: "\<forall>it \<in> set (w_batch w). \<not> committed (fst it)" using inv by (auto simp: worker_inv_def w_items_def)
  have e: "w_acc ?w' = foldl rollback (w_acc w) ?vs" "w_batch ?w' = []" "w_flights ?w' = w_flights w"
    "w_spent ?w' = w_spent w"
    using False drop_items_frame [of "w_batch w" w] drop_items_acc [OF bt, of w]
    by (simp_all add: send_batch_def drop_batch_def)
  have d: "distinct (w_out w)" "acc_apart (w_acc w) (set (w_out w))" using inv by (simp_all add: worker_inv_def)
  have o: "w_out w = ?vs @ w_out ?w'" by (simp add: w_out_def w_items_def e)
  have "set (w_out w) - set ?vs = set (w_out ?w')" using d(1) unfolding o by auto
  then have "acc_apart (w_acc ?w') (set (w_out ?w'))"
    using apart.giveback_all [OF d(2), of ?vs] d(1) o e(1) by simp
  then show ?thesis
    using d(1) inv o e by (auto simp: worker_inv_def w_items_def)
qed

lemma end_wait_inv: "k < length (w_flights w) \<Longrightarrow> worker_inv w \<Longrightarrow> worker_inv (end_wait k w)"
proof -
  assume k: "k < length (w_flights w)" and inv: "worker_inv w"
  have "map snd (w_flights (end_wait k w)) = map snd (w_flights w)"
    using k by (simp add: end_wait_def map_update) (metis list_update_id nth_map)
  then have "w_items (end_wait k w) = w_items w" by (simp add: w_items_def end_wait_def)
  moreover have "w_acc (end_wait k w) = w_acc w" "w_spent (end_wait k w) = w_spent w"
    by (simp_all add: end_wait_def)
  ultimately show ?thesis using inv by (simp add: worker_inv_def w_out_def)
qed

lemma resync_account_inv: "worker_inv w \<Longrightarrow> worker_inv (resync_account now r w)"
  by (simp add: worker_inv_def resync_account_def w_out_def w_items_def apart_resync)

lemma worker_step_inv:
  assumes inv: "worker_inv w" and room: "0 < acc_room (w_acc w)" and st: "worker_step e w = Some w'"
  shows "worker_inv w'"
proof (cases e)
  case (EvTop stop)
  then show ?thesis using st by (intro worker_inv_cong [OF inv]) (auto simp: w_items_def split: if_splits)
next
  case (EvFill i)
  then obtain flw w1 where "fill_step i w = Some (flw, w1)"
    and w': "w' = w1 \<or> w' = w1\<lparr>w_phase := Sending\<rparr> \<or> w' = w1\<lparr>w_phase := Exited\<rparr>"
    using st by (auto split: if_splits option.splits fill_flow.splits)
  then have "worker_inv w1" using fill_step_inv [OF inv room] by blast
  with w' show ?thesis by (elim worker_inv_cong disjE) (auto simp: w_items_def)
next
  case EvFull
  then show ?thesis using st by (intro worker_inv_cong [OF inv]) (auto simp: w_items_def split: if_splits)
next
  case (EvSend p q)
  then show ?thesis using send_batch_inv [OF inv] st by (auto split: if_splits)
next
  case (EvCallback k j err)
  then have k: "k < length (w_flights w)" "j < length (snd (w_flights w ! k))"
    using st by (auto split: if_splits)
  obtain n h where it: "snd (w_flights w ! k) ! j = (n, h)" by (cases "snd (w_flights w ! k) ! j")
  show ?thesis
    using callback_step_inv [OF inv k refl it, of err] st k EvCallback it by (simp add: split_beta)
next
  case (EvAcked k)
  then show ?thesis using end_wait_inv [OF _ inv] st by (auto split: if_splits)
next
  case (EvAckTimeout k now r)
  then have "k < length (w_flights (resync_account now r w))" "w' = end_wait k (resync_account now r w)"
    using st by (auto simp: resync_account_def split: if_splits)
  then show ?thesis using end_wait_inv resync_account_inv [OF inv] by blast
next
  case (EvCtxDone k)
  then show ?thesis using end_wait_inv [OF _ inv] st by (auto split: if_splits)
next
  case (EvResync now r)
  then show ?thesis using resync_account_inv [OF inv] st by auto
qed

definition worker_init :: "nat \<Rightarrow> int \<Rightarrow> u64 \<Rightarrow> bool \<Rightarrow> worker" where
  "worker_init i depth base logging =
     \<lparr>metricsCol = NewMemoryCollector, lg_pendingCount = 0, lg_recentSends = 0, lg_recentFails = 0,
      lg_recentRevocations = 0, txLoggingEnabled = logging, pendingTxs = [], txLogBuf = [],
      w_id = i, w_depth = depth, w_phase = AtTop, w_acc = SetNonce NewAccount base, w_batch = [],
      w_deadline = None, w_flights = [], w_spent = [], w_lost = 0\<rparr>"

text \<open>The 64-bit counter does not reach its last value along the run.\<close>

fun never_full :: "worker_event list \<Rightarrow> worker \<Rightarrow> bool" where
  "never_full [] w = True"
| "never_full (e # es) w =
     (nonce (w_acc w) \<noteq> - 1 \<and> (case worker_step e w of None \<Rightarrow> True | Some w' \<Rightarrow> never_full es w'))"

lemma worker_run_inv:
  assumes "worker_inv w" "never_full es w" "worker_run es w = Some w'"
  shows "worker_inv w'"
  using assms
proof (induction es arbitrary: w)
  case (Cons e es)
  then obtain w1 where w1: "worker_step e w = Some w1" "worker_run es w1 = Some w'" "never_full es w1"
    by (auto split: option.splits)
  have "0 < acc_room (w_acc w)" using Cons.prems(2) by (simp add: acc_room_pos)
  then show ?case using Cons.IH worker_step_inv [OF Cons.prems(1) _ w1(1)] w1(2,3) by blast
qed simp

lemma worker_init_inv: "worker_inv (worker_init i d b l)"
  by (simp add: worker_inv_def worker_init_def w_out_def w_items_def acc_apart_def SetNonce_def)

text \<open>
  C7: Through every interleaving of filling, queueing, refusals at capacity, callbacks with any
  error, acknowledgement timeouts and in-test resyncs, the nonces of the current batch, of the
  batches in flight and of the committed transactions are pairwise distinct, none of them is in
  the free list, and the next reservation returns none of them: a committed nonce is never
  handed out again.
\<close>
theorem worker_nonces_apart:
  assumes "worker_run es (worker_init i depth base logging) = Some w"
    "never_full es (worker_init i depth base logging)"
  shows "distinct (w_out w) \<and> distinct (freeNonces (w_acc w)) \<and>
    set (w_out w) \<inter> set (freeNonces (w_acc w)) = {} \<and>
    nvalue (fst (ReserveNonce (w_acc w))) \<notin> set (w_out w)"
proof -
  have "worker_inv w" using worker_run_inv [OF worker_init_inv assms(2,1)] .
  then have i: "distinct (w_out w)" "acc_apart (w_acc w) (set (w_out w))" by (simp_all add: worker_inv_def)
  then show ?thesis using apart.reserve_fresh [OF i(2)] by (auto simp: acc_apart_def)
qed

definition example_fill :: "int \<Rightarrow> fill_input" where
  "example_fill now = \<lparr>fi_stop = False, fi_prep = (\<lambda>n. Inr (Suc (unat n))), fi_realistic = None,
     fi_tipGwei = 1, fi_now = now, fi_wait = Permit\<rparr>"

lemma example_record_sent:
  assumes "tracker_inv (txTracker c)" "h \<noteq> 0"
  shows "\<exists>c'. RecordTxSent h t c = Some c' \<and> tracker_inv (txTracker c')"
proof -
  obtain tr where "Set h t (txTracker c) = Some tr"
    using Set_total [of "txTracker c" h t] assms(1) by (auto simp: tracker_inv_def)
  then show ?thesis using Set_inv [OF assms] by (auto simp: RecordTxSent_def)
qed

theorem worker_nonces_apart_witness:
  "\<exists>w. worker_run [EvTop False, EvFill (example_fill 1), EvFill ((example_fill 2)\<lparr>fi_stop := True\<rparr>), EvSend True False, EvTop True]
       (worker_init 0 1 5 False) = Some w \<and> distinct (w_out w) \<and>
     nvalue (fst (ReserveNonce (w_acc w))) \<notin> set (w_out w)"
proof -
  let ?es = "[EvTop False, EvFill (example_fill 1), EvFill ((example_fill 2)\<lparr>fi_stop := True\<rparr>), EvSend True False, EvTop True]"
  have "tracker_inv (txTracker NewMemoryCollector)"
    using collector_new_inv by (simp add: collector_inv_def)
  then obtain c where c: "RecordTxSent 6 1 NewMemoryCollector = Some c"
    using example_record_sent [of NewMemoryCollector 6 1] by auto
  have "\<exists>w. worker_run ?es (worker_init 0 1 5 False) = Some w \<and> never_full ?es (worker_init 0 1 5 False)"
    by (simp add: worker_init_def batchSize_def fill_step_def example_fill_def SetNonce_def NewAccount_def
        ReserveNonce_def Value_def add_to_batch_def c recordTxSent_def send_batch_def drop_batch_def
        drop_item_def give_nonce_back_def Rollback_def swap_committed_def rollback_def sub_pending_def)
  then show ?thesis using worker_nonces_apart [of ?es 0 1 5 False] by blast
qed

section \<open>Batches in flight\<close>

fun plain_event :: "worker_event \<Rightarrow> bool" where
  "plain_event (EvSend permitHeld queued) = permitHeld"
| "plain_event (EvAckTimeout k now r) = False"
| "plain_event (EvCtxDone k) = False"
| "plain_event e = True"

definition depth_inv :: "worker \<Rightarrow> bool" where
  "depth_inv w \<longleftrightarrow> int (awaited w) \<le> max 1 (w_depth w) \<and>
     (\<forall>(aw, its) \<in> set (w_flights w). its \<noteq> [] \<longrightarrow> aw) \<and>
     (w_depth w \<le> 1 \<and> 0 < awaited w \<longrightarrow> w_phase w = Awaiting)"

lemma awaited_update:
  assumes "k < length (w_flights w)"
  shows "length (filter fst ((w_flights w)[k := (b, its)])) + (if fst (w_flights w ! k) then 1 else 0)
     = awaited w + (if b then 1 else 0)"
proof -
  have "length (filter fst xs) = length (filter fst (take k xs)) + (if fst (xs ! k) then 1 else 0)
      + length (filter fst (drop (Suc k) xs))" if "k < length xs" for xs :: "(bool \<times> item list) list"
    using arg_cong [OF id_take_nth_drop [OF that], of "\<lambda>xs. length (filter fst xs)"] by simp
  from this [of "w_flights w"] this [of "(w_flights w)[k := (b, its)]"] assms show ?thesis
    by (simp add: awaited_def)
qed

lemma callback_frame [simp]:
  "w_flights (snd (send_callback it e w)) = w_flights w" "w_depth (snd (send_callback it e w)) = w_depth w"
  "w_phase (snd (send_callback it e w)) = w_phase w" "w_batch (snd (send_callback it e w)) = w_batch w"
  by (cases it; cases e; simp add: send_callback_def Let_def)+

lemma fill_step_frame:
  assumes "fill_step i w = Some (flw, w')"
  shows "w_flights w' = w_flights w" "w_depth w' = w_depth w"
  using assms by (cases rule: fill_step_cases; simp add: add_to_batch_frame)+

lemma drop_batch_frame [simp]:
  "w_flights (drop_batch w) = w_flights w" "w_depth (drop_batch w) = w_depth w"
  using drop_items_frame by (simp_all add: drop_batch_def)

lemma depth_inv_cong:
  "depth_inv w \<Longrightarrow> w_flights w' = w_flights w \<Longrightarrow> w_depth w' = w_depth w \<Longrightarrow>
   w_phase w' = w_phase w \<or> w_phase w \<noteq> Awaiting \<Longrightarrow> depth_inv w'"
  by (auto simp: depth_inv_def awaited_def)

lemma depth_step:
  assumes inv: "depth_inv w" and pl: "plain_event e" and st: "worker_step e w = Some w'"
  shows "depth_inv w' \<and> w_depth w' = w_depth w"
proof (cases e)
  case (EvTop stop)
  then show ?thesis using st by (auto intro!: depth_inv_cong [OF inv] split: if_splits)
next
  case (EvFill i)
  then have ph: "w_phase w = Filling" using st by (auto split: if_splits)
  obtain flw w1 where "fill_step i w = Some (flw, w1)"
    and w': "w' = w1 \<or> w' = w1\<lparr>w_phase := Sending\<rparr> \<or> w' = w1\<lparr>w_phase := Exited\<rparr>"
    using st EvFill by (auto split: if_splits option.splits fill_flow.splits)
  then show ?thesis using fill_step_frame ph by (auto intro!: depth_inv_cong [OF inv])
next
  case EvFull
  then show ?thesis using st by (auto intro!: depth_inv_cong [OF inv] split: if_splits)
next
  case (EvSend p q)
  then have p: p and ph: "w_phase w = Sending" and w': "w' = send_batch True q w"
    and lim: "1 < w_depth w \<Longrightarrow> int (awaited w) < w_depth w"
    using st pl by (auto split: if_splits)
  have z: "awaited w = 0" if "w_depth w \<le> 1" using inv ph that by (auto simp: depth_inv_def)
  show ?thesis
  proof (cases "w_batch w = [] \<or> \<not> q")
    case True
    then show ?thesis unfolding w' using ph
      by (auto simp: send_batch_def intro!: depth_inv_cong [OF inv])
  next
    case False
    have a: "awaited w' = Suc (awaited w)" using False by (simp add: w' send_batch_def awaited_def)
    have f: "w_flights w' = w_flights w @ [(True, w_batch w)]" "w_depth w' = w_depth w"
      "w_depth w \<le> 1 \<Longrightarrow> w_phase w' = Awaiting"
      using False by (auto simp: w' send_batch_def)
    show ?thesis using inv a f z lim by (cases "w_depth w \<le> 1") (auto simp: depth_inv_def)
  qed
next
  case (EvCallback k j err)
  then have k: "k < length (w_flights w)" "j < length (snd (w_flights w ! k))" using st by (auto split: if_splits)
  obtain aw its where kj: "w_flights w ! k = (aw, its)" by (cases "w_flights w ! k")
  have f: "w_flights w' = (w_flights w)[k := (aw, remove_nth j its)]" "w_depth w' = w_depth w" "w_phase w' = w_phase w"
    using st k kj EvCallback by auto
  have aw: aw using inv k kj nth_mem [OF k(1)] by (fastforce simp: depth_inv_def)
  have "awaited w' = awaited w" using awaited_update [OF k(1), of aw "remove_nth j its"] kj f by (simp add: awaited_def)
  moreover have "\<forall>(b, xs) \<in> set (w_flights w'). xs \<noteq> [] \<longrightarrow> b"
    using inv aw set_update_subset_insert [of "w_flights w" k "(aw, remove_nth j its)"]
    by (fastforce simp: depth_inv_def f)
  ultimately show ?thesis using inv f by (simp add: depth_inv_def)
next
  case (EvAcked k)
  then have k: "k < length (w_flights w)" "w_flights w ! k = (True, [])" and w': "w' = end_wait k w"
    using st by (auto split: if_splits)
  have f: "w_flights w' = (w_flights w)[k := (False, [])]" "w_depth w' = w_depth w" by (simp_all add: w' end_wait_def k)
  have a: "awaited w' + 1 = awaited w" using awaited_update [OF k(1), of False "[]"] k(2) f by (simp add: awaited_def)
  moreover have "\<forall>(b, xs) \<in> set (w_flights w'). xs \<noteq> [] \<longrightarrow> b"
    using inv set_update_subset_insert [of "w_flights w" k "(False, [])"] by (fastforce simp: depth_inv_def f)
  ultimately show ?thesis using inv f by (auto simp: depth_inv_def)
next
  case (EvResync now r)
  then show ?thesis using st by (auto simp: resync_account_def intro!: depth_inv_cong [OF inv])
qed (use pl in auto)

text \<open>
  As long as no acknowledgement wait ends early (by its timeout or by shutdown), an account
  never has more batches with unacknowledged transactions in flight than the configured pipeline
  depth, and exactly at most one at the default depth: consecutive nonces of an account
  cannot overtake each other.
\<close>
theorem batches_in_flight_bounded:
  assumes "worker_run es (worker_init i (pipelineBatchDepth cfg) base logging) = Some w"
    "\<forall>e \<in> set es. plain_event e"
  shows "int (length (filter (\<lambda>(aw, its). its \<noteq> []) (w_flights w))) \<le> pipelineBatchDepth cfg"
proof -
  let ?d = "pipelineBatchDepth cfg"
  have d1: "1 \<le> ?d" by (simp add: pipelineBatchDepth_def split: option.split)
  have run: "depth_inv w' \<and> w_depth w' = w_depth v"
    if "worker_run es v = Some w'" "\<forall>e \<in> set es. plain_event e" "depth_inv v" for es v w'
    using that
  proof (induction es arbitrary: v)
    case (Cons e es)
    then obtain v1 where v1: "worker_step e v = Some v1" "worker_run es v1 = Some w'" by (auto split: option.splits)
    have "depth_inv v1 \<and> w_depth v1 = w_depth v" using depth_step [OF Cons.prems(3) _ v1(1)] Cons.prems(2) by simp
    then show ?case using Cons.IH [OF v1(2)] Cons.prems(2) by simp
  qed simp
  have "depth_inv (worker_init i ?d base logging)" using d1 by (simp add: depth_inv_def worker_init_def awaited_def)
  from run [OF assms this] have w: "depth_inv w" "w_depth w = ?d" by (simp_all add: worker_init_def)
  have "length (filter (\<lambda>(aw, its). its \<noteq> []) xs) \<le> length (filter fst xs)"
    if "\<forall>(aw, its) \<in> set xs. its \<noteq> [] \<longrightarrow> aw" for xs :: "(bool \<times> item list) list"
    using that by (induction xs) auto
  from this [of "w_flights w"] w d1 show ?thesis by (auto simp: depth_inv_def awaited_def)
qed

theorem batches_in_flight_bounded_witness:
  "\<exists>w. worker_run [EvTop False, EvFill (example_fill 1), EvFill ((example_fill 2)\<lparr>fi_stop := True\<rparr>), EvSend True True]
       (worker_init 0 (pipelineBatchDepth None) 5 False) = Some w \<and>
     int (length (filter (\<lambda>(aw, its). its \<noteq> []) (w_flights w))) \<le> 1"
proof -
  let ?es = "[EvTop False, EvFill (example_fill 1), EvFill ((example_fill 2)\<lparr>fi_stop := True\<rparr>), EvSend True True]"
  have "tracker_inv (txTracker NewMemoryCollector)"
    using collector_new_inv by (simp add: collector_inv_def)
  then obtain c where c: "RecordTxSent 6 1 NewMemoryCollector = Some c"
    using example_record_sent [of NewMemoryCollector 6 1] by auto
  have "\<exists>w. worker_run ?es (worker_init 0 (pipelineBatchDepth None) 5 False) = Some w"
    by (simp add: worker_init_def batchSize_def fill_step_def example_fill_def SetNonce_def NewAccount_def
        ReserveNonce_def Value_def add_to_batch_def c recordTxSent_def send_batch_def pipelineBatchDepth_def)
  then obtain w where run: "worker_run ?es (worker_init 0 (pipelineBatchDepth None) 5 False) = Some w" by blast
  have "\<forall>e \<in> set ?es. plain_event e" by simp
  moreover have "pipelineBatchDepth None = 1" by (simp add: pipelineBatchDepth_def)
  ultimately show ?thesis using batches_in_flight_bounded [OF run] run by (metis)
qed

end
