(* ===== verification/Worker_Accounting.thy ===== *)
theory Worker_Accounting
  imports Worker
begin

text \<open>
  The counters a worker and its callbacks share with the controller: every transaction counted as
  sent is pending, failed or lost, along every interleaving; and what the counters say about a
  transaction whose submission failed although it reached the chain.
\<close>

section \<open>Sends are pending, failed or lost\<close>

definition counters_ok :: "worker \<Rightarrow> bool" where
  "counters_ok w \<longleftrightarrow>
     int (txSent (metricsCol w)) = lg_pendingCount w + int (txFailed (metricsCol w)) + int (w_lost w) \<and>
     int (length (w_items w)) \<le> lg_pendingCount w \<and> int (txSent (metricsCol w)) < 2 ^ 63"

lemma sub_pending_count:
  assumes "0 < lg_pendingCount w" "lg_pendingCount w < 2 ^ 63"
  shows "lg_pendingCount (sub_pending w) = lg_pendingCount w - 1"
  using assms by (simp add: sub_pending_def sub_new_def wrap64_id is_i64_def)

lemma sub_pending_col [simp]: "metricsCol (sub_pending w) = metricsCol w"
  by (simp add: sub_pending_def)

lemma collector_counts [simp]:
  "txSent (RecordTxType ty tp s c) = txSent c" "txFailed (RecordTxType ty tp s c) = txFailed c"
  "txSent (RecordTipWithConfig tp2 lo hi c) = txSent c" "txFailed (RecordTipWithConfig tp2 lo hi c) = txFailed c"
  "txSent (DiscardTx h c) = txSent c" "txFailed (DiscardTx h c) = txFailed c"
  "txSent (RecordTxFailed cat c) = txSent c" "txFailed (RecordTxFailed cat c) = txFailed c + 1"
  by (simp_all add: RecordTxType_def RecordTipWithConfig_def DiscardTx_def RecordTxFailed_def Let_def)

lemma RecordTxSent_counts:
  "RecordTxSent h t c = Some c' \<Longrightarrow> txSent c' = txSent c \<and> txFailed c' = txFailed c"
  by (auto simp: RecordTxSent_def split: option.splits)

lemma add_to_batch_counts:
  assumes "add_to_batch i n h w = Some w'"
  shows "txSent (metricsCol w') = txSent (metricsCol w) + 1" "txFailed (metricsCol w') = txFailed (metricsCol w)"
    "lg_pendingCount w' = lg_pendingCount w + 1" "w_lost w' = w_lost w"
  using assms
  by (auto simp: add_to_batch_def Let_def IncTxSent_def dest!: RecordTxSent_counts
      split: option.splits prod.splits if_splits)

lemma counters_ok_cong:
  assumes "counters_ok w" "metricsCol w' = metricsCol w" "lg_pendingCount w' = lg_pendingCount w"
    "w_lost w' = w_lost w" "length (w_items w') = length (w_items w)"
  shows "counters_ok w'"
  using assms by (simp add: counters_ok_def)

lemma fill_counts:
  assumes "counters_ok w" "fill_step i w = Some (flw, w')" "int (txSent (metricsCol w)) + 1 < 2 ^ 63"
  shows "counters_ok w' \<and> txSent (metricsCol w') \<le> txSent (metricsCol w) + 1"
  using assms(2)
proof (cases rule: fill_step_cases)
  case same
  then show ?thesis using assms(1) by simp
next
  case (added n a h)
  then show ?thesis using add_to_batch_counts [OF added(6)] assms(1,3) by (simp add: counters_ok_def w_items_def)
next
  case (returned n a)
  then have "counters_ok w'" by (intro counters_ok_cong [OF assms(1)]) (simp_all add: w_items_def)
  then show ?thesis using returned by simp
qed

text \<open>A callback settles one transaction that the pending counter still holds.\<close>

lemma callback_counts:
  assumes "int (txSent (metricsCol w)) = lg_pendingCount w + int (txFailed (metricsCol w)) + int (w_lost w)"
    "int (length (w_items w)) < lg_pendingCount w" "int (txSent (metricsCol w)) < 2 ^ 63"
  shows "counters_ok (snd (send_callback it err w)) \<and>
    txSent (metricsCol (snd (send_callback it err w))) = txSent (metricsCol w)"
proof -
  obtain n h where it: "it = (n, h)" by (cases it)
  have items: "w_items (snd (send_callback it err w)) = w_items w" by (simp add: w_items_def)
  have p: "0 < lg_pendingCount w" "lg_pendingCount w < 2 ^ 63" using assms by linarith+
  have q: "lg_pendingCount (sub_pending (w\<lparr>w_spent := xs\<rparr>)) = lg_pendingCount w - 1"
    "lg_pendingCount (sub_pending (give_nonce_back n w)) = lg_pendingCount w - 1" for xs
    using p by (simp_all add: sub_pending_count)
  show ?thesis
    using assms items q
    by (cases err) (simp_all add: it send_callback_def Let_def counters_ok_def)
qed

lemma drop_items_counts:
  assumes "int (txSent (metricsCol w)) = lg_pendingCount w + int (txFailed (metricsCol w)) + int (w_lost w)"
    "int (length its) \<le> lg_pendingCount w" "int (txSent (metricsCol w)) < 2 ^ 63"
  shows "lg_pendingCount (fold drop_item its w) = lg_pendingCount w - int (length its) \<and>
    w_lost (fold drop_item its w) = w_lost w + length its \<and>
    metricsCol (fold drop_item its w) = metricsCol w"
  using assms
proof (induction its arbitrary: w)
  case (Cons it its)
  have "lg_pendingCount (sub_pending (give_nonce_back (fst it) w)) = lg_pendingCount w - 1"
    using Cons.prems by (simp add: sub_pending_count)
  then have d: "lg_pendingCount (drop_item it w) = lg_pendingCount w - 1" "w_lost (drop_item it w) = w_lost w + 1"
    "metricsCol (drop_item it w) = metricsCol w"
    by (simp_all add: drop_item_def Let_def)
  show ?case using Cons.IH [of "drop_item it w"] Cons.prems d by simp
qed simp

lemma send_batch_counts:
  assumes "counters_ok w"
  shows "counters_ok (send_batch p q w) \<and> metricsCol (send_batch p q w) = metricsCol w"
proof (cases "w_batch w = [] \<or> q")
  case True
  then have f: "metricsCol (send_batch p q w) = metricsCol w" "lg_pendingCount (send_batch p q w) = lg_pendingCount w"
    "w_lost (send_batch p q w) = w_lost w" "length (w_items (send_batch p q w)) = length (w_items w)"
    by (auto simp: send_batch_def w_items_def)
  then show ?thesis using counters_ok_cong [OF assms] by blast
next
  case False
  have c: "int (txSent (metricsCol w)) = lg_pendingCount w + int (txFailed (metricsCol w)) + int (w_lost w)"
    "int (length (w_batch w)) \<le> lg_pendingCount w" "int (txSent (metricsCol w)) < 2 ^ 63"
    using assms by (simp_all add: counters_ok_def w_items_def)
  show ?thesis
    using drop_items_counts [OF c] drop_items_frame [of "w_batch w" w] assms False
    by (simp add: counters_ok_def send_batch_def drop_batch_def w_items_def)
qed

lemma end_wait_items: "k < length (w_flights w) \<Longrightarrow> w_items (end_wait k w) = w_items w"
  by (simp add: w_items_def end_wait_def map_update) (metis list_update_id nth_map)

lemma step_counts:
  assumes ok: "counters_ok w" and room: "int (txSent (metricsCol w)) + 1 < 2 ^ 63" and st: "worker_step e w = Some w'"
  shows "counters_ok w' \<and> txSent (metricsCol w') \<le> txSent (metricsCol w) + 1"
proof (cases e)
  case (EvTop stop)
  then show ?thesis using st ok by (auto simp: counters_ok_def w_items_def split: if_splits)
next
  case (EvFill i)
  obtain flw w1 where f: "fill_step i w = Some (flw, w1)"
    and w': "w' = w1 \<or> w' = w1\<lparr>w_phase := Sending\<rparr> \<or> w' = w1\<lparr>w_phase := Exited\<rparr>"
    using st EvFill by (auto split: if_splits option.splits fill_flow.splits)
  show ?thesis using fill_counts [OF ok f room] w' by (auto simp: counters_ok_def w_items_def)
next
  case EvFull
  then show ?thesis using st ok by (auto simp: counters_ok_def w_items_def split: if_splits)
next
  case (EvSend p q)
  then show ?thesis using send_batch_counts [OF ok, of p q] st by (auto split: if_splits)
next
  case (EvCallback k j err)
  then have k: "k < length (w_flights w)" "j < length (snd (w_flights w ! k))" using st by (auto split: if_splits)
  let ?w1 = "w\<lparr>w_flights := (w_flights w)[k := (fst (w_flights w ! k), remove_nth j (snd (w_flights w ! k)))]\<rparr>"
  have "length (w_items w) = Suc (length (w_items ?w1))"
    using arg_cong [OF mset_concat_update [OF k, of "fst (w_flights w ! k)"], of size] by (simp add: w_items_def)
  then have "int (length (w_items ?w1)) < lg_pendingCount ?w1" using ok by (simp add: counters_ok_def)
  from callback_counts [OF _ this, of "snd (w_flights w ! k) ! j" err] ok k st EvCallback
  show ?thesis by (simp add: counters_ok_def split_beta)
next
  case (EvAcked k)
  then have "k < length (w_flights w)" "w' = end_wait k w" using st by (auto split: if_splits)
  then show ?thesis using end_wait_items ok by (simp add: counters_ok_def) (simp add: end_wait_def)
next
  case (EvAckTimeout k now r)
  then have "k < length (w_flights (resync_account now r w))" "w' = end_wait k (resync_account now r w)"
    using st by (auto simp: resync_account_def split: if_splits)
  then show ?thesis using end_wait_items ok
    by (simp add: counters_ok_def) (simp add: end_wait_def resync_account_def w_items_def)
next
  case (EvCtxDone k)
  then have "k < length (w_flights w)" "w' = end_wait k w" using st by (auto split: if_splits)
  then show ?thesis using end_wait_items ok by (simp add: counters_ok_def) (simp add: end_wait_def)
next
  case (EvResync now r)
  then show ?thesis using st ok by (auto simp: counters_ok_def w_items_def resync_account_def)
qed

lemma run_counts:
  assumes "counters_ok w" "int (txSent (metricsCol w)) + int (length es) < 2 ^ 63" "worker_run es w = Some w'"
  shows "counters_ok w'"
  using assms
proof (induction es arbitrary: w)
  case (Cons e es)
  obtain w1 where w1: "worker_step e w = Some w1" "worker_run es w1 = Some w'"
    using Cons.prems(3) by (auto split: option.splits)
  have "counters_ok w1" "txSent (metricsCol w1) \<le> txSent (metricsCol w) + 1"
    using step_counts [OF Cons.prems(1) _ w1(1)] Cons.prems(2) by simp_all
  then show ?case using Cons.IH w1(2) Cons.prems(2) by simp
qed simp


text \<open>A run in which the send is refused by the node.\<close>

definition refused_run :: "worker_event list" where
  "refused_run = [EvTop False, EvFill (example_fill 1), EvFill ((example_fill 2)\<lparr>fi_stop := True\<rparr>),
     EvSend True True, EvCallback 0 0 (Some \<lparr>se_text = ''insufficient funds'', se_canceled = False\<rparr>)]"

lemma refused_run_exists: "\<exists>w. worker_run refused_run (worker_init 0 1 5 False) = Some w"
proof -
  have "tracker_inv (txTracker NewMemoryCollector)"
    using collector_new_inv by (simp add: collector_inv_def)
  then obtain c where c: "RecordTxSent 6 1 NewMemoryCollector = Some c"
    using example_record_sent [of NewMemoryCollector 6 1] by auto
  show ?thesis
    by (simp add: refused_run_def worker_init_def batchSize_def fill_step_def example_fill_def SetNonce_def
        NewAccount_def ReserveNonce_def Value_def add_to_batch_def c recordTxSent_def send_batch_def)
qed


section \<open>What a callback does to the other counters\<close>

text \<open>The kinds of answers the callback distinguishes.\<close>

datatype send_outcome = Accepted | Spent | Cancelled | Refused

definition outcome_of :: "send_err option \<Rightarrow> send_outcome" where
  "outcome_of err =
     (case err of
        None \<Rightarrow> Accepted
      | Some e \<Rightarrow> if isAlreadyKnownTx err then Accepted
                  else if isNonceTooLow err then Spent
                  else if se_canceled e then Cancelled else Refused)"

lemma callback_tracker:
  "txTracker (metricsCol (snd (send_callback (n, h) err w))) =
     (if outcome_of err = Spent then snd (GetAndDelete h (txTracker (metricsCol w)))
      else txTracker (metricsCol w))"
  by (cases err) (simp_all add: send_callback_def outcome_of_def Let_def DiscardTx_def RecordTxFailed_def)

lemma callback_failed:
  "txFailed (metricsCol (snd (send_callback (n, h) err w))) =
     txFailed (metricsCol w) + (if outcome_of err \<in> {Spent, Refused} then 1 else 0)"
  by (cases err) (simp_all add: send_callback_def outcome_of_def Let_def)

lemma callback_log [simp]: "pendingTxs (snd (send_callback it err w)) = pendingTxs w"
  by (cases it; cases err) (simp_all add: send_callback_def Let_def sub_pending_def give_nonce_back_def)

lemma callback_confirmed [simp]: "txConfirmed (metricsCol (snd (send_callback it err w))) = txConfirmed (metricsCol w)"
  by (cases it; cases err)
    (simp_all add: send_callback_def Let_def give_nonce_back_def DiscardTx_def RecordTxFailed_def)

text \<open>
  A refused send is counted as failed but its hash stays tracked and its log entry stays
  pending, so when the transaction landed after all (an earlier attempt of the retrying client
  reached the chain) the confirmation path counts the same transaction as confirmed as well, and
  otherwise the end of the test counts it as discarded as well.  Only the "nonce too low" answer
  removes the hash from the tracker before it counts the failure.
\<close>
theorem refused_send_stays_tracked:
  assumes "GetTxSentTime h (metricsCol w) = Some t" "w' = snd (send_callback (n, h) err w)"
  shows "txFailed (metricsCol w') = txFailed (metricsCol w) + (if outcome_of err \<in> {Spent, Refused} then 1 else 0)
    \<and> txConfirmed (RecordTxConfirmed h now (metricsCol w')) =
        txConfirmed (metricsCol w) + (if outcome_of err = Spent then 0 else 1)
    \<and> countPendingTxs w' = countPendingTxs w"
proof -
  have t: "Get h (txTracker (metricsCol w)) = Some t" using assms(1) by (simp add: GetTxSentTime_def)
  have "txConfirmed (RecordTxConfirmed h now c) =
      txConfirmed c + (if Get h (txTracker c) = None then 0 else 1)" for c
    by (simp add: RecordTxConfirmed_def GetAndDelete_def Get_def Let_def split: option.splits)
  moreover have "Get h (snd (GetAndDelete h tr)) = None" for tr
    by (simp add: GetAndDelete_def Get_def split: option.splits)
  ultimately show ?thesis
    using t callback_failed [of n h err w]
    by (simp add: assms(2) callback_tracker countPendingTxs_def)
qed

theorem refused_send_stays_tracked_witness:
  "\<exists>w::worker. txFailed (metricsCol w) = 1 \<and> txConfirmed (RecordTxConfirmed 6 9 (metricsCol w)) = 1"
proof -
  have inv: "tracker_inv (txTracker NewMemoryCollector)"
    using collector_new_inv by (simp add: collector_inv_def)
  obtain tr where tr: "Set 6 1 (txTracker NewMemoryCollector) = Some tr"
    using Set_total [of "txTracker NewMemoryCollector" 6 1] inv by (auto simp: tracker_inv_def)
  obtain c where c: "RecordTxSent 6 1 NewMemoryCollector = Some c"
    using example_record_sent [OF inv, of 6 1] by auto
  have z: "txFailed c = 0" "txConfirmed c = 0" "Get 6 (txTracker c) = Some 1"
    using c by (auto simp: RecordTxSent_def NewMemoryCollector_def NewTxTracker_def NewTxTrackerWithSize_def
        Set_def Get_def Let_def split: option.splits if_splits)
  let ?w = "(worker_init 0 1 5 False)\<lparr>metricsCol := c\<rparr>"
  let ?err = "Some \<lparr>se_text = ''insufficient funds'', se_canceled = False\<rparr>"
  have o: "outcome_of ?err = Refused" by (simp add: outcome_of_def isAlreadyKnownTx_def isNonceTooLow_def
      Contains.simps ToLower_def lower_char_def)
  have "GetTxSentTime 6 (metricsCol ?w) = Some 1" using z by (simp add: GetTxSentTime_def)
  from refused_send_stays_tracked [OF this refl, of "\<lparr>nvalue = 5, committed = False\<rparr>" ?err 9] z o
  show ?thesis by (intro exI [of _ "snd (send_callback (\<lparr>nvalue = 5, committed = False\<rparr>, 6) ?err ?w)"]) simp
qed

end
