(* ===== verification/Nonce_Healer.thy ===== *)
theory Nonce_Healer
  imports Go_Strings
begin

text \<open>
  \<open>internal/noncehealer/healer.go\<close>: one poll of the nonce gap healer.  The replies of the two RPC
  clients, address parsing, signing and encoding are outside the package: \<open>parse_addr\<close> is
  \<open>HexToAddress\<close>, \<open>onChain\<close> the confirmed nonce (\<open>None\<close> on an error), \<open>sign\<close> signs and encodes the
  self-transfer of an address with a nonce, \<open>accept\<close> tells for each transaction of a batch whether
  its error was nil, \<open>ctxErr k\<close> whether the context is done at the \<open>k\<close>-th check.
\<close>

text \<open>\<open>strconv.ParseUint(s, 10, 64)\<close>.\<close>

definition is_digit :: "char \<Rightarrow> bool" where
  "is_digit c = (let n = of_char c :: nat in 48 \<le> n \<and> n \<le> 57)"

definition digits_value :: "string \<Rightarrow> nat" where
  "digits_value s = foldl (\<lambda>v c. v * 10 + (of_char c - 48)) 0 s"

definition ParseUint :: "string \<Rightarrow> u64 option" where
  "ParseUint s =
     (if s \<noteq> [] \<and> list_all is_digit s \<and> digits_value s < 2 ^ 64
      then Some (of_nat (digits_value s)) else None)"

record healer_config =
  PollInterval :: int
  MaxGapSize :: int
  BatchSize :: int

record healer =
  hl_cfg :: healer_config
  addrToAccount :: "addr set"
  totalHealed :: u64

definition NewHealer :: "healer_config \<Rightarrow> addr list \<Rightarrow> healer" where
  "NewHealer cfg accounts =
     \<lparr>hl_cfg = cfg\<lparr>PollInterval := (if PollInterval cfg = 0 then 2000000000 else PollInterval cfg),
                  MaxGapSize := (if MaxGapSize cfg = 0 then 2000 else MaxGapSize cfg),
                  BatchSize := (if BatchSize cfg = 0 then 200 else BatchSize cfg)\<rparr>,
      addrToAccount = set accounts, totalHealed = 0\<rparr>"

record gap_info =
  gi_addr :: addr
  gi_onChain :: u64
  gi_lowestQ :: u64
  gi_gapSize :: int

section \<open>Detecting gaps\<close>

text \<open>The smallest parsable queued nonce, scanning as the loop does.\<close>

fun lowest_queued :: "string list \<Rightarrow> u64 option \<Rightarrow> u64 option" where
  "lowest_queued [] low = low"
| "lowest_queued (s # ss) low =
     (case ParseUint s of
        None \<Rightarrow> lowest_queued ss low
      | Some n \<Rightarrow> lowest_queued ss
          (case low of None \<Rightarrow> Some n | Some l \<Rightarrow> if n < l then Some n else Some l))"

type_synonym candidate = "addr \<times> u64"

fun candidates :: "(string \<Rightarrow> addr) \<Rightarrow> addr set \<Rightarrow> (string \<times> string list) list \<Rightarrow> candidate list" where
  "candidates parse_addr known [] = []"
| "candidates parse_addr known ((addrHex, nonces) # rest) =
     (let a = parse_addr addrHex in
      if a \<notin> known then candidates parse_addr known rest
      else case lowest_queued nonces None of
             None \<Rightarrow> candidates parse_addr known rest
           | Some low \<Rightarrow> (a, low) # candidates parse_addr known rest)"

text \<open>\<open>None\<close>: the context was done and everything found so far is dropped.\<close>

fun find_gaps :: "(addr \<Rightarrow> u64 option) \<Rightarrow> (nat \<Rightarrow> bool) \<Rightarrow> nat \<Rightarrow> candidate list \<Rightarrow> gap_info list option" where
  "find_gaps onChain ctxErr k [] = Some []"
| "find_gaps onChain ctxErr k ((a, low) # cs) =
     (if ctxErr k then None
      else case onChain a of
             None \<Rightarrow> find_gaps onChain ctxErr (k + 1) cs
           | Some oc \<Rightarrow>
               if oc < low
               then map_option (\<lambda>gs. \<lparr>gi_addr = a, gi_onChain = oc, gi_lowestQ = low,
                      gi_gapSize = sint (low - oc)\<rparr> # gs) (find_gaps onChain ctxErr (k + 1) cs)
               else find_gaps onChain ctxErr (k + 1) cs)"

text \<open>\<open>content = None\<close>: the call or the decoding failed.\<close>

definition detectGaps ::
  "(string \<Rightarrow> addr) \<Rightarrow> (addr \<Rightarrow> u64 option) \<Rightarrow> (nat \<Rightarrow> bool) \<Rightarrow> (string \<times> string list) list option \<Rightarrow>
   healer \<Rightarrow> gap_info list" where
  "detectGaps parse_addr onChain ctxErr content h =
     (case content of
        None \<Rightarrow> []
      | Some queued \<Rightarrow>
          (case find_gaps onChain ctxErr 0 (candidates parse_addr (addrToAccount h) queued) of
             None \<Rightarrow> [] | Some gs \<Rightarrow> gs))"

section \<open>Filling a gap\<close>

definition gap_nonces :: "u64 \<Rightarrow> int \<Rightarrow> u64 list" where
  "gap_nonces oc cnt = map (\<lambda>i. oc + of_nat i) [0..<nat cnt]"

text \<open>
  The batches submitted and the number accepted.  With a negative batch size the first slice
  expression panics (\<open>None\<close>).
\<close>

definition fillGap ::
  "(addr \<Rightarrow> u64 \<Rightarrow> 'd option) \<Rightarrow> ('d list \<Rightarrow> bool list) \<Rightarrow> healer_config \<Rightarrow> gap_info \<Rightarrow> ('d list list \<times> nat) option" where
  "fillGap sign accept cfg g =
     (let cnt = (if MaxGapSize cfg < gi_gapSize g then MaxGapSize cfg else gi_gapSize g);
          rawTXs = List.map_filter (sign (gi_addr g)) (gap_nonces (gi_onChain g) cnt)
      in if rawTXs = [] then Some ([], 0)
         else if BatchSize cfg < 0 then None
         else let bs = batches_of (nat (BatchSize cfg)) rawTXs
              in Some (bs, sum_list (map (\<lambda>b. length (filter id (accept b))) bs)))"

fun heal_loop ::
  "(addr \<Rightarrow> u64 \<Rightarrow> 'd option) \<Rightarrow> ('d list \<Rightarrow> bool list) \<Rightarrow> (nat \<Rightarrow> bool) \<Rightarrow> nat \<Rightarrow> gap_info list \<Rightarrow> healer \<Rightarrow>
   ((addr \<times> 'd list list) list \<times> healer) option" where
  "heal_loop sign accept ctxErr k [] h = Some ([], h)"
| "heal_loop sign accept ctxErr k (g # gs) h =
     (if ctxErr k then Some ([], h)
      else if MaxGapSize (hl_cfg h) < gi_gapSize g then heal_loop sign accept ctxErr (k + 1) gs h
      else case fillGap sign accept (hl_cfg h) g of
             None \<Rightarrow> None
           | Some (bs, sent) \<Rightarrow>
               map_option (\<lambda>(log, h'). ((gi_addr g, bs) # log, h'))
                 (heal_loop sign accept ctxErr (k + 1) gs (h\<lparr>totalHealed := totalHealed h + of_nat sent\<rparr>)))"

definition healOnce ::
  "(string \<Rightarrow> addr) \<Rightarrow> (addr \<Rightarrow> u64 option) \<Rightarrow> (addr \<Rightarrow> u64 \<Rightarrow> 'd option) \<Rightarrow> ('d list \<Rightarrow> bool list) \<Rightarrow>
   (nat \<Rightarrow> bool) \<Rightarrow> (nat \<Rightarrow> bool) \<Rightarrow> (string \<times> string list) list option \<Rightarrow> healer \<Rightarrow>
   ((addr \<times> 'd list list) list \<times> healer) option" where
  "healOnce parse_addr onChain sign accept ctxErr1 ctxErr2 content h =
     heal_loop sign accept ctxErr2 0 (detectGaps parse_addr onChain ctxErr1 content h) h"

section \<open>What a poll submits\<close>

lemma lowest_queued_le:
  assumes "lowest_queued ss low = Some m"
  shows "(\<forall>s \<in> set ss. \<forall>n. ParseUint s = Some n \<longrightarrow> m \<le> n) \<and> (\<forall>l. low = Some l \<longrightarrow> m \<le> l)"
  using assms
proof (induction ss arbitrary: low)
  case (Cons s ss)
  show ?case
  proof (cases "ParseUint s")
    case None
    then show ?thesis using Cons by auto
  next
    case (Some n)
    let ?low = "case low of None \<Rightarrow> Some n | Some l \<Rightarrow> if n < l then Some n else Some l"
    have "\<exists>l'. ?low = Some l' \<and> l' \<le> n \<and> (\<forall>l. low = Some l \<longrightarrow> l' \<le> l)"
      by (cases low) (auto simp: not_less)
    then obtain l' where l': "?low = Some l'" "l' \<le> n" "\<forall>l. low = Some l \<longrightarrow> l' \<le> l" by blast
    have "\<forall>s \<in> set ss. \<forall>n. ParseUint s = Some n \<longrightarrow> m \<le> n" "m \<le> l'"
      using Cons.IH [of ?low] Cons.prems Some l'(1) by simp_all
    then show ?thesis using l'(2,3) Some by (auto intro: order_trans)
  qed
qed simp

lemma lowest_queued_in:
  "lowest_queued ss low = Some m \<Longrightarrow> low = Some m \<or> (\<exists>s \<in> set ss. ParseUint s = Some m)"
proof (induction ss arbitrary: low)
  case (Cons s ss)
  show ?case
  proof (cases "ParseUint s")
    case None
    then show ?thesis using Cons by auto
  next
    case (Some n)
    let ?low = "case low of None \<Rightarrow> Some n | Some l \<Rightarrow> if n < l then Some n else Some l"
    have "?low = Some m \<or> (\<exists>s \<in> set ss. ParseUint s = Some m)" using Cons.IH [of ?low] Cons.prems Some by simp
    then show ?thesis using Some by (auto split: option.splits if_splits)
  qed
qed simp

text \<open>A gap is known, really missing, and ends below every queued nonce of its entry.\<close>

definition entry_gap ::
  "(string \<Rightarrow> addr) \<Rightarrow> (addr \<Rightarrow> u64 option) \<Rightarrow> string \<times> string list \<Rightarrow> gap_info \<Rightarrow> bool" where
  "entry_gap parse_addr onChain e g \<longleftrightarrow>
     gi_addr g = parse_addr (fst e) \<and> onChain (gi_addr g) = Some (gi_onChain g) \<and>
     gi_onChain g < gi_lowestQ g \<and> gi_gapSize g = sint (gi_lowestQ g - gi_onChain g) \<and>
     (\<exists>s \<in> set (snd e). ParseUint s = Some (gi_lowestQ g)) \<and>
     (\<forall>s \<in> set (snd e). \<forall>n. ParseUint s = Some n \<longrightarrow> gi_lowestQ g \<le> n)"

lemma candidates_mem:
  "(a, low) \<in> set (candidates parse_addr known q) \<longleftrightarrow>
     (\<exists>e \<in> set q. a = parse_addr (fst e) \<and> a \<in> known \<and> lowest_queued (snd e) None = Some low)"
  by (induction parse_addr known q rule: candidates.induct)
    (auto simp: Let_def split: option.splits)

lemma find_gaps_mem:
  assumes "find_gaps onChain ctxErr k cs = Some gs"
  shows "g \<in> set gs \<longleftrightarrow> (\<exists>a low oc. (a, low) \<in> set cs \<and> onChain a = Some oc \<and> oc < low \<and>
     g = \<lparr>gi_addr = a, gi_onChain = oc, gi_lowestQ = low, gi_gapSize = sint (low - oc)\<rparr>)"
  using assms
  by (induction onChain ctxErr k cs arbitrary: gs rule: find_gaps.induct)
    (auto split: option.splits if_splits)

lemma detected_gap:
  assumes "g \<in> set (detectGaps parse_addr onChain ctxErr (Some q) h)"
  shows "gi_addr g \<in> addrToAccount h \<and> (\<exists>e \<in> set q. entry_gap parse_addr onChain e g)"
proof -
  obtain gs where gs: "find_gaps onChain ctxErr 0 (candidates parse_addr (addrToAccount h) q) = Some gs" "g \<in> set gs"
    using assms by (cases "find_gaps onChain ctxErr 0 (candidates parse_addr (addrToAccount h) q)")
      (simp_all add: detectGaps_def)
  then obtain a low oc where m: "(a, low) \<in> set (candidates parse_addr (addrToAccount h) q)" "onChain a = Some oc"
    "oc < low" "g = \<lparr>gi_addr = a, gi_onChain = oc, gi_lowestQ = low, gi_gapSize = sint (low - oc)\<rparr>"
    using find_gaps_mem [OF gs(1), of g] by auto
  then obtain e where e: "e \<in> set q" "a = parse_addr (fst e)" "a \<in> addrToAccount h" "lowest_queued (snd e) None = Some low"
    by (auto simp: candidates_mem)
  then show ?thesis
    using m lowest_queued_le [OF e(4)] lowest_queued_in [OF e(4)] by (auto simp: entry_gap_def)
qed

text \<open>The nonces of a gap are all those from the chain's up to the lowest queued one.\<close>

lemma gap_nonces_range:
  assumes "oc < low" "0 \<le> sint (low - oc)"
  shows "set (gap_nonces oc (sint (low - oc))) = {oc..<low}" "distinct (gap_nonces oc (sint (low - oc)))"
proof -
  have "sint (low - oc) < 2 ^ 64" using sint_lt [of "low - oc"] by simp
  then have "uint (low - oc) = sint (low - oc)" using assms(2) by (simp add: uint_sint take_bit_int_eq_self)
  then have s: "nat (sint (low - oc)) = unat (low - oc)" unfolding unat_eq_nat_uint by simp
  have le: "unat oc < unat low" using assms(1) by (simp add: word_less_nat_alt)
  then have d: "unat (low - oc) = unat low - unat oc" by (simp add: unat_sub word_le_nat_alt)
  have v: "unat (oc + of_nat i) = unat oc + i" if "i < unat (low - oc)" for i
  proof -
    have "unat low < 2 ^ 64" by (rule order_less_le_trans [OF unsigned_less]) simp
    then have "unat oc + i < 2 ^ 64" using that d le by simp
    then show ?thesis by (simp add: unat_word_ariths unat_of_nat)
  qed
  have mem: "x \<in> set (gap_nonces oc (sint (low - oc))) \<longleftrightarrow> oc \<le> x \<and> x < low" for x
  proof
    assume "x \<in> set (gap_nonces oc (sint (low - oc)))"
    then obtain i where "i < unat (low - oc)" "x = oc + of_nat i" by (auto simp: gap_nonces_def s)
    then show "oc \<le> x \<and> x < low" using v [of i] d le by (simp add: word_le_nat_alt word_less_nat_alt)
  next
    assume x: "oc \<le> x \<and> x < low"
    then have "unat oc \<le> unat x" "unat x < unat low" by (simp_all add: word_le_nat_alt word_less_nat_alt)
    then have "unat x - unat oc < unat (low - oc)" unfolding d by (intro diff_less_mono)
    moreover have "x = oc + of_nat (unat x - unat oc)"
      unfolding word_unat_eq_iff using v [OF calculation] x by (simp add: word_le_nat_alt)
    ultimately show "x \<in> set (gap_nonces oc (sint (low - oc)))" by (auto simp: gap_nonces_def s)
  qed
  then show "set (gap_nonces oc (sint (low - oc))) = {oc..<low}"
    by (intro set_eqI) (simp only: atLeastLessThan_iff)
  have "inj_on (\<lambda>i. oc + of_nat i) {0..<unat (low - oc)}"
  proof (rule inj_onI)
    fix i j assume "i \<in> {0..<unat (low - oc)}" "j \<in> {0..<unat (low - oc)}" "oc + of_nat i = oc + of_nat j"
    then have "unat oc + i = unat oc + j" using v [of i] v [of j] by (metis atLeastLessThan_iff)
    then show "i = j" by simp
  qed
  then show "distinct (gap_nonces oc (sint (low - oc)))" by (simp add: gap_nonces_def s distinct_map)
qed

lemma sint_small_diff:
  assumes "oc < low" "low < 2 ^ 63" shows "0 \<le> sint (low - oc :: u64)"
proof -
  have "unat low < 2 ^ 63" using assms(2) by (simp add: word_less_nat_alt)
  moreover have "unat (low - oc) = unat low - unat oc" using assms(1) by (simp add: unat_sub order_less_imp_le)
  ultimately have "unat (low - oc) < 2 ^ 63" by simp
  then have "int (unat (low - oc)) < int (2 ^ 63)" by (simp only: of_nat_less_iff)
  then have "uint (low - oc) < 2 ^ 63" unfolding uint_nat by simp
  moreover have "- (2 ^ 63) \<le> uint (low - oc)" by (rule order_trans [OF _ uint_ge_0]) simp
  ultimately have "sint (low - oc) = uint (low - oc)" unfolding sint_uint by (intro signed_take_bit_int_eq_self) simp_all
  then show ?thesis by (metis uint_ge_0)
qed

lemma map_filter_Some: "List.map_filter (\<lambda>x. Some (f x)) xs = map f xs"
  by (simp add: List.map_filter_def comp_def)

lemma fillGap_batches:
  assumes "gi_gapSize g \<le> MaxGapSize cfg" "0 < BatchSize cfg"
  shows "\<exists>bs sent. fillGap (\<lambda>a n. Some (f a n)) accept cfg g = Some (bs, sent) \<and>
    concat bs = map (f (gi_addr g)) (gap_nonces (gi_onChain g) (gi_gapSize g)) \<and>
    (\<forall>b \<in> set bs. int (length b) \<le> BatchSize cfg)"
proof -
  let ?raw = "map (f (gi_addr g)) (gap_nonces (gi_onChain g) (gi_gapSize g))"
  have "int (length b) \<le> BatchSize cfg" if "b \<in> set (batches_of (nat (BatchSize cfg)) ?raw)" for b
    using batches_of_length [OF that] assms(2) by linarith
  then show ?thesis
    using assms batches_of_concat [of "nat (BatchSize cfg)" ?raw]
    by (cases "?raw = []") (auto simp: fillGap_def map_filter_Some Let_def)
qed

lemma heal_loop_log:
  assumes "\<forall>k. \<not> ctxErr k" "0 < BatchSize (hl_cfg h)"
  shows "\<exists>log h'. heal_loop (\<lambda>a n. Some (f a n)) accept ctxErr k gs h = Some (log, h') \<and>
    list_all2 (\<lambda>g (a, bs). a = gi_addr g \<and>
        concat bs = map (f a) (gap_nonces (gi_onChain g) (gi_gapSize g)) \<and>
        (\<forall>b \<in> set bs. int (length b) \<le> BatchSize (hl_cfg h)))
      (filter (\<lambda>g. gi_gapSize g \<le> MaxGapSize (hl_cfg h)) gs) log"
  using assms(2)
proof (induction gs arbitrary: h k)
  case (Cons g gs)
  show ?case
  proof (cases "gi_gapSize g \<le> MaxGapSize (hl_cfg h)")
    case True
    obtain bs sent where b: "fillGap (\<lambda>a n. Some (f a n)) accept (hl_cfg h) g = Some (bs, sent)"
      "concat bs = map (f (gi_addr g)) (gap_nonces (gi_onChain g) (gi_gapSize g))"
      "\<forall>b \<in> set bs. int (length b) \<le> BatchSize (hl_cfg h)"
      using fillGap_batches [OF True Cons.prems] by blast
    show ?thesis
      using Cons.IH [of "h\<lparr>totalHealed := totalHealed h + of_nat sent\<rparr>" "k + 1"] Cons.prems True b assms(1)
      by fastforce
  next
    case False
    then show ?thesis using Cons.IH [of h "k + 1"] Cons.prems assms(1) by simp
  qed
qed simp



end
