(* ===== verification/Read_Load.thy ===== *)
theory Read_Load
  imports Rate_Limiter Latency Types Go_Strings
begin

text \<open>
  \<open>internal/readload/readload.go\<close>: the read-load engine.  Configuration and defaults, the weighted
  choice of a method, the choice of blocks and log ranges, one read of a worker with its counters,
  the capability probe, stopping and the snapshot.  \<open>rnd.IntN(n)\<close> is \<open>int_n n r\<close> for an arbitrary
  number \<open>r\<close>; a block number is a 64-bit word and \<open>int(x)\<close> of it is its signed value.  The RPC
  client is outside: its answers are arguments.
\<close>

definition int_n :: "int \<Rightarrow> int \<Rightarrow> int option" where
  "int_n n r = (if n \<le> 0 then None else Some (r mod n))"

section \<open>Configuration\<close>

datatype read_config_error =
    BadTargetRPS int | BadMixSum int | BadShare string int | BadBlockSelection
  | NegativeBlockWindow int | NegativeLogsRange int | BadArchiveDepth int | NegativeConcurrency int
  | LogsRangeAboveWindow int int

definition mix_table :: "read_mix \<Rightarrow> (string \<times> int) list" where
  "mix_table m = [(''ethCall'', EthCall m), (''getBalance'', GetBalance m), (''getLogs'', GetLogs m),
     (''getBlockByNumber'', GetBlockByNumber m), (''getReceipt'', GetReceipt m)]"

text \<open>The first offending share in the order of the literal; Go's map order may name another.\<close>

definition read_Validate :: "read_load_config \<Rightarrow> read_config_error option" where
  "read_Validate cfg =
     (if \<not> rl_Enabled cfg then None
      else if rl_TargetRPS cfg \<le> 0 then Some (BadTargetRPS (rl_TargetRPS cfg))
      else if mix_Sum (rl_Mix cfg) \<noteq> 100 then Some (BadMixSum (mix_Sum (rl_Mix cfg)))
      else case filter (\<lambda>(name, v). v < 0 \<or> 100 < v) (mix_table (rl_Mix cfg)) of
        (name, v) # _ \<Rightarrow> Some (BadShare name v)
      | [] \<Rightarrow>
          if (case rl_BlockSelection cfg of ReadBlockOther s \<Rightarrow> True | _ \<Rightarrow> False) then Some BadBlockSelection
          else if rl_BlockWindow cfg < 0 then Some (NegativeBlockWindow (rl_BlockWindow cfg))
          else if rl_LogsRangeBlocks cfg < 0 then Some (NegativeLogsRange (rl_LogsRangeBlocks cfg))
          else if rl_ArchiveDepthPct cfg < 0 \<or> 100 < rl_ArchiveDepthPct cfg
            then Some (BadArchiveDepth (rl_ArchiveDepthPct cfg))
          else if rl_Concurrency cfg < 0 then Some (NegativeConcurrency (rl_Concurrency cfg))
          else if 0 < rl_BlockWindow cfg \<and> rl_BlockWindow cfg < rl_LogsRangeBlocks cfg \<and>
                  rl_BlockSelection cfg \<noteq> ReadBlockArchive
            then Some (LogsRangeAboveWindow (rl_LogsRangeBlocks cfg) (rl_BlockWindow cfg))
          else None)"

definition withDefaults :: "read_load_config \<Rightarrow> read_load_config" where
  "withDefaults cfg =
     cfg\<lparr>rl_BlockSelection := (if rl_BlockSelection cfg = ReadBlockUnset then ReadBlockRecent else rl_BlockSelection cfg),
         rl_BlockWindow := (if rl_BlockWindow cfg \<le> 0 then 64 else rl_BlockWindow cfg),
         rl_LogsRangeBlocks := (if rl_LogsRangeBlocks cfg \<le> 0 then 16 else rl_LogsRangeBlocks cfg),
         rl_ArchiveDepthPct := (if rl_ArchiveDepthPct cfg \<le> 0 then 100 else rl_ArchiveDepthPct cfg)\<rparr>"

definition RequireArchive :: "read_load_config \<Rightarrow> bool" where
  "RequireArchive cfg =
     (case rl_RequireArchive cfg of Some b \<Rightarrow> b | None \<Rightarrow> rl_BlockSelection cfg = ReadBlockArchive)"

definition isStateUnavailable :: "string option \<Rightarrow> bool" where
  "isStateUnavailable err =
     (case err of None \<Rightarrow> False
      | Some e \<Rightarrow> list_ex (Contains (ToLower e))
          [''missing trie node'', ''state not available'', ''state is not available'',
           ''state unavailable'', ''header not found'', ''block not found'', ''pruned'',
           ''not found in the database'', ''no state available''])"

section \<open>The engine\<close>

record method_stats =
  ms_count :: nat
  ms_errors :: nat
  ms_lat :: latency_stats

record engine =
  e_cfg :: read_load_config
  e_Addresses :: "addr list"
  e_ERC20 :: addr
  e_limiter :: limiter
  e_concurrency :: int
  picker :: "(read_method \<times> int) list"
  e_stats :: "(read_method, method_stats) gomap"
  pooledLat :: latency_stats
  e_sent :: nat
  e_errs :: nat
  e_skips :: nat
  e_closed :: bool
  cachedHead :: u64
  archiveTarget :: bool
  e_startTime :: "int option"
  e_elapsed :: int

datatype new_error =
    BadConfig read_config_error | NilClient | NilHeadBlock | NoAddresses | NoERC20 | NilTxHash

text \<open>The cumulative-weight table, from a given running total.\<close>

fun picker_from :: "int \<Rightarrow> (read_method \<times> int) list \<Rightarrow> (read_method \<times> int) list" where
  "picker_from cum [] = []"
| "picker_from cum ((m, share) # ms) =
     (if share \<le> 0 then picker_from cum ms else (m, cum + share) # picker_from (cum + share) ms)"

definition mix_methods :: "read_mix \<Rightarrow> (read_method \<times> int) list" where
  "mix_methods m = [(ReadMethodCall, EthCall m), (ReadMethodGetBalance, GetBalance m),
     (ReadMethodGetLogs, GetLogs m), (ReadMethodGetBlock, GetBlockByNumber m), (ReadMethodGetReceipt, GetReceipt m)]"

definition concurrency_of :: "read_load_config \<Rightarrow> int" where
  "concurrency_of cfg =
     (let c = (if rl_Concurrency cfg \<le> 0
               then f64_trunc (fmul (f64_of_int (rl_TargetRPS cfg)) (fl (5/100))) else rl_Concurrency cfg);
          c1 = (if c < 8 then 8 else c)
      in if 2048 < c1 then 2048 else c1)"

text \<open>The zero address is the empty string here; the flags tell which function values are nil.\<close>

definition NewEngine ::
  "bool \<Rightarrow> bool \<Rightarrow> bool \<Rightarrow> read_load_config \<Rightarrow> addr list \<Rightarrow> addr \<Rightarrow> int \<Rightarrow> new_error + engine" where
  "NewEngine nilClient nilHead nilTxHash cfg addresses erc20 now =
     (case read_Validate cfg of
        Some e \<Rightarrow> Inl (BadConfig e)
      | None \<Rightarrow>
          if nilClient then Inl NilClient
          else if nilHead then Inl NilHeadBlock
          else if addresses = [] then Inl NoAddresses
          else if (0 < EthCall (rl_Mix cfg) \<or> 0 < GetLogs (rl_Mix cfg)) \<and> erc20 = [] then Inl NoERC20
          else if 0 < GetReceipt (rl_Mix cfg) \<and> nilTxHash then Inl NilTxHash
          else let c = withDefaults cfg; p = picker_from 0 (mix_methods (rl_Mix cfg)) in
            Inr \<lparr>e_cfg = c, e_Addresses = addresses, e_ERC20 = erc20,
                 e_limiter = NewLimiter (f64_of_int (rl_TargetRPS c)) now, e_concurrency = concurrency_of c,
                 picker = p,
                 e_stats = map (\<lambda>(m, _). (m, \<lparr>ms_count = 0, ms_errors = 0, ms_lat = NewStreamingLatencyStats\<rparr>)) p,
                 pooledLat = NewStreamingLatencyStats, e_sent = 0, e_errs = 0, e_skips = 0, e_closed = False,
                 cachedHead = 0, archiveTarget = False, e_startTime = None, e_elapsed = 0\<rparr>)"

section \<open>Building one read\<close>

fun pick_from :: "(read_method \<times> int) list \<Rightarrow> int \<Rightarrow> read_method option" where
  "pick_from [] roll = None"
| "pick_from ((m, cum) # ws) roll = (if roll < cum then Some m else pick_from ws roll)"

text \<open>Past the table the last entry is taken; an empty table panics (\<open>None\<close>).\<close>

definition pick :: "engine \<Rightarrow> int \<Rightarrow> read_method option" where
  "pick e roll =
     (case pick_from (picker e) roll of
        Some m \<Rightarrow> Some m
      | None \<Rightarrow> if picker e = [] then None else Some (fst (picker e ! (length (picker e) - 1))))"

definition e_head :: "u64 \<Rightarrow> engine \<Rightarrow> u64" where
  "e_head headNow e = (if cachedHead e \<noteq> 0 then cachedHead e else headNow)"

definition archiveOldestBlock :: "engine \<Rightarrow> u64 \<Rightarrow> u64" where
  "archiveOldestBlock e hb =
     (let span = hb * of_int (rl_ArchiveDepthPct (e_cfg e)) div 100;
          span1 = (if span < 1 then 1 else span)
      in if hb \<le> span1 then 1 else hb - span1 + 1)"

datatype block_arg = LatestBlock | BlockNum u64

definition blockTag :: "u64 \<Rightarrow> int \<Rightarrow> engine \<Rightarrow> block_arg option" where
  "blockTag headNow r e =
     (let hb = e_head headNow e in
      case rl_BlockSelection (e_cfg e) of
        ReadBlockLatest \<Rightarrow> Some LatestBlock
      | ReadBlockArchive \<Rightarrow>
          if hb \<le> 1 then Some LatestBlock
          else let oldest = archiveOldestBlock e hb in
               map_option (\<lambda>k. BlockNum (oldest + of_int k)) (int_n (sint (hb - oldest + 1)) r)
      | _ \<Rightarrow>
          if hb = 0 then Some LatestBlock
          else let window0 = of_int (rl_BlockWindow (e_cfg e));
                   window = (if hb < window0 then hb else window0)
               in if window = 0 then Some LatestBlock
                  else map_option (\<lambda>k. BlockNum (hb - of_int k)) (int_n (sint window) r))"

text \<open>\<open>Some None\<close>: no usable range.\<close>

definition logRange :: "u64 \<Rightarrow> int \<Rightarrow> engine \<Rightarrow> (u64 \<times> u64) option option" where
  "logRange headNow r e =
     (let hb = e_head headNow e; span0 = of_int (rl_LogsRangeBlocks (e_cfg e)) in
      if hb = 0 \<or> span0 = 0 then Some None
      else
        let span = (if hb < span0 then hb else span0);
            oldest0 = (if rl_BlockSelection (e_cfg e) = ReadBlockArchive then archiveOldestBlock e hb
              else let w0 = of_int (rl_BlockWindow (e_cfg e)); w1 = (if hb < w0 then hb else w0);
                       w2 = (if w1 < span then span else w1)
                   in hb - w2 + 1);
            oldest = (if oldest0 < 1 then 1 else oldest0);
            latestStart = hb - span + 1
        in if latestStart < oldest then Some (Some (oldest, hb))
           else map_option (\<lambda>k. let from = oldest + of_int k in Some (from, from + span - 1))
                  (int_n (sint (latestStart - oldest + 1)) r))"

datatype read_params =
    CallParams addr addr block_arg
  | BalanceParams addr block_arg
  | BlockParams block_arg bool
  | LogsParams u64 u64 addr
  | ReceiptParams string

text \<open>
  One \<open>build\<close> with the three random numbers it draws and the sampled transaction hash.  \<open>None\<close> is a
  panic; \<open>(m, None)\<close> means that no target is available.
\<close>

definition build_read ::
  "u64 \<Rightarrow> int \<Rightarrow> int \<Rightarrow> int \<Rightarrow> string option \<Rightarrow> engine \<Rightarrow> (read_method \<times> read_params option) option" where
  "build_read headNow r1 r2 r3 txHash e =
     (case pick e (r1 mod 100) of None \<Rightarrow> None | Some m \<Rightarrow>
      (case int_n (int (length (e_Addresses e))) r2 of None \<Rightarrow> None | Some i \<Rightarrow>
       let a = e_Addresses e ! nat i in
       (case m of
          ReadMethodCall \<Rightarrow> map_option (\<lambda>b. (m, Some (CallParams (e_ERC20 e) a b))) (blockTag headNow r3 e)
        | ReadMethodGetBalance \<Rightarrow> map_option (\<lambda>b. (m, Some (BalanceParams a b))) (blockTag headNow r3 e)
        | ReadMethodGetBlock \<Rightarrow>
            map_option (\<lambda>b. (m, Some (BlockParams b (rl_FullBlocks (e_cfg e))))) (blockTag headNow r3 e)
        | ReadMethodGetLogs \<Rightarrow>
            map_option (map_prod id (map_option (\<lambda>(f, t). LogsParams f t (e_ERC20 e))))
              (map_option (Pair m) (logRange headNow r3 e))
        | ReadMethodGetReceipt \<Rightarrow>
            Some (m, case txHash of None \<Rightarrow> None | Some h \<Rightarrow> if h = [] then None else Some (ReceiptParams h)))))"

section \<open>One read\<close>

text \<open>How a call ends: with a reply after so many milliseconds, with an error, or with an error
  while the run's context is done.\<close>

datatype call_result = Replied f64 | CallFailed | CallAborted

text \<open>The counters after one iteration of the worker; \<open>None\<close> would be the nil \<open>methodStats\<close>.\<close>

definition worker_read :: "read_method \<times> read_params option \<Rightarrow> call_result \<Rightarrow> engine \<Rightarrow> engine option" where
  "worker_read mp res e =
     (case mp of
        (m, None) \<Rightarrow> Some (e\<lparr>e_skips := e_skips e + 1\<rparr>)
      | (m, Some params) \<Rightarrow>
          (case res of
             CallAborted \<Rightarrow> Some e
           | _ \<Rightarrow>
               (case map_get (e_stats e) m of
                  None \<Rightarrow> None
                | Some st \<Rightarrow>
                    let e1 = e\<lparr>e_sent := e_sent e + 1\<rparr>; st1 = st\<lparr>ms_count := ms_count st + 1\<rparr> in
                    (case res of
                       Replied lat \<Rightarrow>
                         Some (e1\<lparr>e_stats := map_put m (st1\<lparr>ms_lat := latency_Add lat (ms_lat st1)\<rparr>) (e_stats e1),
                                  pooledLat := latency_Add lat (pooledLat e1)\<rparr>)
                     | _ \<Rightarrow>
                         Some (e1\<lparr>e_stats := map_put m (st1\<lparr>ms_errors := ms_errors st1 + 1\<rparr>) (e_stats e1),
                                  e_errs := e_errs e1 + 1\<rparr>)))))"

section \<open>Probing, starting, stopping, reporting\<close>

datatype probe_error = NoHead | EmptyChain | UnclassifiedProbe | ArchiveRequired

definition Probe :: "u64 option \<Rightarrow> string option \<Rightarrow> engine \<Rightarrow> probe_error option \<times> engine" where
  "Probe headReply callErr e =
     (case headReply of
        None \<Rightarrow> (Some NoHead, e)
      | Some hb \<Rightarrow>
          if hb = 0 then (Some EmptyChain, e)
          else
            let archive = (callErr = None); classified = (archive \<or> isStateUnavailable callErr) in
            if \<not> classified \<and> RequireArchive (e_cfg e) then (Some UnclassifiedProbe, e)
            else let e1 = e\<lparr>archiveTarget := archive\<rparr> in
                 (if \<not> archive \<and> RequireArchive (e_cfg e) then Some ArchiveRequired else None, e1))"

definition Start_engine :: "u64 \<Rightarrow> int \<Rightarrow> engine \<Rightarrow> engine" where
  "Start_engine headNow now e = e\<lparr>e_startTime := Some now, cachedHead := headNow\<rparr>"

definition headRefresher :: "u64 \<Rightarrow> engine \<Rightarrow> engine" where
  "headRefresher headNow e = e\<lparr>cachedHead := headNow\<rparr>"

definition Stop_engine :: "int \<Rightarrow> engine \<Rightarrow> engine" where
  "Stop_engine now e =
     (if e_closed e then e
      else let e1 = e\<lparr>e_closed := True\<rparr> in
           case e_startTime e of None \<Rightarrow> e1 | Some t \<Rightarrow> e1\<lparr>e_elapsed := now - t\<rparr>)"

record read_method_report =
  rr_Method :: read_method
  rr_Count :: nat
  rr_Errors :: nat
  rr_Latency :: "latency_report option"

record read_load_metrics =
  rm_TargetRPS :: int
  rm_ReadRPS :: f64
  rm_ReadsSent :: nat
  rm_ReadErrors :: nat
  rm_BlockSelection :: read_block_selection
  rm_ArchiveTarget :: bool
  rm_RateShortfall :: bool
  rm_Latency :: "latency_report option"
  rm_ByMethod :: "read_method_report list"

definition engine_Metrics :: "int \<Rightarrow> engine \<Rightarrow> read_load_metrics option" where
  "engine_Metrics now e =
     (let el = (if e_elapsed e = 0 then (case e_startTime e of None \<Rightarrow> 0 | Some t \<Rightarrow> now - t) else e_elapsed e);
          rps = (if 0 < el then fdiv (f64_of_int (int (e_sent e))) (duration_Seconds el) else 0)
      in if \<exists>(m, c) \<in> set (picker e). map_get (e_stats e) m = None then None
         else Some \<lparr>rm_TargetRPS = rl_TargetRPS (e_cfg e), rm_ReadRPS = rps, rm_ReadsSent = e_sent e,
           rm_ReadErrors = e_errs e, rm_BlockSelection = rl_BlockSelection (e_cfg e),
           rm_ArchiveTarget = archiveTarget e,
           rm_RateShortfall = (0 < el \<and> rps < fmul (f64_of_int (rl_TargetRPS (e_cfg e))) (fl (95/100))),
           rm_Latency = latency_GetStats (pooledLat e),
           rm_ByMethod = map (\<lambda>(m, c). let st = the (map_get (e_stats e) m) in
             \<lparr>rr_Method = m, rr_Count = ms_count st, rr_Errors = ms_errors st, rr_Latency = latency_GetStats (ms_lat st)\<rparr>)
             (picker e)\<rparr>)"

section \<open>Validated configurations\<close>

lemma valid_read_mix:
  assumes "read_Validate cfg = None" "rl_Enabled cfg"
  shows "mix_Sum (rl_Mix cfg) = 100" "\<forall>(m, s) \<in> set (mix_methods (rl_Mix cfg)). 0 \<le> s"
proof -
  have f: "filter (\<lambda>(name, v). v < 0 \<or> 100 < v) (mix_table (rl_Mix cfg)) = []"
    and s: "mix_Sum (rl_Mix cfg) = 100"
    using assms by (auto simp: read_Validate_def split: if_splits list.splits)
  show "mix_Sum (rl_Mix cfg) = 100" by (rule s)
  have "\<forall>(name, v) \<in> set (mix_table (rl_Mix cfg)). 0 \<le> v" using f by (auto simp: filter_empty_conv)
  then show "\<forall>(m, s) \<in> set (mix_methods (rl_Mix cfg)). 0 \<le> s" by (simp add: mix_table_def mix_methods_def)
qed

section \<open>The method table draws the configured mix\<close>

definition share_of :: "(read_method \<times> int) list \<Rightarrow> read_method \<Rightarrow> int" where
  "share_of ms m = sum_list (map snd (filter (\<lambda>(k, s). k = m) ms))"

lemma pick_from_interval:
  assumes "distinct (map fst ms)" "\<forall>(m, s) \<in> set ms. 0 \<le> s"
  shows "{roll. cum \<le> roll \<and> pick_from (picker_from cum ms) roll = Some m} =
    (let start = cum + sum_list (map snd (takeWhile (\<lambda>(k, s). k \<noteq> m) ms))
     in {start..<start + share_of ms m})"
  using assms
proof (induction ms arbitrary: cum)
  case Nil
  then show ?case by (simp add: share_of_def)
next
  case (Cons ks ms)
  obtain k s where ks: "ks = (k, s)" by (cases ks)
  have s: "0 \<le> s" "\<forall>(m, s) \<in> set ms. 0 \<le> s" and d: "distinct (map fst ms)" "k \<notin> fst ` set ms"
    using Cons.prems by (auto simp: ks)
  have rest: "0 \<le> sum_list (map snd (takeWhile P ms))" for P
    using s(2) by (intro sum_list_nonneg) (force dest: set_takeWhileD)
  have "filter (\<lambda>(ka, s). ka = k) ms = []" using d(2) by (force simp: filter_empty_conv)
  then have fresh: "share_of ms k = 0" by (simp add: share_of_def)
  show ?case
  proof (cases "k = m")
    case True
    have "pick_from (picker_from (cum + s) ms) roll \<noteq> Some m" if "cum + s \<le> roll" for roll
    proof -
      have "{roll. cum + s \<le> roll \<and> pick_from (picker_from (cum + s) ms) roll = Some m} = {}"
        unfolding Cons.IH [OF d(1) s(2), of "cum + s"] using fresh True by (simp add: Let_def)
      then show ?thesis using that by blast
    qed
    moreover have "share_of (ks # ms) m = s" using True fresh by (simp add: share_of_def ks)
    ultimately show ?thesis
      using s(1) True by (cases "s = 0") (auto simp: ks Let_def not_less)
  next
    case False
    have sh: "share_of (ks # ms) m = share_of ms m" using False by (simp add: share_of_def ks)
    have "{roll. cum \<le> roll \<and> pick_from (picker_from cum (ks # ms)) roll = Some m} =
        {roll. cum + s \<le> roll \<and> pick_from (picker_from (cum + s) ms) roll = Some m}"
      using s(1) False by (cases "s = 0") (auto simp: ks not_less)
    then show ?thesis
      unfolding Cons.IH [OF d(1) s(2), of "cum + s"] using False sh by (simp add: ks Let_def add.assoc)
  qed
qed

lemma share_of_methods: "share_of (mix_methods mx) m =
   (case m of ReadMethodCall \<Rightarrow> EthCall mx | ReadMethodGetBalance \<Rightarrow> GetBalance mx
    | ReadMethodGetLogs \<Rightarrow> GetLogs mx | ReadMethodGetBlock \<Rightarrow> GetBlockByNumber mx
    | ReadMethodGetReceipt \<Rightarrow> GetReceipt mx)"
  by (cases m) (simp_all add: share_of_def mix_methods_def)

lemma picker_from_total:
  assumes "\<forall>(m, s) \<in> set ms. 0 \<le> s" "cum \<le> roll" "roll < cum + sum_list (map snd ms)"
  shows "pick_from (picker_from cum ms) roll \<noteq> None"
  using assms
proof (induction cum ms rule: picker_from.induct)
  case (2 cum m share ms)
  then show ?case by (cases "share = 0"; cases "roll < cum + share") auto
qed simp

lemma new_engine_cases:
  assumes "NewEngine nc nh nt cfg as erc now = Inr e"
  shows "read_Validate cfg = None" "picker e = picker_from 0 (mix_methods (rl_Mix cfg))" "e_cfg e = withDefaults cfg"
    "e_Addresses e = as" "as \<noteq> []" "e_stats e = map (\<lambda>(m, _). (m, \<lparr>ms_count = 0, ms_errors = 0, ms_lat = NewStreamingLatencyStats\<rparr>)) (picker e)"
    "e_sent e = 0" "e_errs e = 0" "pooledLat e = NewStreamingLatencyStats" "cachedHead e = 0"
  using assms by (auto simp: NewEngine_def Let_def split: option.splits if_splits)

text \<open>
  An engine that could be built draws each read method with exactly its configured share of
  the hundred equally likely rolls: no share falls through to another method, and a method with
  share 0 is never issued.
\<close>
theorem read_mix_has_configured_weights:
  assumes "NewEngine nc nh nt cfg as erc now = Inr e" "rl_Enabled cfg"
  shows "int (card {roll \<in> {0..<100}. pick e roll = Some m}) =
    (case m of ReadMethodCall \<Rightarrow> EthCall (rl_Mix cfg) | ReadMethodGetBalance \<Rightarrow> GetBalance (rl_Mix cfg)
     | ReadMethodGetLogs \<Rightarrow> GetLogs (rl_Mix cfg) | ReadMethodGetBlock \<Rightarrow> GetBlockByNumber (rl_Mix cfg)
     | ReadMethodGetReceipt \<Rightarrow> GetReceipt (rl_Mix cfg))"
proof -
  let ?ms = "mix_methods (rl_Mix cfg)"
  note n = new_engine_cases [OF assms(1)]
  note v = valid_read_mix [OF n(1) assms(2)]
  have sum: "sum_list (map snd ?ms) = 100" using v(1) by (simp add: mix_methods_def mix_Sum_def)
  have d: "distinct (map fst ?ms)" by (simp add: mix_methods_def)
  let ?st = "sum_list (map snd (takeWhile (\<lambda>(k, s). k \<noteq> m) ?ms))"
  have p: "pick e roll = pick_from (picker_from 0 ?ms) roll" if "0 \<le> roll" "roll < 100" for roll
    using picker_from_total [OF v(2), of 0 roll] that sum by (auto simp: pick_def n(2))
  have i: "{roll. 0 \<le> roll \<and> pick_from (picker_from 0 ?ms) roll = Some m} = {?st..<?st + share_of ?ms m}"
    using pick_from_interval [OF d v(2), of 0 m] by (simp add: Let_def)
  have b: "0 \<le> share_of ?ms m" "?st + share_of ?ms m \<le> 100"
    using v(2) sum by (cases m; simp add: share_of_def mix_methods_def)+
  have "{roll \<in> {0..<100}. pick e roll = Some m} =
      {roll. 0 \<le> roll \<and> pick_from (picker_from 0 ?ms) roll = Some m} \<inter> {..<100}"
    using p by auto
  also have "\<dots> = {?st..<?st + share_of ?ms m}" unfolding i using b(2) by auto
  finally show ?thesis using b(1) by (simp add: share_of_methods)
qed

definition example_read_config :: read_load_config where
  "example_read_config =
     \<lparr>rl_Enabled = True, rl_TargetRPS = 100, rl_Concurrency = 0, rl_RPCURL = [], rl_BlockSelection = ReadBlockUnset,
      rl_BlockWindow = 0, rl_ArchiveDepthPct = 0, rl_RequireArchive = None, rl_LogsRangeBlocks = 0,
      rl_FullBlocks = False, rl_Mix = \<lparr>EthCall = 0, GetBalance = 70, GetLogs = 0, GetBlockByNumber = 30, GetReceipt = 0\<rparr>\<rparr>"

lemma example_read_valid: "read_Validate example_read_config = None"
  by (simp add: read_Validate_def example_read_config_def mix_Sum_def mix_table_def)

lemma example_engine_exists: "\<exists>e. NewEngine False False False example_read_config [''a''] [] 0 = Inr e"
  by (simp add: NewEngine_def example_read_valid) (simp add: example_read_config_def Let_def)

theorem read_mix_has_configured_weights_witness:
  "\<exists>e. NewEngine False False False example_read_config [''a''] [] 0 = Inr e \<and>
     int (card {roll \<in> {0..<100}. pick e roll = Some ReadMethodGetBalance}) = 70"
proof -
  obtain e where e: "NewEngine False False False example_read_config [''a''] [] 0 = Inr e"
    using example_engine_exists by blast
  have "rl_Enabled example_read_config" by (simp add: example_read_config_def)
  from read_mix_has_configured_weights [OF e this, of ReadMethodGetBalance] e show ?thesis
    by (simp add: example_read_config_def)
qed

section \<open>Blocks inside the window\<close>

text \<open>A random offset below a word.\<close>

lemma int_n_offset:
  assumes "0 < unat x" "unat (x::u64) < 2 ^ 63"
  shows "\<exists>j < unat x. int_n (sint x) r = Some (int j)"
proof -
  have "\<exists>j < n. int_n (int n) r = Some (int j)" if "0 < n" for n :: nat
    using that by (intro exI [of _ "nat (r mod int n)"]) (simp add: int_n_def nat_less_iff)
  then show ?thesis unfolding u64_sint [OF assms(2)] using assms(1) by blast
qed

lemma archive_oldest_bounds:
  assumes "1 \<le> unat hb" "unat hb < 2 ^ 57" "1 \<le> rl_ArchiveDepthPct (e_cfg e)" "rl_ArchiveDepthPct (e_cfg e) \<le> 100"
  shows "1 \<le> unat (archiveOldestBlock e hb)" "unat (archiveOldestBlock e hb) \<le> unat hb"
proof -
  define p where "p = nat (rl_ArchiveDepthPct (e_cfg e))"
  have p: "p \<le> 100" "(of_int (rl_ArchiveDepthPct (e_cfg e)) :: u64) = of_nat p" using assms(3,4) by (simp_all add: p_def)
  have "unat hb * p \<le> 2 ^ 57 * 100" using p(1) assms(2) by (intro mult_le_mono) simp_all
  then have "unat hb * p < 2 ^ 64" by simp
  then have "unat (hb * of_nat p) = unat hb * p" by (rule u64_mult_nat)
  then have sp: "unat (hb * of_nat p div 100) = unat hb * p div 100" by (simp add: u64_unat_div)
  define span where "span = (if hb * of_nat p div 100 < 1 then 1 else hb * of_nat p div 100)"
  have eq: "archiveOldestBlock e hb = (if hb \<le> span then 1 else hb - span + 1)"
    by (simp only: archiveOldestBlock_def Let_def p(2) span_def)
  have s1: "1 \<le> unat span" by (simp add: span_def word_less_nat_alt)
  have "unat (archiveOldestBlock e hb) = unat hb - unat span + 1" if "unat span < unat hb"
  proof -
    have "unat (hb - span) = unat hb - unat span" using that by (simp add: unat_sub word_le_nat_alt)
    then have "unat (hb - span + of_nat 1) = unat hb - unat span + 1"
      using assms(2) by (subst u64_add_nat) simp_all
    then show ?thesis using that unfolding eq by (simp add: word_le_nat_alt)
  qed
  moreover have "archiveOldestBlock e hb = 1" if "\<not> unat span < unat hb"
    using that unfolding eq by (simp add: word_le_nat_alt)
  ultimately show "1 \<le> unat (archiveOldestBlock e hb)" "unat (archiveOldestBlock e hb) \<le> unat hb"
    using s1 assms(1) by (cases "unat span < unat hb"; simp)+
qed

text \<open>The configuration of a built engine.\<close>

definition config_ok :: "read_load_config \<Rightarrow> bool" where
  "config_ok c \<longleftrightarrow> 1 \<le> rl_BlockWindow c \<and> 1 \<le> rl_LogsRangeBlocks c \<and> 1 \<le> rl_ArchiveDepthPct c \<and>
     rl_ArchiveDepthPct c \<le> 100 \<and> rl_BlockSelection c \<in> {ReadBlockLatest, ReadBlockRecent, ReadBlockArchive}"

lemma new_engine_config:
  assumes "NewEngine nc nh nt cfg as erc now = Inr e" "rl_Enabled cfg"
  shows "config_ok (e_cfg e)"
proof -
  have v: "read_Validate cfg = None" "e_cfg e = withDefaults cfg" using new_engine_cases [OF assms(1)] by simp_all
  have "rl_ArchiveDepthPct cfg \<le> 100"
    "rl_BlockSelection cfg \<in> {ReadBlockUnset, ReadBlockLatest, ReadBlockRecent, ReadBlockArchive}"
    using v(1) assms(2) by (cases "rl_BlockSelection cfg"; auto simp: read_Validate_def split: if_splits list.splits)+
  then show ?thesis by (auto simp: v(2) config_ok_def withDefaults_def)
qed

text \<open>The window of a state read ends at the head.\<close>

definition tag_ok :: "engine \<Rightarrow> u64 \<Rightarrow> block_arg \<Rightarrow> bool" where
  "tag_ok e hb t \<longleftrightarrow>
     (case t of
        LatestBlock \<Rightarrow> rl_BlockSelection (e_cfg e) = ReadBlockLatest \<or> unat hb \<le> 1
      | BlockNum b \<Rightarrow> 1 \<le> unat b \<and> unat b \<le> unat hb \<and>
          (rl_BlockSelection (e_cfg e) = ReadBlockRecent \<longrightarrow> int (unat hb - unat b) < rl_BlockWindow (e_cfg e)) \<and>
          (rl_BlockSelection (e_cfg e) = ReadBlockArchive \<longrightarrow> unat (archiveOldestBlock e hb) \<le> unat b))"

lemma archive_tag:
  assumes "config_ok (e_cfg e)" "1 < unat hb" "unat hb < 2 ^ 57" "rl_BlockSelection (e_cfg e) = ReadBlockArchive"
  shows "\<exists>k. int_n (sint (hb - archiveOldestBlock e hb + 1)) r = Some k \<and>
    tag_ok e hb (BlockNum (archiveOldestBlock e hb + of_int k))"
proof -
  let ?o = "archiveOldestBlock e hb"
  have o: "1 \<le> unat ?o" "unat ?o \<le> unat hb"
    using archive_oldest_bounds [of hb e] assms by (simp_all add: config_ok_def)
  have "unat (hb - ?o) = unat hb - unat ?o" using o(2) by (simp add: unat_sub word_le_nat_alt)
  then have w: "unat (hb - ?o + 1) = unat hb - unat ?o + 1"
    using u64_add_nat [of "hb - ?o" 1] assms(3) by simp
  have "unat hb - unat ?o + 1 \<le> unat hb" using o by linarith
  then have "unat (hb - ?o + 1) < 2 ^ 63" using w assms(3) by simp
  then obtain j where j: "j < unat hb - unat ?o + 1" "int_n (sint (hb - ?o + 1)) r = Some (int j)"
    using int_n_offset [of "hb - ?o + 1" r] unfolding w by auto
  have "unat (?o + of_nat j) = unat ?o + j" using j(1) o assms(3) by (intro u64_add_nat) simp
  then show ?thesis using j o assms(4) by (simp add: tag_ok_def)
qed

lemma recent_tag:
  assumes "config_ok (e_cfg e)" "1 \<le> unat hb" "unat hb < 2 ^ 57" "rl_BlockSelection (e_cfg e) = ReadBlockRecent"
    "rl_BlockWindow (e_cfg e) < 2 ^ 63" "win = (if hb < of_int (rl_BlockWindow (e_cfg e)) then hb else of_int (rl_BlockWindow (e_cfg e)))"
  shows "win \<noteq> 0 \<and> (\<exists>k. int_n (sint win) r = Some k \<and> tag_ok e hb (BlockNum (hb - of_int k)))"
proof -
  let ?bw = "rl_BlockWindow (e_cfg e)"
  have bw: "1 \<le> ?bw" using assms(1) by (simp add: config_ok_def)
  have "unat (of_int ?bw :: u64) = nat ?bw"
    using bw assms(5) by (intro u64_unat_of_int) simp_all
  then have w: "unat win = min (unat hb) (nat ?bw)" by (simp add: assms(6) word_less_nat_alt min_def)
  then have w1: "1 \<le> unat win" "unat win \<le> unat hb" "int (unat win) \<le> ?bw" using bw assms(2) by auto
  then obtain j where j: "j < unat win" "int_n (sint win) r = Some (int j)"
    using int_n_offset [of win r] assms(3) by auto
  have "unat (hb - of_nat j) = unat hb - j" using j(1) w1(2) by (intro u64_sub_nat) linarith
  moreover have "1 \<le> unat hb - j" "unat hb - (unat hb - j) = j" "int j < ?bw"
    using j(1) w1(2,3) by (linarith, linarith, linarith)
  ultimately have "tag_ok e hb (BlockNum (hb - of_int (int j)))" using assms(4) by (simp add: tag_ok_def)
  moreover have "win \<noteq> 0" using w1(1) by auto
  ultimately show ?thesis using j(2) by blast
qed

lemma blockTag_ok:
  assumes "config_ok (e_cfg e)" "unat (e_head hn e) < 2 ^ 57" "rl_BlockWindow (e_cfg e) < 2 ^ 63"
  shows "\<exists>t. blockTag hn r e = Some t \<and> tag_ok e (e_head hn e) t"
proof -
  let ?h = "e_head hn e"
  consider (l) "rl_BlockSelection (e_cfg e) = ReadBlockLatest" | (a) "rl_BlockSelection (e_cfg e) = ReadBlockArchive"
    | (r) "rl_BlockSelection (e_cfg e) = ReadBlockRecent" using assms(1) by (auto simp: config_ok_def)
  then show ?thesis
  proof cases
    case l
    then show ?thesis by (simp add: blockTag_def tag_ok_def)
  next
    case a
    show ?thesis
    proof (cases "1 < unat ?h")
      case True
      then show ?thesis using archive_tag [OF assms(1) True assms(2) a, of r] a
        by (auto simp: blockTag_def Let_def word_le_nat_alt)
    next
      case False
      then show ?thesis using a by (simp add: blockTag_def Let_def word_le_nat_alt tag_ok_def)
    qed
  next
    case r
    show ?thesis
    proof (cases "?h = 0")
      case True
      then show ?thesis using r by (simp add: blockTag_def Let_def tag_ok_def)
    next
      case False
      then have h1: "1 \<le> unat ?h" by (simp add: Suc_leI unat_gt_0)
      show ?thesis
        using recent_tag [OF assms(1) h1 assms(2) r assms(3) refl] r False
        by (fastforce simp: blockTag_def Let_def)
    qed
  qed
qed

lemma unat_last_of:
  assumes "1 \<le> unat w" "unat w \<le> unat (hb::u64)" "unat hb < 2 ^ 57"
  shows "unat (hb - w + 1) = unat hb - unat w + 1"
proof -
  have "unat (hb - w) = unat hb - unat w" using assms(2) by (simp add: unat_sub word_le_nat_alt)
  then show ?thesis using u64_add_nat [of "hb - w" 1] assms(3) by simp
qed

text \<open>A range of \<open>span\<close> blocks somewhere between \<open>oldest\<close> and the head.\<close>

lemma range_choice:
  assumes "1 \<le> unat (oldest::u64)" "unat oldest \<le> unat hb" "unat hb < 2 ^ 57" "1 \<le> unat spn" "unat spn \<le> unat hb"
    "\<not> hb - spn + 1 < oldest"
  shows "\<exists>k. int_n (sint (hb - spn + 1 - oldest + 1)) r = Some k \<and>
    (let from = oldest + of_int k; to = from + spn - 1
     in unat oldest \<le> unat from \<and> unat from \<le> unat to \<and> unat to \<le> unat hb \<and> unat to - unat from < unat spn)"
proof -
  let ?ls = "hb - spn + 1"
  have ls: "unat ?ls = unat hb - unat spn + 1" using unat_last_of [OF assms(4,5,3)] .
  then have o: "unat oldest \<le> unat ?ls" using assms(6) by (simp add: word_less_nat_alt)
  then have w: "unat (?ls - oldest + 1) = unat ?ls - unat oldest + 1"
    using assms(1,3,4,5) ls by (intro unat_last_of) simp_all
  then have "unat (?ls - oldest + 1) < 2 ^ 63" using assms(3,4) ls by simp
  then obtain j where j: "j < unat ?ls - unat oldest + 1" "int_n (sint (?ls - oldest + 1)) r = Some (int j)"
    using int_n_offset [of "?ls - oldest + 1" r] unfolding w by auto
  have f: "unat (oldest + of_nat j) = unat oldest + j"
    using j(1) ls assms(2,3) o by (intro u64_add_nat) simp
  have sum: "unat oldest + j + unat spn \<le> unat hb + 1" using j(1) ls o assms(5) by linarith
  have t: "unat (oldest + of_nat j + spn) = unat oldest + j + unat spn"
    using u64_add_nat [of "oldest + of_nat j" "unat spn"] f sum assms(3) by simp
  then have "unat (oldest + of_nat j + spn - 1) = unat oldest + j + unat spn - 1"
    using u64_sub_nat [of 1 "oldest + of_nat j + spn"] assms(4) by simp
  moreover have "unat oldest + j \<le> unat oldest + j + unat spn - 1" "unat oldest + j + unat spn - 1 \<le> unat hb"
    "unat oldest + j + unat spn - 1 - (unat oldest + j) < unat spn"
    using sum assms(4) by linarith+
  ultimately show ?thesis using j(2) f by (simp only: Let_def option.inject ex_simps simp_thms of_int_of_nat_eq)
qed

lemma logRange_ok:
  assumes "config_ok (e_cfg e)" "unat (e_head hn e) < 2 ^ 57" "rl_BlockWindow (e_cfg e) < 2 ^ 63"
    "rl_LogsRangeBlocks (e_cfg e) < 2 ^ 63"
  shows "(e_head hn e = 0 \<and> logRange hn r e = Some None) \<or>
    (\<exists>f t. logRange hn r e = Some (Some (f, t)) \<and> 1 \<le> unat f \<and> unat f \<le> unat t \<and>
       unat t \<le> unat (e_head hn e) \<and> int (unat t - unat f) < rl_LogsRangeBlocks (e_cfg e))"
proof (cases "e_head hn e = 0")
  case True
  then show ?thesis by (simp add: logRange_def Let_def)
next
  case False
  define hb where "hb = e_head hn e"
  let ?lr = "rl_LogsRangeBlocks (e_cfg e)" and ?bw = "rl_BlockWindow (e_cfg e)"
  have h: "1 \<le> unat hb" "unat hb < 2 ^ 57" using False assms(2) by (simp_all add: hb_def Suc_leI unat_gt_0)
  have c: "1 \<le> ?lr" "1 \<le> ?bw" "1 \<le> rl_ArchiveDepthPct (e_cfg e)" "rl_ArchiveDepthPct (e_cfg e) \<le> 100"
    using assms(1) by (simp_all add: config_ok_def)
  have u: "unat (of_int ?lr :: u64) = nat ?lr" "unat (of_int ?bw :: u64) = nat ?bw"
    using c assms(3,4) by (auto intro!: u64_unat_of_int)
  define spn where "spn = (if hb < of_int ?lr then hb else of_int ?lr)"
  have sp: "unat spn = min (unat hb) (nat ?lr)" by (simp add: spn_def word_less_nat_alt u min_def)
  then have s1: "1 \<le> unat spn" "unat spn \<le> unat hb" "int (unat spn) \<le> ?lr" using c(1) h(1) by auto
  define w1 where "w1 = (if hb < of_int ?bw then hb else of_int ?bw)"
  define w2 where "w2 = (if w1 < spn then spn else w1)"
  have "unat w1 = min (unat hb) (nat ?bw)" by (auto simp: w1_def word_less_nat_alt u)
  then have w2: "1 \<le> unat w2" "unat w2 \<le> unat hb" using s1 c(2) h(1) by (auto simp: w2_def)
  define o0 where "o0 = (if rl_BlockSelection (e_cfg e) = ReadBlockArchive then archiveOldestBlock e hb else hb - w2 + 1)"
  have o0: "1 \<le> unat o0" "unat o0 \<le> unat hb"
    using archive_oldest_bounds [OF h c(3,4)] unat_last_of [OF w2 h(2)] w2 by (auto simp: o0_def)
  then have o1: "\<not> o0 < 1" by (simp add: word_less_nat_alt)
  have nz: "(of_int ?lr :: u64) \<noteq> 0" using u(1) c(1) by auto
  have eq: "logRange hn r e = (if hb - spn + 1 < o0 then Some (Some (o0, hb))
      else map_option (\<lambda>k. let from = o0 + of_int k in Some (from, from + spn - 1))
        (int_n (sint (hb - spn + 1 - o0 + 1)) r))"
    using False nz o1
    by (simp only: logRange_def Let_def hb_def [symmetric] spn_def [symmetric] w1_def [symmetric] w2_def [symmetric]
        o0_def [symmetric] if_False simp_thms if_cancel)
  show ?thesis
  proof (cases "hb - spn + 1 < o0")
    case True
    then have "unat hb - unat spn + 1 < unat o0" using unat_last_of [OF s1(1,2) h(2)] by (simp add: word_less_nat_alt)
    then have "int (unat hb - unat o0) < ?lr" using s1 o0 by linarith
    then show ?thesis using True o0 unfolding eq hb_def [symmetric] by auto
  next
    case False
    obtain k where k: "int_n (sint (hb - spn + 1 - o0 + 1)) r = Some k"
      "unat o0 \<le> unat (o0 + of_int k)" "unat (o0 + of_int k) \<le> unat (o0 + of_int k + spn - 1)"
      "unat (o0 + of_int k + spn - 1) \<le> unat hb"
      "unat (o0 + of_int k + spn - 1) - unat (o0 + of_int k) < unat spn"
      using range_choice [OF o0 h(2) s1(1,2) False, of r] by (auto simp: Let_def)
    have "int (unat (o0 + of_int k + spn - 1) - unat (o0 + of_int k)) < ?lr" using k(5) s1(3) by linarith
    then show ?thesis using False k o0(1) unfolding eq hb_def [symmetric] by (simp add: Let_def)
  qed
qed

text \<open>
  For every engine that could be built and every head below \<open>2 ^ 57\<close>, no random choice panics:
  a state read names a block inside the configured window ending at the head (or \<open>latest\<close> in
  latest mode or without history), and a log filter covers at most the configured number of
  blocks, all of them existing.
\<close>
theorem read_blocks_in_window:
  assumes "NewEngine nc nh nt cfg as erc now = Inr e0" "rl_Enabled cfg" "e = e0\<lparr>cachedHead := ch\<rparr>"
    "unat (e_head hn e) < 2 ^ 57" "rl_BlockWindow (e_cfg e) < 2 ^ 63" "rl_LogsRangeBlocks (e_cfg e) < 2 ^ 63"
  shows "(\<exists>t. blockTag hn r e = Some t \<and> tag_ok e (e_head hn e) t) \<and>
    ((e_head hn e = 0 \<and> logRange hn r e = Some None) \<or>
     (\<exists>f t. logRange hn r e = Some (Some (f, t)) \<and> 1 \<le> unat f \<and> unat f \<le> unat t \<and>
        unat t \<le> unat (e_head hn e) \<and> int (unat t - unat f) < rl_LogsRangeBlocks (e_cfg e)))"
proof -
  have "config_ok (e_cfg e)" using new_engine_config [OF assms(1,2)] by (simp add: assms(3))
  from blockTag_ok [OF this assms(4,5)] logRange_ok [OF this assms(4-6)] show ?thesis by blast
qed

theorem read_blocks_in_window_witness:
  "\<exists>e0 t. NewEngine False False False example_read_config [''a''] [] 0 = Inr e0 \<and>
     blockTag 0 9 (e0\<lparr>cachedHead := 1000\<rparr>) = Some t \<and> tag_ok (e0\<lparr>cachedHead := 1000\<rparr>) 1000 t"
proof -
  obtain e0 where e0: "NewEngine False False False example_read_config [''a''] [] 0 = Inr e0"
    using example_engine_exists by blast
  have c: "e_cfg e0 = withDefaults example_read_config" using new_engine_cases(3) [OF e0] .
  let ?e = "e0\<lparr>cachedHead := 1000\<rparr>"
  have h: "e_head 0 ?e = 1000" by (simp add: e_head_def)
  have en: "rl_Enabled example_read_config" by (simp add: example_read_config_def)
  have b: "rl_BlockWindow (e_cfg ?e) < 2 ^ 63" "rl_LogsRangeBlocks (e_cfg ?e) < 2 ^ 63"
    by (simp_all add: c withDefaults_def example_read_config_def)
  have "unat (e_head 0 ?e) < 2 ^ 57" by (simp add: h)
  from read_blocks_in_window [OF e0 en refl this b, of 9] e0 show ?thesis unfolding h by blast
qed

section \<open>The counters agree\<close>

fun read_run :: "((read_method \<times> read_params option) \<times> call_result) list \<Rightarrow> engine \<Rightarrow> engine option" where
  "read_run [] e = Some e"
| "read_run ((mp, res) # rs) e = (case worker_read mp res e of None \<Rightarrow> None | Some e' \<Rightarrow> read_run rs e')"

definition stats_sum :: "(read_method, method_stats) gomap \<Rightarrow> nat" where
  "stats_sum m = sum_list (map (ms_count \<circ> snd) m)"

lemma stats_sum_put: "map_get m k = Some st \<Longrightarrow> stats_sum (map_put k st' m) + ms_count st = stats_sum m + ms_count st'"
  by (induction m) (auto simp: stats_sum_def map_get_def map_put_def split: if_splits)

lemma set_map_put: "set (map_put k v m) \<subseteq> insert (k, v) (set m)"
  by (induction m) (auto simp: map_put_def)

lemma map_get_mem: "map_get m k = Some v \<Longrightarrow> (k, v) \<in> set m"
  by (simp add: map_get_def map_of_SomeD)

definition engine_inv :: "read_method set \<Rightarrow> engine \<Rightarrow> bool" where
  "engine_inv ms e \<longleftrightarrow> map_keys (e_stats e) = ms \<and> e_sent e = e_errs e + latency_Count (pooledLat e) \<and>
     stats_sum (e_stats e) = e_sent e \<and>
     (\<forall>(m, st) \<in> set (e_stats e). ms_count st = ms_errors st + latency_Count (ms_lat st))"

lemma worker_read_inv:
  assumes "engine_inv ms e" "fst mp \<in> ms"
  shows "\<exists>e'. worker_read mp res e = Some e' \<and> engine_inv ms e' \<and>
    e_sent e' + e_skips e' + (if res = CallAborted \<and> snd mp \<noteq> None then 1 else 0) = e_sent e + e_skips e + 1"
proof (cases "snd mp = None \<or> res = CallAborted")
  case True
  then show ?thesis using assms(1) by (cases mp; cases "snd mp") (auto simp: worker_read_def engine_inv_def)
next
  case False
  obtain m params where mp: "mp = (m, Some params)" using False by (cases mp) auto
  obtain st where st: "map_get (e_stats e) m = Some st"
    using assms mp by (auto simp: engine_inv_def map_keys_get)
  have ok: "ms_count st = ms_errors st + latency_Count (ms_lat st)"
    using assms(1) map_get_mem [OF st] by (auto simp: engine_inv_def)
  have keys: "insert m ms = ms" using assms(2) mp by auto
  have upd: "\<forall>(m', st'') \<in> set (map_put m st' (e_stats e)). ms_count st'' = ms_errors st'' + latency_Count (ms_lat st'')"
    if "ms_count st' = ms_errors st' + latency_Count (ms_lat st')" for st'
    using that assms(1) subsetD [OF set_map_put [of m st' "e_stats e"]] by (fastforce simp: engine_inv_def)
  have sum: "stats_sum (map_put m st' (e_stats e)) = Suc (e_sent e)" if "ms_count st' = Suc (ms_count st)" for st'
    using stats_sum_put [OF st, of st'] that assms(1) by (simp add: engine_inv_def)
  show ?thesis
  proof (cases res)
    case (Replied lat)
    let ?st = "st\<lparr>ms_count := ms_count st + 1, ms_lat := latency_Add lat (ms_lat st)\<rparr>"
    show ?thesis
      using Replied assms(1) keys upd [of ?st] sum [of ?st] ok
      by (simp add: worker_read_def mp st Let_def engine_inv_def)
  next
    case CallFailed
    let ?st = "st\<lparr>ms_count := ms_count st + 1, ms_errors := ms_errors st + 1\<rparr>"
    show ?thesis
      using CallFailed assms(1) keys upd [of ?st] sum [of ?st] ok
      by (simp add: worker_read_def mp st Let_def engine_inv_def)
  qed (use False in simp)
qed

text \<open>
  C12: Whatever the reads of all workers end in, no read panics, the reads counted as sent are
  exactly the successful ones (each with one latency sample) plus the errors, per method and in
  total, and every iteration is counted once as sent or skipped unless the shutdown aborted it.
\<close>
theorem read_counters_agree:
  assumes "NewEngine nc nh nt cfg as erc now = Inr e0" "\<forall>(mp, res) \<in> set rs. fst mp \<in> fst ` set (picker e0)"
  shows "\<exists>e. read_run rs e0 = Some e \<and> e_sent e = e_errs e + latency_Count (pooledLat e) \<and>
    stats_sum (e_stats e) = e_sent e \<and>
    (\<forall>(m, st) \<in> set (e_stats e). ms_count st = ms_errors st + latency_Count (ms_lat st)) \<and>
    e_sent e + e_skips e + length (filter (\<lambda>(mp, res). res = CallAborted \<and> snd mp \<noteq> None) rs) = e_skips e0 + length rs"
proof -
  let ?ms = "fst ` set (picker e0)"
  note n = new_engine_cases [OF assms(1)]
  have z: "latency_Count NewStreamingLatencyStats = 0" by (simp add: latency_Count_def NewStreamingLatencyStats_def)
  have s0: "stats_sum (map (\<lambda>(m, _). (m, \<lparr>ms_count = 0, ms_errors = 0, ms_lat = NewStreamingLatencyStats\<rparr>)) xs) = 0"
    for xs :: "(read_method \<times> int) list" by (induction xs) (auto simp: stats_sum_def)
  have init: "engine_inv ?ms e0" "e_sent e0 = 0"
    using n z s0 by (auto simp: engine_inv_def map_keys_def image_image split_beta)
  have "\<exists>e'. read_run rs e = Some e' \<and> engine_inv ?ms e' \<and>
      e_sent e' + e_skips e' + length (filter (\<lambda>(mp, res). res = CallAborted \<and> snd mp \<noteq> None) rs)
        = e_sent e + e_skips e + length rs"
    if "engine_inv ?ms e" "\<forall>(mp, res) \<in> set rs. fst mp \<in> ?ms" for e
    using that
  proof (induction rs arbitrary: e)
    case (Cons x rs)
    obtain mp res where x: "x = (mp, res)" by (cases x)
    then obtain e1 where e1: "worker_read mp res e = Some e1" "engine_inv ?ms e1"
      "e_sent e1 + e_skips e1 + (if res = CallAborted \<and> snd mp \<noteq> None then 1 else 0) = e_sent e + e_skips e + 1"
      using worker_read_inv [OF Cons.prems(1), of mp res] Cons.prems(2) by auto
    show ?case using Cons.IH [OF e1(2)] Cons.prems(2) e1 by (auto simp: x split: if_splits)
  qed simp
  from this [OF init(1) assms(2)] init(2) show ?thesis by (auto simp: engine_inv_def)
qed

theorem read_counters_agree_witness:
  "\<exists>e0 e. NewEngine False False False example_read_config [''a''] [] 0 = Inr e0 \<and>
     read_run [((ReadMethodGetBalance, Some (BalanceParams ''a'' LatestBlock)), Replied 12),
               ((ReadMethodGetBlock, Some (BlockParams LatestBlock False)), CallFailed)] e0 = Some e \<and>
     e_sent e = e_errs e + latency_Count (pooledLat e)"
proof -
  let ?rs = "[((ReadMethodGetBalance, Some (BalanceParams ''a'' LatestBlock)), Replied 12),
     ((ReadMethodGetBlock, Some (BlockParams LatestBlock False)), CallFailed)]"
  obtain e0 where e0: "NewEngine False False False example_read_config [''a''] [] 0 = Inr e0"
    using example_engine_exists by blast
  have "picker e0 = [(ReadMethodGetBalance, 70), (ReadMethodGetBlock, 100)]"
    using new_engine_cases(2) [OF e0] by (simp add: mix_methods_def example_read_config_def)
  then have "\<forall>(mp, res) \<in> set ?rs. fst mp \<in> fst ` set (picker e0)" by simp
  from read_counters_agree [OF e0 this] e0 show ?thesis by blast
qed

end
