(* ===== verification/Workload.thy ===== *)
theory Workload
  imports Types
begin

text \<open>
  \<open>internal/workload/workload.go\<close>: which transaction type and which tip the next transaction of a
  mixed workload gets, which configuration a run really uses and which contracts it needs.  A
  random number is an argument (\<open>roll\<close> for \<open>IntN(100)\<close>, \<open>u\<close> for \<open>Float64()\<close>); \<open>math.Pow\<close> and
  \<open>math.Log\<close>, whose last bits Go leaves to the platform, are parameters.
\<close>

definition UsesRealisticMix :: "load_pattern \<Rightarrow> bool" where
  "UsesRealisticMix p \<longleftrightarrow> p = PatternRealistic \<or> p = PatternAdaptiveRealistic"

definition DefaultRealisticConfig :: realistic_config where
  "DefaultRealisticConfig =
     \<lparr>rt_NumAccounts = 100, rt_TargetTPS = 500, rt_MinTipGwei = 0, rt_MaxTipGwei = 10,
      rt_TipDistribution = TipDistExponential,
      rt_TxTypeRatios = \<lparr>EthTransfer = 50, ERC20Transfer = 20, ERC20Approve = 5, UniswapSwap = 15,
        StorageWrite = 5, HeavyCompute = 5\<rparr>\<rparr>"

definition EffectiveRealisticConfig :: "load_pattern \<Rightarrow> realistic_config option \<Rightarrow> realistic_config option" where
  "EffectiveRealisticConfig p cfg =
     (if \<not> UsesRealisticMix p then None
      else case cfg of Some c \<Rightarrow> Some c | None \<Rightarrow> Some DefaultRealisticConfig)"

definition DeployTxTypeFor :: "start_test_request \<Rightarrow> transaction_type" where
  "DeployTxTypeFor req =
     (case EffectiveRealisticConfig (rq_Pattern req) (rq_RealisticConfig req) of
        None \<Rightarrow> rq_TransactionType req
      | Some cfg \<Rightarrow>
          let ratios = rt_TxTypeRatios cfg in
          if 0 < UniswapSwap ratios then TxTypeUniswapSwap
          else if 0 < ERC20Transfer ratios \<or> 0 < ERC20Approve ratios \<or>
                  0 < StorageWrite ratios \<or> 0 < HeavyCompute ratios then TxTypeERC20Transfer
          else rq_TransactionType req)"

definition SelectRandomTxType :: "tx_type_ratio \<Rightarrow> int \<Rightarrow> transaction_type" where
  "SelectRandomTxType r roll =
     (let c1 = EthTransfer r; c2 = c1 + ERC20Transfer r; c3 = c2 + ERC20Approve r;
          c4 = c3 + UniswapSwap r; c5 = c4 + StorageWrite r in
      if roll < c1 then TxTypeEthTransfer
      else if roll < c2 then TxTypeERC20Transfer
      else if roll < c3 then TxTypeERC20Approve
      else if roll < c4 then TxTypeUniswapSwap
      else if roll < c5 then TxTypeStorageWrite
      else TxTypeHeavyCompute)"

text \<open>The first offending ratio in the order of the literal; Go's map order may name another one.\<close>

datatype ratio_error = RatioSum int | RatioRange string int

definition ratio_table :: "tx_type_ratio \<Rightarrow> (string \<times> int) list" where
  "ratio_table r =
     [(''ethTransfer'', EthTransfer r), (''erc20Transfer'', ERC20Transfer r),
      (''erc20Approve'', ERC20Approve r), (''uniswapSwap'', UniswapSwap r),
      (''storageWrite'', StorageWrite r), (''heavyCompute'', HeavyCompute r)]"

definition ValidateTxTypeRatios :: "tx_type_ratio \<Rightarrow> ratio_error option" where
  "ValidateTxTypeRatios r =
     (let sum = EthTransfer r + ERC20Transfer r + ERC20Approve r + UniswapSwap r + StorageWrite r + HeavyCompute r in
      if sum \<noteq> 100 then Some (RatioSum sum)
      else case filter (\<lambda>(name, v). v < 0 \<or> 100 < v) (ratio_table r) of
             [] \<Rightarrow> None
           | (name, v) # _ \<Rightarrow> Some (RatioRange name v))"

text \<open>The tip in wei.  The constants 0.001 and 0.999 are the float64 nearest to them.\<close>

definition tip_gwei ::
  "(f64 \<Rightarrow> f64 \<Rightarrow> f64) \<Rightarrow> (f64 \<Rightarrow> f64) \<Rightarrow> tip_distribution \<Rightarrow> f64 \<Rightarrow> f64 \<Rightarrow> f64 \<Rightarrow> f64" where
  "tip_gwei powf logf ds minGwei maxGwei u0 =
     (case ds of
        TipDistUniform \<Rightarrow> fadd minGwei (fmul u0 (fsub maxGwei minGwei))
      | TipDistPowerLaw \<Rightarrow>
          let u = (if u0 < fl (1/1000) then fl (1/1000) else u0)
          in fadd minGwei (fmul (fsub maxGwei minGwei) (fsub 1 (powf u (1/2))))
      | _ \<Rightarrow>
          let u = (if fl (999/1000) \<le> u0 then fl (999/1000) else u0);
              lambda = fdiv 3 (fsub maxGwei minGwei);
              tip = fsub minGwei (fmul (fdiv 1 lambda) (logf (fsub 1 u)))
          in if maxGwei < tip then maxGwei else tip)"

definition GenerateRandomTip ::
  "(f64 \<Rightarrow> f64 \<Rightarrow> f64) \<Rightarrow> (f64 \<Rightarrow> f64) \<Rightarrow> realistic_config option \<Rightarrow> f64 \<Rightarrow> int" where
  "GenerateRandomTip powf logf cfg u0 =
     (case cfg of
        None \<Rightarrow> 0
      | Some c \<Rightarrow>
          let minGwei = rt_MinTipGwei c;
              maxGwei = (if rt_MaxTipGwei c \<le> minGwei then fadd minGwei 1 else rt_MaxTipGwei c)
          in f64_trunc (fmul (tip_gwei powf logf (rt_TipDistribution c) minGwei maxGwei u0) 1000000000))"

section \<open>The mix is drawn with the configured weights\<close>

definition ratio_of :: "tx_type_ratio \<Rightarrow> transaction_type \<Rightarrow> int" where
  "ratio_of r ty =
     (case ty of TxTypeEthTransfer \<Rightarrow> EthTransfer r | TxTypeERC20Transfer \<Rightarrow> ERC20Transfer r
      | TxTypeERC20Approve \<Rightarrow> ERC20Approve r | TxTypeUniswapSwap \<Rightarrow> UniswapSwap r
      | TxTypeStorageWrite \<Rightarrow> StorageWrite r | TxTypeHeavyCompute \<Rightarrow> HeavyCompute r
      | _ \<Rightarrow> 0)"

lemma valid_ratios:
  assumes "ValidateTxTypeRatios r = None"
  shows "EthTransfer r + ERC20Transfer r + ERC20Approve r + UniswapSwap r + StorageWrite r + HeavyCompute r = 100"
    "0 \<le> EthTransfer r" "0 \<le> ERC20Transfer r" "0 \<le> ERC20Approve r" "0 \<le> UniswapSwap r"
    "0 \<le> StorageWrite r" "0 \<le> HeavyCompute r"
proof -
  have f: "filter (\<lambda>(name, v). v < 0 \<or> 100 < v) (ratio_table r) = []"
    and s: "EthTransfer r + ERC20Transfer r + ERC20Approve r + UniswapSwap r + StorageWrite r + HeavyCompute r = 100"
    using assms by (auto simp: ValidateTxTypeRatios_def Let_def split: if_splits list.splits)
  have "\<forall>(name, v) \<in> set (ratio_table r). 0 \<le> v" using f by (auto simp: filter_empty_conv)
  then show "0 \<le> EthTransfer r" "0 \<le> ERC20Transfer r" "0 \<le> ERC20Approve r" "0 \<le> UniswapSwap r"
    "0 \<le> StorageWrite r" "0 \<le> HeavyCompute r" by (simp_all add: ratio_table_def)
  show "EthTransfer r + ERC20Transfer r + ERC20Approve r + UniswapSwap r + StorageWrite r + HeavyCompute r = 100"
    by (rule s)
qed

text \<open>The rolls that select a type form an interval of the length of its ratio.\<close>

definition ratio_start :: "tx_type_ratio \<Rightarrow> transaction_type \<Rightarrow> int" where
  "ratio_start r ty =
     (case ty of TxTypeEthTransfer \<Rightarrow> 0 | TxTypeERC20Transfer \<Rightarrow> EthTransfer r
      | TxTypeERC20Approve \<Rightarrow> EthTransfer r + ERC20Transfer r
      | TxTypeUniswapSwap \<Rightarrow> EthTransfer r + ERC20Transfer r + ERC20Approve r
      | TxTypeStorageWrite \<Rightarrow> EthTransfer r + ERC20Transfer r + ERC20Approve r + UniswapSwap r
      | TxTypeHeavyCompute \<Rightarrow> EthTransfer r + ERC20Transfer r + ERC20Approve r + UniswapSwap r + StorageWrite r
      | _ \<Rightarrow> 0)"

lemma select_thresholds:
  assumes "ValidateTxTypeRatios r = None"
  shows "SelectRandomTxType r roll = ty \<longleftrightarrow>
    (case ty of
       TxTypeEthTransfer \<Rightarrow> roll < EthTransfer r
     | TxTypeHeavyCompute \<Rightarrow> ratio_start r ty \<le> roll
     | _ \<Rightarrow> ratio_start r ty \<le> roll \<and> roll < ratio_start r ty + ratio_of r ty)"
proof -
  note v = valid_ratios [OF assms]
  let ?c1 = "EthTransfer r" and ?c2 = "EthTransfer r + ERC20Transfer r"
  let ?c3 = "?c2 + ERC20Approve r" let ?c4 = "?c3 + UniswapSwap r" let ?c5 = "?c4 + StorageWrite r"
  have "SelectRandomTxType r roll =
      (if roll < ?c1 then TxTypeEthTransfer else if roll < ?c2 then TxTypeERC20Transfer else if roll < ?c3 then TxTypeERC20Approve
       else if roll < ?c4 then TxTypeUniswapSwap else if roll < ?c5 then TxTypeStorageWrite else TxTypeHeavyCompute)"
    unfolding SelectRandomTxType_def Let_def by (rule refl)
  then show ?thesis using v by (cases ty) (simp_all add: ratio_start_def ratio_of_def)
qed

lemma select_interval:
  assumes "ValidateTxTypeRatios r = None"
  shows "{roll \<in> {0..<100}. SelectRandomTxType r roll = ty} = {ratio_start r ty ..< ratio_start r ty + ratio_of r ty}"
proof -
  note v = valid_ratios [OF assms]
  have "0 \<le> ratio_start r ty" "ratio_start r ty + ratio_of r ty \<le> 100" "0 \<le> ratio_of r ty"
    "ty = TxTypeHeavyCompute \<longrightarrow> ratio_start r ty + ratio_of r ty = 100" "ty = TxTypeEthTransfer \<longrightarrow> ratio_start r ty = 0 \<and> ratio_of r ty = EthTransfer r"
    using v by (cases ty; simp add: ratio_start_def ratio_of_def)+
  then show ?thesis
    unfolding select_thresholds [OF assms] by (cases ty) auto
qed

text \<open>
  With ratios that pass validation, exactly \<open>ratio\<close> of the hundred equally likely rolls select
  a transaction type, for every type; types outside the mix are never selected.
\<close>
theorem mix_has_configured_weights:
  assumes "ValidateTxTypeRatios r = None"
  shows "int (card {roll \<in> {0..<100}. SelectRandomTxType r roll = ty}) = ratio_of r ty"
proof -
  have "0 \<le> ratio_of r ty"
    using valid_ratios [OF assms] by (simp add: ratio_of_def split: transaction_type.split)
  then show ?thesis unfolding select_interval [OF assms] by simp
qed

theorem mix_has_configured_weights_witness:
  "int (card {roll \<in> {0..<100}. SelectRandomTxType (rt_TxTypeRatios DefaultRealisticConfig) roll
      = TxTypeUniswapSwap}) = 15"
proof -
  have "ValidateTxTypeRatios (rt_TxTypeRatios DefaultRealisticConfig) = None"
    by (simp add: ValidateTxTypeRatios_def DefaultRealisticConfig_def ratio_table_def)
  from mix_has_configured_weights [OF this, of TxTypeUniswapSwap] show ?thesis
    by (simp add: ratio_of_def DefaultRealisticConfig_def)
qed

section \<open>The deployed contracts cover the mix\<close>

text \<open>The deployments a type needs, and those a decision triggers (\<open>ensureContractsDeployed\<close>).\<close>

definition needs_base :: "transaction_type \<Rightarrow> bool" where
  "needs_base ty \<longleftrightarrow> ty \<in> {TxTypeERC20Transfer, TxTypeERC20Approve, TxTypeERC721Transfer,
     TxTypeStorageWrite, TxTypeHeavyCompute}"

definition covers :: "transaction_type \<Rightarrow> transaction_type \<Rightarrow> bool" where
  "covers deployed ty \<longleftrightarrow>
     (needs_base ty \<longrightarrow> deployed \<noteq> TxTypeEthTransfer) \<and>
     (ty = TxTypeUniswapSwap \<longrightarrow> deployed = TxTypeUniswapSwap)"

text \<open>
  For a mixed workload with valid ratios the deploy decision covers every type a worker can
  select: the contracts of every type in the mix are deployed before the run, with or without a
  configuration in the request.
\<close>
theorem deployment_covers_mix:
  assumes "EffectiveRealisticConfig (rq_Pattern req) (rq_RealisticConfig req) = Some cfg"
    "ValidateTxTypeRatios (rt_TxTypeRatios cfg) = None" "0 \<le> roll" "roll < 100"
  shows "covers (DeployTxTypeFor req) (SelectRandomTxType (rt_TxTypeRatios cfg) roll)"
proof -
  define ty where "ty = SelectRandomTxType (rt_TxTypeRatios cfg) roll"
  have "roll \<in> {roll \<in> {0..<100}. SelectRandomTxType (rt_TxTypeRatios cfg) roll = ty}"
    using assms(3,4) by (simp add: ty_def)
  then have "0 < ratio_of (rt_TxTypeRatios cfg) ty"
    unfolding select_interval [OF assms(2)] by simp
  moreover have "covers (DeployTxTypeFor req) ty" if "0 < ratio_of (rt_TxTypeRatios cfg) ty"
    using that unfolding DeployTxTypeFor_def assms(1) option.case Let_def
    by (cases ty; simp add: covers_def needs_base_def ratio_of_def)
  ultimately show ?thesis unfolding ty_def by blast
qed

theorem deployment_covers_mix_witness:
  "\<exists>req. rq_RealisticConfig req = None \<and>
     covers (DeployTxTypeFor req) (SelectRandomTxType (rt_TxTypeRatios DefaultRealisticConfig) 80)"
proof -
  let ?req = "\<lparr>rq_Pattern = PatternAdaptiveRealistic, rq_DurationSec = 60, rq_NumAccounts = 0,
    rq_TransactionType = TxTypeEthTransfer, rq_ConstantRate = 0, rq_RampStart = 0, rq_RampEnd = 0,
    rq_RampSteps = 0, rq_BaselineRate = 0, rq_SpikeRate = 0, rq_SpikeDuration = 0, rq_SpikeInterval = 0,
    rq_AdaptiveInitialRate = 0, rq_AdaptiveTargetPending = 0, rq_AdaptiveRateStep = 0,
    rq_RealisticConfig = None, rq_ReadLoad = None, rq_PrivacyMode = False, rq_Gasless = False,
    rq_FixNonceGaps = False, rq_Erc721PreMint = 0\<rparr>"
  have "EffectiveRealisticConfig (rq_Pattern ?req) (rq_RealisticConfig ?req) = Some DefaultRealisticConfig"
    by (simp add: EffectiveRealisticConfig_def UsesRealisticMix_def)
  moreover have "ValidateTxTypeRatios (rt_TxTypeRatios DefaultRealisticConfig) = None"
    by (simp add: ValidateTxTypeRatios_def DefaultRealisticConfig_def ratio_table_def)
  ultimately have "covers (DeployTxTypeFor ?req) (SelectRandomTxType (rt_TxTypeRatios DefaultRealisticConfig) 80)"
    using deployment_covers_mix [of ?req DefaultRealisticConfig 80] by simp
  then show ?thesis by (intro exI [of _ ?req]) simp
qed

section \<open>Tips stay in their range\<close>

lemma width_bounds:
  assumes "f64_exact lo" "f64_exact hi" "f64_exact (hi - lo)" "lo < hi" "0 \<le> v" "v \<le> 1"
  shows "lo \<le> fadd lo (fmul (fsub hi lo) v)" "fadd lo (fmul (fsub hi lo) v) \<le> hi"
    "fmul (fsub hi lo) v = fmul v (fsub hi lo)"
proof -
  have d: "fsub hi lo = hi - lo" using assms(3) by (simp add: fsub_def f64_exact_def)
  have m: "0 \<le> fmul (hi - lo) v" unfolding fmul_def using assms by (intro fl_nonneg) simp
  have "fmul (hi - lo) v \<le> hi - lo"
    unfolding fmul_def using assms by (intro fl_le_exact) (simp_all add: mult_left_le)
  then show "fadd lo (fmul (fsub hi lo) v) \<le> hi"
    unfolding d fadd_def using assms(2) by (intro fl_le_exact) simp_all
  show "lo \<le> fadd lo (fmul (fsub hi lo) v)" unfolding d fadd_def using m assms(1) by (intro fl_ge_exact) simp_all
  show "fmul (fsub hi lo) v = fmul v (fsub hi lo)" by (simp add: fmul_def mult.commute)
qed

lemma thousandths: "0 < fl (1/1000)" "fl (1/1000) \<le> 1" "fl (999/1000) < 1" "0 \<le> fl (999/1000)"
proof -
  show "0 < fl (1/1000)" by (simp add: fl_pos)
  show "fl (1/1000) \<le> 1" by (rule fl_le_exact) simp_all
  show "0 \<le> fl (999/1000)" by (simp add: fl_nonneg)
  have "\<bar>fl (999/1000) - 999/1000\<bar> \<le> \<bar>999/1000\<bar> / 2 ^ 53" by (rule fl_error)
  also have "\<dots> < (1/1000 :: rat)" by simp
  finally show "fl (999/1000) < 1" by linarith
qed

lemma exponential_lower:
  assumes "f64_exact lo" "lo < hi" "0 \<le> u" "u < 1" "\<And>x. 0 < x \<Longrightarrow> x \<le> 1 \<Longrightarrow> logf x \<le> 0"
  shows "lo \<le> fsub lo (fmul (fdiv 1 (fdiv 3 (fsub hi lo))) (logf (fsub 1 u)))"
proof -
  have "0 < fsub 1 u" "fsub 1 u \<le> 1"
    using assms(3,4) by (simp_all add: fsub_def fl_pos fl_le_exact)
  then have l: "logf (fsub 1 u) \<le> 0" using assms(5) by simp
  have "0 < fsub hi lo" using assms(2) by (simp add: fsub_def fl_pos)
  then have "0 \<le> fdiv 1 (fdiv 3 (fsub hi lo))" by (simp add: fdiv_def fl_nonneg fl_pos less_imp_le)
  then have "fmul (fdiv 1 (fdiv 3 (fsub hi lo))) (logf (fsub 1 u)) \<le> 0"
    using l unfolding fmul_def by (intro fl_le_exact) (simp_all add: mult_nonneg_nonpos)
  then show ?thesis unfolding fsub_def using assms(1) by (intro fl_ge_exact) simp_all
qed

text \<open>
  Whatever the distribution and the random number, the tip in wei lies between the configured
  minimum and maximum (in wei, truncated), for ends whose distance is a float64, if \<open>math.Pow\<close> maps
  the unit interval to itself and \<open>math.Log\<close> is not positive on it.
\<close>
theorem tip_in_configured_range:
  assumes "f64_exact (rt_MinTipGwei c)" "f64_exact (rt_MaxTipGwei c)"
    "f64_exact (rt_MaxTipGwei c - rt_MinTipGwei c)" "rt_MinTipGwei c < rt_MaxTipGwei c" "0 \<le> u" "u < 1"
    "\<And>x. 0 \<le> x \<Longrightarrow> x \<le> 1 \<Longrightarrow> 0 \<le> powf x (1/2) \<and> powf x (1/2) \<le> 1"
    "\<And>x. 0 < x \<Longrightarrow> x \<le> 1 \<Longrightarrow> logf x \<le> 0"
  shows "f64_trunc (fmul (rt_MinTipGwei c) 1000000000) \<le> GenerateRandomTip powf logf (Some c) u \<and>
    GenerateRandomTip powf logf (Some c) u \<le> f64_trunc (fmul (rt_MaxTipGwei c) 1000000000)"
proof -
  let ?lo = "rt_MinTipGwei c" and ?hi = "rt_MaxTipGwei c"
  have le: "f64_trunc (fmul x 1000000000) \<le> f64_trunc (fmul y 1000000000)" if "x \<le> y" for x y
    using that by (intro f64_trunc_mono) (simp add: fmul_def fl_mono)
  note w = width_bounds [OF assms(1-4)]
  let ?v = "if u < fl (1/1000) then fl (1/1000) else u"
  have "0 \<le> ?v" "?v \<le> 1" using thousandths assms(5,6) by auto
  then have "0 \<le> powf ?v (1/2)" "powf ?v (1/2) \<le> 1" using assms(7) by blast+
  then have p: "0 \<le> fsub 1 (powf ?v (1/2))" "fsub 1 (powf ?v (1/2)) \<le> 1"
    by (simp_all add: fsub_def fl_nonneg fl_le_exact)
  let ?x = "if fl (999/1000) \<le> u then fl (999/1000) else u"
  have x: "0 \<le> ?x" "?x < 1" using thousandths assms(5,6) by auto
  have ex: "?lo \<le> fsub ?lo (fmul (fdiv 1 (fdiv 3 (fsub ?hi ?lo))) (logf (fsub 1 ?x)))"
    by (rule exponential_lower [OF assms(1,4) x assms(8)])
  have "?lo \<le> tip_gwei powf logf d ?lo ?hi u \<and> tip_gwei powf logf d ?lo ?hi u \<le> ?hi" for d
  proof (cases d)
    case TipDistUniform
    then show ?thesis
      using w(1,2) [of u] w(3) [of u] assms(5,6) by (simp add: tip_gwei_def)
  next
    case TipDistPowerLaw
    then show ?thesis using w(1,2) [OF p] by (simp only: tip_gwei_def tip_distribution.case Let_def)
  qed (use ex assms(4) in \<open>simp_all only: tip_gwei_def tip_distribution.case Let_def split: if_split\<close>, auto)
  then show ?thesis using assms(4) by (simp add: GenerateRandomTip_def Let_def le)
qed

theorem tip_in_configured_range_witness:
  "GenerateRandomTip (\<lambda>x y. x) (\<lambda>x. x - 1) (Some DefaultRealisticConfig) (1/2)
     \<le> f64_trunc (fmul 10 1000000000)"
proof -
  let ?c = DefaultRealisticConfig
  have e: "rt_MinTipGwei ?c = 0" "rt_MaxTipGwei ?c = 10" by (simp_all add: DefaultRealisticConfig_def)
  have ten: "f64_exact (10::rat)" using f64_exact_of_int [of 10] by simp
  show ?thesis
    using tip_in_configured_range [of ?c "1/2" "\<lambda>x y. x" "\<lambda>x. x - 1"] ten by (simp add: e)
qed

end
