(* ===== verification/Test_Setup.thy ===== *)
theory Test_Setup
  imports Patterns Read_Load Workload
begin

text \<open>
  What happens to a start request before the first transaction: its validation
  (\<open>internal/transport/http.go\<close>), the account arithmetic of \<open>internal/config/config.go\<close>, and the
  decisions of \<open>runInitialization\<close> (\<open>internal/loadgen/init.go\<close>): number of accounts, gas price
  caps, pattern configuration, initial rate, transaction logging and number of workers.
\<close>

section \<open>Request validation\<close>

datatype request_error =
    InvalidPattern | NotPositive string int | IsNegative string int | AboveMaximum string int
  | InvalidTransactionType | PreMintWithoutErc721 | BadReadLoad read_config_error
  | RealisticConfigMissing | NegativeMinTip f64 | MaxTipBelowMin f64 f64

text \<open>A chain of checks: the first that fails decides.\<close>

fun first_failure :: "(bool \<times> 'e) list \<Rightarrow> 'e option" where
  "first_failure [] = None"
| "first_failure ((bad, e) # cs) = (if bad then Some e else first_failure cs)"

definition valid_pattern :: "load_pattern \<Rightarrow> bool" where
  "valid_pattern p = (case p of PatternOther s \<Rightarrow> False | _ \<Rightarrow> True)"

definition valid_tx_type :: "transaction_type \<Rightarrow> bool" where
  "valid_tx_type t = (case t of TxTypeOther s \<Rightarrow> s = [] | _ \<Rightarrow> True)"

definition common_checks :: "start_test_request \<Rightarrow> (bool \<times> request_error) list" where
  "common_checks req =
     [(\<not> valid_pattern (rq_Pattern req), InvalidPattern),
      (rq_DurationSec req \<le> 0, NotPositive ''durationSec'' (rq_DurationSec req)),
      (86400 < rq_DurationSec req, AboveMaximum ''durationSec'' 86400),
      (rq_NumAccounts req < 0, IsNegative ''numAccounts'' (rq_NumAccounts req)),
      (100000 < rq_NumAccounts req, AboveMaximum ''numAccounts'' 100000),
      (\<not> valid_tx_type (rq_TransactionType req), InvalidTransactionType),
      (rq_Erc721PreMint req < 0, IsNegative ''erc721PreMint'' (rq_Erc721PreMint req)),
      (100000 < rq_Erc721PreMint req, AboveMaximum ''erc721PreMint'' 100000),
      (0 < rq_Erc721PreMint req \<and> rq_TransactionType req \<noteq> TxTypeERC721Transfer, PreMintWithoutErc721)]"

definition read_load_check :: "start_test_request \<Rightarrow> request_error option" where
  "read_load_check req =
     (case rq_ReadLoad req of None \<Rightarrow> None | Some cfg \<Rightarrow> map_option BadReadLoad (read_Validate cfg))"

definition pattern_checks :: "start_test_request \<Rightarrow> (bool \<times> request_error) list" where
  "pattern_checks req =
     (case rq_Pattern req of
        PatternConstant \<Rightarrow>
          [(rq_ConstantRate req \<le> 0, NotPositive ''constantRate'' (rq_ConstantRate req)),
           (100000 < rq_ConstantRate req, AboveMaximum ''constantRate'' 100000)]
      | PatternRamp \<Rightarrow>
          [(rq_RampStart req < 0, IsNegative ''rampStart'' (rq_RampStart req)),
           (rq_RampEnd req \<le> 0, NotPositive ''rampEnd'' (rq_RampEnd req)),
           (100000 < rq_RampEnd req, AboveMaximum ''rampEnd'' 100000),
           (rq_RampSteps req \<le> 0, NotPositive ''rampSteps'' (rq_RampSteps req)),
           (1000 < rq_RampSteps req, AboveMaximum ''rampSteps'' 1000)]
      | PatternSpike \<Rightarrow>
          [(rq_BaselineRate req < 0, IsNegative ''baselineRate'' (rq_BaselineRate req)),
           (rq_SpikeRate req \<le> 0, NotPositive ''spikeRate'' (rq_SpikeRate req)),
           (100000 < rq_SpikeRate req, AboveMaximum ''spikeRate'' 100000),
           (rq_SpikeDuration req \<le> 0, NotPositive ''spikeDuration'' (rq_SpikeDuration req)),
           (3600 < rq_SpikeDuration req, AboveMaximum ''spikeDuration'' 3600),
           (rq_SpikeInterval req \<le> 0, NotPositive ''spikeInterval'' (rq_SpikeInterval req)),
           (3600 < rq_SpikeInterval req, AboveMaximum ''spikeInterval'' 3600)]
      | PatternRealistic \<Rightarrow>
          (case rq_RealisticConfig req of
             None \<Rightarrow> [(True, RealisticConfigMissing)]
           | Some cfg \<Rightarrow>
               [(rt_NumAccounts cfg < 0, IsNegative ''realisticConfig.numAccounts'' (rt_NumAccounts cfg)),
                (100000 < rt_NumAccounts cfg, AboveMaximum ''realisticConfig.numAccounts'' 100000),
                (rt_TargetTPS cfg \<le> 0, NotPositive ''realisticConfig.targetTps'' (rt_TargetTPS cfg)),
                (100000 < rt_TargetTPS cfg, AboveMaximum ''realisticConfig.targetTps'' 100000),
                (rt_MinTipGwei cfg < 0, NegativeMinTip (rt_MinTipGwei cfg)),
                (rt_MaxTipGwei cfg < rt_MinTipGwei cfg, MaxTipBelowMin (rt_MaxTipGwei cfg) (rt_MinTipGwei cfg))])
      | PatternOther s \<Rightarrow> []
      | _ \<Rightarrow>
          [(rq_AdaptiveInitialRate req < 0, IsNegative ''adaptiveInitialRate'' (rq_AdaptiveInitialRate req)),
           (100000 < rq_AdaptiveInitialRate req, AboveMaximum ''adaptiveInitialRate'' 100000)])"

definition validateStartRequest :: "start_test_request \<Rightarrow> request_error option" where
  "validateStartRequest req =
     (case first_failure (common_checks req) of
        Some e \<Rightarrow> Some e
      | None \<Rightarrow> (case read_load_check req of
                   Some e \<Rightarrow> Some e
                 | None \<Rightarrow> first_failure (pattern_checks req)))"

section \<open>Account arithmetic\<close>

definition block_time_ms :: "int \<Rightarrow> int" where
  "block_time_ms ms = (if ms \<le> 0 then 250 else ms)"

definition CalculateRequiredAccounts :: "int \<Rightarrow> int \<Rightarrow> int" where
  "CalculateRequiredAccounts targetTPS blockTimeMS =
     (let blockTimeSec = fdiv (f64_of_int (block_time_ms blockTimeMS)) 1000;
          required = \<lceil>fmul (fdiv (fmul (f64_of_int targetTPS) blockTimeSec) 15) (3/2)\<rceil>;
          required1 = (if required < 100 then 100 else required)
      in if 5000 < required1 then 5000 else required1)"

definition EstimateMaxTPS :: "int \<Rightarrow> int \<Rightarrow> int" where
  "EstimateMaxTPS numAccounts blockTimeMS =
     (let blockTimeSec = fdiv (f64_of_int (block_time_ms blockTimeMS)) 1000;
          maxTPS = f64_trunc (fdiv (fmul (f64_of_int numAccounts) 15) blockTimeSec)
      in if maxTPS < 1 then 1 else maxTPS)"

text \<open>The numbers of the warning; \<open>None\<close> is the empty string.\<close>

definition CheckAccountSufficiency :: "int \<Rightarrow> int \<Rightarrow> int \<Rightarrow> (int \<times> int \<times> f64) option" where
  "CheckAccountSufficiency numAccounts targetTPS blockTimeMS =
     (if targetTPS \<le> 0 \<or> numAccounts \<le> 0 then None
      else let recommended = CalculateRequiredAccounts targetTPS blockTimeMS in
           if recommended \<le> numAccounts then None
           else Some (EstimateMaxTPS numAccounts blockTimeMS, recommended,
                  fmul (fdiv (f64_of_int numAccounts) (f64_of_int recommended)) 100))"

section \<open>Decisions of the initialization\<close>

text \<open>The first non-zero rate of the request.\<close>

definition target_rate :: "start_test_request \<Rightarrow> int" where
  "target_rate req =
     (let t1 = rq_ConstantRate req; t2 = (if t1 = 0 then rq_RampEnd req else t1);
          t3 = (if t2 = 0 then rq_SpikeRate req else t2)
      in if t3 = 0 then (case rq_RealisticConfig req of None \<Rightarrow> t3 | Some c \<Rightarrow> rt_TargetTPS c) else t3)"

definition requested_accounts :: "start_test_request \<Rightarrow> int" where
  "requested_accounts req =
     (if rq_NumAccounts req \<le> 0
      then (case rq_RealisticConfig req of
              Some c \<Rightarrow> if 0 < rt_NumAccounts c then rt_NumAccounts c else rq_NumAccounts req
            | None \<Rightarrow> rq_NumAccounts req)
      else rq_NumAccounts req)"

definition auto_accounts :: "int \<Rightarrow> start_test_request \<Rightarrow> int" where
  "auto_accounts blockTimeMS req =
     (if rq_Pattern req = PatternAdaptive
      then if 0 < rq_AdaptiveInitialRate req
           then CalculateRequiredAccounts (rq_AdaptiveInitialRate req * 2) blockTimeMS else 500
      else if 0 < target_rate req then CalculateRequiredAccounts (target_rate req) blockTimeMS
      else 10)"

text \<open>The number of accounts, and the warning about too few of them.\<close>

definition choose_accounts :: "int \<Rightarrow> start_test_request \<Rightarrow> int \<times> (int \<times> int \<times> f64) option" where
  "choose_accounts blockTimeMS req =
     (let n = requested_accounts req in
      if n \<le> 0 then (auto_accounts blockTimeMS req, None)
      else let t = target_rate req;
               t' = (if t = 0 \<and> 0 < rq_AdaptiveInitialRate req then rq_AdaptiveInitialRate req * 2 else t)
           in (n, CheckAccountSufficiency n t' blockTimeMS))"

text \<open>
  Tip and fee cap in wei (\<open>big.Int\<close>); the replies are the node's gas price and base fee, \<open>None\<close> on
  an error; \<open>int64\<close> of a \<open>uint64\<close> wraps.
\<close>

definition gas_caps :: "bool \<Rightarrow> int \<Rightarrow> int \<Rightarrow> u64 option \<Rightarrow> u64 option \<Rightarrow> int \<times> int" where
  "gas_caps gasless cfgTip cfgFee gasPrice baseFee =
     (if gasless then (0, 0)
      else
        let fee0 = (if 0 < cfgFee then cfgFee
                    else case gasPrice of None \<Rightarrow> cfgTip * 2 | Some p \<Rightarrow> sint p * 2);
            fee1 = (if fee0 < cfgTip then cfgTip else fee0)
        in (cfgTip,
            case baseFee of
              None \<Rightarrow> fee1
            | Some b \<Rightarrow>
                if 0 < b then (let minFee = sint b * 2 in if fee1 < minFee then minFee else fee1) else fee1))"

definition pattern_config_of :: "start_test_request \<Rightarrow> pattern_config" where
  "pattern_config_of req =
     \<lparr>pc_Duration = rq_DurationSec req * second, pc_ConstantRate = rq_ConstantRate req,
      pc_RampStart = rq_RampStart req, pc_RampEnd = rq_RampEnd req, pc_BaselineRate = rq_BaselineRate req,
      pc_SpikeRate = rq_SpikeRate req, pc_SpikeDuration = rq_SpikeDuration req * second,
      pc_SpikeInterval = rq_SpikeInterval req * second, pc_AdaptiveInitialRate = rq_AdaptiveInitialRate req,
      pc_RealisticRate = (case rq_RealisticConfig req of
         Some c \<Rightarrow> if 0 < rt_TargetTPS c then rt_TargetTPS c else 0 | None \<Rightarrow> 0)\<rparr>"

definition initial_rate :: "pattern \<Rightarrow> (f64 \<times> pattern) option" where
  "initial_rate pat =
     (case GetRate 0 pat of
        None \<Rightarrow> None
      | Some (r, pat') \<Rightarrow> let x = f64_of_int r in Some (if x \<le> 0 then 100 else x, pat'))"

definition logging_rate :: "start_test_request \<Rightarrow> int" where
  "logging_rate req = (if target_rate req = 0 then 1000 else target_rate req)"

definition shouldLogTransactions :: "int \<Rightarrow> int \<Rightarrow> bool" where
  "shouldLogTransactions durationSec targetTPS = (durationSec * targetTPS * 150 \<le> 200 * 1024 * 1024)"

definition num_workers :: "int \<Rightarrow> int \<Rightarrow> int \<Rightarrow> int" where
  "num_workers allAccounts pool numAccounts =
     (let n = (if pool < allAccounts then pool else allAccounts) in if numAccounts < n then numAccounts else n)"

section \<open>Validated requests run\<close>

lemma first_failure_None: "first_failure cs = None \<longleftrightarrow> (\<forall>(bad, e) \<in> set cs. \<not> bad)"
  by (induction cs rule: first_failure.induct) (auto split: if_splits)

lemma validated:
  assumes "validateStartRequest req = None"
  shows "\<forall>(bad, e) \<in> set (common_checks req). \<not> bad" "\<forall>(bad, e) \<in> set (pattern_checks req). \<not> bad"
proof -
  have "first_failure (common_checks req) = None" "first_failure (pattern_checks req) = None"
    using assms by (auto simp: validateStartRequest_def split: option.splits)
  then show "\<forall>(bad, e) \<in> set (common_checks req). \<not> bad" "\<forall>(bad, e) \<in> set (pattern_checks req). \<not> bad"
    by (simp_all only: first_failure_None)
qed

text \<open>
  A request that passes validation always builds its load pattern, and following the pattern
  never panics and never asks for a negative rate or for one above 100000, except that a ramp's
  start and a spike's baseline, which validation does not bound, may be above it.
\<close>
theorem validated_request_runs:
  assumes "validateStartRequest req = None" "rq_RampStart req \<le> 2 ^ 52"
  shows "\<exists>p. pattern_Get NewRegistry (rq_Pattern req) (pattern_config_of req) = Inr p \<and>
    (\<exists>rs p'. follow GetRate ts p = Some (rs, p') \<and> length rs = length ts \<and>
      (\<forall>r \<in> set rs. 0 \<le> r \<and> r \<le> max 100000 (max (rq_RampStart req) (rq_BaselineRate req))))"
proof -
  note c = validated [OF assms(1)]
  let ?m = "max 100000 (max (rq_RampStart req) (rq_BaselineRate req))"
  have "\<exists>p. pattern_Get NewRegistry (rq_Pattern req) (pattern_config_of req) = Inr p \<and>
      pattern_good p \<and> 0 \<le> fst (pattern_bounds p) \<and> snd (pattern_bounds p) \<le> ?m"
  proof (cases "rq_Pattern req")
    case PatternRealistic
    then obtain cfg where "rq_RealisticConfig req = Some cfg" using c(2) by (auto simp: pattern_checks_def split: option.splits)
    then show ?thesis using PatternRealistic c(2)
      by (auto simp: pattern_Get_NewRegistry pattern_checks_def pattern_config_of_def NewConstant_def)
  next
    case (PatternOther s)
    then show ?thesis using c(1) by (simp add: common_checks_def valid_pattern_def)
  qed (use c(2) assms(2) in \<open>auto simp: pattern_Get_NewRegistry pattern_checks_def pattern_config_of_def
      NewConstant_def NewRamp_def NewSpike_def NewAdaptive_def second_def\<close>)
  then obtain p where p: "pattern_Get NewRegistry (rq_Pattern req) (pattern_config_of req) = Inr p"
    "pattern_good p" "0 \<le> fst (pattern_bounds p)" "snd (pattern_bounds p) \<le> ?m" by blast
  obtain rs p' where "follow GetRate ts p = Some (rs, p')" "length rs = length ts"
    "\<forall>r \<in> set rs. fst (pattern_bounds p) \<le> r \<and> r \<le> snd (pattern_bounds p)"
    using any_rate.follow_bounds [of p "fst (pattern_bounds p)" "snd (pattern_bounds p)" ts] p(2) by auto
  then show ?thesis using p(1,3,4) by fastforce
qed

definition example_request :: start_test_request where
  "example_request =
     \<lparr>rq_Pattern = PatternRamp, rq_DurationSec = 60, rq_NumAccounts = 0, rq_TransactionType = TxTypeEthTransfer,
      rq_ConstantRate = 0, rq_RampStart = 100, rq_RampEnd = 1000, rq_RampSteps = 10, rq_BaselineRate = 0,
      rq_SpikeRate = 0, rq_SpikeDuration = 0, rq_SpikeInterval = 0, rq_AdaptiveInitialRate = 0,
      rq_AdaptiveTargetPending = 0, rq_AdaptiveRateStep = 0, rq_RealisticConfig = None, rq_ReadLoad = None,
      rq_PrivacyMode = False, rq_Gasless = False, rq_FixNonceGaps = False, rq_Erc721PreMint = 0\<rparr>"

lemma example_request_valid: "validateStartRequest example_request = None"
  by (simp add: validateStartRequest_def example_request_def common_checks_def pattern_checks_def
      read_load_check_def valid_pattern_def valid_tx_type_def)

theorem validated_request_runs_witness:
  "\<exists>p rs p'. pattern_Get NewRegistry PatternRamp (pattern_config_of example_request) = Inr p \<and>
     follow GetRate [0, 30 * second, 90 * second] p = Some (rs, p') \<and> (\<forall>r \<in> set rs. 0 \<le> r \<and> r \<le> 100000)"
proof -
  have e: "rq_Pattern example_request = PatternRamp" "rq_RampStart example_request = 100" "rq_BaselineRate example_request = 0"
    by (simp_all add: example_request_def)
  have "rq_RampStart example_request \<le> 2 ^ 52" by (simp add: e)
  from validated_request_runs [OF example_request_valid this, of "[0, 30 * second, 90 * second]"]
  show ?thesis unfolding e by auto
qed

text \<open>
  What validation and account selection leave open: the adaptive-realistic pattern without account
  and rate numbers runs on ten accounts whatever its initial rate.
\<close>

lemma adaptive_realistic_ten_accounts:
  assumes "rq_Pattern req = PatternAdaptiveRealistic" "rq_NumAccounts req = 0" "rq_RealisticConfig req = None"
    "rq_ConstantRate req = 0" "rq_RampEnd req = 0" "rq_SpikeRate req = 0"
  shows "choose_accounts ms req = (10, None)"
  using assms by (simp add: choose_accounts_def requested_accounts_def auto_accounts_def target_rate_def)

section \<open>Gas caps\<close>

text \<open>
  Unless the run is gasless, the fee cap is at least the tip and, when the node reports a base
  fee, at least twice the base fee; a configured fee cap is only ever raised; a gasless run pays
  nothing.
\<close>
theorem gas_caps_are_sufficient:
  assumes "gas_caps gasless cfgTip cfgFee gasPrice baseFee = (tip, fee)" "0 \<le> cfgTip"
  shows "if gasless then tip = 0 \<and> fee = 0
    else tip = cfgTip \<and> tip \<le> fee \<and> cfgFee \<le> fee \<and> (\<forall>b. baseFee = Some b \<longrightarrow> 2 * sint b \<le> fee)"
proof (cases "gasless \<or> baseFee = None")
  case True
  then show ?thesis using assms by (cases gasless) (simp_all add: gas_caps_def Let_def split: if_splits option.splits)
next
  case False
  then obtain b where b: "baseFee = Some b" "\<not> gasless" by auto
  define fee0 where "fee0 = (if 0 < cfgFee then cfgFee else case gasPrice of None \<Rightarrow> cfgTip * 2 | Some p \<Rightarrow> sint p * 2)"
  define fee1 where "fee1 = (if fee0 < cfgTip then cfgTip else fee0)"
  have f1: "cfgTip \<le> fee1" "cfgFee \<le> fee1" using assms(2) by (auto simp: fee1_def fee0_def)
  have "tip = cfgTip" "fee = (if 0 < b then if fee1 < sint b * 2 then sint b * 2 else fee1 else fee1)"
    using assms(1) b unfolding fee1_def fee0_def gas_caps_def by (auto simp: Let_def)
  moreover have "2 * sint b \<le> fee1" if "\<not> 0 < b"
    using that f1 assms(2) by (simp add: word_gt_0)
  ultimately show ?thesis using b f1 by auto
qed

theorem gas_caps_are_sufficient_witness:
  "gas_caps False 1000000000 0 (Some 400000000) (Some 300000000) = (1000000000, 1000000000)
   \<and> (1000000000::int) \<le> 1000000000 \<and> 2 * sint (300000000 :: u64) \<le> 1000000000"
proof -
  have "gas_caps False 1000000000 0 (Some 400000000) (Some 300000000) = (1000000000, 1000000000)"
    by (simp add: gas_caps_def)
  from gas_caps_are_sufficient [OF this] this show ?thesis by simp
qed

section \<open>The calculated accounts carry the target rate\<close>

lemma fl_ge_nine_tenths: "0 \<le> x \<Longrightarrow> 9/10 * x \<le> fl x"
proof -
  assume x: "0 \<le> x"
  have "\<bar>fl x - x\<bar> \<le> \<bar>x\<bar> / 2 ^ 53" by (rule fl_error)
  moreover have "\<bar>x\<bar> = x" using x by simp
  ultimately have "x - x / 2 ^ 53 \<le> fl x" by linarith
  moreover have "x / 2 ^ 53 \<le> x / 10" using x by (simp add: divide_simps)
  ultimately show ?thesis by linarith
qed

text \<open>
  When the calculated number of accounts is not cut off at 5000, the same arithmetic estimates
  that this many accounts sustain at least the target rate: the safety margin covers every
  rounding of the float64 computation in both directions.
\<close>
theorem required_accounts_sustain_target:
  assumes "0 < tps" "tps \<le> 2 ^ 50" "CalculateRequiredAccounts tps ms < 5000"
  shows "tps \<le> EstimateMaxTPS (CalculateRequiredAccounts tps ms) ms"
proof -
  define b where "b = fdiv (f64_of_int (block_time_ms ms)) 1000"
  define n where "n = CalculateRequiredAccounts tps ms"
  define x where "x = fmul (fdiv (fmul (f64_of_int tps) b) 15) (3/2)"
  have "0 < block_time_ms ms" by (simp add: block_time_ms_def)
  then have b: "0 < b" by (simp add: b_def fdiv_def f64_of_int_def fl_pos)
  have t: "f64_of_int tps = of_int tps" using assms(1,2) by (intro f64_of_int_exact) simp
  have n: "n = (let r = (if \<lceil>x\<rceil> < 100 then 100 else \<lceil>x\<rceil>) in if 5000 < r then 5000 else r)"
    by (simp only: n_def CalculateRequiredAccounts_def Let_def b_def [symmetric] x_def [symmetric])
  then have nb: "\<lceil>x\<rceil> \<le> n" "100 \<le> n" "n < 5000" using assms(3) by (auto simp: Let_def n_def [symmetric] split: if_splits)
  have p1: "9/10 * (of_int tps * b) \<le> fmul (f64_of_int tps) b"
    unfolding t fmul_def using assms(1) b by (intro fl_ge_nine_tenths) simp
  have p2: "9/10 * (9/10 * (of_int tps * b) / 15) \<le> fdiv (fmul (f64_of_int tps) b) 15"
  proof -
    have "9/10 * (of_int tps * b) / 15 \<le> fmul (f64_of_int tps) b / 15"
      by (rule divide_right_mono [OF p1]) simp
    moreover have "0 \<le> 9/10 * (of_int tps * b) / 15" using assms(1) b by simp
    ultimately have "9/10 * (fmul (f64_of_int tps) b / 15) \<le> fdiv (fmul (f64_of_int tps) b) 15"
      unfolding fdiv_def by (intro fl_ge_nine_tenths) linarith
    then show ?thesis using \<open>9/10 * (of_int tps * b) / 15 \<le> fmul (f64_of_int tps) b / 15\<close> by linarith
  qed
  have "0 \<le> of_int tps * b" using assms(1) b by simp
  then have "0 \<le> fdiv (fmul (f64_of_int tps) b) 15" using p2 by linarith
  then have "0 \<le> fdiv (fmul (f64_of_int tps) b) 15 * (3/2)" by simp
  then have "9/10 * (fdiv (fmul (f64_of_int tps) b) 15 * (3/2)) \<le> x"
    unfolding x_def fmul_def [of _ "3/2"] by (rule fl_ge_nine_tenths)
  then have "of_int tps * b \<le> 15 * x" using p2 \<open>0 \<le> of_int tps * b\<close> by linarith
  also have "\<dots> \<le> 15 * of_int n" using nb(1) by (simp add: ceiling_le_iff)
  finally have "of_int tps \<le> of_int n * 15 / b" using b by (simp add: field_simps)
  moreover have "f64_of_int n = of_int n" "fmul (of_int n) 15 = of_int (n * 15)"
    using nb fl_of_int [of "n * 15"] by (simp_all add: f64_of_int_exact fmul_def)
  ultimately have "of_int tps \<le> fdiv (fmul (f64_of_int n) 15) b"
    unfolding fdiv_def using assms(1,2) by (intro fl_ge_exact) (simp_all add: f64_exact_of_int)
  then have "f64_trunc (of_int tps) \<le> f64_trunc (fdiv (fmul (f64_of_int n) 15) b)" by (rule f64_trunc_mono)
  then show ?thesis by (simp add: EstimateMaxTPS_def Let_def n_def [symmetric] b_def [symmetric])
qed

theorem required_accounts_sustain_target_witness:
  "CalculateRequiredAccounts 1500 1000 = 150 \<and> 1500 \<le> EstimateMaxTPS 150 1000"
proof -
  have "fl 1 = 1" "fl 1500 = 1500" "fl 100 = 100" "fl 150 = 150" "fl 1000 = 1000"
    using fl_of_int [of 1] fl_of_int [of 1500] fl_of_int [of 100] fl_of_int [of 150] fl_of_int [of 1000] by simp_all
  then have c: "CalculateRequiredAccounts 1500 1000 = 150"
    by (simp add: CalculateRequiredAccounts_def block_time_ms_def f64_of_int_def fdiv_def fmul_def)
  then have "1500 \<le> EstimateMaxTPS (CalculateRequiredAccounts 1500 1000) 1000"
    by (intro required_accounts_sustain_target) simp_all
  with c show ?thesis by simp
qed

end
