(* ===== verification/Lifecycle.thy ===== *)
theory Lifecycle
  imports Workload
begin

text \<open>
  The status of a test and the goroutines that move it: \<open>StartTest\<close>, \<open>StopTest\<close>, \<open>stopTest\<close> and
  \<open>setError\<close> of \<open>internal/loadgen/loadgen.go\<close>, the begin and end of \<open>runInitialization\<close>
  (\<open>init.go\<close>) and the status part of \<open>Reset\<close> (\<open>api.go\<close>).  A thread is an initialization or a
  stop sequence in progress; an event is an API call or the next status-changing step of a thread,
  and a list of events is one interleaving.
\<close>

datatype thread = InitEarly | InitLate | StopWaiting | StopSaving

record lifecycle =
  status :: test_status
  testError :: bool
  stopping :: bool
  forceStop :: bool
  threads :: "thread list"
  started :: nat
  finished :: nat

definition lifecycle_init :: lifecycle where
  "lifecycle_init = \<lparr>status = StatusIdle, testError = False, stopping = False, forceStop = False,
     threads = [], started = 0, finished = 0\<rparr>"

definition setError :: "lifecycle \<Rightarrow> lifecycle" where
  "setError s = s\<lparr>status := StatusError, testError := True\<rparr>"

text \<open>The flag of the result is whether an error is returned to the caller.\<close>

definition StartTest :: "start_test_request \<Rightarrow> lifecycle \<Rightarrow> bool \<times> lifecycle" where
  "StartTest req s =
     (if status s = StatusRunning \<or> status s = StatusInitializing then (True, s)
      else
        let s1 = s\<lparr>status := StatusInitializing, testError := False\<rparr>;
            bad = (case rq_RealisticConfig req of
                     Some c \<Rightarrow> UsesRealisticMix (rq_Pattern req) \<and> ValidateTxTypeRatios (rt_TxTypeRatios c) \<noteq> None
                   | None \<Rightarrow> False)
        in if bad then (True, setError s1)
           else (False, s1\<lparr>threads := threads s1 @ [InitEarly]\<rparr>))"

text \<open>The guards of \<open>stopTest\<close>: only a running test, and only the first caller.\<close>

definition stopTest :: "lifecycle \<Rightarrow> lifecycle" where
  "stopTest s =
     (if status s \<noteq> StatusRunning then s
      else if stopping s then s
      else s\<lparr>stopping := True, threads := threads s @ [StopWaiting]\<rparr>)"

definition StopTest :: "lifecycle \<Rightarrow> lifecycle" where
  "StopTest s = stopTest (s\<lparr>forceStop := True\<rparr>)"

definition Reset_status :: "lifecycle \<Rightarrow> lifecycle" where
  "Reset_status s =
     (if status s = StatusRunning then s else s\<lparr>status := StatusIdle, testError := False\<rparr>)"

definition drop_thread :: "nat \<Rightarrow> lifecycle \<Rightarrow> lifecycle" where
  "drop_thread k s = s\<lparr>threads := take k (threads s) @ drop (Suc k) (threads s)\<rparr>"

definition init_reset :: "nat \<Rightarrow> lifecycle \<Rightarrow> lifecycle" where
  "init_reset k s = s\<lparr>stopping := False, forceStop := False, threads := (threads s)[k := InitLate]\<rparr>"

definition init_done :: "nat \<Rightarrow> lifecycle \<Rightarrow> lifecycle" where
  "init_done k s = (drop_thread k s)\<lparr>status := StatusRunning, started := started s + 1\<rparr>"

definition stop_verify :: "nat \<Rightarrow> lifecycle \<Rightarrow> lifecycle" where
  "stop_verify k s = s\<lparr>status := StatusVerifying, threads := (threads s)[k := StopSaving]\<rparr>"

definition stop_done :: "nat \<Rightarrow> lifecycle \<Rightarrow> lifecycle" where
  "stop_done k s = (drop_thread k s)\<lparr>status := StatusCompleted, finished := finished s + 1\<rparr>"

datatype lifecycle_event =
    CallStart start_test_request | CallStop | Expire | CallReset
  | InitReset nat | InitFail nat | InitDone nat | StopVerify nat | StopDone nat

definition thread_at :: "lifecycle \<Rightarrow> nat \<Rightarrow> thread option" where
  "thread_at s k = (if k < length (threads s) then Some (threads s ! k) else None)"

fun lifecycle_step :: "lifecycle_event \<Rightarrow> lifecycle \<Rightarrow> lifecycle option" where
  "lifecycle_step (CallStart req) s = Some (snd (StartTest req s))"
| "lifecycle_step CallStop s = Some (StopTest s)"
| "lifecycle_step Expire s = Some (stopTest s)"
| "lifecycle_step CallReset s = Some (Reset_status s)"
| "lifecycle_step (InitReset k) s = (if thread_at s k = Some InitEarly then Some (init_reset k s) else None)"
| "lifecycle_step (InitFail k) s =
     (if thread_at s k = Some InitEarly \<or> thread_at s k = Some InitLate then Some (setError (drop_thread k s)) else None)"
| "lifecycle_step (InitDone k) s = (if thread_at s k = Some InitLate then Some (init_done k s) else None)"
| "lifecycle_step (StopVerify k) s = (if thread_at s k = Some StopWaiting then Some (stop_verify k s) else None)"
| "lifecycle_step (StopDone k) s = (if thread_at s k = Some StopSaving then Some (stop_done k s) else None)"

fun lifecycle_run :: "lifecycle_event list \<Rightarrow> lifecycle \<Rightarrow> lifecycle option" where
  "lifecycle_run [] s = Some s"
| "lifecycle_run (e # es) s = (case lifecycle_step e s of None \<Rightarrow> None | Some s' \<Rightarrow> lifecycle_run es s')"

section \<open>A client that waits\<close>

text \<open>
  The client starts a test only when it sees an idle, completed or failed generator, and resets it
  only then.  Stops and the end of the duration may come at any time.
\<close>

definition at_rest :: "lifecycle \<Rightarrow> bool" where
  "at_rest s \<longleftrightarrow> status s \<in> {StatusIdle, StatusCompleted, StatusError}"

fun patient :: "lifecycle_event list \<Rightarrow> lifecycle \<Rightarrow> bool" where
  "patient [] s = True"
| "patient (e # es) s =
     ((case e of CallStart req \<Rightarrow> at_rest s \<or> status s = StatusRunning \<or> status s = StatusInitializing
       | CallReset \<Rightarrow> at_rest s \<or> status s = StatusRunning | _ \<Rightarrow> True) \<and>
      (case lifecycle_step e s of None \<Rightarrow> True | Some s' \<Rightarrow> patient es s'))"

text \<open>Under such a client the status tells which thread exists, and there is never more than one.\<close>

definition lifecycle_inv :: "lifecycle \<Rightarrow> bool" where
  "lifecycle_inv s \<longleftrightarrow>
     (threads s = [] \<and> at_rest s \<and> finished s = started s) \<or>
     (threads s = [] \<and> status s = StatusRunning \<and> \<not> stopping s \<and> started s = Suc (finished s)) \<or>
     ((threads s = [InitEarly] \<or> (threads s = [InitLate] \<and> \<not> stopping s)) \<and> status s = StatusInitializing \<and> finished s = started s) \<or>
     (threads s = [StopWaiting] \<and> status s = StatusRunning \<and> stopping s \<and> started s = Suc (finished s)) \<or>
     (threads s = [StopSaving] \<and> status s = StatusVerifying \<and> started s = Suc (finished s))"

lemma thread_at_none: "threads s = [] \<Longrightarrow> thread_at s k = None"
  by (simp add: thread_at_def)

lemma thread_at_one: "threads s = [t] \<Longrightarrow> thread_at s k = Some u \<longleftrightarrow> k = 0 \<and> u = t"
  by (auto simp: thread_at_def)

lemma StartTest_busy: "status s = StatusRunning \<or> status s = StatusInitializing \<Longrightarrow> snd (StartTest req s) = s"
  by (auto simp: StartTest_def)

lemma StartTest_rest:
  assumes "at_rest s" "threads s = []" "finished s = started s"
  shows "lifecycle_inv (snd (StartTest req s))"
proof -
  have "\<not> (status s = StatusRunning \<or> status s = StatusInitializing)" using assms(1) by (auto simp: at_rest_def)
  then have "snd (StartTest req s) = setError (s\<lparr>status := StatusInitializing, testError := False\<rparr>) \<or>
      snd (StartTest req s) = s\<lparr>status := StatusInitializing, testError := False, threads := threads s @ [InitEarly]\<rparr>"
    unfolding StartTest_def Let_def by (simp only: if_False split: if_split) (simp split: if_split)
  then show ?thesis using assms by (elim disjE) (simp_all add: setError_def lifecycle_inv_def at_rest_def)
qed

lemmas lifecycle_ops = StopTest_def stopTest_def Reset_status_def init_reset_def setError_def drop_thread_def
  init_done_def stop_verify_def stop_done_def

lemma start_inv:
  assumes "lifecycle_inv s" "at_rest s \<or> status s = StatusRunning \<or> status s = StatusInitializing"
  shows "lifecycle_inv (snd (StartTest req s))"
proof (cases "at_rest s")
  case True
  then have "threads s = []" "finished s = started s" using assms(1) by (auto simp: lifecycle_inv_def at_rest_def)
  with True show ?thesis by (rule StartTest_rest)
next
  case False
  then show ?thesis using assms StartTest_busy by auto
qed

lemma stop_inv:
  assumes "lifecycle_inv s"
  shows "lifecycle_inv (stopTest s)" "lifecycle_inv (StopTest s)"
  using assms by (auto simp: lifecycle_ops lifecycle_inv_def at_rest_def)

lemma reset_inv:
  assumes "lifecycle_inv s" "at_rest s \<or> status s = StatusRunning"
  shows "lifecycle_inv (Reset_status s)"
  using assms by (auto simp: Reset_status_def lifecycle_inv_def at_rest_def)

lemma thread_move_inv:
  assumes "lifecycle_inv s"
  shows "thread_at s k = Some InitEarly \<Longrightarrow> lifecycle_inv (init_reset k s)"
    "thread_at s k = Some InitEarly \<or> thread_at s k = Some InitLate \<Longrightarrow> lifecycle_inv (setError (drop_thread k s))"
    "thread_at s k = Some InitLate \<Longrightarrow> lifecycle_inv (init_done k s)"
    "thread_at s k = Some StopWaiting \<Longrightarrow> lifecycle_inv (stop_verify k s)"
    "thread_at s k = Some StopSaving \<Longrightarrow> lifecycle_inv (stop_done k s)"
  using assms by (auto simp: lifecycle_inv_def thread_at_none thread_at_one lifecycle_ops at_rest_def)

lemma lifecycle_step_inv:
  assumes "lifecycle_inv s" "patient [e] s" "lifecycle_step e s = Some s'"
  shows "lifecycle_inv s'"
proof (cases e)
  case (CallStart req)
  then show ?thesis using assms start_inv [of s req] by (simp split: option.splits)
next
  case CallReset
  then show ?thesis using assms reset_inv [of s] by (simp split: option.splits)
qed (use assms(1,3) in \<open>auto intro: stop_inv thread_move_inv split: if_splits\<close>)


definition plain_request :: start_test_request where
  "plain_request =
     \<lparr>rq_Pattern = PatternConstant, rq_DurationSec = 60, rq_NumAccounts = 0, rq_TransactionType = TxTypeEthTransfer,
      rq_ConstantRate = 100, rq_RampStart = 0, rq_RampEnd = 0, rq_RampSteps = 0, rq_BaselineRate = 0,
      rq_SpikeRate = 0, rq_SpikeDuration = 0, rq_SpikeInterval = 0, rq_AdaptiveInitialRate = 0,
      rq_AdaptiveTargetPending = 0, rq_AdaptiveRateStep = 0, rq_RealisticConfig = None, rq_ReadLoad = None,
      rq_PrivacyMode = False, rq_Gasless = False, rq_FixNonceGaps = False, rq_Erc721PreMint = 0\<rparr>"

lemmas lifecycle_defs = lifecycle_init_def at_rest_def StartTest_def StopTest_def stopTest_def thread_at_def
  init_reset_def drop_thread_def init_done_def stop_verify_def stop_done_def plain_request_def Reset_status_def


text \<open>
  The guard of \<open>StartTest\<close> does not see a test that is still being verified, nor an
  initialization that a reset hid: a start accepted while the previous stop sequence saves its
  result has its status overwritten with completed, and a further start is accepted, so two
  initializations run at the same time.
\<close>
theorem two_initializations_overlap:
  "map_option (\<lambda>s. (threads s, status s))
     (lifecycle_run [CallStart plain_request, InitReset 0, InitDone 0, CallStop, StopVerify 0,
        CallStart plain_request, StopDone 0, CallStart plain_request] lifecycle_init) =
   Some ([InitEarly, InitEarly], StatusInitializing)"
  by (simp add: lifecycle_defs)

end
