(* ===== verification/Rpc_Client.thy ===== *)
theory Rpc_Client
  imports Go_Strings Float64 "HOL-Library.Monad_Syntax"
begin

text \<open>
  \<open>internal/rpc/client.go\<close> and \<open>nobatch_client.go\<close>: JSON-RPC calls with retries, batches and their
  reordering, and the typed requests.  JSON values are a datatype and decoding follows
  \<open>encoding/json\<close>: keys match without regard to (ASCII) case, the last of several equal keys wins,
  \<open>null\<close> leaves a field at its zero value, a value of the wrong type makes the whole decoding fail.
  The hexadecimal codec (\<open>hexutil\<close> of go-ethereum) is a parameter, and so is the network: a server
  gives, for a request body and the number of the attempt, what happens to that attempt.
\<close>

section \<open>JSON\<close>

text \<open>A number is an \<open>int\<close> or, with a fraction or an exponent, \<open>JFrac\<close>, which no integer field accepts.\<close>

datatype json =
    JNull | JBool bool | JNum int | JFrac f64 | JStr string | JArr "json list" | JObj "(string \<times> json) list"

definition key_matches :: "string \<Rightarrow> string \<Rightarrow> bool" where
  "key_matches f k \<longleftrightarrow> ToLower k = ToLower f"

definition obj_entries :: "json \<Rightarrow> (string \<times> json) list option" where
  "obj_entries j = (case j of JObj kvs \<Rightarrow> Some kvs | JNull \<Rightarrow> Some [] | _ \<Rightarrow> None)"

definition string_value :: "json \<Rightarrow> string \<Rightarrow> string option" where
  "string_value j cur = (case j of JStr s \<Rightarrow> Some s | JNull \<Rightarrow> Some cur | _ \<Rightarrow> None)"

definition int_value :: "json \<Rightarrow> int \<Rightarrow> int option" where
  "int_value j cur = (case j of JNum i \<Rightarrow> (if is_i64 i then Some i else None) | JNull \<Rightarrow> Some cur | _ \<Rightarrow> None)"

fun str_field_from :: "string \<Rightarrow> string \<Rightarrow> (string \<times> json) list \<Rightarrow> string option" where
  "str_field_from f cur [] = Some cur"
| "str_field_from f cur ((k, v) # kvs) =
     (if key_matches f k then Option.bind (string_value v cur) (\<lambda>s. str_field_from f s kvs)
      else str_field_from f cur kvs)"

definition str_field :: "string \<Rightarrow> (string \<times> json) list \<Rightarrow> string option" where
  "str_field f kvs = str_field_from f '''' kvs"

text \<open>An array field: absent or \<open>null\<close> is the empty slice.\<close>

fun arr_field_from :: "string \<Rightarrow> json list \<Rightarrow> (string \<times> json) list \<Rightarrow> json list option" where
  "arr_field_from f cur [] = Some cur"
| "arr_field_from f cur ((k, v) # kvs) =
     (if key_matches f k then
        (case v of JArr xs \<Rightarrow> arr_field_from f xs kvs | JNull \<Rightarrow> arr_field_from f [] kvs | _ \<Rightarrow> None)
      else arr_field_from f cur kvs)"

definition arr_field :: "string \<Rightarrow> (string \<times> json) list \<Rightarrow> json list option" where
  "arr_field f kvs = arr_field_from f [] kvs"

fun map_opt :: "('a \<Rightarrow> 'b option) \<Rightarrow> 'a list \<Rightarrow> 'b list option" where
  "map_opt f [] = Some []"
| "map_opt f (x # xs) = Option.bind (f x) (\<lambda>y. map_option ((#) y) (map_opt f xs))"

text \<open>A raw message is empty when the field is absent; decoding an empty message is an error.\<close>

type_synonym raw_message = "json option"

definition unmarshal_string :: "raw_message \<Rightarrow> string option" where
  "unmarshal_string m = Option.bind m (\<lambda>j. string_value j '''')"

section \<open>Requests and responses\<close>

record rpc_response =
  rs_Result :: raw_message
  rs_Error :: "(int \<times> string) option"
  rs_ID :: int

fun error_fields :: "(string \<times> json) list \<Rightarrow> int \<times> string \<Rightarrow> (int \<times> string) option" where
  "error_fields [] e = Some e"
| "error_fields ((k, v) # kvs) (c, m) =
     (if key_matches ''code'' k then Option.bind (int_value v c) (\<lambda>c'. error_fields kvs (c', m))
      else if key_matches ''message'' k then Option.bind (string_value v m) (\<lambda>m'. error_fields kvs (c, m'))
      else error_fields kvs (c, m))"

definition error_value :: "json \<Rightarrow> (int \<times> string) option \<Rightarrow> (int \<times> string) option option" where
  "error_value j cur =
     (case j of
        JNull \<Rightarrow> Some None
      | JObj kvs \<Rightarrow> map_option Some (error_fields kvs (case cur of Some e \<Rightarrow> e | None \<Rightarrow> (0, '''')))
      | _ \<Rightarrow> None)"

fun response_fields :: "(string \<times> json) list \<Rightarrow> rpc_response \<Rightarrow> rpc_response option" where
  "response_fields [] r = Some r"
| "response_fields ((k, v) # kvs) r =
     (if key_matches ''jsonrpc'' k then Option.bind (string_value v '''') (\<lambda>_. response_fields kvs r)
      else if key_matches ''result'' k then response_fields kvs (r\<lparr>rs_Result := Some v\<rparr>)
      else if key_matches ''error'' k then
        Option.bind (error_value v (rs_Error r)) (\<lambda>e. response_fields kvs (r\<lparr>rs_Error := e\<rparr>))
      else if key_matches ''id'' k then
        Option.bind (int_value v (rs_ID r)) (\<lambda>i. response_fields kvs (r\<lparr>rs_ID := i\<rparr>))
      else response_fields kvs r)"

definition parse_response :: "json \<Rightarrow> rpc_response option" where
  "parse_response j =
     Option.bind (obj_entries j) (\<lambda>kvs. response_fields kvs \<lparr>rs_Result = None, rs_Error = None, rs_ID = 0\<rparr>)"

record client_config =
  cc_MaxRetries :: int
  cc_InitialBackoff :: int
  cc_MaxBackoff :: int

definition DefaultClientConfig :: client_config where
  "DefaultClientConfig =
     \<lparr>cc_MaxRetries = 3, cc_InitialBackoff = 100 * 1000000, cc_MaxBackoff = 500 * 1000000\<rparr>"

text \<open>
  An HTTP reply: the status code, the \<open>Retry-After\<close> header as far as it is a number of seconds, and
  the body, \<open>None\<close> when it cannot be read or is not JSON.  No reply is a failed request.
\<close>

record http_reply =
  hr_status :: int
  hr_retryAfter :: "f64 option"
  hr_body :: "json option"

datatype rpc_err =
    HTTPStatusError int int | RPCError int string | OtherError string | CtxErr | RetriesFailed "rpc_err option"

definition isRPCError :: "rpc_err \<Rightarrow> bool" where
  "isRPCError e = (case e of RPCError _ _ \<Rightarrow> True | _ \<Rightarrow> False)"

definition IsRetryable :: "int \<Rightarrow> bool" where
  "IsRetryable code \<longleftrightarrow> code = 429 \<or> code = 502 \<or> code = 503 \<or> code = 504"

definition isRetryableHTTPError :: "rpc_err \<Rightarrow> bool" where
  "isRetryableHTTPError e = (case e of HTTPStatusError code _ \<Rightarrow> IsRetryable code | _ \<Rightarrow> False)"

definition getRetryDelay :: "rpc_err \<Rightarrow> int \<Rightarrow> int" where
  "getRetryDelay e dflt = (case e of HTTPStatusError _ ra \<Rightarrow> if 0 < ra then ra else dflt | _ \<Rightarrow> dflt)"

definition status_error :: "http_reply \<Rightarrow> rpc_err" where
  "status_error r =
     HTTPStatusError (hr_status r)
       (case hr_retryAfter r of None \<Rightarrow> 0 | Some secs \<Rightarrow> f64_trunc (fmul secs 1000000000))"

definition doRequest :: "http_reply option \<Rightarrow> rpc_err + raw_message" where
  "doRequest rep =
     (case rep of
        None \<Rightarrow> Inl (OtherError ''request failed'')
      | Some r \<Rightarrow>
          if hr_status r \<noteq> 200 then Inl (status_error r)
          else (case Option.bind (hr_body r) parse_response of
                  None \<Rightarrow> Inl (OtherError ''failed to unmarshal response'')
                | Some resp \<Rightarrow>
                    (case rs_Error resp of
                       Some (c, m) \<Rightarrow> Inl (RPCError c m)
                     | None \<Rightarrow> Inr (rs_Result resp))))"

section \<open>Retries\<close>

text \<open>
  One attempt: whether the context ends while the client waits before it, what the request brings,
  and whether the context has ended after it.
\<close>

record attempt_env =
  ae_cancelInWait :: bool
  ae_reply :: "http_reply option"
  ae_ctxDone :: bool

type_synonym server = "json \<Rightarrow> nat \<Rightarrow> attempt_env"

datatype rpc_event = Waited int | Requested

definition log_event :: "rpc_event list \<Rightarrow> 'a \<times> rpc_event list \<Rightarrow> 'a \<times> rpc_event list" where
  "log_event es r = (fst r, es @ snd r)"

text \<open>
  The retry loop of \<open>Call\<close> and \<open>BatchCall\<close>: \<open>n\<close> attempts are left, \<open>k\<close> is the number of the next one.
\<close>

fun retry_loop ::
  "(http_reply option \<Rightarrow> rpc_err + 'a) \<Rightarrow> int \<Rightarrow> (nat \<Rightarrow> attempt_env) \<Rightarrow> nat \<Rightarrow> nat \<Rightarrow> int \<Rightarrow> rpc_err option \<Rightarrow>
     (rpc_err + 'a) \<times> rpc_event list" where
  "retry_loop req maxB env 0 k backoff lastErr = (Inl (RetriesFailed lastErr), [])"
| "retry_loop req maxB env (Suc n) k backoff lastErr =
     (if 0 < k \<and> ae_cancelInWait (env k) then (Inl CtxErr, [])
      else
        let waits = (if 0 < k then [Waited backoff] else []);
            backoff1 = (if 0 < k then min (wrap64 (backoff * 2)) maxB else backoff)
        in log_event (waits @ [Requested])
             (case req (ae_reply (env k)) of
                Inr v \<Rightarrow> (Inr v, [])
              | Inl err \<Rightarrow>
                  if ae_ctxDone (env k) then (Inl CtxErr, [])
                  else if isRetryableHTTPError err then
                    retry_loop req maxB env n (Suc k) (getRetryDelay err backoff1) (Some err)
                  else if isRPCError err then (Inl err, [])
                  else retry_loop req maxB env n (Suc k) backoff1 (Some err)))"

definition request_body :: "int \<Rightarrow> string \<Rightarrow> json \<Rightarrow> json" where
  "request_body i mth params =
     JObj [(''jsonrpc'', JStr ''2.0''), (''method'', JStr mth), (''params'', params), (''id'', JNum i)]"

definition Call :: "client_config \<Rightarrow> server \<Rightarrow> string \<Rightarrow> json \<Rightarrow> (rpc_err + raw_message) \<times> rpc_event list" where
  "Call c srv mth params =
     retry_loop doRequest (cc_MaxBackoff c) (srv (request_body 1 mth params))
       (nat (cc_MaxRetries c + 1)) 0 (cc_InitialBackoff c) None"

section \<open>Batches\<close>

text \<open>Responses are matched to requests by their ID; of several with one ID the last counts.\<close>

definition batch_result :: "rpc_response list \<Rightarrow> int \<Rightarrow> rpc_err + raw_message" where
  "batch_result rs i =
     (case find (\<lambda>r. rs_ID r = i) (rev rs) of
        None \<Rightarrow> Inl (OtherError ''missing response'')
      | Some r \<Rightarrow> (case rs_Error r of Some (c, m) \<Rightarrow> Inl (RPCError c m) | None \<Rightarrow> Inr (rs_Result r)))"

definition doBatchRequest :: "nat \<Rightarrow> http_reply option \<Rightarrow> rpc_err + (rpc_err + raw_message) list" where
  "doBatchRequest expected rep =
     (case rep of
        None \<Rightarrow> Inl (OtherError ''request failed'')
      | Some r \<Rightarrow>
          if hr_status r \<noteq> 200 then Inl (status_error r)
          else (case hr_body r of
                  Some JNull \<Rightarrow> Inr (map (\<lambda>i. batch_result [] (int i + 1)) [0..<expected])
                | Some (JArr js) \<Rightarrow>
                    (case map_opt parse_response js of
                       None \<Rightarrow> Inl (OtherError ''failed to unmarshal batch response'')
                     | Some rs \<Rightarrow> Inr (map (\<lambda>i. batch_result rs (int i + 1)) [0..<expected]))
                | _ \<Rightarrow> Inl (OtherError ''failed to unmarshal batch response'')))"

definition BatchCall ::
  "client_config \<Rightarrow> server \<Rightarrow> (string \<times> json) list \<Rightarrow> (rpc_err + (rpc_err + raw_message) list) \<times> rpc_event list" where
  "BatchCall c srv calls =
     (if calls = [] then (Inr [], [])
      else retry_loop (doBatchRequest (length calls)) (cc_MaxBackoff c)
             (srv (JArr (map (\<lambda>i. request_body (int i + 1) (fst (calls ! i)) (snd (calls ! i))) [0..<length calls])))
             (nat (cc_MaxRetries c + 1)) 0 (cc_InitialBackoff c) None)"

section \<open>Hexadecimal values\<close>

text \<open>
  The functions of \<open>hexutil\<close> the client uses: encoding and decoding of \<open>uint64\<close>, decoding of a big
  integer and encoding of bytes.  \<open>MustDecodeUint64\<close> panics where \<open>DecodeUint64\<close> fails.
\<close>

record hex_codec =
  hx_Uint64 :: "u64 \<Rightarrow> string"
  hx_DecodeUint64 :: "string \<Rightarrow> u64 option"
  hx_DecodeBig :: "string \<Rightarrow> int option"
  hx_Bytes :: "bytes \<Rightarrow> string"

definition dec_or_0 :: "hex_codec \<Rightarrow> string \<Rightarrow> u64" where
  "dec_or_0 hx s = (case hx_DecodeUint64 hx s of Some v \<Rightarrow> v | None \<Rightarrow> 0)"

definition dec_if_set :: "hex_codec \<Rightarrow> string \<Rightarrow> u64" where
  "dec_if_set hx s = (if s \<noteq> '''' then dec_or_0 hx s else 0)"

section \<open>Blocks and receipts\<close>

record transaction =
  tx_Hash :: string
  tx_From :: string
  tx_To :: string
  tx_Type :: u64
  tx_MaxPriorityFeePerGas :: u64
  tx_MaxFeePerGas :: u64
  tx_GasPrice :: u64
  tx_Nonce :: u64

definition IsDeposit :: "transaction \<Rightarrow> bool" where
  "IsDeposit t \<longleftrightarrow> tx_Type t = 126"

text \<open>Timestamps are seconds, as \<open>time.Unix(int64(ts), 0)\<close> takes them.\<close>

record block_full =
  bf_Number :: u64
  bf_Hash :: string
  bf_Transactions :: "transaction list"
  bf_BaseFeePerGas :: string
  bf_GasUsed :: u64
  bf_GasLimit :: u64
  bf_Timestamp :: int
  bf_TxCount :: nat
  bf_UserTxCount :: nat

record block =
  bk_Number :: u64
  bk_Hash :: string
  bk_Transactions :: "string list"
  bk_BaseFeePerGas :: string
  bk_GasUsed :: u64
  bk_GasLimit :: u64
  bk_Timestamp :: int
  bk_TxCount :: nat

record tx_receipt =
  tr_Status :: u64
  tr_GasUsed :: u64
  tr_ContractAddress :: string
  tr_BlockNumber :: u64
  tr_EffectiveGasPrice :: u64

definition parse_tx :: "hex_codec \<Rightarrow> json \<Rightarrow> transaction option" where
  "parse_tx hx j =
     do { kvs \<leftarrow> obj_entries j;
          h \<leftarrow> str_field ''hash'' kvs; frm \<leftarrow> str_field ''from'' kvs; to \<leftarrow> str_field ''to'' kvs;
          ty \<leftarrow> str_field ''type'' kvs; tip \<leftarrow> str_field ''maxPriorityFeePerGas'' kvs;
          fee \<leftarrow> str_field ''maxFeePerGas'' kvs; price \<leftarrow> str_field ''gasPrice'' kvs;
          nonce \<leftarrow> str_field ''nonce'' kvs;
          Some \<lparr>tx_Hash = h, tx_From = frm, tx_To = to, tx_Type = dec_if_set hx ty,
                tx_MaxPriorityFeePerGas = dec_if_set hx tip, tx_MaxFeePerGas = dec_if_set hx fee,
                tx_GasPrice = dec_if_set hx price, tx_Nonce = dec_if_set hx nonce\<rparr> }"

definition parseBlockFull :: "hex_codec \<Rightarrow> raw_message \<Rightarrow> block_full option" where
  "parseBlockFull hx m =
     do { j \<leftarrow> m; kvs \<leftarrow> obj_entries j;
          number \<leftarrow> str_field ''number'' kvs; h \<leftarrow> str_field ''hash'' kvs;
          txJs \<leftarrow> arr_field ''transactions'' kvs; txs \<leftarrow> map_opt (parse_tx hx) txJs;
          baseFee \<leftarrow> str_field ''baseFeePerGas'' kvs; gasUsed \<leftarrow> str_field ''gasUsed'' kvs;
          gasLimit \<leftarrow> str_field ''gasLimit'' kvs; ts \<leftarrow> str_field ''timestamp'' kvs;
          num \<leftarrow> hx_DecodeUint64 hx number;
          Some \<lparr>bf_Number = num, bf_Hash = h, bf_Transactions = txs, bf_BaseFeePerGas = baseFee,
                bf_GasUsed = dec_or_0 hx gasUsed, bf_GasLimit = dec_or_0 hx gasLimit,
                bf_Timestamp = sint (dec_or_0 hx ts), bf_TxCount = length txs,
                bf_UserTxCount = length (filter (\<lambda>t. \<not> IsDeposit t) txs)\<rparr> }"

definition parse_block :: "hex_codec \<Rightarrow> raw_message \<Rightarrow> block option" where
  "parse_block hx m =
     do { j \<leftarrow> m; kvs \<leftarrow> obj_entries j;
          number \<leftarrow> str_field ''number'' kvs; h \<leftarrow> str_field ''hash'' kvs;
          txJs \<leftarrow> arr_field ''transactions'' kvs; txs \<leftarrow> map_opt (\<lambda>t. string_value t '''') txJs;
          baseFee \<leftarrow> str_field ''baseFeePerGas'' kvs; gasUsed \<leftarrow> str_field ''gasUsed'' kvs;
          gasLimit \<leftarrow> str_field ''gasLimit'' kvs; ts \<leftarrow> str_field ''timestamp'' kvs;
          num \<leftarrow> hx_DecodeUint64 hx number;
          Some \<lparr>bk_Number = num, bk_Hash = h, bk_Transactions = txs, bk_BaseFeePerGas = baseFee,
                bk_GasUsed = dec_or_0 hx gasUsed, bk_GasLimit = dec_or_0 hx gasLimit,
                bk_Timestamp = sint (dec_or_0 hx ts), bk_TxCount = length txs\<rparr> }"

definition parseReceipt :: "hex_codec \<Rightarrow> raw_message \<Rightarrow> tx_receipt option" where
  "parseReceipt hx m =
     do { j \<leftarrow> m; kvs \<leftarrow> obj_entries j;
          status \<leftarrow> str_field ''status'' kvs; gasUsed \<leftarrow> str_field ''gasUsed'' kvs;
          contract \<leftarrow> str_field ''contractAddress'' kvs; number \<leftarrow> str_field ''blockNumber'' kvs;
          price \<leftarrow> str_field ''effectiveGasPrice'' kvs;
          Some \<lparr>tr_Status = dec_or_0 hx status, tr_GasUsed = dec_or_0 hx gasUsed,
                tr_ContractAddress = contract, tr_BlockNumber = dec_or_0 hx number,
                tr_EffectiveGasPrice = dec_or_0 hx price\<rparr> }"

section \<open>The typed requests\<close>

text \<open>A reply \<open>null\<close> is \<open>Inr None\<close>.\<close>

definition typed :: "(raw_message \<Rightarrow> 'a option) \<Rightarrow> rpc_err + raw_message \<Rightarrow> rpc_err + 'a option" where
  "typed parse r =
     (case r of
        Inl e \<Rightarrow> Inl e
      | Inr m \<Rightarrow>
          if m = Some JNull then Inr None
          else (case parse m of None \<Rightarrow> Inl (OtherError ''failed to unmarshal'') | Some v \<Rightarrow> Inr (Some v)))"

definition GetBlockByNumber :: "hex_codec \<Rightarrow> client_config \<Rightarrow> server \<Rightarrow> u64 \<Rightarrow> rpc_err + block option" where
  "GetBlockByNumber hx c srv n =
     typed (parse_block hx) (fst (Call c srv ''eth_getBlockByNumber'' (JArr [JStr (hx_Uint64 hx n), JBool False])))"

definition GetBlockByNumberFull :: "hex_codec \<Rightarrow> client_config \<Rightarrow> server \<Rightarrow> u64 \<Rightarrow> rpc_err + block_full option" where
  "GetBlockByNumberFull hx c srv n =
     typed (parseBlockFull hx) (fst (Call c srv ''eth_getBlockByNumber'' (JArr [JStr (hx_Uint64 hx n), JBool True])))"

definition GetTransactionReceipt :: "hex_codec \<Rightarrow> client_config \<Rightarrow> server \<Rightarrow> string \<Rightarrow> rpc_err + tx_receipt option" where
  "GetTransactionReceipt hx c srv h =
     typed (parseReceipt hx) (fst (Call c srv ''eth_getTransactionReceipt'' (JArr [JStr h])))"

definition GetTransactionByHash :: "hex_codec \<Rightarrow> client_config \<Rightarrow> server \<Rightarrow> string \<Rightarrow> rpc_err + (string \<times> u64) option" where
  "GetTransactionByHash hx c srv h =
     typed (\<lambda>m. do { j \<leftarrow> m; kvs \<leftarrow> obj_entries j; hs \<leftarrow> str_field ''hash'' kvs; n \<leftarrow> str_field ''blockNumber'' kvs;
                     Some (hs, dec_or_0 hx n) })
       (fst (Call c srv ''eth_getTransactionByHash'' (JArr [JStr h])))"

text \<open>A quantity is decoded with \<open>MustDecodeUint64\<close>: \<open>None\<close> is the panic.\<close>

definition quantity :: "hex_codec \<Rightarrow> rpc_err + raw_message \<Rightarrow> (rpc_err + u64) option" where
  "quantity hx r =
     (case r of
        Inl e \<Rightarrow> Some (Inl e)
      | Inr m \<Rightarrow>
          (case unmarshal_string m of
             None \<Rightarrow> Some (Inl (OtherError ''failed to unmarshal''))
           | Some s \<Rightarrow> map_option Inr (hx_DecodeUint64 hx s)))"

definition rpc_GetNonce :: "hex_codec \<Rightarrow> client_config \<Rightarrow> server \<Rightarrow> string \<Rightarrow> (rpc_err + u64) option" where
  "rpc_GetNonce hx c srv a =
     (let fallback = quantity hx (fst (Call c srv ''eth_getTransactionCount'' (JArr [JStr a, JStr ''pending'']))) in
      case fst (Call c srv ''eth_getPendingNonce'' (JArr [JStr a])) of
        Inl _ \<Rightarrow> fallback
      | Inr m \<Rightarrow> (case unmarshal_string m of
                    None \<Rightarrow> fallback
                  | Some s \<Rightarrow> map_option Inr (hx_DecodeUint64 hx s)))"

definition GetConfirmedNonce :: "hex_codec \<Rightarrow> client_config \<Rightarrow> server \<Rightarrow> string \<Rightarrow> (rpc_err + u64) option" where
  "GetConfirmedNonce hx c srv a =
     quantity hx (fst (Call c srv ''eth_getTransactionCount'' (JArr [JStr a, JStr ''latest''])))"

definition GetBlockNumber :: "hex_codec \<Rightarrow> client_config \<Rightarrow> server \<Rightarrow> (rpc_err + u64) option" where
  "GetBlockNumber hx c srv = quantity hx (fst (Call c srv ''eth_blockNumber'' JNull))"

definition GetGasPrice :: "hex_codec \<Rightarrow> client_config \<Rightarrow> server \<Rightarrow> (rpc_err + u64) option" where
  "GetGasPrice hx c srv = quantity hx (fst (Call c srv ''eth_gasPrice'' JNull))"

definition GetBaseFee :: "hex_codec \<Rightarrow> client_config \<Rightarrow> server \<Rightarrow> (rpc_err + u64) option" where
  "GetBaseFee hx c srv =
     (case fst (Call c srv ''eth_getBlockByNumber'' (JArr [JStr ''latest'', JBool False])) of
        Inl e \<Rightarrow> Some (Inl e)
      | Inr m \<Rightarrow>
          (case do { j \<leftarrow> m; kvs \<leftarrow> obj_entries j; str_field ''baseFeePerGas'' kvs } of
             None \<Rightarrow> Some (Inl (OtherError ''failed to unmarshal''))
           | Some s \<Rightarrow> if s = '''' then Some (Inl (OtherError ''baseFeePerGas not found in block''))
                       else map_option Inr (hx_DecodeUint64 hx s)))"

definition GetCode :: "client_config \<Rightarrow> server \<Rightarrow> string \<Rightarrow> rpc_err + string" where
  "GetCode c srv a =
     (case fst (Call c srv ''eth_getCode'' (JArr [JStr a, JStr ''latest''])) of
        Inl e \<Rightarrow> Inl e
      | Inr m \<Rightarrow> (case unmarshal_string m of None \<Rightarrow> Inl (OtherError ''failed to unmarshal'') | Some s \<Rightarrow> Inr s))"

definition GetBalance :: "hex_codec \<Rightarrow> client_config \<Rightarrow> server \<Rightarrow> string \<Rightarrow> (rpc_err + int) option" where
  "GetBalance hx c srv a =
     (case fst (Call c srv ''eth_getBalance'' (JArr [JStr a, JStr ''latest''])) of
        Inl e \<Rightarrow> Some (Inl e)
      | Inr m \<Rightarrow> (case unmarshal_string m of
                    None \<Rightarrow> Some (Inl (OtherError ''failed to unmarshal''))
                  | Some s \<Rightarrow> map_option Inr (hx_DecodeBig hx s)))"

definition SendRawTransaction :: "hex_codec \<Rightarrow> client_config \<Rightarrow> server \<Rightarrow> bytes \<Rightarrow> rpc_err option" where
  "SendRawTransaction hx c srv tx =
     (case fst (Call c srv ''eth_sendRawTransaction'' (JArr [JStr (hx_Bytes hx tx)])) of
        Inl e \<Rightarrow> Some e | Inr _ \<Rightarrow> None)"

text \<open>The errors of a batch; there is one response per request, so the loop over the responses fills every slot.\<close>

definition SendRawTransactionBatch :: "hex_codec \<Rightarrow> client_config \<Rightarrow> server \<Rightarrow> bytes list \<Rightarrow> rpc_err option list" where
  "SendRawTransactionBatch hx c srv txs =
     (case fst (BatchCall c srv (map (\<lambda>t. (''eth_sendRawTransaction'', JArr [JStr (hx_Bytes hx t)])) txs)) of
        Inl e \<Rightarrow> replicate (length txs) (Some e)
      | Inr rs \<Rightarrow> map (case_sum Some (\<lambda>_. None)) rs)"

definition NoBatch_SendRawTransactionBatch :: "hex_codec \<Rightarrow> client_config \<Rightarrow> server \<Rightarrow> bytes list \<Rightarrow> rpc_err option list" where
  "NoBatch_SendRawTransactionBatch hx c srv txs = map (SendRawTransaction hx c srv) txs"

text \<open>Failed, missing and unparsable entries of a batch are \<open>nil\<close>.\<close>

definition batch_entry :: "(raw_message \<Rightarrow> 'a option) \<Rightarrow> rpc_err + raw_message \<Rightarrow> 'a option" where
  "batch_entry parse r =
     (case r of Inl _ \<Rightarrow> None | Inr m \<Rightarrow> if m = Some JNull then None else parse m)"

definition GetBlocksByNumberFullBatch ::
  "hex_codec \<Rightarrow> client_config \<Rightarrow> server \<Rightarrow> u64 list \<Rightarrow> rpc_err + block_full option list" where
  "GetBlocksByNumberFullBatch hx c srv ns =
     (case fst (BatchCall c srv
               (map (\<lambda>n. (''eth_getBlockByNumber'', JArr [JStr (hx_Uint64 hx n), JBool True])) ns)) of
        Inl e \<Rightarrow> Inl e
      | Inr rs \<Rightarrow> Inr (map (batch_entry (parseBlockFull hx)) rs))"

definition GetTransactionReceiptsBatch ::
  "hex_codec \<Rightarrow> client_config \<Rightarrow> server \<Rightarrow> string list \<Rightarrow> rpc_err + tx_receipt option list" where
  "GetTransactionReceiptsBatch hx c srv hs =
     (case fst (BatchCall c srv (map (\<lambda>h. (''eth_getTransactionReceipt'', JArr [JStr h])) hs)) of
        Inl e \<Rightarrow> Inl e
      | Inr rs \<Rightarrow> Inr (map (batch_entry (parseReceipt hx)) rs))"

section \<open>What the retry loop returns\<close>

definition decisive :: "rpc_err + 'a \<Rightarrow> bool" where
  "decisive r = (case r of Inr _ \<Rightarrow> True | Inl e \<Rightarrow> isRPCError e)"

text \<open>
  The reference: the first attempt that brings a result or an RPC error decides; without one all the
  attempts are made and the last error is reported.
\<close>

definition retry_spec :: "(nat \<Rightarrow> rpc_err + 'a) \<Rightarrow> nat \<Rightarrow> nat \<Rightarrow> rpc_err option \<Rightarrow> (rpc_err + 'a) \<times> nat" where
  "retry_spec outcome k n lastErr =
     (case find (\<lambda>i. decisive (outcome i)) [k..<k + n] of
        Some i \<Rightarrow> (outcome i, Suc i - k)
      | None \<Rightarrow> (Inl (RetriesFailed (if n = 0 then lastErr else Some (projl (outcome (k + n - 1))))), n))"

definition requests :: "rpc_event list \<Rightarrow> nat" where
  "requests es = length (filter (\<lambda>e. e = Requested) es)"

lemma requests_append [simp]: "requests (xs @ ys) = requests xs + requests ys"
  by (simp add: requests_def)

lemma requests_simps [simp]: "requests [] = 0" "requests (Waited w # es) = requests es"
  "requests (Requested # es) = Suc (requests es)"
  by (simp_all add: requests_def)

lemma log_event_simps [simp]: "fst (log_event es r) = fst r" "snd (log_event es r) = es @ snd r"
  by (simp_all add: log_event_def)

lemma retry_spec_Suc:
  "retry_spec outcome k (Suc n) le =
     (if decisive (outcome k) then (outcome k, 1)
      else let r = retry_spec outcome (Suc k) n (Some (projl (outcome k))) in (fst r, Suc (snd r)))"
proof -
  have "[k..<k + Suc n] = k # [Suc k..<Suc k + n]" by (simp add: upt_rec)
  moreover have "Suc k \<le> i" if "find (\<lambda>i. decisive (outcome i)) [Suc k..<Suc k + n] = Some i" for i
  proof -
    have "i \<in> set [Suc k..<Suc k + n]" using that by (metis find_Some_iff nth_mem)
    then show ?thesis by auto
  qed
  ultimately show ?thesis
    by (auto simp: retry_spec_def Let_def Suc_diff_le split: option.splits)
qed

lemma retryable_not_rpc: "isRetryableHTTPError e \<Longrightarrow> \<not> isRPCError e"
  by (cases e) (simp_all add: isRetryableHTTPError_def isRPCError_def)

lemma retry_loop_spec:
  assumes "\<And>i. \<not> ae_cancelInWait (env i)" "\<And>i. \<not> ae_ctxDone (env i)"
  shows "(fst (retry_loop req maxB env n k b le), requests (snd (retry_loop req maxB env n k b le))) =
     retry_spec (\<lambda>i. req (ae_reply (env i))) k n le"
proof (induction n arbitrary: k b le)
  case 0
  then show ?case by (simp add: retry_spec_def)
next
  case (Suc n)
  show ?case
  proof (cases "req (ae_reply (env k))")
    case (Inr v)
    then show ?thesis using assms by (simp add: retry_spec_Suc decisive_def)
  next
    case (Inl e)
    then show ?thesis using assms retryable_not_rpc [of e] Suc.IH
      by (simp add: retry_spec_Suc decisive_def Let_def prod_eq_iff split: if_splits)
  qed
qed


definition rate_limited :: "http_reply" where
  "rate_limited = \<lparr>hr_status = 429, hr_retryAfter = Some 2, hr_body = None\<rparr>"

definition answer :: "json \<Rightarrow> http_reply" where
  "answer j = \<lparr>hr_status = 200, hr_retryAfter = None, hr_body = Some j\<rparr>"

definition replying :: "(nat \<Rightarrow> http_reply option) \<Rightarrow> nat \<Rightarrow> attempt_env" where
  "replying f i = \<lparr>ae_cancelInWait = False, ae_reply = f i, ae_ctxDone = False\<rparr>"

definition example_server :: server where
  "example_server body = replying (\<lambda>i. if i = 0 then Some rate_limited
     else Some (answer (JObj [(''result'', JStr ''0x5''), (''id'', JNum 1)])))"


section \<open>Batches answer in request order\<close>

lemma retry_loop_result:
  "fst (retry_loop req maxB env n k b le) = Inr v \<Longrightarrow> \<exists>r. req r = Inr v"
proof (induction n arbitrary: k b le)
  case (Suc n)
  show ?case
  proof (cases "req (ae_reply (env k))")
    case (Inl e)
    then show ?thesis using Suc.prems Suc.IH by (auto simp: Let_def split: if_splits)
  qed (use Suc.prems in \<open>auto simp: Let_def split: if_splits\<close>)
qed simp

lemma doBatchRequest_length: "doBatchRequest n r = Inr rs \<Longrightarrow> length rs = n"
  by (auto simp: doBatchRequest_def split: option.splits if_splits json.splits)

lemma BatchCall_length: "fst (BatchCall c srv calls) = Inr rs \<Longrightarrow> length rs = length calls"
  using retry_loop_result doBatchRequest_length by (fastforce simp: BatchCall_def split: if_splits)

text \<open>So the batch operations have one entry per request, which their callers index by position.\<close>

lemma batch_lengths:
  "length (SendRawTransactionBatch hx c srv txs) = length txs"
  "GetBlocksByNumberFullBatch hx c srv ns = Inr bs \<Longrightarrow> length bs = length ns"
  "GetTransactionReceiptsBatch hx c srv hs = Inr ts \<Longrightarrow> length ts = length hs"
  using BatchCall_length
  by (force simp: SendRawTransactionBatch_def GetBlocksByNumberFullBatch_def GetTransactionReceiptsBatch_def
      split: sum.splits)+

text \<open>The wire format of a block, as a node sends it.\<close>

definition tx_json :: "hex_codec \<Rightarrow> transaction \<Rightarrow> json" where
  "tx_json hx t = JObj
     [(''hash'', JStr (tx_Hash t)), (''from'', JStr (tx_From t)), (''to'', JStr (tx_To t)),
      (''type'', JStr (hx_Uint64 hx (tx_Type t))),
      (''maxPriorityFeePerGas'', JStr (hx_Uint64 hx (tx_MaxPriorityFeePerGas t))),
      (''maxFeePerGas'', JStr (hx_Uint64 hx (tx_MaxFeePerGas t))),
      (''gasPrice'', JStr (hx_Uint64 hx (tx_GasPrice t))), (''nonce'', JStr (hx_Uint64 hx (tx_Nonce t)))]"

definition block_json :: "hex_codec \<Rightarrow> block_full \<Rightarrow> json" where
  "block_json hx b = JObj
     [(''number'', JStr (hx_Uint64 hx (bf_Number b))), (''hash'', JStr (bf_Hash b)),
      (''transactions'', JArr (map (tx_json hx) (bf_Transactions b))),
      (''baseFeePerGas'', JStr (bf_BaseFeePerGas b)), (''gasUsed'', JStr (hx_Uint64 hx (bf_GasUsed b))),
      (''gasLimit'', JStr (hx_Uint64 hx (bf_GasLimit b))),
      (''timestamp'', JStr (hx_Uint64 hx (of_int (bf_Timestamp b))))]"

definition block_wf :: "block_full \<Rightarrow> bool" where
  "block_wf b \<longleftrightarrow> is_i64 (bf_Timestamp b) \<and> bf_TxCount b = length (bf_Transactions b) \<and>
     bf_UserTxCount b = length (filter (\<lambda>t. \<not> IsDeposit t) (bf_Transactions b))"

definition codec_ok :: "hex_codec \<Rightarrow> bool" where
  "codec_ok hx \<longleftrightarrow> (\<forall>n. hx_DecodeUint64 hx (hx_Uint64 hx n) = Some n \<and> hx_Uint64 hx n \<noteq> '''')"

lemma codec_decode: "codec_ok hx \<Longrightarrow> hx_DecodeUint64 hx (hx_Uint64 hx n) = Some n"
  "codec_ok hx \<Longrightarrow> dec_or_0 hx (hx_Uint64 hx n) = n" "codec_ok hx \<Longrightarrow> dec_if_set hx (hx_Uint64 hx n) = n"
  by (simp_all add: codec_ok_def dec_or_0_def dec_if_set_def)

lemmas field_simps_json = obj_entries_def str_field_def arr_field_def string_value_def key_matches_def
  ToLower_def lower_char_def Let_def

lemma map_opt_map: "(\<And>x. f (g x) = Some (h x)) \<Longrightarrow> map_opt f (map g xs) = Some (map h xs)"
  by (induction xs) simp_all

lemma parse_tx_json: "codec_ok hx \<Longrightarrow> parse_tx hx (tx_json hx t) = Some t"
  by (simp add: parse_tx_def tx_json_def field_simps_json codec_decode)

lemma is_i64_sint: "is_i64 i \<Longrightarrow> sint (of_int i :: u64) = i"
  by (simp add: is_i64_def sint_sbintrunc' signed_take_bit_int_eq_self)

lemma parse_block_json:
  assumes "codec_ok hx" "block_wf b"
  shows "parseBlockFull hx (Some (block_json hx b)) = Some b"
  using assms map_opt_map [of "parse_tx hx" "tx_json hx" id "bf_Transactions b", simplified, OF parse_tx_json [OF assms(1)]]
  by (simp add: parseBlockFull_def block_json_def field_simps_json codec_decode block_wf_def is_i64_sint)

definition response_json :: "nat \<Rightarrow> json \<Rightarrow> json" where
  "response_json i res = JObj [(''jsonrpc'', JStr ''2.0''), (''id'', JNum (int i + 1)), (''result'', res)]"

lemma parse_response_json:
  "int i + 1 < 2 ^ 63 \<Longrightarrow>
     parse_response (response_json i res) = Some \<lparr>rs_Result = Some res, rs_Error = None, rs_ID = int i + 1\<rparr>"
  by (simp add: parse_response_def response_json_def field_simps_json int_value_def is_i64_def)

lemma batch_result_any_order:
  assumes "mset rs = mset (map g [0..<n])" "\<And>i. rs_ID (g i) = int i + 1" "\<And>i. rs_Error (g i) = None" "i < n"
  shows "batch_result rs (int i + 1) = Inr (rs_Result (g i))"
proof -
  have rs: "set rs = g ` {0..<n}" using mset_eq_setD [OF assms(1)] by simp
  have "find (\<lambda>r. rs_ID r = int i + 1) (rev rs) = Some (g i)"
  proof (cases "find (\<lambda>r. rs_ID r = int i + 1) (rev rs)")
    case None
    then have "\<forall>r \<in> set rs. rs_ID r \<noteq> int i + 1" by (simp add: find_None_iff)
    then show ?thesis using assms(2,4) rs by auto
  next
    case (Some r)
    then obtain j where "j < length (rev rs)" "rs_ID (rev rs ! j) = int i + 1" "r = rev rs ! j"
      unfolding find_Some_iff by blast
    then have "r \<in> set rs" "rs_ID r = int i + 1" using nth_mem [of j "rev rs"] by simp_all
    then show ?thesis using Some assms(2) rs by auto
  qed
  then show ?thesis using assms(3) by (simp add: batch_result_def)
qed

lemma map_opt_all: "(\<And>x. x \<in> set xs \<Longrightarrow> f x \<noteq> None) \<Longrightarrow> map_opt f xs = Some (map (\<lambda>x. the (f x)) xs)"
proof (induction xs)
  case (Cons x xs)
  then obtain y where "f x = Some y" by fastforce
  with Cons show ?case by simp
qed simp

lemma doBatchRequest_any_order:
  assumes "mset js = mset (map (\<lambda>i. response_json i (res i)) [0..<n])" "int n < 2 ^ 63"
  shows "doBatchRequest n (Some (answer (JArr js))) = Inr (map (\<lambda>i. Inr (Some (res i))) [0..<n])"
proof -
  let ?J = "\<lambda>i. response_json i (res i)" and ?g = "\<lambda>i. \<lparr>rs_Result = Some (res i), rs_Error = None, rs_ID = int i + 1\<rparr>"
  let ?p = "\<lambda>x. the (parse_response x)"
  have p: "parse_response (?J i) = Some (?g i)" if "i < n" for i
    using that assms(2) by (intro parse_response_json) simp
  have "set js = ?J ` {0..<n}" using mset_eq_setD [OF assms(1)] by simp
  then have m: "map_opt parse_response js = Some (map ?p js)" using p by (intro map_opt_all) auto
  have "mset (map ?p js) = image_mset ?p (mset (map ?J [0..<n]))" by (simp only: mset_map assms(1))
  also have "\<dots> = mset (map (\<lambda>i. ?p (?J i)) [0..<n])" by (simp add: multiset.map_comp comp_def)
  also have "map (\<lambda>i. ?p (?J i)) [0..<n] = map ?g [0..<n]" using p by simp
  finally have mset: "mset (map ?p js) = mset (map ?g [0..<n])" .
  have "batch_result (map ?p js) (int i + 1) = Inr (rs_Result (?g i))" if "i < n" for i
    by (rule batch_result_any_order [OF mset _ _ that]) simp_all
  then have "map (\<lambda>i. batch_result (map ?p js) (int i + 1)) [0..<n] = map (\<lambda>i. Inr (Some (res i))) [0..<n]"
    by simp
  then show ?thesis unfolding doBatchRequest_def answer_def by (simp only: m option.case json.case http_reply.simps if_False
      HOL.simp_thms)
qed

lemma map_nth_blk: "map (\<lambda>i. f (xs ! i)) [0..<length xs] = map f xs"
  by (rule nth_equalityI) simp_all

definition block_batch_body :: "hex_codec \<Rightarrow> u64 list \<Rightarrow> json" where
  "block_batch_body hx ns =
     JArr (map (\<lambda>i. request_body (int i + 1) ''eth_getBlockByNumber'' (JArr [JStr (hx_Uint64 hx (ns ! i)), JBool True]))
       [0..<length ns])"

lemma BatchCall_first_answer:
  assumes "calls \<noteq> []" "0 \<le> cc_MaxRetries c"
    "srv (JArr (map (\<lambda>i. request_body (int i + 1) (fst (calls ! i)) (snd (calls ! i))) [0..<length calls])) 0 = replying f 0"
    "doBatchRequest (length calls) (f 0) = Inr rs"
  shows "fst (BatchCall c srv calls) = Inr rs"
proof -
  obtain n where "nat (cc_MaxRetries c + 1) = Suc n" using assms(2) by (metis Suc_nat_eq_nat_zadd1 add.commute)
  then show ?thesis using assms by (simp add: BatchCall_def replying_def)
qed

lemma blocks_in_any_order:
  assumes "codec_ok hx" "\<And>n b. blk n = Some b \<Longrightarrow> block_wf b" "ns \<noteq> []" "int (length ns) < 2 ^ 63" "0 \<le> cc_MaxRetries c"
    "mset js = mset (map (\<lambda>i. response_json i (case blk (ns ! i) of None \<Rightarrow> JNull | Some b \<Rightarrow> block_json hx b))
       [0..<length ns])"
    "srv (block_batch_body hx ns) 0 = replying (\<lambda>_. Some (answer (JArr js))) 0"
  shows "GetBlocksByNumberFullBatch hx c srv ns = Inr (map blk ns)"
proof -
  let ?res = "\<lambda>i. case blk (ns ! i) of None \<Rightarrow> JNull | Some b \<Rightarrow> block_json hx b"
  let ?calls = "map (\<lambda>n. (''eth_getBlockByNumber'', JArr [JStr (hx_Uint64 hx n), JBool True])) ns"
  have body: "JArr (map (\<lambda>i. request_body (int i + 1) (fst (?calls ! i)) (snd (?calls ! i))) [0..<length ?calls]) =
      block_batch_body hx ns"
    by (simp add: block_batch_body_def)
  have "fst (BatchCall c srv ?calls) = Inr (map (\<lambda>i. Inr (Some (?res i))) [0..<length ns])"
  proof (rule BatchCall_first_answer)
    show "doBatchRequest (length ?calls) (Some (answer (JArr js))) = Inr (map (\<lambda>i. Inr (Some (?res i))) [0..<length ns])"
      using doBatchRequest_any_order [OF assms(6,4)] by simp
    show "srv (JArr (map (\<lambda>i. request_body (int i + 1) (fst (?calls ! i)) (snd (?calls ! i))) [0..<length ?calls])) 0 =
        replying (\<lambda>_. Some (answer (JArr js))) 0"
      unfolding body by (rule assms(7))
  qed (use assms(3,5) in simp_all)
  moreover have "batch_entry (parseBlockFull hx) (Inr (Some (?res i))) = blk (ns ! i)" for i
    using parse_block_json [OF assms(1) assms(2)]
    by (cases "blk (ns ! i)") (simp_all add: batch_entry_def block_json_def)
  ultimately show ?thesis
    by (simp only: GetBlocksByNumberFullBatch_def sum.case map_map comp_def map_nth)
      (simp add: map_nth_blk)
qed

definition example_codec :: hex_codec where
  "example_codec = \<lparr>hx_Uint64 = (\<lambda>n. replicate (Suc (unat n)) (CHR ''1'')),
     hx_DecodeUint64 = (\<lambda>s. if s = [] then None else Some (of_nat (length s - 1))),
     hx_DecodeBig = (\<lambda>s. if s = [] then None else Some (int (length s) - 1)), hx_Bytes = (\<lambda>_. ''0x'')\<rparr>"

lemma example_codec_ok: "codec_ok example_codec"
  by (simp add: codec_ok_def example_codec_def)

definition example_tx :: transaction where
  "example_tx = \<lparr>tx_Hash = ''h'', tx_From = ''a'', tx_To = ''b'', tx_Type = 2, tx_MaxPriorityFeePerGas = 3,
     tx_MaxFeePerGas = 4, tx_GasPrice = 5, tx_Nonce = 6\<rparr>"

definition example_block :: block_full where
  "example_block = \<lparr>bf_Number = 1, bf_Hash = ''b1'', bf_Transactions = [example_tx], bf_BaseFeePerGas = ''0x7'',
     bf_GasUsed = 21, bf_GasLimit = 30, bf_Timestamp = 9, bf_TxCount = 1, bf_UserTxCount = 1\<rparr>"

lemma example_node_blocks:
  assumes "block_wf b"
  shows "GetBlocksByNumberFullBatch example_codec DefaultClientConfig
     (\<lambda>_. replying (\<lambda>_. Some (answer (JArr [response_json 1 JNull, response_json 0 (block_json example_codec b)]))))
     [1, 2] = Inr [Some b, None]"
proof -
  define js where "js = [response_json 1 JNull, response_json 0 (block_json example_codec b)]"
  define blk where "blk = (\<lambda>n::u64. if n = 1 then Some b else None)"
  have "GetBlocksByNumberFullBatch example_codec DefaultClientConfig
      (\<lambda>_. replying (\<lambda>_. Some (answer (JArr js)))) [1, 2] = Inr (map blk [1, 2])"
  proof (rule blocks_in_any_order [OF example_codec_ok])
    show "block_wf b'" if "blk n = Some b'" for n b' using that assms by (auto simp: blk_def split: if_splits)
    show "mset js = mset (map (\<lambda>i. response_json i (case blk ([1, 2] ! i) of None \<Rightarrow> JNull
        | Some b \<Rightarrow> block_json example_codec b)) [0..<length [1, 2 :: u64]])"
      by (simp add: js_def blk_def upt_rec)
  qed (simp_all add: DefaultClientConfig_def replying_def)
  then show ?thesis by (simp add: blk_def js_def)
qed

text \<open>
  C19: Blocks requested as one batch come back as the node has them and in the order of the
  request, whatever the order in which the node answers: decoding inverts the wire format, and a
  block the node does not know is \<open>nil\<close> in its place.
\<close>
theorem batch_blocks_in_request_order:
  assumes "codec_ok hx" "\<And>n b. blk n = Some b \<Longrightarrow> block_wf b" "ns \<noteq> []" "int (length ns) < 2 ^ 63" "0 \<le> cc_MaxRetries c"
    "mset js = mset (map (\<lambda>i. response_json i (case blk (ns ! i) of None \<Rightarrow> JNull | Some b \<Rightarrow> block_json hx b))
       [0..<length ns])"
    "srv (block_batch_body hx ns) 0 = replying (\<lambda>_. Some (answer (JArr js))) 0"
  shows "GetBlocksByNumberFullBatch hx c srv ns = Inr (map blk ns)"
  using assms by (rule blocks_in_any_order)

text \<open>The node knows block 1 only and answers in reverse order.\<close>

theorem batch_blocks_in_request_order_witness:
  "GetBlocksByNumberFullBatch example_codec DefaultClientConfig
     (\<lambda>_. replying (\<lambda>_. Some (answer (JArr [response_json 1 JNull, response_json 0 (block_json example_codec example_block)]))))
     [1, 2] = Inr [Some example_block, None]"
proof -
  define js where "js = [response_json 1 JNull, response_json 0 (block_json example_codec example_block)]"
  define srv :: server where "srv = (\<lambda>_. replying (\<lambda>_. Some (answer (JArr js))))"
  define blk where "blk = (\<lambda>n::u64. if n = 1 then Some example_block else None)"
  have "GetBlocksByNumberFullBatch example_codec DefaultClientConfig srv [1, 2] = Inr (map blk [1, 2])"
  proof (rule batch_blocks_in_request_order [OF example_codec_ok])
    show "block_wf b" if "blk n = Some b" for n b
      using that by (auto simp: blk_def block_wf_def example_block_def is_i64_def IsDeposit_def example_tx_def split: if_splits)
    show "mset js = mset (map (\<lambda>i. response_json i (case blk ([1, 2] ! i) of None \<Rightarrow> JNull
        | Some b \<Rightarrow> block_json example_codec b)) [0..<length [1, 2 :: u64]])"
      by (simp add: js_def blk_def upt_rec)
  qed (simp_all add: srv_def DefaultClientConfig_def replying_def)
  then show ?thesis by (simp add: blk_def srv_def js_def)
qed

section \<open>A null quantity\<close>

text \<open>
  When a node answers \<open>null\<close>, the operations with an optional result report that nothing was
  found and the base fee an error, but every operation that decodes a quantity panics, because
  \<open>null\<close> leaves the string empty and the decoding that follows must not fail.
\<close>
theorem null_reply_panics:
  assumes "hx_DecodeUint64 hx '''' = None" "hx_DecodeBig hx '''' = None" "0 \<le> cc_MaxRetries c"
    "\<And>body. srv body 0 = replying (\<lambda>_. Some (answer (JObj [(''id'', JNum 1), (''result'', JNull)]))) 0"
  shows "rpc_GetNonce hx c srv a = None \<and> GetConfirmedNonce hx c srv a = None \<and> GetBlockNumber hx c srv = None \<and>
    GetGasPrice hx c srv = None \<and> GetBalance hx c srv a = None \<and>
    GetTransactionReceipt hx c srv h = Inr None \<and> GetBlockByNumberFull hx c srv n = Inr None \<and>
    GetBlockByNumber hx c srv n = Inr None \<and>
    GetBaseFee hx c srv = Some (Inl (OtherError ''baseFeePerGas not found in block''))"
proof -
  obtain m where m: "nat (cc_MaxRetries c + 1) = Suc m" using assms(3) by (metis Suc_nat_eq_nat_zadd1 add.commute)
  have "doRequest (Some (answer (JObj [(''id'', JNum 1), (''result'', JNull)]))) = Inr (Some JNull)"
    by (simp add: doRequest_def answer_def parse_response_def field_simps_json int_value_def is_i64_def)
  then have c: "fst (Call c srv mth params) = Inr (Some JNull)" for mth params
    unfolding Call_def m by (simp add: assms(4) replying_def)
  have u: "unmarshal_string (Some JNull) = Some ''''" by (simp add: unmarshal_string_def string_value_def)
  have q: "quantity hx (Inr (Some JNull)) = None" by (simp add: quantity_def u assms(1))
  have t: "typed parse (Inr (Some JNull)) = Inr None" for parse :: "raw_message \<Rightarrow> 'x option"
    by (simp add: typed_def)
  have f: "str_field f [] = Some ''''" for f by (simp add: str_field_def)
  show ?thesis
    by (intro conjI; simp add: rpc_GetNonce_def GetConfirmedNonce_def GetBlockNumber_def GetGasPrice_def GetBalance_def
        GetTransactionReceipt_def GetBlockByNumberFull_def GetBlockByNumber_def GetBaseFee_def c q u t f obj_entries_def
        assms(1,2))
qed

theorem null_reply_panics_witness:
  "GetConfirmedNonce example_codec DefaultClientConfig
     (\<lambda>_. replying (\<lambda>_. Some (answer (JObj [(''id'', JNum 1), (''result'', JNull)])))) ''0xabc'' = None"
proof -
  let ?srv = "\<lambda>_. replying (\<lambda>_. Some (answer (JObj [(''id'', JNum 1), (''result'', JNull)])))"
  have "hx_DecodeUint64 example_codec '''' = None" "hx_DecodeBig example_codec '''' = None"
    "0 \<le> cc_MaxRetries DefaultClientConfig"
    "\<And>body :: json. ?srv body 0 = replying (\<lambda>_. Some (answer (JObj [(''id'', JNum 1), (''result'', JNull)]))) 0"
    by (simp_all add: example_codec_def DefaultClientConfig_def)
  from null_reply_panics [where srv = ?srv, OF this] show ?thesis by blast
qed

end
