(* ===== verification/Chain_Reader.thy ===== *)
theory Chain_Reader
  imports Rpc_Client
begin

text \<open>
  The interface through which the rest of the program reads the chain: batched lookups that answer
  by position.  The contract is a locale, its provider is the RPC client.  The loop over batches of
  at most \<open>b\<close> keys with a fallback to single lookups is shared by the two halves of the verifier.
\<close>

text \<open>
  One batch: the positions (from \<open>off\<close>), keys and answers.  A failed single lookup is skipped.  More
  answers than keys would index past the end of the keys, which is the panic \<open>None\<close>.
\<close>

definition fetch_batch ::
  "('k list \<Rightarrow> 'e + 'v option list) \<Rightarrow> ('k \<Rightarrow> 'e + 'v option) \<Rightarrow> nat \<Rightarrow> 'k list \<Rightarrow> (nat \<times> 'k \<times> 'v option) list option" where
  "fetch_batch batch single off ks =
     (case batch ks of
        Inl _ \<Rightarrow>
          Some (List.map_filter (\<lambda>i. case single (ks ! i) of Inl _ \<Rightarrow> None | Inr v \<Rightarrow> Some (off + i, ks ! i, v))
            [0..<length ks])
      | Inr vs \<Rightarrow>
          if length vs \<le> length ks then Some (map (\<lambda>i. (off + i, ks ! i, vs ! i)) [0..<length vs]) else None)"

fun fetch_batches ::
  "('k list \<Rightarrow> 'e + 'v option list) \<Rightarrow> ('k \<Rightarrow> 'e + 'v option) \<Rightarrow> nat \<Rightarrow> 'k list list \<Rightarrow>
     (nat \<times> 'k \<times> 'v option) list option" where
  "fetch_batches batch single off [] = Some []"
| "fetch_batches batch single off (ks # kss) =
     do { xs \<leftarrow> fetch_batch batch single off ks;
          ys \<leftarrow> fetch_batches batch single (off + length ks) kss;
          Some (xs @ ys) }"

definition fetch_all ::
  "('k list \<Rightarrow> 'e + 'v option list) \<Rightarrow> ('k \<Rightarrow> 'e + 'v option) \<Rightarrow> nat \<Rightarrow> 'k list \<Rightarrow> (nat \<times> 'k \<times> 'v option) list option" where
  "fetch_all batch single b ks = fetch_batches batch single 0 (batches_of b ks)"

text \<open>The answers stand at the positions of their keys.\<close>

definition placed :: "nat \<Rightarrow> 'k list \<Rightarrow> (nat \<times> 'k \<times> 'v) list \<Rightarrow> bool" where
  "placed off ks rs \<longleftrightarrow> (\<forall>r \<in> set rs. off \<le> fst r \<and> fst r < off + length ks \<and> ks ! (fst r - off) = fst (snd r))"

lemma placed_append:
  assumes "placed off ks xs" "placed (off + length ks) kss ys" "distinct (map fst xs)" "distinct (map fst ys)"
  shows "distinct (map fst (xs @ ys))" "placed off (ks @ kss) (xs @ ys)"
proof -
  have "fst ` set xs \<inter> fst ` set ys = {}" using assms(1,2) by (force simp: placed_def)
  then show "distinct (map fst (xs @ ys))" using assms(3,4) by simp
  have "off \<le> fst r \<and> fst r < off + length (ks @ kss) \<and> (ks @ kss) ! (fst r - off) = fst (snd r)"
    if "r \<in> set xs" for r
    using assms(1) that by (force simp: placed_def nth_append)
  moreover have "off \<le> fst r \<and> fst r < off + length (ks @ kss) \<and> (ks @ kss) ! (fst r - off) = fst (snd r)"
    if "r \<in> set ys" for r
  proof -
    have r: "off + length ks \<le> fst r" "fst r < off + length ks + length kss" "kss ! (fst r - (off + length ks)) = fst (snd r)"
      using assms(2) that by (simp_all add: placed_def)
    then have "\<not> fst r - off < length ks" "fst r - off - length ks = fst r - (off + length ks)" by simp_all
    with r show ?thesis by (simp add: nth_append)
  qed
  ultimately show "placed off (ks @ kss) (xs @ ys)" by (auto simp: placed_def)
qed

locale batch_reader =
  fixes batch :: "'k list \<Rightarrow> 'e + 'v option list"
  assumes one_answer_each: "batch ks = Inr vs \<Longrightarrow> length vs = length ks"
begin

lemma fetch_batch_ok:
  "\<exists>rs. fetch_batch batch single off ks = Some rs \<and> distinct (map fst rs) \<and> placed off ks rs"
proof (cases "batch ks")
  case (Inl e)
  let ?f = "\<lambda>i. case single (ks ! i) of Inl _ \<Rightarrow> None | Inr v \<Rightarrow> Some (off + i, ks ! i, v)"
  have "map fst (List.map_filter ?f is) = map (\<lambda>i. off + i) (filter (\<lambda>i. ?f i \<noteq> None) is)" for "is"
    by (induction "is") (auto simp: List.map_filter_def split: sum.splits)
  then have "distinct (map fst (List.map_filter ?f [0..<length ks]))" by (simp add: distinct_map)
  then show ?thesis using Inl by (auto simp: fetch_batch_def List.map_filter_def placed_def split: sum.splits)
next
  case (Inr vs)
  then show ?thesis using one_answer_each [OF Inr]
    by (auto simp: fetch_batch_def placed_def distinct_map inj_on_def comp_def)
qed

lemma fetch_batches_ok:
  "\<exists>rs. fetch_batches batch single off kss = Some rs \<and> distinct (map fst rs) \<and> placed off (concat kss) rs"
proof (induction kss arbitrary: off)
  case (Cons ks kss)
  obtain xs where xs: "fetch_batch batch single off ks = Some xs" "distinct (map fst xs)" "placed off ks xs"
    using fetch_batch_ok [of single off ks] by blast
  obtain ys where ys: "fetch_batches batch single (off + length ks) kss = Some ys" "distinct (map fst ys)"
    "placed (off + length ks) (concat kss) ys"
    using Cons.IH [of "off + length ks"] by blast
  have "distinct (map fst (xs @ ys))" "placed off (ks @ concat kss) (xs @ ys)"
    using placed_append [OF xs(3) ys(3) xs(2) ys(2)] .
  then show ?case using xs(1) ys(1) by simp
qed (simp add: placed_def)

text \<open>Reading all keys never panics, and every answer stands at the position of its key.\<close>

lemma fetch_all_ok:
  assumes "0 < b"
  shows "\<exists>rs. fetch_all batch single b ks = Some rs \<and> distinct (map fst rs) \<and> placed 0 ks rs"
  using fetch_batches_ok [of single 0 "batches_of b ks"] assms
  by (simp add: fetch_all_def batches_of_concat)

end

interpretation blocks: batch_reader "GetBlocksByNumberFullBatch hx c srv" for hx c srv
  by unfold_locales (rule batch_lengths)

interpretation receipts: batch_reader "GetTransactionReceiptsBatch hx c srv" for hx c srv
  by unfold_locales (rule batch_lengths)

end
