(* ===== verification/Verifier.thy ===== *)
theory Verifier
  imports Chain_Reader
begin

text \<open>
  \<open>internal/verification/verifier.go\<close>: the comparison of a finished test with the chain.  Tip ordering
  of sampled blocks, receipts of sampled transactions, the snapshots taken during a long test and
  their aggregation.  The chain is read through two batch operations and their single fallbacks,
  which are arguments; the shuffle of \<open>math/rand\<close> is an argument too.  Progress callbacks and logging
  are left out.
\<close>

section \<open>Results\<close>

record ordering_violation =
  ov_BlockNumber :: u64
  ov_TxIndex :: nat
  ov_ExpectedTip :: u64
  ov_ActualTip :: u64

record block_tip_analysis =
  ba_BlockNumber :: u64
  ba_TxCount :: int
  ba_Tips :: "u64 list"
  ba_IsOrdered :: bool

record tip_ordering_result =
  to_Verified :: bool
  to_TotalBlocks :: int
  to_BlocksSampled :: nat
  to_CorrectlyOrdered :: nat
  to_ViolationCount :: nat
  to_OrderingViolations :: "ordering_violation list"
  to_SampleBlocks :: "block_tip_analysis list"

record receipt_sample =
  sm_TxHash :: string
  sm_BlockNumber :: u64
  sm_GasUsed :: u64
  sm_Status :: u64
  sm_EffectiveGasPrice :: u64

record receipt_verification =
  rv_SampleSize :: nat
  rv_SuccessCount :: nat
  rv_RevertCount :: nat
  rv_AvgGasUsed :: u64
  rv_MinGasUsed :: u64
  rv_MaxGasUsed :: u64
  rv_TotalGasVerified :: u64
  rv_Samples :: "receipt_sample list"
  rv_RevertedTxs :: "receipt_sample list"

record snapshot =
  sn_FirstBlock :: u64
  sn_LastBlock :: u64
  sn_BlocksSampled :: nat
  sn_BlocksOrdered :: nat
  sn_ReceiptsSampled :: nat
  sn_ReceiptsSuccess :: nat
  sn_ReceiptsReverted :: nat
  sn_TotalGasUsed :: u64
  sn_MinGasUsed :: u64
  sn_MaxGasUsed :: u64
  sn_Violations :: nat
  sn_RevertedTxs :: "receipt_sample list"

datatype warning = MoreOnChain int | MoreConfirmed int | SampledReverted nat nat | SnapshotsReverted nat nat nat

record verification_result =
  vr_MetricsMatch :: bool
  vr_TxCountDelta :: int
  vr_TipOrdering :: "tip_ordering_result option"
  vr_TxReceipts :: "receipt_verification option"
  vr_AllChecksPass :: bool
  vr_Warnings :: "warning list"
  vr_IncrementalMode :: bool
  vr_Snapshots :: "snapshot list"
  vr_SnapshotCount :: nat

definition tip_result_0 :: tip_ordering_result where
  "tip_result_0 = \<lparr>to_Verified = False, to_TotalBlocks = 0, to_BlocksSampled = 0, to_CorrectlyOrdered = 0,
     to_ViolationCount = 0, to_OrderingViolations = [], to_SampleBlocks = []\<rparr>"

definition receipt_result_0 :: receipt_verification where
  "receipt_result_0 = \<lparr>rv_SampleSize = 0, rv_SuccessCount = 0, rv_RevertCount = 0, rv_AvgGasUsed = 0,
     rv_MinGasUsed = - 1, rv_MaxGasUsed = 0, rv_TotalGasVerified = 0, rv_Samples = [], rv_RevertedTxs = []\<rparr>"

definition snapshot_0 :: snapshot where
  "snapshot_0 = \<lparr>sn_FirstBlock = 0, sn_LastBlock = 0, sn_BlocksSampled = 0, sn_BlocksOrdered = 0,
     sn_ReceiptsSampled = 0, sn_ReceiptsSuccess = 0, sn_ReceiptsReverted = 0, sn_TotalGasUsed = 0,
     sn_MinGasUsed = 0, sn_MaxGasUsed = 0, sn_Violations = 0, sn_RevertedTxs = []\<rparr>"

section \<open>Tip ordering\<close>

definition effective_tip :: "transaction \<Rightarrow> u64" where
  "effective_tip t =
     (if tx_MaxPriorityFeePerGas t = 0 \<and> 0 < tx_GasPrice t then tx_GasPrice t else tx_MaxPriorityFeePerGas t)"

definition tip_of :: "(string, u64) gomap \<Rightarrow> string \<Rightarrow> u64" where
  "tip_of m s = (case map_get m s of Some v \<Rightarrow> v | None \<Rightarrow> 0)"

definition add_sender_tip :: "transaction \<Rightarrow> (string, u64) gomap \<times> string list \<Rightarrow> (string, u64) gomap \<times> string list" where
  "add_sender_tip t r =
     (case r of (senderMaxTips, senderOrder) \<Rightarrow>
        (if tip_of senderMaxTips (tx_From t) < effective_tip t
         then map_put (tx_From t) (effective_tip t) senderMaxTips else senderMaxTips,
         if tx_From t \<in> set senderOrder then senderOrder else senderOrder @ [tx_From t]))"

definition user_txs :: "bool \<Rightarrow> block_full \<Rightarrow> transaction list" where
  "user_txs includeDepositTx b = (if includeDepositTx then drop 1 (bf_Transactions b) else bf_Transactions b)"

definition extractSenderTips :: "bool \<Rightarrow> block_full \<Rightarrow> (string, u64) gomap \<times> string list" where
  "extractSenderTips includeDepositTx b = fold add_sender_tip (user_txs includeDepositTx b) ([], [])"

definition sender_tips :: "bool \<Rightarrow> block_full \<Rightarrow> u64 list" where
  "sender_tips includeDepositTx b =
     (case extractSenderTips includeDepositTx b of (m, senderOrder) \<Rightarrow> map (tip_of m) senderOrder)"

definition out_of_order :: "string \<Rightarrow> u64 \<Rightarrow> u64 \<Rightarrow> bool" where
  "out_of_order dir prev cur =
     (if dir = ''tip_desc'' then prev < cur else if dir = ''tip_asc'' then cur < prev else False)"

definition checkSenderTipOrdering :: "u64 list \<Rightarrow> string \<Rightarrow> bool" where
  "checkSenderTipOrdering tips dir =
     (length tips \<le> 1 \<or> list_all (\<lambda>i. \<not> out_of_order dir (tips ! (i - 1)) (tips ! i)) [1..<length tips])"

definition findSenderOrderingViolations :: "u64 \<Rightarrow> u64 list \<Rightarrow> string \<Rightarrow> ordering_violation list" where
  "findSenderOrderingViolations blockNum tips dir =
     take 10 (map (\<lambda>i. \<lparr>ov_BlockNumber = blockNum, ov_TxIndex = i, ov_ExpectedTip = tips ! (i - 1), ov_ActualTip = tips ! i\<rparr>)
       (filter (\<lambda>i. out_of_order dir (tips ! (i - 1)) (tips ! i)) [1..<length tips]))"

definition processBlockForTipOrdering ::
  "bool \<Rightarrow> string \<Rightarrow> block_full option \<Rightarrow> u64 \<Rightarrow> tip_ordering_result \<Rightarrow> tip_ordering_result" where
  "processBlockForTipOrdering incl dir blk blockNum res =
     (case blk of
        None \<Rightarrow> res
      | Some b \<Rightarrow>
          if bf_TxCount b = 0 then res
          else
            let res1 = res\<lparr>to_BlocksSampled := to_BlocksSampled res + 1\<rparr>;
                tips = sender_tips incl b
            in if length tips \<le> 1 then res1\<lparr>to_CorrectlyOrdered := to_CorrectlyOrdered res1 + 1\<rparr>
               else
                 let isOrdered = checkSenderTipOrdering tips dir;
                     analysis = \<lparr>ba_BlockNumber = blockNum,
                       ba_TxCount = (if incl then int (bf_TxCount b) - 1 else int (bf_TxCount b)),
                       ba_Tips = take 10 tips, ba_IsOrdered = isOrdered\<rparr>;
                     res2 = (if isOrdered then res1\<lparr>to_CorrectlyOrdered := to_CorrectlyOrdered res1 + 1\<rparr>
                       else res1\<lparr>to_OrderingViolations := to_OrderingViolations res1 @
                              findSenderOrderingViolations blockNum tips dir\<rparr>)
                 in if length (to_SampleBlocks res2) < 5
                    then res2\<lparr>to_SampleBlocks := to_SampleBlocks res2 @ [analysis]\<rparr> else res2)"

text \<open>
  The loop \<open>for n := first; n <= last; n += interval\<close> on \<open>uint64\<close>, which does not end when the
  addition wraps below \<open>last\<close>.
\<close>

partial_function (option) sample_blocks :: "u64 \<Rightarrow> u64 \<Rightarrow> u64 \<Rightarrow> u64 list option" where
  "sample_blocks interval lastBlock n =
     (if n \<le> lastBlock then
        Option.bind (sample_blocks interval lastBlock (n + interval)) (\<lambda>ns. Some (n # ns))
      else Some [])"

type_synonym block_source = "(u64 list \<Rightarrow> rpc_err + block_full option list) \<times> (u64 \<Rightarrow> rpc_err + block_full option)"
type_synonym receipt_source = "(string list \<Rightarrow> rpc_err + tx_receipt option list) \<times> (string \<Rightarrow> rpc_err + tx_receipt option)"

definition verifyTipOrdering ::
  "bool \<Rightarrow> block_source \<Rightarrow> u64 \<Rightarrow> u64 \<Rightarrow> string \<Rightarrow> int \<Rightarrow> tip_ordering_result option" where
  "verifyTipOrdering incl src firstBlock lastBlock dir sampleInterval =
     (let res0 = tip_result_0\<lparr>to_TotalBlocks := sint (lastBlock - firstBlock + 1)\<rparr> in
      if firstBlock = 0 \<or> lastBlock = 0 \<or> lastBlock < firstBlock then Some (res0\<lparr>to_Verified := True\<rparr>)
      else do { blockNums \<leftarrow> sample_blocks (of_int sampleInterval) lastBlock firstBlock;
                rs \<leftarrow> fetch_all (fst src) (snd src) 50 blockNums;
                let res = fold (\<lambda>(i, n, b). processBlockForTipOrdering incl dir b n) rs res0;
                Some (res\<lparr>to_Verified := (to_BlocksSampled res = 0 \<or> to_CorrectlyOrdered res = to_BlocksSampled res),
                          to_ViolationCount := length (to_OrderingViolations res)\<rparr>) })"

section \<open>Receipts\<close>

definition sample_of :: "string \<Rightarrow> tx_receipt \<Rightarrow> receipt_sample" where
  "sample_of h r = \<lparr>sm_TxHash = h, sm_BlockNumber = tr_BlockNumber r, sm_GasUsed = tr_GasUsed r,
     sm_Status = tr_Status r, sm_EffectiveGasPrice = tr_EffectiveGasPrice r\<rparr>"

definition processReceipt :: "nat \<Rightarrow> string \<Rightarrow> tx_receipt option \<Rightarrow> receipt_verification \<times> u64 \<Rightarrow> receipt_verification \<times> u64" where
  "processReceipt idx h rcp acc =
     (case (rcp, acc) of
        (None, _) \<Rightarrow> acc
      | (Some r, res, totalGasUsed) \<Rightarrow>
          let res1 = (if tr_Status r = 1 then res\<lparr>rv_SuccessCount := rv_SuccessCount res + 1\<rparr>
                else res\<lparr>rv_RevertCount := rv_RevertCount res + 1,
                         rv_RevertedTxs := (if length (rv_RevertedTxs res) < 100
                           then rv_RevertedTxs res @ [sample_of h r] else rv_RevertedTxs res)\<rparr>);
              res2 = res1\<lparr>rv_TotalGasVerified := rv_TotalGasVerified res1 + tr_GasUsed r,
                          rv_MinGasUsed := (if tr_GasUsed r < rv_MinGasUsed res1 then tr_GasUsed r else rv_MinGasUsed res1),
                          rv_MaxGasUsed := (if rv_MaxGasUsed res1 < tr_GasUsed r then tr_GasUsed r else rv_MaxGasUsed res1),
                          rv_Samples := (if idx < 10 then rv_Samples res1 @ [sample_of h r] else rv_Samples res1)\<rparr>
          in (res2, totalGasUsed + tr_GasUsed r))"

definition reset_min :: "u64 \<Rightarrow> u64" where
  "reset_min m = (if m = - 1 then 0 else m)"

text \<open>\<open>shuffled\<close> is the list of all indices as \<open>rand.Shuffle\<close> leaves it.\<close>

definition sample_hashes :: "nat list \<Rightarrow> string list \<Rightarrow> nat \<Rightarrow> string list" where
  "sample_hashes shuffled hs sampleSize = map (\<lambda>i. hs ! i) (sort (take (min sampleSize (length hs)) shuffled))"

definition sampleTxReceipts :: "nat list \<Rightarrow> receipt_source \<Rightarrow> string list \<Rightarrow> nat \<Rightarrow> receipt_verification option" where
  "sampleTxReceipts shuffled src hs sampleSize =
     (if hs = [] then Some receipt_result_0
      else do { rs \<leftarrow> fetch_all (fst src) (snd src) 50 (sample_hashes shuffled hs sampleSize);
                let (res, total) = fold (\<lambda>(i, h, r). processReceipt i h r) rs
                      (receipt_result_0\<lparr>rv_SampleSize := min sampleSize (length hs)\<rparr>, 0);
                let n = rv_SuccessCount res + rv_RevertCount res;
                Some (res\<lparr>rv_AvgGasUsed := (if 0 < n then total div of_nat n else rv_AvgGasUsed res),
                          rv_MinGasUsed := reset_min (rv_MinGasUsed res)\<rparr>) })"

section \<open>The verification of a test\<close>

definition count_delta :: "u64 \<Rightarrow> u64 \<Rightarrow> int" where
  "count_delta onChain confirmed = wrap64 (sint onChain - sint confirmed)"

definition count_warnings :: "int \<Rightarrow> warning list" where
  "count_warnings d =
     (if 0 < d then [MoreOnChain d] else if d < 0 then [MoreConfirmed (wrap64 (- d))] else [])"

definition ordering_enabled :: "string \<Rightarrow> bool" where
  "ordering_enabled o' \<longleftrightarrow> o' = ''tip_desc'' \<or> o' = ''tip_asc''"

definition VerifyTestResults ::
  "bool \<Rightarrow> block_source \<Rightarrow> receipt_source \<Rightarrow> nat list \<Rightarrow> u64 \<Rightarrow> u64 \<Rightarrow> u64 \<Rightarrow> u64 \<Rightarrow> string \<Rightarrow> string list \<Rightarrow>
     verification_result option" where
  "VerifyTestResults incl bsrc rsrc shuffled onChain confirmed firstBlock lastBlock dir hashes =
     (let delta = count_delta onChain confirmed in
      do { tip \<leftarrow> (if ordering_enabled dir
                   then map_option Some (verifyTipOrdering incl bsrc firstBlock lastBlock dir 10) else Some None);
           rcp \<leftarrow> (if 0 < length hashes then map_option Some (sampleTxReceipts shuffled rsrc hashes 100) else Some None);
           Some \<lparr>vr_MetricsMatch = (delta = 0), vr_TxCountDelta = delta, vr_TipOrdering = tip, vr_TxReceipts = rcp,
                 vr_AllChecksPass = (delta = 0 \<and> (case tip of None \<Rightarrow> True | Some t \<Rightarrow> to_Verified t) \<and>
                   (case rcp of None \<Rightarrow> True | Some r \<Rightarrow> rv_RevertCount r = 0)),
                 vr_Warnings = count_warnings delta @
                   (case rcp of Some r \<Rightarrow> if 0 < rv_RevertCount r then [SampledReverted (rv_RevertCount r) (rv_SampleSize r)] else []
                      | None \<Rightarrow> []),
                 vr_IncrementalMode = False, vr_Snapshots = [], vr_SnapshotCount = 0\<rparr> })"

section \<open>Incremental verification\<close>

text \<open>
  Evenly spaced samples: \<open>for i := 0; i < len(xs) && len(out) < maxN; i += step\<close>.  A bound of zero
  divides by zero when there is anything to sample, a negative one samples nothing.
\<close>

fun pick_every :: "nat \<Rightarrow> nat \<Rightarrow> 'a list \<Rightarrow> nat \<Rightarrow> 'a list" where
  "pick_every step i xs 0 = []"
| "pick_every step i xs (Suc n) = (if i < length xs then xs ! i # pick_every step (i + step) xs n else [])"

definition sample_evenly :: "int \<Rightarrow> 'a list \<Rightarrow> 'a list option" where
  "sample_evenly maxN xs =
     (if maxN < int (length xs) then
        (if maxN = 0 then None
         else Some (pick_every (nat (go_quot (int (length xs)) maxN)) 0 xs (nat maxN)))
      else Some (pick_every 1 0 xs (nat maxN)))"

definition snapshot_block :: "bool \<Rightarrow> string \<Rightarrow> block_full option \<Rightarrow> snapshot \<Rightarrow> snapshot" where
  "snapshot_block incl dir blk s =
     (case blk of
        None \<Rightarrow> s
      | Some b \<Rightarrow>
          if bf_TxCount b \<le> 1 then s
          else
            let s1 = s\<lparr>sn_BlocksSampled := sn_BlocksSampled s + 1\<rparr>; tips = sender_tips incl b in
            if length tips \<le> 1 then s1\<lparr>sn_BlocksOrdered := sn_BlocksOrdered s1 + 1\<rparr>
            else if checkSenderTipOrdering tips dir then s1\<lparr>sn_BlocksOrdered := sn_BlocksOrdered s1 + 1\<rparr>
            else s1\<lparr>sn_Violations := sn_Violations s1 + 1\<rparr>)"

definition verifyBlocksIncremental ::
  "bool \<Rightarrow> (u64 list \<Rightarrow> rpc_err + block_full option list) \<Rightarrow> u64 list \<Rightarrow> string \<Rightarrow> int \<Rightarrow> snapshot \<Rightarrow> snapshot option" where
  "verifyBlocksIncremental incl batch blockNums dir maxBlocks s =
     do { ns \<leftarrow> sample_evenly maxBlocks blockNums;
          if ns = [] then Some s
          else (case batch ns of Inl _ \<Rightarrow> Some s | Inr bs \<Rightarrow> Some (fold (snapshot_block incl dir) bs s)) }"

definition snapshot_receipt :: "string \<times> tx_receipt option \<Rightarrow> snapshot \<Rightarrow> snapshot" where
  "snapshot_receipt hr s =
     (case hr of
        (h, None) \<Rightarrow> s
      | (h, Some r) \<Rightarrow>
          let s1 = s\<lparr>sn_ReceiptsSampled := sn_ReceiptsSampled s + 1, sn_TotalGasUsed := sn_TotalGasUsed s + tr_GasUsed r,
                sn_MinGasUsed := (if tr_GasUsed r < sn_MinGasUsed s then tr_GasUsed r else sn_MinGasUsed s),
                sn_MaxGasUsed := (if sn_MaxGasUsed s < tr_GasUsed r then tr_GasUsed r else sn_MaxGasUsed s)\<rparr>
          in if tr_Status r = 1 then s1\<lparr>sn_ReceiptsSuccess := sn_ReceiptsSuccess s1 + 1\<rparr>
             else s1\<lparr>sn_ReceiptsReverted := sn_ReceiptsReverted s1 + 1,
                     sn_RevertedTxs := (if length (sn_RevertedTxs s1) < 10
                       then sn_RevertedTxs s1 @ [sample_of h r] else sn_RevertedTxs s1)\<rparr>)"

text \<open>The client answers once per hash, so the loop pairs each receipt with its hash.\<close>

definition sampleReceiptsIncremental ::
  "(string list \<Rightarrow> rpc_err + tx_receipt option list) \<Rightarrow> string list \<Rightarrow> int \<Rightarrow> snapshot \<Rightarrow> snapshot option" where
  "sampleReceiptsIncremental batch hs maxReceipts s =
     do { ks \<leftarrow> sample_evenly (min maxReceipts (int (length hs))) hs;
          if ks = [] then Some s
          else (case batch ks of
                  Inl _ \<Rightarrow> Some s
                | Inr rs \<Rightarrow>
                    let s' = fold snapshot_receipt (zip ks rs) (s\<lparr>sn_MinGasUsed := - 1\<rparr>)
                    in Some (s'\<lparr>sn_MinGasUsed := reset_min (sn_MinGasUsed s')\<rparr>)) }"

definition VerifyIncremental ::
  "bool \<Rightarrow> (u64 list \<Rightarrow> rpc_err + block_full option list) \<Rightarrow> (string list \<Rightarrow> rpc_err + tx_receipt option list) \<Rightarrow>
     u64 list \<Rightarrow> string list \<Rightarrow> string \<Rightarrow> int \<Rightarrow> int \<Rightarrow> snapshot option" where
  "VerifyIncremental incl bbatch rbatch blocks hashes dir blocksToSample receiptsToSample =
     (if blocks = [] then Some snapshot_0
      else
        let s0 = snapshot_0\<lparr>sn_FirstBlock := hd blocks, sn_LastBlock := last blocks\<rparr> in
        do { s1 \<leftarrow> (if ordering_enabled dir then verifyBlocksIncremental incl bbatch blocks dir blocksToSample s0 else Some s0);
             if 0 < length hashes then sampleReceiptsIncremental rbatch hashes receiptsToSample s1 else Some s1 })"

definition add_snapshot_receipts :: "snapshot \<Rightarrow> receipt_verification \<Rightarrow> receipt_verification" where
  "add_snapshot_receipts sn r =
     (let r1 = r\<lparr>rv_SampleSize := rv_SampleSize r + sn_ReceiptsSampled sn,
            rv_SuccessCount := rv_SuccessCount r + sn_ReceiptsSuccess sn,
            rv_RevertCount := rv_RevertCount r + sn_ReceiptsReverted sn,
            rv_TotalGasVerified := rv_TotalGasVerified r + sn_TotalGasUsed sn\<rparr>;
          r2 = (if 0 < sn_ReceiptsSampled sn then
            r1\<lparr>rv_MinGasUsed := (if sn_MinGasUsed sn < rv_MinGasUsed r1 then sn_MinGasUsed sn else rv_MinGasUsed r1),
               rv_MaxGasUsed := (if rv_MaxGasUsed r1 < sn_MaxGasUsed sn then sn_MaxGasUsed sn else rv_MaxGasUsed r1)\<rparr>
            else r1)
      in r2\<lparr>rv_RevertedTxs := take (max 100 (length (rv_RevertedTxs r2))) (rv_RevertedTxs r2 @ sn_RevertedTxs sn)\<rparr>)"

definition aggregate_tips :: "snapshot list \<Rightarrow> tip_ordering_result" where
  "aggregate_tips sns =
     (let t = fold (\<lambda>sn t. t\<lparr>to_BlocksSampled := to_BlocksSampled t + sn_BlocksSampled sn,
                             to_CorrectlyOrdered := to_CorrectlyOrdered t + sn_BlocksOrdered sn,
                             to_ViolationCount := to_ViolationCount t + sn_Violations sn\<rparr>) sns tip_result_0
      in t\<lparr>to_TotalBlocks := int (to_BlocksSampled t),
           to_Verified := (to_BlocksSampled t = 0 \<or> to_CorrectlyOrdered t = to_BlocksSampled t)\<rparr>)"

definition aggregate_receipts :: "snapshot list \<Rightarrow> receipt_verification" where
  "aggregate_receipts sns =
     (let r = fold add_snapshot_receipts sns receipt_result_0
      in r\<lparr>rv_AvgGasUsed := (if 0 < rv_SampleSize r then rv_TotalGasVerified r div of_nat (rv_SampleSize r) else 0),
           rv_MinGasUsed := reset_min (rv_MinGasUsed r)\<rparr>)"

definition AggregateSnapshots :: "snapshot list \<Rightarrow> u64 \<Rightarrow> u64 \<Rightarrow> string \<Rightarrow> verification_result" where
  "AggregateSnapshots sns onChain confirmed dir =
     (let delta = count_delta onChain confirmed;
          tip = (if ordering_enabled dir then Some (aggregate_tips sns) else None);
          r = aggregate_receipts sns
      in \<lparr>vr_MetricsMatch = (delta = 0), vr_TxCountDelta = delta, vr_TipOrdering = tip, vr_TxReceipts = Some r,
          vr_AllChecksPass = (delta = 0 \<and> (case tip of None \<Rightarrow> True | Some t \<Rightarrow> to_Verified t) \<and> rv_RevertCount r = 0),
          vr_Warnings = count_warnings delta @
            (if 0 < rv_RevertCount r then [SnapshotsReverted (rv_RevertCount r) (rv_SampleSize r) (length sns)] else []),
          vr_IncrementalMode = True, vr_Snapshots = take_last 100 sns, vr_SnapshotCount = length sns\<rparr>)"

section \<open>The periodic runs\<close>

text \<open>\<open>internal/loadgen/verification.go\<close>: the recent blocks and hashes are cleared by every run.\<close>

record incremental =
  ic_recentBlocks :: "u64 list"
  ic_recentHashes :: "string list"
  ic_snapshots :: "snapshot list"

definition startIncrementalVerification :: "incremental \<Rightarrow> incremental" where
  "startIncrementalVerification s = s\<lparr>ic_snapshots := []\<rparr>"

definition runIncrementalVerification ::
  "bool \<Rightarrow> (u64 list \<Rightarrow> rpc_err + block_full option list) \<Rightarrow> (string list \<Rightarrow> rpc_err + tx_receipt option list) \<Rightarrow>
     string \<Rightarrow> incremental \<Rightarrow> incremental option" where
  "runIncrementalVerification incl bbatch rbatch dir s0 =
     (let blocks = ic_recentBlocks s0; hashes = ic_recentHashes s0;
          s = s0\<lparr>ic_recentBlocks := [], ic_recentHashes := []\<rparr>
      in if blocks = [] \<and> hashes = [] then Some s
         else map_option (\<lambda>sn. s\<lparr>ic_snapshots := ic_snapshots s @ [sn]\<rparr>)
                (VerifyIncremental incl bbatch rbatch blocks hashes dir 10 10))"

section \<open>Tip ordering is decided exactly\<close>

text \<open>The specification: senders in the order of their first transaction, each with its largest tip.\<close>

definition first_seen :: "'a list \<Rightarrow> 'a list" where
  "first_seen xs = rev (remdups (rev xs))"

definition max_tip :: "transaction list \<Rightarrow> string \<Rightarrow> u64" where
  "max_tip txs s = Max (insert 0 (effective_tip ` {t \<in> set txs. tx_From t = s}))"

definition block_in_order :: "bool \<Rightarrow> string \<Rightarrow> block_full \<Rightarrow> bool" where
  "block_in_order incl dir b \<longleftrightarrow>
     sorted_wrt (\<lambda>x y. if dir = ''tip_desc'' then y \<le> x else x \<le> y)
       (map (max_tip (user_txs incl b)) (first_seen (map tx_From (user_txs incl b))))"

lemma first_seen_snoc: "first_seen (xs @ [x]) = (if x \<in> set xs then first_seen xs else first_seen xs @ [x])"
  by (simp add: first_seen_def)

lemma set_first_seen [simp]: "set (first_seen xs) = set xs"
  by (simp add: first_seen_def)

lemma max_tip_snoc:
  "max_tip (txs @ [t]) s = (if tx_From t = s then max (effective_tip t) (max_tip txs s) else max_tip txs s)"
proof -
  have "{u \<in> set (txs @ [t]). tx_From u = s} =
      (if tx_From t = s then insert t {u \<in> set txs. tx_From u = s} else {u \<in> set txs. tx_From u = s})"
    by auto
  then show ?thesis
    by (simp add: max_tip_def insert_commute [of 0] del: insert_commute)
qed

lemma tip_of_put [simp]: "tip_of (map_put k v m) s = (if s = k then v else tip_of m s)"
  by (simp add: tip_of_def)

lemma add_sender_tip_parts:
  "snd (add_sender_tip t r) = (if tx_From t \<in> set (snd r) then snd r else snd r @ [tx_From t])"
  "tip_of (fst (add_sender_tip t r)) s =
     (if tx_From t = s then max (effective_tip t) (tip_of (fst r) s) else tip_of (fst r) s)"
  by (auto simp: add_sender_tip_def split_beta max_def)

lemma extract_spec:
  "snd (fold add_sender_tip txs ([], [])) = first_seen (map tx_From txs)"
  "tip_of (fst (fold add_sender_tip txs ([], []))) s = max_tip txs s"
proof (induction txs rule: rev_induct)
  case (snoc t txs)
  show "snd (fold add_sender_tip (txs @ [t]) ([], [])) = first_seen (map tx_From (txs @ [t]))"
    using snoc(1) by (simp add: add_sender_tip_parts(1) first_seen_snoc)
  show "tip_of (fst (fold add_sender_tip (txs @ [t]) ([], []))) s = max_tip (txs @ [t]) s"
    using snoc(2) by (simp add: add_sender_tip_parts(2) max_tip_snoc)
qed (simp_all add: first_seen_def max_tip_def tip_of_def)

lemma sender_tips_spec:
  "sender_tips incl b = map (max_tip (user_txs incl b)) (first_seen (map tx_From (user_txs incl b)))"
proof -
  let ?r = "fold add_sender_tip (user_txs incl b) ([], [])"
  have "tip_of (fst ?r) = max_tip (user_txs incl b)" using extract_spec by blast
  moreover have "snd ?r = first_seen (map tx_From (user_txs incl b))" using extract_spec by blast
  ultimately show ?thesis by (simp add: sender_tips_def extractSenderTips_def split_beta)
qed

lemma check_sorted:
  assumes "ordering_enabled dir"
  shows "checkSenderTipOrdering tips dir \<longleftrightarrow> sorted_wrt (\<lambda>x y. if dir = ''tip_desc'' then y \<le> x else x \<le> y) tips"
proof -
  let ?P = "\<lambda>x y :: u64. if dir = ''tip_desc'' then y \<le> x else x \<le> y"
  have o: "\<not> out_of_order dir x y \<longleftrightarrow> ?P x y" for x y
    using assms by (auto simp: out_of_order_def ordering_enabled_def not_less)
  have "transp ?P" by (auto simp: transp_def)
  then have "sorted_wrt ?P tips \<longleftrightarrow> (\<forall>i. Suc i < length tips \<longrightarrow> ?P (tips ! i) (tips ! Suc i))"
    by (rule sorted_wrt_iff_nth_Suc_transp)
  also have "\<dots> \<longleftrightarrow> (\<forall>i \<in> {1..<length tips}. \<not> out_of_order dir (tips ! (i - 1)) (tips ! i))"
    unfolding o by (auto simp: Ball_def) (metis Suc_le_D diff_Suc_1 le_simps(3) not_less_eq_eq One_nat_def)+
  also have "\<dots> \<longleftrightarrow> checkSenderTipOrdering tips dir"
    by (auto simp: checkSenderTipOrdering_def list_all_iff)
  finally show ?thesis by blast
qed

lemma find_violations_Nil:
  "findSenderOrderingViolations n tips dir = [] \<longleftrightarrow> checkSenderTipOrdering tips dir"
  by (auto simp: findSenderOrderingViolations_def checkSenderTipOrdering_def list_all_iff filter_empty_conv)

section \<open>The sampling loop ends\<close>

lemma sample_count_step:
  assumes "n \<le> l" "0 < (k::nat)"
  shows "(l - n) div k + 1 = Suc (if n + k \<le> l then (l - (n + k)) div k + 1 else 0)"
proof (cases "n + k \<le> l")
  case True
  then have "l - n = (l - (n + k)) + k" by simp
  then have "(l - n) div k = (l - (n + k)) div k + 1" using assms(2) by (metis div_add_self2 neq0_conv)
  with True show ?thesis by simp
next
  case False
  then have "(l - n) div k = 0" using assms by (intro div_less) simp
  with False show ?thesis by simp
qed

lemma sample_blocks_from:
  assumes "0 < unat k" "unat lastBlock + unat k < 2 ^ 64"
  shows "sample_blocks k lastBlock n = Some (map (\<lambda>j. n + of_nat j * k)
     [0..<(if n \<le> lastBlock then (unat lastBlock - unat n) div unat k + 1 else 0)])"
proof (induction "unat lastBlock + unat k - unat n" arbitrary: n rule: less_induct)
  case less
  show ?case
  proof (cases "n \<le> lastBlock")
    case False
    then show ?thesis by (subst sample_blocks.simps) simp
  next
    case True
    then have le: "unat n \<le> unat lastBlock" by (simp add: word_le_nat_alt)
    then have nk: "unat (n + k) = unat n + unat k" using assms(2) by (intro unat_add_lem [THEN iffD1]) simp
    have "unat lastBlock + unat k - unat (n + k) < unat lastBlock + unat k - unat n"
      unfolding nk using assms(1) le by linarith
    from less [OF this] have ih: "sample_blocks k lastBlock (n + k) = Some (map (\<lambda>j. n + k + of_nat j * k)
      [0..<(if unat n + unat k \<le> unat lastBlock then (unat lastBlock - (unat n + unat k)) div unat k + 1 else 0)])"
      by (simp only: word_le_nat_alt nk)
    have "map (\<lambda>j. n + of_nat j * k) [0..<Suc c] = n # map (\<lambda>j. n + k + of_nat j * k) [0..<c]" for c
      by (induction c) (simp_all add: algebra_simps)
    then show ?thesis using True
      by (subst sample_blocks.simps) (simp only: ih sample_count_step [OF le assms(1)] if_True Option.bind.bind_lunit)
  qed
qed

lemma sampling_loop_ends_aux:
  assumes "0 < unat k" "unat lastBlock + unat k < 2 ^ 64"
  shows "\<exists>ns. sample_blocks k lastBlock firstBlock = Some ns"
  using sample_blocks_from [OF assms] by blast

text \<open>
  The loop that selects the blocks to sample ends and selects every \<open>k\<close>-th block from the first
  up to the last, in order, unless the last block number is so close to the end of \<open>uint64\<close> that
  the addition wraps.
\<close>
theorem sampling_loop_ends:
  assumes "0 < unat k" "unat lastBlock + unat k < 2 ^ 64" "firstBlock \<le> lastBlock"
  shows "\<exists>ns. sample_blocks k lastBlock firstBlock = Some ns \<and> length ns = (unat lastBlock - unat firstBlock) div unat k + 1 \<and>
    (\<forall>j < length ns. unat (ns ! j) = unat firstBlock + j * unat k) \<and> (\<forall>n \<in> set ns. firstBlock \<le> n \<and> n \<le> lastBlock)"
proof -
  let ?c = "(unat lastBlock - unat firstBlock) div unat k + 1"
  let ?ns = "map (\<lambda>j. firstBlock + of_nat j * k) [0..<?c]"
  have le: "unat firstBlock \<le> unat lastBlock" using assms(3) by (simp add: word_le_nat_alt)
  have j: "unat firstBlock + j * unat k \<le> unat lastBlock" if "j < ?c" for j
  proof -
    have "j * unat k \<le> (unat lastBlock - unat firstBlock) div unat k * unat k" using that by (intro mult_right_mono) simp_all
    also have "\<dots> \<le> unat lastBlock - unat firstBlock" by (rule div_times_less_eq_dividend)
    finally show ?thesis using le by linarith
  qed
  have u: "unat (firstBlock + of_nat j * k) = unat firstBlock + j * unat k" if "j < ?c" for j
  proof -
    have "unat firstBlock + unat k * j < 2 ^ 64" using j [OF that] u64_unat_less [of lastBlock] by (simp add: mult.commute)
    moreover from this have "unat (k * of_nat j) = unat k * j" by (intro u64_mult_nat) simp
    ultimately show ?thesis by (simp add: unat_word_ariths mult.commute)
  qed
  have "sample_blocks k lastBlock firstBlock = Some ?ns" using sample_blocks_from [OF assms(1,2)] assms(3) by simp
  moreover have "\<forall>j < length ?ns. unat (?ns ! j) = unat firstBlock + j * unat k" using u by (simp del: upt_Suc)
  moreover have "\<forall>n \<in> set ?ns. firstBlock \<le> n \<and> n \<le> lastBlock"
    unfolding word_le_nat_alt using u j by simp
  ultimately show ?thesis by (intro exI [of _ ?ns]) simp
qed

theorem sampling_loop_ends_witness:
  "\<exists>ns. sample_blocks 10 125 100 = Some ns \<and> length ns = 3"
proof -
  have "0 < unat (10::u64)" "unat (125::u64) + unat (10::u64) < 2 ^ 64" "(100::u64) \<le> 125" by simp_all
  from sampling_loop_ends [OF this] show ?thesis by auto
qed

section \<open>The verdict on tip ordering\<close>

fun full_blocks :: "(nat \<times> u64 \<times> block_full option) list \<Rightarrow> block_full list" where
  "full_blocks [] = []"
| "full_blocks ((i, n, None) # rs) = full_blocks rs"
| "full_blocks ((i, n, Some b) # rs) = (if bf_TxCount b = 0 then full_blocks rs else b # full_blocks rs)"

lemma check_in_order:
  "ordering_enabled dir \<Longrightarrow> checkSenderTipOrdering (sender_tips incl b) dir \<longleftrightarrow> block_in_order incl dir b"
  by (simp add: check_sorted sender_tips_spec block_in_order_def)

lemma process_block_effect:
  assumes "ordering_enabled dir" "bf_TxCount b \<noteq> 0"
  shows "to_BlocksSampled (processBlockForTipOrdering incl dir (Some b) n res) = to_BlocksSampled res + 1"
    "to_CorrectlyOrdered (processBlockForTipOrdering incl dir (Some b) n res) =
       to_CorrectlyOrdered res + (if block_in_order incl dir b then 1 else 0)"
    "to_OrderingViolations (processBlockForTipOrdering incl dir (Some b) n res) = [] \<longleftrightarrow>
       to_OrderingViolations res = [] \<and> block_in_order incl dir b"
proof -
  define tips where "tips = sender_tips incl b"
  have o: "checkSenderTipOrdering tips dir \<longleftrightarrow> block_in_order incl dir b"
    using check_in_order [OF assms(1)] by (simp add: tips_def)
  have "length tips \<le> 1 \<Longrightarrow> checkSenderTipOrdering tips dir" by (simp add: checkSenderTipOrdering_def)
  then show "to_BlocksSampled (processBlockForTipOrdering incl dir (Some b) n res) = to_BlocksSampled res + 1"
    "to_CorrectlyOrdered (processBlockForTipOrdering incl dir (Some b) n res) =
       to_CorrectlyOrdered res + (if block_in_order incl dir b then 1 else 0)"
    "to_OrderingViolations (processBlockForTipOrdering incl dir (Some b) n res) = [] \<longleftrightarrow>
       to_OrderingViolations res = [] \<and> block_in_order incl dir b"
    using assms(2) unfolding o [symmetric]
    by (auto simp: processBlockForTipOrdering_def Let_def find_violations_Nil simp flip: tips_def)
qed

lemma process_blocks_effect:
  assumes "ordering_enabled dir"
  shows "let res' = fold (\<lambda>(i, n, b). processBlockForTipOrdering incl dir b n) rs res; bs = full_blocks rs in
    to_BlocksSampled res' = to_BlocksSampled res + length bs \<and>
    to_CorrectlyOrdered res' = to_CorrectlyOrdered res + length (filter (block_in_order incl dir) bs) \<and>
    (to_OrderingViolations res' = [] \<longleftrightarrow> to_OrderingViolations res = [] \<and> (\<forall>b \<in> set bs. block_in_order incl dir b))"
proof (induction rs arbitrary: res rule: full_blocks.induct)
  case (3 i n b rs)
  show ?case
  proof (cases "bf_TxCount b = 0")
    case True
    then show ?thesis using 3(1) [OF True, of res] by (simp add: processBlockForTipOrdering_def)
  next
    case False
    show ?thesis using 3(2) [OF False] process_block_effect [OF assms False] False by (auto simp: Let_def)
  qed
qed (simp_all add: processBlockForTipOrdering_def)

text \<open>
  C16: The post-test check of tip ordering reads its blocks through the RPC client without panicking
  and is exact: it passes exactly when in every sampled non-empty block the senders, in the order
  of their first transaction, have monotone maximal tips, and exactly when no violation is recorded.
\<close>
theorem tip_verification_exact:
  assumes "ordering_enabled dir" "firstBlock \<noteq> 0" "firstBlock \<le> lastBlock" "unat lastBlock + 10 < 2 ^ 64"
  shows "\<exists>ns rs res. sample_blocks 10 lastBlock firstBlock = Some ns \<and>
    fetch_all (GetBlocksByNumberFullBatch hx c srv) (GetBlockByNumberFull hx c srv) 50 ns = Some rs \<and>
    placed 0 ns rs \<and> distinct (map fst rs) \<and>
    verifyTipOrdering incl (GetBlocksByNumberFullBatch hx c srv, GetBlockByNumberFull hx c srv)
      firstBlock lastBlock dir 10 = Some res \<and>
    to_BlocksSampled res = length (full_blocks rs) \<and>
    (to_Verified res \<longleftrightarrow> (\<forall>b \<in> set (full_blocks rs). block_in_order incl dir b)) \<and>
    (to_ViolationCount res = 0 \<longleftrightarrow> to_Verified res)"
proof -
  have "0 < unat (10::u64)" "unat lastBlock + unat (10::u64) < 2 ^ 64" using assms(4) by simp_all
  from sampling_loop_ends_aux [OF this] obtain ns where ns: "sample_blocks 10 lastBlock firstBlock = Some ns" by blast
  obtain rs where rs: "fetch_all (GetBlocksByNumberFullBatch hx c srv) (GetBlockByNumberFull hx c srv) 50 ns = Some rs"
    "distinct (map fst rs)" "placed 0 ns rs"
    using blocks.fetch_all_ok [of 50 hx c srv "GetBlockByNumberFull hx c srv" ns] by auto
  let ?start = "tip_result_0\<lparr>to_TotalBlocks := sint (lastBlock - firstBlock + 1)\<rparr>"
  let ?res = "fold (\<lambda>(i, n, b). processBlockForTipOrdering incl dir b n) rs ?start" and ?bs = "full_blocks rs"
  have z: "to_BlocksSampled ?start = 0" "to_CorrectlyOrdered ?start = 0" "to_OrderingViolations ?start = []"
    by (simp_all add: tip_result_0_def)
  have e: "to_BlocksSampled ?res = length ?bs"
    "to_CorrectlyOrdered ?res = length (filter (block_in_order incl dir) ?bs)"
    "to_OrderingViolations ?res = [] \<longleftrightarrow> (\<forall>b \<in> set ?bs. block_in_order incl dir b)"
    using process_blocks_effect [OF assms(1), of incl rs ?start] by (simp_all add: z Let_def)
  have v: "(length ?bs = 0 \<or> length (filter (block_in_order incl dir) ?bs) = length ?bs) \<longleftrightarrow>
      (\<forall>b \<in> set ?bs. block_in_order incl dir b)"
  proof
    assume "length ?bs = 0 \<or> length (filter (block_in_order incl dir) ?bs) = length ?bs"
    then show "\<forall>b \<in> set ?bs. block_in_order incl dir b"
      using length_filter_less [of _ ?bs "block_in_order incl dir"] by fastforce
  next
    assume "\<forall>b \<in> set ?bs. block_in_order incl dir b"
    then show "length ?bs = 0 \<or> length (filter (block_in_order incl dir) ?bs) = length ?bs"
      by (simp add: filter_True)
  qed
  have "\<not> (firstBlock = 0 \<or> lastBlock = 0 \<or> lastBlock < firstBlock)"
    using assms(2,3) by (auto simp: word_le_nat_alt unat_eq_0 not_less)
  then have ok: "verifyTipOrdering incl (GetBlocksByNumberFullBatch hx c srv, GetBlockByNumberFull hx c srv)
      firstBlock lastBlock dir 10 =
    Some (?res\<lparr>to_Verified := (to_BlocksSampled ?res = 0 \<or> to_CorrectlyOrdered ?res = to_BlocksSampled ?res),
               to_ViolationCount := length (to_OrderingViolations ?res)\<rparr>)"
    by (simp add: verifyTipOrdering_def ns rs(1) Let_def)
  show ?thesis
    by (intro exI conjI, rule ns, rule rs(1), rule rs(3), rule rs(2), rule ok) (use v in \<open>auto simp: e\<close>)
qed

section \<open>Snapshots and their aggregation\<close>

text \<open>What a snapshot run looks at: the blocks with more than one transaction and the receipts found.\<close>

type_synonym snapshot_run =
  "u64 list \<times> string list \<times> (u64 list \<Rightarrow> rpc_err + block_full option list) \<times> (string list \<Rightarrow> rpc_err + tx_receipt option list)"

definition answers :: "('k list \<Rightarrow> 'e + 'v option list) \<Rightarrow> 'k list option \<Rightarrow> 'v list" where
  "answers batch ks =
     (case ks of None \<Rightarrow> [] | Some xs \<Rightarrow>
        if xs = [] then [] else (case batch xs of Inl _ \<Rightarrow> [] | Inr vs \<Rightarrow> List.map_filter (\<lambda>(k, v). v) (zip xs vs)))"

definition seen_blocks :: "string \<Rightarrow> int \<Rightarrow> snapshot_run \<Rightarrow> block_full list" where
  "seen_blocks dir k run =
     (case run of (blocks, hashes, bb, rb) \<Rightarrow>
        if blocks = [] then [] else filter (\<lambda>b. 1 < bf_TxCount b) (answers bb (sample_evenly k blocks)))"

definition seen_receipts :: "int \<Rightarrow> snapshot_run \<Rightarrow> tx_receipt list" where
  "seen_receipts k run =
     (case run of (blocks, hashes, bb, rb) \<Rightarrow>
        if blocks = [] \<or> hashes = [] then [] else answers rb (sample_evenly (min k (int (length hashes))) hashes))"

definition gas_min :: "tx_receipt list \<Rightarrow> u64" where "gas_min rs = Min (insert (- 1) (tr_GasUsed ` set rs))"
definition gas_max :: "tx_receipt list \<Rightarrow> u64" where "gas_max rs = Max (insert 0 (tr_GasUsed ` set rs))"
definition gas_sum :: "tx_receipt list \<Rightarrow> u64" where "gas_sum rs = sum_list (map tr_GasUsed rs)"

definition summarises :: "bool \<Rightarrow> string \<Rightarrow> block_full list \<Rightarrow> tx_receipt list \<Rightarrow> snapshot \<Rightarrow> bool" where
  "summarises incl dir bs rs sn \<longleftrightarrow>
     sn_BlocksSampled sn = length bs \<and> sn_BlocksOrdered sn = length (filter (block_in_order incl dir) bs) \<and>
     sn_ReceiptsSampled sn = length rs \<and>
     sn_ReceiptsSuccess sn = length (filter (\<lambda>r. tr_Status r = 1) rs) \<and>
     sn_ReceiptsReverted sn = length (filter (\<lambda>r. tr_Status r \<noteq> 1) rs) \<and>
     sn_TotalGasUsed sn = gas_sum rs \<and>
     (rs \<noteq> [] \<longrightarrow> sn_MinGasUsed sn = reset_min (gas_min rs) \<and> sn_MaxGasUsed sn = gas_max rs)"

lemma gas_Cons [simp]: "gas_min (r # rs) = min (tr_GasUsed r) (gas_min rs)" "gas_max (r # rs) = max (tr_GasUsed r) (gas_max rs)"
  "gas_sum (r # rs) = tr_GasUsed r + gas_sum rs"
  by (simp_all add: gas_min_def gas_max_def gas_sum_def insert_commute [of _ "tr_GasUsed r"] del: insert_commute)

lemma gas_Nil [simp]: "gas_min [] = - 1" "gas_max [] = 0" "gas_sum [] = 0"
  by (simp_all add: gas_min_def gas_max_def gas_sum_def)

lemma u64_min_max_bounds [simp]: "min (x::u64) (- 1) = x" "min (- 1) (x::u64) = x"
  by (rule min_absorb1, rule word_n1_ge) (rule min_absorb2, rule word_n1_ge)

lemma gas_append: "gas_min (xs @ ys) = min (gas_min xs) (gas_min ys)" "gas_max (xs @ ys) = max (gas_max xs) (gas_max ys)"
  "gas_sum (xs @ ys) = gas_sum xs + gas_sum ys"
  by (induction xs) (simp_all add: min.assoc max.assoc add.assoc)

lemma snapshot_blocks_effect:
  assumes "ordering_enabled dir"
  shows "let s' = fold (snapshot_block incl dir) bs s; seen = filter (\<lambda>b. 1 < bf_TxCount b) (List.map_filter id bs) in
    sn_BlocksSampled s' = sn_BlocksSampled s + length seen \<and>
    sn_BlocksOrdered s' = sn_BlocksOrdered s + length (filter (block_in_order incl dir) seen) \<and>
    sn_ReceiptsSampled s' = sn_ReceiptsSampled s \<and> sn_ReceiptsSuccess s' = sn_ReceiptsSuccess s \<and>
    sn_ReceiptsReverted s' = sn_ReceiptsReverted s \<and> sn_TotalGasUsed s' = sn_TotalGasUsed s \<and>
    sn_MaxGasUsed s' = sn_MaxGasUsed s"
proof (induction bs arbitrary: s)
  case (Cons b bs)
  have "let s' = snapshot_block incl dir b s; seen = filter (\<lambda>b. 1 < bf_TxCount b) (List.map_filter id [b]) in
    sn_BlocksSampled s' = sn_BlocksSampled s + length seen \<and>
    sn_BlocksOrdered s' = sn_BlocksOrdered s + length (filter (block_in_order incl dir) seen) \<and>
    sn_ReceiptsSampled s' = sn_ReceiptsSampled s \<and> sn_ReceiptsSuccess s' = sn_ReceiptsSuccess s \<and>
    sn_ReceiptsReverted s' = sn_ReceiptsReverted s \<and> sn_TotalGasUsed s' = sn_TotalGasUsed s \<and>
    sn_MaxGasUsed s' = sn_MaxGasUsed s"
  proof (cases b)
    case (Some x)
    define tips where "tips = sender_tips incl x"
    have o: "checkSenderTipOrdering tips dir \<longleftrightarrow> block_in_order incl dir x"
      using check_in_order [OF assms] by (simp add: tips_def)
    have "length tips \<le> 1 \<Longrightarrow> checkSenderTipOrdering tips dir" by (simp add: checkSenderTipOrdering_def)
    then show ?thesis using Some unfolding Let_def o [symmetric]
      by (simp add: snapshot_block_def List.map_filter_def Let_def o [symmetric] flip: tips_def)
  qed (simp add: snapshot_block_def List.map_filter_def)
  then show ?case using Cons.IH [of "snapshot_block incl dir b s"]
    by (auto simp: Let_def List.map_filter_def)
qed (simp add: List.map_filter_def)

lemma if_less_min_max: "(if (g::u64) < m then g else m) = min m g" "(if (m::u64) < g then g else m) = max m g"
  by (auto simp: min_def max_def)

lemma snapshot_receipt_some:
  "sn_ReceiptsSampled (snapshot_receipt (h, Some r) s) = sn_ReceiptsSampled s + 1"
  "sn_ReceiptsSuccess (snapshot_receipt (h, Some r) s) = sn_ReceiptsSuccess s + (if tr_Status r = 1 then 1 else 0)"
  "sn_ReceiptsReverted (snapshot_receipt (h, Some r) s) = sn_ReceiptsReverted s + (if tr_Status r = 1 then 0 else 1)"
  "sn_TotalGasUsed (snapshot_receipt (h, Some r) s) = sn_TotalGasUsed s + tr_GasUsed r"
  "sn_MinGasUsed (snapshot_receipt (h, Some r) s) = min (sn_MinGasUsed s) (tr_GasUsed r)"
  "sn_MaxGasUsed (snapshot_receipt (h, Some r) s) = max (sn_MaxGasUsed s) (tr_GasUsed r)"
  "sn_BlocksSampled (snapshot_receipt (h, Some r) s) = sn_BlocksSampled s"
  "sn_BlocksOrdered (snapshot_receipt (h, Some r) s) = sn_BlocksOrdered s"
  by (simp_all add: snapshot_receipt_def Let_def if_less_min_max)

lemma snapshot_receipts_effect:
  "let s' = fold snapshot_receipt hrs s; rs = List.map_filter (\<lambda>(h, r). r) hrs in
    sn_ReceiptsSampled s' = sn_ReceiptsSampled s + length rs \<and>
    sn_ReceiptsSuccess s' = sn_ReceiptsSuccess s + length (filter (\<lambda>r. tr_Status r = 1) rs) \<and>
    sn_ReceiptsReverted s' = sn_ReceiptsReverted s + length (filter (\<lambda>r. tr_Status r \<noteq> 1) rs) \<and>
    sn_TotalGasUsed s' = sn_TotalGasUsed s + gas_sum rs \<and>
    sn_MinGasUsed s' = min (sn_MinGasUsed s) (gas_min rs) \<and> sn_MaxGasUsed s' = max (sn_MaxGasUsed s) (gas_max rs) \<and>
    sn_BlocksSampled s' = sn_BlocksSampled s \<and> sn_BlocksOrdered s' = sn_BlocksOrdered s"
proof (induction hrs arbitrary: s)
  case (Cons hr hrs)
  show ?case
  proof (cases "snd hr")
    case None
    then have "snapshot_receipt hr s = s" by (cases hr) (simp add: snapshot_receipt_def)
    then show ?thesis using Cons.IH [of s] None by (simp add: List.map_filter_def split_beta)
  next
    case (Some r)
    then obtain h where hr: "hr = (h, Some r)" by (cases hr) auto
    show ?thesis using Cons.IH [of "snapshot_receipt hr s"]
      by (simp add: hr snapshot_receipt_some List.map_filter_def Let_def min.assoc max.assoc add.assoc)
  qed
qed (simp add: List.map_filter_def)

lemma snd_zip_answers: "length vs = length xs \<Longrightarrow> List.map_filter (\<lambda>(k, v). v) (zip xs vs) = List.map_filter id vs"
  by (induction xs vs rule: list_induct2') (auto simp: List.map_filter_def)

text \<open>A snapshot summarises what its run saw; the client answers once per key.\<close>

lemma VerifyIncremental_summary:
  assumes "VerifyIncremental incl (GetBlocksByNumberFullBatch hx c srv) (GetTransactionReceiptsBatch hx c srv)
      blocks hashes dir k m = Some sn" "ordering_enabled dir"
  shows "summarises incl dir
    (seen_blocks dir k (blocks, hashes, GetBlocksByNumberFullBatch hx c srv, GetTransactionReceiptsBatch hx c srv))
    (seen_receipts m (blocks, hashes, GetBlocksByNumberFullBatch hx c srv, GetTransactionReceiptsBatch hx c srv)) sn"
proof (cases "blocks = []")
  case True
  then show ?thesis using assms(1)
    by (auto simp: VerifyIncremental_def summarises_def seen_blocks_def seen_receipts_def snapshot_0_def)
next
  case False
  let ?bb = "GetBlocksByNumberFullBatch hx c srv" and ?rb = "GetTransactionReceiptsBatch hx c srv"
  let ?start = "snapshot_0\<lparr>sn_FirstBlock := hd blocks, sn_LastBlock := last blocks\<rparr>"
  let ?bs = "seen_blocks dir k (blocks, hashes, ?bb, ?rb)" and ?rs = "seen_receipts m (blocks, hashes, ?bb, ?rb)"
  obtain s1 where s1: "verifyBlocksIncremental incl ?bb blocks dir k ?start = Some s1"
    "(if 0 < length hashes then sampleReceiptsIncremental ?rb hashes m s1 else Some s1) = Some sn"
    using assms False by (auto simp: VerifyIncremental_def Let_def bind_eq_Some_conv)
  obtain ns where ns: "sample_evenly k blocks = Some ns"
    using s1(1) by (auto simp: verifyBlocksIncremental_def bind_eq_Some_conv)
  have b: "sn_BlocksSampled s1 = length ?bs \<and> sn_BlocksOrdered s1 = length (filter (block_in_order incl dir) ?bs) \<and>
      sn_ReceiptsSampled s1 = 0 \<and> sn_ReceiptsSuccess s1 = 0 \<and> sn_ReceiptsReverted s1 = 0 \<and>
      sn_TotalGasUsed s1 = 0 \<and> sn_MaxGasUsed s1 = 0"
  proof (cases "ns = [] \<or> (\<exists>e. ?bb ns = Inl e)")
    case True
    then have "s1 = ?start" using s1(1) ns by (auto simp: verifyBlocksIncremental_def split: if_splits)
    then show ?thesis using True ns False by (auto simp: seen_blocks_def answers_def snapshot_0_def)
  next
    case f: False
    then obtain vs where vs: "?bb ns = Inr vs" by (cases "?bb ns") auto
    then have "s1 = fold (snapshot_block incl dir) vs ?start" using s1(1) ns f by (simp add: verifyBlocksIncremental_def)
    moreover have "?bs = filter (\<lambda>b. 1 < bf_TxCount b) (List.map_filter id vs)"
      using f False ns vs blocks.one_answer_each [OF vs] by (simp add: seen_blocks_def answers_def snd_zip_answers)
    ultimately show ?thesis using snapshot_blocks_effect [OF assms(2), of incl vs ?start]
      by (simp add: snapshot_0_def Let_def)
  qed
  show ?thesis
  proof (cases "hashes = []")
    case True
    then show ?thesis using s1(2) b by (simp add: summarises_def seen_receipts_def)
  next
    case h: False
    then obtain ks where ks: "sample_evenly (min m (int (length hashes))) hashes = Some ks"
      using s1(2) by (auto simp: sampleReceiptsIncremental_def bind_eq_Some_conv)
    show ?thesis
    proof (cases "ks = [] \<or> (\<exists>e. ?rb ks = Inl e)")
      case True
      then have "sn = s1" using s1(2) ks h by (auto simp: sampleReceiptsIncremental_def split: if_splits)
      moreover have "?rs = []" using True h ks False by (auto simp: seen_receipts_def answers_def)
      ultimately show ?thesis using b by (simp add: summarises_def)
    next
      case f: False
      then obtain vs where vs: "?rb ks = Inr vs" by (cases "?rb ks") auto
      let ?s = "fold snapshot_receipt (zip ks vs) (s1\<lparr>sn_MinGasUsed := - 1\<rparr>)"
      have "sn = ?s\<lparr>sn_MinGasUsed := reset_min (sn_MinGasUsed ?s)\<rparr>"
        using s1(2) ks h f vs by (simp add: sampleReceiptsIncremental_def Let_def)
      moreover have "?rs = List.map_filter (\<lambda>(h, r). r) (zip ks vs)"
        using f False h ks vs by (simp add: seen_receipts_def answers_def)
      ultimately show ?thesis using b snapshot_receipts_effect [of "zip ks vs" "s1\<lparr>sn_MinGasUsed := - 1\<rparr>"]
        by (simp add: summarises_def Let_def)
    qed
  qed
qed

lemma aggregate_receipts_effect:
  assumes "list_all2 (\<lambda>p sn. summarises incl dir (fst p) (snd p) sn) ps sns"
    "\<forall>p \<in> set ps. \<forall>r \<in> set (snd p). tr_GasUsed r \<noteq> - 1"
  shows "let r' = fold add_snapshot_receipts sns r; rs = concat (map snd ps) in
    rv_SampleSize r' = rv_SampleSize r + length rs \<and>
    rv_SuccessCount r' = rv_SuccessCount r + length (filter (\<lambda>r. tr_Status r = 1) rs) \<and>
    rv_RevertCount r' = rv_RevertCount r + length (filter (\<lambda>r. tr_Status r \<noteq> 1) rs) \<and>
    rv_TotalGasVerified r' = rv_TotalGasVerified r + gas_sum rs \<and>
    rv_MinGasUsed r' = min (rv_MinGasUsed r) (gas_min rs) \<and> rv_MaxGasUsed r' = max (rv_MaxGasUsed r) (gas_max rs)"
  using assms
proof (induction ps sns arbitrary: r rule: list_all2_induct)
  case (Cons p ps sn sns)
  let ?r = "add_snapshot_receipts sn r" and ?rs = "snd p"
  have s: "summarises incl dir (fst p) ?rs sn" by (rule Cons.hyps)
  have "gas_min ?rs \<noteq> - 1" if ne: "?rs \<noteq> []"
  proof -
    have "gas_min ?rs \<in> insert (- 1) (tr_GasUsed ` set ?rs)" unfolding gas_min_def by (rule Min_in) simp_all
    moreover obtain x where "x \<in> set ?rs" using ne by (cases ?rs) auto
    moreover from this have "gas_min ?rs \<le> tr_GasUsed x" by (simp add: gas_min_def)
    ultimately show ?thesis using Cons.prems by (metis list.set_intros(1) word_order.extremum_uniqueI)
  qed
  then have "rv_MinGasUsed ?r = min (rv_MinGasUsed r) (gas_min ?rs) \<and> rv_MaxGasUsed ?r = max (rv_MaxGasUsed r) (gas_max ?rs)"
    using s by (cases "?rs = []") (auto simp: add_snapshot_receipts_def summarises_def Let_def if_less_min_max reset_min_def min.commute)
  moreover have "rv_SampleSize ?r = rv_SampleSize r + length ?rs"
    "rv_SuccessCount ?r = rv_SuccessCount r + length (filter (\<lambda>r. tr_Status r = 1) ?rs)"
    "rv_RevertCount ?r = rv_RevertCount r + length (filter (\<lambda>r. tr_Status r \<noteq> 1) ?rs)"
    "rv_TotalGasVerified ?r = rv_TotalGasVerified r + gas_sum ?rs"
    using s by (auto simp: add_snapshot_receipts_def summarises_def Let_def)
  ultimately show ?case using Cons.IH [of ?r] Cons.prems
    by (simp add: Let_def gas_append min.assoc max.assoc add.assoc)
qed simp

lemma aggregate_tips_effect:
  assumes "list_all2 (\<lambda>p sn. summarises incl dir (fst p) (snd p) sn) ps sns"
  shows "let t' = fold (\<lambda>sn t. t\<lparr>to_BlocksSampled := to_BlocksSampled t + sn_BlocksSampled sn,
                             to_CorrectlyOrdered := to_CorrectlyOrdered t + sn_BlocksOrdered sn,
                             to_ViolationCount := to_ViolationCount t + sn_Violations sn\<rparr>) sns t; bs = concat (map fst ps) in
    to_BlocksSampled t' = to_BlocksSampled t + length bs \<and>
    to_CorrectlyOrdered t' = to_CorrectlyOrdered t + length (filter (block_in_order incl dir) bs)"
  using assms
proof (induction ps sns arbitrary: t rule: list_all2_induct)
  case (Cons p ps sn sns)
  then show ?case by (simp add: summarises_def Let_def)
qed simp

lemma all_in_order_count:
  "(length bs = 0 \<or> length (filter P bs) = length bs) \<longleftrightarrow> (\<forall>b \<in> set bs. P b)"
  by (induction bs) (auto simp: le_imp_less_Suc [OF length_filter_le, THEN less_imp_neq])

lemma count_delta_zero: "count_delta x y = 0 \<longleftrightarrow> x = y"
proof -
  let ?d = "sint x - sint y"
  have "- (2 ^ 63) \<le> sint x" "sint x < 2 ^ 63" "- (2 ^ 63) \<le> sint y" "sint y < 2 ^ 63"
    using sint_ge [of x] sint_lt [of x] sint_ge [of y] sint_lt [of y] by simp_all
  then have "- (2 ^ 64) < ?d" "?d < 2 ^ 64" by simp_all
  moreover have "wrap64 ?d = 0 \<longleftrightarrow> 2 ^ 64 dvd ?d"
    using mod_eq_dvd_iff [of "?d + 2 ^ 63" "2 ^ 64" "2 ^ 63"] by (simp add: wrap64_def)
  ultimately have "wrap64 ?d = 0 \<longleftrightarrow> ?d = 0" using zdvd_not_zless [of "\<bar>?d\<bar>" "2 ^ 64"] by (cases "?d = 0") auto
  then show ?thesis by (auto simp: count_delta_def intro: signed_word_eqI)
qed

text \<open>
  C17: The final verdict of an incrementally verified test is the verdict on everything the
  snapshots saw: it passes exactly when the counts agree, every block seen is in tip order and no
  receipt seen is reverted; the receipt statistics are those of all receipts seen together.
\<close>
theorem incremental_verdict_is_whole:
  assumes "ordering_enabled dir"
    "list_all2 (\<lambda>(blocks, hashes) sn. VerifyIncremental incl (GetBlocksByNumberFullBatch hx c srv)
       (GetTransactionReceiptsBatch hx c srv) blocks hashes dir k m = Some sn) inputs sns"
    "runs = map (\<lambda>(blocks, hashes). (blocks, hashes, GetBlocksByNumberFullBatch hx c srv, GetTransactionReceiptsBatch hx c srv)) inputs"
    "seenB = concat (map (seen_blocks dir k) runs)" "seenR = concat (map (seen_receipts m) runs)"
    "\<forall>r \<in> set seenR. tr_GasUsed r \<noteq> - 1"
  shows "(vr_AllChecksPass (AggregateSnapshots sns onChain confirmed dir) \<longleftrightarrow>
      onChain = confirmed \<and> (\<forall>b \<in> set seenB. block_in_order incl dir b) \<and> (\<forall>r \<in> set seenR. tr_Status r = 1)) \<and>
    rv_SampleSize (aggregate_receipts sns) = length seenR \<and>
      rv_RevertCount (aggregate_receipts sns) = length (filter (\<lambda>r. tr_Status r \<noteq> 1) seenR) \<and>
      rv_TotalGasVerified (aggregate_receipts sns) = gas_sum seenR \<and>
      rv_MinGasUsed (aggregate_receipts sns) = reset_min (gas_min seenR) \<and>
      rv_MaxGasUsed (aggregate_receipts sns) = gas_max seenR"
proof -
  let ?ps = "map (\<lambda>r. (seen_blocks dir k r, seen_receipts m r)) runs"
  have ps: "list_all2 (\<lambda>p sn. summarises incl dir (fst p) (snd p) sn) ?ps sns"
    unfolding assms(3) list_all2_map1
    using assms(2) by (rule list_all2_mono) (auto intro: VerifyIncremental_summary [OF _ assms(1)])
  have cat: "concat (map fst ?ps) = seenB" "concat (map snd ?ps) = seenR"
    by (simp_all add: assms(4,5) comp_def)
  have "\<forall>p \<in> set ?ps. \<forall>r \<in> set (snd p). tr_GasUsed r \<noteq> - 1" using assms(6) by (auto simp: assms(5))
  note r = aggregate_receipts_effect [OF ps this, of receipt_result_0, unfolded cat Let_def]
  note t = aggregate_tips_effect [OF ps, of tip_result_0, unfolded cat Let_def]
  have agg: "rv_SampleSize (aggregate_receipts sns) = length seenR \<and>
      rv_RevertCount (aggregate_receipts sns) = length (filter (\<lambda>r. tr_Status r \<noteq> 1) seenR) \<and>
      rv_TotalGasVerified (aggregate_receipts sns) = gas_sum seenR \<and>
      rv_MinGasUsed (aggregate_receipts sns) = reset_min (gas_min seenR) \<and>
      rv_MaxGasUsed (aggregate_receipts sns) = gas_max seenR"
    using r by (simp add: aggregate_receipts_def Let_def receipt_result_0_def)
  have "to_Verified (aggregate_tips sns) \<longleftrightarrow> (\<forall>b \<in> set seenB. block_in_order incl dir b)"
    using t all_in_order_count [of seenB "block_in_order incl dir"]
    by (simp add: aggregate_tips_def Let_def tip_result_0_def)
  then have "vr_AllChecksPass (AggregateSnapshots sns onChain confirmed dir) \<longleftrightarrow>
      onChain = confirmed \<and> (\<forall>b \<in> set seenB. block_in_order incl dir b) \<and> (\<forall>r \<in> set seenR. tr_Status r = 1)"
    using agg assms(1) by (simp add: AggregateSnapshots_def Let_def count_delta_zero filter_empty_conv)
  then show ?thesis using agg by blast
qed

text \<open>Two senders with falling tips in one block.\<close>

definition ordered_block :: block_full where
  "ordered_block = \<lparr>bf_Number = 1, bf_Hash = ''b1'',
     bf_Transactions = [example_tx\<lparr>tx_MaxPriorityFeePerGas := 5\<rparr>, example_tx\<lparr>tx_From := ''c''\<rparr>],
     bf_BaseFeePerGas = ''0x7'', bf_GasUsed = 21, bf_GasLimit = 30, bf_Timestamp = 9, bf_TxCount = 2, bf_UserTxCount = 2\<rparr>"

lemma ordered_block_ok: "block_wf ordered_block" "block_in_order False ''tip_desc'' ordered_block"
proof -
  show "block_wf ordered_block"
    by (simp add: block_wf_def ordered_block_def example_tx_def is_i64_def IsDeposit_def)
  have "sender_tips False ordered_block = [5, 3]"
    by (simp add: sender_tips_def extractSenderTips_def user_txs_def ordered_block_def example_tx_def add_sender_tip_def
        effective_tip_def tip_of_def)
  then have "checkSenderTipOrdering (sender_tips False ordered_block) ''tip_desc''"
    by (simp add: checkSenderTipOrdering_def out_of_order_def)
  then show "block_in_order False ''tip_desc'' ordered_block" by (simp add: check_in_order ordering_enabled_def)
qed

text \<open>A node that knows block 1 only; a run over blocks 1 and 2 without confirmed hashes.\<close>

definition example_node :: server where
  "example_node = (\<lambda>_. replying (\<lambda>_. Some (answer
     (JArr [response_json 1 JNull, response_json 0 (block_json example_codec ordered_block)]))))"

theorem incremental_verdict_is_whole_witness:
  "\<exists>sn. vr_AllChecksPass (AggregateSnapshots [sn] 7 7 ''tip_desc'') \<and> \<not> vr_AllChecksPass (AggregateSnapshots [sn] 7 8 ''tip_desc'')"
proof -
  let ?bb = "GetBlocksByNumberFullBatch example_codec DefaultClientConfig example_node"
    and ?rb = "GetTransactionReceiptsBatch example_codec DefaultClientConfig example_node"
  have bb: "?bb [1, 2] = Inr [Some ordered_block, None]"
    unfolding example_node_def by (rule example_node_blocks [OF ordered_block_ok(1)])
  have ev: "sample_evenly 10 [1, 2 :: u64] = Some [1, 2]" by (simp add: sample_evenly_def eval_nat_numeral)
  obtain sn where sn: "VerifyIncremental False ?bb ?rb [1, 2] [] ''tip_desc'' 10 10 = Some sn"
    by (simp add: VerifyIncremental_def Let_def verifyBlocksIncremental_def ev bb ordering_enabled_def)
  have seen: "seen_blocks ''tip_desc'' 10 ([1, 2], [], ?bb, ?rb) = [ordered_block]"
    by (simp add: seen_blocks_def answers_def ev bb List.map_filter_def) (simp add: ordered_block_def)
  have none: "seen_receipts 10 ([1, 2], [], ?bb, ?rb) = []" by (simp add: seen_receipts_def)
  have "(vr_AllChecksPass (AggregateSnapshots [sn] x y ''tip_desc'') \<longleftrightarrow>
      x = y \<and> (\<forall>b \<in> set [ordered_block]. block_in_order False ''tip_desc'' b) \<and> (\<forall>r \<in> set []. tr_Status r = 1))" for x y
    using incremental_verdict_is_whole [where dir = "''tip_desc''" and inputs = "[([1, 2], [])]" and sns = "[sn]" and incl = False
        and hx = example_codec and c = DefaultClientConfig and srv = example_node and k = 10 and m = 10
        and onChain = x and confirmed = y, OF _ _ refl refl refl] sn
    by (simp add: seen none ordering_enabled_def)
  then show ?thesis using ordered_block_ok(2) by (intro exI [of _ sn]) simp
qed

theorem tip_verification_exact_witness:
  "\<exists>res. verifyTipOrdering False (GetBlocksByNumberFullBatch example_codec DefaultClientConfig example_node,
      GetBlockByNumberFull example_codec DefaultClientConfig example_node) 1 5 ''tip_desc'' 10 = Some res \<and>
    (to_ViolationCount res = 0 \<longleftrightarrow> to_Verified res)"
proof -
  have "ordering_enabled ''tip_desc''" "(1::u64) \<noteq> 0" "(1::u64) \<le> 5" "unat (5::u64) + 10 < 2 ^ 64"
    by (simp_all add: ordering_enabled_def)
  from tip_verification_exact [OF this, of example_codec DefaultClientConfig example_node False] show ?thesis
    by (elim exE conjE) (intro exI conjI)
qed

text \<open>Confirmed hashes of a period without a recorded block are cleared without being sampled.\<close>

lemma hashes_without_blocks_dropped:
  "runIncrementalVerification incl bb rb dir \<lparr>ic_recentBlocks = [], ic_recentHashes = h # hs, ic_snapshots = sns\<rparr> =
     Some \<lparr>ic_recentBlocks = [], ic_recentHashes = [], ic_snapshots = sns @ [snapshot_0]\<rparr>"
  by (simp add: runIncrementalVerification_def VerifyIncremental_def)

end
