(* ===== verification/Block_Metrics.thy ===== *)
theory Block_Metrics
  imports Types Chain_Reader Atomic
begin

text \<open>
  \<open>internal/loadgen/blockmetrics.go\<close>, the block handlers of \<open>websocket.go\<close> and \<open>chainpoller.go\<close>, and
  the hexadecimal parser of \<open>helpers.go\<close>: how blocks reported by three sources (the builder's
  WebSocket, the execution layer's \<open>newHeads\<close> and the chain poller) become totals, per-period points
  and rolling rates.  Times are nanoseconds, the zero \<open>time.Time\<close> is \<open>None\<close>.  Each definition is one
  section under \<open>blockMetricsMu\<close>.
\<close>

record block_point =
  bp_timestamp :: int
  bp_blockNumber :: u64
  bp_gasUsed :: u64
  bp_gasLimit :: u64
  bp_blockTime :: f64
  bp_txCount :: int
  bp_blockTimeMs :: int
  bp_filterDurationMs :: int
  bp_engineApiDurationMs :: int
  bp_totalBuildDurationMs :: int

record block_state =
  blockMetrics :: "block_point list"
  cumulativeGasUsed :: u64
  cumulativeGasLimit :: u64
  totalBlockCount :: int
  firstBlockNumber :: u64
  lastBlockNumber :: u64
  lastRecordedBlock :: u64
  rpcLastBlockNumber :: u64
  testStartBlockNumber :: u64
  testEndBlockNumber :: u64
  lastBlockTime :: "int option"
  lastBlockInterval :: int
  rollingGasWindow :: "(int \<times> u64) list"
  rollingTxWindow :: "(int \<times> int) list"
  lastMgasPerSec :: f64
  lastTxPerSec :: f64
  peakMgasPerSec :: f64
  peakRate :: int
  recentBlockNumbers :: "u64 list"

text \<open>The reset at the start of a test and in \<open>Reset\<close>; \<open>lastBlockInterval\<close> and \<open>peakRate\<close> are not part of it.\<close>

definition reset_blocks :: "block_state \<Rightarrow> block_state" where
  "reset_blocks s =
     s\<lparr>blockMetrics := [], cumulativeGasUsed := 0, cumulativeGasLimit := 0, rollingGasWindow := [], rollingTxWindow := [],
       peakMgasPerSec := 0, lastMgasPerSec := 0, lastTxPerSec := 0, lastBlockTime := None, lastBlockNumber := 0,
       firstBlockNumber := 0, lastRecordedBlock := 0, totalBlockCount := 0, testStartBlockNumber := 0,
       testEndBlockNumber := 0, rpcLastBlockNumber := 0, recentBlockNumbers := []\<rparr>"

section \<open>The three sources\<close>

definition processBuilderBlockMetrics :: "int \<Rightarrow> bool \<Rightarrow> builder_block_metrics \<Rightarrow> block_state \<Rightarrow> block_state" where
  "processBuilderBlockMetrics now running ev s =
     (if \<not> running then s
      else if 0 < testEndBlockNumber s \<and> testEndBlockNumber s < bm_BlockNumber ev then s
      else
        let s1 = (if firstBlockNumber s = 0 \<and> 0 < bm_BlockNumber ev then s\<lparr>firstBlockNumber := bm_BlockNumber ev\<rparr> else s) in
        if bm_BlockNumber ev \<le> lastRecordedBlock s1 then s1
        else
          let s2 = s1\<lparr>cumulativeGasUsed := cumulativeGasUsed s1 + bm_GasUsed ev,
                cumulativeGasLimit := cumulativeGasLimit s1 + bm_GasLimit ev,
                totalBlockCount := totalBlockCount s1 + 1, lastBlockNumber := bm_BlockNumber ev,
                rpcLastBlockNumber := (if rpcLastBlockNumber s1 < bm_BlockNumber ev then bm_BlockNumber ev
                                       else rpcLastBlockNumber s1)\<rparr>;
              s3 = (case lastBlockTime s2 of
                      None \<Rightarrow> s2
                    | Some t \<Rightarrow>
                        let d = now - t in
                        s2\<lparr>blockMetrics := blockMetrics s2 @
                          [\<lparr>bp_timestamp = now, bp_blockNumber = bm_BlockNumber ev, bp_gasUsed = bm_GasUsed ev,
                            bp_gasLimit = bm_GasLimit ev, bp_blockTime = duration_Seconds d, bp_txCount = bm_TxCount ev,
                            bp_blockTimeMs = Milliseconds d, bp_filterDurationMs = bm_FilterDurationMs ev,
                            bp_engineApiDurationMs = bm_EngineApiDurationMs ev,
                            bp_totalBuildDurationMs = bm_TotalBuildDurationMs ev\<rparr>]\<rparr>)
          in s3\<lparr>lastRecordedBlock := bm_BlockNumber ev, lastBlockTime := Some now,
                rollingGasWindow := rollingGasWindow s3 @ [(now, bm_GasUsed ev)],
                rollingTxWindow := rollingTxWindow s3 @ [(now, bm_TxCount ev)]\<rparr>)"

text \<open>
  \<open>fmt.Sscanf\<close> with \<open>%x\<close>: leading blanks, at least one hexadecimal digit, and the value must fit;
  otherwise the result stays zero and an error is returned.
\<close>

definition hex_digit :: "char \<Rightarrow> nat option" where
  "hex_digit c =
     (let n = of_char c :: nat in
      if 48 \<le> n \<and> n \<le> 57 then Some (n - 48)
      else if 97 \<le> n \<and> n \<le> 102 then Some (n - 87)
      else if 65 \<le> n \<and> n \<le> 70 then Some (n - 55) else None)"

definition hex_value :: "string \<Rightarrow> nat" where
  "hex_value s = foldl (\<lambda>v c. 16 * v + (case hex_digit c of Some d \<Rightarrow> d | None \<Rightarrow> 0)) 0 s"

definition parseHexUint64 :: "string \<Rightarrow> u64 \<times> bool" where
  "parseHexUint64 s0 =
     (let s = (if 2 < length s0 \<and> take 2 s0 = ''0x'' then drop 2 s0 else s0);
          ds = takeWhile (\<lambda>c. hex_digit c \<noteq> None) (dropWhile (\<lambda>c. c = CHR '' '') s)
      in if ds = [] \<or> 2 ^ 64 \<le> hex_value ds then (0, True) else (of_nat (hex_value ds), False))"

definition push_recent :: "'a \<Rightarrow> 'a list \<Rightarrow> 'a list" where
  "push_recent x xs = take_last 1000 (xs @ [x])"

definition processNewHead :: "int \<Rightarrow> string \<Rightarrow> string \<Rightarrow> string \<Rightarrow> block_state \<Rightarrow> block_state" where
  "processNewHead now numberHex gasUsedHex gasLimitHex s =
     (let n = fst (parseHexUint64 numberHex); gasUsed = fst (parseHexUint64 gasUsedHex);
          gasLimit = fst (parseHexUint64 gasLimitHex);
          s1 = (if firstBlockNumber s = 0 then s\<lparr>firstBlockNumber := n\<rparr> else s);
          blockTime = (case lastBlockTime s1 of
                         Some t \<Rightarrow> if lastBlockNumber s1 < n then duration_Seconds (now - t) else 0
                       | None \<Rightarrow> 0);
          s2 = (if lastRecordedBlock s1 < n then
                  s1\<lparr>blockMetrics := blockMetrics s1 @
                       [\<lparr>bp_timestamp = now, bp_blockNumber = n, bp_gasUsed = gasUsed, bp_gasLimit = gasLimit,
                         bp_blockTime = blockTime, bp_txCount = 0, bp_blockTimeMs = 0, bp_filterDurationMs = 0,
                         bp_engineApiDurationMs = 0, bp_totalBuildDurationMs = 0\<rparr>],
                     lastRecordedBlock := n\<rparr>
                else s1)
      in s2\<lparr>lastBlockTime := Some now, lastBlockNumber := n, recentBlockNumbers := push_recent n (recentBlockNumbers s2)\<rparr>)"

text \<open>Block timestamps are whole seconds; \<open>cfgMs\<close> is the configured block time.\<close>

definition recordPolledBlockMetrics :: "int \<Rightarrow> block \<Rightarrow> block_state \<Rightarrow> block_state" where
  "recordPolledBlockMetrics cfgMs b s =
     (if bk_Number b \<le> lastRecordedBlock s then s
      else
        let s1 = s\<lparr>cumulativeGasUsed := cumulativeGasUsed s + bk_GasUsed b,
              cumulativeGasLimit := cumulativeGasLimit s + bk_GasLimit b, totalBlockCount := totalBlockCount s + 1,
              firstBlockNumber := (if firstBlockNumber s = 0 then bk_Number b else firstBlockNumber s),
              lastBlockNumber := bk_Number b,
              rpcLastBlockNumber := (if rpcLastBlockNumber s < bk_Number b then bk_Number b else rpcLastBlockNumber s)\<rparr>;
            ts = bk_Timestamp b * second;
            s2 = (case lastBlockTime s1 of
                    None \<Rightarrow> s1
                  | Some t \<Rightarrow>
                      let d0 = ts - t;
                          d1 = (if d0 \<le> 0 then cfgMs * 1000000 else d0);
                          d = (if d1 \<le> 0 then second else d1);
                          txCount = int (length (bk_Transactions b))
                      in s1\<lparr>blockMetrics := blockMetrics s1 @
                             [\<lparr>bp_timestamp = ts, bp_blockNumber = bk_Number b, bp_gasUsed = bk_GasUsed b,
                               bp_gasLimit = bk_GasLimit b, bp_blockTime = duration_Seconds d, bp_txCount = txCount,
                               bp_blockTimeMs = Milliseconds d, bp_filterDurationMs = 0,
                               bp_engineApiDurationMs = 0, bp_totalBuildDurationMs = 0\<rparr>],
                           rollingGasWindow := rollingGasWindow s1 @ [(ts, bk_GasUsed b)],
                           rollingTxWindow := rollingTxWindow s1 @ [(ts, txCount)],
                           lastBlockInterval := d\<rparr>)
        in s2\<lparr>lastRecordedBlock := bk_Number b, lastBlockTime := Some ts\<rparr>)"

section \<open>Rolling rates\<close>

text \<open>
  The loop that prunes a window in place: entry \<open>i\<close> is read, \<open>v\<close> entries are kept so far at the front
  of the same array, with their oldest time and tot.
\<close>

function prune_loop ::
  "int \<Rightarrow> nat \<Rightarrow> nat \<Rightarrow> int \<Rightarrow> 'v::comm_monoid_add \<Rightarrow> (int \<times> 'v) list \<Rightarrow> nat \<times> int \<times> 'v \<times> (int \<times> 'v) list" where
  "prune_loop cutoff i v oldest tot w =
     (if i < length w then
        let p = w ! i in
        if cutoff < fst p then
          prune_loop cutoff (i + 1) (v + 1) (if v = 0 \<or> fst p < oldest then fst p else oldest) (tot + snd p)
            (if v \<noteq> i then w[v := p] else w)
        else prune_loop cutoff (i + 1) v oldest tot w
      else (v, oldest, tot, w))"
  by pat_completeness auto
termination by (relation "measure (\<lambda>(cutoff, i, v, oldest, tot, w). length w - i)") auto

declare prune_loop.simps [simp del]

definition rollingWindowDuration :: int where "rollingWindowDuration = 5 * second"

definition window_duration :: "int \<Rightarrow> int \<Rightarrow> int" where
  "window_duration now oldest =
     (let d0 = now - oldest; d1 = (if d0 < 200 * 1000000 then 200 * 1000000 else d0)
      in if rollingWindowDuration < d1 then rollingWindowDuration else d1)"

datatype run_ctx = NoCtx | CtxCancelled | CtxLive

definition calculateRollingMgasPerSec :: "run_ctx \<Rightarrow> int \<Rightarrow> block_state \<Rightarrow> f64 \<times> block_state" where
  "calculateRollingMgasPerSec ctx now s =
     (case ctx of
        NoCtx \<Rightarrow> (0, s)
      | CtxCancelled \<Rightarrow> (lastMgasPerSec s, s)
      | CtxLive \<Rightarrow>
          if rollingGasWindow s = [] then (0, s)
          else
            let (v, oldest, tot, w) = prune_loop (now - rollingWindowDuration) 0 0 0 0 (rollingGasWindow s);
                s1 = s\<lparr>rollingGasWindow := take v w\<rparr>
            in if tot = 0 \<or> v = 0 then (0, s1)
               else
                 let d = window_duration now oldest in
                 if v < 3 \<and> d < second then (0, s1\<lparr>lastMgasPerSec := 0\<rparr>)
                 else let r = fdiv (fdiv (f64_of_int (uint tot)) 1000000) (duration_Seconds d)
                      in (r, s1\<lparr>lastMgasPerSec := r\<rparr>))"

definition calculateRollingTxPerSec :: "run_ctx \<Rightarrow> int \<Rightarrow> block_state \<Rightarrow> f64 \<times> block_state" where
  "calculateRollingTxPerSec ctx now s =
     (case ctx of
        NoCtx \<Rightarrow> (0, s)
      | CtxCancelled \<Rightarrow> (lastTxPerSec s, s)
      | CtxLive \<Rightarrow>
          if rollingTxWindow s = [] then (0, s)
          else
            let (v, oldest, tot, w) = prune_loop (now - rollingWindowDuration) 0 0 0 0 (rollingTxWindow s);
                s1 = s\<lparr>rollingTxWindow := take v w\<rparr>
            in if tot = 0 \<or> v = 0 then (0, s1)
               else
                 let d = window_duration now oldest in
                 if v < 3 \<and> d < second then (0, s1\<lparr>lastTxPerSec := 0\<rparr>)
                 else let r = fdiv (f64_of_int tot) (duration_Seconds d)
                      in (r, s1\<lparr>lastTxPerSec := r, peakRate := max (peakRate s1) (f64_trunc r)\<rparr>))"

definition calculateAvgBlockTimeMs :: "block_state \<Rightarrow> f64" where
  "calculateAvgBlockTimeMs s =
     (let ms = filter (\<lambda>t. 0 < t) (map bp_blockTimeMs (take_last 10 (blockMetrics s)))
      in if ms = [] then 0 else fdiv (f64_of_int (sum_list ms)) (f64_of_int (int (length ms))))"

section \<open>Metrics of a period\<close>

record period_metrics =
  pd_gasUsed :: u64
  pd_gasLimit :: u64
  pd_blockCount :: int
  pd_mgasPerSec :: f64
  pd_fillRate :: f64

definition no_period :: period_metrics where
  "no_period = \<lparr>pd_gasUsed = 0, pd_gasLimit = 0, pd_blockCount = 0, pd_mgasPerSec = 0, pd_fillRate = 0\<rparr>"

definition fill_rate :: "u64 \<Rightarrow> u64 \<Rightarrow> f64" where
  "fill_rate used limit =
     (if 0 < limit then fmul (fdiv (f64_of_int (uint used)) (f64_of_int (uint limit))) 100 else 0)"

definition mgas_rate :: "u64 \<Rightarrow> f64 \<Rightarrow> f64" where
  "mgas_rate used secs = (if 0 < secs then fdiv (fdiv (f64_of_int (uint used)) 1000000) secs else 0)"

text \<open>
  The fallback: \<open>head\<close> is the answer of \<open>eth_blockNumber\<close>, \<open>fetch\<close> the lookup of a block.  At most the
  last ten new blocks are read.
\<close>

definition getBlockMetricsViaRPC ::
  "bool \<Rightarrow> int \<Rightarrow> u64 option \<Rightarrow> (u64 \<Rightarrow> rpc_err + block option) \<Rightarrow> block_state \<Rightarrow> period_metrics \<times> block_state" where
  "getBlockMetricsViaRPC hasClient cfgMs head' fetch s =
     (if \<not> hasClient then (no_period, s)
      else case head' of
             None \<Rightarrow> (no_period, s)
           | Some cur \<Rightarrow>
               if rpcLastBlockNumber s = 0 then (no_period, s\<lparr>rpcLastBlockNumber := cur\<rparr>)
               else
                 let lst = rpcLastBlockNumber s; s1 = s\<lparr>rpcLastBlockNumber := cur\<rparr> in
                 if cur \<le> lst then (no_period, s1)
                 else
                   let start = (if 10 < cur - lst then cur - 10 + 1 else lst + 1);
                       bs = List.map_filter (\<lambda>i. case fetch (start + of_nat i) of Inr (Some b) \<Rightarrow> Some b | _ \<Rightarrow> None)
                              [0..<Suc (unat (cur - start))];
                       used = sum_list (map bk_GasUsed bs); limit = sum_list (map bk_GasLimit bs);
                       bms = (if cfgMs = 0 then 1000 else cfgMs);
                       est = fdiv (fmul (f64_of_int (int (length bs))) (f64_of_int bms)) 1000
                   in if bs = [] then (no_period, s1)
                      else (\<lparr>pd_gasUsed = used, pd_gasLimit = limit, pd_blockCount = int (length bs),
                             pd_mgasPerSec = mgas_rate used est, pd_fillRate = fill_rate used limit\<rparr>, s1))"

definition getBlockMetricsForPeriod ::
  "bool \<Rightarrow> int \<Rightarrow> int \<Rightarrow> u64 option \<Rightarrow> (u64 \<Rightarrow> rpc_err + block option) \<Rightarrow> block_state \<Rightarrow> period_metrics \<times> block_state" where
  "getBlockMetricsForPeriod hasClient cfgMs now head' fetch s =
     (if blockMetrics s \<noteq> [] then
        let used = sum_list (map bp_gasUsed (blockMetrics s)); limit = sum_list (map bp_gasLimit (blockMetrics s));
            tm = fold (\<lambda>p t. fadd t (bp_blockTime p)) (blockMetrics s) 0
        in (\<lparr>pd_gasUsed = used, pd_gasLimit = limit, pd_blockCount = int (length (blockMetrics s)),
             pd_mgasPerSec = mgas_rate used tm, pd_fillRate = fill_rate used limit\<rparr>, s\<lparr>blockMetrics := []\<rparr>)
      else
        let (p, s1) = getBlockMetricsViaRPC hasClient cfgMs head' fetch s in
        (p, if 0 < pd_gasUsed p then
              s1\<lparr>cumulativeGasUsed := cumulativeGasUsed s1 + pd_gasUsed p,
                 rollingGasWindow := rollingGasWindow s1 @ [(now, pd_gasUsed p)],
                 rollingTxWindow := (if 0 < pd_blockCount p then rollingTxWindow s1 @ [(now, pd_blockCount p)]
                                     else rollingTxWindow s1)\<rparr>
            else s1))"

section \<open>Metrics of the whole test from the chain\<close>

record on_chain_metrics =
  oc_firstBlock :: u64
  oc_lastBlock :: u64
  oc_txCount :: u64
  oc_gasUsed :: u64
  oc_mgasPerSec :: f64
  oc_tps :: f64
  oc_durationSecs :: f64

text \<open>
  The sums over the answered blocks and the timestamps of the two ends; \<open>n\<close> is the number asked for.
\<close>

definition add_block :: "u64 \<Rightarrow> u64 \<Rightarrow> u64 \<times> block_full option \<Rightarrow> u64 \<times> u64 \<times> int option \<times> int option \<Rightarrow>
    u64 \<times> u64 \<times> int option \<times> int option" where
  "add_block firstB lastB nb acc =
     (case (nb, acc) of
        ((n, None), _) \<Rightarrow> acc
      | ((n, Some b), (txs, gas, t0, t1)) \<Rightarrow>
          (txs + of_nat (bf_UserTxCount b), gas + bf_GasUsed b,
           if n = firstB then Some (bf_Timestamp b) else t0, if n = lastB then Some (bf_Timestamp b) else t1))"

definition block_range :: "u64 \<Rightarrow> u64 \<Rightarrow> u64 list" where
  "block_range firstB lastB = map (\<lambda>i. firstB + of_nat i) [0..<Suc (unat (lastB - firstB))]"

definition calculateOnChainMetrics ::
  "(u64 list \<Rightarrow> rpc_err + block_full option list) \<Rightarrow> (u64 \<Rightarrow> rpc_err + block_full option) \<Rightarrow> u64 option option \<Rightarrow>
     block_state \<Rightarrow> on_chain_metrics option" where
  "calculateOnChainMetrics batch single head' s =
     (let firstB = (if 0 < testStartBlockNumber s then testStartBlockNumber s else firstBlockNumber s);
          lastB = (if 0 < testEndBlockNumber s then testEndBlockNumber s
                   else if lastBlockNumber s = 0 then (case head' of Some (Some n) \<Rightarrow> n | _ \<Rightarrow> lastBlockNumber s)
                   else lastBlockNumber s);
          r = \<lparr>oc_firstBlock = firstB, oc_lastBlock = lastB, oc_txCount = 0, oc_gasUsed = 0, oc_mgasPerSec = 0,
               oc_tps = 0, oc_durationSecs = 0\<rparr>
      in if firstB = 0 \<or> lastB = 0 \<or> lastB < firstB then Some r
         else map_option (\<lambda>rs.
           let (txs, gas, t0, t1) = fold (\<lambda>(i, nb). add_block firstB lastB nb) rs (0, 0, None, None);
               r1 = r\<lparr>oc_txCount := txs, oc_gasUsed := gas\<rparr>
           in case (t0, t1) of
                (Some a, Some b) \<Rightarrow>
                  let secs = duration_Seconds ((b - a) * second); r2 = r1\<lparr>oc_durationSecs := secs\<rparr> in
                  if 0 < secs then
                    r2\<lparr>oc_mgasPerSec := fdiv (fdiv (f64_of_int (uint gas)) 1000000) secs,
                       oc_tps := fdiv (f64_of_int (uint txs)) secs\<rparr>
                  else r2
              | _ \<Rightarrow> r1) (fetch_all batch single 50 (block_range firstB lastB)))"

section \<open>The pruning loop is a filter\<close>

lemma prune_loop_filter:
  assumes "v \<le> i" "i \<le> length w" "take v w = filter (\<lambda>p. c < fst p) (take i w0)" "drop i w = drop i w0" "length w = length w0"
    "tot = sum_list (map snd (take v w))" "v \<noteq> 0 \<longrightarrow> oldest = Min (fst ` set (take v w))"
  shows "case prune_loop c i v oldest tot w of (v', oldest', tot', w') \<Rightarrow>
    take v' w' = filter (\<lambda>p. c < fst p) w0 \<and> v' = length (filter (\<lambda>p. c < fst p) w0) \<and>
    tot' = sum_list (map snd (filter (\<lambda>p. c < fst p) w0)) \<and>
    (v' \<noteq> 0 \<longrightarrow> oldest' = Min (fst ` set (filter (\<lambda>p. c < fst p) w0)))"
  using assms
proof (induction c i v oldest tot w rule: prune_loop.induct)
  case (1 c i v oldest tot w)
  let ?K = "\<lambda>p :: int \<times> 'a. c < fst p"
  show ?case
  proof (cases "i < length w")
    case False
    then have "i = length w0" using "1.prems"(2,5) by simp
    moreover have "v = length (take v w)" using "1.prems"(1,2) by simp
    ultimately show ?thesis using "1.prems"(3,5-7) by (subst prune_loop.simps) simp
  next
    case lt: True
    define p where "p = w ! i"
    have w0i: "w0 ! i = p" "i < length w0"
      using lt "1.prems"(4,5) by (metis p_def Cons_nth_drop_Suc list.inject, simp)
    have ti: "take (Suc i) w0 = take i w0 @ [p]" using w0i by (simp add: take_Suc_conv_app_nth)
    have dr: "drop (Suc i) (w[v := p]) = drop (Suc i) w" using "1.prems"(1) by simp
    have dw: "drop (Suc i) w = drop (Suc i) w0" using "1.prems"(4) by (metis drop_Suc tl_drop)
    show ?thesis
    proof (cases "c < fst p")
      case True
      let ?w = "if v \<noteq> i then w[v := p] else w"
      have tv: "take (v + 1) ?w = take v w @ [p]"
        using "1.prems"(1) lt by (cases "v = i") (simp_all add: take_Suc_conv_app_nth p_def)
      have "case prune_loop c (i + 1) (v + 1) (if v = 0 \<or> fst p < oldest then fst p else oldest) (tot + snd p) ?w of
        (v', oldest', tot', w') \<Rightarrow> take v' w' = filter ?K w0 \<and> v' = length (filter ?K w0) \<and>
          tot' = sum_list (map snd (filter ?K w0)) \<and> (v' \<noteq> 0 \<longrightarrow> oldest' = Min (fst ` set (filter ?K w0)))"
      proof (rule "1.IH"(1) [OF lt p_def True])
        show "take (v + 1) ?w = filter ?K (take (i + 1) w0)" unfolding tv using "1.prems"(3) ti True by simp
        show "drop (i + 1) ?w = drop (i + 1) w0" using dr dw by simp
        show "tot + snd p = sum_list (map snd (take (v + 1) ?w))" unfolding tv using "1.prems"(6) by simp
        show "v + 1 \<noteq> 0 \<longrightarrow> (if v = 0 \<or> fst p < oldest then fst p else oldest) = Min (fst ` set (take (v + 1) ?w))"
        proof (cases "v = 0")
          case False
          then have ne: "fst ` set (take v w) \<noteq> {}" using lt "1.prems"(1) by auto
          have "fst ` set (take (v + 1) ?w) = insert (fst p) (fst ` set (take v w))" unfolding tv by simp
          then have "Min (fst ` set (take (v + 1) ?w)) = min (fst p) oldest" using ne False "1.prems"(7) by simp
          then show ?thesis using False by (simp add: min_def)
        next
          case True
          have "take (v + 1) ?w = [p]" unfolding tv by (simp add: True)
          then have m: "Min (fst ` set (take (v + 1) ?w)) = fst p" by (simp only: list.set image_insert image_empty Min_singleton)
          show ?thesis unfolding m by (simp add: True)
        qed
      qed (use "1.prems"(1,5) lt in auto)
      then show ?thesis using lt True
        by (subst prune_loop.simps) (simp only: Let_def p_def [symmetric] if_True)
    next
      case False
      have "case prune_loop c (i + 1) v oldest tot w of
        (v', oldest', tot', w') \<Rightarrow> take v' w' = filter ?K w0 \<and> v' = length (filter ?K w0) \<and>
          tot' = sum_list (map snd (filter ?K w0)) \<and> (v' \<noteq> 0 \<longrightarrow> oldest' = Min (fst ` set (filter ?K w0)))"
        by (rule "1.IH"(2) [OF lt p_def False]) (use "1.prems" lt False ti dw in auto)
      then show ?thesis using lt False
        by (subst prune_loop.simps) (simp only: Let_def p_def [symmetric] if_True if_False)
    qed
  qed
qed

lemma prune_window:
  assumes "recent = filter (\<lambda>p. c < fst p) w"
  obtains w' oldest where "prune_loop c 0 0 0 0 w = (length recent, oldest, sum_list (map snd recent), w')"
    "take (length recent) w' = recent" "recent \<noteq> [] \<longrightarrow> oldest = Min (fst ` set recent)"
proof -
  obtain v oldest t w' where r: "prune_loop c 0 0 0 0 w = (v, oldest, t, w')" by (cases "prune_loop c 0 0 0 0 w") auto
  have "case prune_loop c 0 0 0 0 w of (v', oldest', tot', w') \<Rightarrow>
    take v' w' = filter (\<lambda>p. c < fst p) w \<and> v' = length (filter (\<lambda>p. c < fst p) w) \<and>
    tot' = sum_list (map snd (filter (\<lambda>p. c < fst p) w)) \<and>
    (v' \<noteq> 0 \<longrightarrow> oldest' = Min (fst ` set (filter (\<lambda>p. c < fst p) w)))"
    by (rule prune_loop_filter) simp_all
  then show ?thesis using that r by (auto simp: assms)
qed

text \<open>
  The rolling gas rate, computed by pruning the window in place, is the reference: the gas of the
  points of the last five seconds over the time since the oldest of them, clamped to between 200 ms
  and five seconds; it is zero without gas and during the warm-up (fewer than three points spanning
  less than a second), and the window keeps exactly those points.
\<close>
theorem rolling_rate_reference:
  "calculateRollingMgasPerSec CtxLive now s =
     (let recent = filter (\<lambda>p. now - rollingWindowDuration < fst p) (rollingGasWindow s);
          tot = sum_list (map snd recent); d = window_duration now (Min (fst ` set recent));
          s1 = s\<lparr>rollingGasWindow := recent\<rparr>; r = fdiv (fdiv (f64_of_int (uint tot)) 1000000) (duration_Seconds d)
      in if recent = [] \<or> tot = 0 then (0, s1)
         else if length recent < 3 \<and> d < second then (0, s1\<lparr>lastMgasPerSec := 0\<rparr>)
         else (r, s1\<lparr>lastMgasPerSec := r\<rparr>))"
proof (cases "rollingGasWindow s = []")
  case True
  then show ?thesis by (simp add: calculateRollingMgasPerSec_def)
next
  case False
  define recent where "recent = filter (\<lambda>p. now - rollingWindowDuration < fst p) (rollingGasWindow s)"
  obtain w' oldest where p: "prune_loop (now - rollingWindowDuration) 0 0 0 0 (rollingGasWindow s) =
      (length recent, oldest, sum_list (map snd recent), w')"
    "take (length recent) w' = recent" "recent \<noteq> [] \<longrightarrow> oldest = Min (fst ` set recent)"
    using prune_window [OF recent_def] by blast
  then show ?thesis using False unfolding recent_def [symmetric]
    by (cases "recent = []") (simp_all add: calculateRollingMgasPerSec_def Let_def)
qed

section \<open>Every block is counted once\<close>

datatype block_event =
    BuilderBlock int bool builder_block_metrics | NewHead int string string string | PolledBlock int block

fun apply_block_event :: "block_event \<Rightarrow> block_state \<Rightarrow> block_state" where
  "apply_block_event (BuilderBlock now running ev) s = processBuilderBlockMetrics now running ev s"
| "apply_block_event (NewHead now n used limit) s = processNewHead now n used limit s"
| "apply_block_event (PolledBlock cfgMs b) s = recordPolledBlockMetrics cfgMs b s"

text \<open>
  The block of an event, its gas, and whether the source adds to the totals; \<open>te\<close> is the test's last
  block.  A block is accepted when its number is above that of every block accepted before it.
\<close>

fun event_block :: "u64 \<Rightarrow> block_event \<Rightarrow> (u64 \<times> u64 \<times> bool) option" where
  "event_block te (BuilderBlock now running ev) =
     (if running \<and> \<not> (0 < te \<and> te < bm_BlockNumber ev) then Some (bm_BlockNumber ev, bm_GasUsed ev, True) else None)"
| "event_block te (NewHead now n used limit) = Some (fst (parseHexUint64 n), fst (parseHexUint64 used), False)"
| "event_block te (PolledBlock cfgMs b) = Some (bk_Number b, bk_GasUsed b, True)"

fun accepted :: "u64 \<Rightarrow> u64 \<Rightarrow> block_event list \<Rightarrow> (u64 \<times> u64 \<times> bool) list" where
  "accepted te l [] = []"
| "accepted te l (e # es) =
     (case event_block te e of
        Some (n, g, c) \<Rightarrow> if l < n then (n, g, c) # accepted te n es else accepted te l es
      | None \<Rightarrow> accepted te l es)"

lemma apply_event_effect:
  "case event_block (testEndBlockNumber s) e of
     Some (n, g, c) \<Rightarrow>
       if lastRecordedBlock s < n then
         lastRecordedBlock (apply_block_event e s) = n \<and>
         cumulativeGasUsed (apply_block_event e s) = cumulativeGasUsed s + (if c then g else 0) \<and>
         totalBlockCount (apply_block_event e s) = totalBlockCount s + (if c then 1 else 0) \<and>
         (map bp_blockNumber (blockMetrics (apply_block_event e s)) = map bp_blockNumber (blockMetrics s) \<or>
          map bp_blockNumber (blockMetrics (apply_block_event e s)) = map bp_blockNumber (blockMetrics s) @ [n])
       else
         lastRecordedBlock (apply_block_event e s) = lastRecordedBlock s \<and>
         cumulativeGasUsed (apply_block_event e s) = cumulativeGasUsed s \<and>
         totalBlockCount (apply_block_event e s) = totalBlockCount s \<and>
         blockMetrics (apply_block_event e s) = blockMetrics s
   | None \<Rightarrow> apply_block_event e s = s"
proof (cases e)
  case (BuilderBlock now running ev)
  then show ?thesis
    by (auto simp: processBuilderBlockMetrics_def Let_def not_less split: option.split)
next
  case (NewHead now n used limit)
  then show ?thesis by (auto simp: processNewHead_def Let_def not_less)
next
  case (PolledBlock cfgMs b)
  then show ?thesis by (auto simp: recordPolledBlockMetrics_def Let_def not_less split: option.split)
qed

lemma apply_event_end [simp]: "testEndBlockNumber (apply_block_event e s) = testEndBlockNumber s"
  by (cases e) (auto simp: processBuilderBlockMetrics_def processNewHead_def recordPolledBlockMetrics_def Let_def
      split: option.split)

definition counted_gas :: "(u64 \<times> u64 \<times> bool) list \<Rightarrow> u64" where
  "counted_gas acc = sum_list (map (\<lambda>(n, g, c). if c then g else 0) acc)"

definition counted :: "(u64 \<times> u64 \<times> bool) list \<Rightarrow> nat" where
  "counted acc = length (filter (\<lambda>(n, g, c). c) acc)"

definition points_ok :: "block_state \<Rightarrow> bool" where
  "points_ok s \<longleftrightarrow> sorted_wrt (<) (map bp_blockNumber (blockMetrics s)) \<and>
     (\<forall>p \<in> set (blockMetrics s). bp_blockNumber p \<le> lastRecordedBlock s)"

lemma sorted_extend:
  fixes xs :: "u64 list"
  assumes "sorted_wrt (<) xs" "\<forall>x \<in> set xs. x \<le> l" "l < n" "ys = xs \<or> ys = xs @ [n]"
  shows "sorted_wrt (<) ys \<and> (\<forall>y \<in> set ys. y \<le> n)"
proof -
  have "\<forall>x \<in> set xs. x < n" using assms(2,3) by auto
  then show ?thesis using assms(1,4) by (auto simp: sorted_wrt_append less_imp_le)
qed

lemma points_ok_step:
  assumes "points_ok s" shows "points_ok (apply_block_event e s)"
proof -
  let ?m = "map bp_blockNumber (blockMetrics s)" and ?s = "apply_block_event e s"
  have old: "sorted_wrt (<) ?m" "\<forall>x \<in> set ?m. x \<le> lastRecordedBlock s" using assms by (auto simp: points_ok_def)
  have "sorted_wrt (<) (map bp_blockNumber (blockMetrics ?s)) \<and> (\<forall>x \<in> set (map bp_blockNumber (blockMetrics ?s)). x \<le> lastRecordedBlock ?s)"
  proof (cases "event_block (testEndBlockNumber s) e")
    case None
    then show ?thesis using apply_event_effect [where s = s and e = e] old by simp
  next
    case (Some ngc)
    obtain n g c where ngc: "ngc = (n, g, c)" by (cases ngc)
    show ?thesis
    proof (cases "lastRecordedBlock s < n")
      case True
      then have l: "lastRecordedBlock ?s = n"
        and m: "map bp_blockNumber (blockMetrics ?s) = ?m \<or> map bp_blockNumber (blockMetrics ?s) = ?m @ [n]"
        using apply_event_effect [where s = s and e = e] Some ngc by simp_all
      show ?thesis unfolding l by (rule sorted_extend [OF old True m])
    next
      case False
      then show ?thesis using apply_event_effect [where s = s and e = e] Some ngc old by simp
    qed
  qed
  then show ?thesis by (simp add: points_ok_def)
qed

lemma accepted_effect:
  "lastRecordedBlock (fold apply_block_event es s) =
     last (lastRecordedBlock s # map fst (accepted (testEndBlockNumber s) (lastRecordedBlock s) es)) \<and>
   cumulativeGasUsed (fold apply_block_event es s) =
     cumulativeGasUsed s + counted_gas (accepted (testEndBlockNumber s) (lastRecordedBlock s) es) \<and>
   totalBlockCount (fold apply_block_event es s) =
     totalBlockCount s + int (counted (accepted (testEndBlockNumber s) (lastRecordedBlock s) es)) \<and>
   sorted_wrt (<) (lastRecordedBlock s # map fst (accepted (testEndBlockNumber s) (lastRecordedBlock s) es))"
proof (induction es arbitrary: s)
  case (Cons e es)
  let ?s = "apply_block_event e s"
  show ?case
  proof (cases "event_block (testEndBlockNumber s) e")
    case None
    then show ?thesis using apply_event_effect [where s = s and e = e] Cons.IH [of s] by simp
  next
    case (Some ngc)
    obtain n g c where ngc: "ngc = (n, g, c)" by (cases ngc)
    show ?thesis
    proof (cases "lastRecordedBlock s < n")
      case True
      then have "lastRecordedBlock ?s = n" "cumulativeGasUsed ?s = cumulativeGasUsed s + (if c then g else 0)"
        "totalBlockCount ?s = totalBlockCount s + (if c then 1 else 0)"
        using apply_event_effect [where s = s and e = e] Some ngc by simp_all
      then show ?thesis using Cons.IH [of ?s] Some ngc True
        by (auto simp: counted_gas_def counted_def)
    next
      case False
      then show ?thesis using apply_event_effect [where s = s and e = e] Some ngc Cons.IH [of ?s] by simp
    qed
  qed
qed (simp add: counted_gas_def counted_def)


text \<open>A header that arrives before the builder's report of the same block hides that report: its gas is in no total.\<close>

lemma new_head_hides_builder_block:
  assumes "fst (parseHexUint64 n) = bm_BlockNumber ev" "lastRecordedBlock s < bm_BlockNumber ev"
  shows "cumulativeGasUsed (processBuilderBlockMetrics now2 r ev (processNewHead now1 n used limit s)) = cumulativeGasUsed s \<and>
    rollingGasWindow (processBuilderBlockMetrics now2 r ev (processNewHead now1 n used limit s)) = rollingGasWindow s"
  using assms by (simp add: processNewHead_def processBuilderBlockMetrics_def Let_def)

end
