(* ===== verification/Confirmations.thy ===== *)
theory Confirmations
  imports Tx_Log Block_Metrics
begin

text \<open>
  How the load generator learns that a transaction was included (\<open>internal/loadgen/websocket.go\<close>,
  \<open>chainpoller.go\<close>): the events of the preconfirmation websocket, with the sequence numbers that
  reveal lost messages, and the poller that reads every block after the start of the test.  The
  \<open>HexToHash\<close> and \<open>Hash.Hex\<close> functions of the Ethereum library are the parameters \<open>hashOf\<close> and
  \<open>hexOf\<close>; a clock reading is an argument.
\<close>

record confirm_state = lg_core +
  preconfLatencies :: latency_stats
  recentConfirmedHashes :: "string list"
  blockState :: block_state
  lastPreconfSeqNum :: u64
  preconfGaps :: u64

definition reset_confirm :: "confirm_state \<Rightarrow> confirm_state" where
  "reset_confirm s =
     s\<lparr>preconfLatencies := latency_Reset (preconfLatencies s), lastPreconfSeqNum := 0, preconfGaps := 0\<rparr>"

section \<open>Preconfirmation events\<close>

definition beyond_test_end :: "confirm_state \<Rightarrow> u64 \<Rightarrow> bool" where
  "beyond_test_end s n \<longleftrightarrow> 0 < testEndBlockNumber (blockState s) \<and> testEndBlockNumber (blockState s) < n"

definition note_recent_hash :: "string \<Rightarrow> confirm_state \<Rightarrow> confirm_state" where
  "note_recent_hash h s = s\<lparr>recentConfirmedHashes := push_recent h (recentConfirmedHashes s)\<rparr>"

definition note_recent_block :: "u64 \<Rightarrow> confirm_state \<Rightarrow> confirm_state" where
  "note_recent_block n s =
     (let bs = recentBlockNumbers (blockState s) in
      if length bs = 0 \<or> bs ! (length bs - 1) \<noteq> n
      then s\<lparr>blockState := (blockState s)\<lparr>recentBlockNumbers := push_recent n bs\<rparr>\<rparr> else s)"

definition record_confirmation :: "bool \<Rightarrow> hash \<Rightarrow> int \<Rightarrow> confirm_state \<Rightarrow> confirm_state" where
  "record_confirmation beyond h now s =
     (let s1 = (if beyond then s\<lparr>metricsCol := RecordTxConfirmedFlowOnly h now (metricsCol s)\<rparr>
                else s\<lparr>metricsCol := RecordTxConfirmed h now (metricsCol s)\<rparr>)
      in recordTxConfirmed h now (sub_pending s1))"

definition processPreconfEvent :: "(string \<Rightarrow> hash) \<Rightarrow> int \<Rightarrow> preconf_event option \<Rightarrow> confirm_state \<Rightarrow> confirm_state" where
  "processPreconfEvent hashOf now evo s =
     (case evo of
        None \<Rightarrow> s
      | Some ev \<Rightarrow>
          if pe_TxHash ev = '''' then s
          else
            let h = hashOf (pe_TxHash ev); st = pe_Status ev in
            if st = PreconfStagePending then s\<lparr>metricsCol := RecordPending h now (metricsCol s)\<rparr>
            else if st = PreconfStagePreconfirmed then
              let s1 = s\<lparr>metricsCol := RecordPreconfirmed h now (metricsCol s)\<rparr>;
                  s2 = (case GetTxSentTime h (metricsCol s1) of
                          Some t \<Rightarrow> s1\<lparr>preconfLatencies := latency_Add (sub_ms now t) (preconfLatencies s1)\<rparr>
                        | None \<Rightarrow> s1)
              in recordTxPreconfirmed h now s2
            else if st = PreconfStageConfirmed then
              let beyond = beyond_test_end s (pe_BlockNumber ev);
                  s1 = record_confirmation beyond h now s;
                  s2 = (if beyond then s1 else note_recent_hash (pe_TxHash ev) s1)
              in if 0 < pe_BlockNumber ev \<and> \<not> beyond then note_recent_block (pe_BlockNumber ev) s2 else s2
            else if st = PreconfStageRevoked then
              s\<lparr>metricsCol := RecordRevoked h now (metricsCol s), lg_recentRevocations := lg_recentRevocations s + 1\<rparr>
            else if st = PreconfStageDropped then
              sub_pending (s\<lparr>metricsCol := RecordDropped h now (metricsCol s)\<rparr>)
            else if st = PreconfStageRequeued then s\<lparr>metricsCol := RecordRequeued h now (metricsCol s)\<rparr>
            else s)"

definition track_seq :: "u64 \<Rightarrow> confirm_state \<Rightarrow> confirm_state" where
  "track_seq n s =
     (if 0 < n then
        let expected = lastPreconfSeqNum s + 1;
            s1 = (if 1 < expected \<and> expected < n then s\<lparr>preconfGaps := preconfGaps s + (n - expected)\<rparr> else s)
        in s1\<lparr>lastPreconfSeqNum := n\<rparr>
      else s)"

text \<open>One message; \<open>clock i\<close> is the time at which its event \<open>i\<close> is handled.\<close>

definition handle_preconf_message ::
  "(string \<Rightarrow> hash) \<Rightarrow> (nat \<Rightarrow> int) \<Rightarrow> preconf_message \<Rightarrow> confirm_state \<Rightarrow> confirm_state" where
  "handle_preconf_message hashOf clock m s =
     fold (\<lambda>(i, ev). processPreconfEvent hashOf (clock i) ev) (enumerate 0 (GetEvents m)) (track_seq (pm_SeqNum m) s)"

section \<open>The chain poller\<close>

definition scan_tx :: "(string \<Rightarrow> hash) \<Rightarrow> (hash \<Rightarrow> string) \<Rightarrow> int \<Rightarrow> bool \<Rightarrow> string \<Rightarrow> confirm_state \<Rightarrow> confirm_state" where
  "scan_tx hashOf hexOf now beyond hashHex s =
     (let h = hashOf hashHex in
      if GetTxSentTime h (metricsCol s) = None then s
      else
        let s1 = record_confirmation beyond h now s
        in if beyond then s1 else note_recent_hash (hexOf h) s1)"

text \<open>The first component is the error of the lookup.\<close>

definition scanBlockForConfirmations ::
  "(string \<Rightarrow> hash) \<Rightarrow> (hash \<Rightarrow> string) \<Rightarrow> int \<Rightarrow> int \<Rightarrow> rpc_err + block option \<Rightarrow> u64 \<Rightarrow> confirm_state \<Rightarrow>
     rpc_err option \<times> confirm_state" where
  "scanBlockForConfirmations hashOf hexOf cfgMs now reply blockNum s =
     (case reply of
        Inl e \<Rightarrow> (Some e, s)
      | Inr None \<Rightarrow> (None, s)
      | Inr (Some b) \<Rightarrow>
          let s1 = s\<lparr>blockState := recordPolledBlockMetrics cfgMs b (blockState s)\<rparr> in
          if bk_Transactions b = [] then (None, s1)
          else (None, fold (scan_tx hashOf hexOf now (beyond_test_end s1 blockNum)) (bk_Transactions b) s1))"

text \<open>
  One pass: \<open>for n := nextBlock; n <= end; n++\<close> over a scan \<open>f\<close>, left at the first error.  The loop
  does not end when \<open>end\<close> is the largest \<open>uint64\<close>.
\<close>

partial_function (option) scan_from ::
  "(u64 \<Rightarrow> 's \<Rightarrow> rpc_err option \<times> 's) \<Rightarrow> u64 \<Rightarrow> u64 \<Rightarrow> u64 \<Rightarrow> 's \<Rightarrow> (u64 \<times> 's) option" where
  "scan_from f lst n nxt s =
     (if n \<le> lst then
        (case f n s of
           (Some e, s') \<Rightarrow> Some (nxt, s')
         | (None, s') \<Rightarrow> scan_from f lst (n + 1) (n + 1) s')
      else Some (nxt, s))"

definition poll_end :: "u64 \<Rightarrow> u64 \<Rightarrow> u64" where
  "poll_end chainHead nxt = (if 50 < chainHead - nxt + 1 then nxt + 50 - 1 else chainHead)"

definition first_block :: "u64 \<Rightarrow> u64" where
  "first_block testStart = (let n = testStart + 1 in if n = 0 then 1 else n)"

text \<open>A tick: the answer for the head of the chain, and the scan of a block in this tick.\<close>

definition poll_tick ::
  "rpc_err + u64 \<Rightarrow> (u64 \<Rightarrow> 's \<Rightarrow> rpc_err option \<times> 's) \<Rightarrow> u64 \<times> 's \<Rightarrow> (u64 \<times> 's) option" where
  "poll_tick reply f st =
     (case (reply, st) of
        (Inl _, _) \<Rightarrow> Some st
      | (Inr chainHead, nxt, s) \<Rightarrow>
          if chainHead < nxt then Some st else scan_from f (poll_end chainHead nxt) nxt nxt s)"

text \<open>The ticks of the poller: the answer for the head, the time and the answers for the blocks.\<close>

fun connectChainPoller ::
  "(string \<Rightarrow> hash) \<Rightarrow> (hash \<Rightarrow> string) \<Rightarrow> int \<Rightarrow> ((rpc_err + u64) \<times> int \<times> (u64 \<Rightarrow> rpc_err + block option)) list \<Rightarrow>
     u64 \<times> confirm_state \<Rightarrow> (u64 \<times> confirm_state) option" where
  "connectChainPoller hashOf hexOf cfgMs [] st = Some st"
| "connectChainPoller hashOf hexOf cfgMs ((reply, now, fetch) # ts) st =
     Option.bind (poll_tick reply (\<lambda>n. scanBlockForConfirmations hashOf hexOf cfgMs now (fetch n) n) st)
       (connectChainPoller hashOf hexOf cfgMs ts)"

section \<open>Lost messages are counted exactly\<close>

lemma seq_fields_unchanged [simp]:
  "lastPreconfSeqNum (sub_pending s) = lastPreconfSeqNum s" "preconfGaps (sub_pending s) = preconfGaps s"
  "lastPreconfSeqNum (recordTxConfirmed h t s) = lastPreconfSeqNum s" "preconfGaps (recordTxConfirmed h t s) = preconfGaps s"
  "lastPreconfSeqNum (recordTxPreconfirmed h t s) = lastPreconfSeqNum s" "preconfGaps (recordTxPreconfirmed h t s) = preconfGaps s"
  "lastPreconfSeqNum (note_recent_hash x s) = lastPreconfSeqNum s" "preconfGaps (note_recent_hash x s) = preconfGaps s"
  "lastPreconfSeqNum (note_recent_block n s) = lastPreconfSeqNum s" "preconfGaps (note_recent_block n s) = preconfGaps s"
  by (simp_all add: sub_pending_def recordTxConfirmed_def recordTxPreconfirmed_def note_recent_hash_def note_recent_block_def
      Let_def split: option.split)

lemma seq_fields_confirmation [simp]:
  "lastPreconfSeqNum (record_confirmation b h t s) = lastPreconfSeqNum s" "preconfGaps (record_confirmation b h t s) = preconfGaps s"
  by (simp_all add: record_confirmation_def Let_def)

lemma seq_fields_event [simp]:
  "lastPreconfSeqNum (processPreconfEvent hx t ev s) = lastPreconfSeqNum s \<and>
   preconfGaps (processPreconfEvent hx t ev s) = preconfGaps s"
  by (simp add: processPreconfEvent_def Let_def split: option.split)

lemma seq_fields_events:
  "lastPreconfSeqNum (fold (\<lambda>(i, ev). processPreconfEvent hx (clock i) ev) evs s) = lastPreconfSeqNum s \<and>
   preconfGaps (fold (\<lambda>(i, ev). processPreconfEvent hx (clock i) ev) evs s) = preconfGaps s"
  by (induction evs arbitrary: s) (simp_all add: split_beta)

lemma seq_fields_message:
  "lastPreconfSeqNum (handle_preconf_message hx clock m s) = lastPreconfSeqNum (track_seq (pm_SeqNum m) s) \<and>
   preconfGaps (handle_preconf_message hx clock m s) = preconfGaps (track_seq (pm_SeqNum m) s)"
  unfolding handle_preconf_message_def by (rule seq_fields_events)

lemma track_seq_step:
  assumes "0 < lastPreconfSeqNum s" "lastPreconfSeqNum s < n" "unat (preconfGaps s) < unat (lastPreconfSeqNum s)"
  shows "lastPreconfSeqNum (track_seq n s) = n \<and>
    unat (preconfGaps (track_seq n s)) = unat (preconfGaps s) + (unat n - unat (lastPreconfSeqNum s) - 1)"
proof -
  let ?l = "lastPreconfSeqNum s"
  have l: "?l \<noteq> - 1" using assms(2) by (rule u64_less_not_max)
  have n: "0 < n" using assms(1,2) by (rule order.strict_trans)
  have e: "unat (?l + 1) = Suc (unat ?l)" by (rule u64_unat_Suc [OF l])
  have e1: "1 < ?l + 1" using assms(1) by (simp add: word_less_nat_alt e)
  show ?thesis
  proof (cases "?l + 1 < n")
    case True
    then have d: "unat (n - (?l + 1)) = unat n - Suc (unat ?l)" by (simp add: unat_sub order_less_imp_le e)
    have "unat (preconfGaps s) + unat (n - (?l + 1)) < 2 ^ 64"
      using assms(3) True u64_unat_less [of n] by (simp add: d word_less_nat_alt e)
    then have "unat (preconfGaps s + (n - (?l + 1))) = unat (preconfGaps s) + unat (n - (?l + 1))"
      by (simp add: unat_word_ariths)
    then show ?thesis using n e1 True unfolding track_seq_def Let_def by (simp add: d)
  next
    case False
    then have "unat n \<le> Suc (unat ?l)" by (simp add: word_less_nat_alt e)
    then show ?thesis using n False by (simp add: track_seq_def Let_def)
  qed
qed

definition handle_messages :: "(string \<Rightarrow> hash) \<Rightarrow> ((nat \<Rightarrow> int) \<times> preconf_message) list \<Rightarrow> confirm_state \<Rightarrow> confirm_state" where
  "handle_messages hashOf ms s = fold (\<lambda>(clock, m). handle_preconf_message hashOf clock m) ms s"

lemma gaps_from:
  assumes "0 < lastPreconfSeqNum s" "sorted_wrt (<) (lastPreconfSeqNum s # map (\<lambda>cm. pm_SeqNum (snd cm)) ms)"
    "unat (preconfGaps s) < unat (lastPreconfSeqNum s)"
  shows "unat (preconfGaps (handle_messages hx ms s)) + length ms =
    unat (preconfGaps s) + (unat (last (lastPreconfSeqNum s # map (\<lambda>cm. pm_SeqNum (snd cm)) ms)) - unat (lastPreconfSeqNum s))"
  using assms
proof (induction ms arbitrary: s)
  case (Cons cm ms)
  obtain clock m where cm: "cm = (clock, m)" by (cases cm)
  let ?s = "handle_preconf_message hx clock m s" and ?n = "pm_SeqNum m" and ?ns = "map (\<lambda>cm. pm_SeqNum (snd cm)) ms"
  have lt: "lastPreconfSeqNum s < ?n" using Cons.prems(2) by (simp add: cm)
  have s1: "lastPreconfSeqNum ?s = ?n"
    "unat (preconfGaps ?s) = unat (preconfGaps s) + (unat ?n - unat (lastPreconfSeqNum s) - 1)"
    using track_seq_step [OF Cons.prems(1) lt Cons.prems(3)] seq_fields_message [of hx clock m s] by simp_all
  have n0: "0 < ?n" using Cons.prems(1) lt by (rule order.strict_trans)
  have g: "unat (preconfGaps ?s) < unat ?n" using s1(2) lt Cons.prems(3) by (simp add: word_less_nat_alt)
  have "unat (preconfGaps (handle_messages hx ms ?s)) + length ms =
      unat (preconfGaps ?s) + (unat (last (?n # ?ns)) - unat ?n)"
    using Cons.IH [of ?s] Cons.prems(2) n0 g s1(1) by (simp add: cm)
  moreover have "unat ?n \<le> unat (last (?n # ?ns))"
    using Cons.prems(2) by (cases ms) (auto simp: cm word_less_nat_alt last_map intro: less_imp_le)
  ultimately show ?case using s1(2) lt by (simp add: cm word_less_nat_alt handle_messages_def)
qed (simp add: handle_messages_def)

text \<open>
  Messages with increasing sequence numbers arrive after the counters were reset: the gap counter
  plus the number of messages received is the number of sequence numbers from the first to the last.
\<close>
theorem lost_messages_counted:
  assumes "ms \<noteq> []" "sorted_wrt (<) (map (\<lambda>cm. pm_SeqNum (snd cm)) ms)" "0 < pm_SeqNum (snd (ms ! 0))"
  shows "unat (preconfGaps (handle_messages hashOf ms (reset_confirm s))) + length ms =
    unat (pm_SeqNum (snd (last ms))) - unat (pm_SeqNum (snd (ms ! 0))) + 1"
proof -
  obtain clock m ms' where ms: "ms = (clock, m) # ms'" using assms(1) by (cases ms) auto
  let ?n = "pm_SeqNum m" and ?s = "handle_preconf_message hashOf clock m (reset_confirm s)"
  have n: "0 < ?n" using assms(3) by (simp add: ms)
  have s1: "lastPreconfSeqNum ?s = ?n" "preconfGaps ?s = 0"
    using seq_fields_message [of hashOf clock m "reset_confirm s"] n
    by (simp_all add: track_seq_def reset_confirm_def Let_def)
  have "unat (preconfGaps (handle_messages hashOf ms' ?s)) + length ms' =
      unat (last (?n # map (\<lambda>cm. pm_SeqNum (snd cm)) ms')) - unat ?n"
    using gaps_from [of ?s ms' hashOf] assms(2) n s1 by (simp add: ms word_less_nat_alt)
  moreover have "last (?n # map (\<lambda>cm. pm_SeqNum (snd cm)) ms') = pm_SeqNum (snd (last ms))"
    by (simp add: ms last_map)
  ultimately show ?thesis by (simp add: ms handle_messages_def)
qed

definition example_message :: "u64 \<Rightarrow> preconf_message" where
  "example_message n = \<lparr>pm_Type = ''pending'', pm_Events = [], pm_SeqNum = n, pm_TxHash = ''0x1'',
     pm_Status = PreconfStagePending, pm_BlockNumber = 0, pm_Position = 0, pm_Timestamp = 0\<rparr>"

theorem lost_messages_counted_witness:
  "unat (preconfGaps (handle_messages length (map (Pair int) [example_message 3, example_message 4, example_message 9])
     (reset_confirm s))) = 4"
proof -
  let ?ms = "map (Pair int) [example_message 3, example_message 4, example_message 9]"
  have "sorted_wrt (<) (map (\<lambda>cm. pm_SeqNum (snd cm)) ?ms)" "0 < pm_SeqNum (snd (?ms ! 0))"
    by (simp_all add: example_message_def word_less_nat_alt)
  then have "unat (preconfGaps (handle_messages length ?ms (reset_confirm s))) + length ?ms =
      unat (pm_SeqNum (snd (last ?ms))) - unat (pm_SeqNum (snd (?ms ! 0))) + 1"
    by (intro lost_messages_counted) simp_all
  then show ?thesis by (simp add: example_message_def)
qed

section \<open>Every block is scanned once, in order\<close>

definition blocks_between :: "u64 \<Rightarrow> u64 \<Rightarrow> u64 list" where
  "blocks_between a b = map (\<lambda>i. a + of_nat i) [0..<unat b - unat a]"

lemma blocks_between_same [simp]: "blocks_between a a = []" by (simp add: blocks_between_def)

lemma blocks_between_append:
  assumes "a \<le> b" "b \<le> c" shows "blocks_between a b @ blocks_between b c = blocks_between a c"
proof -
  have le: "unat a \<le> unat b" "unat b \<le> unat c" using assms by (simp_all add: word_le_nat_alt)
  have b: "b = a + of_nat (unat b - unat a)" using le(1) by (simp add: of_nat_diff)
  have "blocks_between b c = map (\<lambda>i. a + of_nat (unat b - unat a) + of_nat i) [0..<unat c - unat b]"
    unfolding blocks_between_def using b by simp
  also have "\<dots> = map (\<lambda>i. a + of_nat i) (map ((+) (unat b - unat a)) [0..<unat c - unat b])"
    by (simp add: add.assoc)
  also have "map ((+) (unat b - unat a)) [0..<unat c - unat b] = [unat b - unat a..<unat c - unat a]"
    using le by (intro nth_equalityI) simp_all
  finally show ?thesis
    using le upt_add_eq_append [of 0 "unat b - unat a" "unat c - unat b"]
    unfolding blocks_between_def map_append [symmetric] by simp
qed

lemma blocks_between_Cons:
  assumes "n < m" shows "blocks_between n m = n # blocks_between (n + 1) m"
proof -
  have n: "n \<noteq> - 1" using assms by (rule u64_less_not_max)
  have s: "unat (n + 1) = Suc (unat n)" by (rule u64_unat_Suc [OF n])
  have le: "n \<le> n + 1" "n + 1 \<le> m" using assms by (simp_all add: word_le_nat_alt word_less_nat_alt s)
  have "blocks_between n (n + 1) = [n]" by (simp add: blocks_between_def s)
  then show ?thesis using blocks_between_append [OF le] by simp
qed

text \<open>
  A scan whose error depends on the block only and which changes nothing when it fails: one pass
  applies it to consecutive blocks up to the end or the first block that fails.
\<close>

lemma scan_from_pass:
  assumes "lst \<noteq> - 1" "n \<le> lst + 1" "\<And>n s. fst (f n s) = err n"
    "\<And>n s. err n \<noteq> None \<Longrightarrow> snd (f n s) = s"
  shows "\<exists>m. scan_from f lst n n s = Some (m, fold (\<lambda>k s. snd (f k s)) (blocks_between n m) s) \<and> n \<le> m \<and> m \<le> lst + 1 \<and>
    list_all (\<lambda>k. err k = None) (blocks_between n m) \<and> (m = lst + 1 \<or> err m \<noteq> None)"
  using assms(2)
proof (induction "unat lst + 1 - unat n" arbitrary: n s)
  case 0
  then have "n = lst + 1" using u64_unat_Suc [OF assms(1)] by (simp add: word_unat_eq_iff word_le_nat_alt)
  moreover from this have "\<not> n \<le> lst" using u64_unat_Suc [OF assms(1)] by (simp add: word_le_nat_alt)
  ultimately show ?case by (intro exI [of _ n]) (simp add: scan_from.simps)
next
  case (Suc d)
  then have nl: "unat n \<le> unat lst" by simp
  then have le: "n \<le> lst" by (simp add: word_le_nat_alt)
  have n: "n \<noteq> - 1" using nl assms(1) u64_unat_less [of lst] unat_u64_max by (auto simp: word_unat_eq_iff)
  have un: "unat (n + 1) = Suc (unat n)" by (rule u64_unat_Suc [OF n])
  obtain e s' where f: "f n s = (e, s')" by (cases "f n s")
  show ?case
  proof (cases "err n")
    case (Some x)
    then have "e = Some x" "s' = s" using assms(3,4) [of n s] f by simp_all
    then show ?thesis using le f Some Suc.prems by (intro exI [of _ n]) (simp add: scan_from.simps)
  next
    case None
    then have e: "e = None" using assms(3) [of n s] f by simp
    have p: "n + 1 \<le> lst + 1" using nl un u64_unat_Suc [OF assms(1)] by (simp add: word_le_nat_alt)
    have d: "d = unat lst + 1 - unat (n + 1)" using Suc.hyps(2) un by simp
    obtain m where m: "scan_from f lst (n + 1) (n + 1) s' = Some (m, fold (\<lambda>k s. snd (f k s)) (blocks_between (n + 1) m) s')"
      "n + 1 \<le> m" "m \<le> lst + 1" "list_all (\<lambda>k. err k = None) (blocks_between (n + 1) m)" "m = lst + 1 \<or> err m \<noteq> None"
      using Suc.hyps(1) [OF d p, of s'] by (elim exE conjE) (rule that)
    have lt: "n < m" using m(2) un by (simp add: word_le_nat_alt word_less_nat_alt)
    show ?thesis
      using m lt le f e None by (intro exI [of _ m]) (simp add: scan_from.simps [of f lst n n s] blocks_between_Cons less_imp_le)
  qed
qed

lemma poll_end_bound: "nxt \<le> chainHead \<Longrightarrow> poll_end chainHead nxt \<le> chainHead"
proof -
  assume le: "nxt \<le> chainHead"
  show ?thesis
  proof (cases "50 < chainHead - nxt + 1")
    case True
    then have nz: "chainHead - nxt \<noteq> - 1" by auto
    have u: "unat (chainHead - nxt) = unat chainHead - unat nxt" using le by (simp add: unat_sub)
    have "49 < unat (chainHead - nxt)" using True u64_unat_Suc [OF nz] by (simp add: word_less_nat_alt)
    then have b: "unat nxt + 49 \<le> unat chainHead" using u by simp
    have "unat (nxt + of_nat 49) = unat nxt + 49"
      using b u64_unat_less [of chainHead] by (intro u64_add_nat) simp
    moreover have "nxt + 50 - 1 = nxt + of_nat 49" by simp
    ultimately show ?thesis using b True by (simp add: poll_end_def word_le_nat_alt add.commute)
  qed (simp add: poll_end_def)
qed

text \<open>One scan of a block with the time and the answer it used.\<close>

type_synonym scan_record = "int \<times> (rpc_err + block option) \<times> u64"

definition apply_scan :: "(string \<Rightarrow> hash) \<Rightarrow> (hash \<Rightarrow> string) \<Rightarrow> int \<Rightarrow> scan_record \<Rightarrow> confirm_state \<Rightarrow> confirm_state" where
  "apply_scan hashOf hexOf cfgMs r s =
     (case r of (now, reply, n) \<Rightarrow> snd (scanBlockForConfirmations hashOf hexOf cfgMs now reply n s))"

lemma scan_error:
  "fst (scanBlockForConfirmations hashOf hexOf cfgMs now reply n s) = (case reply of Inl e \<Rightarrow> Some e | Inr _ \<Rightarrow> None)"
  "isl reply \<Longrightarrow> snd (scanBlockForConfirmations hashOf hexOf cfgMs now reply n s) = s"
  by (auto simp: scanBlockForConfirmations_def Let_def split: sum.split option.split)

lemma poll_tick_scans:
  assumes "reply \<noteq> Inr (- 1)"
  shows "\<exists>scans m. poll_tick reply (\<lambda>n. scanBlockForConfirmations hashOf hexOf cfgMs now (fetch n) n) (nxt, s) =
      Some (m, fold (apply_scan hashOf hexOf cfgMs) scans s) \<and> nxt \<le> m \<and> map (\<lambda>r. snd (snd r)) scans = blocks_between nxt m \<and>
      list_all (\<lambda>r. \<not> isl (fst (snd r))) scans"
proof -
  let ?f = "\<lambda>n. scanBlockForConfirmations hashOf hexOf cfgMs now (fetch n) n"
  let ?err = "\<lambda>n. case fetch n of Inl e \<Rightarrow> Some e | Inr _ \<Rightarrow> None"
  show ?thesis
  proof (cases "\<exists>h. reply = Inr h \<and> nxt \<le> h")
    case False
    then have "poll_tick reply ?f (nxt, s) = Some (nxt, s)" by (auto simp: poll_tick_def split: sum.split)
    then show ?thesis by (intro exI [of _ "[]"] exI [of _ nxt]) simp
  next
    case True
    then obtain h where h: "reply = Inr h" "nxt \<le> h" by blast
    let ?e = "poll_end h nxt"
    have e: "?e \<le> h" using poll_end_bound [OF h(2)] .
    have "h \<noteq> - 1" using assms h(1) by simp
    then have e1: "?e \<noteq> - 1" using e word_n1_ge [of h] by (auto simp: order_antisym)
    have "nxt \<le> ?e + 1"
    proof (cases "50 < h - nxt + 1")
      case True
      then have p: "?e + 1 = nxt + 50" by (simp add: poll_end_def)
      have nz: "h - nxt \<noteq> - 1" using True by auto
      have "49 < unat (h - nxt)" using True u64_unat_Suc [OF nz] by (simp add: word_less_nat_alt)
      then have "unat nxt + 50 < 2 ^ 64"
        using h(2) u64_unat_less [of h] \<open>h \<noteq> - 1\<close> unat_u64_max by (auto simp: unat_sub word_unat_eq_iff)
      then have "unat (nxt + of_nat 50) = unat nxt + 50" by (rule u64_add_nat)
      then show ?thesis unfolding p by (simp add: word_le_nat_alt)
    next
      case False
      then have "?e = h" by (simp add: poll_end_def)
      then show ?thesis using h(2) u64_unat_Suc [OF e1] by (simp add: word_le_nat_alt)
    qed
    then have "\<exists>m. scan_from ?f ?e nxt nxt s = Some (m, fold (\<lambda>k s. snd (?f k s)) (blocks_between nxt m) s) \<and> nxt \<le> m \<and>
        m \<le> ?e + 1 \<and> list_all (\<lambda>k. ?err k = None) (blocks_between nxt m) \<and> (m = ?e + 1 \<or> ?err m \<noteq> None)"
    proof (rule scan_from_pass [OF e1])
      show "fst (?f n s) = ?err n" for n s by (rule scan_error(1))
      show "snd (?f n s) = s" if "?err n \<noteq> None" for n s
        using that scan_error(2) [of "fetch n"] by (cases "fetch n") simp_all
    qed
    then obtain m where m: "scan_from ?f ?e nxt nxt s = Some (m, fold (\<lambda>k s. snd (?f k s)) (blocks_between nxt m) s)"
      "nxt \<le> m" "list_all (\<lambda>k. ?err k = None) (blocks_between nxt m)"
      by (elim exE conjE) (rule that)
    let ?scans = "map (\<lambda>k. (now, fetch k, k)) (blocks_between nxt m)"
    have g: "fold (apply_scan hashOf hexOf cfgMs) ?scans s = fold (\<lambda>k s. snd (?f k s)) (blocks_between nxt m) s"
      unfolding fold_map by (rule fold_cong) (simp_all add: apply_scan_def fun_eq_iff)
    show ?thesis
    proof (intro exI conjI)
      show "poll_tick reply ?f (nxt, s) = Some (m, fold (apply_scan hashOf hexOf cfgMs) ?scans s)"
        unfolding g m(1) [symmetric] using h(1) leD [OF h(2)] by (simp add: poll_tick_def)
      show "list_all (\<lambda>r. \<not> isl (fst (snd r))) ?scans"
        using m(3) by (simp add: list_all_iff sum.case_eq_if split: if_split_asm)
      show "map (\<lambda>r. snd (snd r)) ?scans = blocks_between nxt m" by (simp add: comp_def)
    qed (rule m(2))
  qed
qed

text \<open>
  C22: As long as no answer for the head is the largest 64-bit number, the poller never hangs: after
  any sequence of ticks, with failing lookups of heads and blocks in any of them, the state is the
  one obtained by scanning consecutive blocks from the start, each exactly once and in order, with
  an answer that was not an error, and the next block is the one after the last scanned.
\<close>
theorem poller_scans_each_block_once:
  assumes "list_all (\<lambda>tk. fst tk \<noteq> Inr (- 1)) ticks"
  shows "\<exists>scans m. connectChainPoller hashOf hexOf cfgMs ticks (nxt, s) = Some (m, fold (apply_scan hashOf hexOf cfgMs) scans s) \<and>
    nxt \<le> m \<and> map (\<lambda>r. snd (snd r)) scans = blocks_between nxt m \<and> list_all (\<lambda>r. \<not> isl (fst (snd r))) scans"
  using assms
proof (induction ticks arbitrary: nxt s)
  case Nil
  show ?case by (intro exI [of _ "[]"] exI [of _ nxt]) simp
next
  case (Cons tk ticks)
  obtain reply now fetch where tk: "tk = (reply, now, fetch)" by (cases tk)
  have r: "reply \<noteq> Inr (- 1)" "list_all (\<lambda>tk. fst tk \<noteq> Inr (- 1)) ticks" using Cons.prems by (simp_all add: tk)
  obtain scans1 m1 where
    s1: "poll_tick reply (\<lambda>n. scanBlockForConfirmations hashOf hexOf cfgMs now (fetch n) n) (nxt, s) =
      Some (m1, fold (apply_scan hashOf hexOf cfgMs) scans1 s)" "nxt \<le> m1"
      "map (\<lambda>r. snd (snd r)) scans1 = blocks_between nxt m1" "list_all (\<lambda>r. \<not> isl (fst (snd r))) scans1"
    using poll_tick_scans [OF r(1), of hashOf hexOf cfgMs now fetch nxt s] by (elim exE conjE) (rule that)
  obtain scans2 m2 where
    s2: "connectChainPoller hashOf hexOf cfgMs ticks (m1, fold (apply_scan hashOf hexOf cfgMs) scans1 s) =
      Some (m2, fold (apply_scan hashOf hexOf cfgMs) scans2 (fold (apply_scan hashOf hexOf cfgMs) scans1 s))" "m1 \<le> m2"
      "map (\<lambda>r. snd (snd r)) scans2 = blocks_between m1 m2" "list_all (\<lambda>r. \<not> isl (fst (snd r))) scans2"
    using Cons.IH [OF r(2), of m1 "fold (apply_scan hashOf hexOf cfgMs) scans1 s"] by (elim exE conjE) (rule that)
  have "map (\<lambda>r. snd (snd r)) (scans1 @ scans2) = blocks_between nxt m2"
    using s1(2,3) s2(2,3) by (simp add: blocks_between_append)
  moreover have "nxt \<le> m2" using s1(2) s2(2) by (rule order.trans)
  ultimately show ?case using s1 s2 by (intro exI [of _ "scans1 @ scans2"] exI [of _ m2]) (simp add: tk)
qed

theorem poller_scans_each_block_once_witness:
  "\<forall>s. \<exists>scans m. connectChainPoller length (\<lambda>_. '''') 1000 [(Inr 12, 0, \<lambda>n. if n = 11 then Inl CtxErr else Inr None)] (10, s) =
      Some (m, fold (apply_scan length (\<lambda>_. '''') 1000) scans s) \<and>
    10 \<le> m \<and> map (\<lambda>r. snd (snd r)) scans = blocks_between 10 m \<and> list_all (\<lambda>r. \<not> isl (fst (snd r))) scans"
  by (intro allI poller_scans_each_block_once) simp

section \<open>What a scan confirms\<close>

lemma tracker_of_confirmation [simp]:
  "txTracker (metricsCol (record_confirmation b h t s)) = snd (GetAndDelete h (txTracker (metricsCol s)))"
  by (simp add: record_confirmation_def Let_def recordTxConfirmed_def sub_pending_def RecordTxConfirmed_def
      RecordTxConfirmedFlowOnly_def GetAndDelete_def split: option.split)

lemma tracker_of_scan_tx:
  "txTracker (metricsCol (scan_tx hashOf hexOf now b x s)) =
     (if Get (hashOf x) (txTracker (metricsCol s)) = None then txTracker (metricsCol s)
      else snd (GetAndDelete (hashOf x) (txTracker (metricsCol s))))"
  by (simp add: scan_tx_def Let_def GetTxSentTime_def note_recent_hash_def)

lemma counts_of_confirmation:
  "lg_pendingCount (record_confirmation b h t s) = sub_new 1 (lg_pendingCount s)"
  "txConfirmed (metricsCol (record_confirmation b h t s)) =
     txConfirmed (metricsCol s) + (if \<not> b \<and> Get h (txTracker (metricsCol s)) \<noteq> None then 1 else 0)"
  by (simp_all add: record_confirmation_def Let_def recordTxConfirmed_def sub_pending_def RecordTxConfirmed_def
      RecordTxConfirmedFlowOnly_def GetAndDelete_def Get_def split: option.split)

definition tracked :: "confirm_state \<Rightarrow> hash set" where
  "tracked s = map_keys (times (txTracker (metricsCol s)))"

definition pending_covers :: "confirm_state \<Rightarrow> bool" where
  "pending_covers s \<longleftrightarrow> tracker_inv (txTracker (metricsCol s)) \<and> is_i64 (lg_pendingCount s) \<and>
     int (Size (txTracker (metricsCol s))) \<le> lg_pendingCount s"

lemma scan_tx_accounting:
  assumes "pending_covers s"
  shows "pending_covers (scan_tx hashOf hexOf now b x s) \<and> tracked (scan_tx hashOf hexOf now b x s) = tracked s - {hashOf x} \<and>
    lg_pendingCount (scan_tx hashOf hexOf now b x s) - int (Size (txTracker (metricsCol (scan_tx hashOf hexOf now b x s)))) =
      lg_pendingCount s - int (Size (txTracker (metricsCol s))) \<and>
    txConfirmed (metricsCol (scan_tx hashOf hexOf now b x s)) +
        (if b then 0 else Size (txTracker (metricsCol (scan_tx hashOf hexOf now b x s)))) =
      txConfirmed (metricsCol s) + (if b then 0 else Size (txTracker (metricsCol s)))"
proof (cases "Get (hashOf x) (txTracker (metricsCol s)) = None")
  case True
  then have e: "scan_tx hashOf hexOf now b x s = s" by (simp add: scan_tx_def GetTxSentTime_def)
  have "hashOf x \<notin> tracked s" using True by (simp add: tracked_def map_keys_get Get_def)
  then show ?thesis unfolding e using assms by simp
next
  case False
  let ?t = "txTracker (metricsCol s)" and ?s = "scan_tx hashOf hexOf now b x s"
  have inv: "tracker_inv ?t" "is_i64 (lg_pendingCount s)" "int (Size ?t) \<le> lg_pendingCount s"
    using assms by (simp_all add: pending_covers_def)
  have pos: "0 < Size ?t" using Get_pos_size [OF inv(1) False] .
  have t: "txTracker (metricsCol ?s) = snd (GetAndDelete (hashOf x) ?t)" by (simp only: tracker_of_scan_tx False if_False)
  have sz: "Size (txTracker (metricsCol ?s)) = Size ?t - 1" unfolding t GetAndDelete_size [OF inv(1)] by (simp only: False if_False)
  have i: "is_i64 (lg_pendingCount s - 1)" using inv(2,3) pos by (simp add: is_i64_def)
  then have "sub_new 1 (lg_pendingCount s) = lg_pendingCount s - 1" using inv(3) pos by (simp add: sub_new_def)
  then have p: "lg_pendingCount ?s = lg_pendingCount s - 1"
    using False by (simp add: scan_tx_def Let_def GetTxSentTime_def note_recent_hash_def counts_of_confirmation)
  have c: "txConfirmed (metricsCol ?s) = txConfirmed (metricsCol s) + (if b then 0 else 1)"
    using False by (auto simp: scan_tx_def Let_def GetTxSentTime_def note_recent_hash_def counts_of_confirmation)
  have k: "tracked ?s = tracked s - {hashOf x}" by (simp add: tracked_def t GetAndDelete_def)
  have "tracker_inv (txTracker (metricsCol ?s))" using GetAndDelete_inv [OF inv(1)] by (simp add: t)
  then show ?thesis using inv pos sz p c k i by (cases b) (simp_all add: pending_covers_def)
qed

lemma scan_txs_accounting:
  assumes "pending_covers s"
  shows "pending_covers (fold (scan_tx hashOf hexOf now b) xs s) \<and>
    tracked (fold (scan_tx hashOf hexOf now b) xs s) = tracked s - hashOf ` set xs \<and>
    lg_pendingCount (fold (scan_tx hashOf hexOf now b) xs s) -
        int (Size (txTracker (metricsCol (fold (scan_tx hashOf hexOf now b) xs s)))) =
      lg_pendingCount s - int (Size (txTracker (metricsCol s))) \<and>
    txConfirmed (metricsCol (fold (scan_tx hashOf hexOf now b) xs s)) +
        (if b then 0 else Size (txTracker (metricsCol (fold (scan_tx hashOf hexOf now b) xs s)))) =
      txConfirmed (metricsCol s) + (if b then 0 else Size (txTracker (metricsCol s)))"
  using assms
proof (induction xs arbitrary: s)
  case (Cons x xs)
  let ?s = "scan_tx hashOf hexOf now b x s"
  have st: "pending_covers ?s" "tracked ?s = tracked s - {hashOf x}"
    "lg_pendingCount ?s - int (Size (txTracker (metricsCol ?s))) = lg_pendingCount s - int (Size (txTracker (metricsCol s)))"
    "txConfirmed (metricsCol ?s) + (if b then 0 else Size (txTracker (metricsCol ?s))) =
      txConfirmed (metricsCol s) + (if b then 0 else Size (txTracker (metricsCol s)))"
    using scan_tx_accounting [OF Cons.prems, of hashOf hexOf now b x] by blast+
  have "tracked s - {hashOf x} - hashOf ` set xs = tracked s - hashOf ` set (x # xs)" by auto
  then show ?case using Cons.IH [OF st(1)] unfolding fold_Cons comp_def st(2-4) by simp
qed simp


text \<open>The websocket path has no such check: a confirmation that is delivered twice lowers the counter twice.\<close>

lemma repeated_confirmation_decrements_twice:
  assumes "2 \<le> lg_pendingCount s" "is_i64 (lg_pendingCount s)" "pe_Status ev = PreconfStageConfirmed" "pe_TxHash ev \<noteq> ''''"
  shows "lg_pendingCount (processPreconfEvent hashOf t2 (Some ev) (processPreconfEvent hashOf t1 (Some ev) s)) =
    lg_pendingCount s - 2"
proof -
  have p: "lg_pendingCount (processPreconfEvent hashOf t (Some ev) u) = sub_new 1 (lg_pendingCount u)" for t u
    using assms(3,4) by (simp add: processPreconfEvent_def preconf_stages Let_def note_recent_hash_def note_recent_block_def
        counts_of_confirmation)
  have "is_i64 (lg_pendingCount s - 1)" "is_i64 (lg_pendingCount s - 2)" using assms(1,2) by (simp_all add: is_i64_def)
  then show ?thesis using assms(1) unfolding p by (simp add: sub_new_def Let_def)
qed

definition example_confirm :: confirm_state where
  "example_confirm =
     \<lparr>metricsCol = NewMemoryCollector\<lparr>txTracker := (NewTxTrackerWithSize 4 2)
        \<lparr>times := [(3, 50), (7, 60)], insertOrder := [3, 7, 0, 0], head := 2\<rparr>\<rparr>,
      lg_pendingCount = 2, lg_recentSends = 0, lg_recentFails = 0, lg_recentRevocations = 0, txLoggingEnabled = False,
      pendingTxs = [], txLogBuf = [], preconfLatencies = NewStreamingLatencyStats, recentConfirmedHashes = [],
      blockState = \<lparr>blockMetrics = [], cumulativeGasUsed = 0, cumulativeGasLimit = 0, totalBlockCount = 0,
        firstBlockNumber = 0, lastBlockNumber = 0, lastRecordedBlock = 0, rpcLastBlockNumber = 0, testStartBlockNumber = 4,
        testEndBlockNumber = 9, lastBlockTime = None, lastBlockInterval = 0, rollingGasWindow = [], rollingTxWindow = [],
        lastMgasPerSec = 0, lastTxPerSec = 0, peakMgasPerSec = 0, peakRate = 0, recentBlockNumbers = []\<rparr>,
      lastPreconfSeqNum = 0, preconfGaps = 0\<rparr>"

definition example_mined :: block where
  "example_mined = \<lparr>bk_Number = 5, bk_Hash = ''0x5'', bk_Transactions = [''0xa'', ''0xabc'', ''0xa''],
     bk_BaseFeePerGas = ''0x7'', bk_GasUsed = 21000, bk_GasLimit = 30000000, bk_Timestamp = 100, bk_TxCount = 3\<rparr>"


end
