(* ===== verification/Abi.thy ===== *)
theory Abi
  imports Prelude "HOL-Library.Monad_Syntax" "HOL-Library.Char_ord" "HOL-Library.List_Lexorder"
begin

text \<open>
  The call data of the contracts the load generator uses: the encoders of \<open>internal/txbuilder\<close>
  (\<open>erc20.go\<close>, \<open>erc721.go\<close>, \<open>storage.go\<close>, \<open>compute.go\<close>) and of \<open>internal/uniswapv3/abi.go\<close>.  They
  write into byte slices at computed offsets.  An address is a 160-bit word, a \<open>big.Int\<close> an integer;
  the hash function and the checksummed text of an address belong to the Ethereum library and are the
  parameters \<open>keccak\<close> and \<open>hexOf\<close>.  The reading side is the contract ABI: a call is a selector and
  a list of 32-byte arguments.
\<close>

type_synonym address = "160 word"

section \<open>Byte slices\<close>

text \<open>The last \<open>k\<close> bytes of the big-endian representation of a number.\<close>

fun be_bytes :: "nat \<Rightarrow> nat \<Rightarrow> bytes" where
  "be_bytes 0 v = []"
| "be_bytes (Suc k) v = of_nat (v div 256 ^ k) # be_bytes k v"

fun be_value :: "bytes \<Rightarrow> nat" where
  "be_value [] = 0"
| "be_value (b # bs) = unat b * 256 ^ length bs + be_value bs"

definition address_Bytes :: "address \<Rightarrow> bytes" where
  "address_Bytes a = be_bytes 20 (unat a)"

text \<open>\<open>copy(data[off:], src)\<close> and \<open>v.FillBytes(data[off:off+k])\<close>, which panics when the absolute value is too large.\<close>

definition copy_at :: "nat \<Rightarrow> bytes \<Rightarrow> bytes \<Rightarrow> bytes" where
  "copy_at off src data = take off data @ take (length data - off) src @ drop (off + length src) data"

definition fill_at :: "nat \<Rightarrow> nat \<Rightarrow> int \<Rightarrow> bytes \<Rightarrow> bytes option" where
  "fill_at off k v data =
     (if nat \<bar>v\<bar> < 256 ^ k then Some (copy_at off (be_bytes k (nat \<bar>v\<bar>)) data) else None)"

section \<open>Encoders of the transaction builders\<close>

definition erc20TransferSelector :: bytes where "erc20TransferSelector = [0xa9, 0x05, 0x9c, 0xbb]"
definition erc20ApproveSelector :: bytes where "erc20ApproveSelector = [0x09, 0x5e, 0xa7, 0xb3]"
definition erc721TransferFromSelector :: bytes where "erc721TransferFromSelector = [0x23, 0xb8, 0x72, 0xdd]"
definition erc721MintSelector :: bytes where "erc721MintSelector = [0x40, 0xc1, 0x0f, 0x19]"
definition storageWriteSelector :: bytes where "storageWriteSelector = [0x60, 0x57, 0x36, 0x1d]"
definition heavyComputeSelector :: bytes where "heavyComputeSelector = [0xa3, 0x29, 0xe8, 0xde]"

lemma length_selectors [simp]:
  "length erc20TransferSelector = 4" "length erc20ApproveSelector = 4" "length erc721TransferFromSelector = 4"
  "length erc721MintSelector = 4" "length storageWriteSelector = 4" "length heavyComputeSelector = 4"
  by (simp_all add: erc20TransferSelector_def erc20ApproveSelector_def erc721TransferFromSelector_def
      erc721MintSelector_def storageWriteSelector_def heavyComputeSelector_def)

definition encodeERC20Transfer :: "address \<Rightarrow> int \<Rightarrow> bytes option" where
  "encodeERC20Transfer to amount =
     (if amount < 0 then None
      else let data = replicate (4 + 32 + 32) 0; data = copy_at 0 erc20TransferSelector data;
               data = copy_at (4 + 12) (address_Bytes to) data
           in fill_at (4 + 32) 32 amount data)"

definition encodeERC20Approve :: "address \<Rightarrow> int \<Rightarrow> bytes option" where
  "encodeERC20Approve spender amount =
     (if amount < 0 then None
      else let data = replicate (4 + 32 + 32) 0; data = copy_at 0 erc20ApproveSelector data;
               data = copy_at (4 + 12) (address_Bytes spender) data
           in fill_at (4 + 32) 32 amount data)"

definition encodeERC721Mint :: "address \<Rightarrow> int \<Rightarrow> bytes option" where
  "encodeERC721Mint to tokenID =
     (if tokenID < 0 then None
      else let data = replicate (4 + 32 + 32) 0; data = copy_at 0 erc721MintSelector data;
               data = copy_at (4 + 12) (address_Bytes to) data
           in fill_at (4 + 32) 32 tokenID data)"

definition encodeERC721TransferFrom :: "address \<Rightarrow> address \<Rightarrow> int \<Rightarrow> bytes option" where
  "encodeERC721TransferFrom frm to tokenID =
     (if tokenID < 0 then None
      else let data = replicate (4 + 32 + 32 + 32) 0; data = copy_at 0 erc721TransferFromSelector data;
               data = copy_at (4 + 12) (address_Bytes frm) data; data = copy_at (4 + 32 + 12) (address_Bytes to) data
           in fill_at (4 + 64) 32 tokenID data)"

definition encodeStorageWrite :: "int \<Rightarrow> bytes option" where
  "encodeStorageWrite v =
     (if v < 0 then None else fill_at 4 32 v (copy_at 0 storageWriteSelector (replicate (4 + 32) 0)))"

definition encodeHeavyCompute :: "int \<Rightarrow> bytes option" where
  "encodeHeavyCompute iterations = fill_at 4 32 iterations (copy_at 0 heavyComputeSelector (replicate (4 + 32) 0))"

section \<open>Encoders of the Uniswap calls\<close>

definition sig_bytes :: "string \<Rightarrow> bytes" where
  "sig_bytes s = map (\<lambda>c. of_nat (of_char c)) s"

definition selector :: "(bytes \<Rightarrow> bytes) \<Rightarrow> string \<Rightarrow> bytes" where
  "selector keccak sig = take 4 (keccak (sig_bytes sig))"

definition EncodeDeposit :: "(bytes \<Rightarrow> bytes) \<Rightarrow> bytes" where
  "EncodeDeposit keccak = selector keccak ''deposit()''"

definition EncodeWithdraw :: "(bytes \<Rightarrow> bytes) \<Rightarrow> int \<Rightarrow> bytes option" where
  "EncodeWithdraw keccak amount =
     fill_at 4 32 amount (copy_at 0 (selector keccak ''withdraw(uint256)'') (replicate (4 + 32) 0))"

text \<open>The four calls with an address and an amount differ in their selector only.\<close>

definition encode_address_amount :: "bytes \<Rightarrow> address \<Rightarrow> int \<Rightarrow> bytes option" where
  "encode_address_amount sel a amount =
     fill_at 36 32 amount (copy_at (4 + 12) (address_Bytes a) (copy_at 0 sel (replicate (4 + 32 + 32) 0)))"

definition EncodeApprove :: "(bytes \<Rightarrow> bytes) \<Rightarrow> address \<Rightarrow> int \<Rightarrow> bytes option" where
  "EncodeApprove keccak = encode_address_amount (selector keccak ''approve(address,uint256)'')"

definition EncodeTransfer :: "(bytes \<Rightarrow> bytes) \<Rightarrow> address \<Rightarrow> int \<Rightarrow> bytes option" where
  "EncodeTransfer keccak = encode_address_amount (selector keccak ''transfer(address,uint256)'')"

definition EncodeMint :: "(bytes \<Rightarrow> bytes) \<Rightarrow> address \<Rightarrow> int \<Rightarrow> bytes option" where
  "EncodeMint keccak = encode_address_amount (selector keccak ''mint(address,uint256)'')"

definition EncodeBurn :: "(bytes \<Rightarrow> bytes) \<Rightarrow> address \<Rightarrow> int \<Rightarrow> bytes option" where
  "EncodeBurn keccak = encode_address_amount (selector keccak ''burn(address,uint256)'')"

definition EncodeBalanceOf :: "(bytes \<Rightarrow> bytes) \<Rightarrow> address \<Rightarrow> bytes" where
  "EncodeBalanceOf keccak a =
     copy_at (4 + 12) (address_Bytes a) (copy_at 0 (selector keccak ''balanceOf(address)'') (replicate (4 + 32) 0))"

definition EncodeAllowance :: "(bytes \<Rightarrow> bytes) \<Rightarrow> address \<Rightarrow> address \<Rightarrow> bytes" where
  "EncodeAllowance keccak owner spender =
     copy_at (36 + 12) (address_Bytes spender) (copy_at (4 + 12) (address_Bytes owner)
       (copy_at 0 (selector keccak ''allowance(address,address)'') (replicate (4 + 32 + 32) 0)))"

definition encode_pool_call :: "bytes \<Rightarrow> address \<Rightarrow> address \<Rightarrow> 32 word \<Rightarrow> bytes option" where
  "encode_pool_call sel tokenA tokenB fee =
     fill_at 68 32 (uint fee) (copy_at (36 + 12) (address_Bytes tokenB)
       (copy_at (4 + 12) (address_Bytes tokenA) (copy_at 0 sel (replicate (4 + 32 + 32 + 32) 0))))"

definition EncodeCreatePool :: "(bytes \<Rightarrow> bytes) \<Rightarrow> address \<Rightarrow> address \<Rightarrow> 32 word \<Rightarrow> bytes option" where
  "EncodeCreatePool keccak = encode_pool_call (selector keccak ''createPool(address,address,uint24)'')"

definition EncodeGetPool :: "(bytes \<Rightarrow> bytes) \<Rightarrow> address \<Rightarrow> address \<Rightarrow> 32 word \<Rightarrow> bytes option" where
  "EncodeGetPool keccak = encode_pool_call (selector keccak ''getPool(address,address,uint24)'')"

definition EncodeInitialize :: "(bytes \<Rightarrow> bytes) \<Rightarrow> int \<Rightarrow> bytes option" where
  "EncodeInitialize keccak sqrtPriceX96 =
     fill_at 4 32 sqrtPriceX96 (copy_at 0 (selector keccak ''initialize(uint160)'') (replicate (4 + 32) 0))"

record exact_input_single_params =
  ei_TokenIn :: address
  ei_TokenOut :: address
  ei_Fee :: "32 word"
  ei_Recipient :: address
  ei_Deadline :: int
  ei_AmountIn :: int
  ei_AmountOutMinimum :: int
  ei_SqrtPriceLimitX96 :: "int option"

definition EncodeExactInputSingle :: "(bytes \<Rightarrow> bytes) \<Rightarrow> exact_input_single_params \<Rightarrow> bytes option" where
  "EncodeExactInputSingle keccak p =
     do { let data = replicate (4 + 8 * 32) 0;
          let data = copy_at 0 (selector keccak
            ''exactInputSingle((address,address,uint24,address,uint256,uint256,uint256,uint160))'') data;
          let data = copy_at (4 + 12) (address_Bytes (ei_TokenIn p)) data;
          let data = copy_at (36 + 12) (address_Bytes (ei_TokenOut p)) data;
          data \<leftarrow> fill_at 68 32 (uint (ei_Fee p)) data;
          let data = copy_at (100 + 12) (address_Bytes (ei_Recipient p)) data;
          data \<leftarrow> fill_at 132 32 (ei_Deadline p) data;
          data \<leftarrow> fill_at 164 32 (ei_AmountIn p) data;
          data \<leftarrow> fill_at 196 32 (ei_AmountOutMinimum p) data;
          case ei_SqrtPriceLimitX96 p of None \<Rightarrow> Some data | Some v \<Rightarrow> fill_at 228 32 v data }"

record mint_params =
  mp_Token0 :: address
  mp_Token1 :: address
  mp_Fee :: "32 word"
  mp_TickLower :: "32 word"
  mp_TickUpper :: "32 word"
  mp_Amount0Desired :: int
  mp_Amount1Desired :: int
  mp_Amount0Min :: int
  mp_Amount1Min :: int
  mp_Recipient :: address
  mp_Deadline :: int

text \<open>An \<open>int32\<close> tick as a 256-bit two's complement number.\<close>

definition tick_word :: "32 word \<Rightarrow> int" where
  "tick_word t = (if sint t < 0 then sint t + 2 ^ 256 else sint t)"

definition EncodeMintPosition :: "(bytes \<Rightarrow> bytes) \<Rightarrow> mint_params \<Rightarrow> bytes option" where
  "EncodeMintPosition keccak p =
     do { let data = replicate (4 + 11 * 32) 0;
          let data = copy_at 0 (selector keccak
            ''mint((address,address,uint24,int24,int24,uint256,uint256,uint256,uint256,address,uint256))'') data;
          let data = copy_at (4 + 12) (address_Bytes (mp_Token0 p)) data;
          let data = copy_at (36 + 12) (address_Bytes (mp_Token1 p)) data;
          data \<leftarrow> fill_at 68 32 (uint (mp_Fee p)) data;
          data \<leftarrow> fill_at 100 32 (tick_word (mp_TickLower p)) data;
          data \<leftarrow> fill_at 132 32 (tick_word (mp_TickUpper p)) data;
          data \<leftarrow> fill_at 164 32 (mp_Amount0Desired p) data;
          data \<leftarrow> fill_at 196 32 (mp_Amount1Desired p) data;
          data \<leftarrow> fill_at 228 32 (mp_Amount0Min p) data;
          data \<leftarrow> fill_at 260 32 (mp_Amount1Min p) data;
          let data = copy_at (292 + 12) (address_Bytes (mp_Recipient p)) data;
          fill_at 324 32 (mp_Deadline p) data }"

text \<open>Tokens are ordered by their checksummed text.\<close>

definition SortTokens :: "(address \<Rightarrow> string) \<Rightarrow> address \<Rightarrow> address \<Rightarrow> address \<times> address" where
  "SortTokens hexOf tokenA tokenB = (if hexOf tokenA < hexOf tokenB then (tokenA, tokenB) else (tokenB, tokenA))"

section \<open>Reading bytes back\<close>

lemma length_be_bytes [simp]: "length (be_bytes k v) = k"
  by (induction k) simp_all

lemma be_value_be_bytes: "be_value (be_bytes k v) = v mod 256 ^ k"
proof (induction k)
  case (Suc k)
  have "unat (of_nat (v div 256 ^ k) :: 8 word) = v div 256 ^ k mod 256" by (simp add: unat_of_nat)
  moreover have "v mod (256 ^ k * 256) = 256 ^ k * (v div 256 ^ k mod 256) + v mod 256 ^ k"
    by (rule mod_mult2_eq)
  ultimately show ?case using Suc by (simp add: mult.commute)
qed simp

lemma be_value_append: "be_value (xs @ ys) = be_value xs * 256 ^ length ys + be_value ys"
  by (induction xs) (simp_all add: power_add algebra_simps)

lemma be_value_zeros [simp]: "be_value (replicate k 0) = 0"
  by (induction k) simp_all

text \<open>The encoders fill a zeroed slice from left to right: what is written so far is followed by zeros.\<close>

lemma length_address_Bytes [simp]: "length (address_Bytes a) = 20"
  by (simp add: address_Bytes_def)

lemma be_bytes_pad: "v < 256 ^ k \<Longrightarrow> be_bytes (j + k) v = replicate j 0 @ be_bytes k v"
proof (induction j)
  case (Suc j)
  have "256 ^ k \<le> (256 :: nat) ^ (j + k)" by (rule power_increasing) simp_all
  then have "v < 256 ^ (j + k)" using Suc.prems by (rule order.strict_trans2 [rotated])
  then have "v div 256 ^ (j + k) = 0" by (rule div_less)
  then show ?case using Suc by simp
qed simp

lemma address_word: "replicate 12 0 @ address_Bytes a = be_bytes 32 (unat a)"
proof -
  have "unat a < 2 ^ 160" by (rule order_less_le_trans [OF unsigned_less]) simp
  then have "be_bytes (12 + 20) (unat a) = replicate 12 0 @ be_bytes 20 (unat a)" by (intro be_bytes_pad) simp
  then show ?thesis by (simp only: address_Bytes_def) simp
qed

lemma copy_append:
  assumes "length ys \<le> r" shows "copy_at (length xs) ys (xs @ replicate r 0) = (xs @ ys) @ replicate (r - length ys) 0"
  using assms by (simp add: copy_at_def)

lemma copy_selector: "length sel = 4 \<Longrightarrow> 4 \<le> r \<Longrightarrow> copy_at 0 sel (replicate r 0) = sel @ replicate (r - 4) 0"
  using copy_append [of sel r "[]"] by simp

lemma copy_address:
  assumes "off = length xs + 12" "32 \<le> r"
  shows "copy_at off (address_Bytes a) (xs @ replicate r 0) = (xs @ be_bytes 32 (unat a)) @ replicate (r - 32) 0"
proof -
  have "replicate r (0 :: 8 word) = replicate 12 0 @ replicate (r - 12) 0"
    using assms(2) by (simp add: replicate_add [symmetric])
  then have "copy_at off (address_Bytes a) (xs @ replicate r 0) =
      copy_at (length (xs @ replicate 12 0)) (address_Bytes a) ((xs @ replicate 12 0) @ replicate (r - 12) 0)"
    by (simp add: assms(1))
  also have "\<dots> = (xs @ be_bytes 32 (unat a)) @ replicate (r - 32) 0"
    using assms(2) by (subst copy_append) (simp_all add: address_word [symmetric])
  finally show ?thesis .
qed

definition u256 :: "int \<Rightarrow> bool" where
  "u256 v \<longleftrightarrow> 0 \<le> v \<and> v < 2 ^ 256"

lemma fill_word:
  assumes "off = length xs" "32 \<le> r" "u256 v"
  shows "fill_at off 32 v (xs @ replicate r 0) = Some ((xs @ be_bytes 32 (nat v)) @ replicate (r - 32) 0)"
proof -
  have "nat v < 256 ^ 32" using assms(3) by (simp add: u256_def nat_less_iff)
  then show ?thesis using assms copy_append [of "be_bytes 32 (nat v)" r xs] by (simp add: fill_at_def u256_def)
qed

lemma u256_not_neg: "u256 v \<Longrightarrow> \<not> v < 0"
  by (simp add: u256_def)

lemma u256_uint32 [simp]: "u256 (uint (w :: 32 word))"
  using uint_lt2p [of w] by (simp add: u256_def)

section \<open>Every call decodes to its arguments\<close>

text \<open>A call in the layout of the contract ABI, and how a contract reads it.\<close>

definition abi_call :: "bytes \<Rightarrow> nat list \<Rightarrow> bytes" where
  "abi_call sel args = sel @ concat (map (be_bytes 32) args)"

definition arg_at :: "nat \<Rightarrow> bytes \<Rightarrow> nat" where
  "arg_at i data = be_value (take 32 (drop (4 + 32 * i) data))"

definition decode_call :: "nat \<Rightarrow> bytes \<Rightarrow> (bytes \<times> nat list) option" where
  "decode_call n data =
     (if length data = 4 + 32 * n then Some (take 4 data, map (\<lambda>i. arg_at i data) [0..<n]) else None)"

lemma drop_words: "i \<le> length args \<Longrightarrow> drop (32 * i) (concat (map (be_bytes 32) args)) = concat (map (be_bytes 32) (drop i args))"
proof (induction i arbitrary: args)
  case (Suc i)
  then obtain v vs where "args = v # vs" by (cases args) auto
  then show ?case using Suc by simp
qed simp

lemma length_words: "length (concat (map (be_bytes 32) args)) = 32 * length args"
  by (induction args) simp_all

definition is_word :: "nat \<Rightarrow> bool" where
  "is_word v \<longleftrightarrow> v < 256 ^ 32"

lemma decode_abi_call:
  assumes "length sel = 4" "n = length args" "list_all is_word args"
  shows "decode_call n (abi_call sel args) = Some (sel, args)"
proof -
  have "arg_at i (abi_call sel args) = args ! i" if "i < length args" for i
  proof -
    have "drop (4 + 32 * i) (abi_call sel args) = be_bytes 32 (args ! i) @ concat (map (be_bytes 32) (drop (Suc i) args))"
      using that assms(1) drop_words [of i args] by (simp add: abi_call_def Cons_nth_drop_Suc [symmetric])
    then have "arg_at i (abi_call sel args) = args ! i mod 256 ^ 32"
      by (simp add: arg_at_def be_value_be_bytes)
    also have "args ! i < 256 ^ 32" using that assms(3) by (simp add: list_all_length is_word_def)
    then have "args ! i mod 256 ^ 32 = args ! i" by (rule mod_less)
    finally show ?thesis .
  qed
  then have "map (\<lambda>i. arg_at i (abi_call sel args)) [0..<n] = args"
    using assms(2) by (intro nth_equalityI) simp_all
  moreover have "length (abi_call sel args) = 4 + 32 * n" using assms(1,2) by (simp add: abi_call_def length_words)
  moreover have "take 4 (abi_call sel args) = sel" using assms(1) by (simp add: abi_call_def)
  ultimately show ?thesis by (simp add: decode_call_def)
qed

lemma u256_word: "u256 v \<Longrightarrow> is_word (nat v)"
  by (simp add: is_word_def u256_def nat_less_iff)

lemma address_is_word: "is_word (unat (a :: address))"
  unfolding is_word_def by (rule order_less_le_trans [OF unsigned_less]) simp

lemma u32_word: "is_word (unat (w :: 32 word))"
  unfolding is_word_def by (rule order_less_le_trans [OF unsigned_less]) simp

lemmas abi_words = u256_word address_is_word u32_word

lemmas abi_writes = copy_selector copy_address fill_word abi_call_def u256_not_neg append_assoc [symmetric]

lemma builder_calls:
  assumes "u256 v"
  shows "encodeERC20Transfer a v = Some (abi_call erc20TransferSelector [unat a, nat v])"
    "encodeERC20Approve a v = Some (abi_call erc20ApproveSelector [unat a, nat v])"
    "encodeERC721Mint a v = Some (abi_call erc721MintSelector [unat a, nat v])"
    "encodeERC721TransferFrom a b v = Some (abi_call erc721TransferFromSelector [unat a, unat b, nat v])"
    "encodeStorageWrite v = Some (abi_call storageWriteSelector [nat v])"
    "encodeHeavyCompute v = Some (abi_call heavyComputeSelector [nat v])"
  using assms
  by (simp_all add: encodeERC20Transfer_def encodeERC20Approve_def encodeERC721Mint_def encodeERC721TransferFrom_def
      encodeStorageWrite_def encodeHeavyCompute_def Let_def abi_writes del: append_assoc)

lemma erc20_transfer_decodes:
  "u256 v \<Longrightarrow> encodeERC20Transfer a v = Some data \<Longrightarrow> decode_call 2 data = Some (erc20TransferSelector, [unat a, nat v])"
  by (simp add: builder_calls) (auto simp: decode_abi_call abi_words)

text \<open>
  C23: Every call the transaction builders encode has the layout the contract ABI prescribes: for amounts
  and token ids that are unsigned 256-bit numbers the call data decode to the selector and exactly the
  encoded arguments.
\<close>
theorem builder_calls_decode:
  assumes "u256 v"
  shows "Option.bind (encodeERC20Transfer a v) (decode_call 2) = Some (erc20TransferSelector, [unat a, nat v]) \<and>
    Option.bind (encodeERC20Approve a v) (decode_call 2) = Some (erc20ApproveSelector, [unat a, nat v]) \<and>
    Option.bind (encodeERC721Mint a v) (decode_call 2) = Some (erc721MintSelector, [unat a, nat v]) \<and>
    Option.bind (encodeERC721TransferFrom a b v) (decode_call 3) = Some (erc721TransferFromSelector, [unat a, unat b, nat v]) \<and>
    Option.bind (encodeStorageWrite v) (decode_call 1) = Some (storageWriteSelector, [nat v]) \<and>
    Option.bind (encodeHeavyCompute v) (decode_call 1) = Some (heavyComputeSelector, [nat v])"
  using assms by (simp add: builder_calls decode_abi_call abi_words)

theorem builder_calls_decode_witness:
  "Option.bind (encodeERC20Transfer 0xdeadbeef 1000) (decode_call 2) = Some (erc20TransferSelector, [0xdeadbeef, 1000])"
proof -
  have "u256 1000" by (simp add: u256_def)
  then show ?thesis using builder_calls_decode [of 1000 "0xdeadbeef" 0] by simp
qed

lemma u256_tick [simp]: "u256 (tick_word t)"
  using sint_lt [of t] sint_ge [of t] by (simp add: u256_def tick_word_def)

lemma tick_word_signed: "sint (of_int (tick_word t) :: 256 word) = sint t"
proof -
  have "(of_int (tick_word t) :: 256 word) = of_int (sint t)"
  proof (cases "sint t < 0")
    case True
    have "(of_int (sint t + 2 ^ 256) :: 256 word) = of_int (sint t) + of_int (2 ^ 256)" by (rule of_int_add)
    also have "(of_int (2 ^ 256) :: 256 word) = 0" by simp
    finally show ?thesis using True by (simp add: tick_word_def)
  qed (simp add: tick_word_def)
  moreover have "sint (of_int (sint t) :: 256 word) = sint t"
    using sint_lt [of t] sint_ge [of t] by (intro signed_take_bit_int_eq_self [THEN trans [OF sint_sbintrunc']]) simp_all
  ultimately show ?thesis by simp
qed

lemma length_selector [simp]: "(\<And>x. length (keccak x) = 32) \<Longrightarrow> length (selector keccak s) = 4"
  by (simp add: selector_def)

lemma token_calls:
  assumes "\<And>x. length (keccak x) = 32" "u256 v"
  shows "encode_address_amount (selector keccak s) a v = Some (abi_call (selector keccak s) [unat a, nat v])"
    "encode_pool_call (selector keccak s) a b fee = Some (abi_call (selector keccak s) [unat a, unat b, unat fee])"
    "EncodeBalanceOf keccak a = abi_call (selector keccak ''balanceOf(address)'') [unat a]"
    "EncodeAllowance keccak a b = abi_call (selector keccak ''allowance(address,address)'') [unat a, unat b]"
    "EncodeWithdraw keccak v = Some (abi_call (selector keccak ''withdraw(uint256)'') [nat v])"
    "EncodeInitialize keccak v = Some (abi_call (selector keccak ''initialize(uint160)'') [nat v])"
  using assms
  by (simp_all add: encode_address_amount_def encode_pool_call_def EncodeBalanceOf_def EncodeAllowance_def EncodeWithdraw_def
      EncodeInitialize_def abi_writes del: append_assoc)

definition swap_args :: "exact_input_single_params \<Rightarrow> int list" where
  "swap_args p = [uint (ei_TokenIn p), uint (ei_TokenOut p), uint (ei_Fee p), uint (ei_Recipient p), ei_Deadline p, ei_AmountIn p,
     ei_AmountOutMinimum p, (case ei_SqrtPriceLimitX96 p of None \<Rightarrow> 0 | Some v \<Rightarrow> v)]"

definition mint_args :: "mint_params \<Rightarrow> int list" where
  "mint_args q = [uint (mp_Token0 q), uint (mp_Token1 q), uint (mp_Fee q), tick_word (mp_TickLower q), tick_word (mp_TickUpper q),
     mp_Amount0Desired q, mp_Amount1Desired q, mp_Amount0Min q, mp_Amount1Min q, uint (mp_Recipient q), mp_Deadline q]"

lemma be_bytes_zero: "be_bytes k 0 = replicate k 0"
  by (induction k) simp_all

lemma swap_call:
  assumes "\<And>x. length (keccak x) = 32" "list_all u256 (swap_args p)"
  shows "EncodeExactInputSingle keccak p = Some (abi_call (selector keccak
      ''exactInputSingle((address,address,uint24,address,uint256,uint256,uint256,uint160))'') (map nat (swap_args p)))"
  using assms
  by (cases "ei_SqrtPriceLimitX96 p")
     (simp_all add: EncodeExactInputSingle_def swap_args_def Let_def abi_writes be_bytes_zero del: append_assoc)

lemma mint_position_call:
  assumes "\<And>x. length (keccak x) = 32" "list_all u256 (mint_args q)"
  shows "EncodeMintPosition keccak q = Some (abi_call (selector keccak
      ''mint((address,address,uint24,int24,int24,uint256,uint256,uint256,uint256,address,uint256))'') (map nat (mint_args q)))"
  using assms by (simp add: EncodeMintPosition_def mint_args_def Let_def abi_writes del: append_assoc)

lemma u256_words: "list_all u256 vs \<Longrightarrow> list_all is_word (map nat vs)"
  by (simp add: list_all_iff u256_word)

text \<open>
  The two calls with a struct, the swap and the liquidity mint: with fields that are unsigned 256-bit
  numbers the call data decode to the selector and exactly the fields, in order, a missing price limit as
  zero and each tick as its two's complement, which reads back as the signed tick.
\<close>
theorem uniswap_calls_decode:
  assumes "\<And>x. length (keccak x) = 32" "list_all u256 (swap_args p)" "list_all u256 (mint_args q)"
  shows "Option.bind (EncodeExactInputSingle keccak p) (decode_call 8) =
      Some (selector keccak ''exactInputSingle((address,address,uint24,address,uint256,uint256,uint256,uint160))'',
        map nat (swap_args p)) \<and>
    Option.bind (EncodeMintPosition keccak q) (decode_call 11) =
      Some (selector keccak ''mint((address,address,uint24,int24,int24,uint256,uint256,uint256,uint256,address,uint256))'',
        map nat (mint_args q)) \<and>
    sint (of_int (tick_word (mp_TickLower q)) :: 256 word) = sint (mp_TickLower q)"
proof -
  have "length (swap_args p) = 8" "length (mint_args q) = 11" by (simp_all add: swap_args_def mint_args_def)
  then show ?thesis
    using swap_call [OF assms(1,2)] mint_position_call [OF assms(1,3)] u256_words [OF assms(2)] u256_words [OF assms(3)] assms(1)
    by (simp add: decode_abi_call tick_word_signed)
qed

definition example_swap :: exact_input_single_params where
  "example_swap = \<lparr>ei_TokenIn = 17, ei_TokenOut = 18, ei_Fee = 3000, ei_Recipient = 19, ei_Deadline = 1700000000,
     ei_AmountIn = 10 ^ 15, ei_AmountOutMinimum = 0, ei_SqrtPriceLimitX96 = Some 0\<rparr>"

definition example_mint :: mint_params where
  "example_mint = \<lparr>mp_Token0 = 17, mp_Token1 = 18, mp_Fee = 3000, mp_TickLower = - 887220, mp_TickUpper = 887220,
     mp_Amount0Desired = 5, mp_Amount1Desired = 6, mp_Amount0Min = 0, mp_Amount1Min = 0, mp_Recipient = 19, mp_Deadline = 7\<rparr>"

theorem uniswap_calls_decode_witness:
  "snd (the (Option.bind (EncodeExactInputSingle (\<lambda>_. replicate 32 7) example_swap) (decode_call 8))) =
     [17, 18, 3000, 19, 1700000000, 10 ^ 15, 0, 0] \<and>
   sint (of_int (tick_word (mp_TickLower example_mint)) :: 256 word) = - 887220"
proof -
  have "list_all u256 (swap_args example_swap)" "list_all u256 (mint_args example_mint)"
    by (simp_all add: swap_args_def mint_args_def example_swap_def example_mint_def) (simp_all add: u256_def)
  then show ?thesis using uniswap_calls_decode [of "\<lambda>_. replicate 32 7" example_swap example_mint]
    by (simp add: example_swap_def example_mint_def swap_args_def)
qed

section \<open>Token order\<close>

text \<open>The hexadecimal text of an address; the checksum decides which letters are capitals.\<close>

definition hex_char :: "bool \<Rightarrow> nat \<Rightarrow> char" where
  "hex_char capital d = char_of (if d < 10 then 48 + d else if capital then 55 + d else 87 + d)"

definition hex_text :: "(nat \<Rightarrow> bool) \<Rightarrow> address \<Rightarrow> string" where
  "hex_text capital a = ''0x'' @ map (\<lambda>i. hex_char (capital i) (unat a div 16 ^ (39 - i) mod 16)) [0..<40]"

text \<open>
  Comparing the checksummed text does not compare the addresses: a capital letter sorts before every
  small one, so a larger address can come first.
\<close>

lemma sort_tokens_not_numeric:
  assumes "hexOf a = hex_text (\<lambda>_. False) a" "hexOf b = hex_text (\<lambda>_. True) b"
    "unat a div 16 ^ 39 = 10" "unat b div 16 ^ 39 = 11"
  shows "a < b \<and> SortTokens hexOf a b = (b, a)"
proof -
  have u: "[0..<40] = 0 # [1..<40::nat]" by (simp add: upt_rec)
  have "hexOf b < hexOf a" unfolding assms(1,2) hex_text_def u by (simp add: assms(3,4) [simplified] hex_char_def less_char_def)
  then have "\<not> hexOf a < hexOf b" by (rule order_less_not_sym)
  moreover have "unat a < unat b"
  proof (rule ccontr)
    assume "\<not> unat a < unat b"
    then have "unat b div 16 ^ 39 \<le> unat a div 16 ^ 39" by (intro div_le_mono) simp
    then show False using assms(3,4) by simp
  qed
  ultimately show ?thesis by (simp add: SortTokens_def word_less_nat_alt)
qed

end
