(* ===== verification/Tx_Builder.thy ===== *)
theory Tx_Builder
  imports Abi Go_Strings Workload
begin

text \<open>
  \<open>internal/txbuilder\<close>: the seven transaction builders and their registry.  A transaction of the
  Ethereum library is a value with the fields the code sets.  Random draws, the clock, the hash
  functions and the environment variables are arguments.  A build returns an error or a transaction;
  \<open>None\<close> is the panic of an encoder.
\<close>

section \<open>Transactions\<close>

record tx_fields =
  tf_Nonce :: u64
  tf_Gas :: u64
  tf_To :: "address option"
  tf_Value :: int
  tf_Data :: bytes

text \<open>A legacy transaction with its gas price; a dynamic-fee transaction with chain id, tip cap and fee cap.\<close>

datatype eth_tx = LegacyTx int tx_fields | DynamicFeeTx int int int tx_fields

fun fields_of :: "eth_tx \<Rightarrow> tx_fields" where
  "fields_of (LegacyTx _ f) = f"
| "fields_of (DynamicFeeTx _ _ _ f) = f"

definition NewTransferTx :: "int \<Rightarrow> u64 \<Rightarrow> address \<Rightarrow> int \<Rightarrow> u64 \<Rightarrow> int \<Rightarrow> int \<Rightarrow> bytes \<Rightarrow> bool \<Rightarrow> eth_tx" where
  "NewTransferTx chainID n to v gasLimit tip fee data useLegacy =
     (let f = \<lparr>tf_Nonce = n, tf_Gas = gasLimit, tf_To = Some to, tf_Value = v, tf_Data = data\<rparr>
      in if useLegacy then LegacyTx fee f else DynamicFeeTx chainID tip fee f)"

definition NewContractTx :: "int \<Rightarrow> u64 \<Rightarrow> int \<Rightarrow> u64 \<Rightarrow> int \<Rightarrow> int \<Rightarrow> bytes \<Rightarrow> bool \<Rightarrow> eth_tx" where
  "NewContractTx chainID n v gasLimit tip fee data useLegacy =
     (let f = \<lparr>tf_Nonce = n, tf_Gas = gasLimit, tf_To = None, tf_Value = v, tf_Data = data\<rparr>
      in if useLegacy then LegacyTx fee f else DynamicFeeTx chainID tip fee f)"

record tx_params =
  px_ChainID :: "int option"
  px_Nonce :: u64
  px_GasTipCap :: int
  px_GasFeeCap :: int
  px_From :: address
  px_UseLegacy :: bool
  px_Gasless :: bool

section \<open>Uniswap configuration\<close>

record deployed_contracts =
  dc_WETH9 :: address
  dc_USDC :: address
  dc_Factory :: address
  dc_SwapRouter :: address
  dc_NonfungiblePositionManager :: address
  dc_Pool :: address

record pool_config =
  pc_Token0 :: address
  pc_Token1 :: address
  pc_Fee :: "32 word"
  pc_SqrtPriceX96 :: int
  pc_TickLower :: "32 word"
  pc_TickUpper :: "32 word"
  pc_LiquidityWETH :: int
  pc_LiquidityUSDC :: int

definition DefaultPoolConfig :: "address \<Rightarrow> address \<Rightarrow> pool_config" where
  "DefaultPoolConfig weth9 usdc =
     \<lparr>pc_Token0 = weth9, pc_Token1 = usdc, pc_Fee = 3000, pc_SqrtPriceX96 = 3543191142285914205922034323214,
      pc_TickLower = - 887220, pc_TickUpper = 887220, pc_LiquidityWETH = 1000 * 10 ^ 18,
      pc_LiquidityUSDC = 2000000 * 10 ^ 6\<rparr>"

definition MaxUint256 :: int where "MaxUint256 = 2 ^ 256 - 1"

record account_setup_config =
  as_USDCAmount :: int
  as_WETHAmount :: int

definition DefaultAccountSetupConfig :: account_setup_config where
  "DefaultAccountSetupConfig = \<lparr>as_USDCAmount = 10000 * 10 ^ 6, as_WETHAmount = 5 * 10 ^ 18\<rparr>"

record swap_builder =
  sb_contracts :: deployed_contracts
  sb_poolConfig :: pool_config
  sb_setupConfig :: account_setup_config
  sb_deployed :: bool

definition RestoreContracts :: "deployed_contracts \<Rightarrow> swap_builder \<Rightarrow> swap_builder" where
  "RestoreContracts c b =
     b\<lparr>sb_contracts := c, sb_poolConfig := DefaultPoolConfig (dc_WETH9 c) (dc_USDC c),
       sb_setupConfig := DefaultAccountSetupConfig, sb_deployed := True\<rparr>"

definition no_contracts :: deployed_contracts where
  "no_contracts = \<lparr>dc_WETH9 = 0, dc_USDC = 0, dc_Factory = 0, dc_SwapRouter = 0, dc_NonfungiblePositionManager = 0, dc_Pool = 0\<rparr>"

definition NewUniswapV3SwapBuilder :: swap_builder where
  "NewUniswapV3SwapBuilder =
     \<lparr>sb_contracts = no_contracts,
      sb_poolConfig = \<lparr>pc_Token0 = 0, pc_Token1 = 0, pc_Fee = 0, pc_SqrtPriceX96 = 0, pc_TickLower = 0, pc_TickUpper = 0,
        pc_LiquidityWETH = 0, pc_LiquidityUSDC = 0\<rparr>,
      sb_setupConfig = \<lparr>as_USDCAmount = 0, as_WETHAmount = 0\<rparr>, sb_deployed = False\<rparr>"

section \<open>The recipient pool of the token transfers\<close>

definition ParseERC20RecipientPool :: "string \<Rightarrow> string + u64" where
  "ParseERC20RecipientPool v =
     (case ParseInt v of
        None \<Rightarrow> Inl ''invalid ERC20_RECIPIENT_POOL''
      | Some n \<Rightarrow> if n \<le> 0 then Inl ''must be positive'' else Inr (of_int n))"

definition defaultERC20RecipientPoolSeed :: string where
  "defaultERC20RecipientPoolSeed = ''gasstorm-erc20-recipient-pool-v1''"

text \<open>The variables \<open>ERC20_RECIPIENT_POOL\<close> and \<open>ERC20_RECIPIENT_POOL_SEED\<close>; the empty string is unset.\<close>

definition ERC20RecipientPoolFromEnv :: "string \<Rightarrow> string \<Rightarrow> u64 \<times> string \<times> string option" where
  "ERC20RecipientPoolFromEnv pool seedVar =
     (let seed = (if seedVar \<noteq> '''' then seedVar else defaultERC20RecipientPoolSeed) in
      if pool = '''' then (0, seed, None)
      else case ParseERC20RecipientPool pool of
             Inl e \<Rightarrow> (0, seed, Some e)
           | Inr n \<Rightarrow> (n, seed, None))"

record erc20_transfer_builder =
  et_contract :: address
  et_poolSize :: u64
  et_poolSeed :: bytes
  et_configErr :: "string option"

definition NewERC20TransferBuilder :: "string \<Rightarrow> string \<Rightarrow> erc20_transfer_builder" where
  "NewERC20TransferBuilder pool seedVar =
     (let (size, seed, err) = ERC20RecipientPoolFromEnv pool seedVar in
      \<lparr>et_contract = 0, et_poolSize = size, et_poolSeed = sig_bytes seed, et_configErr = err\<rparr>)"

text \<open>The draws of one build: random addresses, a random number, random id bytes, the clock.\<close>

record draws =
  dr_address :: "address option"
  dr_to :: address
  dr_Uint64N :: "u64 \<Rightarrow> u64"
  dr_id :: "256 word"
  dr_now :: int

definition poolAddress :: "(bytes \<Rightarrow> bytes) \<Rightarrow> erc20_transfer_builder \<Rightarrow> u64 \<Rightarrow> address" where
  "poolAddress sha256 b i = of_nat (be_value (take 20 (sha256 (et_poolSeed b @ be_bytes 8 (unat i)))))"

definition recipient :: "(bytes \<Rightarrow> bytes) \<Rightarrow> draws \<Rightarrow> erc20_transfer_builder \<Rightarrow> string + address" where
  "recipient sha256 d b =
     (if et_poolSize b = 0 then
        (case dr_address d of None \<Rightarrow> Inl ''generate random recipient'' | Some a \<Rightarrow> Inr a)
      else Inr (poolAddress sha256 b (dr_Uint64N d (et_poolSize b))))"

section \<open>Builders\<close>

datatype tx_builder =
    ETHTransferBuilder address
  | ERC20TransferBuilder erc20_transfer_builder
  | ERC20ApproveBuilder address address
  | ERC721TransferBuilder address
  | UniswapV3SwapBuilder swap_builder
  | StorageWriteBuilder address
  | HeavyComputeBuilder address int

fun builder_Type :: "tx_builder \<Rightarrow> transaction_type" where
  "builder_Type (ETHTransferBuilder _) = TxTypeEthTransfer"
| "builder_Type (ERC20TransferBuilder _) = TxTypeERC20Transfer"
| "builder_Type (ERC20ApproveBuilder _ _) = TxTypeERC20Approve"
| "builder_Type (ERC721TransferBuilder _) = TxTypeERC721Transfer"
| "builder_Type (UniswapV3SwapBuilder _) = TxTypeUniswapSwap"
| "builder_Type (StorageWriteBuilder _) = TxTypeStorageWrite"
| "builder_Type (HeavyComputeBuilder _ _) = TxTypeHeavyCompute"

fun GasLimit :: "tx_builder \<Rightarrow> u64" where
  "GasLimit (ETHTransferBuilder _) = 21000"
| "GasLimit (ERC20TransferBuilder _) = 70000"
| "GasLimit (ERC20ApproveBuilder _ _) = 60000"
| "GasLimit (ERC721TransferBuilder _) = 100000"
| "GasLimit (UniswapV3SwapBuilder _) = 250000"
| "GasLimit (StorageWriteBuilder _) = 70000"
| "GasLimit (HeavyComputeBuilder _ _) = 500000"

definition RequiresContract :: "tx_builder \<Rightarrow> bool" where
  "RequiresContract b \<longleftrightarrow> (case b of ETHTransferBuilder _ \<Rightarrow> False | _ \<Rightarrow> True)"

fun SetContractAddress :: "address \<Rightarrow> tx_builder \<Rightarrow> tx_builder" where
  "SetContractAddress a (ETHTransferBuilder r) = ETHTransferBuilder r"
| "SetContractAddress a (ERC20TransferBuilder b) = ERC20TransferBuilder (b\<lparr>et_contract := a\<rparr>)"
| "SetContractAddress a (ERC20ApproveBuilder s c) = ERC20ApproveBuilder s a"
| "SetContractAddress a (ERC721TransferBuilder c) = ERC721TransferBuilder a"
| "SetContractAddress a (UniswapV3SwapBuilder b) = UniswapV3SwapBuilder b"
| "SetContractAddress a (StorageWriteBuilder c) = StorageWriteBuilder a"
| "SetContractAddress a (HeavyComputeBuilder c n) = HeavyComputeBuilder a n"

text \<open>\<open>SetIterations\<close> panics on a negative number.\<close>

definition SetIterations :: "int \<Rightarrow> address \<times> int \<Rightarrow> (address \<times> int) option" where
  "SetIterations n b = (if n < 0 then None else Some (fst b, n))"

text \<open>The call of a contract without value.\<close>

definition call_tx :: "tx_params \<Rightarrow> int \<Rightarrow> address \<Rightarrow> u64 \<Rightarrow> bytes option \<Rightarrow> (string + eth_tx) option" where
  "call_tx p chainID to gasLimit data =
     map_option (\<lambda>d. Inr (NewTransferTx chainID (px_Nonce p) to 0 gasLimit (px_GasTipCap p) (px_GasFeeCap p) d (px_UseLegacy p))) data"

text \<open>The swap: even nonces sell WETH, odd ones USDC.\<close>

definition swap_params :: "swap_builder \<Rightarrow> tx_params \<Rightarrow> int \<Rightarrow> exact_input_single_params" where
  "swap_params b p now =
     (let c = sb_contracts b; even' = (px_Nonce p mod 2 = 0);
          tokenIn = (if even' then dc_WETH9 c else dc_USDC c);
          tokenOut = (if even' then dc_USDC c else dc_WETH9 c)
      in \<lparr>ei_TokenIn = tokenIn, ei_TokenOut = tokenOut, ei_Fee = pc_Fee (sb_poolConfig b), ei_Recipient = px_From p,
          ei_Deadline = now + 86400, ei_AmountIn = (if tokenIn = dc_WETH9 c then 10 ^ 15 else 10 ^ 6),
          ei_AmountOutMinimum = 0, ei_SqrtPriceLimitX96 = Some 0\<rparr>)"

definition ETHTransfer_Build :: "tx_params \<Rightarrow> int \<Rightarrow> address \<Rightarrow> (string + eth_tx) option" where
  "ETHTransfer_Build p ch r =
     (let v = (if px_Gasless p then 0 else 1) in
      Some (Inr (NewTransferTx ch (px_Nonce p) r v 21000 (px_GasTipCap p) (px_GasFeeCap p) [] (px_UseLegacy p))))"

definition ERC20Transfer_Build ::
  "(bytes \<Rightarrow> bytes) \<Rightarrow> draws \<Rightarrow> tx_params \<Rightarrow> int \<Rightarrow> erc20_transfer_builder \<Rightarrow> (string + eth_tx) option" where
  "ERC20Transfer_Build sha256 d p ch b =
     (case et_configErr b of
        Some e \<Rightarrow> Some (Inl e)
      | None \<Rightarrow> (case recipient sha256 d b of
                   Inl e \<Rightarrow> Some (Inl e)
                 | Inr r \<Rightarrow> call_tx p ch (et_contract b) 70000 (encodeERC20Transfer r 1)))"

definition ERC20Approve_Build :: "tx_params \<Rightarrow> int \<Rightarrow> address \<Rightarrow> address \<Rightarrow> (string + eth_tx) option" where
  "ERC20Approve_Build p ch spender c = call_tx p ch c 60000 (encodeERC20Approve spender (2 ^ 256 - 1))"

definition ERC721Transfer_Build :: "draws \<Rightarrow> tx_params \<Rightarrow> int \<Rightarrow> address \<Rightarrow> (string + eth_tx) option" where
  "ERC721Transfer_Build d p ch c = call_tx p ch c 100000 (encodeERC721TransferFrom (px_From p) (dr_to d) (uint (dr_id d)))"

definition UniswapV3Swap_Build :: "(bytes \<Rightarrow> bytes) \<Rightarrow> draws \<Rightarrow> tx_params \<Rightarrow> int \<Rightarrow> swap_builder \<Rightarrow> (string + eth_tx) option" where
  "UniswapV3Swap_Build keccak d p ch b =
     (if \<not> sb_deployed b then Some (Inl ''Uniswap V3 contracts not deployed'')
      else call_tx p ch (dc_SwapRouter (sb_contracts b)) 250000 (EncodeExactInputSingle keccak (swap_params b p (dr_now d))))"

definition StorageWrite_Build :: "tx_params \<Rightarrow> int \<Rightarrow> address \<Rightarrow> (string + eth_tx) option" where
  "StorageWrite_Build p ch c = call_tx p ch c 70000 (encodeStorageWrite (uint (px_Nonce p)))"

definition HeavyCompute_Build :: "tx_params \<Rightarrow> int \<Rightarrow> address \<Rightarrow> int \<Rightarrow> (string + eth_tx) option" where
  "HeavyCompute_Build p ch c n = call_tx p ch c 500000 (encodeHeavyCompute n)"

lemmas builds = ETHTransfer_Build_def ERC20Transfer_Build_def ERC20Approve_Build_def ERC721Transfer_Build_def
  UniswapV3Swap_Build_def StorageWrite_Build_def HeavyCompute_Build_def

fun build_with :: "(bytes \<Rightarrow> bytes) \<Rightarrow> (bytes \<Rightarrow> bytes) \<Rightarrow> draws \<Rightarrow> tx_params \<Rightarrow> int \<Rightarrow> tx_builder \<Rightarrow> (string + eth_tx) option" where
  "build_with keccak sha256 d p ch (ETHTransferBuilder r) = ETHTransfer_Build p ch r"
| "build_with keccak sha256 d p ch (ERC20TransferBuilder b) = ERC20Transfer_Build sha256 d p ch b"
| "build_with keccak sha256 d p ch (ERC20ApproveBuilder spender c) = ERC20Approve_Build p ch spender c"
| "build_with keccak sha256 d p ch (ERC721TransferBuilder c) = ERC721Transfer_Build d p ch c"
| "build_with keccak sha256 d p ch (UniswapV3SwapBuilder b) = UniswapV3Swap_Build keccak d p ch b"
| "build_with keccak sha256 d p ch (StorageWriteBuilder c) = StorageWrite_Build p ch c"
| "build_with keccak sha256 d p ch (HeavyComputeBuilder c n) = HeavyCompute_Build p ch c n"

text \<open>Every builder checks the chain id first.\<close>

definition Build :: "(bytes \<Rightarrow> bytes) \<Rightarrow> (bytes \<Rightarrow> bytes) \<Rightarrow> draws \<Rightarrow> tx_params \<Rightarrow> tx_builder \<Rightarrow> (string + eth_tx) option" where
  "Build keccak sha256 d p b =
     (case px_ChainID p of
        None \<Rightarrow> Some (Inl ''ChainID must be non-nil and non-zero'')
      | Some ch \<Rightarrow> if ch = 0 then Some (Inl ''ChainID must be non-nil and non-zero'') else build_with keccak sha256 d p ch b)"

definition BuildMintTx :: "int \<Rightarrow> u64 \<Rightarrow> address \<Rightarrow> address \<Rightarrow> int \<Rightarrow> int \<Rightarrow> int \<Rightarrow> bool \<Rightarrow> eth_tx option" where
  "BuildMintTx chainID n c to tokenID tip fee useLegacy =
     map_option (\<lambda>d. NewTransferTx chainID n c 0 100000 tip fee d useLegacy) (encodeERC721Mint to tokenID)"

section \<open>The registry\<close>

type_synonym registry = "(transaction_type, tx_builder) gomap"

definition registry_Register :: "tx_builder \<Rightarrow> registry \<Rightarrow> registry" where
  "registry_Register b r = map_put (builder_Type b) b r"

definition registry_Get :: "transaction_type \<Rightarrow> registry \<Rightarrow> string + tx_builder" where
  "registry_Get ty r = (case map_get r ty of None \<Rightarrow> Inl ''unknown transaction type'' | Some b \<Rightarrow> Inr b)"

definition GetAll :: "registry \<Rightarrow> tx_builder list" where
  "GetAll r = map snd r"

definition GetComplexBuilder :: "transaction_type \<Rightarrow> registry \<Rightarrow> swap_builder option" where
  "GetComplexBuilder ty r = (case map_get r ty of Some (UniswapV3SwapBuilder b) \<Rightarrow> Some b | _ \<Rightarrow> None)"

definition NewDefaultRegistry :: "string \<Rightarrow> string \<Rightarrow> address \<Rightarrow> registry" where
  "NewDefaultRegistry pool seedVar r =
     fold registry_Register [ETHTransferBuilder r, ERC20TransferBuilder (NewERC20TransferBuilder pool seedVar), ERC20ApproveBuilder r 0,
       ERC721TransferBuilder 0, UniswapV3SwapBuilder NewUniswapV3SwapBuilder, StorageWriteBuilder 0, HeavyComputeBuilder 0 1000] []"

section \<open>What is built\<close>

text \<open>The account or contract a builder sends to, and the value.\<close>

fun target :: "tx_builder \<Rightarrow> address" where
  "target (ETHTransferBuilder r) = r"
| "target (ERC20TransferBuilder b) = et_contract b"
| "target (ERC20ApproveBuilder _ c) = c"
| "target (ERC721TransferBuilder c) = c"
| "target (UniswapV3SwapBuilder b) = dc_SwapRouter (sb_contracts b)"
| "target (StorageWriteBuilder c) = c"
| "target (HeavyComputeBuilder c _) = c"

definition sent_value :: "tx_params \<Rightarrow> tx_builder \<Rightarrow> int" where
  "sent_value p b = (if RequiresContract b \<or> px_Gasless p then 0 else 1)"

text \<open>The fee part of a transaction is what the parameters ask for.\<close>

definition fees_as_asked :: "tx_params \<Rightarrow> eth_tx \<Rightarrow> bool" where
  "fees_as_asked p tx =
     (case tx of
        LegacyTx gasPrice f \<Rightarrow> px_UseLegacy p \<and> gasPrice = px_GasFeeCap p
      | DynamicFeeTx chainID tip fee f \<Rightarrow>
          \<not> px_UseLegacy p \<and> px_ChainID p = Some chainID \<and> tip = px_GasTipCap p \<and> fee = px_GasFeeCap p)"

lemma call_tx_carries:
  assumes "call_tx p ch to g data = Some (Inr tx)" "px_ChainID p = Some ch"
  shows "tf_Nonce (fields_of tx) = px_Nonce p \<and> tf_Gas (fields_of tx) = g \<and> tf_To (fields_of tx) = Some to \<and>
    tf_Value (fields_of tx) = 0 \<and> fees_as_asked p tx \<and> data = Some (tf_Data (fields_of tx))"
  using assms by (auto simp: call_tx_def NewTransferTx_def Let_def fees_as_asked_def split: if_splits)

lemma build_with_carries:
  assumes "build_with keccak sha256 d p ch b = Some (Inr tx)" "px_ChainID p = Some ch"
  shows "tf_Nonce (fields_of tx) = px_Nonce p \<and> tf_Gas (fields_of tx) = GasLimit b \<and> tf_To (fields_of tx) = Some (target b) \<and>
    tf_Value (fields_of tx) = sent_value p b \<and> fees_as_asked p tx"
proof (cases b)
  case (ETHTransferBuilder r)
  then show ?thesis using assms
    by (auto simp: builds NewTransferTx_def Let_def fees_as_asked_def sent_value_def RequiresContract_def split: if_splits)
qed (use assms in \<open>auto simp: builds sent_value_def RequiresContract_def dest!: call_tx_carries split: option.splits sum.splits if_splits\<close>)

text \<open>What keeps the encoders from panicking: bounded iterations, and a clock before the year 10 to the 60.\<close>

definition encodable :: "draws \<Rightarrow> tx_builder \<Rightarrow> bool" where
  "encodable d b \<longleftrightarrow> u256 (dr_now d + 86400) \<and> (case b of HeavyComputeBuilder _ n \<Rightarrow> u256 n | _ \<Rightarrow> True)"

lemma u256_uint [simp]: "u256 (uint (w :: 256 word))" "u256 (uint (a :: address))" "u256 (uint (n :: u64))"
  using uint_lt2p [of w] uint_lt2p [of a] uint_lt2p [of n] by (simp_all add: u256_def)

lemma build_with_no_panic:
  assumes "\<And>x. length (keccak x) = 32" "encodable d b"
  shows "build_with keccak sha256 d p ch b \<noteq> None"
proof (cases b)
  case (UniswapV3SwapBuilder sb)
  have "list_all u256 (swap_args (swap_params sb p (dr_now d)))"
    using assms(2) by (simp add: swap_args_def swap_params_def Let_def encodable_def) (simp add: u256_def)
  then show ?thesis using UniswapV3SwapBuilder by (simp add: builds swap_call [OF assms(1)] call_tx_def)
next
  case (ERC20TransferBuilder b')
  have "u256 1" by (simp add: u256_def)
  then show ?thesis using ERC20TransferBuilder
    by (simp add: builds call_tx_def builder_calls split: option.split sum.split)
next
  case (ERC20ApproveBuilder sp c)
  have "u256 (2 ^ 256 - 1)" by (simp add: u256_def)
  then show ?thesis using ERC20ApproveBuilder by (simp add: builds call_tx_def builder_calls)
qed (use assms in \<open>simp_all add: builds call_tx_def builder_calls encodable_def\<close>)

text \<open>
  No builder panics, and a transaction it builds carries the nonce, fees, chain and kind the caller
  asked for, the builder's gas limit, its target, and one wei for a plain transfer on a chain with fees
  and nothing otherwise.
\<close>
theorem built_transaction_as_asked:
  assumes "\<And>x. length (keccak x) = 32" "encodable d b"
  shows "\<exists>r. Build keccak sha256 d p b = Some r \<and> (\<forall>tx. r = Inr tx \<longrightarrow>
    tf_Nonce (fields_of tx) = px_Nonce p \<and> tf_Gas (fields_of tx) = GasLimit b \<and> tf_To (fields_of tx) = Some (target b) \<and>
    tf_Value (fields_of tx) = sent_value p b \<and> fees_as_asked p tx)"
proof (cases "px_ChainID p")
  case (Some ch)
  show ?thesis
  proof (cases "ch = 0")
    case False
    then have b: "Build keccak sha256 d p b = build_with keccak sha256 d p ch b" using Some by (simp add: Build_def)
    obtain r where "build_with keccak sha256 d p ch b = Some r"
      using build_with_no_panic [OF assms] by fastforce
    then show ?thesis using build_with_carries [OF _ Some] by (intro exI [of _ r]) (auto simp: b)
  qed (simp add: Build_def Some)
qed (simp add: Build_def)

theorem built_transaction_as_asked_witness:
  "\<exists>tx. Build (\<lambda>_. replicate 32 1) (\<lambda>_. replicate 32 2) \<lparr>dr_address = None, dr_to = 7, dr_Uint64N = (\<lambda>n. n - 1), dr_id = 9, dr_now = 1700000000\<rparr>
      \<lparr>px_ChainID = Some 42069, px_Nonce = 5, px_GasTipCap = 1, px_GasFeeCap = 3, px_From = 8, px_UseLegacy = False, px_Gasless = False\<rparr>
      (StorageWriteBuilder 77) = Some (Inr tx) \<and> tf_Nonce (fields_of tx) = 5 \<and> tf_To (fields_of tx) = Some 77"
proof -
  let ?d = "\<lparr>dr_address = None, dr_to = 7, dr_Uint64N = (\<lambda>n. n - 1), dr_id = 9, dr_now = 1700000000\<rparr>"
  let ?p = "\<lparr>px_ChainID = Some 42069, px_Nonce = 5, px_GasTipCap = 1, px_GasFeeCap = 3, px_From = 8, px_UseLegacy = False,
    px_Gasless = False\<rparr>"
  have "encodable ?d (StorageWriteBuilder 77)" by (simp add: encodable_def u256_def)
  then obtain r where r: "Build (\<lambda>_. replicate 32 1) (\<lambda>_. replicate 32 2) ?d ?p (StorageWriteBuilder 77) = Some r"
    "\<forall>tx. r = Inr tx \<longrightarrow> tf_Nonce (fields_of tx) = px_Nonce ?p \<and> tf_Gas (fields_of tx) = GasLimit (StorageWriteBuilder 77) \<and>
      tf_To (fields_of tx) = Some (target (StorageWriteBuilder 77)) \<and> tf_Value (fields_of tx) = sent_value ?p (StorageWriteBuilder 77) \<and>
      fees_as_asked ?p tx"
    using built_transaction_as_asked [of "\<lambda>_. replicate 32 1" ?d "StorageWriteBuilder 77" "\<lambda>_. replicate 32 2" ?p] by auto
  have "u256 5" by (simp add: u256_def)
  then obtain tx where "r = Inr tx" using r(1) by (auto simp: builds Build_def call_tx_def builder_calls)
  then show ?thesis using r by auto
qed

section \<open>The recipient pool\<close>

definition pool :: "(bytes \<Rightarrow> bytes) \<Rightarrow> erc20_transfer_builder \<Rightarrow> address set" where
  "pool sha256 b = poolAddress sha256 b ` {i. i < et_poolSize b}"

lemma card_below: "card {i. i < (n :: u64)} = unat n"
proof -
  have "{i. i < n} = (of_nat :: nat \<Rightarrow> u64) ` {..<unat n}"
  proof (intro equalityI subsetI)
    fix i assume "i \<in> {i. i < n}"
    then have "unat i < unat n" by (simp add: word_less_nat_alt)
    then show "i \<in> of_nat ` {..<unat n}" by (intro image_eqI [of _ _ "unat i"]) simp_all
  next
    fix i assume "i \<in> (of_nat :: nat \<Rightarrow> u64) ` {..<unat n}"
    then obtain j where "i = of_nat j" "j < unat n" by auto
    moreover from this have "unat (of_nat j :: u64) = j"
      using u64_unat_less [of n] by (intro u64_unat_of_nat) simp
    ultimately show "i \<in> {i. i < n}" by (simp add: word_less_nat_alt)
  qed
  moreover have "inj_on (of_nat :: nat \<Rightarrow> u64) {..<unat n}"
    by (rule inj_onI) (metis lessThan_iff order.strict_trans u64_unat_less u64_unat_of_nat)
  ultimately show ?thesis by (simp add: card_image)
qed

text \<open>
  A positive \<open>ERC20_RECIPIENT_POOL\<close> of \<open>N\<close> bounds the recipients: every transfer the builder makes
  goes to one of at most \<open>N\<close> addresses derived from the seed, whatever the random draws; a malformed or
  non-positive value makes every build fail instead of falling back to random recipients.
\<close>
theorem recipient_pool_bounds_transfers:
  assumes "ParseInt poolVar = Some n" "0 < n" "\<And>m. 0 < m \<Longrightarrow> dr_Uint64N d m < m"
    "Build keccak sha256 d p (ERC20TransferBuilder (NewERC20TransferBuilder poolVar seedVar)) = Some (Inr tx)"
  shows "\<exists>a \<in> pool sha256 (NewERC20TransferBuilder poolVar seedVar).
      decode_call 2 (tf_Data (fields_of tx)) = Some (erc20TransferSelector, [unat a, 1]) \<and>
      card (pool sha256 (NewERC20TransferBuilder poolVar seedVar)) \<le> nat n"
proof -
  let ?b = "NewERC20TransferBuilder poolVar seedVar"
  have i: "is_i64 n" using assms(1) by (auto simp: ParseInt_def Let_def split: option.splits if_splits)
  have ne: "poolVar \<noteq> ''''" using assms(1) by (auto simp: ParseInt_def parse_digits_def Let_def)
  have sz: "et_poolSize ?b = of_int n" "et_configErr ?b = None"
    using assms(1,2) ne
    by (simp_all add: NewERC20TransferBuilder_def ERC20RecipientPoolFromEnv_def ParseERC20RecipientPool_def Let_def)
  have u: "unat (of_int n :: u64) = nat n" using assms(2) i by (intro u64_unat_of_int) (simp_all add: is_i64_def)
  then have pos: "0 < et_poolSize ?b" using assms(2) by (simp add: sz word_less_nat_alt)
  then have nz: "et_poolSize ?b \<noteq> 0" by auto
  let ?a = "poolAddress sha256 ?b (dr_Uint64N d (et_poolSize ?b))"
  obtain ch where "px_ChainID p = Some ch" "build_with keccak sha256 d p ch (ERC20TransferBuilder ?b) = Some (Inr tx)"
    using assms(4) by (auto simp: Build_def split: option.splits if_splits)
  then have "call_tx p ch (et_contract ?b) 70000 (encodeERC20Transfer ?a 1) = Some (Inr tx)"
    using nz by (simp add: builds sz(2) recipient_def)
  then have "encodeERC20Transfer ?a 1 = Some (tf_Data (fields_of tx))"
    using call_tx_carries \<open>px_ChainID p = Some ch\<close> by blast
  moreover have "u256 1" by (simp add: u256_def)
  ultimately have "decode_call 2 (tf_Data (fields_of tx)) = Some (erc20TransferSelector, [unat ?a, nat 1])"
    by (intro erc20_transfer_decodes)
  moreover have "?a \<in> pool sha256 ?b" using assms(3) [OF pos] by (simp add: pool_def)
  moreover have "card (pool sha256 ?b) \<le> nat n"
    unfolding pool_def using card_image_le [of "{i. i < et_poolSize ?b}" "poolAddress sha256 ?b"] u
    by (simp add: card_below sz(1))
  ultimately show ?thesis by auto
qed

definition example_draws :: draws where
  "example_draws = \<lparr>dr_address = None, dr_to = 7, dr_Uint64N = (\<lambda>n. n - 1), dr_id = 9, dr_now = 1700000000\<rparr>"

definition example_params :: tx_params where
  "example_params = \<lparr>px_ChainID = Some 42069, px_Nonce = 5, px_GasTipCap = 1, px_GasFeeCap = 3, px_From = 8,
     px_UseLegacy = False, px_Gasless = False\<rparr>"

theorem recipient_pool_bounds_transfers_witness:
  "\<exists>tx. Build (\<lambda>_. []) (\<lambda>x. x @ replicate 32 1) example_draws example_params
      (ERC20TransferBuilder (NewERC20TransferBuilder ''50'' ''s'')) = Some (Inr tx) \<and>
    (\<exists>a \<in> pool (\<lambda>x. x @ replicate 32 1) (NewERC20TransferBuilder ''50'' ''s'').
      decode_call 2 (tf_Data (fields_of tx)) = Some (erc20TransferSelector, [unat a, 1]) \<and>
      card (pool (\<lambda>x. x @ replicate 32 1) (NewERC20TransferBuilder ''50'' ''s'')) \<le> 50)"
proof -
  let ?b = "NewERC20TransferBuilder ''50'' ''s''"
  have n: "ParseInt ''50'' = Some 50"
    by (simp add: ParseInt_def parse_digits_def is_digit_def digits_value_def is_i64_def Let_def)
  have less: "dr_Uint64N example_draws m < m" if "0 < m" for m
  proof -
    have "m - 1 \<noteq> - 1" using that by auto
    then have "m - 1 < m - 1 + 1" by (rule u64_self_less_Suc)
    then show ?thesis by (simp add: example_draws_def)
  qed
  have one: "u256 1" by (simp add: u256_def)
  have err: "et_configErr ?b = None" "et_poolSize ?b = 50"
    by (simp_all add: NewERC20TransferBuilder_def ERC20RecipientPoolFromEnv_def ParseERC20RecipientPool_def n)
  then obtain tx where tx: "Build (\<lambda>_. []) (\<lambda>x. x @ replicate 32 1) example_draws example_params (ERC20TransferBuilder ?b) = Some (Inr tx)"
    by (simp add: builds Build_def example_params_def call_tx_def recipient_def builder_calls [OF one])
  show ?thesis
    using recipient_pool_bounds_transfers [OF n _ less tx] tx by auto
qed

section \<open>The registry serves every type\<close>

lemma default_registry_Get:
  assumes "\<forall>s. ty \<noteq> TxTypeOther s"
  shows "\<exists>b. registry_Get ty (NewDefaultRegistry poolVar seedVar r) = Inr b \<and> builder_Type b = ty"
  using assms by (cases ty) (simp_all add: registry_Get_def NewDefaultRegistry_def registry_Register_def)

lemma SetContractAddress_type [simp]: "builder_Type (SetContractAddress a b) = builder_Type b"
  by (cases b) simp_all

lemma SetContractAddress_target: "target (SetContractAddress a b) = (case b of ETHTransferBuilder r \<Rightarrow> r
    | UniswapV3SwapBuilder s \<Rightarrow> dc_SwapRouter (sb_contracts s) | _ \<Rightarrow> a)"
  by (cases b) simp_all

lemma mix_types_known: "SelectRandomTxType ratios roll \<noteq> TxTypeOther s"
  by (simp add: SelectRandomTxType_def Let_def)

text \<open>Consecutive nonces of an account swap in opposite directions.\<close>

lemma swap_alternates:
  assumes "px_Nonce p \<noteq> - 1"
  shows "ei_TokenIn (swap_params b (p\<lparr>px_Nonce := px_Nonce p + 1\<rparr>) now') = ei_TokenOut (swap_params b p now) \<and>
    ei_TokenOut (swap_params b (p\<lparr>px_Nonce := px_Nonce p + 1\<rparr>) now') = ei_TokenIn (swap_params b p now)"
proof -
  have e: "((n :: u64) mod 2 = 0) = even (unat n)" for n
    by (simp add: word_unat_eq_iff unat_mod even_iff_mod_2_eq_zero)
  have "even (unat (px_Nonce p + 1)) = odd (unat (px_Nonce p))" by (simp add: u64_unat_Suc [OF assms])
  then show ?thesis by (simp add: swap_params_def Let_def e)
qed

text \<open>
  The initial pool price: \<open>(sqrtPriceX96 / 2^96)^2\<close> is 2000 smallest units of USDC for one wei, not for
  one ether; the price meant is smaller by a factor of \<open>10^12\<close>.
\<close>

lemma pool_price_per_wei:
  "1999 * 2 ^ 192 < (pc_SqrtPriceX96 (DefaultPoolConfig w u))\<^sup>2 \<and> (pc_SqrtPriceX96 (DefaultPoolConfig w u))\<^sup>2 < 2001 * 2 ^ 192"
  by (simp add: DefaultPoolConfig_def)

end
