(* ===== verification/Account_Manager.thy ===== *)
theory Account_Manager
  imports Nonce_Account Tx_Builder Rpc_Client
begin

text \<open>
  \<open>internal/account/manager.go\<close>: the built-in accounts and the generated ones, their nonce
  initialisation, funding through the faucets, balance checks and the recycling of funds.  The keys,
  the signature and the encoding of a transaction are parameters (an account is known by its address);
  so are the answers of the node.  The goroutines of one call work on different accounts and are run one
  after the other; of several errors the first in the order of the accounts is returned, where the code
  returns the first to arrive.  Logging and the retrying funding loop kept \<open>for reference\<close> are left out.
\<close>

section \<open>The amount\<close>

definition big_SetString10 :: "string \<Rightarrow> int option" where
  "big_SetString10 s =
     (let neg = (s \<noteq> [] \<and> s ! 0 = CHR ''-''); sgnd = (neg \<or> (s \<noteq> [] \<and> s ! 0 = CHR ''+''))
      in map_option (\<lambda>n. if neg then - int n else int n) (parse_digits (if sgnd then drop 1 s else s)))"

definition DefaultFundAmountWei :: int where "DefaultFundAmountWei = 1000 * 10 ^ 18"

definition parseFundAmount :: "string \<Rightarrow> int" where
  "parseFundAmount raw0 =
     (let raw = TrimSpace raw0 in
      if raw = '''' then DefaultFundAmountWei
      else case big_SetString10 raw of
             None \<Rightarrow> DefaultFundAmountWei
           | Some v \<Rightarrow> if v \<le> 0 then DefaultFundAmountWei else v)"

section \<open>State\<close>

record test_account =
  ta_addr :: address
  ta_acc :: account

text \<open>A generated account is \<open>None\<close> while its pointer is \<open>nil\<close>.\<close>

record manager =
  mg_accounts :: "test_account list"
  mg_dynamic :: "test_account option list"
  mg_funded :: int
  mg_chainID :: int
  mg_gasPrice :: int
  mg_useLegacy :: bool

definition NewManager :: "test_account list \<Rightarrow> int \<Rightarrow> int \<Rightarrow> bool \<Rightarrow> manager" where
  "NewManager accs chainID gasPrice useLegacy =
     \<lparr>mg_accounts = accs, mg_dynamic = [], mg_funded = 0, mg_chainID = chainID, mg_gasPrice = gasPrice, mg_useLegacy = useLegacy\<rparr>"

definition SetDynamicAccounts :: "test_account list \<Rightarrow> manager \<Rightarrow> manager" where
  "SetDynamicAccounts accs m = m\<lparr>mg_dynamic := map Some accs, mg_funded := int (length accs)\<rparr>"

definition Reset_manager :: "manager \<Rightarrow> manager" where
  "Reset_manager m = m\<lparr>mg_dynamic := [], mg_funded := 0\<rparr>"

text \<open>The exported pairs of address and key; \<open>keyHex\<close> encodes the key of an account.\<close>

definition ExportDynamicAccountKeys :: "(address \<Rightarrow> string) \<Rightarrow> (address \<Rightarrow> string) \<Rightarrow> manager \<Rightarrow> (string \<times> string) list option" where
  "ExportDynamicAccountKeys hexOf keyHex m =
     map_option (map (\<lambda>a. (hexOf (ta_addr a), keyHex (ta_addr a)))) (those (mg_dynamic m))"

section \<open>Nonces\<close>

text \<open>Setting the nonces of the first \<open>n\<close> accounts from the answers of the node.\<close>

fun force_all :: "(account \<Rightarrow> rpc_err + u64 \<Rightarrow> rpc_err option \<times> account) \<Rightarrow> (nat \<Rightarrow> rpc_err + u64) \<Rightarrow> nat \<Rightarrow> nat \<Rightarrow> test_account list \<Rightarrow> rpc_err list \<times> test_account list" where
  "force_all f replies i n [] = ([], [])"
| "force_all f replies i 0 (a # accs) = ([], a # accs)"
| "force_all f replies i (Suc n) (a # accs) =
     (let (e, acc) = f (ta_acc a) (replies i); (es, accs') = force_all f replies (i + 1) n accs
      in ((case e of Some x \<Rightarrow> x # es | None \<Rightarrow> es), a\<lparr>ta_acc := acc\<rparr> # accs'))"

definition first_error :: "'e list \<Rightarrow> 'e option" where
  "first_error es = (case es of [] \<Rightarrow> None | e # _ \<Rightarrow> Some e)"

definition InitializeNonces :: "(nat \<Rightarrow> rpc_err + u64) \<Rightarrow> nat \<Rightarrow> manager \<Rightarrow> rpc_err option \<times> manager" where
  "InitializeNonces replies n m =
     (let (es, accs) = force_all ForceResync replies 0 (min n (length (mg_accounts m))) (mg_accounts m)
      in (first_error es, m\<lparr>mg_accounts := accs\<rparr>))"

definition InitializeDynamicNonces :: "(nat \<Rightarrow> rpc_err + u64) \<Rightarrow> manager \<Rightarrow> (rpc_err option \<times> manager) option" where
  "InitializeDynamicNonces replies m =
     (case those (mg_dynamic m) of
        None \<Rightarrow> None
      | Some dyn \<Rightarrow>
          let (es, accs) = force_all ForceResync replies 0 (length dyn) dyn
          in Some (first_error es, m\<lparr>mg_dynamic := map Some accs\<rparr>))"

text \<open>From the chain: the built-in accounts followed by the generated ones.\<close>

definition InitializeNoncesFromChain :: "(nat \<Rightarrow> rpc_err + u64) \<Rightarrow> nat \<Rightarrow> manager \<Rightarrow> (rpc_err option \<times> manager) option" where
  "InitializeNoncesFromChain replies n m =
     (case those (mg_dynamic m) of
        None \<Rightarrow> None
      | Some dyn \<Rightarrow>
          let k = length (mg_accounts m); (es, accs) = force_all ForceResyncFromChain replies 0 (min n (k + length dyn)) (mg_accounts m @ dyn)
          in Some (first_error es, m\<lparr>mg_accounts := take k accs, mg_dynamic := map Some (drop k accs)\<rparr>))"

section \<open>Generation\<close>

text \<open>The ranges of the workers: the loop over \<open>w\<close> breaks when a range would start at the end.\<close>

fun work_ranges :: "nat \<Rightarrow> nat \<Rightarrow> nat \<Rightarrow> nat \<Rightarrow> (nat \<times> nat) list" where
  "work_ranges total_n workSize w 0 = []"
| "work_ranges total_n workSize w (Suc k) =
     (let start = w * workSize; end' = start + workSize; end'' = (if total_n < end' then total_n else end') in
      if total_n \<le> start then [] else (start, end'') # work_ranges total_n workSize (w + 1) k)"

definition key_ranges :: "nat \<Rightarrow> nat \<Rightarrow> (nat \<times> nat) list" where
  "key_ranges total_n maxProcs =
     (let numWorkers = (if 16 < maxProcs then 16 else maxProcs)
      in work_ranges total_n ((total_n + numWorkers - 1) div numWorkers) 0 numWorkers)"

text \<open>A worker stops at the first key that cannot be generated.\<close>

fun gen_range :: "(nat \<Rightarrow> address option) \<Rightarrow> nat list \<Rightarrow> test_account option list \<Rightarrow> bool \<times> test_account option list" where
  "gen_range keys [] dyn = (True, dyn)"
| "gen_range keys (i # is) dyn =
     (case keys i of
        None \<Rightarrow> (False, dyn)
      | Some a \<Rightarrow> gen_range keys is (dyn[i := Some \<lparr>ta_addr = a, ta_acc = NewAccount\<rparr>]))"

fun gen_ranges :: "(nat \<Rightarrow> address option) \<Rightarrow> (nat \<times> nat) list \<Rightarrow> test_account option list \<Rightarrow> bool \<times> test_account option list" where
  "gen_ranges keys [] dyn = (True, dyn)"
| "gen_ranges keys ((s, e) # rs) dyn =
     (let (ok, dyn1) = gen_range keys [s..<e] dyn; (ok', dyn2) = gen_ranges keys rs dyn1 in (ok \<and> ok', dyn2))"

definition GenerateDynamicAccounts :: "nat \<Rightarrow> (nat \<Rightarrow> address option) \<Rightarrow> nat \<Rightarrow> manager \<Rightarrow> bool \<times> manager" where
  "GenerateDynamicAccounts maxProcs keys total_n m =
     (let (ok, dyn) = gen_ranges keys (key_ranges total_n maxProcs) (replicate total_n None)
      in (ok, m\<lparr>mg_dynamic := dyn, mg_funded := 0\<rparr>))"

section \<open>Funding\<close>

record 's tx_signer =
  sg_sign :: "address \<Rightarrow> eth_tx \<Rightarrow> 's option"
  sg_encode :: "'s \<Rightarrow> bytes option"

datatype send_err = SignFailed | EncodeFailed | SendFailed rpc_err

definition sign_and_send :: "'s tx_signer \<Rightarrow> (bytes \<Rightarrow> rpc_err option) \<Rightarrow> address \<Rightarrow> eth_tx \<Rightarrow> send_err option" where
  "sign_and_send sg send frm tx =
     (case sg_sign sg frm tx of
        None \<Rightarrow> Some SignFailed
      | Some stx \<Rightarrow>
          (case sg_encode sg stx of
             None \<Rightarrow> Some EncodeFailed
           | Some data \<Rightarrow> map_option SendFailed (send data)))"

definition funding_tx :: "manager \<Rightarrow> u64 \<Rightarrow> address \<Rightarrow> int \<Rightarrow> eth_tx" where
  "funding_tx m n to amount =
     (let fundingTip = 1000 * 10 ^ 9;
          f = \<lparr>tf_Nonce = n, tf_Gas = 21000, tf_To = Some to, tf_Value = amount, tf_Data = []\<rparr>
      in if mg_useLegacy m then LegacyTx (mg_gasPrice m + fundingTip) f
         else DynamicFeeTx (mg_chainID m) fundingTip (mg_gasPrice m + fundingTip) f)"

definition fundAccountFast ::
  "'s tx_signer \<Rightarrow> (bytes \<Rightarrow> rpc_err option) \<Rightarrow> manager \<Rightarrow> test_account \<Rightarrow> address \<Rightarrow> int \<Rightarrow> send_err option \<times> test_account" where
  "fundAccountFast sg send m faucet to amount =
     (let (n, acc) = ReserveNonce (ta_acc faucet) in
      case sign_and_send sg send (ta_addr faucet) (funding_tx m (Value n) to amount) of
        Some e \<Rightarrow> (Some e, faucet\<lparr>ta_acc := snd (Rollback n acc)\<rparr>)
      | None \<Rightarrow> (None, faucet\<lparr>ta_acc := acc\<rparr>))"

text \<open>
  The loop of one faucet over its recipients; \<open>send k\<close> answers its \<open>k\<close>-th send.  The log holds the
  index of the recipient, the transaction and the error.
\<close>

type_synonym funding_log = "(nat \<times> eth_tx \<times> send_err option) list"

fun fund_loop ::
  "'s tx_signer \<Rightarrow> (nat \<Rightarrow> bytes \<Rightarrow> rpc_err option) \<Rightarrow> manager \<Rightarrow> int \<Rightarrow> (nat \<times> address) list \<Rightarrow> nat \<Rightarrow> test_account \<Rightarrow>
     funding_log \<times> test_account" where
  "fund_loop sg send m amount [] k faucet = ([], faucet)"
| "fund_loop sg send m amount ((i, to) # rest) k faucet =
     (let tx = funding_tx m (Value (fst (ReserveNonce (ta_acc faucet)))) to amount;
          (err, faucet1) = fundAccountFast sg (send k) m faucet to amount;
          (lg, faucet2) = fund_loop sg send m amount rest (k + 1) faucet1
      in ((i, tx, err) # lg, faucet2))"

text \<open>\<open>for i := f; i < n; i += step\<close>.\<close>

function stride :: "nat \<Rightarrow> nat \<Rightarrow> nat \<Rightarrow> nat list" where
  "stride f step n = (if f < n \<and> 0 < step then f # stride (f + step) step n else [])"
  by pat_completeness auto
termination by (relation "measure (\<lambda>(f, step, n). n - f)") auto

declare stride.simps [simp del]

definition numFaucets :: "manager \<Rightarrow> nat" where
  "numFaucets m = (let n = int (length (mg_accounts m)) - 1 in if n < 1 then 1 else nat n)"

text \<open>The faucets are the accounts after the first one; with a single account the index panics.\<close>

fun resync_faucets ::
  "(nat \<Rightarrow> rpc_err + u64) \<Rightarrow> nat \<Rightarrow> nat \<Rightarrow> test_account list \<Rightarrow> ((rpc_err + u64 list) \<times> test_account list) option" where
  "resync_faucets replies i 0 accs = Some (Inr [], accs)"
| "resync_faucets replies i (Suc k) [] = None"
| "resync_faucets replies i (Suc k) (a # accs) =
     (case Resync (ta_acc a) (replies i) of
        (Some e, acc) \<Rightarrow> Some (Inl e, a\<lparr>ta_acc := acc\<rparr> # accs)
      | (None, acc) \<Rightarrow>
          (case resync_faucets replies (i + 1) k accs of
             None \<Rightarrow> None
           | Some (Inl e, accs') \<Rightarrow> Some (Inl e, a\<lparr>ta_acc := acc\<rparr> # accs')
           | Some (Inr ns, accs') \<Rightarrow> Some (Inr (PeekNonce acc # ns), a\<lparr>ta_acc := acc\<rparr> # accs')))"

definition txsPerFaucet :: "nat \<Rightarrow> nat \<Rightarrow> nat \<Rightarrow> nat" where
  "txsPerFaucet nf n f = length (filter (\<lambda>i. i mod nf = f) [0..<n])"

section \<open>Waiting for the confirmation\<close>

text \<open>
  The rounds of a wait: the time at the loop condition, the confirmed nonce, and whether the context is
  done at the pause.  \<open>wt_start\<close> is the time at which the deadline is set.
\<close>

record wait_env =
  wt_start :: int
  wt_time :: "nat \<Rightarrow> int"
  wt_nonce :: "nat \<Rightarrow> rpc_err + u64"
  wt_done :: "nat \<Rightarrow> bool"

datatype wait_result = WaitConfirmed | WaitRpcError rpc_err | WaitCancelled | WaitTimeout

definition wait_step :: "u64 \<Rightarrow> int \<Rightarrow> wait_env \<Rightarrow> nat \<Rightarrow> wait_result option" where
  "wait_step expectedNonce deadline w k =
     (if wt_time w k < deadline then
        (case wt_nonce w k of
           Inl e \<Rightarrow> Some (WaitRpcError e)
         | Inr n \<Rightarrow> if expectedNonce \<le> n then Some WaitConfirmed else if wt_done w k then Some WaitCancelled else None)
      else Some WaitTimeout)"

definition waitForNonceConfirmation :: "u64 \<Rightarrow> int \<Rightarrow> wait_env \<Rightarrow> wait_result option" where
  "waitForNonceConfirmation expectedNonce timeout w = poll_loop (wait_step expectedNonce (wt_start w + timeout) w) 0"

definition confirmTimeout :: int where "confirmTimeout = 120 * 1000000000"

definition pollInterval :: int where "pollInterval = 500 * 1000000"

text \<open>What the node answers to a funding: the resyncs, the sends of each faucet, the waits.\<close>

record funding_env =
  fe_resync :: "nat \<Rightarrow> rpc_err + u64"
  fe_send :: "nat \<Rightarrow> nat \<Rightarrow> bytes \<Rightarrow> rpc_err option"
  fe_wait :: "nat \<Rightarrow> wait_env"

record funding_run =
  fr_err :: "rpc_err option"
  fr_logs :: "funding_log list"
  fr_expected :: "u64 list"
  fr_waits :: "wait_result list"

text \<open>The part \<open>FundDynamicAccounts\<close> and \<open>FundAccounts\<close> share.\<close>

definition fund_all :: "'s tx_signer \<Rightarrow> funding_env \<Rightarrow> int \<Rightarrow> address list \<Rightarrow> manager \<Rightarrow> (funding_run \<times> manager) option" where
  "fund_all sg env amount recips m =
     (let nf = numFaucets m; n = length recips; reserved = take 1 (mg_accounts m) in
      case resync_faucets (fe_resync env) 0 nf (drop 1 (mg_accounts m)) of
        None \<Rightarrow> None
      | Some (Inl e, fs) \<Rightarrow>
          Some (\<lparr>fr_err = Some e, fr_logs = [], fr_expected = [], fr_waits = []\<rparr>, m\<lparr>mg_accounts := reserved @ fs\<rparr>)
      | Some (Inr startingNonces, fs) \<Rightarrow>
          let runs = map (\<lambda>f. fund_loop sg (fe_send env f) m amount (map (\<lambda>i. (i, recips ! i)) (stride f nf n)) 0 (fs ! f)) [0..<nf];
              expected = map (\<lambda>f. startingNonces ! f + of_nat (txsPerFaucet nf n f)) [0..<nf]
          in map_option (\<lambda>ws. (\<lparr>fr_err = None, fr_logs = map fst runs, fr_expected = expected, fr_waits = ws\<rparr>,
                 m\<lparr>mg_accounts := reserved @ map snd runs @ drop nf fs\<rparr>))
               (those (map (\<lambda>f. waitForNonceConfirmation (expected ! f) confirmTimeout (fe_wait env f)) [0..<nf])))"

lemma those_map_Some [simp]: "those (map Some xs) = Some xs"
  by (induction xs) simp_all

lemma those_total: "list_all (\<lambda>x. x \<noteq> None) xs \<Longrightarrow> those xs \<noteq> None"
  by (induction xs) auto

definition sent_ok :: "funding_log list \<Rightarrow> nat" where
  "sent_ok logs = length (filter (\<lambda>(i, tx, err). err = None) (concat logs))"

definition FundDynamicAccounts :: "'s tx_signer \<Rightarrow> funding_env \<Rightarrow> int \<Rightarrow> manager \<Rightarrow> (funding_run \<times> manager) option" where
  "FundDynamicAccounts sg env amount m =
     (if mg_dynamic m = [] then Some (\<lparr>fr_err = None, fr_logs = [], fr_expected = [], fr_waits = []\<rparr>, m)
      else case those (mg_dynamic m) of
             None \<Rightarrow> None
           | Some dyn \<Rightarrow>
               map_option (\<lambda>(run, m'). (run, m'\<lparr>mg_funded := mg_funded m' + int (sent_ok (fr_logs run))\<rparr>))
                 (fund_all sg env amount (map ta_addr dyn) m))"

definition FundAccounts :: "'s tx_signer \<Rightarrow> funding_env \<Rightarrow> int \<Rightarrow> test_account list \<Rightarrow> manager \<Rightarrow> (funding_run \<times> manager) option" where
  "FundAccounts sg env amount accs m =
     (if accs = [] then Some (\<lparr>fr_err = None, fr_logs = [], fr_expected = [], fr_waits = []\<rparr>, m)
      else fund_all sg env amount (map ta_addr accs) m)"

section \<open>Balances and recycling\<close>

text \<open>An account whose balance cannot be read is unfunded.\<close>

definition ValidateBalances ::
  "(nat \<Rightarrow> rpc_err + int) \<Rightarrow> test_account list \<Rightarrow> int \<Rightarrow> test_account list \<times> test_account list" where
  "ValidateBalances replies accs minBalance =
     (let results = map (\<lambda>i. case replies i of Inl _ \<Rightarrow> False | Inr b \<Rightarrow> minBalance \<le> b) [0..<length accs]
      in fold (\<lambda>i (funded, unfunded). if results ! i then (funded @ [accs ! i], unfunded) else (funded, unfunded @ [accs ! i]))
           [0..<length accs] ([], []))"

datatype recycle_err = BalanceFailed rpc_err | ResyncFailed rpc_err | RecycleSend send_err

definition recycle_tx :: "manager \<Rightarrow> u64 \<Rightarrow> address \<Rightarrow> int \<Rightarrow> eth_tx" where
  "recycle_tx m n to amount =
     (let gasTip = 10 ^ 9; maxFee = 10 * 10 ^ 9;
          f = \<lparr>tf_Nonce = n, tf_Gas = 21000, tf_To = Some to, tf_Value = amount, tf_Data = []\<rparr>
      in if mg_useLegacy m then LegacyTx maxFee f else DynamicFeeTx (mg_chainID m) gasTip maxFee f)"

text \<open>The transaction, if one was sent, is the first component; the deferred rollback runs on every error.\<close>

definition recycleAccountFunds ::
  "'s tx_signer \<Rightarrow> rpc_err + int \<Rightarrow> rpc_err + u64 \<Rightarrow> (bytes \<Rightarrow> rpc_err option) \<Rightarrow> manager \<Rightarrow> address \<Rightarrow> test_account \<Rightarrow>
     eth_tx option \<times> recycle_err option \<times> test_account" where
  "recycleAccountFunds sg balanceReply nonceReply send m to frm =
     (case balanceReply of
        Inl e \<Rightarrow> (None, Some (BalanceFailed e), frm)
      | Inr balance \<Rightarrow>
          let gasCost = 10 * 10 ^ 9 * 21000; sendAmount = balance - gasCost in
          if balance \<le> gasCost then (None, None, frm)
          else if sendAmount < 10 ^ 16 then (None, None, frm)
          else (case Resync (ta_acc frm) nonceReply of
                  (Some e, acc) \<Rightarrow> (None, Some (ResyncFailed e), frm\<lparr>ta_acc := acc\<rparr>)
                | (None, acc) \<Rightarrow>
                    let (n, acc1) = ReserveNonce acc; tx = recycle_tx m (Value n) to sendAmount in
                    case sign_and_send sg send (ta_addr frm) tx of
                      Some e \<Rightarrow> (None, Some (RecycleSend e), frm\<lparr>ta_acc := snd (Rollback n acc1)\<rparr>)
                    | None \<Rightarrow> (Some tx, None, frm\<lparr>ta_acc := snd (Rollback (Commit n) acc1)\<rparr>)))"

record recycle_env =
  re_balance :: "nat \<Rightarrow> rpc_err + int"
  re_nonce :: "nat \<Rightarrow> rpc_err + u64"
  re_send :: "nat \<Rightarrow> bytes \<Rightarrow> rpc_err option"

text \<open>Account \<open>i\<close> is recycled to faucet \<open>i mod numFaucets\<close>; the count and the first error are returned.\<close>

definition RecycleFunds ::
  "'s tx_signer \<Rightarrow> recycle_env \<Rightarrow> manager \<Rightarrow> ((nat \<times> recycle_err option) \<times> eth_tx option list \<times> manager) option" where
  "RecycleFunds sg env m =
     (if mg_dynamic m = [] then Some ((0, None), [], m)
      else case those (mg_dynamic m) of
             None \<Rightarrow> None
           | Some dyn \<Rightarrow>
               let nf = numFaucets m in
               if length (mg_accounts m) \<le> nf then None
               else
                 let idx = concat (map (\<lambda>f. stride f nf (length dyn)) [0..<nf]);
                     outs = map (\<lambda>i. recycleAccountFunds sg (re_balance env i) (re_nonce env i) (re_send env i) m
                       (ta_addr (mg_accounts m ! (i mod nf + 1))) (dyn ! i)) [0..<length dyn];
                     errs = List.map_filter (\<lambda>i. fst (snd (outs ! i))) idx
                 in Some ((length idx - length errs, first_error errs), map fst outs,
                      m\<lparr>mg_dynamic := map (\<lambda>r. Some (snd (snd r))) outs\<rparr>))"

section \<open>The shares of the faucets\<close>

lemma stride_filter:
  assumes "0 < s" shows "stride a s n = filter (\<lambda>i. i mod s = a mod s) [a..<n]"
proof (induction "n - a" arbitrary: a rule: less_induct)
  case less
  show ?case
  proof (cases "a < n")
    case False
    then show ?thesis by (simp add: stride.simps)
  next
    case True
    have gap: "i mod s \<noteq> a mod s" if "a < i" "i < a + s" for i
    proof
      assume "i mod s = a mod s"
      then have "s dvd i - a" using that by (simp add: mod_eq_dvd_iff_nat)
      then show False using that by (auto dest: dvd_imp_le)
    qed
    have "[a..<n] = a # [a + 1..<min (a + s) n] @ [a + s..<n]"
    proof (cases "a + s \<le> n")
      case True
      then have "[a + 1..<n] = [a + 1..<a + s] @ [a + s..<n]"
        using upt_add_eq_append [of "a + 1" "a + s" "n - (a + s)"] assms by simp
      then show ?thesis using \<open>a < n\<close> True by (simp add: upt_conv_Cons)
    qed (use True in \<open>simp add: upt_conv_Cons\<close>)
    moreover have "filter (\<lambda>i. i mod s = a mod s) [a + 1..<min (a + s) n] = []" using gap by (auto simp: filter_empty_conv)
    moreover have "stride (a + s) s n = filter (\<lambda>i. i mod s = (a + s) mod s) [a + s..<n]"
      using less [of "a + s"] True assms by simp
    ultimately show ?thesis using True assms by (subst stride.simps) simp
  qed
qed

lemma stride_share:
  assumes "f < s" shows "stride f s n = filter (\<lambda>i. i mod s = f) [0..<n]"
proof -
  have "0 < s" using assms by simp
  then have share: "stride f s n = filter (\<lambda>i. i mod s = f) [f..<n]" using assms by (simp add: stride_filter)
  have none: "filter (\<lambda>i. i mod s = f) [0..<min f n] = []" using assms by (auto simp: filter_empty_conv)
  have "[0..<n] = [0..<min f n] @ [f..<n]"
  proof (cases "f \<le> n")
    case True
    then show ?thesis using upt_add_eq_append [of 0 f "n - f"] by simp
  qed simp
  then show ?thesis using share none by simp
qed

lemma txsPerFaucet_stride: "f < nf \<Longrightarrow> txsPerFaucet nf n f = length (stride f nf n)"
  by (simp add: txsPerFaucet_def stride_share)

lemma mset_shares:
  assumes "\<And>x. x \<in> set xs \<Longrightarrow> g x < s"
  shows "mset (concat (map (\<lambda>f. filter (\<lambda>x. g x = f) xs) [0..<s])) = mset xs"
  using assms
proof (induction xs)
  case Nil
  then show ?case by (induction s) simp_all
next
  case (Cons x xs)
  have "mset (concat (map (\<lambda>f. filter (\<lambda>x. g x = f) (x # xs)) [0..<s'])) =
      mset (concat (map (\<lambda>f. filter (\<lambda>x. g x = f) xs) [0..<s'])) + (if g x < s' then {#x#} else {#})" for s'
    by (induction s') (auto simp: less_Suc_eq)
  then show ?case using Cons by simp
qed

lemma strides_partition: "0 < nf \<Longrightarrow> mset (concat (map (\<lambda>f. stride f nf n) [0..<nf])) = mset [0..<n]"
proof -
  assume "0 < nf"
  moreover have "map (\<lambda>f. stride f nf n) [0..<nf] = map (\<lambda>f. filter (\<lambda>i. i mod nf = f) [0..<n]) [0..<nf]"
    by (simp add: stride_share)
  ultimately show ?thesis using mset_shares [of "[0..<n]" "\<lambda>i. i mod nf" nf] by (simp del: map_eq_conv)
qed

section \<open>One faucet\<close>

definition sent_log :: "funding_log \<Rightarrow> funding_log" where
  "sent_log lg = filter (\<lambda>(i, tx, err). err = None) lg"

definition tx_nonce :: "eth_tx \<Rightarrow> u64" where "tx_nonce tx = tf_Nonce (fields_of tx)"

lemma tx_nonce_funding: "tx_nonce (funding_tx m n to amount) = n"
  by (simp add: tx_nonce_def funding_tx_def Let_def)

text \<open>With no free nonces a failed send puts the counter back where it was.\<close>

lemma fundAccountFast_counter:
  assumes "freeNonces (ta_acc fc) = []"
  shows "fundAccountFast sg send m fc to amount =
    (let err = sign_and_send sg send (ta_addr fc) (funding_tx m (nonce (ta_acc fc)) to amount)
     in (err, if err = None then fc\<lparr>ta_acc := (ta_acc fc)\<lparr>nonce := nonce (ta_acc fc) + 1\<rparr>\<rparr> else fc))"
  using assms by (auto simp: fundAccountFast_def ReserveNonce_def Value_def Rollback_def swap_committed_def
    rollback_def Let_def split: option.split)

lemma fund_loop_nonces:
  assumes "freeNonces (ta_acc fc) = []" "fund_loop sg send m amount rest k fc = (lg, fc')"
  shows "map fst lg = map fst rest \<and> freeNonces (ta_acc fc') = [] \<and>
    nonce (ta_acc fc') = nonce (ta_acc fc) + of_nat (length (sent_log lg)) \<and>
    map (\<lambda>(i, tx, err). tx_nonce tx) (sent_log lg) = map (\<lambda>j. nonce (ta_acc fc) + of_nat j) [0..<length (sent_log lg)]"
  using assms
proof (induction rest arbitrary: k fc lg)
  case Nil
  then show ?case by (simp add: sent_log_def)
next
  case (Cons r rest)
  obtain i to where r: "r = (i, to)" by (cases r)
  define n where "n = nonce (ta_acc fc)"
  define tx where "tx = funding_tx m n to amount"
  define err where "err = sign_and_send sg (send k) (ta_addr fc) tx"
  define fc1 where "fc1 = (if err = None then fc\<lparr>ta_acc := (ta_acc fc)\<lparr>nonce := nonce (ta_acc fc) + 1\<rparr>\<rparr> else fc)"
  obtain lg1 fc2 where rec: "fund_loop sg send m amount rest (k + 1) fc1 = (lg1, fc2)" by fastforce
  have res: "lg = (i, tx, err) # lg1" "fc' = fc2"
    using Cons.prems(2) rec
    by (simp_all add: r fundAccountFast_counter [OF Cons.prems(1)] ReserveNonce_counter [OF Cons.prems(1)] Value_def Let_def
        n_def [symmetric] tx_def [symmetric] err_def [symmetric] fc1_def [symmetric])
  have "freeNonces (ta_acc fc1) = []" using Cons.prems(1) by (simp add: fc1_def)
  note IH = Cons.IH [OF this rec [folded res(2)]]
  show ?case
  proof (cases "err = None")
    case True
    have "map (\<lambda>j. n + of_nat j) [0..<Suc l] = n # map (\<lambda>j. n + 1 + of_nat j) [0..<l]" for l
      by (simp add: upt_conv_Cons map_Suc_upt [symmetric] o_def algebra_simps del: upt_Suc)
    then show ?thesis using IH True res r
      by (simp add: sent_log_def fc1_def n_def tx_def tx_nonce_funding del: upt_Suc)
  next
    case False
    then have "fc1 = fc" by (simp add: fc1_def)
    with False show ?thesis using IH res r by (auto simp: sent_log_def)
  qed
qed

section \<open>All the faucets\<close>

text \<open>The nonce a faucet starts from: what the resync with the builder leaves.\<close>

definition faucet_start :: "(nat \<Rightarrow> rpc_err + u64) \<Rightarrow> manager \<Rightarrow> nat \<Rightarrow> u64" where
  "faucet_start replies m f = PeekNonce (snd (Resync (ta_acc (mg_accounts m ! (f + 1))) (replies f)))"

lemma Resync_ok:
  assumes "Resync a r = (None, a')" shows "freeNonces a' = []"
  using assms by (auto simp: Resync_def split: sum.splits)

lemma resync_faucets_ok:
  assumes "resync_faucets replies i k accs = Some (Inr ns, accs')"
  shows "k \<le> length accs \<and> length accs' = length accs \<and> length ns = k \<and>
    (\<forall>j < k. ns ! j = nonce (ta_acc (accs' ! j)) \<and> nonce (ta_acc (accs' ! j)) = PeekNonce (snd (Resync (ta_acc (accs ! j)) (replies (i + j)))) \<and>
       freeNonces (ta_acc (accs' ! j)) = [])"
  using assms
proof (induction replies i k accs arbitrary: ns accs' rule: resync_faucets.induct)
  case (3 replies i k a accs)
  obtain acc where acc: "Resync (ta_acc a) (replies i) = (None, acc)"
    using 3(2) by (cases "Resync (ta_acc a) (replies i)") (auto split: option.splits)
  obtain ns1 accs1 where rec: "resync_faucets replies (i + 1) k accs = Some (Inr ns1, accs1)"
    and out: "ns = PeekNonce acc # ns1" "accs' = a\<lparr>ta_acc := acc\<rparr> # accs1"
    using 3(2) by (auto simp: acc split: option.splits sum.splits)
  note IH = 3(1) [OF acc [symmetric] refl rec]
  have "ns ! j = nonce (ta_acc (accs' ! j)) \<and> nonce (ta_acc (accs' ! j)) = PeekNonce (snd (Resync (ta_acc ((a # accs) ! j)) (replies (i + j)))) \<and>
       freeNonces (ta_acc (accs' ! j)) = []" if "j < Suc k" for j
    using that IH Resync_ok [OF acc] acc by (cases j) (simp_all add: out PeekNonce_def)
  then show ?case using IH by (simp add: out)
qed simp_all

lemma resync_faucets_total:
  assumes "k \<le> length accs" shows "resync_faucets replies i k accs \<noteq> None"
  using assms
proof (induction replies i k accs rule: resync_faucets.induct)
  case (3 replies i k a accs)
  show ?case
  proof (cases "Resync (ta_acc a) (replies i)")
    case (Pair e acc)
    show ?thesis
    proof (cases e)
      case None
      then have "resync_faucets replies (i + 1) k accs \<noteq> None" using 3 Pair by simp
      then show ?thesis using Pair None by (auto split: option.split sum.split)
    qed (simp add: Pair)
  qed
qed simp_all

text \<open>The faucet's run: its log, its counter afterwards and the nonce that is waited for.\<close>

definition faucet_run_ok :: "u64 \<Rightarrow> nat list \<Rightarrow> funding_log \<Rightarrow> u64 \<Rightarrow> u64 \<Rightarrow> bool" where
  "faucet_run_ok from_n share lg counter expected \<longleftrightarrow>
     map fst lg = share \<and>
     map (\<lambda>(i, tx, err). tx_nonce tx) (sent_log lg) = map (\<lambda>j. from_n + of_nat j) [0..<length (sent_log lg)] \<and>
     counter = from_n + of_nat (length (sent_log lg)) \<and>
     expected = counter + of_nat (length lg - length (sent_log lg))"

lemma fund_all_runs:
  assumes "fund_all sg env amount recips m = Some (run, m')" "fr_err run = None"
  shows "length (fr_logs run) = numFaucets m \<and> length (fr_expected run) = numFaucets m \<and> mg_funded m' = mg_funded m \<and>
    (\<forall>f < numFaucets m. faucet_run_ok (faucet_start (fe_resync env) m f) (stride f (numFaucets m) (length recips)) (fr_logs run ! f)
       (nonce (ta_acc (mg_accounts m' ! (f + 1)))) (fr_expected run ! f))"
proof -
  define nf where "nf = numFaucets m"
  define n where "n = length recips"
  obtain ns fs where rs: "resync_faucets (fe_resync env) 0 nf (drop 1 (mg_accounts m)) = Some (Inr ns, fs)"
    using assms by (auto simp: fund_all_def Let_def nf_def [symmetric] split: option.splits sum.splits)
  note ok = resync_faucets_ok [OF rs]
  define runs where "runs = map (\<lambda>f. fund_loop sg (fe_send env f) m amount (map (\<lambda>i. (i, recips ! i)) (stride f nf n)) 0 (fs ! f)) [0..<nf]"
  define expected where "expected = map (\<lambda>f. ns ! f + of_nat (txsPerFaucet nf n f)) [0..<nf]"
  have out: "fr_logs run = map fst runs" "fr_expected run = expected" "mg_funded m' = mg_funded m"
    "mg_accounts m' = take 1 (mg_accounts m) @ map snd runs @ drop nf fs"
    using assms rs by (auto simp: fund_all_def Let_def nf_def [symmetric] n_def [symmetric] runs_def expected_def)
  have nf: "0 < nf" by (simp add: nf_def numFaucets_def Let_def)
  then have accs: "mg_accounts m \<noteq> []" using ok by auto
  then obtain a0 where one: "take 1 (mg_accounts m) = [a0]" by (cases "mg_accounts m") auto
  have after: "mg_accounts m' ! (f + 1) = snd (runs ! f)" if "f < nf" for f
    using that by (simp add: out(4) one nth_append runs_def del: One_nat_def)
  have "faucet_run_ok (faucet_start (fe_resync env) m f) (stride f nf n) (fr_logs run ! f)
       (nonce (ta_acc (mg_accounts m' ! (f + 1)))) (fr_expected run ! f)" if f: "f < nf" for f
  proof -
    obtain lg fc where run: "fund_loop sg (fe_send env f) m amount (map (\<lambda>i. (i, recips ! i)) (stride f nf n)) 0 (fs ! f) = (lg, fc)"
      by fastforce
    have st: "ns ! f = faucet_start (fe_resync env) m f" "ns ! f = nonce (ta_acc (fs ! f))" "freeNonces (ta_acc (fs ! f)) = []"
      using ok f accs nth_drop [of 1 "mg_accounts m" f] by (auto simp: faucet_start_def Suc_le_eq)
    have "mg_accounts m' ! (f + 1) = fc" "fr_logs run ! f = lg" "fr_expected run ! f = ns ! f + of_nat (length (stride f nf n))"
      using f run by (simp_all add: after out(1,2) runs_def expected_def txsPerFaucet_stride del: One_nat_def)
    moreover have "length (sent_log lg) \<le> length lg" by (simp add: sent_log_def)
    moreover have share: "map fst lg = stride f nf n" using fund_loop_nonces [OF st(3) run] by (simp add: o_def)
    moreover have "length (stride f nf n) = length lg" using arg_cong [OF share, of length] by simp
    ultimately show ?thesis using fund_loop_nonces [OF st(3) run] st by (simp add: faucet_run_ok_def)
  qed
  then show ?thesis using out by (simp add: nf_def n_def runs_def expected_def)
qed

lemma fund_loop_pays:
  "list_all (\<lambda>(i, tx, err). \<exists>to. (i, to) \<in> set rest \<and> tf_To (fields_of tx) = Some to \<and> tf_Value (fields_of tx) = amount)
     (fst (fund_loop sg send m amount rest k fc))"
proof (induction rest arbitrary: k fc)
  case (Cons r rest)
  obtain i to where r: "r = (i, to)" by (cases r)
  have to: "tf_To (fields_of (funding_tx m n to amount)) = Some to \<and> tf_Value (fields_of (funding_tx m n to amount)) = amount" for n
    by (simp add: funding_tx_def Let_def)
  show ?case
    using Cons.IH [of "k + 1" "snd (fundAccountFast sg (send k) m fc to amount)"] to
    by (force simp: r Let_def case_prod_beta list_all_iff)
qed simp

lemma fund_all_pays:
  assumes "fund_all sg env amount recips m = Some (run, m')"
  shows "list_all (\<lambda>(i, tx, err). tf_To (fields_of tx) = Some (recips ! i) \<and> tf_Value (fields_of tx) = amount) (concat (fr_logs run))"
proof -
  let ?P = "\<lambda>(i, tx, err). tf_To (fields_of tx) = Some (recips ! i) \<and> tf_Value (fields_of tx) = amount"
  have pays: "list_all ?P (fst (fund_loop sg send m amount (map (\<lambda>i. (i, recips ! i)) is) k fc))" for "is" send k fc
    using fund_loop_pays [of "map (\<lambda>i. (i, recips ! i)) is" amount sg send m k fc] by (auto simp: list_all_iff)
  have "list_all (list_all ?P) (fr_logs run)"
    using assms by (cases "fr_err run") (auto simp: fund_all_def Let_def list.pred_map o_def list.pred_True pays
      split: option.splits sum.splits)
  then show ?thesis by (simp add: list_all_iff)
qed

lemma fund_all_covers:
  assumes "fund_all sg env amount recips m = Some (run, m')" "fr_err run = None"
  shows "mset (map fst (concat (fr_logs run))) = mset [0..<length recips]"
proof -
  define nf where "nf = numFaucets m"
  have nf: "0 < nf" by (simp add: nf_def numFaucets_def Let_def)
  have len: "length (fr_logs run) = nf"
    and each: "\<And>f. f < nf \<Longrightarrow> map fst (fr_logs run ! f) = stride f nf (length recips)"
    using fund_all_runs [OF assms] by (auto simp: nf_def [symmetric] faucet_run_ok_def)
  have "map (map fst) (fr_logs run) = map (\<lambda>f. stride f nf (length recips)) [0..<nf]"
    using len each by (intro nth_equalityI) simp_all
  then show ?thesis using strides_partition [OF nf] by (simp add: map_concat del: map_eq_conv)
qed

lemma FundDynamicAccounts_all:
  assumes "mg_dynamic m = map Some dyn" "dyn \<noteq> []"
  shows "FundDynamicAccounts sg env amount m =
    map_option (\<lambda>(run, m'). (run, m'\<lparr>mg_funded := mg_funded m' + int (sent_ok (fr_logs run))\<rparr>)) (fund_all sg env amount (map ta_addr dyn) m)"
  using assms by (simp add: FundDynamicAccounts_def those_map_Some)

section \<open>Waiting\<close>

lemma wait_ends:
  assumes "\<And>k. wt_start w + int k * pollInterval \<le> wt_time w k"
  shows "waitForNonceConfirmation expected confirmTimeout w \<noteq> None"
proof -
  have "wt_start w + confirmTimeout \<le> wt_time w 240" using assms [of 240] by (simp add: confirmTimeout_def pollInterval_def)
  then have "wait_step expected (wt_start w + confirmTimeout) w 240 \<noteq> None" by (simp add: wait_step_def)
  from poll_loop_first [where step = "wait_step expected (wt_start w + confirmTimeout) w" and k = 0, OF this] show ?thesis by (auto simp: waitForNonceConfirmation_def)
qed

lemma wait_confirmed:
  assumes "waitForNonceConfirmation expected timeout w = Some WaitConfirmed"
    "\<And>k. wt_start w + int k * pollInterval \<le> wt_time w k"
  shows "\<exists>k n. wt_time w k < wt_start w + timeout \<and> wt_nonce w k = Inr n \<and> expected \<le> n"
proof -
  define N where "N = nat timeout"
  have "timeout \<le> int N" by (simp add: N_def)
  also have "int N \<le> int N * pollInterval" by (simp add: pollInterval_def)
  finally have "wait_step expected (wt_start w + timeout) w N \<noteq> None"
    using assms(2) [of N] by (simp add: wait_step_def)
  from poll_loop_first [where step = "wait_step expected (wt_start w + timeout) w" and k = 0, OF this] obtain k where "wait_step expected (wt_start w + timeout) w k = Some WaitConfirmed"
    using assms(1) by (auto simp: waitForNonceConfirmation_def)
  then show ?thesis by (auto simp: wait_step_def split: if_splits sum.splits)
qed

lemma fund_all_total:
  assumes "2 \<le> length (mg_accounts m)"
    "\<And>f k. wt_start (fe_wait env f) + int k * pollInterval \<le> wt_time (fe_wait env f) k"
  shows "fund_all sg env amount recips m \<noteq> None"
proof -
  have "numFaucets m \<le> length (drop 1 (mg_accounts m))" using assms(1) by (simp add: numFaucets_def Let_def)
  from resync_faucets_total [OF this] obtain r fs
    where "resync_faucets (fe_resync env) 0 (numFaucets m) (drop 1 (mg_accounts m)) = Some (r, fs)" by fastforce
  moreover have "those (map (\<lambda>f. waitForNonceConfirmation (e f) confirmTimeout (fe_wait env f)) [0..<numFaucets m]) \<noteq> None" for e
    using wait_ends [OF assms(2)] by (intro those_total) (simp add: list_all_iff)
  ultimately show ?thesis by (cases r) (simp_all add: fund_all_def Let_def)
qed

section \<open>Funding: the results\<close>

text \<open>
  C24: A funding run through any number of faucets, whatever sends fail: every generated account is paid
  once, by a transaction to its address with the amount asked for; the accepted transactions of a faucet
  carry consecutive nonces from the one its resync left, without a gap; its counter ends right behind
  them; the funded count grows by the number of accepted transactions; and the nonce that is waited for is
  the counter plus the number of failed sends.
\<close>
theorem funding_without_gaps:
  assumes run: "FundDynamicAccounts sg env amount m = Some (run, m')" "fr_err run = None"
    and dyn: "mg_dynamic m = map Some dyn" "dyn \<noteq> []"
  shows "mset (map fst (concat (fr_logs run))) = mset [0..<length dyn] \<and>
    list_all (\<lambda>(i, tx, err). tf_To (fields_of tx) = Some (ta_addr (dyn ! i)) \<and> tf_Value (fields_of tx) = amount) (concat (fr_logs run)) \<and>
    list_all (\<lambda>f. faucet_run_ok (faucet_start (fe_resync env) m f) (stride f (numFaucets m) (length dyn)) (fr_logs run ! f)
       (nonce (ta_acc (mg_accounts m' ! (f + 1)))) (fr_expected run ! f)) [0..<numFaucets m] \<and>
    mg_funded m' = mg_funded m + int (sent_ok (fr_logs run))"
proof -
  obtain m1 where all: "fund_all sg env amount (map ta_addr dyn) m = Some (run, m1)"
    and m': "m' = m1\<lparr>mg_funded := mg_funded m1 + int (sent_ok (fr_logs run))\<rparr>"
    using run(1) by (auto simp: FundDynamicAccounts_all [OF dyn])
  note covers = fund_all_covers [OF all run(2)] and runs = fund_all_runs [OF all run(2)]
  have 1: "mset (map fst (concat (fr_logs run))) = mset [0..<length dyn]" using covers by simp
  have "(i, tx, err) \<in> set (concat (fr_logs run)) \<Longrightarrow> i < length dyn" for i tx err
    using arg_cong [OF covers, of set_mset] by force
  then have 2: "list_all (\<lambda>(i, tx, err). tf_To (fields_of tx) = Some (ta_addr (dyn ! i)) \<and> tf_Value (fields_of tx) = amount) (concat (fr_logs run))"
    using fund_all_pays [OF all] by (fastforce simp: list_all_iff)
  have 3: "list_all (\<lambda>f. faucet_run_ok (faucet_start (fe_resync env) m f) (stride f (numFaucets m) (length dyn)) (fr_logs run ! f)
       (nonce (ta_acc (mg_accounts m' ! (f + 1)))) (fr_expected run ! f)) [0..<numFaucets m]"
    using runs by (simp add: list_all_iff m')
  have "mg_funded m' = mg_funded m + int (sent_ok (fr_logs run))" using runs by (simp add: m')
  with 1 2 3 show ?thesis by blast
qed

text \<open>
  C25: Funding always returns, whatever the nodes answer, when there are two built-in accounts and each
  round of a wait takes at least the poll interval: the wait for the nonces of a faucet ends by its
  two-minute deadline at the latest, also when failed sends have made its nonce unreachable.
\<close>
theorem funding_returns:
  assumes "2 \<le> length (mg_accounts m)" "mg_dynamic m = map Some dyn"
    "\<And>f k. wt_start (fe_wait env f) + int k * pollInterval \<le> wt_time (fe_wait env f) k"
  shows "FundDynamicAccounts sg env amount m \<noteq> None"
proof (cases "dyn = []")
  case True
  then show ?thesis using assms(2) by (simp add: FundDynamicAccounts_def)
next
  case False
  then show ?thesis using fund_all_total [OF assms(1,3)] by (simp add: FundDynamicAccounts_all [OF assms(2)])
qed

section \<open>Generated accounts\<close>

lemma work_ranges_cover:
  "concat (map (\<lambda>(s, e). [s..<e]) (work_ranges n ws w k)) = [w * ws..<min n ((w + k) * ws)]"
proof (induction k arbitrary: w)
  case (Suc k)
  show ?case
  proof (cases "n \<le> w * ws")
    case False
    have "[w * ws..<min n (w * ws + ws)] @ [w * ws + ws..<min n (w * ws + ws + k * ws)] = [w * ws..<min n (w * ws + ws + k * ws)]"
    proof (cases "w * ws + ws \<le> n")
      case True
      then show ?thesis using upt_add_eq_append [of "w * ws" "w * ws + ws" "min n (w * ws + ws + k * ws) - (w * ws + ws)"]
        by (simp add: min_def)
    qed (simp add: min_def)
    then show ?thesis using Suc [of "w + 1"] False by (simp add: Let_def min_def algebra_simps split: if_splits)
  qed simp
qed simp

lemma key_ranges_cover:
  assumes "0 < maxProcs" shows "concat (map (\<lambda>(s, e). [s..<e]) (key_ranges n maxProcs)) = [0..<n]"
proof -
  define nw where "nw = (if 16 < maxProcs then 16 else maxProcs)"
  have "0 < nw" using assms by (simp add: nw_def)
  then have "n \<le> nw * ((n + nw - 1) div nw)"
  proof -
    have "(n + nw - 1) div nw * nw + (n + nw - 1) mod nw = n + nw - 1" by (rule div_mult_mod_eq)
    moreover have "(n + nw - 1) mod nw \<le> nw - 1" using mod_less_divisor [OF \<open>0 < nw\<close>, of "n + nw - 1"] by linarith
    ultimately have "n \<le> (n + nw - 1) div nw * nw" using \<open>0 < nw\<close> by linarith
    then show ?thesis by (simp add: mult.commute)
  qed
  then show ?thesis using work_ranges_cover [of n _ 0 nw] by (simp add: key_ranges_def Let_def nw_def [symmetric] min_def)
qed

lemma gen_range_append:
  "gen_range keys (xs @ ys) dyn = (let (ok, d) = gen_range keys xs dyn in if ok then gen_range keys ys d else (ok, d))"
  by (induction xs arbitrary: dyn) (simp_all add: Let_def split: option.split)

lemma gen_range_all:
  assumes "list_all (\<lambda>i. keys i \<noteq> None) xs"
  shows "gen_range keys xs dyn = (True, fold (\<lambda>i d. d[i := Some \<lparr>ta_addr = the (keys i), ta_acc = NewAccount\<rparr>]) xs dyn)"
  using assms by (induction xs arbitrary: dyn) auto

lemma gen_ranges_all:
  assumes "list_all (\<lambda>i. keys i \<noteq> None) (concat (map (\<lambda>(s, e). [s..<e]) rs))"
  shows "gen_ranges keys rs dyn = gen_range keys (concat (map (\<lambda>(s, e). [s..<e]) rs)) dyn"
  using assms
  by (induction rs arbitrary: dyn) (auto simp: Let_def gen_range_all)

lemma fold_store:
  "fold (\<lambda>i d. d[i := h i]) [0..<n] d = map h [0..<min n (length d)] @ drop n d"
proof (induction n)
  case (Suc n)
  show ?case
  proof (cases "n < length d")
    case True
    then have "drop n d = d ! n # drop (Suc n) d" by (simp add: Cons_nth_drop_Suc)
    then show ?thesis using Suc True by (simp add: list_update_append min_def)
  next
    case False
    then show ?thesis using Suc by (simp add: min_def list_update_beyond)
  qed
qed simp

text \<open>
  Whatever number of processors the key generation is split over, every account of a call with
  \<open>n\<close> is generated, exactly once and in its slot: the ranges of the workers cover the indices
  also when the workers do not divide their number or are more than the accounts.
\<close>
theorem generation_fills_every_slot:
  assumes "0 < maxProcs" "list_all (\<lambda>i. keys i \<noteq> None) [0..<n]"
  shows "GenerateDynamicAccounts maxProcs keys n m =
     (True, m\<lparr>mg_dynamic := map (\<lambda>i. Some \<lparr>ta_addr = the (keys i), ta_acc = NewAccount\<rparr>) [0..<n], mg_funded := 0\<rparr>)"
  using assms by (simp add: GenerateDynamicAccounts_def gen_ranges_all key_ranges_cover gen_range_all fold_store)

section \<open>Balances and recycling: the results\<close>

lemma ValidateBalances_partition:
  "ValidateBalances replies accs b =
     (let ok = \<lambda>i. case replies i of Inl _ \<Rightarrow> False | Inr v \<Rightarrow> b \<le> v
      in (map ((!) accs) (filter ok [0..<length accs]), map ((!) accs) (filter (\<lambda>i. \<not> ok i) [0..<length accs])))"
proof -
  define ok where "ok = (\<lambda>i. case replies i of Inl _ \<Rightarrow> False | Inr v \<Rightarrow> b \<le> v)"
  have split: "fold (\<lambda>i (fs, us). if ok i then (fs @ [accs ! i], us) else (fs, us @ [accs ! i])) xs (fs, us) =
      (fs @ map ((!) accs) (filter ok xs), us @ map ((!) accs) (filter (\<lambda>i. \<not> ok i) xs))" for xs fs us
    by (induction xs arbitrary: fs us) auto
  have "ValidateBalances replies accs b =
      fold (\<lambda>i (fs, us). if map ok [0..<length accs] ! i then (fs @ [accs ! i], us) else (fs, us @ [accs ! i])) [0..<length accs] ([], [])"
    by (simp add: ValidateBalances_def ok_def)
  also have "\<dots> = fold (\<lambda>i (fs, us). if ok i then (fs @ [accs ! i], us) else (fs, us @ [accs ! i])) [0..<length accs] ([], [])"
    by (rule fold_cong) (simp_all add: fun_eq_iff)
  finally show ?thesis unfolding split by (simp add: ok_def Let_def)
qed

text \<open>The most a transaction can cost its sender.\<close>

fun tx_fee_cap :: "eth_tx \<Rightarrow> int" where
  "tx_fee_cap (LegacyTx p f) = p"
| "tx_fee_cap (DynamicFeeTx c t p f) = p"

definition tx_max_cost :: "eth_tx \<Rightarrow> int" where
  "tx_max_cost tx = tf_Value (fields_of tx) + tx_fee_cap tx * int (unat (tf_Gas (fields_of tx)))"

lemma recycleAccountFunds_tx:
  assumes "recycleAccountFunds sg bal nr send m to frm = (Some tx, e, frm')"
  shows "e = None \<and> bal = Inr (tx_max_cost tx) \<and> 10 ^ 16 \<le> tf_Value (fields_of tx) \<and> tf_To (fields_of tx) = Some to \<and>
    tx_nonce tx = PeekNonce (snd (Resync (ta_acc frm) nr)) \<and> PeekNonce (ta_acc frm') = tx_nonce tx + 1"
proof -
  obtain b where bal: "bal = Inr b" using assms by (cases bal) (simp_all add: recycleAccountFunds_def)
  have enough: "\<not> b \<le> 10 * 10 ^ 9 * 21000" "\<not> b - 10 * 10 ^ 9 * 21000 < 10 ^ 16"
    using assms by (auto simp: bal recycleAccountFunds_def Let_def split: if_splits)
  obtain acc where acc: "Resync (ta_acc frm) nr = (None, acc)"
    using assms enough by (cases "Resync (ta_acc frm) nr"; cases "fst (Resync (ta_acc frm) nr)")
      (auto simp: bal recycleAccountFunds_def Let_def split: if_splits)
  have free: "freeNonces acc = []" using Resync_ok [OF acc] .
  define t where "t = recycle_tx m (nonce acc) to (b - 10 * 10 ^ 9 * 21000)"
  have "sign_and_send sg send (ta_addr frm) t = None"
    and out: "tx = t" "e = None" "frm' = frm\<lparr>ta_acc := acc\<lparr>nonce := nonce acc + 1\<rparr>\<rparr>"
    using assms enough by (auto simp: bal acc recycleAccountFunds_def Let_def ReserveNonce_counter [OF free] Value_def t_def
      Commit_def Rollback_def swap_committed_def split: option.splits)
  have t: "tf_Value (fields_of t) = b - 10 * 10 ^ 9 * 21000" "tx_fee_cap t = 10 * 10 ^ 9" "tf_Gas (fields_of t) = 21000"
    "tf_To (fields_of t) = Some to" "tf_Nonce (fields_of t) = nonce acc"
    by (simp_all add: t_def recycle_tx_def Let_def)
  then show ?thesis using enough by (simp add: out bal acc tx_max_cost_def tx_nonce_def PeekNonce_def)
qed

text \<open>
  Recycling sends each account's whole balance but the most the transfer can cost: a transaction of
  account \<open>i\<close> goes to the faucet of its share, its value and its maximal fee add up to the balance the
  node reported, and no transfer is below 0.01 ether; accounts are handled independently, so one that
  fails does not keep another from being recycled.
\<close>
theorem recycling_empties_accounts:
  assumes "RecycleFunds sg env m = Some (res, txs, m')" "mg_dynamic m = map Some dyn" "i < length txs" "txs ! i = Some tx"
  shows "i < length dyn \<and> re_balance env i = Inr (tx_max_cost tx) \<and> 10 ^ 16 \<le> tf_Value (fields_of tx) \<and>
    tf_To (fields_of tx) = Some (ta_addr (mg_accounts m ! (i mod numFaucets m + 1))) \<and>
    (\<exists>a. mg_dynamic m' ! i = Some a \<and> PeekNonce (ta_acc a) = tx_nonce tx + 1)"
proof -
  define out where "out = (\<lambda>i. recycleAccountFunds sg (re_balance env i) (re_nonce env i) (re_send env i) m
      (ta_addr (mg_accounts m ! (i mod numFaucets m + 1))) (dyn ! i))"
  have ne: "dyn \<noteq> []" using assms by (auto simp: RecycleFunds_def)
  then have txs: "txs = map (\<lambda>i. fst (out i)) [0..<length dyn]"
    and dyn': "mg_dynamic m' = map (\<lambda>i. Some (snd (snd (out i)))) [0..<length dyn]"
    using assms(1) by (auto simp: RecycleFunds_def assms(2) Let_def out_def o_def split: if_splits)
  have i: "i < length dyn" using assms(3) by (simp add: txs)
  then obtain e a where o: "out i = (Some tx, e, a)" using assms(4) by (cases "out i") (simp add: txs)
  show ?thesis using i recycleAccountFunds_tx [OF o [unfolded out_def]] by (simp add: dyn' o)
qed

text \<open>An account with too little is counted as recycled although nothing was sent for it.\<close>

lemma recycling_counts_poor_accounts:
  "recycleAccountFunds sg (Inr 0) nr send m to frm = (None, None, frm)"
  by (simp add: recycleAccountFunds_def Let_def)

section \<open>Witnesses\<close>

text \<open>Two built-in accounts, three generated ones; the node refuses the second send.\<close>

definition demo_accounts :: "nat \<Rightarrow> test_account list" where
  "demo_accounts n = map (\<lambda>i. \<lparr>ta_addr = of_nat i, ta_acc = NewAccount\<rparr>) [0..<n]"

definition demo_signer :: "(address \<times> eth_tx) tx_signer" where
  "demo_signer = \<lparr>sg_sign = (\<lambda>a tx. Some (a, tx)), sg_encode = (\<lambda>s. Some [])\<rparr>"

definition demo_manager :: manager where
  "demo_manager = SetDynamicAccounts (demo_accounts 3) (NewManager (demo_accounts 2) 1337 (10 ^ 9) False)"

definition demo_wait :: wait_env where
  "demo_wait = \<lparr>wt_start = 0, wt_time = (\<lambda>k. int k * pollInterval), wt_nonce = (\<lambda>k. Inr 10), wt_done = (\<lambda>k. False)\<rparr>"

definition demo_funding :: funding_env where
  "demo_funding = \<lparr>fe_resync = (\<lambda>f. Inr 7), fe_send = (\<lambda>f k d. if k = 1 then Some CtxErr else None), fe_wait = (\<lambda>f. demo_wait)\<rparr>"

definition demo_run :: "funding_run \<times> manager" where
  "demo_run = the (FundDynamicAccounts demo_signer demo_funding 5 demo_manager)"

lemma demo_wait_done: "n \<le> 10 \<Longrightarrow> waitForNonceConfirmation n confirmTimeout demo_wait = Some WaitConfirmed"
  by (simp add: waitForNonceConfirmation_def poll_loop_now wait_step_def demo_wait_def confirmTimeout_def pollInterval_def)

lemma demo_run_ok: "FundDynamicAccounts demo_signer demo_funding 5 demo_manager = Some demo_run \<and> fr_err (fst demo_run) = None"
proof -
  have "stride 0 1 3 = [0, 1, 2]" by (simp add: stride.simps)
  then show ?thesis
    by (simp add: demo_run_def FundDynamicAccounts_def fund_all_def demo_manager_def SetDynamicAccounts_def NewManager_def
        demo_accounts_def numFaucets_def demo_funding_def Resync_def set_if_higher_def NewAccount_def txsPerFaucet_def Let_def
        demo_wait_done PeekNonce_def upt_conv_Cons)
qed

lemma demo_manager_dynamic: "mg_dynamic demo_manager = map Some (demo_accounts 3)" "demo_accounts 3 \<noteq> []" "length (demo_accounts 3) = 3"
  by (simp_all add: demo_manager_def SetDynamicAccounts_def demo_accounts_def)

theorem funding_without_gaps_witness:
  "mset (map fst (concat (fr_logs (fst demo_run)))) = mset [0..<3] \<and>
   list_all (\<lambda>f. faucet_run_ok (faucet_start (\<lambda>f. Inr 7) demo_manager f) (stride f (numFaucets demo_manager) 3)
     (fr_logs (fst demo_run) ! f) (nonce (ta_acc (mg_accounts (snd demo_run) ! (f + 1)))) (fr_expected (fst demo_run) ! f)) [0..<numFaucets demo_manager] \<and>
   mg_funded (snd demo_run) = mg_funded demo_manager + int (sent_ok (fr_logs (fst demo_run)))"
  using funding_without_gaps [of demo_signer demo_funding 5 demo_manager "fst demo_run" "snd demo_run" "demo_accounts 3"]
    demo_run_ok demo_manager_dynamic
  by (simp add: demo_funding_def)

theorem funding_returns_witness: "FundDynamicAccounts demo_signer demo_funding 5 demo_manager \<noteq> None"
  by (rule funding_returns [OF _ demo_manager_dynamic(1)])
    (simp_all add: demo_manager_def SetDynamicAccounts_def NewManager_def demo_accounts_def demo_funding_def demo_wait_def pollInterval_def)

theorem generation_fills_every_slot_witness:
  "GenerateDynamicAccounts 16 (\<lambda>i. Some (of_nat i)) 20 demo_manager =
     (True, demo_manager\<lparr>mg_dynamic := map (\<lambda>i. Some \<lparr>ta_addr = of_nat i, ta_acc = NewAccount\<rparr>) [0..<20], mg_funded := 0\<rparr>)"
  using generation_fills_every_slot [of 16 "\<lambda>i. Some (of_nat i)" 20 demo_manager] by (simp add: list_all_iff)

definition demo_recycle :: recycle_env where
  "demo_recycle = \<lparr>re_balance = (\<lambda>i. if i = 1 then Inl CtxErr else Inr (10 ^ 18)), re_nonce = (\<lambda>i. Inr 4), re_send = (\<lambda>i d. None)\<rparr>"

lemma demo_recycled:
  "\<exists>res m'. RecycleFunds demo_signer demo_recycle demo_manager =
     Some (res, [Some (DynamicFeeTx 1337 (10 ^ 9) (10 ^ 10) \<lparr>tf_Nonce = 4, tf_Gas = 21000, tf_To = Some 1, tf_Value = 10 ^ 18 - 21 * 10 ^ 13, tf_Data = []\<rparr>),
       None, Some (DynamicFeeTx 1337 (10 ^ 9) (10 ^ 10) \<lparr>tf_Nonce = 4, tf_Gas = 21000, tf_To = Some 1, tf_Value = 10 ^ 18 - 21 * 10 ^ 13, tf_Data = []\<rparr>)], m')"
  by (simp add: RecycleFunds_def demo_manager_def SetDynamicAccounts_def NewManager_def demo_accounts_def demo_recycle_def numFaucets_def
      recycleAccountFunds_def Resync_def set_if_higher_def NewAccount_def ReserveNonce_def recycle_tx_def sign_and_send_def demo_signer_def
      Value_def Let_def upt_conv_Cons)

theorem recycling_empties_accounts_witness:
  "\<exists>res txs m' tx. RecycleFunds demo_signer demo_recycle demo_manager = Some (res, txs, m') \<and> txs ! 2 = Some tx \<and>
     tx_max_cost tx = 10 ^ 18 \<and> (\<exists>a. mg_dynamic m' ! 2 = Some a \<and> PeekNonce (ta_acc a) = tx_nonce tx + 1)"
proof -
  obtain res m' tx tx' where run: "RecycleFunds demo_signer demo_recycle demo_manager = Some (res, [Some tx, None, Some tx'], m')"
    using demo_recycled by blast
  from recycling_empties_accounts [OF run demo_manager_dynamic(1), of 2 tx'] run show ?thesis
    by (auto simp: demo_recycle_def)
qed

end
