(* ===== verification/Store_Schema.thy ===== *)
theory Store_Schema
  imports Prelude "HOL-Library.Char_ord"
begin

text \<open>
  The schema of \<open>internal/storage/sqlite.go\<close>: which columns the tables have after \<open>migrate\<close>, on a new
  database and on one an older version of the program left behind.  A schema maps a table to its columns
  in order; types, defaults and indices of the columns play no role here.  The engine executes the two
  \<open>CREATE\<close> scripts and answers the column queries; whether one of its calls fails is a parameter.
\<close>

type_synonym schema = "(string, string list) gomap"

section \<open>Column names\<close>

definition isIdentChar :: "char \<Rightarrow> bool" where
  "isIdentChar c \<longleftrightarrow>
     (CHR ''a'' \<le> c \<and> c \<le> CHR ''z'') \<or> (CHR ''A'' \<le> c \<and> c \<le> CHR ''Z'') \<or> (CHR ''0'' \<le> c \<and> c \<le> CHR ''9'') \<or> c = CHR ''_''"

definition isValidIdentifier :: "string \<Rightarrow> bool" where
  "isValidIdentifier s \<longleftrightarrow> \<not> (length s = 0 \<or> 128 < length s) \<and> list_all isIdentChar s"

text \<open>A query that fails reads as an absent column.\<close>

definition columnExists :: "bool \<Rightarrow> string \<Rightarrow> string \<Rightarrow> schema \<Rightarrow> bool" where
  "columnExists queryOk table column sch \<longleftrightarrow>
     isValidIdentifier table \<and> isValidIdentifier column \<and> queryOk \<and>
     (case map_get sch table of None \<Rightarrow> False | Some cols \<Rightarrow> column \<in> set cols)"

section \<open>The migration\<close>

definition test_runs_columns :: "string list" where
  "test_runs_columns =
     [''id'', ''started_at'', ''completed_at'', ''pattern'', ''transaction_type'', ''duration_ms'', ''tx_sent'', ''tx_confirmed'',
      ''tx_failed'', ''tx_discarded'', ''average_tps'', ''peak_tps'', ''latency_stats'', ''preconf_latency_stats'', ''config'',
      ''status'', ''error_message'', ''tx_logging_enabled'', ''execution_layer'', ''block_count'', ''total_gas_used'',
      ''avg_fill_rate'', ''peak_mgas_per_sec'', ''avg_mgas_per_sec'', ''custom_name'', ''is_favorite'']"

definition time_series_columns :: "string list" where
  "time_series_columns =
     [''id'', ''test_run_id'', ''timestamp_ms'', ''tx_sent'', ''tx_confirmed'', ''tx_failed'', ''current_tps'', ''target_tps'',
      ''pending_count'', ''gas_used'', ''gas_limit'', ''block_count'', ''mgas_per_sec'', ''fill_rate'']"

definition tx_logs_columns :: "string list" where
  "tx_logs_columns =
     [''id'', ''test_run_id'', ''tx_hash'', ''sent_at_ms'', ''confirmed_at_ms'', ''preconf_at_ms'', ''confirm_latency_ms'',
      ''preconf_latency_ms'', ''status'', ''error_reason'', ''from_account'', ''nonce'', ''gas_tip_gwei'']"

definition cached_accounts_columns :: "string list" where
  "cached_accounts_columns = [''address'', ''private_key_hex'', ''chain_id'', ''created_at'', ''uniswap_ready'']"

definition cached_contracts_columns :: "string list" where
  "cached_contracts_columns = [''name'', ''address'', ''chain_id'', ''created_at'']"

definition create_if_not_exists :: "string \<times> string list \<Rightarrow> schema \<Rightarrow> schema" where
  "create_if_not_exists tc sch = (case map_get sch (fst tc) of None \<Rightarrow> map_put (fst tc) (snd tc) sch | Some _ \<Rightarrow> sch)"

definition main_tables :: "(string \<times> string list) list" where
  "main_tables =
     [(''test_runs'', test_runs_columns), (''time_series'', time_series_columns), (''tx_logs'', tx_logs_columns)]"

definition cache_tables :: "(string \<times> string list) list" where
  "cache_tables = [(''cached_accounts'', cached_accounts_columns), (''cached_contracts'', cached_contracts_columns)]"

definition migrations :: "(string \<times> string) list" where
  "migrations =
     [(''test_runs'', ''block_count''), (''test_runs'', ''total_gas_used''), (''test_runs'', ''avg_fill_rate''),
      (''test_runs'', ''peak_mgas_per_sec''), (''test_runs'', ''avg_mgas_per_sec''), (''test_runs'', ''execution_layer''),
      (''time_series'', ''gas_used''), (''time_series'', ''gas_limit''), (''time_series'', ''block_count''),
      (''time_series'', ''mgas_per_sec''), (''time_series'', ''fill_rate''),
      (''test_runs'', ''custom_name''), (''test_runs'', ''is_favorite''), (''test_runs'', ''tx_discarded''),
      (''test_runs'', ''tip_histogram''), (''test_runs'', ''tx_type_metrics''), (''test_runs'', ''pending_latency_stats''),
      (''test_runs'', ''accounts_active''), (''test_runs'', ''accounts_funded''),
      (''test_runs'', ''on_chain_first_block''), (''test_runs'', ''on_chain_last_block''), (''test_runs'', ''on_chain_tx_count''),
      (''test_runs'', ''on_chain_gas_used''), (''test_runs'', ''on_chain_mgas_per_sec''), (''test_runs'', ''on_chain_tps''),
      (''test_runs'', ''on_chain_duration_secs''), (''test_runs'', ''environment''), (''test_runs'', ''verification''),
      (''test_runs'', ''deployed_contracts''), (''test_runs'', ''test_accounts''), (''test_runs'', ''privacy_mode''),
      (''test_runs'', ''read_load'')]"

text \<open>
  \<open>ALTER TABLE ADD COLUMN\<close> fails, and leaves the table as it is, when the column is already there; the
  program warns and goes on.  \<open>queryOk k\<close> and \<open>alterOk k\<close> say whether the engine's calls for the
  \<open>k\<close>-th migration succeed.
\<close>

definition add_column :: "string \<Rightarrow> string \<Rightarrow> schema \<Rightarrow> schema" where
  "add_column table column sch =
     (case map_get sch table of
        None \<Rightarrow> sch
      | Some cols \<Rightarrow> if column \<in> set cols then sch else map_put table (cols @ [column]) sch)"

fun run_migrations :: "(nat \<Rightarrow> bool) \<Rightarrow> (nat \<Rightarrow> bool) \<Rightarrow> nat \<Rightarrow> (string \<times> string) list \<Rightarrow> schema \<Rightarrow> schema" where
  "run_migrations queryOk alterOk k [] sch = sch"
| "run_migrations queryOk alterOk k ((table, column) # ms) sch =
     run_migrations queryOk alterOk (k + 1) ms
       (if \<not> columnExists (queryOk k) table column sch \<and> alterOk k then add_column table column sch else sch)"

text \<open>The errors of the two scripts end the migration; \<open>None\<close> is success.\<close>

definition migrate ::
  "string option \<Rightarrow> string option \<Rightarrow> (nat \<Rightarrow> bool) \<Rightarrow> (nat \<Rightarrow> bool) \<Rightarrow> schema \<Rightarrow> string option \<times> schema" where
  "migrate mainErr cacheErr queryOk alterOk sch =
     (case mainErr of
        Some e \<Rightarrow> (Some e, sch)
      | None \<Rightarrow>
          let sch1 = fold create_if_not_exists main_tables sch in
          case cacheErr of
            Some e \<Rightarrow> (Some e, sch1)
          | None \<Rightarrow> (None, run_migrations queryOk alterOk 0 migrations (fold create_if_not_exists cache_tables sch1)))"

section \<open>What the queries need\<close>

text \<open>The columns of the \<open>SELECT\<close> statements of \<open>GetTestRun\<close> and \<open>ListTestRuns\<close>, and of \<open>GetTimeSeries\<close>.\<close>

definition run_query_columns :: "string list" where
  "run_query_columns =
     [''id'', ''started_at'', ''completed_at'', ''pattern'', ''transaction_type'', ''duration_ms'',
      ''tx_sent'', ''tx_confirmed'', ''tx_failed'', ''tx_discarded'', ''average_tps'', ''peak_tps'',
      ''latency_stats'', ''preconf_latency_stats'', ''pending_latency_stats'', ''config'', ''status'', ''error_message'',
      ''tx_logging_enabled'', ''execution_layer'', ''block_count'', ''total_gas_used'', ''avg_fill_rate'',
      ''peak_mgas_per_sec'', ''avg_mgas_per_sec'', ''custom_name'', ''is_favorite'', ''tip_histogram'', ''tx_type_metrics'',
      ''accounts_active'', ''accounts_funded'', ''on_chain_first_block'', ''on_chain_last_block'',
      ''on_chain_tx_count'', ''on_chain_gas_used'', ''on_chain_mgas_per_sec'', ''on_chain_tps'', ''on_chain_duration_secs'',
      ''environment'', ''verification'', ''deployed_contracts'', ''test_accounts'', ''privacy_mode'', ''read_load'']"

definition series_query_columns :: "string list" where
  "series_query_columns =
     [''timestamp_ms'', ''tx_sent'', ''tx_confirmed'', ''tx_failed'', ''current_tps'', ''target_tps'', ''pending_count'',
      ''gas_used'', ''gas_limit'', ''block_count'', ''mgas_per_sec'', ''fill_rate'']"

definition columns_of :: "string \<Rightarrow> schema \<Rightarrow> string set" where
  "columns_of table sch = (case map_get sch table of None \<Rightarrow> {} | Some cols \<Rightarrow> set cols)"

text \<open>The columns the first version of a table had: those of its \<open>CREATE\<close> that no migration adds.\<close>

definition first_columns :: "string \<Rightarrow> string list \<Rightarrow> string list" where
  "first_columns table cols = filter (\<lambda>c. (table, c) \<notin> set migrations) cols"

definition left_behind :: "schema \<Rightarrow> bool" where
  "left_behind sch \<longleftrightarrow>
     (\<forall>(table, cols) \<in> set (main_tables @ cache_tables). map_get sch table \<noteq> None \<longrightarrow> set (first_columns table cols) \<subseteq> columns_of table sch)"

lemma migrations_valid: "list_all (\<lambda>(t, c). isValidIdentifier t \<and> isValidIdentifier c) migrations"
  by code_simp

lemma columns_of_add: "map_get sch t \<noteq> None \<Longrightarrow> columns_of t (add_column t c sch) = insert c (columns_of t sch)"
  by (auto simp: columns_of_def add_column_def split: option.splits)

lemma add_column_grows: "columns_of t (add_column t' c sch) \<supseteq> columns_of t sch"
  by (auto simp: columns_of_def add_column_def split: option.splits)

lemma add_column_table: "(map_get (add_column t' c sch) t = None) = (map_get sch t = None)"
  by (auto simp: add_column_def split: option.splits)

lemma run_migrations_grows:
  "columns_of t (run_migrations q a k ms sch) \<supseteq> columns_of t sch \<and> (map_get (run_migrations q a k ms sch) t = None) = (map_get sch t = None)"
proof (induction ms arbitrary: k sch)
  case (Cons m ms)
  obtain tb c where m: "m = (tb, c)" by (cases m)
  show ?case
    using Cons.IH [where k = "k + 1" and sch = "add_column tb c sch"] Cons.IH [where k = "k + 1" and sch = sch] add_column_grows [of t sch tb c] add_column_table [of tb c sch t]
    by (auto simp: m)
qed simp

lemma columnExists_in: "columnExists q t c sch \<Longrightarrow> c \<in> columns_of t sch"
  by (auto simp: columnExists_def columns_of_def split: option.splits)

text \<open>A migration whose \<open>ALTER\<close> is not refused leaves its column in the table, whatever the column query says.\<close>

lemma run_migrations_adds:
  assumes "\<And>k. a k" "(t, c) \<in> set ms" "map_get sch t \<noteq> None"
  shows "c \<in> columns_of t (run_migrations q a k ms sch)"
  using assms(2,3)
proof (induction ms arbitrary: k sch)
  case (Cons m ms)
  obtain tb co where m: "m = (tb, co)" by (cases m)
  define sch1 where "sch1 = (if \<not> columnExists (q k) tb co sch \<and> a k then add_column tb co sch else sch)"
  have rest: "run_migrations q a k (m # ms) sch = run_migrations q a (k + 1) ms sch1" by (simp add: m sch1_def)
  have there: "map_get sch1 t \<noteq> None" using Cons.prems(2) add_column_table [of tb co sch t] by (simp add: sch1_def del: not_None_eq)
  show ?case
  proof (cases "(t, c) = m")
    case True
    then have "c \<in> columns_of t sch1"
      using Cons.prems(2) columnExists_in [of "q k" t c sch] assms(1) by (auto simp: m sch1_def columns_of_add)
    then show ?thesis using run_migrations_grows [of t sch1 q a "k + 1" ms] rest by auto
  next
    case False
    then show ?thesis using Cons.IH [OF _ there, of "k + 1"] Cons.prems(1) rest by auto
  qed
qed simp

lemma create_columns:
  assumes "distinct (map fst tcs)"
  shows "map_get (fold create_if_not_exists tcs sch) t =
    (case map_get sch t of None \<Rightarrow> map_of tcs t | Some cols \<Rightarrow> Some cols)"
  using assms
proof (induction tcs arbitrary: sch)
  case Nil
  then show ?case by (simp split: option.split)
next
  case (Cons tc tcs)
  obtain tb cols where tc: "tc = (tb, cols)" by (cases tc)
  have "map_of tcs tb = None" using Cons.prems by (simp add: tc map_of_eq_None_iff)
  then show ?case using Cons by (auto simp: tc create_if_not_exists_def split: option.splits)
qed

text \<open>
  A migration whose statements are not refused makes the queries work, on a new database and on one of
  any older version: if each table is missing or has at least the columns that never were added by a
  migration, then afterwards the tables have every column the run and series queries select, and every
  column they had.
\<close>
theorem migration_serves_queries:
  assumes old: "left_behind sch" and ok: "\<And>k. alterOk k"
    and run: "migrate None None queryOk alterOk sch = (err, sch')"
  shows "err = None \<and> set run_query_columns \<subseteq> columns_of ''test_runs'' sch' \<and>
    set series_query_columns \<subseteq> columns_of ''time_series'' sch' \<and> set tx_logs_columns \<subseteq> columns_of ''tx_logs'' sch' \<and>
    set cached_accounts_columns \<subseteq> columns_of ''cached_accounts'' sch' \<and>
    set cached_contracts_columns \<subseteq> columns_of ''cached_contracts'' sch' \<and>
    (\<forall>t. columns_of t sch \<subseteq> columns_of t sch')"
proof -
  define sch1 where "sch1 = fold create_if_not_exists cache_tables (fold create_if_not_exists main_tables sch)"
  have sch': "err = None" "sch' = run_migrations queryOk alterOk 0 migrations sch1"
    using run by (auto simp: migrate_def sch1_def Let_def)
  have d: "distinct (map fst main_tables)" "distinct (map fst cache_tables)" by code_simp+
  have got: "map_get sch1 t = (case map_get sch t of Some cols \<Rightarrow> Some cols | None \<Rightarrow> map_of (main_tables @ cache_tables) t)" for t
    by (simp add: sch1_def create_columns [OF d(1)] create_columns [OF d(2)] map_add_def split: option.split)
  have grows: "columns_of t sch \<subseteq> columns_of t sch1" for t
    by (auto simp: columns_of_def got split: option.splits)
  have first: "map_get sch1 t \<noteq> None \<and> set (first_columns t cols) \<subseteq> columns_of t sch1" if "(t, cols) \<in> set (main_tables @ cache_tables)" for t cols
  proof -
    have "distinct (map fst (main_tables @ cache_tables))" by code_simp
    then have "map_of (main_tables @ cache_tables) t = Some cols" using that by (rule map_of_is_SomeI)
    moreover have "map_get sch t \<noteq> None \<Longrightarrow> set (first_columns t cols) \<subseteq> columns_of t sch"
      using old that by (auto simp: left_behind_def)
    ultimately show ?thesis
      using grows [of t] by (cases "map_get sch t") (auto simp: got columns_of_def first_columns_def)
  qed
  have all: "set cols \<subseteq> columns_of t sch'" if "(t, known) \<in> set (main_tables @ cache_tables)" "set cols \<subseteq> set known \<union> {c. (t, c) \<in> set migrations}" for t known cols
  proof
    fix c assume c: "c \<in> set cols"
    show "c \<in> columns_of t sch'"
    proof (cases "(t, c) \<in> set migrations")
      case True
      then show ?thesis using run_migrations_adds [where a = alterOk, OF ok True] first [OF that(1)] by (simp add: sch')
    next
      case False
      then have "c \<in> columns_of t sch1" using c that first [OF that(1)] by (auto simp: first_columns_def)
      then show ?thesis using run_migrations_grows [of t sch1 queryOk alterOk 0 migrations] by (auto simp: sch')
    qed
  qed
  have "list_all (\<lambda>c. c \<in> set test_runs_columns \<or> (''test_runs'', c) \<in> set migrations) run_query_columns"
    "list_all (\<lambda>c. c \<in> set time_series_columns \<or> (''time_series'', c) \<in> set migrations) series_query_columns" by code_simp+
  then have "set run_query_columns \<subseteq> set test_runs_columns \<union> {c. (''test_runs'', c) \<in> set migrations}"
    "set series_query_columns \<subseteq> set time_series_columns \<union> {c. (''time_series'', c) \<in> set migrations}"
    by (auto simp: list_all_iff)
  moreover have "(''test_runs'', test_runs_columns) \<in> set (main_tables @ cache_tables)"
    "(''time_series'', time_series_columns) \<in> set (main_tables @ cache_tables)" by (simp_all add: main_tables_def)
  ultimately have "set run_query_columns \<subseteq> columns_of ''test_runs'' sch'" "set series_query_columns \<subseteq> columns_of ''time_series'' sch'"
    using all by blast+
  moreover have "set tx_logs_columns \<subseteq> columns_of ''tx_logs'' sch'" "set cached_accounts_columns \<subseteq> columns_of ''cached_accounts'' sch'"
    "set cached_contracts_columns \<subseteq> columns_of ''cached_contracts'' sch'"
    by (rule all, simp add: main_tables_def cache_tables_def, simp)+
  moreover have "columns_of t sch \<subseteq> columns_of t sch'" for t
    using grows [of t] run_migrations_grows [of t sch1 queryOk alterOk 0 migrations] by (auto simp: sch')
  ultimately show ?thesis by (simp add: sch')
qed

theorem migration_serves_queries_witness:
  "set run_query_columns \<subseteq> columns_of ''test_runs'' (snd (migrate None None (\<lambda>_. True) (\<lambda>_. True) []))"
  using migration_serves_queries [of "[]" "\<lambda>_. True" "\<lambda>_. True" "fst (migrate None None (\<lambda>_. True) (\<lambda>_. True) [])"
      "snd (migrate None None (\<lambda>_. True) (\<lambda>_. True) [])"]
  by (simp add: left_behind_def)

end
