(* ===== verification/Store.thy ===== *)
theory Store
  imports Store_Schema Types "HOL-Library.Multiset"
begin

text \<open>
  The test history and the account cache of \<open>internal/storage\<close>: the interface \<open>Storage\<close> and its SQLite
  implementation.  The database is the contents of its tables, rows in the order of their row ids; every
  statement of \<open>sqlite.go\<close> is a function on it.  The engine is third-party code: what it refuses, where a
  transaction or an iteration over rows breaks off, and in which order an \<open>ORDER BY\<close> returns rows whose
  keys are equal are arguments of the operations.  The objects kept as JSON text are values of a type
  \<open>'j\<close> and \<open>encoding/json\<close> is the argument \<open>codec\<close>.  An unsigned 64-bit argument of a statement is
  refused by \<open>database/sql\<close> when its highest bit is set.
\<close>

section \<open>The data\<close>

text \<open>\<open>TestRun\<close>; a \<open>nil\<close> pointer or slice is \<open>None\<close>.  The record is declared in three steps.\<close>

record run_head =
  tr_ID :: string
  tr_StartedAt :: int
  tr_CompletedAt :: "int option"
  tr_Pattern :: load_pattern
  tr_TransactionType :: transaction_type
  tr_DurationMs :: int
  tr_TxSent :: u64
  tr_TxConfirmed :: u64
  tr_TxFailed :: u64
  tr_TxDiscarded :: u64
  tr_AverageTPS :: f64
  tr_PeakTPS :: int
  tr_Status :: string
  tr_ErrorMessage :: string
  tr_TxLoggingEnabled :: bool
  tr_ExecutionLayer :: string
  tr_PrivacyMode :: bool
  tr_CustomName :: "string option"
  tr_IsFavorite :: bool

record run_metrics = run_head +
  tr_BlockCount :: int
  tr_TotalGasUsed :: u64
  tr_AvgFillRate :: f64
  tr_PeakMgasPerSec :: f64
  tr_AvgMgasPerSec :: f64
  tr_OnChainFirstBlock :: u64
  tr_OnChainLastBlock :: u64
  tr_OnChainTxCount :: u64
  tr_OnChainGasUsed :: u64
  tr_OnChainMgasPerSec :: f64
  tr_OnChainTps :: f64
  tr_OnChainDurationSecs :: f64
  tr_AccountsActive :: int
  tr_AccountsFunded :: int

record 'j test_run = run_metrics +
  tr_LatencyStats :: "'j option"
  tr_PreconfLatency :: "'j option"
  tr_PendingLatency :: "'j option"
  tr_Config :: "'j option"
  tr_TipHistogram :: "'j option"
  tr_TxTypeMetrics :: "'j option"
  tr_ReadLoad :: "'j option"
  tr_Environment :: "'j option"
  tr_Verification :: "'j option"
  tr_DeployedContracts :: "'j option"
  tr_TestAccounts :: "'j option"

record metadata_update =
  mu_CustomName :: "string option"
  mu_IsFavorite :: "bool option"

record series_point =
  sp_TimestampMs :: int
  sp_TxSent :: u64
  sp_TxConfirmed :: u64
  sp_TxFailed :: u64
  sp_CurrentTPS :: f64
  sp_TargetTPS :: int
  sp_PendingCount :: int
  sp_GasUsed :: u64
  sp_GasLimit :: u64
  sp_BlockCount :: int
  sp_MgasPerSec :: f64
  sp_FillRate :: f64
  sp_AvgBlockTimeMs :: f64
  sp_BaseFeeGwei :: f64
  sp_GasPriceGwei :: f64

record log_entry =
  le_TxHash :: string
  le_SentAtMs :: int
  le_ConfirmedAtMs :: int
  le_PreconfAtMs :: int
  le_ConfirmLatencyMs :: int
  le_PreconfLatencyMs :: int
  le_Status :: string
  le_ErrorReason :: string
  le_FromAccount :: int
  le_Nonce :: u64
  le_GasTipGwei :: f64

record 'r paginated =
  pg_Items :: "'r list"
  pg_Total :: int
  pg_Limit :: int
  pg_Offset :: int

record cached_account =
  ca_Address :: string
  ca_PrivateKeyHex :: string
  ca_ChainID :: int
  ca_CreatedAt :: int
  ca_UniswapReady :: bool

record cached_contract =
  cc_Name :: string
  cc_Address :: string
  cc_ChainID :: int
  cc_CreatedAt :: int

section \<open>The rows\<close>

text \<open>Nullable columns are options; the columns with a JSON text are one function of the column.\<close>

datatype json_column =
    ColLatency | ColPreconf | ColPending | ColConfig | ColTips | ColTypes | ColReadLoad
  | ColEnvironment | ColVerification | ColContracts | ColAccounts

record run_row_head =
  c_id :: string
  c_started_at :: int
  c_completed_at :: "int option"
  c_pattern :: load_pattern
  c_transaction_type :: transaction_type
  c_duration_ms :: int
  c_tx_sent :: int
  c_tx_confirmed :: int
  c_tx_failed :: int
  c_tx_discarded :: "int option"
  c_average_tps :: f64
  c_peak_tps :: int
  c_status :: string
  c_error_message :: "string option"
  c_tx_logging_enabled :: bool
  c_execution_layer :: "string option"
  c_privacy_mode :: "int option"
  c_custom_name :: "string option"
  c_is_favorite :: "int option"

record run_row = run_row_head +
  c_block_count :: "int option"
  c_total_gas_used :: "int option"
  c_avg_fill_rate :: "f64 option"
  c_peak_mgas_per_sec :: "f64 option"
  c_avg_mgas_per_sec :: "f64 option"
  c_on_chain_first_block :: "int option"
  c_on_chain_last_block :: "int option"
  c_on_chain_tx_count :: "int option"
  c_on_chain_gas_used :: "int option"
  c_on_chain_mgas_per_sec :: "f64 option"
  c_on_chain_tps :: "f64 option"
  c_on_chain_duration_secs :: "f64 option"
  c_accounts_active :: "int option"
  c_accounts_funded :: "int option"
  c_json :: "json_column \<Rightarrow> string option"

record series_row =
  s_run :: string
  s_timestamp_ms :: int
  s_tx_sent :: int
  s_tx_confirmed :: int
  s_tx_failed :: int
  s_current_tps :: f64
  s_target_tps :: int
  s_pending_count :: int
  s_gas_used :: "int option"
  s_gas_limit :: "int option"
  s_block_count :: "int option"
  s_mgas_per_sec :: "f64 option"
  s_fill_rate :: "f64 option"

record log_row =
  l_run :: string
  l_tx_hash :: string
  l_sent_at_ms :: int
  l_confirmed_at_ms :: "int option"
  l_preconf_at_ms :: "int option"
  l_confirm_latency_ms :: "int option"
  l_preconf_latency_ms :: "int option"
  l_status :: string
  l_error_reason :: "string option"
  l_from_account :: int
  l_nonce :: int
  l_gas_tip_gwei :: f64

record database =
  db_runs :: "run_row list"
  db_series :: "series_row list"
  db_logs :: "log_row list"
  db_accounts :: "cached_account list"
  db_contracts :: "cached_contract list"

definition empty_database :: database where
  "empty_database = \<lparr>db_runs = [], db_series = [], db_logs = [], db_accounts = [], db_contracts = []\<rparr>"

section \<open>Statements and transactions\<close>

datatype sql_err =
    SqlFailed string | UniqueViolation | ForeignKeyViolation | UintHighBit | MarshalFailed | ScanFailed | Cancelled
  | RunNotFound string

text \<open>A single statement; \<open>io\<close> is an error of the engine, which leaves the tables as they are.\<close>

definition exec_stmt :: "string option \<Rightarrow> (database \<Rightarrow> sql_err + database) \<Rightarrow> database \<Rightarrow> sql_err option \<times> database" where
  "exec_stmt io f db =
     (case io of
        Some e \<Rightarrow> (Some (SqlFailed e), db)
      | None \<Rightarrow> (case f db of Inl e \<Rightarrow> (Some e, db) | Inr db' \<Rightarrow> (None, db')))"

record tx_env =
  te_begin :: "string option"
  te_prepare :: "string option"
  te_cancelled :: "nat \<Rightarrow> bool"
  te_exec :: "nat \<Rightarrow> string option"
  te_commit :: "string option"

text \<open>A transaction: the deferred rollback undoes all its statements when one of them or the commit fails.\<close>

definition in_tx :: "tx_env \<Rightarrow> (database \<Rightarrow> sql_err + database) \<Rightarrow> database \<Rightarrow> sql_err option \<times> database" where
  "in_tx env body db =
     (case te_begin env of
        Some e \<Rightarrow> (Some (SqlFailed e), db)
      | None \<Rightarrow>
          (case body db of
             Inl e \<Rightarrow> (Some e, db)
           | Inr db' \<Rightarrow> (case te_commit env of Some e \<Rightarrow> (Some (SqlFailed e), db) | None \<Rightarrow> (None, db'))))"

definition prepared :: "tx_env \<Rightarrow> (database \<Rightarrow> sql_err + database) \<Rightarrow> database \<Rightarrow> sql_err + database" where
  "prepared env body db = (case te_prepare env of Some e \<Rightarrow> Inl (SqlFailed e) | None \<Rightarrow> body db)"

text \<open>The loop over the rows of a bulk insert, with its check of the context.\<close>

fun exec_rows :: "tx_env \<Rightarrow> ('r \<Rightarrow> database \<Rightarrow> sql_err + database) \<Rightarrow> nat \<Rightarrow> 'r list \<Rightarrow> database \<Rightarrow> sql_err + database" where
  "exec_rows env f k [] db = Inr db"
| "exec_rows env f k (r # rs) db =
     (if te_cancelled env k then Inl Cancelled
      else case te_exec env k of
          Some e \<Rightarrow> Inl (SqlFailed e)
        | None \<Rightarrow> (case f r db of Inl e \<Rightarrow> Inl e | Inr db' \<Rightarrow> exec_rows env f (k + 1) rs db'))"

text \<open>Values: an unsigned argument, a scanned unsigned value, \<open>COALESCE\<close> and the null helpers.\<close>

definition sql_uint :: "u64 \<Rightarrow> int option" where
  "sql_uint x = (if unat x < 2 ^ 63 then Some (int (unat x)) else None)"

definition scan_uint :: "int \<Rightarrow> u64 option" where
  "scan_uint v = (if v < 0 then None else Some (of_int v))"

definition coalesce :: "'v \<Rightarrow> 'v option \<Rightarrow> 'v" where
  "coalesce d v = (case v of None \<Rightarrow> d | Some x \<Rightarrow> x)"

definition nullInt64 :: "int \<Rightarrow> int option" where
  "nullInt64 v = (if v = 0 then None else Some v)"

definition nullString :: "string \<Rightarrow> string option" where
  "nullString v = (if v = '''' then None else Some v)"

definition bool_int :: "bool \<Rightarrow> int" where "bool_int b = (if b then 1 else 0)"

definition page :: "int \<Rightarrow> int \<Rightarrow> 'r list \<Rightarrow> 'r list" where
  "page limit offset xs = (let ys = drop (nat offset) xs in if limit < 0 then ys else take (nat limit) ys)"

text \<open>
  A query that fails, or an iteration over its rows that stops after some of them.  Where the code does
  not look at \<open>rows.Err\<close>, the rows read so far are the result.
\<close>

record query_env =
  qe_err :: "string option"
  qe_cut :: "nat option"

definition delivered :: "query_env \<Rightarrow> 'r list \<Rightarrow> 'r list" where
  "delivered q xs = (case qe_cut q of None \<Rightarrow> xs | Some k \<Rightarrow> take k xs)"

section \<open>Test runs\<close>

record 'j codec =
  cd_marshal :: "'j option \<Rightarrow> string option"
  cd_zero :: "json_column \<Rightarrow> 'j"
  cd_into :: "json_column \<Rightarrow> 'j \<Rightarrow> string \<Rightarrow> 'j"
  cd_slice :: "json_column \<Rightarrow> string \<Rightarrow> 'j option"

text \<open>Where the error of \<open>json.Marshal\<close> is ignored, the text is empty.\<close>

definition json_text :: "'j codec \<Rightarrow> 'j option \<Rightarrow> string" where
  "json_text cd v = (case cd_marshal cd v of None \<Rightarrow> '''' | Some s \<Rightarrow> s)"

definition CreateTestRun :: "'j codec \<Rightarrow> string option \<Rightarrow> 'j test_run \<Rightarrow> database \<Rightarrow> sql_err option \<times> database" where
  "CreateTestRun cd io run db =
     (case cd_marshal cd (tr_Config run) of
        None \<Rightarrow> (Some MarshalFailed, db)
      | Some configJSON \<Rightarrow>
          let executionLayer = (if tr_ExecutionLayer run = '''' then ''reth'' else tr_ExecutionLayer run) in
          exec_stmt io (\<lambda>db.
            if tr_ID run \<in> c_id ` set (db_runs db) then Inl UniqueViolation
            else Inr (db\<lparr>db_runs := db_runs db @
              [\<lparr>c_id = tr_ID run, c_started_at = tr_StartedAt run, c_completed_at = None, c_pattern = tr_Pattern run,
                c_transaction_type = tr_TransactionType run, c_duration_ms = tr_DurationMs run,
                c_tx_sent = 0, c_tx_confirmed = 0, c_tx_failed = 0, c_tx_discarded = Some 0, c_average_tps = 0, c_peak_tps = 0,
                c_status = tr_Status run, c_error_message = None, c_tx_logging_enabled = tr_TxLoggingEnabled run,
                c_execution_layer = Some executionLayer, c_privacy_mode = Some (bool_int (tr_PrivacyMode run)),
                c_custom_name = None, c_is_favorite = Some 0,
                c_block_count = Some 0, c_total_gas_used = Some 0, c_avg_fill_rate = Some 0, c_peak_mgas_per_sec = Some 0,
                c_avg_mgas_per_sec = Some 0, c_on_chain_first_block = Some 0, c_on_chain_last_block = Some 0,
                c_on_chain_tx_count = Some 0, c_on_chain_gas_used = Some 0, c_on_chain_mgas_per_sec = Some 0,
                c_on_chain_tps = Some 0, c_on_chain_duration_secs = Some 0, c_accounts_active = Some 0, c_accounts_funded = Some 0,
                c_json = (\<lambda>_. None)(ColConfig := Some configJSON)\<rparr>]\<rparr>)) db)"

definition update_runs :: "string \<Rightarrow> (run_row \<Rightarrow> run_row) \<Rightarrow> database \<Rightarrow> database" where
  "update_runs i f db = db\<lparr>db_runs := map (\<lambda>r. if c_id r = i then f r else r) (db_runs db)\<rparr>"

text \<open>\<open>UpdateTestRun\<close> writes the counters but not the discarded ones.\<close>

definition UpdateTestRun :: "'j codec \<Rightarrow> string option \<Rightarrow> 'j test_run \<Rightarrow> database \<Rightarrow> sql_err option \<times> database" where
  "UpdateTestRun cd io run db =
     exec_stmt io (\<lambda>db.
       case (sql_uint (tr_TxSent run), sql_uint (tr_TxConfirmed run), sql_uint (tr_TxFailed run)) of
         (Some sent, Some confirmed, Some failed) \<Rightarrow>
           Inr (update_runs (tr_ID run) (\<lambda>r. r\<lparr>c_tx_sent := sent, c_tx_confirmed := confirmed, c_tx_failed := failed,
             c_average_tps := tr_AverageTPS run, c_peak_tps := tr_PeakTPS run, c_status := tr_Status run,
             c_error_message := Some (tr_ErrorMessage run),
             c_json := (c_json r)(ColLatency := Some (json_text cd (tr_LatencyStats run)),
               ColPreconf := Some (json_text cd (tr_PreconfLatency run)))\<rparr>) db)
       | _ \<Rightarrow> Inl UintHighBit) db"

text \<open>The unsigned arguments of the final update.\<close>

definition final_uints :: "'j test_run \<Rightarrow> u64 list" where
  "final_uints run =
     [tr_TxSent run, tr_TxConfirmed run, tr_TxFailed run, tr_TxDiscarded run, tr_TotalGasUsed run, tr_OnChainFirstBlock run,
      tr_OnChainLastBlock run, tr_OnChainTxCount run, tr_OnChainGasUsed run]"

definition final_json :: "'j codec \<Rightarrow> 'j test_run \<Rightarrow> (json_column \<Rightarrow> string option) \<Rightarrow> json_column \<Rightarrow> string option" where
  "final_json cd run old col =
     (case col of
        ColLatency \<Rightarrow> Some (json_text cd (tr_LatencyStats run))
      | ColPreconf \<Rightarrow> Some (json_text cd (tr_PreconfLatency run))
      | ColPending \<Rightarrow> Some (json_text cd (tr_PendingLatency run))
      | ColConfig \<Rightarrow> old ColConfig
      | ColTips \<Rightarrow> Some (json_text cd (tr_TipHistogram run))
      | ColTypes \<Rightarrow> Some (json_text cd (tr_TxTypeMetrics run))
      | ColReadLoad \<Rightarrow> Some (json_text cd (tr_ReadLoad run))
      | ColEnvironment \<Rightarrow> Some (json_text cd (tr_Environment run))
      | ColVerification \<Rightarrow> Some (json_text cd (tr_Verification run))
      | ColContracts \<Rightarrow> Some (json_text cd (tr_DeployedContracts run))
      | ColAccounts \<Rightarrow> Some (json_text cd (tr_TestAccounts run)))"

definition final_row :: "'j codec \<Rightarrow> int \<Rightarrow> 'j test_run \<Rightarrow> run_row \<Rightarrow> run_row" where
  "final_row cd now run r =
     r\<lparr>c_completed_at := Some now, c_tx_sent := uint (tr_TxSent run), c_tx_confirmed := uint (tr_TxConfirmed run),
       c_tx_failed := uint (tr_TxFailed run), c_tx_discarded := Some (uint (tr_TxDiscarded run)),
       c_average_tps := tr_AverageTPS run, c_peak_tps := tr_PeakTPS run, c_status := tr_Status run,
       c_error_message := Some (tr_ErrorMessage run), c_block_count := Some (tr_BlockCount run),
       c_total_gas_used := Some (uint (tr_TotalGasUsed run)), c_avg_fill_rate := Some (tr_AvgFillRate run),
       c_peak_mgas_per_sec := Some (tr_PeakMgasPerSec run), c_avg_mgas_per_sec := Some (tr_AvgMgasPerSec run),
       c_accounts_active := Some (tr_AccountsActive run), c_accounts_funded := Some (tr_AccountsFunded run),
       c_on_chain_first_block := Some (uint (tr_OnChainFirstBlock run)), c_on_chain_last_block := Some (uint (tr_OnChainLastBlock run)),
       c_on_chain_tx_count := Some (uint (tr_OnChainTxCount run)), c_on_chain_gas_used := Some (uint (tr_OnChainGasUsed run)),
       c_on_chain_mgas_per_sec := Some (tr_OnChainMgasPerSec run), c_on_chain_tps := Some (tr_OnChainTps run),
       c_on_chain_duration_secs := Some (tr_OnChainDurationSecs run), c_json := final_json cd run (c_json r)\<rparr>"

definition CompleteTestRun ::
  "'j codec \<Rightarrow> string option \<Rightarrow> int \<Rightarrow> string \<Rightarrow> 'j test_run \<Rightarrow> database \<Rightarrow> sql_err option \<times> database" where
  "CompleteTestRun cd io now i run db =
     exec_stmt io (\<lambda>db.
       if list_all (\<lambda>x. sql_uint x \<noteq> None) (final_uints run) then Inr (update_runs i (final_row cd now run) db)
       else Inl UintHighBit) db"

text \<open>
  \<open>scanTestRun\<close>: the row as a run.  A pointer is allocated and filled from the text, also from the text
  \<open>null\<close>, which \<open>encoding/json\<close> reads as no change; only the read-load column is guarded against it.
\<close>

definition json_pointer :: "'j codec \<Rightarrow> json_column \<Rightarrow> string option \<Rightarrow> 'j option" where
  "json_pointer cd col t =
     (case t of None \<Rightarrow> None | Some s \<Rightarrow> if s = '''' then None else Some (cd_into cd col (cd_zero cd col) s))"

definition json_slice :: "'j codec \<Rightarrow> json_column \<Rightarrow> string option \<Rightarrow> 'j option" where
  "json_slice cd col t = (case t of None \<Rightarrow> None | Some s \<Rightarrow> if s = '''' then None else cd_slice cd col s)"

definition scan_uints :: "run_row \<Rightarrow> u64 list option" where
  "scan_uints r =
     those (map scan_uint
       [c_tx_sent r, c_tx_confirmed r, c_tx_failed r, coalesce 0 (c_tx_discarded r), coalesce 0 (c_total_gas_used r),
        coalesce 0 (c_on_chain_first_block r), coalesce 0 (c_on_chain_last_block r), coalesce 0 (c_on_chain_tx_count r),
        coalesce 0 (c_on_chain_gas_used r)])"

definition scanTestRun :: "'j codec \<Rightarrow> run_row \<Rightarrow> sql_err + 'j test_run" where
  "scanTestRun cd r =
     (case scan_uints r of
        Some [sent, confirmed, failed, discarded, gas, firstB, lastB, chainTx, chainGas] \<Rightarrow>
          Inr \<lparr>tr_ID = c_id r, tr_StartedAt = c_started_at r, tr_CompletedAt = c_completed_at r, tr_Pattern = c_pattern r,
            tr_TransactionType = c_transaction_type r, tr_DurationMs = c_duration_ms r, tr_TxSent = sent,
            tr_TxConfirmed = confirmed, tr_TxFailed = failed, tr_TxDiscarded = discarded, tr_AverageTPS = c_average_tps r,
            tr_PeakTPS = c_peak_tps r, tr_Status = c_status r, tr_ErrorMessage = coalesce '''' (c_error_message r),
            tr_TxLoggingEnabled = c_tx_logging_enabled r, tr_ExecutionLayer = coalesce ''reth'' (c_execution_layer r),
            tr_PrivacyMode = (coalesce 0 (c_privacy_mode r) = 1), tr_CustomName = c_custom_name r,
            tr_IsFavorite = (coalesce 0 (c_is_favorite r) = 1), tr_BlockCount = coalesce 0 (c_block_count r),
            tr_TotalGasUsed = gas, tr_AvgFillRate = coalesce 0 (c_avg_fill_rate r),
            tr_PeakMgasPerSec = coalesce 0 (c_peak_mgas_per_sec r), tr_AvgMgasPerSec = coalesce 0 (c_avg_mgas_per_sec r),
            tr_OnChainFirstBlock = firstB, tr_OnChainLastBlock = lastB, tr_OnChainTxCount = chainTx,
            tr_OnChainGasUsed = chainGas, tr_OnChainMgasPerSec = coalesce 0 (c_on_chain_mgas_per_sec r),
            tr_OnChainTps = coalesce 0 (c_on_chain_tps r), tr_OnChainDurationSecs = coalesce 0 (c_on_chain_duration_secs r),
            tr_AccountsActive = coalesce 0 (c_accounts_active r), tr_AccountsFunded = coalesce 0 (c_accounts_funded r),
            tr_LatencyStats = json_pointer cd ColLatency (c_json r ColLatency),
            tr_PreconfLatency = json_pointer cd ColPreconf (c_json r ColPreconf),
            tr_PendingLatency = json_pointer cd ColPending (c_json r ColPending),
            tr_Config = json_pointer cd ColConfig (c_json r ColConfig),
            tr_TipHistogram = json_slice cd ColTips (c_json r ColTips),
            tr_TxTypeMetrics = json_slice cd ColTypes (c_json r ColTypes),
            tr_ReadLoad = (if c_json r ColReadLoad = Some ''null'' then None else json_pointer cd ColReadLoad (c_json r ColReadLoad)),
            tr_Environment = json_pointer cd ColEnvironment (c_json r ColEnvironment),
            tr_Verification = json_pointer cd ColVerification (c_json r ColVerification),
            tr_DeployedContracts = json_slice cd ColContracts (c_json r ColContracts),
            tr_TestAccounts = json_pointer cd ColAccounts (c_json r ColAccounts)\<rparr>
      | _ \<Rightarrow> Inl ScanFailed)"

definition GetTestRun :: "'j codec \<Rightarrow> string option \<Rightarrow> string \<Rightarrow> database \<Rightarrow> sql_err + 'j test_run option" where
  "GetTestRun cd io i db =
     (case io of
        Some e \<Rightarrow> Inl (SqlFailed e)
      | None \<Rightarrow>
          (case filter (\<lambda>r. c_id r = i) (db_runs db) of
             [] \<Rightarrow> Inr None
           | r # _ \<Rightarrow> (case scanTestRun cd r of Inl e \<Rightarrow> Inl e | Inr run \<Rightarrow> Inr (Some run))))"

text \<open>The copy of \<open>scanTestRun\<close> for a row of a result set is the same code.\<close>

definition scanTestRunFromRows :: "'j codec \<Rightarrow> run_row \<Rightarrow> sql_err + 'j test_run" where
  "scanTestRunFromRows cd r = scanTestRun cd r"

fun scan_all :: "('r \<Rightarrow> sql_err + 'v) \<Rightarrow> 'r list \<Rightarrow> sql_err + 'v list" where
  "scan_all f [] = Inr []"
| "scan_all f (r # rs) =
     (case f r of Inl e \<Rightarrow> Inl e | Inr v \<Rightarrow> (case scan_all f rs of Inl e \<Rightarrow> Inl e | Inr vs \<Rightarrow> Inr (v # vs)))"

text \<open>\<open>ord\<close> returns the rows favourites first, then the newest; the page is taken from that order.\<close>

definition ListTestRuns ::
  "'j codec \<Rightarrow> (run_row list \<Rightarrow> run_row list) \<Rightarrow> string option \<Rightarrow> query_env \<Rightarrow> int \<Rightarrow> int \<Rightarrow> database \<Rightarrow> sql_err + 'j test_run paginated" where
  "ListTestRuns cd ord countErr q limit offset db =
     (case countErr of
        Some e \<Rightarrow> Inl (SqlFailed e)
      | None \<Rightarrow>
          (case qe_err q of
             Some e \<Rightarrow> Inl (SqlFailed e)
           | None \<Rightarrow>
               (case scan_all (scanTestRunFromRows cd) (delivered q (page limit offset (ord (db_runs db)))) of
                  Inl e \<Rightarrow> Inl e
                | Inr runs \<Rightarrow> Inr \<lparr>pg_Items = runs, pg_Total = int (length (db_runs db)), pg_Limit = limit, pg_Offset = offset\<rparr>)))"

text \<open>Deleting a run deletes its series and its transaction log with it.\<close>

definition DeleteTestRun :: "string option \<Rightarrow> string \<Rightarrow> database \<Rightarrow> sql_err option \<times> database" where
  "DeleteTestRun io i db =
     exec_stmt io (\<lambda>db. Inr (db\<lparr>db_runs := filter (\<lambda>r. c_id r \<noteq> i) (db_runs db),
       db_series := (if i \<in> c_id ` set (db_runs db) then filter (\<lambda>r. s_run r \<noteq> i) (db_series db) else db_series db),
       db_logs := (if i \<in> c_id ` set (db_runs db) then filter (\<lambda>r. l_run r \<noteq> i) (db_logs db) else db_logs db)\<rparr>)) db"

definition UpdateTestRunMetadata :: "string option \<Rightarrow> string \<Rightarrow> metadata_update \<Rightarrow> database \<Rightarrow> sql_err option \<times> database" where
  "UpdateTestRunMetadata io i u db =
     (if mu_CustomName u = None \<and> mu_IsFavorite u = None then (None, db)
      else exec_stmt io (\<lambda>db.
        if i \<notin> c_id ` set (db_runs db) then Inl (RunNotFound i)
        else Inr (update_runs i (\<lambda>r. r\<lparr>
          c_custom_name := (case mu_CustomName u of None \<Rightarrow> c_custom_name r | Some s \<Rightarrow> Some s),
          c_is_favorite := (case mu_IsFavorite u of None \<Rightarrow> c_is_favorite r | Some b \<Rightarrow> Some (bool_int b))\<rparr>) db)) db)"

section \<open>Series and transaction logs\<close>

definition insert_point :: "string \<Rightarrow> series_point \<Rightarrow> database \<Rightarrow> sql_err + database" where
  "insert_point i p db =
     (if list_all (\<lambda>x. sql_uint x \<noteq> None) [sp_TxSent p, sp_TxConfirmed p, sp_TxFailed p, sp_GasUsed p, sp_GasLimit p] then
        (if i \<in> c_id ` set (db_runs db) then
           Inr (db\<lparr>db_series := db_series db @
             [\<lparr>s_run = i, s_timestamp_ms = sp_TimestampMs p, s_tx_sent = uint (sp_TxSent p), s_tx_confirmed = uint (sp_TxConfirmed p),
               s_tx_failed = uint (sp_TxFailed p), s_current_tps = sp_CurrentTPS p, s_target_tps = sp_TargetTPS p,
               s_pending_count = sp_PendingCount p, s_gas_used = Some (uint (sp_GasUsed p)), s_gas_limit = Some (uint (sp_GasLimit p)),
               s_block_count = Some (sp_BlockCount p), s_mgas_per_sec = Some (sp_MgasPerSec p), s_fill_rate = Some (sp_FillRate p)\<rparr>]\<rparr>)
         else Inl ForeignKeyViolation)
      else Inl UintHighBit)"

definition BulkInsertTimeSeries :: "tx_env \<Rightarrow> string \<Rightarrow> series_point list \<Rightarrow> database \<Rightarrow> sql_err option \<times> database" where
  "BulkInsertTimeSeries env i points db =
     (if points = [] then (None, db) else in_tx env (prepared env (exec_rows env (insert_point i) 0 points)) db)"

definition scan_point :: "series_row \<Rightarrow> sql_err + series_point" where
  "scan_point r =
     (case those (map scan_uint [s_tx_sent r, s_tx_confirmed r, s_tx_failed r, coalesce 0 (s_gas_used r), coalesce 0 (s_gas_limit r)]) of
        Some [sent, confirmed, failed, used, limit] \<Rightarrow>
          Inr \<lparr>sp_TimestampMs = s_timestamp_ms r, sp_TxSent = sent, sp_TxConfirmed = confirmed, sp_TxFailed = failed,
            sp_CurrentTPS = s_current_tps r, sp_TargetTPS = s_target_tps r, sp_PendingCount = s_pending_count r,
            sp_GasUsed = used, sp_GasLimit = limit, sp_BlockCount = coalesce 0 (s_block_count r),
            sp_MgasPerSec = coalesce 0 (s_mgas_per_sec r), sp_FillRate = coalesce 0 (s_fill_rate r),
            sp_AvgBlockTimeMs = 0, sp_BaseFeeGwei = 0, sp_GasPriceGwei = 0\<rparr>
      | _ \<Rightarrow> Inl ScanFailed)"

definition GetTimeSeries :: "(series_row list \<Rightarrow> series_row list) \<Rightarrow> query_env \<Rightarrow> string \<Rightarrow> database \<Rightarrow> sql_err + series_point list" where
  "GetTimeSeries ord q i db =
     (case qe_err q of
        Some e \<Rightarrow> Inl (SqlFailed e)
      | None \<Rightarrow> scan_all scan_point (delivered q (ord (filter (\<lambda>r. s_run r = i) (db_series db)))))"

definition insert_log :: "string \<Rightarrow> log_entry \<Rightarrow> database \<Rightarrow> sql_err + database" where
  "insert_log i e db =
     (if sql_uint (le_Nonce e) \<noteq> None then
        (if i \<in> c_id ` set (db_runs db) then
           Inr (db\<lparr>db_logs := db_logs db @
             [\<lparr>l_run = i, l_tx_hash = le_TxHash e, l_sent_at_ms = le_SentAtMs e, l_confirmed_at_ms = nullInt64 (le_ConfirmedAtMs e),
               l_preconf_at_ms = nullInt64 (le_PreconfAtMs e), l_confirm_latency_ms = nullInt64 (le_ConfirmLatencyMs e),
               l_preconf_latency_ms = nullInt64 (le_PreconfLatencyMs e), l_status = le_Status e,
               l_error_reason = nullString (le_ErrorReason e), l_from_account = le_FromAccount e, l_nonce = uint (le_Nonce e),
               l_gas_tip_gwei = le_GasTipGwei e\<rparr>]\<rparr>)
         else Inl ForeignKeyViolation)
      else Inl UintHighBit)"

definition BulkInsertTxLogs :: "tx_env \<Rightarrow> string \<Rightarrow> log_entry list \<Rightarrow> database \<Rightarrow> sql_err option \<times> database" where
  "BulkInsertTxLogs env i logs db =
     (if logs = [] then (None, db) else in_tx env (prepared env (exec_rows env (insert_log i) 0 logs)) db)"

definition scan_log :: "log_row \<Rightarrow> sql_err + log_entry" where
  "scan_log r =
     (case scan_uint (l_nonce r) of
        None \<Rightarrow> Inl ScanFailed
      | Some n \<Rightarrow>
          Inr \<lparr>le_TxHash = l_tx_hash r, le_SentAtMs = l_sent_at_ms r, le_ConfirmedAtMs = coalesce 0 (l_confirmed_at_ms r),
            le_PreconfAtMs = coalesce 0 (l_preconf_at_ms r), le_ConfirmLatencyMs = coalesce 0 (l_confirm_latency_ms r),
            le_PreconfLatencyMs = coalesce 0 (l_preconf_latency_ms r), le_Status = l_status r,
            le_ErrorReason = coalesce '''' (l_error_reason r), le_FromAccount = l_from_account r, le_Nonce = n,
            le_GasTipGwei = l_gas_tip_gwei r\<rparr>)"

definition GetTxLogs ::
  "(log_row list \<Rightarrow> log_row list) \<Rightarrow> string option \<Rightarrow> query_env \<Rightarrow> string \<Rightarrow> int \<Rightarrow> int \<Rightarrow> database \<Rightarrow> sql_err + log_entry paginated" where
  "GetTxLogs ord countErr q i limit offset db =
     (let rows = filter (\<lambda>r. l_run r = i) (db_logs db) in
      case countErr of
        Some e \<Rightarrow> Inl (SqlFailed e)
      | None \<Rightarrow>
          (case qe_err q of
             Some e \<Rightarrow> Inl (SqlFailed e)
           | None \<Rightarrow>
               (case scan_all scan_log (delivered q (page limit offset (ord rows))) of
                  Inl e \<Rightarrow> Inl e
                | Inr logs \<Rightarrow> Inr \<lparr>pg_Items = logs, pg_Total = int (length rows), pg_Limit = limit, pg_Offset = offset\<rparr>)))"

text \<open>\<open>pick\<close> is the row the engine returns first of those with the hash.\<close>

definition GetTxLogByHash :: "(log_row list \<Rightarrow> log_row) \<Rightarrow> string option \<Rightarrow> string \<Rightarrow> database \<Rightarrow> sql_err + log_entry option" where
  "GetTxLogByHash pick io h db =
     (case io of
        Some e \<Rightarrow> Inl (SqlFailed e)
      | None \<Rightarrow>
          let rows = filter (\<lambda>r. l_tx_hash r = h) (db_logs db) in
          if rows = [] then Inr None
          else (case scan_log (pick rows) of Inl e \<Rightarrow> Inl e | Inr l \<Rightarrow> Inr (Some l)))"

section \<open>The cache\<close>

text \<open>\<open>INSERT OR REPLACE\<close> removes the row with the key and appends the new one with a new row id.\<close>

definition upsert :: "('r \<Rightarrow> 'k) \<Rightarrow> 'r \<Rightarrow> 'r list \<Rightarrow> 'r list" where
  "upsert key r rows = filter (\<lambda>x. key x \<noteq> key r) rows @ [r]"

definition account_key :: "cached_account \<Rightarrow> string \<times> int" where "account_key a = (ca_Address a, ca_ChainID a)"

definition contract_key :: "cached_contract \<Rightarrow> string \<times> int" where "contract_key c = (cc_Name c, cc_ChainID c)"

definition insert_account :: "cached_account \<Rightarrow> database \<Rightarrow> sql_err + database" where
  "insert_account a db = Inr (db\<lparr>db_accounts := upsert account_key a (db_accounts db)\<rparr>)"

definition SaveCachedAccounts :: "tx_env \<Rightarrow> cached_account list \<Rightarrow> database \<Rightarrow> sql_err option \<times> database" where
  "SaveCachedAccounts env accs db =
     (if accs = [] then (None, db) else in_tx env (prepared env (exec_rows env insert_account 0 accs)) db)"

text \<open>Here an iteration that breaks off is an error.\<close>

definition LoadCachedAccounts :: "query_env \<Rightarrow> int \<Rightarrow> database \<Rightarrow> sql_err + cached_account list" where
  "LoadCachedAccounts q chain db =
     (case (qe_err q, qe_cut q) of
        (Some e, _) \<Rightarrow> Inl (SqlFailed e)
      | (None, Some _) \<Rightarrow> Inl (SqlFailed ''rows'')
      | (None, None) \<Rightarrow> Inr (filter (\<lambda>a. ca_ChainID a = chain) (db_accounts db)))"

definition DeleteCachedAccounts :: "string option \<Rightarrow> int \<Rightarrow> database \<Rightarrow> sql_err option \<times> database" where
  "DeleteCachedAccounts io chain db =
     exec_stmt io (\<lambda>db. Inr (db\<lparr>db_accounts := filter (\<lambda>a. ca_ChainID a \<noteq> chain) (db_accounts db)\<rparr>)) db"

definition mark_batch :: "int \<Rightarrow> string list \<Rightarrow> database \<Rightarrow> database" where
  "mark_batch chain batch db =
     db\<lparr>db_accounts := map (\<lambda>a. if ca_ChainID a = chain \<and> ca_Address a \<in> set batch then a\<lparr>ca_UniswapReady := True\<rparr> else a)
       (db_accounts db)\<rparr>"

fun mark_batches :: "(nat \<Rightarrow> string option) \<Rightarrow> int \<Rightarrow> nat \<Rightarrow> string list list \<Rightarrow> database \<Rightarrow> sql_err + database" where
  "mark_batches io chain k [] db = Inr db"
| "mark_batches io chain k (b # bs) db =
     (case io k of Some e \<Rightarrow> Inl (SqlFailed e) | None \<Rightarrow> mark_batches io chain (k + 1) bs (mark_batch chain b db))"

definition MarkAccountsUniswapReady :: "tx_env \<Rightarrow> int \<Rightarrow> string list \<Rightarrow> database \<Rightarrow> sql_err option \<times> database" where
  "MarkAccountsUniswapReady env chain addresses db =
     (if addresses = [] then (None, db) else in_tx env (mark_batches (te_exec env) chain 0 (batches_of 500 addresses)) db)"

definition SaveCachedContract :: "string option \<Rightarrow> cached_contract \<Rightarrow> database \<Rightarrow> sql_err option \<times> database" where
  "SaveCachedContract io c db = exec_stmt io (\<lambda>db. Inr (db\<lparr>db_contracts := upsert contract_key c (db_contracts db)\<rparr>)) db"

definition LoadCachedContracts :: "query_env \<Rightarrow> int \<Rightarrow> database \<Rightarrow> sql_err + cached_contract list" where
  "LoadCachedContracts q chain db =
     (case (qe_err q, qe_cut q) of
        (Some e, _) \<Rightarrow> Inl (SqlFailed e)
      | (None, Some _) \<Rightarrow> Inl (SqlFailed ''rows'')
      | (None, None) \<Rightarrow> Inr (filter (\<lambda>c. cc_ChainID c = chain) (db_contracts db)))"

definition DeleteCachedContracts :: "string option \<Rightarrow> int \<Rightarrow> database \<Rightarrow> sql_err option \<times> database" where
  "DeleteCachedContracts io chain db =
     exec_stmt io (\<lambda>db. Inr (db\<lparr>db_contracts := filter (\<lambda>c. cc_ChainID c \<noteq> chain) (db_contracts db)\<rparr>)) db"

section \<open>Values survive their columns\<close>

lemma sql_uint_Some [simp]: "(sql_uint x = Some v) = (unat x < 2 ^ 63 \<and> v = uint x)"
  by (auto simp: sql_uint_def)

lemma sql_uint_None [simp]: "(sql_uint x = None) = (2 ^ 63 \<le> unat x)"
  by (auto simp: sql_uint_def)

lemma scan_uint_uint [simp]: "scan_uint (uint x) = Some x"
  by (simp add: scan_uint_def not_less)

lemma coalesce_simps [simp]: "coalesce d None = d" "coalesce d (Some v) = v"
  by (simp_all add: coalesce_def)

lemma coalesce_null [simp]: "coalesce 0 (nullInt64 v) = v" "coalesce '''' (nullString t) = t"
  by (simp_all add: nullInt64_def nullString_def)

lemma bool_int_one [simp]: "(bool_int b = 1) = b"
  by (simp add: bool_int_def)

definition log_row_of :: "string \<Rightarrow> log_entry \<Rightarrow> log_row" where
  "log_row_of i e =
     \<lparr>l_run = i, l_tx_hash = le_TxHash e, l_sent_at_ms = le_SentAtMs e, l_confirmed_at_ms = nullInt64 (le_ConfirmedAtMs e),
      l_preconf_at_ms = nullInt64 (le_PreconfAtMs e), l_confirm_latency_ms = nullInt64 (le_ConfirmLatencyMs e),
      l_preconf_latency_ms = nullInt64 (le_PreconfLatencyMs e), l_status = le_Status e,
      l_error_reason = nullString (le_ErrorReason e), l_from_account = le_FromAccount e, l_nonce = uint (le_Nonce e),
      l_gas_tip_gwei = le_GasTipGwei e\<rparr>"

definition series_row_of :: "string \<Rightarrow> series_point \<Rightarrow> series_row" where
  "series_row_of i p =
     \<lparr>s_run = i, s_timestamp_ms = sp_TimestampMs p, s_tx_sent = uint (sp_TxSent p), s_tx_confirmed = uint (sp_TxConfirmed p),
      s_tx_failed = uint (sp_TxFailed p), s_current_tps = sp_CurrentTPS p, s_target_tps = sp_TargetTPS p,
      s_pending_count = sp_PendingCount p, s_gas_used = Some (uint (sp_GasUsed p)), s_gas_limit = Some (uint (sp_GasLimit p)),
      s_block_count = Some (sp_BlockCount p), s_mgas_per_sec = Some (sp_MgasPerSec p), s_fill_rate = Some (sp_FillRate p)\<rparr>"

lemma log_row_of_run [simp]: "l_run (log_row_of i e) = i" by (simp add: log_row_of_def)

lemma series_row_of_run [simp]: "s_run (series_row_of i p) = i" by (simp add: series_row_of_def)

lemma scan_log_row [simp]: "scan_log (log_row_of i e) = Inr e"
  by (simp add: scan_log_def log_row_of_def)

text \<open>A point loses its block time and its gas prices, for which the table has no columns.\<close>

definition kept_point :: "series_point \<Rightarrow> series_point" where
  "kept_point p = p\<lparr>sp_AvgBlockTimeMs := 0, sp_BaseFeeGwei := 0, sp_GasPriceGwei := 0\<rparr>"

lemma scan_series_row [simp]: "scan_point (series_row_of i p) = Inr (kept_point p)"
  by (simp add: scan_point_def series_row_of_def kept_point_def)

lemma insert_log_ok:
  "insert_log i e db = Inr db' \<longleftrightarrow>
     unat (le_Nonce e) < 2 ^ 63 \<and> i \<in> c_id ` set (db_runs db) \<and> db' = db\<lparr>db_logs := db_logs db @ [log_row_of i e]\<rparr>"
  by (auto simp: insert_log_def log_row_of_def not_le)

lemma insert_point_ok:
  "insert_point i p db = Inr db' \<longleftrightarrow>
     list_all (\<lambda>x. unat x < 2 ^ 63) [sp_TxSent p, sp_TxConfirmed p, sp_TxFailed p, sp_GasUsed p, sp_GasLimit p] \<and>
     i \<in> c_id ` set (db_runs db) \<and> db' = db\<lparr>db_series := db_series db @ [series_row_of i p]\<rparr>"
  by (auto simp: insert_point_def series_row_of_def not_le)

section \<open>Transactions\<close>

lemma in_tx_fails: "in_tx env body db = (Some e, db') \<Longrightarrow> db' = db"
  by (auto simp: in_tx_def split: option.splits sum.splits)

lemma in_tx_ok: "in_tx env body db = (None, db') \<Longrightarrow> body db = Inr db'"
  by (auto simp: in_tx_def split: option.splits sum.splits)

lemma exec_stmt_fails: "exec_stmt io f db = (Some e, db') \<Longrightarrow> db' = db"
  by (auto simp: exec_stmt_def split: option.splits sum.splits)

lemma exec_stmt_ok: "exec_stmt io f db = (None, db') \<longleftrightarrow> io = None \<and> f db = Inr db'"
  by (auto simp: exec_stmt_def split: option.splits sum.splits)

lemma prepared_ok: "prepared env body db = Inr db' \<Longrightarrow> body db = Inr db'"
  by (simp add: prepared_def split: option.splits)

lemma exec_rows_ok:
  assumes "exec_rows env f k rs db = Inr db'" "P db"
    and "\<And>r db db'. r \<in> set rs \<Longrightarrow> P db \<Longrightarrow> f r db = Inr db' \<Longrightarrow> P db' \<and> tbl db' = tbl db @ [enc r]"
  shows "P db' \<and> tbl db' = tbl db @ map enc rs"
  using assms
proof (induction rs arbitrary: k db)
  case (Cons r rs)
  obtain db1 where f: "f r db = Inr db1" and rest: "exec_rows env f (k + 1) rs db1 = Inr db'"
    using Cons.prems(1) by (auto split: if_splits option.splits sum.splits)
  have "P db1" "tbl db1 = tbl db @ [enc r]" using Cons.prems(3) [OF _ Cons.prems(2) f] by simp_all
  moreover from this have "P db' \<and> tbl db' = tbl db1 @ map enc rs"
    using Cons.prems(3) by (intro Cons.IH [OF rest]) auto
  ultimately show ?case by simp
qed simp

text \<open>A history of bulk inserts into one table: the reported errors and the database afterwards.\<close>

primrec bulk_history ::
  "(tx_env \<Rightarrow> string \<Rightarrow> 'r list \<Rightarrow> database \<Rightarrow> sql_err option \<times> database) \<Rightarrow> (tx_env \<times> string \<times> 'r list) list \<Rightarrow> database \<Rightarrow>
     sql_err option list \<times> database" where
  "bulk_history bulk [] db = ([], db)"
| "bulk_history bulk (b # bs) db =
     (let (e, db1) = bulk (fst b) (fst (snd b)) (snd (snd b)) db; (es, db2) = bulk_history bulk bs db1 in (e # es, db2))"

text \<open>
  What the code relies on of a table that hangs on a run and is filled in bulk: an insert that reports an
  error has stored nothing, one that does not has stored every row, behind the rows of that run.
\<close>

locale bulk_table =
  fixes bulk :: "tx_env \<Rightarrow> string \<Rightarrow> 'r list \<Rightarrow> database \<Rightarrow> sql_err option \<times> database"
    and rows :: "string \<Rightarrow> database \<Rightarrow> 'v list"
    and view :: "'r \<Rightarrow> 'v"
  assumes bulk_fails: "bulk env i xs db = (Some e, db') \<Longrightarrow> db' = db"
    and bulk_stores: "bulk env i xs db = (None, db') \<Longrightarrow> rows j db' = rows j db @ (if j = i then map view xs else [])"
begin

text \<open>A history of inserts stores exactly the batches that were reported stored, in their order.\<close>

lemma history_stores_successes:
  "rows j (snd (bulk_history bulk bs db)) =
    rows j db @ concat (map (\<lambda>(e, b). if e = None \<and> fst (snd b) = j then map view (snd (snd b)) else [])
      (zip (fst (bulk_history bulk bs db)) bs))"
proof (induction bs arbitrary: db)
  case (Cons b bs)
  obtain e db1 where b: "bulk (fst b) (fst (snd b)) (snd (snd b)) db = (e, db1)" by (cases "bulk (fst b) (fst (snd b)) (snd (snd b)) db")
  have "rows j db1 = rows j db @ (if e = None \<and> fst (snd b) = j then map view (snd (snd b)) else [])"
  proof (cases e)
    case None
    then show ?thesis using bulk_stores b by auto
  next
    case (Some x)
    then have "db1 = db" using b bulk_fails by blast
    then show ?thesis using Some by simp
  qed
  then show ?case using Cons.IH [of db1] by (auto simp: b Let_def split: prod.splits)
qed simp

end

text \<open>The entries and points of a run, in the order of their rows.\<close>

definition stored_logs :: "string \<Rightarrow> database \<Rightarrow> log_entry list" where
  "stored_logs i db = map (\<lambda>r. projr (scan_log r)) (filter (\<lambda>r. l_run r = i) (db_logs db))"

definition stored_points :: "string \<Rightarrow> database \<Rightarrow> series_point list" where
  "stored_points i db = map (\<lambda>r. projr (scan_point r)) (filter (\<lambda>r. s_run r = i) (db_series db))"

lemma BulkInsertTxLogs_ok:
  assumes "BulkInsertTxLogs env i xs db = (None, db')"
  shows "db_logs db' = db_logs db @ map (log_row_of i) xs \<and> db_runs db' = db_runs db \<and> db_series db' = db_series db \<and>
    db_accounts db' = db_accounts db \<and> db_contracts db' = db_contracts db \<and> (xs \<noteq> [] \<longrightarrow> i \<in> c_id ` set (db_runs db))"
proof (cases xs)
  case Nil
  then show ?thesis using assms by (simp add: BulkInsertTxLogs_def)
next
  case (Cons x xs1)
  then have rows: "exec_rows env (insert_log i) 0 xs db = Inr db'"
    using assms by (auto simp: BulkInsertTxLogs_def dest!: in_tx_ok prepared_ok)
  let ?P = "\<lambda>d. db_runs d = db_runs db \<and> db_series d = db_series db \<and> db_accounts d = db_accounts db \<and> db_contracts d = db_contracts db"
  have "?P db' \<and> db_logs db' = db_logs db @ map (log_row_of i) xs"
    by (rule exec_rows_ok [OF rows]) (simp_all add: insert_log_ok)
  moreover have "i \<in> c_id ` set (db_runs db)"
    using rows by (auto simp: Cons insert_log_ok split: if_splits option.splits sum.splits)
  ultimately show ?thesis by simp
qed

lemma BulkInsertTimeSeries_ok:
  assumes "BulkInsertTimeSeries env i xs db = (None, db')"
  shows "db_series db' = db_series db @ map (series_row_of i) xs \<and> db_runs db' = db_runs db \<and> db_logs db' = db_logs db \<and>
    db_accounts db' = db_accounts db \<and> db_contracts db' = db_contracts db \<and> (xs \<noteq> [] \<longrightarrow> i \<in> c_id ` set (db_runs db))"
proof (cases xs)
  case Nil
  then show ?thesis using assms by (simp add: BulkInsertTimeSeries_def)
next
  case (Cons x xs1)
  then have rows: "exec_rows env (insert_point i) 0 xs db = Inr db'"
    using assms by (auto simp: BulkInsertTimeSeries_def dest!: in_tx_ok prepared_ok)
  let ?P = "\<lambda>d. db_runs d = db_runs db \<and> db_logs d = db_logs db \<and> db_accounts d = db_accounts db \<and> db_contracts d = db_contracts db"
  have "?P db' \<and> db_series db' = db_series db @ map (series_row_of i) xs"
    by (rule exec_rows_ok [OF rows]) (simp_all add: insert_point_ok)
  moreover have "i \<in> c_id ` set (db_runs db)"
    using rows by (auto simp: Cons insert_point_ok split: if_splits option.splits sum.splits)
  ultimately show ?thesis by simp
qed

lemma BulkInsertTxLogs_fails: "BulkInsertTxLogs env i xs db = (Some e, db') \<Longrightarrow> db' = db"
  by (auto simp: BulkInsertTxLogs_def dest: in_tx_fails split: if_splits)

lemma BulkInsertTimeSeries_fails: "BulkInsertTimeSeries env i xs db = (Some e, db') \<Longrightarrow> db' = db"
  by (auto simp: BulkInsertTimeSeries_def dest: in_tx_fails split: if_splits)

interpretation logs: bulk_table BulkInsertTxLogs stored_logs id
  by unfold_locales (auto simp: stored_logs_def o_def dest: BulkInsertTxLogs_fails BulkInsertTxLogs_ok)

interpretation points: bulk_table BulkInsertTimeSeries stored_points kept_point
  by unfold_locales (auto simp: stored_points_def o_def dest: BulkInsertTimeSeries_fails BulkInsertTimeSeries_ok)

end
