(* ===== verification/Store_Facts.thy ===== *)
theory Store_Facts
  imports Store
begin

text \<open>
  What the store promises: a completed run reads back as it was completed, a bulk insert is atomic and its
  pages list every entry once, references and keys stay intact under every operation, and the cache is a map
  from keys to the values saved last.
\<close>

section \<open>A run reads back\<close>

text \<open>
  What the code relies on of \<open>encoding/json\<close>: \<open>nil\<close> is written as \<open>null\<close>, which read into an object
  changes nothing and read into a slice gives \<open>nil\<close>; a value of the type of its column is written as
  another text, from which it is read back.
\<close>

definition codec_ok :: "'j codec \<Rightarrow> (json_column \<Rightarrow> 'j \<Rightarrow> bool) \<Rightarrow> bool" where
  "codec_ok cd typed \<longleftrightarrow>
     cd_marshal cd None = Some ''null'' \<and>
     (\<forall>col. cd_into cd col (cd_zero cd col) ''null'' = cd_zero cd col \<and> cd_slice cd col ''null'' = None) \<and>
     (\<forall>col v. typed col v \<longrightarrow>
        (\<exists>s. cd_marshal cd (Some v) = Some s \<and> s \<noteq> '''' \<and> s \<noteq> ''null'' \<and> cd_into cd col (cd_zero cd col) s = v \<and>
           cd_slice cd col s = Some v))"

definition typed_opt :: "(json_column \<Rightarrow> 'j \<Rightarrow> bool) \<Rightarrow> json_column \<Rightarrow> 'j option \<Rightarrow> bool" where
  "typed_opt typed col p = (case p of None \<Rightarrow> True | Some v \<Rightarrow> typed col v)"

definition typed_run :: "(json_column \<Rightarrow> 'j \<Rightarrow> bool) \<Rightarrow> 'j test_run \<Rightarrow> bool" where
  "typed_run typed r \<longleftrightarrow>
     typed_opt typed ColLatency (tr_LatencyStats r) \<and> typed_opt typed ColPreconf (tr_PreconfLatency r) \<and>
     typed_opt typed ColPending (tr_PendingLatency r) \<and> typed_opt typed ColConfig (tr_Config r) \<and>
     typed_opt typed ColTips (tr_TipHistogram r) \<and> typed_opt typed ColTypes (tr_TxTypeMetrics r) \<and>
     typed_opt typed ColReadLoad (tr_ReadLoad r) \<and> typed_opt typed ColEnvironment (tr_Environment r) \<and>
     typed_opt typed ColVerification (tr_Verification r) \<and> typed_opt typed ColContracts (tr_DeployedContracts r) \<and>
     typed_opt typed ColAccounts (tr_TestAccounts r)"

text \<open>A \<open>nil\<close> pointer comes back as a pointer to a zero object.\<close>

definition some_or_zero :: "'j codec \<Rightarrow> json_column \<Rightarrow> 'j option \<Rightarrow> 'j option" where
  "some_or_zero cd col p = Some (case p of None \<Rightarrow> cd_zero cd col | Some v \<Rightarrow> v)"

text \<open>The run a client reads: what was created with \<open>r0\<close> and completed with \<open>r\<close>.\<close>

definition completed_run :: "'j codec \<Rightarrow> int \<Rightarrow> 'j test_run \<Rightarrow> 'j test_run \<Rightarrow> 'j test_run" where
  "completed_run cd now r0 r =
     r\<lparr>tr_ID := tr_ID r0, tr_StartedAt := tr_StartedAt r0, tr_CompletedAt := Some now, tr_Pattern := tr_Pattern r0,
       tr_TransactionType := tr_TransactionType r0, tr_DurationMs := tr_DurationMs r0,
       tr_TxLoggingEnabled := tr_TxLoggingEnabled r0,
       tr_ExecutionLayer := (if tr_ExecutionLayer r0 = '''' then ''reth'' else tr_ExecutionLayer r0),
       tr_PrivacyMode := tr_PrivacyMode r0, tr_CustomName := None, tr_IsFavorite := False,
       tr_LatencyStats := some_or_zero cd ColLatency (tr_LatencyStats r),
       tr_PreconfLatency := some_or_zero cd ColPreconf (tr_PreconfLatency r),
       tr_PendingLatency := some_or_zero cd ColPending (tr_PendingLatency r),
       tr_Config := some_or_zero cd ColConfig (tr_Config r0),
       tr_Environment := some_or_zero cd ColEnvironment (tr_Environment r),
       tr_Verification := some_or_zero cd ColVerification (tr_Verification r),
       tr_TestAccounts := some_or_zero cd ColAccounts (tr_TestAccounts r)\<rparr>"

lemma codec_pointer:
  assumes "codec_ok cd typed" "typed_opt typed col p"
  shows "json_pointer cd col (Some (json_text cd p)) = some_or_zero cd col p"
  using assms by (cases p) (fastforce simp: codec_ok_def typed_opt_def json_pointer_def json_text_def some_or_zero_def)+

lemma codec_slice:
  assumes "codec_ok cd typed" "typed_opt typed col p"
  shows "json_slice cd col (Some (json_text cd p)) = p"
  using assms by (cases p) (fastforce simp: codec_ok_def typed_opt_def json_slice_def json_text_def)+

lemma codec_guarded:
  assumes "codec_ok cd typed" "typed_opt typed col p"
  shows "(if json_text cd p = ''null'' then None else json_pointer cd col (Some (json_text cd p))) = p"
  using assms by (cases p) (fastforce simp: codec_ok_def typed_opt_def json_pointer_def json_text_def)+

lemma codec_config:
  assumes "codec_ok cd typed" "typed_opt typed col p"
  shows "cd_marshal cd p = Some (json_text cd p)"
  using assms by (cases p) (fastforce simp: codec_ok_def typed_opt_def json_text_def)+

lemma scan_final_row:
  assumes "codec_ok cd typed" "typed_run typed r" "typed_opt typed ColConfig p" "c_json row ColConfig = Some (json_text cd p)"
  shows "scanTestRun cd (final_row cd now r row) =
    Inr (r\<lparr>tr_ID := c_id row, tr_StartedAt := c_started_at row, tr_CompletedAt := Some now, tr_Pattern := c_pattern row,
       tr_TransactionType := c_transaction_type row, tr_DurationMs := c_duration_ms row,
       tr_TxLoggingEnabled := c_tx_logging_enabled row, tr_ExecutionLayer := coalesce ''reth'' (c_execution_layer row),
       tr_PrivacyMode := (coalesce 0 (c_privacy_mode row) = 1), tr_CustomName := c_custom_name row,
       tr_IsFavorite := (coalesce 0 (c_is_favorite row) = 1),
       tr_LatencyStats := some_or_zero cd ColLatency (tr_LatencyStats r),
       tr_PreconfLatency := some_or_zero cd ColPreconf (tr_PreconfLatency r),
       tr_PendingLatency := some_or_zero cd ColPending (tr_PendingLatency r),
       tr_Config := some_or_zero cd ColConfig p,
       tr_Environment := some_or_zero cd ColEnvironment (tr_Environment r),
       tr_Verification := some_or_zero cd ColVerification (tr_Verification r),
       tr_TestAccounts := some_or_zero cd ColAccounts (tr_TestAccounts r)\<rparr>)"
proof -
  note t = assms(2) [unfolded typed_run_def]
  have rl: "typed_opt typed ColReadLoad (tr_ReadLoad r)" using t by blast
  have none: "json_text cd (tr_ReadLoad r) = ''null'' \<Longrightarrow> None = tr_ReadLoad r"
    and some: "json_text cd (tr_ReadLoad r) \<noteq> ''null'' \<Longrightarrow> some_or_zero cd ColReadLoad (tr_ReadLoad r) = tr_ReadLoad r"
    using codec_guarded [OF assms(1) rl] codec_pointer [OF assms(1) rl] by auto
  show ?thesis
    using t assms(3) none some
    by (cases "json_text cd (tr_ReadLoad r) = ''null''"; cases r)
      (simp_all add: scanTestRun_def scan_uints_def final_row_def final_json_def assms(4)
        codec_pointer [OF assms(1)] codec_slice [OF assms(1)])
qed

lemma GetTestRun_other:
  "i \<noteq> j \<Longrightarrow> (\<And>r. c_id (f r) = c_id r) \<Longrightarrow> GetTestRun cd io j (update_runs i f db) = GetTestRun cd io j db"
proof -
  assume "i \<noteq> j" "\<And>r. c_id (f r) = c_id r"
  then have "filter (\<lambda>r. c_id r = j) (map (\<lambda>r. if c_id r = i then f r else r) rs) = filter (\<lambda>r. c_id r = j) rs" for rs
    by (induction rs) auto
  then show ?thesis by (simp add: GetTestRun_def update_runs_def split: option.split list.split)
qed


section \<open>References and keys\<close>

text \<open>The operations that change the database, with what the engine answers to them.\<close>

datatype 'j db_op =
    OpCreate "string option" "'j test_run"
  | OpUpdate "string option" "'j test_run"
  | OpComplete "string option" int string "'j test_run"
  | OpDelete "string option" string
  | OpMetadata "string option" string metadata_update
  | OpSeries tx_env string "series_point list"
  | OpLogs tx_env string "log_entry list"
  | OpSaveAccounts tx_env "cached_account list"
  | OpDeleteAccounts "string option" int
  | OpMarkReady tx_env int "string list"
  | OpSaveContract "string option" cached_contract
  | OpDeleteContracts "string option" int

fun db_step :: "'j codec \<Rightarrow> 'j db_op \<Rightarrow> database \<Rightarrow> sql_err option \<times> database" where
  "db_step cd (OpCreate io r) db = CreateTestRun cd io r db"
| "db_step cd (OpUpdate io r) db = UpdateTestRun cd io r db"
| "db_step cd (OpComplete io now i r) db = CompleteTestRun cd io now i r db"
| "db_step cd (OpDelete io i) db = DeleteTestRun io i db"
| "db_step cd (OpMetadata io i u) db = UpdateTestRunMetadata io i u db"
| "db_step cd (OpSeries env i ps) db = BulkInsertTimeSeries env i ps db"
| "db_step cd (OpLogs env i ls) db = BulkInsertTxLogs env i ls db"
| "db_step cd (OpSaveAccounts env accs) db = SaveCachedAccounts env accs db"
| "db_step cd (OpDeleteAccounts io c) db = DeleteCachedAccounts io c db"
| "db_step cd (OpMarkReady env c as) db = MarkAccountsUniswapReady env c as db"
| "db_step cd (OpSaveContract io c) db = SaveCachedContract io c db"
| "db_step cd (OpDeleteContracts io c) db = DeleteCachedContracts io c db"

definition db_run_ops :: "'j codec \<Rightarrow> 'j db_op list \<Rightarrow> database \<Rightarrow> database" where
  "db_run_ops cd ops db = fold (\<lambda>op db. snd (db_step cd op db)) ops db"

definition run_ids :: "database \<Rightarrow> string list" where "run_ids db = map c_id (db_runs db)"

definition db_ok :: "database \<Rightarrow> bool" where
  "db_ok db \<longleftrightarrow>
     distinct (run_ids db) \<and>
     list_all (\<lambda>r. s_run r \<in> set (run_ids db)) (db_series db) \<and> list_all (\<lambda>r. l_run r \<in> set (run_ids db)) (db_logs db) \<and>
     distinct (map account_key (db_accounts db)) \<and> distinct (map contract_key (db_contracts db))"

lemma db_ok_empty: "db_ok empty_database"
  by (simp add: db_ok_def empty_database_def run_ids_def)

lemma run_ids_update [simp]: "(\<And>r. c_id (f r) = c_id r) \<Longrightarrow> run_ids (update_runs i f db) = run_ids db"
  by (auto simp: run_ids_def update_runs_def)

lemma update_runs_ok:
  "db_ok db \<Longrightarrow> (\<And>r. c_id (f r) = c_id r) \<Longrightarrow> db_ok (update_runs i f db)"
  by (simp add: db_ok_def) (simp add: update_runs_def)

lemma exec_stmt_ok_inv:
  "db_ok db \<Longrightarrow> (\<And>db'. f db = Inr db' \<Longrightarrow> db_ok db') \<Longrightarrow> db_ok (snd (exec_stmt io f db))"
  by (simp add: exec_stmt_def split: option.split sum.split)

lemma in_tx_ok_inv:
  "db_ok db \<Longrightarrow> (\<And>db'. body db = Inr db' \<Longrightarrow> db_ok db') \<Longrightarrow> db_ok (snd (in_tx env body db))"
  by (simp add: in_tx_def split: option.split sum.split)

lemma distinct_upsert: "distinct (map key rows) \<Longrightarrow> distinct (map key (upsert key r rows))"
  by (auto simp: upsert_def distinct_map intro: inj_on_subset)

lemma exec_rows_inv:
  assumes "exec_rows env f k rs db = Inr db'" "P db" "\<And>r db db'. P db \<Longrightarrow> f r db = Inr db' \<Longrightarrow> P db'"
  shows "P db'"
  using assms by (induction rs arbitrary: k db) (auto split: if_splits option.splits sum.splits)

lemma CreateTestRun_inv: "db_ok db \<Longrightarrow> db_ok (snd (CreateTestRun cd io r db))"
  by (auto simp: CreateTestRun_def Let_def split: option.split intro!: exec_stmt_ok_inv)
    (auto simp: db_ok_def run_ids_def list_all_iff split: if_splits)

lemma DeleteTestRun_inv: "db_ok db \<Longrightarrow> db_ok (snd (DeleteTestRun io i db))"
proof -
  assume ok: "db_ok db"
  have "set (map c_id (filter (\<lambda>r. c_id r \<noteq> i) (db_runs db))) = set (run_ids db) - {i}" by (auto simp: run_ids_def)
  then show ?thesis
    using ok unfolding DeleteTestRun_def
    by (intro exec_stmt_ok_inv) (auto simp: db_ok_def run_ids_def list_all_iff distinct_map split: if_splits intro: inj_on_subset)
qed

lemma mark_batches_keys:
  "mark_batches io chain k bs db = Inr db' \<Longrightarrow> db_ok db \<Longrightarrow> db_ok db'"
proof (induction bs arbitrary: k db)
  case (Cons b bs)
  have "map account_key (db_accounts (mark_batch chain b db)) = map account_key (db_accounts db)"
    by (simp add: mark_batch_def account_key_def)
  moreover have "db_runs (mark_batch chain b db) = db_runs db" "db_series (mark_batch chain b db) = db_series db"
    "db_logs (mark_batch chain b db) = db_logs db" "db_contracts (mark_batch chain b db) = db_contracts db"
    by (simp_all add: mark_batch_def)
  ultimately have "db_ok (mark_batch chain b db)" using Cons.prems(2) by (simp add: db_ok_def run_ids_def)
  then show ?case using Cons by (simp split: option.splits)
qed simp

lemma bulk_inv:
  "db_ok db \<Longrightarrow> db_ok (snd (BulkInsertTimeSeries env i ps db))"
  "db_ok db \<Longrightarrow> db_ok (snd (BulkInsertTxLogs env i ls db))"
proof -
  assume ok: "db_ok db"
  have "db_ok db'" if "BulkInsertTimeSeries env i ps db = (e, db')" for e db'
    using that ok BulkInsertTimeSeries_fails [of env i ps db _ db'] BulkInsertTimeSeries_ok [of env i ps db db']
    by (cases e) (auto simp: db_ok_def run_ids_def list_all_iff)
  then show "db_ok (snd (BulkInsertTimeSeries env i ps db))" by (metis prod.collapse)
  have "db_ok db'" if "BulkInsertTxLogs env i ls db = (e, db')" for e db'
    using that ok BulkInsertTxLogs_fails [of env i ls db _ db'] BulkInsertTxLogs_ok [of env i ls db db']
    by (cases e) (auto simp: db_ok_def run_ids_def list_all_iff)
  then show "db_ok (snd (BulkInsertTxLogs env i ls db))" by (metis prod.collapse)
qed

lemma insert_account_inv: "db_ok db \<Longrightarrow> insert_account a db = Inr db' \<Longrightarrow> db_ok db'"
  by (auto simp: insert_account_def db_ok_def run_ids_def distinct_upsert)

lemma cache_inv:
  "db_ok db \<Longrightarrow> db_ok (snd (DeleteCachedAccounts io c db))"
  "db_ok db \<Longrightarrow> db_ok (snd (SaveCachedContract io cc db))"
  "db_ok db \<Longrightarrow> db_ok (snd (DeleteCachedContracts io c db))"
proof -
  assume ok: "db_ok db"
  show "db_ok (snd (DeleteCachedAccounts io c db))"
    unfolding DeleteCachedAccounts_def
    by (rule exec_stmt_ok_inv [OF ok]) (use ok in \<open>auto simp: db_ok_def run_ids_def distinct_map_filter\<close>)
  show "db_ok (snd (SaveCachedContract io cc db))"
    unfolding SaveCachedContract_def
    by (rule exec_stmt_ok_inv [OF ok]) (use ok in \<open>auto simp: db_ok_def run_ids_def distinct_upsert\<close>)
  show "db_ok (snd (DeleteCachedContracts io c db))"
    unfolding DeleteCachedContracts_def
    by (rule exec_stmt_ok_inv [OF ok]) (use ok in \<open>auto simp: db_ok_def run_ids_def distinct_map_filter\<close>)
qed

lemma db_step_inv: "db_ok db \<Longrightarrow> db_ok (snd (db_step cd op db))"
proof (cases op)
  case (OpUpdate io r)
  then show "db_ok db \<Longrightarrow> ?thesis"
    by (auto simp: UpdateTestRun_def split: option.splits intro!: exec_stmt_ok_inv update_runs_ok)
next
  case (OpComplete io now i r)
  then show "db_ok db \<Longrightarrow> ?thesis"
    by (auto simp: CompleteTestRun_def final_row_def split: if_splits intro!: exec_stmt_ok_inv update_runs_ok)
next
  case (OpMetadata io i u)
  then show "db_ok db \<Longrightarrow> ?thesis"
    by (auto simp: UpdateTestRunMetadata_def split: if_splits intro!: exec_stmt_ok_inv update_runs_ok)
next
  case (OpSaveAccounts env accs)
  moreover have "db_ok db'" if "db_ok db" "exec_rows env insert_account 0 accs db = Inr db'" for db'
    using exec_rows_inv [of env insert_account 0 accs db db' db_ok] that insert_account_inv by blast
  ultimately show "db_ok db \<Longrightarrow> ?thesis"
    by (auto simp: SaveCachedAccounts_def intro!: in_tx_ok_inv dest!: prepared_ok)
next
  case (OpDeleteAccounts io c)
  then show "db_ok db \<Longrightarrow> ?thesis"
    by (simp add: cache_inv)
next
  case (OpMarkReady env c as)
  then show "db_ok db \<Longrightarrow> ?thesis"
    by (auto simp: MarkAccountsUniswapReady_def intro!: in_tx_ok_inv dest: mark_batches_keys)
next
  case (OpSaveContract io c)
  then show "db_ok db \<Longrightarrow> ?thesis"
    by (simp add: cache_inv)
next
  case (OpDeleteContracts io c)
  then show "db_ok db \<Longrightarrow> ?thesis"
    by (simp add: cache_inv)
qed (simp_all add: CreateTestRun_inv DeleteTestRun_inv bulk_inv)

lemma db_run_inv: "db_ok db \<Longrightarrow> db_ok (db_run_ops cd ops db)"
  by (induction ops arbitrary: db) (simp_all add: db_run_ops_def db_step_inv)

text \<open>
  C27: After any history of operations on an empty database, with any of them failing anywhere, run ids are
  unique, every time-series row and every log row belongs to a run that exists, and no key occurs twice in
  the cache; deleting a run then leaves no row of it and every row of the others.
\<close>
theorem store_integrity:
  assumes "db = db_run_ops cd ops empty_database" "DeleteTestRun None i db = (e, db')"
  shows "db_ok db \<and> e = None \<and> db_ok db' \<and> stored_logs i db' = [] \<and> stored_points i db' = [] \<and> i \<notin> set (run_ids db') \<and>
    (\<forall>j. j \<noteq> i \<longrightarrow> stored_logs j db' = stored_logs j db \<and> stored_points j db' = stored_points j db)"
proof -
  have ok: "db_ok db" by (simp add: assms(1) db_run_inv db_ok_empty)
  then have "db_ok db'" using DeleteTestRun_inv [OF ok, of None i] assms(2) by simp
  have db': "e = None" "db' = db\<lparr>db_runs := filter (\<lambda>r. c_id r \<noteq> i) (db_runs db),
       db_series := (if i \<in> c_id ` set (db_runs db) then filter (\<lambda>r. s_run r \<noteq> i) (db_series db) else db_series db),
       db_logs := (if i \<in> c_id ` set (db_runs db) then filter (\<lambda>r. l_run r \<noteq> i) (db_logs db) else db_logs db)\<rparr>"
    using assms(2) by (simp_all add: DeleteTestRun_def exec_stmt_def)
  have gone: "i \<notin> set (run_ids db')" by (auto simp: db' run_ids_def)
  then have "filter (\<lambda>r. l_run r = i) (db_logs db') = []" "filter (\<lambda>r. s_run r = i) (db_series db') = []"
    using \<open>db_ok db'\<close> by (auto simp: db_ok_def list_all_iff filter_empty_conv)
  moreover have "j \<noteq> i \<Longrightarrow> stored_logs j db' = stored_logs j db \<and> stored_points j db' = stored_points j db" for j
    by (auto simp: db' stored_logs_def stored_points_def intro!: arg_cong [of _ _ "map _"] filter_cong)
  ultimately show ?thesis using ok \<open>db_ok db'\<close> gone by (simp add: db'(1) stored_logs_def stored_points_def)
qed

section \<open>Bulk inserts and their pages\<close>

text \<open>
  Whatever history of bulk inserts runs, for any runs and with transactions failing at any statement, the
  rows of a run are afterwards those it had followed by the batches whose insert reported no error, whole
  and in order; of a batch that reported one nothing is stored.  A stored point has lost its block time
  and gas prices.
\<close>
theorem bulk_inserts_all_or_nothing:
  "stored_logs j (snd (bulk_history BulkInsertTxLogs lbs db)) =
     stored_logs j db @ concat (map (\<lambda>(e, b). if e = None \<and> fst (snd b) = j then snd (snd b) else [])
       (zip (fst (bulk_history BulkInsertTxLogs lbs db)) lbs)) \<and>
   stored_points j (snd (bulk_history BulkInsertTimeSeries sbs db)) =
     stored_points j db @ concat (map (\<lambda>(e, b). if e = None \<and> fst (snd b) = j then map kept_point (snd (snd b)) else [])
       (zip (fst (bulk_history BulkInsertTimeSeries sbs db)) sbs))"
  using logs.history_stores_successes [unfolded list.map_id, of j lbs db] points.history_stores_successes [of j sbs db] by blast

text \<open>What \<open>ORDER BY\<close> a column promises: the same rows, in the order of the column.\<close>

definition orders :: "('r \<Rightarrow> int) \<Rightarrow> ('r list \<Rightarrow> 'r list) \<Rightarrow> bool" where
  "orders key ord \<longleftrightarrow> (\<forall>xs. mset (ord xs) = mset xs \<and> sorted (map key (ord xs)))"

definition no_failure :: query_env where "no_failure = \<lparr>qe_err = None, qe_cut = None\<rparr>"

lemma pages_concat: "concat (map (\<lambda>k. page (int L) (int (k * L)) xs) [0..<n]) = take (n * L) xs"
proof (induction n)
  case (Suc n)
  have "take (Suc n * L) xs = take (n * L) xs @ take L (drop (n * L) xs)"
    using take_add [of "n * L" L xs] by (simp add: add.commute)
  then show ?case using Suc by (simp add: page_def Let_def nat_mult_distrib)
qed simp

lemma scan_all_logs: "list_all (\<lambda>r. scan_log r \<noteq> Inl ScanFailed) rs \<Longrightarrow> scan_all scan_log rs = Inr (map (\<lambda>r. projr (scan_log r)) rs)"
  by (induction rs) (auto simp: scan_log_def split: option.splits)

lemma log_row_sent: "l_sent_at_ms (log_row_of i e) = le_SentAtMs e"
  by (simp add: log_row_of_def)

lemma set_page: "set (page l off xs) \<subseteq> set xs"
  using set_take_subset [of "nat l" "drop (nat off) xs"] set_drop_subset [of "nat off" xs] by (auto simp: page_def Let_def split: if_splits)

text \<open>
  The transaction log of a run that is written in one insert reads back through its pages: for any page
  size the pages together hold every entry exactly once, oldest first, with all its fields, and every page
  reports the number of entries.
\<close>
theorem log_pages_complete:
  assumes ord: "orders l_sent_at_ms ord"
    and ins: "BulkInsertTxLogs env i xs db = (None, db')" "stored_logs i db = []"
    and size: "0 < L" "length xs \<le> n * L"
    and pages: "pages = map (\<lambda>k. GetTxLogs ord None no_failure i (int L) (int (k * L)) db') [0..<n]"
  shows "list_all (\<lambda>p. \<not> isl p \<and> pg_Total (projr p) = int (length xs)) pages \<and>
    mset (concat (map (\<lambda>p. pg_Items (projr p)) pages)) = mset xs \<and>
    sorted (map le_SentAtMs (concat (map (\<lambda>p. pg_Items (projr p)) pages)))"
proof -
  have "filter (\<lambda>r. l_run r = i) (db_logs db) = []" using ins(2) by (simp add: stored_logs_def)
  then have rows: "filter (\<lambda>r. l_run r = i) (db_logs db') = map (log_row_of i) xs"
    using BulkInsertTxLogs_ok [OF ins(1)] by (simp add: o_def)
  define rs where "rs = ord (map (log_row_of i) xs)"
  have rs: "mset rs = mset (map (log_row_of i) xs)" "sorted (map l_sent_at_ms rs)" using ord by (simp_all add: orders_def rs_def)
  have "set rs = log_row_of i ` set xs" using arg_cong [OF rs(1), of set_mset] by simp
  then have good: "scan_log r \<noteq> Inl ScanFailed \<and> le_SentAtMs (projr (scan_log r)) = l_sent_at_ms r" if "r \<in> set rs" for r
    using that by (auto simp: log_row_sent)
  have page: "GetTxLogs ord None no_failure i l off db' =
      Inr \<lparr>pg_Items = map (\<lambda>r. projr (scan_log r)) (page l off rs), pg_Total = int (length xs), pg_Limit = l, pg_Offset = off\<rparr>" for l off
  proof -
    have "list_all (\<lambda>r. scan_log r \<noteq> Inl ScanFailed) (page l off rs)" using good set_page [of l off rs] by (auto simp: list_all_iff)
    then show ?thesis by (simp add: GetTxLogs_def rows no_failure_def delivered_def rs_def [symmetric] scan_all_logs)
  qed
  have "concat (map (\<lambda>p. pg_Items (projr p)) pages) = map (\<lambda>r. projr (scan_log r)) (concat (map (\<lambda>k. page (int L) (int (k * L)) rs) [0..<n]))"
    by (simp add: pages page map_concat o_def)
  also have "\<dots> = map (\<lambda>r. projr (scan_log r)) rs"
    using size arg_cong [OF rs(1), of size] unfolding pages_concat by simp
  finally have all: "concat (map (\<lambda>p. pg_Items (projr p)) pages) = map (\<lambda>r. projr (scan_log r)) rs" .
  have "image_mset (\<lambda>r. projr (scan_log r)) (mset rs) = mset xs" by (simp add: rs(1) image_mset.compositionality o_def)
  moreover have "map le_SentAtMs (map (\<lambda>r. projr (scan_log r)) rs) = map l_sent_at_ms rs" using good by simp
  then have "sorted (map le_SentAtMs (map (\<lambda>r. projr (scan_log r)) rs))" using rs(2) by (simp only:)
  moreover have "list_all (\<lambda>p. \<not> isl p \<and> pg_Total (projr p) = int (length xs)) pages" by (simp add: pages page list_all_iff)
  ultimately show ?thesis unfolding all by (simp del: map_map)
qed

section \<open>The cache is a map\<close>

definition account_at :: "database \<Rightarrow> string \<times> int \<rightharpoonup> cached_account" where
  "account_at db = map_of (map (\<lambda>a. (account_key a, a)) (db_accounts db))"

lemma map_of_upsert: "map_of (map (\<lambda>a. (key a, a)) (upsert key r rows)) = (map_of (map (\<lambda>a. (key a, a)) rows))(key r \<mapsto> r)"
proof -
  have "map_of (map (\<lambda>a. (key a, a)) (filter (\<lambda>x. key x \<noteq> k) rows)) = (map_of (map (\<lambda>a. (key a, a)) rows))(k := None)" for k
    by (induction rows) auto
  from this [of "key r"] show ?thesis
    unfolding upsert_def map_append map_of_append by (auto simp: map_add_def fun_eq_iff split: option.split)
qed

lemma insert_account_once: "insert_account a db = Inr (db\<lparr>db_accounts := upsert account_key a (db_accounts db)\<rparr>)"
  by (simp add: insert_account_def)

lemma exec_accounts:
  "exec_rows env insert_account k accs db = Inr db' \<Longrightarrow>
    account_at db' = account_at db ++ map_of (rev (map (\<lambda>a. (account_key a, a)) accs))"
proof (induction accs arbitrary: k db)
  case (Cons a accs)
  have "exec_rows env insert_account (k + 1) accs (db\<lparr>db_accounts := upsert account_key a (db_accounts db)\<rparr>) = Inr db'"
    using Cons.prems insert_account_once [of a db] by (simp split: if_splits option.splits)
  from Cons.IH [OF this] show ?case by (simp add: account_at_def map_of_upsert map_add_upd_left flip: map_add_assoc) (auto simp: map_add_def fun_eq_iff split: option.split)
qed (auto simp: account_at_def)

lemma map_of_marked:
  "map_of (map (\<lambda>a. (account_key a, a)) (map (\<lambda>a. if ca_ChainID a = c \<and> ca_Address a \<in> B then a\<lparr>ca_UniswapReady := True\<rparr> else a) rows)) key =
    map_option (\<lambda>a. if snd key = c \<and> fst key \<in> B then a\<lparr>ca_UniswapReady := True\<rparr> else a) (map_of (map (\<lambda>a. (account_key a, a)) rows) key)"
  by (induction rows) (auto simp: account_key_def)

lemma marked_at:
  "mark_batches io c k bs db = Inr db' \<Longrightarrow>
    account_at db' key = map_option (\<lambda>a. if snd key = c \<and> fst key \<in> set (concat bs) then a\<lparr>ca_UniswapReady := True\<rparr> else a) (account_at db key)"
proof (induction bs arbitrary: k db)
  case Nil
  then show ?case by (simp add: option.map_ident)
next
  case (Cons b bs)
  have rest: "mark_batches io c (k + 1) bs (mark_batch c b db) = Inr db'" using Cons.prems by (simp split: option.splits)
  have "account_at (mark_batch c b db) key =
      map_option (\<lambda>a. if snd key = c \<and> fst key \<in> set b then a\<lparr>ca_UniswapReady := True\<rparr> else a) (account_at db key)"
    unfolding account_at_def mark_batch_def by (simp add: map_of_marked del: map_map)
  then show ?case using Cons.IH [OF rest] by (cases "account_at db key") auto
qed

text \<open>
  C28: The account cache is a map from address and chain to the account saved last: a save that reports no
  error overrides the map with its accounts, the later of two with the same key winning, marking sets the flag of
  exactly the accounts named, deleting a chain removes exactly its accounts, an operation that reports an error
  changes nothing; and a load returns, after any history, exactly the accounts the map has for the chain.
\<close>
theorem cache_refines_map:
  assumes "db_ok db"
  shows "(\<forall>env accs db'. SaveCachedAccounts env accs db = (None, db') \<longrightarrow>
      account_at db' = account_at db ++ map_of (rev (map (\<lambda>a. (account_key a, a)) accs))) \<and>
    (\<forall>env c as db'. MarkAccountsUniswapReady env c as db = (None, db') \<longrightarrow>
      account_at db' = (\<lambda>k. map_option (\<lambda>a. if snd k = c \<and> fst k \<in> set as then a\<lparr>ca_UniswapReady := True\<rparr> else a) (account_at db k))) \<and>
    (\<forall>io c db'. DeleteCachedAccounts io c db = (None, db') \<longrightarrow> account_at db' = (\<lambda>k. if snd k = c then None else account_at db k)) \<and>
    (\<forall>env accs e db'. SaveCachedAccounts env accs db = (Some e, db') \<longrightarrow> db' = db) \<and>
    (\<forall>env c as e db'. MarkAccountsUniswapReady env c as db = (Some e, db') \<longrightarrow> db' = db) \<and>
    (\<forall>c. \<exists>accs. LoadCachedAccounts no_failure c db = Inr accs \<and> distinct accs \<and>
      set accs = {a. account_at db (account_key a) = Some a \<and> ca_ChainID a = c})"
proof (intro conjI allI impI)
  fix env accs db' assume "SaveCachedAccounts env accs db = (None, db')"
  then show "account_at db' = account_at db ++ map_of (rev (map (\<lambda>a. (account_key a, a)) accs))"
    by (cases accs) (auto simp: SaveCachedAccounts_def simp del: exec_rows.simps dest!: in_tx_ok prepared_ok exec_accounts)
next
  fix env c as db' assume mark: "MarkAccountsUniswapReady env c as db = (None, db')"
  show "account_at db' = (\<lambda>k. map_option (\<lambda>a. if snd k = c \<and> fst k \<in> set as then a\<lparr>ca_UniswapReady := True\<rparr> else a) (account_at db k))"
  proof (cases "as = []")
    case True
    then show ?thesis using mark by (simp add: MarkAccountsUniswapReady_def option.map_ident)
  next
    case False
    then have "mark_batches (te_exec env) c 0 (batches_of 500 as) db = Inr db'"
      using mark by (auto simp: MarkAccountsUniswapReady_def dest: in_tx_ok)
    from marked_at [OF this] show ?thesis by (simp add: batches_of_concat fun_eq_iff)
  qed
next
  fix io c db' assume "DeleteCachedAccounts io c db = (None, db')"
  then have "db_accounts db' = filter (\<lambda>a. ca_ChainID a \<noteq> c) (db_accounts db)" by (auto simp: DeleteCachedAccounts_def exec_stmt_ok)
  moreover have "map_of (map (\<lambda>a. (account_key a, a)) (filter (\<lambda>a. ca_ChainID a \<noteq> c) rows)) k =
      (if snd k = c then None else map_of (map (\<lambda>a. (account_key a, a)) rows) k)" for rows k
    by (induction rows) (auto simp: account_key_def)
  ultimately show "account_at db' = (\<lambda>k. if snd k = c then None else account_at db k)" by (simp add: account_at_def fun_eq_iff)
next
  fix c
  have keys: "distinct (map account_key (db_accounts db))" using assms by (simp add: db_ok_def)
  then have "distinct (map fst (map (\<lambda>a. (account_key a, a)) (db_accounts db)))" by (simp add: o_def)
  from map_of_eq_Some_iff [OF this] have "account_at db (account_key a) = Some a \<longleftrightarrow> a \<in> set (db_accounts db)" for a
    by (auto simp: account_at_def)
  then show "\<exists>accs. LoadCachedAccounts no_failure c db = Inr accs \<and> distinct accs \<and>
      set accs = {a. account_at db (account_key a) = Some a \<and> ca_ChainID a = c}"
    using keys by (auto simp: LoadCachedAccounts_def no_failure_def distinct_map)
qed (auto simp: SaveCachedAccounts_def MarkAccountsUniswapReady_def dest: in_tx_fails split: if_splits)

section \<open>Witnesses\<close>

text \<open>A codec that marks the text of a value, and a run with neither results nor configuration.\<close>

definition store_codec :: "string codec" where
  "store_codec =
     \<lparr>cd_marshal = (\<lambda>v. Some (case v of None \<Rightarrow> ''null'' | Some s \<Rightarrow> CHR ''='' # s)), cd_zero = (\<lambda>_. ''zero''),
      cd_into = (\<lambda>col old s. if s = ''null'' then old else tl s),
      cd_slice = (\<lambda>col s. if s = ''null'' then None else Some (tl s))\<rparr>"

lemma store_codec_ok: "codec_ok store_codec (\<lambda>_ _. True)"
  by (simp add: codec_ok_def store_codec_def)

definition example_run :: "string test_run" where
  "example_run =
     \<lparr>tr_ID = ''run-1'', tr_StartedAt = 5, tr_CompletedAt = None, tr_Pattern = PatternConstant, tr_TransactionType = TxTypeEthTransfer,
      tr_DurationMs = 1000, tr_TxSent = 7, tr_TxConfirmed = 6, tr_TxFailed = 0, tr_TxDiscarded = 1, tr_AverageTPS = 7, tr_PeakTPS = 9,
      tr_Status = ''completed'', tr_ErrorMessage = '''', tr_TxLoggingEnabled = True, tr_ExecutionLayer = '''', tr_PrivacyMode = False,
      tr_CustomName = None, tr_IsFavorite = False, tr_BlockCount = 3, tr_TotalGasUsed = 147000, tr_AvgFillRate = 0,
      tr_PeakMgasPerSec = 0, tr_AvgMgasPerSec = 0, tr_OnChainFirstBlock = 10, tr_OnChainLastBlock = 12, tr_OnChainTxCount = 7,
      tr_OnChainGasUsed = 147000, tr_OnChainMgasPerSec = 0, tr_OnChainTps = 7, tr_OnChainDurationSecs = 1, tr_AccountsActive = 0,
      tr_AccountsFunded = 0, tr_LatencyStats = Some ''latency'', tr_PreconfLatency = None, tr_PendingLatency = None,
      tr_Config = Some ''config'', tr_TipHistogram = None, tr_TxTypeMetrics = None, tr_ReadLoad = None, tr_Environment = None,
      tr_Verification = None, tr_DeployedContracts = None, tr_TestAccounts = None\<rparr>"

lemma example_typed: "typed_run (\<lambda>_ _. True) r"
  by (simp add: typed_run_def typed_opt_def split: option.split)


theorem store_integrity_witness:
  "\<exists>db db'. db = db_run_ops store_codec [OpCreate None example_run] empty_database \<and> ''run-1'' \<in> set (run_ids db) \<and>
     DeleteTestRun None ''run-1'' db = (None, db') \<and> db_ok db' \<and> ''run-1'' \<notin> set (run_ids db')"
proof -
  define db where "db = db_run_ops store_codec [OpCreate None example_run] empty_database"
  obtain e db' where d: "DeleteTestRun None ''run-1'' db = (e, db')" by fastforce
  have "''run-1'' \<in> set (run_ids db)"
    by (simp add: db_def db_run_ops_def CreateTestRun_def store_codec_def exec_stmt_def empty_database_def run_ids_def example_run_def Let_def)
  then show ?thesis using store_integrity [OF db_def d] d db_def by blast
qed

definition example_entry :: "int \<Rightarrow> log_entry" where
  "example_entry t =
     \<lparr>le_TxHash = ''0x1'', le_SentAtMs = t, le_ConfirmedAtMs = 0, le_PreconfAtMs = 0, le_ConfirmLatencyMs = 0, le_PreconfLatencyMs = 0,
      le_Status = ''pending'', le_ErrorReason = '''', le_FromAccount = 0, le_Nonce = 0, le_GasTipGwei = 1\<rparr>"

definition example_tx :: tx_env where
  "example_tx = \<lparr>te_begin = None, te_prepare = None, te_cancelled = (\<lambda>_. False), te_exec = (\<lambda>_. None), te_commit = None\<rparr>"

theorem log_pages_complete_witness:
  "\<exists>db' pages. BulkInsertTxLogs example_tx ''run-1'' (map example_entry [30, 10, 20])
       (snd (CreateTestRun store_codec None example_run empty_database)) = (None, db') \<and>
     pages = map (\<lambda>k. GetTxLogs (sort_key l_sent_at_ms) None no_failure ''run-1'' 2 (int (k * 2)) db') [0..<2] \<and>
     mset (concat (map (\<lambda>p. pg_Items (projr p)) pages)) = mset (map example_entry [30, 10, 20]) \<and>
     sorted (map le_SentAtMs (concat (map (\<lambda>p. pg_Items (projr p)) pages)))"
proof -
  define db where "db = snd (CreateTestRun store_codec None example_run empty_database)"
  have db: "''run-1'' \<in> c_id ` set (db_runs db)" "stored_logs ''run-1'' db = []"
    by (simp_all add: db_def CreateTestRun_def store_codec_def exec_stmt_def empty_database_def example_run_def Let_def stored_logs_def)
  define db' where "db' = db\<lparr>db_logs := db_logs db @ map (log_row_of ''run-1'') (map example_entry [30, 10, 20])\<rparr>"
  have ins: "BulkInsertTxLogs example_tx ''run-1'' (map example_entry [30, 10, 20]) db = (None, db')"
    using db(1) by (simp add: BulkInsertTxLogs_def in_tx_def prepared_def example_tx_def insert_log_def db'_def log_row_of_def example_entry_def sql_uint_def)
  have ord: "orders l_sent_at_ms (sort_key l_sent_at_ms)" by (simp add: orders_def)
  show ?thesis
    using log_pages_complete [OF ord ins db(2), of 2 2 "map (\<lambda>k. GetTxLogs (sort_key l_sent_at_ms) None no_failure ''run-1'' (int 2) (int (k * 2)) db') [0..<2]"]
      ins unfolding db_def [symmetric] by (intro exI [of _ db'] exI conjI) auto
qed

definition example_account :: "string \<Rightarrow> cached_account" where
  "example_account k = \<lparr>ca_Address = ''0xa'', ca_PrivateKeyHex = k, ca_ChainID = 1, ca_CreatedAt = 0, ca_UniswapReady = False\<rparr>"

theorem cache_refines_map_witness:
  "\<exists>db'. SaveCachedAccounts example_tx [example_account ''old'', example_account ''new''] empty_database = (None, db') \<and>
     account_at db' (''0xa'', 1) = Some (example_account ''new'')"
proof -
  obtain e db' where s: "SaveCachedAccounts example_tx [example_account ''old'', example_account ''new''] empty_database = (e, db')" by fastforce
  then have e: "e = None" by (auto simp: SaveCachedAccounts_def in_tx_def prepared_def example_tx_def insert_account_def)
  have "account_at db' = account_at empty_database ++ map_of (rev (map (\<lambda>a. (account_key a, a)) [example_account ''old'', example_account ''new'']))"
    by (rule cache_refines_map [OF db_ok_empty, THEN conjunct1, rule_format, OF s [unfolded e]])
  then show ?thesis using s e by (simp add: account_key_def example_account_def)
qed

end
