(* ===== verification/Actions.thy ===== *)
theory Actions
  imports Prelude
begin

text \<open>
  Code that talks to a node in many calls, each of which may fail, as actions: functions from the state of
  the world to a result and the world afterwards.  The result is an error or a value; an action that panics
  or never returns is \<open>None\<close>.
\<close>

type_synonym ('w, 'e, 'a) action = "'w \<Rightarrow> (('e + 'a) \<times> 'w) option"

definition ret :: "'a \<Rightarrow> ('w, 'e, 'a) action" where "ret x = (\<lambda>w. Some (Inr x, w))"

definition throw :: "'e \<Rightarrow> ('w, 'e, 'a) action" where "throw e = (\<lambda>w. Some (Inl e, w))"

text \<open>Go on with the value, or return the error; go on with whatever came out.\<close>

definition andThen :: "('w, 'e, 'a) action \<Rightarrow> ('a \<Rightarrow> ('w, 'e, 'b) action) \<Rightarrow> ('w, 'e, 'b) action" where
  "andThen m f = (\<lambda>w. case m w of None \<Rightarrow> None | Some (Inl e, w') \<Rightarrow> Some (Inl e, w') | Some (Inr x, w') \<Rightarrow> f x w')"

definition either :: "('w, 'd, 'a) action \<Rightarrow> ('d + 'a \<Rightarrow> ('w, 'e, 'b) action) \<Rightarrow> ('w, 'e, 'b) action" where
  "either m f = (\<lambda>w. case m w of None \<Rightarrow> None | Some (r, w') \<Rightarrow> f r w')"

text \<open>The error is wrapped on its way out; a computation that panics; a call of the world.\<close>

definition wrapped :: "('d \<Rightarrow> 'e) \<Rightarrow> ('w, 'd, 'a) action \<Rightarrow> ('w, 'e, 'a) action" where
  "wrapped f m = either m (\<lambda>r. case r of Inl e \<Rightarrow> throw (f e) | Inr x \<Rightarrow> ret x)"

definition computed :: "'a option \<Rightarrow> ('a \<Rightarrow> ('w, 'e, 'b) action) \<Rightarrow> ('w, 'e, 'b) action" where
  "computed x f = (\<lambda>w. case x of None \<Rightarrow> None | Some v \<Rightarrow> f v w)"

definition call :: "('w \<Rightarrow> ('e + 'a) \<times> 'w) \<Rightarrow> ('w, 'e, 'a) action" where
  "call f = (\<lambda>w. Some (f w))"

lemma ret_run [simp]: "ret x w = Some (Inr x, w)" by (simp add: ret_def)

lemma throw_run [simp]: "throw e w = Some (Inl e, w)" by (simp add: throw_def)

lemma call_run [simp]: "call f w = Some (f w)" by (simp add: call_def)

lemma computed_run [simp]: "computed None f = (\<lambda>w. None)" "computed (Some v) f = f v"
  by (simp_all add: computed_def fun_eq_iff)

text \<open>The ways an action of several steps can come out.\<close>

lemma andThen_Some:
  "andThen m f w = Some (r, w') \<longleftrightarrow>
     (\<exists>e. m w = Some (Inl e, w') \<and> r = Inl e) \<or> (\<exists>x w1. m w = Some (Inr x, w1) \<and> f x w1 = Some (r, w'))"
  by (auto simp: andThen_def split: option.splits sum.splits)

lemma either_Some: "either m f w = Some (r, w') \<longleftrightarrow> (\<exists>x w1. m w = Some (x, w1) \<and> f x w1 = Some (r, w'))"
  by (auto simp: either_def split: option.splits)

lemma wrapped_Some:
  "wrapped g m w = Some (r, w') \<longleftrightarrow>
     (\<exists>e. m w = Some (Inl e, w') \<and> r = Inl (g e)) \<or> (\<exists>x. m w = Some (Inr x, w') \<and> r = Inr x)"
  by (auto simp: wrapped_def either_def split: option.splits sum.splits)

lemma computed_Some: "computed x f w = Some z \<longleftrightarrow> (\<exists>v. x = Some v \<and> f v w = Some z)"
  by (cases x) simp_all

text \<open>An action always returns when its parts do.\<close>

definition returns :: "('w, 'e, 'a) action \<Rightarrow> bool" where
  "returns m \<longleftrightarrow> (\<forall>w. m w \<noteq> None)"

lemma returns_run: "returns m \<Longrightarrow> \<exists>r w'. m w = Some (r, w')"
  by (auto simp: returns_def)

named_theorems returning "actions that return"

lemma returns_ret [returning]: "returns (ret x)" by (simp add: returns_def)

lemma returns_throw [returning]: "returns (throw e)" by (simp add: returns_def)

lemma returns_call [returning]: "returns (call f)" by (simp add: returns_def)

lemma returns_andThen [returning]: "returns m \<Longrightarrow> (\<And>x. returns (f x)) \<Longrightarrow> returns (andThen m f)"
  by (fastforce simp: returns_def andThen_def split: option.split sum.split)

lemma returns_either [returning]: "returns m \<Longrightarrow> (\<And>x. returns (f x)) \<Longrightarrow> returns (either m f)"
  by (fastforce simp: returns_def either_def split: option.split)

lemma returns_wrapped [returning]: "returns m \<Longrightarrow> returns (wrapped g m)"
  by (auto simp: wrapped_def intro!: returning split: sum.split)

lemma returns_computed [returning]: "x \<noteq> None \<Longrightarrow> (\<And>v. returns (f v)) \<Longrightarrow> returns (computed x f)"
  by auto

section \<open>Loops\<close>

text \<open>A loop whose body either ends it with a result or goes on from a new state; it may run forever.\<close>

partial_function (option) loop :: "('v \<Rightarrow> 'r + 'v) \<Rightarrow> 'v \<Rightarrow> 'r option" where
  "loop body v = (case body v of Inl r \<Rightarrow> Some r | Inr v' \<Rightarrow> loop body v')"

lemma loop_ends [simp]: "body v = Inl r \<Longrightarrow> loop body v = Some r"
  by (subst loop.simps) simp

lemma loop_goes_on: "body v = Inr v' \<Longrightarrow> loop body v = loop body v'"
  by (subst loop.simps) simp

text \<open>It returns when a measure decreases while an invariant holds.\<close>

lemma loop_returns:
  assumes "I v" and "\<And>u u'. I u \<Longrightarrow> body u = Inr u' \<Longrightarrow> I u' \<and> m u' < (m u :: nat)"
  shows "loop body v \<noteq> None"
  using assms(1)
proof (induction "m v" arbitrary: v rule: less_induct)
  case less
  show ?case
  proof (cases "body v")
    case (Inr v')
    with less assms(2) [of v v'] show ?thesis by (simp add: loop_goes_on)
  qed simp
qed

text \<open>What the last round found.\<close>

lemma loop_result:
  assumes "loop body v = Some r" "I v" and "\<And>u u'. I u \<Longrightarrow> body u = Inr u' \<Longrightarrow> I u'"
  shows "\<exists>u. I u \<and> body u = Inl r"
  using assms
proof (induction body v r rule: loop.raw_induct [rotated, consumes 1])
  fix lp body v r
  assume IH: "\<And>body v r. lp body v = Some r \<Longrightarrow> I v \<Longrightarrow> (\<And>u u'. I u \<Longrightarrow> body u = Inr u' \<Longrightarrow> I u') \<Longrightarrow>
      \<exists>u. I u \<and> body u = Inl r"
    and run: "(case body v of Inl r \<Rightarrow> Some r | Inr v' \<Rightarrow> lp body v') = Some r" and v: "I v"
    and I: "\<And>u u'. I u \<Longrightarrow> body u = Inr u' \<Longrightarrow> I u'"
  show "\<exists>u. I u \<and> body u = Inl r"
  proof (cases "body v")
    case (Inl x)
    with run v show ?thesis by auto
  next
    case (Inr v')
    with run have "lp body v' = Some r" by simp
    then show ?thesis by (rule IH [OF _ I [OF v Inr]]) (rule I)
  qed
qed

text \<open>
  Polling a stateful world: every round one of the channels is ready; a tick asks the world, which either
  settles the question or leaves it to the next round.
\<close>

datatype round_event = RoundTick | RoundTimeout | RoundCancelled

definition poll_round ::
  "(nat \<Rightarrow> round_event) \<Rightarrow> 'e \<Rightarrow> 'e \<Rightarrow> ('w \<Rightarrow> ('e + 'a) option \<times> 'w) \<Rightarrow> nat \<times> 'w \<Rightarrow> (('e + 'a) \<times> 'w) + nat \<times> 'w" where
  "poll_round sched timedOut cancelled question = (\<lambda>(k, w).
     case sched k of
       RoundTimeout \<Rightarrow> Inl (Inl timedOut, w)
     | RoundCancelled \<Rightarrow> Inl (Inl cancelled, w)
     | RoundTick \<Rightarrow> (case question w of (Some r, w') \<Rightarrow> Inl (r, w') | (None, w') \<Rightarrow> Inr (k + 1, w')))"

definition poll_rounds ::
  "(nat \<Rightarrow> round_event) \<Rightarrow> 'e \<Rightarrow> 'e \<Rightarrow> ('w \<Rightarrow> ('e + 'a) option \<times> 'w) \<Rightarrow> ('w, 'e, 'a) action" where
  "poll_rounds sched timedOut cancelled question w = loop (poll_round sched timedOut cancelled question) (0, w)"

text \<open>It returns when the clock or the context ends some round.\<close>

lemma returns_poll_rounds [returning]:
  assumes "sched n \<noteq> RoundTick"
  shows "returns (poll_rounds sched timedOut cancelled question)"
  unfolding returns_def poll_rounds_def
proof
  fix w
  have "k \<le> n \<Longrightarrow> poll_round sched timedOut cancelled question (k, u) = Inr (k', u') \<Longrightarrow> k' \<le> n \<and> n - k' < n - k" for k u k' u'
    using assms by (cases "k = n") (auto simp: poll_round_def split: round_event.splits prod.splits option.splits)
  then show "loop (poll_round sched timedOut cancelled question) (0, w) \<noteq> None"
    by (intro loop_returns [where I = "\<lambda>v. fst v \<le> n" and m = "\<lambda>v. n - fst v"]) auto
qed

lemma poll_rounds_result:
  assumes "poll_rounds sched timedOut cancelled question w = Some (r, w')" "I w"
    and "\<And>u u'. I u \<Longrightarrow> question u = (None, u') \<Longrightarrow> I u'"
  shows "(I w' \<and> (r = Inl timedOut \<or> r = Inl cancelled)) \<or> (\<exists>u. I u \<and> question u = (Some r, w'))"
proof -
  have keep: "I (snd u')" if "I (snd u)" "poll_round sched timedOut cancelled question u = Inr u'" for u u'
    using that assms(3) by (auto simp: poll_round_def split: round_event.splits prod.splits option.splits)
  have "\<exists>v. I (snd v) \<and> poll_round sched timedOut cancelled question v = Inl (r, w')"
    using assms(2) keep by (intro loop_result [where I = "\<lambda>v. I (snd v)", OF assms(1) [unfolded poll_rounds_def]]) simp_all
  then obtain k u where u: "I u" "poll_round sched timedOut cancelled question (k, u) = Inl (r, w')" by auto
  then show ?thesis by (cases "sched k") (auto simp: poll_round_def split: prod.splits option.splits)
qed

end
