(* ===== verification/Node_World.thy ===== *)
theory Node_World
  imports Actions Account_Manager
begin

text \<open>
  The world of the code that deploys contracts and prepares accounts (\<open>internal/contract\<close>,
  \<open>internal/uniswapv3\<close>, \<open>internal/loadgen/contracts.go\<close>): a node behind the interface \<open>rpc.Client\<close>, whose
  answers depend on its state and change it, the clock and the pauses.  Every call that has an effect on
  the chain, every confirmation the code acts on and every progress report is recorded in a trace, which the
  code never reads.
\<close>

section \<open>The node\<close>

text \<open>
  A call answers from the state of the node and leaves a state.  \<open>GetNonce\<close> decodes with
  \<open>MustDecodeUint64\<close> and may panic.  \<open>nd_Sleep\<close> answers whether the pause ended before the context did;
  \<open>nd_Rounds\<close> is the schedule of a \<open>select\<close> over ticker, timeout and context.
\<close>

record 's node =
  nd_GetNonce :: "string \<Rightarrow> ('s, rpc_err, u64) action"
  nd_GetCode :: "string \<Rightarrow> 's \<Rightarrow> (rpc_err + string) \<times> 's"
  nd_Call :: "string \<Rightarrow> json \<Rightarrow> 's \<Rightarrow> (rpc_err + raw_message) \<times> 's"
  nd_Send :: "bytes \<Rightarrow> 's \<Rightarrow> rpc_err option \<times> 's"
  nd_SendBatch :: "bytes list \<Rightarrow> 's \<Rightarrow> rpc_err option list \<times> 's"
  nd_Receipt :: "string \<Rightarrow> 's \<Rightarrow> (rpc_err + tx_receipt option) \<times> 's"
  nd_TxByHash :: "string \<Rightarrow> 's \<Rightarrow> (rpc_err + (string \<times> u64) option) \<times> 's"
  nd_Now :: "'s \<Rightarrow> int \<times> 's"
  nd_Sleep :: "int \<Rightarrow> 's \<Rightarrow> bool \<times> 's"
  nd_Rounds :: "'s \<Rightarrow> (nat \<Rightarrow> round_event) \<times> 's"
  nd_Random :: "'s \<Rightarrow> address \<times> 's"

text \<open>The node the client of \<open>internal/rpc\<close> talks to: every call meets the server of the moment.\<close>

definition client_node :: "hex_codec \<Rightarrow> client_config \<Rightarrow> ('s \<Rightarrow> server \<times> 's) \<Rightarrow> 's node \<Rightarrow> 's node" where
  "client_node hx c meet base =
     base\<lparr>nd_GetNonce := (\<lambda>a s. let (srv, s') = meet s in map_option (\<lambda>r. (r, s')) (rpc_GetNonce hx c srv a)),
          nd_GetCode := (\<lambda>a s. let (srv, s') = meet s in (GetCode c srv a, s')),
          nd_Call := (\<lambda>m ps s. let (srv, s') = meet s in (fst (Call c srv m ps), s')),
          nd_Send := (\<lambda>tx s. let (srv, s') = meet s in (SendRawTransaction hx c srv tx, s')),
          nd_SendBatch := (\<lambda>txs s. let (srv, s') = meet s in (SendRawTransactionBatch hx c srv txs, s')),
          nd_Receipt := (\<lambda>h s. let (srv, s') = meet s in (GetTransactionReceipt hx c srv h, s')),
          nd_TxByHash := (\<lambda>h s. let (srv, s') = meet s in (GetTransactionByHash hx c srv h, s'))\<rparr>"

text \<open>The functions of go-ethereum and of \<open>fmt\<close> and \<open>encoding/json\<close> that the code computes with.\<close>

record 'g chain_lib =
  cl_signer :: "'g tx_signer"
  cl_hash :: "'g \<Rightarrow> string"
  cl_keccak :: "bytes \<Rightarrow> bytes"
  cl_rlp :: "address \<Rightarrow> u64 \<Rightarrow> bytes"
  cl_hex :: "address \<Rightarrow> string"
  cl_bytes2hex :: "bytes \<Rightarrow> string"
  cl_fromHex :: "string \<Rightarrow> bytes"
  cl_errText :: "rpc_err \<Rightarrow> string"
  cl_rawText :: "json \<Rightarrow> string"

definition bytes_address :: "bytes \<Rightarrow> address" where
  "bytes_address bs = of_nat (be_value bs)"

definition HexToAddress :: "'g chain_lib \<Rightarrow> string \<Rightarrow> address" where
  "HexToAddress lb s = bytes_address (cl_fromHex lb s)"

section \<open>World and trace\<close>

datatype chain_event =
    Submitted address eth_tx "rpc_err option"
  | BatchSubmitted address "eth_tx list" "rpc_err option list"
  | Confirmed string
  | CodeSeen address
  | Reported string int int
  | Paused int
  | BalanceRead address address int

record 's world =
  wd_node :: 's
  wd_trace :: "chain_event list"

datatype deploy_err =
    Step string deploy_err | NodeErr rpc_err | SendErr send_err | TimedOut | CtxDone | TxReverted
  | NotCreated | BadReply | TooPoor address | NotDeployed | NoAccounts

type_synonym ('s, 'm, 'a) chain_action = "(('s, 'm) world_scheme, deploy_err, 'a) action"

definition note_event :: "chain_event \<Rightarrow> ('s, 'm) world_scheme \<Rightarrow> ('s, 'm) world_scheme" where
  "note_event e w = w\<lparr>wd_trace := wd_trace w @ [e]\<rparr>"

definition on_node :: "('s \<Rightarrow> 'a \<times> 's) \<Rightarrow> ('s, 'm) world_scheme \<Rightarrow> 'a \<times> ('s, 'm) world_scheme" where
  "on_node f w = (let (x, s') = f (wd_node w) in (x, w\<lparr>wd_node := s'\<rparr>))"

definition emit :: "chain_event \<Rightarrow> ('s, 'm, unit) chain_action" where
  "emit e = call (\<lambda>w. (Inr (), note_event e w))"

definition ask_node :: "('s \<Rightarrow> (rpc_err + 'a) \<times> 's) \<Rightarrow> (('s, 'm) world_scheme, rpc_err, 'a) action" where
  "ask_node f = call (on_node f)"

definition observe :: "('s \<Rightarrow> 'a \<times> 's) \<Rightarrow> ('s, 'm, 'a) chain_action" where
  "observe f = call (\<lambda>w. let (x, w') = on_node f w in (Inr x, w'))"

definition get_nonce :: "'s node \<Rightarrow> 'g chain_lib \<Rightarrow> address \<Rightarrow> (('s, 'm) world_scheme, rpc_err, u64) action" where
  "get_nonce nd lb a = (\<lambda>w. map_option (\<lambda>(r, s'). (r, w\<lparr>wd_node := s'\<rparr>)) (nd_GetNonce nd (cl_hex lb a) (wd_node w)))"

definition pause :: "'s node \<Rightarrow> int \<Rightarrow> ('s, 'm, unit) chain_action" where
  "pause nd d = andThen (emit (Paused d)) (\<lambda>_. andThen (observe (nd_Sleep nd d)) (\<lambda>ended. if ended then ret () else throw CtxDone))"

definition submit :: "'s node \<Rightarrow> address \<Rightarrow> eth_tx \<Rightarrow> bytes \<Rightarrow> (('s, 'm) world_scheme, rpc_err, unit) action" where
  "submit nd frm tx data = call (\<lambda>w.
     let (e, w') = on_node (nd_Send nd data) w in
     ((case e of None \<Rightarrow> Inr () | Some e \<Rightarrow> Inl e), note_event (Submitted frm tx e) w'))"

text \<open>\<open>checkContractExists\<close> of both deployers.\<close>

definition has_code :: "string \<Rightarrow> bool" where
  "has_code c \<longleftrightarrow> c \<noteq> '''' \<and> c \<noteq> ''0x''"

definition checkContractExists :: "'s node \<Rightarrow> 'g chain_lib \<Rightarrow> address \<Rightarrow> (('s, 'm) world_scheme, rpc_err, bool) action" where
  "checkContractExists nd lb a =
     andThen (ask_node (nd_GetCode nd (cl_hex lb a)))
       (\<lambda>c. call (\<lambda>w. (Inr (has_code c), if has_code c then note_event (CodeSeen a) w else w)))"

definition send_batch_txs :: "'s node \<Rightarrow> address \<Rightarrow> (eth_tx \<times> bytes) list \<Rightarrow> ('s, 'm, rpc_err option list) chain_action" where
  "send_batch_txs nd frm txs = call (\<lambda>w.
     let (es, w') = on_node (nd_SendBatch nd (map snd txs)) w in
     (Inr es, note_event (BatchSubmitted frm (map fst txs) es) w'))"

text \<open>A wait with a timeout: the schedule of its channels, and a question asked at every tick.\<close>

definition await ::
  "'s node \<Rightarrow> (('s, 'm) world_scheme \<Rightarrow> (deploy_err + 'a) option \<times> ('s, 'm) world_scheme) \<Rightarrow> ('s, 'm, 'a) chain_action" where
  "await nd question = andThen (observe (nd_Rounds nd)) (\<lambda>sched. poll_rounds sched TimedOut CtxDone question)"

section \<open>What a run adds to the trace\<close>

definition extends :: "('s, 'm) world_scheme \<Rightarrow> chain_event list \<Rightarrow> ('s, 'm) world_scheme \<Rightarrow> bool" where
  "extends w evs w' \<longleftrightarrow> wd_trace w' = wd_trace w @ evs \<and> world.more w' = world.more w"

lemma extends_refl [simp]: "extends w [] w" by (simp add: extends_def)

lemma extends_trans: "extends w xs w1 \<Longrightarrow> extends w1 ys w2 \<Longrightarrow> extends w (xs @ ys) w2"
  by (simp add: extends_def)

lemma extends_noted [simp]: "extends w [e] (note_event e w)"
  by (simp add: extends_def note_event_def)

lemma extends_on_node [simp]: "on_node f w = (x, w') \<Longrightarrow> extends w evs w' = (evs = [])"
  by (auto simp: on_node_def extends_def split: prod.splits)

text \<open>
  The result of an action and the events of its run are related by \<open>P\<close>.  The rules compute the relation of
  an action from those of its parts.
\<close>

definition runs :: "(('s, 'm) world_scheme, 'e, 'a) action \<Rightarrow> ('e + 'a \<Rightarrow> chain_event list \<Rightarrow> bool) \<Rightarrow> bool" where
  "runs m P \<longleftrightarrow> (\<forall>w r w'. m w = Some (r, w') \<longrightarrow> (\<exists>evs. extends w evs w' \<and> P r evs))"

named_theorems run_rules "the events of an action from those of its parts"

lemma runsD: "runs m P \<Longrightarrow> m w = Some (r, w') \<Longrightarrow> \<exists>evs. extends w evs w' \<and> P r evs"
  by (auto simp: runs_def)

lemma runs_weaken: "runs m P \<Longrightarrow> (\<And>r evs. P r evs \<Longrightarrow> Q r evs) \<Longrightarrow> runs m Q"
  by (fastforce simp: runs_def)

lemma runs_ret [run_rules]: "runs (ret x) (\<lambda>r evs. r = Inr x \<and> evs = [])"
  by (simp add: runs_def)

lemma runs_throw [run_rules]: "runs (throw e) (\<lambda>r evs. r = Inl e \<and> evs = [])"
  by (simp add: runs_def)

lemma runs_either:
  assumes "runs m P" "\<And>x. runs (f x) (Q x)"
  shows "runs (either m f) (\<lambda>r evs. \<exists>x e1 e2. evs = e1 @ e2 \<and> P x e1 \<and> Q x r e2)"
  unfolding runs_def either_Some
proof (intro allI impI, elim exE conjE)
  fix w r w' x w1 assume "m w = Some (x, w1)" "f x w1 = Some (r, w')"
  then obtain e1 e2 where "extends w e1 w1" "P x e1" "extends w1 e2 w'" "Q x r e2"
    using runsD [OF assms(1)] runsD [OF assms(2)] by metis
  then show "\<exists>evs. extends w evs w' \<and> (\<exists>x e1 e2. evs = e1 @ e2 \<and> P x e1 \<and> Q x r e2)"
    using extends_trans by blast
qed

lemma runs_either_cases [run_rules]:
  assumes "runs m P" "\<And>e. runs (f e) (Q e)" "\<And>x. runs (g x) (R x)"
  shows "runs (either m (\<lambda>r. case r of Inl e \<Rightarrow> f e | Inr x \<Rightarrow> g x))
    (\<lambda>r evs. (\<exists>e e1 e2. evs = e1 @ e2 \<and> P (Inl e) e1 \<and> Q e r e2) \<or> (\<exists>x e1 e2. evs = e1 @ e2 \<and> P (Inr x) e1 \<and> R x r e2))"
proof -
  have "runs (case z of Inl e \<Rightarrow> f e | Inr x \<Rightarrow> g x) (\<lambda>r evs. case z of Inl e \<Rightarrow> Q e r evs | Inr x \<Rightarrow> R x r evs)" for z
    using assms(2,3) by (cases z) simp_all
  note both = runs_either [OF assms(1) this]
  show ?thesis
  proof (rule runs_weaken [OF both], elim exE conjE)
    fix r evs z e1 e2
    assume "evs = e1 @ e2" "P z e1" "case z of Inl e \<Rightarrow> Q e r e2 | Inr x \<Rightarrow> R x r e2"
    then show "(\<exists>e e1 e2. evs = e1 @ e2 \<and> P (Inl e) e1 \<and> Q e r e2) \<or> (\<exists>x e1 e2. evs = e1 @ e2 \<and> P (Inr x) e1 \<and> R x r e2)"
      by (cases z) auto
  qed
qed

lemmas [run_rules] = runs_either

lemma andThen_either: "andThen m f = either m (\<lambda>x. case x of Inl e \<Rightarrow> throw e | Inr x \<Rightarrow> f x)"
  by (auto simp: andThen_def either_def fun_eq_iff split: option.split sum.split)

lemma runs_andThen [run_rules]:
  assumes "runs m P" "\<And>x. runs (f x) (Q x)"
  shows "runs (andThen m f) (\<lambda>r evs. (\<exists>e. r = Inl e \<and> P (Inl e) evs) \<or> (\<exists>x e1 e2. evs = e1 @ e2 \<and> P (Inr x) e1 \<and> Q x r e2))"
  unfolding andThen_either
  by (rule runs_weaken [OF runs_either_cases [OF assms(1) runs_throw assms(2)]]) auto

lemma runs_wrapped [run_rules]:
  "runs m P \<Longrightarrow> runs (wrapped g m) (\<lambda>r evs. (\<exists>e. r = Inl (g e) \<and> P (Inl e) evs) \<or> (\<exists>x. r = Inr x \<and> P (Inr x) evs))"
  unfolding runs_def wrapped_Some by blast

lemma runs_computed [run_rules]:
  "(\<And>v. runs (f v) (Q v)) \<Longrightarrow> runs (computed x f) (\<lambda>r evs. \<exists>v. x = Some v \<and> Q v r evs)"
  unfolding runs_def computed_Some by blast

lemma runs_if [run_rules]:
  "runs m P \<Longrightarrow> runs m' Q \<Longrightarrow> runs (if b then m else m') (\<lambda>r evs. if b then P r evs else Q r evs)"
  by simp

lemma runs_case_sum [run_rules]:
  "(\<And>e. runs (f e) (P e)) \<Longrightarrow> (\<And>x. runs (g x) (Q x)) \<Longrightarrow>
     runs (case s of Inl e \<Rightarrow> f e | Inr x \<Rightarrow> g x) (\<lambda>r evs. case s of Inl e \<Rightarrow> P e r evs | Inr x \<Rightarrow> Q x r evs)"
  by (cases s) simp_all

lemma runs_case_option [run_rules]:
  "runs m P \<Longrightarrow> (\<And>x. runs (g x) (Q x)) \<Longrightarrow>
     runs (case v of None \<Rightarrow> m | Some x \<Rightarrow> g x) (\<lambda>r evs. case v of None \<Rightarrow> P r evs | Some x \<Rightarrow> Q x r evs)"
  by (cases v) simp_all

lemma runs_case_prod [run_rules]:
  "(\<And>x y. runs (f x y) (P x y)) \<Longrightarrow> runs (case z of (x, y) \<Rightarrow> f x y) (\<lambda>r evs. case z of (x, y) \<Rightarrow> P x y r evs)"
  by (cases z) simp

lemma runs_emit [run_rules]: "runs (emit e) (\<lambda>r evs. r = Inr () \<and> evs = [e])"
  by (simp add: runs_def emit_def)

lemma runs_observe [run_rules]: "runs (observe f) (\<lambda>r evs. evs = [] \<and> (\<exists>x. r = Inr x))"
  by (auto simp: runs_def observe_def split: prod.splits)

lemma runs_ask_node [run_rules]: "runs (ask_node f) (\<lambda>r evs. evs = [])"
  by (auto simp: runs_def ask_node_def)

lemma runs_get_nonce [run_rules]: "runs (get_nonce nd lb a) (\<lambda>r evs. evs = [])"
  by (auto simp: runs_def get_nonce_def extends_def)

lemma runs_submit [run_rules]:
  "runs (submit nd frm tx data) (\<lambda>r evs. \<exists>e. evs = [Submitted frm tx e] \<and> r = (case e of None \<Rightarrow> Inr () | Some e \<Rightarrow> Inl e))"
  by (auto simp: runs_def submit_def on_node_def note_event_def extends_def split: prod.splits)

lemma runs_send_batch_txs [run_rules]:
  "runs (send_batch_txs nd frm txs) (\<lambda>r evs. \<exists>es. evs = [BatchSubmitted frm (map fst txs) es] \<and> r = Inr es)"
  by (auto simp: runs_def send_batch_txs_def on_node_def note_event_def extends_def split: prod.splits)

lemma runs_checkContractExists [run_rules]:
  "runs (checkContractExists nd lb a) (\<lambda>r evs. evs = (if r = Inr True then [CodeSeen a] else []))"
  by (auto simp: runs_def checkContractExists_def andThen_Some ask_node_def extends_def on_node_def note_event_def
      split: prod.splits)

lemma runs_pause [run_rules]: "runs (pause nd d) (\<lambda>r evs. evs = [Paused d] \<and> (r = Inr () \<or> r = Inl CtxDone))"
  unfolding pause_def by (rule runs_weaken, (rule run_rules)+) (auto split: if_splits)

text \<open>A question adds events in the round that settles it only.\<close>

lemma runs_await:
  assumes "\<And>w w'. question w = (None, w') \<Longrightarrow> extends w [] w'"
    and "\<And>w r w'. question w = (Some r, w') \<Longrightarrow> \<exists>evs. extends w evs w' \<and> P r evs"
  shows "runs (await nd question) (\<lambda>r evs. (evs = [] \<and> (r = Inl TimedOut \<or> r = Inl CtxDone)) \<or> P r evs)"
  unfolding runs_def
proof (intro allI impI)
  fix w r w'
  assume "await nd question w = Some (r, w')"
  moreover obtain sched w1 where o: "on_node (nd_Rounds nd) w = (sched, w1)" by fastforce
  ultimately have p: "poll_rounds sched TimedOut CtxDone question w1 = Some (r, w')"
    by (simp add: await_def andThen_Some observe_def)
  have w1: "extends w [] w1" using o by simp
  have keep: "extends w [] u'" if "extends w [] u" "question u = (None, u')" for u u'
    using extends_trans [OF that(1) assms(1) [OF that(2)]] by simp
  from poll_rounds_result [where I = "extends w []", OF p w1 keep]
  show "\<exists>evs. extends w evs w' \<and> ((evs = [] \<and> (r = Inl TimedOut \<or> r = Inl CtxDone)) \<or> P r evs)"
    using assms(2) extends_trans by fastforce
qed

section \<open>Actions that return\<close>

lemma returns_observe [returning]: "returns (observe f)" by (simp add: returns_def observe_def)

lemma returns_ask_node [returning]: "returns (ask_node f)" by (simp add: returns_def ask_node_def)

lemma returns_writes [returning]: "returns (emit e)" "returns (submit nd frm tx data)" "returns (send_batch_txs nd frm txs)"
  by (simp_all add: returns_def emit_def submit_def send_batch_txs_def)

lemma returns_checkContractExists [returning]: "returns (checkContractExists nd lb a)"
  unfolding checkContractExists_def by (intro returning)

lemma returns_pause [returning]: "returns (pause nd d)"
  unfolding pause_def by (auto intro!: returning)

lemma returns_get_nonce [returning]: "(\<And>a. returns (nd_GetNonce nd a)) \<Longrightarrow> returns (get_nonce nd lb a)"
  by (simp add: returns_def get_nonce_def)

text \<open>Every wait ends: the timeout or the context ends some round of its schedule.\<close>

definition timers_fire :: "'s node \<Rightarrow> bool" where
  "timers_fire nd \<longleftrightarrow> (\<forall>s. \<exists>n. fst (nd_Rounds nd s) n \<noteq> RoundTick)"

lemma fst_on_node [simp]: "fst (on_node f w) = fst (f (wd_node w))"
  by (simp add: on_node_def split: prod.split)

lemma returns_await [returning]: "timers_fire nd \<Longrightarrow> returns (await nd question)"
proof -
  assume t: "timers_fire nd"
  have r: "returns (poll_rounds (fst (on_node (nd_Rounds nd) w)) TimedOut CtxDone question)" for w
  proof -
    obtain n where "fst (on_node (nd_Rounds nd) w) n \<noteq> RoundTick"
      using t unfolding timers_fire_def by (metis fst_on_node)
    then show ?thesis by (rule returns_poll_rounds)
  qed
  have "await nd question w \<noteq> None" for w
    using r [of w] by (cases "on_node (nd_Rounds nd) w") (simp add: await_def andThen_def observe_def returns_def)
  then show ?thesis by (simp add: returns_def)
qed

end
