(* ===== verification/Contract_Deploy.thy ===== *)
theory Contract_Deploy
  imports Node_World
begin

text \<open>
  \<open>internal/contract\<close>: the deployment of the three base contracts one after the other, the check of cached
  addresses, and the minting of tokens ahead of a test (\<open>deployer.go\<close>, \<open>premint.go\<close>).  The byte code of the
  contracts is data of the caller.
\<close>

section \<open>Deploying one contract\<close>

record chain_deployer =
  dp_chainID :: int
  dp_gasPrice :: int
  dp_useLegacy :: bool

definition NewDeployer :: "int \<Rightarrow> int \<Rightarrow> chain_deployer" where
  "NewDeployer chainID gasPrice = \<lparr>dp_chainID = chainID, dp_gasPrice = gasPrice, dp_useLegacy = False\<rparr>"

definition SetUseLegacy :: "bool \<Rightarrow> chain_deployer \<Rightarrow> chain_deployer" where
  "SetUseLegacy useLegacy d = d\<lparr>dp_useLegacy := useLegacy\<rparr>"

text \<open>The address a contract gets (\<open>crypto.CreateAddress\<close>).\<close>

definition CreateAddress :: "'g chain_lib \<Rightarrow> address \<Rightarrow> u64 \<Rightarrow> address" where
  "CreateAddress lb a n = bytes_address (drop 12 (cl_keccak lb (cl_rlp lb a n)))"

definition creation_tx :: "chain_deployer \<Rightarrow> u64 \<Rightarrow> bytes \<Rightarrow> eth_tx" where
  "creation_tx d n code = NewContractTx (dp_chainID d) n 0 3000000 0 (dp_gasPrice d) code (dp_useLegacy d)"

definition recovering :: "string \<Rightarrow> bool" where
  "recovering errStr \<longleftrightarrow> Contains errStr ''recovery mode'' \<or> Contains errStr ''under stress''"

definition retry_pause :: "nat \<Rightarrow> int" where
  "retry_pause attempt = min (2 * 1000000000 * 2 ^ min attempt 4) (30 * 1000000000)"

text \<open>The loop over the attempts: \<open>n\<close> are left, \<open>k\<close> were made, \<open>lst\<close> is the last error.\<close>

fun send_attempts ::
  "'s node \<Rightarrow> 'g chain_lib \<Rightarrow> address \<Rightarrow> eth_tx \<Rightarrow> bytes \<Rightarrow> nat \<Rightarrow> nat \<Rightarrow> rpc_err option \<Rightarrow> ('s, 'm, unit) chain_action" where
  "send_attempts nd lb frm tx rlp 0 k lst =
     (case lst of None \<Rightarrow> ret () | Some e \<Rightarrow> throw (Step ''failed to send tx after retries'' (NodeErr e)))"
| "send_attempts nd lb frm tx rlp (Suc n) k lst =
     either (submit nd frm tx rlp) (\<lambda>r. case r of
         Inr _ \<Rightarrow> ret ()
       | Inl e \<Rightarrow>
           if recovering (cl_errText lb e) then
             andThen (pause nd (retry_pause k)) (\<lambda>_. send_attempts nd lb frm tx rlp n (k + 1) (Some e))
           else throw (Step ''failed to send tx'' (NodeErr e)))"

text \<open>Waiting until the address has code, with a growing pause and a deadline.\<close>

definition wait_body ::
  "'s node \<Rightarrow> 'g chain_lib \<Rightarrow> address \<Rightarrow> int \<Rightarrow> int \<times> ('s, 'm) world_scheme \<Rightarrow>
     ((deploy_err + address) \<times> ('s, 'm) world_scheme) + int \<times> ('s, 'm) world_scheme" where
  "wait_body nd lb a deadline = (\<lambda>(backoff, w).
     let (now, w1) = on_node (nd_Now nd) w in
     if now < deadline then
       let (ended, w2) = on_node (nd_Sleep nd backoff) w1 in
       if \<not> ended then Inl (Inl CtxDone, w2)
       else
         let (code, w3) = on_node (nd_GetCode nd (cl_hex lb a)) w2 in
         if (case code of Inl _ \<Rightarrow> False | Inr c \<Rightarrow> has_code c) then Inl (Inr a, note_event (CodeSeen a) w3)
         else Inr (min (backoff * 2) (2 * 1000000000), w3)
     else Inl (Inl TimedOut, w1))"

definition waitForDeployment :: "'s node \<Rightarrow> 'g chain_lib \<Rightarrow> address \<Rightarrow> ('s, 'm, address) chain_action" where
  "waitForDeployment nd lb a =
     andThen (observe (nd_Now nd))
       (\<lambda>start w. loop (wait_body nd lb a (start + 60 * 1000000000)) (200 * 1000000, w))"

definition deployContract :: "'s node \<Rightarrow> 'g chain_lib \<Rightarrow> chain_deployer \<Rightarrow> address \<Rightarrow> bytes \<Rightarrow> u64 \<Rightarrow> ('s, 'm, address) chain_action" where
  "deployContract nd lb d frm code n =
     (let tx = creation_tx d n code in
      case sg_sign (cl_signer lb) frm tx of
        None \<Rightarrow> throw (SendErr SignFailed)
      | Some stx \<Rightarrow>
          (case sg_encode (cl_signer lb) stx of
             None \<Rightarrow> throw (SendErr EncodeFailed)
           | Some rlp \<Rightarrow>
               andThen (send_attempts nd lb frm tx rlp 10 0 None) (\<lambda>_. waitForDeployment nd lb (CreateAddress lb frm n))))"

section \<open>Deploying all contracts\<close>

text \<open>The addresses found so far are returned with the error.\<close>

type_synonym deployed = "(string, address) gomap \<times> deploy_err option"

definition deploy_one ::
  "'s node \<Rightarrow> 'g chain_lib \<Rightarrow> chain_deployer \<Rightarrow> address \<Rightarrow> u64 \<Rightarrow> nat \<Rightarrow> string \<times> bytes \<Rightarrow> ('s, 'm, address) chain_action" where
  "deploy_one nd lb d frm startNonce i = (\<lambda>(name, code).
     let expectedAddr = CreateAddress lb frm (startNonce + of_nat i) in
     either (checkContractExists nd lb expectedAddr) (\<lambda>ex.
       if ex = Inr True then ret expectedAddr
       else
         andThen (wrapped (\<lambda>e. Step name (NodeErr e)) (get_nonce nd lb frm))
           (\<lambda>n. wrapped (Step name) (deployContract nd lb d frm code n))))"

fun deploy_from ::
  "'s node \<Rightarrow> 'g chain_lib \<Rightarrow> chain_deployer \<Rightarrow> address \<Rightarrow> u64 \<Rightarrow> int \<Rightarrow> nat \<Rightarrow> (string, address) gomap \<Rightarrow> (string \<times> bytes) list \<Rightarrow>
     ('s, 'm, deployed) chain_action" where
  "deploy_from nd lb d frm startNonce total_n i addresses [] = ret (addresses, None)"
| "deploy_from nd lb d frm startNonce total_n i addresses (c # rest) =
     either (deploy_one nd lb d frm startNonce i c) (\<lambda>r. case r of
         Inl e \<Rightarrow> ret (addresses, Some e)
       | Inr a \<Rightarrow>
           andThen (emit (Reported (fst c) (int i + 1) total_n))
             (\<lambda>_. deploy_from nd lb d frm startNonce total_n (i + 1) (map_put (fst c) a addresses) rest))"

definition base_contracts :: "bytes \<Rightarrow> bytes \<Rightarrow> bytes \<Rightarrow> (string \<times> bytes) list" where
  "base_contracts erc20 gasConsumer nft = [(''ERC20'', erc20), (''GasConsumer'', gasConsumer), (''NFT'', nft)]"

definition DeployAllWithProgress ::
  "'s node \<Rightarrow> 'g chain_lib \<Rightarrow> chain_deployer \<Rightarrow> address \<Rightarrow> (string \<times> bytes) list \<Rightarrow> ('s, 'm, deployed) chain_action" where
  "DeployAllWithProgress nd lb d frm contracts =
     either (get_nonce nd lb frm) (\<lambda>rn. case rn of
         Inl e \<Rightarrow> ret ([], Some (Step ''failed to fetch initial nonce'' (NodeErr e)))
       | Inr startNonce \<Rightarrow> deploy_from nd lb d frm startNonce (int (length contracts)) 0 [] contracts)"

definition Deploy :: "'s node \<Rightarrow> 'g chain_lib \<Rightarrow> chain_deployer \<Rightarrow> address \<Rightarrow> bytes \<Rightarrow> ('s, 'm, address) chain_action" where
  "Deploy nd lb d frm code =
     andThen (wrapped (\<lambda>e. Step ''failed to fetch nonce'' (NodeErr e)) (get_nonce nd lb frm)) (\<lambda>n. deployContract nd lb d frm code n)"

text \<open>Cached addresses are checked in the order in which the map is iterated.\<close>

fun ValidateCachedContracts ::
  "'s node \<Rightarrow> 'g chain_lib \<Rightarrow> (string \<times> string) list \<Rightarrow> ('s, 'm, (string, address) gomap \<times> string list) chain_action" where
  "ValidateCachedContracts nd lb [] = ret ([], [])"
| "ValidateCachedContracts nd lb ((name, addrHex) # rest) =
     either (checkContractExists nd lb (HexToAddress lb addrHex)) (\<lambda>ex.
       andThen (ValidateCachedContracts nd lb rest) (\<lambda>(valid, invalid).
         ret (if ex = Inr True then (map_put name (HexToAddress lb addrHex) valid, invalid) else (valid, name # invalid))))"

section \<open>Minting tokens ahead of a test\<close>

definition preMintBatchSize :: nat where "preMintBatchSize = 200"

text \<open>One transaction of a batch: its recipient is random, a panic of the encoder is \<open>None\<close>.\<close>

definition mint_one :: "'s node \<Rightarrow> 'g chain_lib \<Rightarrow> chain_deployer \<Rightarrow> address \<Rightarrow> address \<Rightarrow> u64 \<Rightarrow> nat \<Rightarrow> ('s, 'm, eth_tx \<times> bytes) chain_action" where
  "mint_one nd lb d minter nft startNonce i =
     andThen (observe (nd_Random nd)) (\<lambda>recip.
       computed (BuildMintTx (dp_chainID d) (startNonce + of_nat i) nft recip (int i) 0 (dp_gasPrice d) (dp_useLegacy d)) (\<lambda>tx.
         case sg_sign (cl_signer lb) minter tx of
           None \<Rightarrow> throw (SendErr SignFailed)
         | Some stx \<Rightarrow> (case sg_encode (cl_signer lb) stx of None \<Rightarrow> throw (SendErr EncodeFailed) | Some rlp \<Rightarrow> ret (tx, rlp))))"

fun mint_batch ::
  "'s node \<Rightarrow> 'g chain_lib \<Rightarrow> chain_deployer \<Rightarrow> address \<Rightarrow> address \<Rightarrow> u64 \<Rightarrow> nat list \<Rightarrow> ('s, 'm, (eth_tx \<times> bytes) list) chain_action" where
  "mint_batch nd lb d minter nft startNonce [] = ret []"
| "mint_batch nd lb d minter nft startNonce (i # idxs) =
     andThen (mint_one nd lb d minter nft startNonce i)
       (\<lambda>tx. andThen (mint_batch nd lb d minter nft startNonce idxs) (\<lambda>txs. ret (tx # txs)))"

function mint_from ::
  "'s node \<Rightarrow> 'g chain_lib \<Rightarrow> chain_deployer \<Rightarrow> address \<Rightarrow> address \<Rightarrow> u64 \<Rightarrow> nat \<Rightarrow> nat \<Rightarrow> ('s, 'm, unit) chain_action" where
  "mint_from nd lb d minter nft startNonce cnt queued =
     (if queued < cnt then
        (let batchN = min (cnt - queued) preMintBatchSize in
         andThen (mint_batch nd lb d minter nft startNonce [queued..<queued + batchN]) (\<lambda>txs.
           andThen (send_batch_txs nd minter txs) (\<lambda>sendErrs.
             case first_error (List.map_filter (\<lambda>e. e) sendErrs) of
               Some e \<Rightarrow> throw (SendErr (SendFailed e))
             | None \<Rightarrow>
                 andThen (emit (Reported ''mint'' (int (queued + batchN)) (int cnt)))
                   (\<lambda>_. mint_from nd lb d minter nft startNonce cnt (queued + batchN)))))
      else ret ())"
  by pat_completeness auto
termination
  by (relation "measure (\<lambda>(nd, lb, d, minter, nft, startNonce, cnt, queued). cnt - queued)") (auto simp: preMintBatchSize_def)

declare mint_from.simps [simp del]

text \<open>The wait for the nonce of the minter: a round of it.\<close>

definition mint_wait_body ::
  "'s node \<Rightarrow> 'g chain_lib \<Rightarrow> address \<Rightarrow> u64 \<Rightarrow> int \<Rightarrow> int \<times> ('s, 'm) world_scheme \<Rightarrow>
     ((deploy_err + unit) \<times> ('s, 'm) world_scheme) option + int \<times> ('s, 'm) world_scheme" where
  "mint_wait_body nd lb minter targetNonce deadline = (\<lambda>(backoff, w).
     let (now, w1) = on_node (nd_Now nd) w in
     if now < deadline then
       let (ended, w2) = on_node (nd_Sleep nd backoff) w1 in
       if \<not> ended then Inl (Some (Inl CtxDone, w2))
       else
         (case get_nonce nd lb minter w2 of
            None \<Rightarrow> Inl None
          | Some (rn, w3) \<Rightarrow>
              if (case rn of Inl _ \<Rightarrow> False | Inr n \<Rightarrow> targetNonce \<le> n) then Inl (Some (Inr (), w3))
              else Inr (min (backoff * 2) (2 * 1000000000), w3))
     else Inl (Some (Inl TimedOut, w1)))"

definition mint_wait :: "'s node \<Rightarrow> 'g chain_lib \<Rightarrow> address \<Rightarrow> u64 \<Rightarrow> ('s, 'm, unit) chain_action" where
  "mint_wait nd lb minter targetNonce =
     andThen (observe (nd_Now nd))
       (\<lambda>start w. Option.bind (loop (mint_wait_body nd lb minter targetNonce (start + 120 * 1000000000)) (200 * 1000000, w)) (\<lambda>r. r))"

definition PreMintNFTs :: "'s node \<Rightarrow> 'g chain_lib \<Rightarrow> chain_deployer \<Rightarrow> address \<Rightarrow> address \<Rightarrow> int \<Rightarrow> ('s, 'm, unit) chain_action" where
  "PreMintNFTs nd lb d minter nft cnt =
     (if cnt \<le> 0 then ret ()
      else
        andThen (wrapped (\<lambda>e. Step ''fetch starting nonce'' (NodeErr e)) (get_nonce nd lb minter)) (\<lambda>startNonce.
          andThen (mint_from nd lb d minter nft startNonce (nat cnt) 0)
            (\<lambda>_. mint_wait nd lb minter (startNonce + of_int cnt))))"


section \<open>What a deployment leaves behind\<close>

lemma runs_send_attempts [run_rules]:
  "runs (send_attempts nd lb frm tx rlp n k lst) (\<lambda>r evs. r = Inr () \<longrightarrow> lst = None \<and> n = 0 \<or> Submitted frm tx None \<in> set evs)"
proof (induction n arbitrary: k lst)
  case 0
  show ?case by (simp, rule runs_weaken, (rule run_rules)+) (auto split: option.splits)
next
  case (Suc n)
  show ?case
    unfolding send_attempts.simps
    by (rule runs_weaken, (rule run_rules Suc)+) (auto split: option.splits sum.splits if_splits)
qed

lemma extends_case: "on_node f w = (x, w1) \<Longrightarrow> extends w evs w' = extends w1 evs w'"
  by (auto simp: on_node_def extends_def split: prod.splits)

lemma wait_loop:
  assumes "loop (wait_body nd lb a deadline) (b, w) = Some (r, w')"
  shows "\<exists>evs. extends w evs w' \<and> (if r = Inr a then evs = [CodeSeen a] else evs = [] \<and> isl r)"
proof -
  have keep: "extends w [] (snd v')" if "extends w [] (snd v)" "wait_body nd lb a deadline v = Inr v'" for v v'
    using that by (auto simp: wait_body_def on_node_def extends_def Let_def split: prod.splits if_splits)
  have "\<exists>v. extends w [] (snd v) \<and> wait_body nd lb a deadline v = Inl (r, w')"
    using keep by (intro loop_result [where I = "\<lambda>v. extends w [] (snd v)", OF assms]) simp_all
  then obtain b1 u where "extends w [] u" "wait_body nd lb a deadline (b1, u) = Inl (r, w')" by auto
  then show ?thesis
    by (auto simp: wait_body_def on_node_def extends_def note_event_def Let_def split: prod.splits if_splits)
qed

lemma runs_waitForDeployment [run_rules]:
  "runs (waitForDeployment nd lb a) (\<lambda>r evs. if r = Inr a then evs = [CodeSeen a] else evs = [] \<and> isl r)"
  unfolding runs_def
proof (intro allI impI)
  fix w r w' assume run: "waitForDeployment nd lb a w = Some (r, w')"
  obtain start w1 where o: "on_node (nd_Now nd) w = (start, w1)" by fastforce
  from run have "loop (wait_body nd lb a (start + 60 * 1000000000)) (200 * 1000000, w1) = Some (r, w')"
    by (simp add: waitForDeployment_def andThen_def observe_def o)
  from wait_loop [OF this] show "\<exists>evs. extends w evs w' \<and> (if r = Inr a then evs = [CodeSeen a] else evs = [] \<and> isl r)"
    using extends_case [OF o] by blast
qed

lemma runs_deployContract [run_rules]:
  "runs (deployContract nd lb d frm code n) (\<lambda>r evs. \<forall>a. r = Inr a \<longrightarrow>
     a = CreateAddress lb frm n \<and> Submitted frm (creation_tx d n code) None \<in> set evs \<and> CodeSeen a \<in> set evs)"
  unfolding deployContract_def Let_def
  by (rule runs_weaken, (rule run_rules)+) (auto split: option.splits if_splits)

text \<open>How the contract at an address came to be used: its code was found before, or it was created.\<close>

definition in_place :: "'g chain_lib \<Rightarrow> chain_deployer \<Rightarrow> address \<Rightarrow> u64 \<Rightarrow> nat \<Rightarrow> bytes \<Rightarrow> address \<Rightarrow> chain_event list \<Rightarrow> bool" where
  "in_place lb d frm startNonce i code a evs \<longleftrightarrow> CodeSeen a \<in> set evs \<and>
     (a = CreateAddress lb frm (startNonce + of_nat i) \<or>
      (\<exists>n. a = CreateAddress lb frm n \<and> Submitted frm (creation_tx d n code) None \<in> set evs))"

lemma in_place_mono: "in_place lb d frm st i code a evs \<Longrightarrow> set evs \<subseteq> set evs' \<Longrightarrow> in_place lb d frm st i code a evs'"
  by (auto simp: in_place_def)

definition deployed_ok ::
  "'g chain_lib \<Rightarrow> chain_deployer \<Rightarrow> address \<Rightarrow> u64 \<Rightarrow> nat \<Rightarrow> (string, address) gomap \<Rightarrow> (string \<times> bytes) list \<Rightarrow>
     (string, address) gomap \<Rightarrow> chain_event list \<Rightarrow> bool" where
  "deployed_ok lb d frm startNonce i before contracts addresses evs \<longleftrightarrow>
     (\<forall>name. name \<notin> fst ` set contracts \<longrightarrow> map_get addresses name = map_get before name) \<and>
     (\<forall>j < length contracts. \<exists>a. map_get addresses (fst (contracts ! j)) = Some a \<and>
        in_place lb d frm startNonce (i + j) (snd (contracts ! j)) a evs)"

lemma deployed_ok_mono:
  "deployed_ok lb d frm st i before contracts addresses evs \<Longrightarrow> set evs \<subseteq> set evs' \<Longrightarrow>
     deployed_ok lb d frm st i before contracts addresses evs'"
  unfolding deployed_ok_def using in_place_mono by meson

lemma deployed_ok_Cons:
  assumes "deployed_ok lb d frm st (Suc i) (map_put name a before) rest addresses evs" "name \<notin> fst ` set rest"
    and "in_place lb d frm st i code a evs"
  shows "deployed_ok lb d frm st i before ((name, code) # rest) addresses evs"
proof -
  have "map_get addresses name = Some a" using assms(1,2) by (simp add: deployed_ok_def)
  then show ?thesis using assms by (auto simp: deployed_ok_def All_less_Suc2)
qed

lemma runs_deploy_one [run_rules]:
  "runs (deploy_one nd lb d frm st i c) (\<lambda>r evs. \<forall>a. r = Inr a \<longrightarrow> in_place lb d frm st i (snd c) a evs)"
  unfolding deploy_one_def Let_def
  by (rule runs_weaken, (rule run_rules)+) (auto simp: in_place_def split: prod.splits if_splits)

lemma runs_deploy_from:
  "distinct (map fst contracts) \<Longrightarrow>
   runs (deploy_from nd lb d frm st total_n i before contracts :: ('s, 'm, deployed) chain_action) (\<lambda>r evs. \<exists>addresses err. r = Inr (addresses, err) \<and>
     (err = None \<longrightarrow> deployed_ok lb d frm st i before contracts addresses evs))"
proof (induction contracts arbitrary: i before)
  case Nil
  show ?case unfolding deploy_from.simps by (rule runs_weaken, rule run_rules) (auto simp: deployed_ok_def)
next
  case (Cons c rest)
  then have d: "distinct (map fst rest)" "fst c \<notin> fst ` set rest" by auto
  have ok: "deployed_ok lb d frm st i before (c # rest) addresses (e1 @ e # e2)"
    if "deployed_ok lb d frm st (Suc i) (map_put (fst c) a before) rest addresses e2" "in_place lb d frm st i (snd c) a e1" for a addresses e e1 e2
    using deployed_ok_Cons [OF deployed_ok_mono [OF that(1)] d(2) in_place_mono [OF that(2)], of "e1 @ e # e2"] by auto
  show ?case
    unfolding deploy_from.simps
    by (rule runs_weaken, (rule run_rules Cons.IH [OF d(1)])+) (auto simp: ok split: sum.split_asm)
qed


lemma runs_DeployAllWithProgress:
  "distinct (map fst contracts) \<Longrightarrow>
   runs (DeployAllWithProgress nd lb d frm contracts) (\<lambda>r evs. \<exists>addresses err. r = Inr (addresses, err) \<and>
     (err = None \<longrightarrow> (\<exists>st. deployed_ok lb d frm st 0 [] contracts addresses evs)))"
  unfolding DeployAllWithProgress_def
  by (rule runs_weaken, (rule run_rules runs_deploy_from)+) auto

text \<open>
  C29: When the deployment of the base contracts reports success, every contract has exactly one entry in the
  result, under its name, and the entry is an address at which the node reported code during this run: the
  one the first nonce predicts, or the address of a creation transaction with this contract's byte code that
  the node accepted from the deployer.  This holds whatever the node answers.
\<close>
theorem deployed_contracts_have_code:
  assumes "distinct (map fst contracts)" "DeployAllWithProgress nd lb d frm contracts w = Some (Inr (addresses, None), w')"
  shows "\<exists>evs st. wd_trace w' = wd_trace w @ evs \<and> map_keys addresses = fst ` set contracts \<and>
    (\<forall>j < length contracts. \<exists>a. map_get addresses (fst (contracts ! j)) = Some a \<and> CodeSeen a \<in> set evs \<and>
       (a = CreateAddress lb frm (st + of_nat j) \<or>
        (\<exists>n. a = CreateAddress lb frm n \<and> Submitted frm (creation_tx d n (snd (contracts ! j))) None \<in> set evs)))"
proof -
  obtain evs st where evs: "wd_trace w' = wd_trace w @ evs" and ok: "deployed_ok lb d frm st 0 [] contracts addresses evs"
    using runsD [OF runs_DeployAllWithProgress [OF assms(1)] assms(2)] by (auto simp: extends_def)
  have "name \<in> map_keys addresses \<longleftrightarrow> name \<in> fst ` set contracts" for name
  proof
    assume "name \<in> fst ` set contracts"
    then obtain j where "j < length contracts" "fst (contracts ! j) = name" by (auto simp: in_set_conv_nth)
    then show "name \<in> map_keys addresses" using ok by (auto simp: deployed_ok_def map_keys_get)
  qed (use ok in \<open>auto simp: deployed_ok_def map_keys_get\<close>)
  then have "map_keys addresses = fst ` set contracts" by blast
  then show ?thesis using evs ok by (auto simp: deployed_ok_def in_place_def)
qed

text \<open>The base contracts are created with a tip of zero, unlike those of \<open>internal/uniswapv3\<close>.\<close>

lemma creation_tip_is_zero: "\<not> dp_useLegacy d \<Longrightarrow> \<exists>f. creation_tx d n code = DynamicFeeTx (dp_chainID d) 0 (dp_gasPrice d) f"
  by (simp add: creation_tx_def NewContractTx_def Let_def)

section \<open>Deployments end\<close>

text \<open>
  The clock of the node: \<open>time.Now\<close> never goes back, a pause lasts at least its duration, and no call takes
  time back; a nonce is always decodable.
\<close>

definition clock_runs :: "('s \<Rightarrow> int) \<Rightarrow> 's node \<Rightarrow> bool" where
  "clock_runs clk nd \<longleftrightarrow>
     (\<forall>s. fst (nd_Now nd s) = clk (snd (nd_Now nd s)) \<and> clk s \<le> clk (snd (nd_Now nd s))) \<and>
     (\<forall>d s. clk s + d \<le> clk (snd (nd_Sleep nd d s)) \<or> \<not> fst (nd_Sleep nd d s)) \<and>
     (\<forall>a s. clk s \<le> clk (snd (nd_GetCode nd a s))) \<and>
     (\<forall>a s. \<exists>r s'. nd_GetNonce nd a s = Some (r, s') \<and> clk s \<le> clk s')"

lemma on_node_parts: "on_node f w = (x, w') \<longleftrightarrow> x = fst (f (wd_node w)) \<and> w' = w\<lparr>wd_node := snd (f (wd_node w))\<rparr>"
  by (auto simp: on_node_def split: prod.splits)

text \<open>A round of a wait leaves less time until the deadline.\<close>

lemma wait_body_time:
  assumes "clock_runs clk nd" "1 \<le> b" "wait_body nd lb a deadline (b, w) = Inr (b', w')"
  shows "1 \<le> b' \<and> nat (deadline - clk (wd_node w')) < nat (deadline - clk (wd_node w))"
proof -
  define s1 where "s1 = snd (nd_Now nd (wd_node w))"
  define s2 where "s2 = snd (nd_Sleep nd b s1)"
  have "clk s1 < deadline" "clk (wd_node w) \<le> clk s1" "clk s1 + b \<le> clk s2" "wd_node w' = snd (nd_GetCode nd (cl_hex lb a) s2)" "1 \<le> b'"
    using assms by (auto simp: wait_body_def on_node_parts Let_def s1_def s2_def clock_runs_def split: prod.splits if_splits)
  moreover have "clk s2 \<le> clk (snd (nd_GetCode nd (cl_hex lb a) s2))" using assms(1) by (simp add: clock_runs_def)
  ultimately show ?thesis using assms(2) by simp
qed

lemma returns_waitForDeployment [returning]: "clock_runs clk nd \<Longrightarrow> returns (waitForDeployment nd lb a)"
proof -
  assume c: "clock_runs clk nd"
  have "loop (wait_body nd lb a deadline) (200 * 1000000, w) \<noteq> None" for deadline w
  proof (rule loop_returns [where I = "\<lambda>v. 1 \<le> fst v" and m = "\<lambda>v. nat (deadline - clk (wd_node (snd v)))"])
    fix u u' assume "1 \<le> fst u" "wait_body nd lb a deadline u = Inr u'"
    then show "1 \<le> fst u' \<and> nat (deadline - clk (wd_node (snd u'))) < nat (deadline - clk (wd_node (snd u)))"
      using wait_body_time [OF c, of "fst u" lb a deadline "snd u" "fst u'" "snd u'"] by simp
  qed simp
  then have r: "returns (\<lambda>w. loop (wait_body nd lb a deadline) (200 * 1000000, w))" for deadline
    unfolding returns_def by blast
  show ?thesis unfolding waitForDeployment_def by (intro returning r)
qed

lemma returns_send_attempts [returning]: "returns (send_attempts nd lb frm tx rlp n k lst)"
  by (induction n arbitrary: k lst) (auto intro!: returning split: option.split sum.split)

lemma returns_deployContract: "clock_runs clk nd \<Longrightarrow> returns (deployContract nd lb d frm code n)"
  by (auto simp: deployContract_def Let_def intro!: returning split: option.split)

lemma returns_nonce: "clock_runs clk nd \<Longrightarrow> returns (get_nonce nd lb a)"
  by (rule returns_get_nonce) (fastforce simp: clock_runs_def returns_def)

lemma returns_deploy_from: "clock_runs clk nd \<Longrightarrow> returns (deploy_from nd lb d frm st total_n i before contracts)"
  by (induction contracts arbitrary: i before)
    (auto simp: deploy_one_def Let_def intro!: returning returns_nonce returns_deployContract split: sum.split prod.split)

lemma returns_DeployAll: "clock_runs clk nd \<Longrightarrow> returns (DeployAllWithProgress nd lb d frm contracts)"
  by (auto simp: DeployAllWithProgress_def intro!: returning returns_nonce returns_deploy_from split: sum.split)


section \<open>What a mint sends\<close>

definition batches :: "chain_event list \<Rightarrow> eth_tx list list" where
  "batches evs = List.map_filter (\<lambda>e. case e of BatchSubmitted a txs es \<Rightarrow> Some txs | _ \<Rightarrow> None) evs"

lemma batches_simps [simp]:
  "batches [] = []" "batches (BatchSubmitted a txs es # evs) = txs # batches evs" "batches (Reported n i j # evs) = batches evs"
  by (simp_all add: batches_def List.map_filter_def)

definition mints :: "chain_deployer \<Rightarrow> address \<Rightarrow> u64 \<Rightarrow> nat \<Rightarrow> eth_tx \<Rightarrow> bool" where
  "mints d nft st i tx \<longleftrightarrow>
     (\<exists>recip. BuildMintTx (dp_chainID d) (st + of_nat i) nft recip (int i) 0 (dp_gasPrice d) (dp_useLegacy d) = Some tx)"

lemma runs_mint_one [run_rules]:
  "runs (mint_one nd lb d minter nft st i) (\<lambda>r evs. evs = [] \<and> (\<forall>t. r = Inr t \<longrightarrow> mints d nft st i (fst t)))"
  unfolding mint_one_def by (rule runs_weaken, (rule run_rules)+) (auto simp: mints_def split: option.splits)

lemma runs_mint_batch [run_rules]:
  "runs (mint_batch nd lb d minter nft st idxs :: ('s, 'm, (eth_tx \<times> bytes) list) chain_action)
     (\<lambda>r evs. evs = [] \<and> (\<forall>ts. r = Inr ts \<longrightarrow> list_all2 (\<lambda>i t. mints d nft st i (fst t)) idxs ts))"
proof (induction idxs)
  case Nil
  show ?case unfolding mint_batch.simps by (rule runs_weaken, rule run_rules) simp
next
  case (Cons i idxs)
  show ?case unfolding mint_batch.simps by (rule runs_weaken, (rule Cons | rule run_rules)+) auto
qed

text \<open>Whatever happens, the tokens sent are the first ones, and all of them when the loop ends without error.\<close>

definition mint_log :: "chain_deployer \<Rightarrow> address \<Rightarrow> u64 \<Rightarrow> nat \<Rightarrow> nat \<Rightarrow> bool \<Rightarrow> chain_event list \<Rightarrow> bool" where
  "mint_log d nft st queued cnt ok evs \<longleftrightarrow>
     (\<exists>k. k \<le> cnt \<and> (ok \<longrightarrow> k = cnt) \<and> list_all2 (mints d nft st) [queued..<k] (concat (batches evs))) \<and>
     list_all (\<lambda>txs. length txs \<le> preMintBatchSize) (batches evs)"

lemma mint_log_reported [simp]: "mint_log d nft st queued cnt ok (Reported n i j # evs) = mint_log d nft st queued cnt ok evs"
  by (simp add: mint_log_def)

lemma mint_log_stop: "queued \<le> cnt \<Longrightarrow> mint_log d nft st queued cnt False []"
  by (auto simp: mint_log_def)

lemma mint_log_none: "mint_log d nft st 0 0 True []"
  by (simp add: mint_log_def)

lemma mint_log_weaken: "mint_log d nft st queued cnt True evs \<Longrightarrow> mint_log d nft st queued cnt ok evs"
  by (auto simp: mint_log_def)

lemma mint_log_step:
  assumes "list_all2 (\<lambda>i t. mints d nft st i (fst t)) [queued..<queued + n] ts" "n \<le> preMintBatchSize"
    and "mint_log d nft st (queued + n) cnt ok evs" "queued + n \<le> cnt"
  shows "mint_log d nft st queued cnt ok (BatchSubmitted a (map fst ts) es # evs)"
proof -
  obtain k where k: "k \<le> cnt" "ok \<longrightarrow> k = cnt" "list_all2 (mints d nft st) [queued + n..<k] (concat (batches evs))"
    using assms(3) by (auto simp: mint_log_def)
  have b: "list_all2 (mints d nft st) [queued..<queued + n] (map fst ts)" using assms(1) by (simp add: list_all2_conv_all_nth)
  have "length ts = n" using assms(1) by (auto dest: list_all2_lengthD)
  show ?thesis
  proof (cases "queued + n \<le> k")
    case True
    then have "[queued..<k] = [queued..<queued + n] @ [queued + n..<k]" by (metis le_add1 le_add_diff_inverse upt_add_eq_append)
    then show ?thesis using k b assms(2,3) \<open>length ts = n\<close>
      by (auto simp: mint_log_def intro!: exI [of _ k] list_all2_appendI)
  next
    case False
    then have c: "concat (batches evs) = []" "\<not> ok" using k assms(4) by (auto simp del: concat_eq_Nil_conv)
    have "list_all2 (mints d nft st) [queued..<queued + n] (concat (batches (BatchSubmitted a (map fst ts) es # evs)))"
      using b by (simp only: batches_simps concat.simps c append_Nil2)
    then show ?thesis using assms \<open>length ts = n\<close> c(2) by (auto simp: mint_log_def simp del: concat.simps)
  qed
qed

lemma runs_mint_from:
  "queued \<le> cnt \<Longrightarrow> runs (mint_from nd lb d minter nft st cnt queued :: ('s, 'm, unit) chain_action)
     (\<lambda>r evs. mint_log d nft st queued cnt (r = Inr ()) evs)"
proof (induction "cnt - queued" arbitrary: queued rule: less_induct)
  case less
  show ?case
  proof (cases "queued < cnt")
    case False
    then show ?thesis using less.prems
      by (subst mint_from.simps, simp) (rule runs_weaken, rule run_rules, auto simp: mint_log_def)
  next
    case True
    define n where "n = min (cnt - queued) preMintBatchSize"
    have n: "0 < n" "n \<le> preMintBatchSize" "queued + n \<le> cnt" using True by (auto simp: n_def preMintBatchSize_def)
    have IH: "runs (mint_from nd lb d minter nft st cnt (queued + n) :: ('s, 'm, unit) chain_action)
        (\<lambda>r evs. mint_log d nft st (queued + n) cnt (r = Inr ()) evs)"
      using n by (intro less.hyps) auto
    show ?thesis
      unfolding mint_from.simps [of nd lb d minter nft st cnt queued] n_def [symmetric] Let_def if_P [OF True]
      by (rule runs_weaken, (rule IH | rule run_rules)+)
        (use n in \<open>auto simp: mint_log_stop intro!: mint_log_step [of d nft st queued n] split: option.splits\<close>)
  qed
qed


lemma runs_mint_wait [run_rules]: "runs (mint_wait nd lb minter tgt) (\<lambda>r evs. evs = [])"
  unfolding runs_def
proof (intro allI impI)
  fix w r w' assume run: "mint_wait nd lb minter tgt w = Some (r, w')"
  obtain start w1 where o: "on_node (nd_Now nd) w = (start, w1)" by fastforce
  let ?body = "mint_wait_body nd lb minter tgt (start + 120 * 1000000000)"
  from run have l: "loop ?body (200 * 1000000, w1) = Some (Some (r, w'))"
    by (simp add: mint_wait_def andThen_def observe_def o bind_eq_Some_conv)
  have keep: "extends w1 [] (snd v')" if "extends w1 [] (snd v)" "?body v = Inr v'" for v v'
    using that by (auto simp: mint_wait_body_def get_nonce_def on_node_def extends_def Let_def split: prod.splits if_splits option.splits)
  have "\<exists>v. extends w1 [] (snd v) \<and> ?body v = Inl (Some (r, w'))"
    using keep by (intro loop_result [where I = "\<lambda>v. extends w1 [] (snd v)", OF l]) simp_all
  then have "extends w1 [] w'"
    by (auto simp: mint_wait_body_def get_nonce_def on_node_def extends_def Let_def split: prod.splits if_splits option.splits)
  then show "\<exists>evs. extends w evs w' \<and> evs = []" using extends_case [OF o] by blast
qed

lemma runs_PreMintNFTs:
  "runs (PreMintNFTs nd lb d minter nft cnt) (\<lambda>r evs. \<exists>st. mint_log d nft st 0 (nat cnt) (r = Inr ()) evs)"
  unfolding PreMintNFTs_def
  by (rule runs_weaken, (rule runs_mint_from [OF le0] run_rules)+)
    (auto simp: mint_log_stop intro: mint_log_none mint_log_weaken split: if_splits)


text \<open>
  The mint ahead of a test sends tokens 0, 1, 2, ... in this order, each with the nonce that many places
  after the starting nonce, in batches of at most 200, and leaves none out: whatever the node answers and
  whatever fails, the transactions sent are those of the first tokens, and a mint without error has sent all
  of them.
\<close>
theorem premint_sends_consecutive_tokens:
  assumes "PreMintNFTs nd lb d minter nft cnt w = Some (r, w')"
  shows "\<exists>evs st k. wd_trace w' = wd_trace w @ evs \<and> k \<le> nat cnt \<and> (r = Inr () \<longrightarrow> k = nat cnt) \<and>
    list_all2 (\<lambda>i tx. \<exists>recip. BuildMintTx (dp_chainID d) (st + of_nat i) nft recip (int i) 0 (dp_gasPrice d) (dp_useLegacy d) = Some tx)
      [0..<k] (concat (batches evs)) \<and>
    list_all (\<lambda>txs. length txs \<le> 200) (batches evs)"
proof -
  obtain evs st where evs: "wd_trace w' = wd_trace w @ evs" and l: "mint_log d nft st 0 (nat cnt) (r = Inr ()) evs"
    using runsD [OF runs_PreMintNFTs assms] by (auto simp: extends_def)
  then obtain k where "k \<le> nat cnt" "r = Inr () \<longrightarrow> k = nat cnt" "list_all2 (mints d nft st) [0..<k] (concat (batches evs))"
    by (auto simp: mint_log_def)
  moreover have "list_all (\<lambda>txs. length txs \<le> 200) (batches evs)" using l by (simp add: mint_log_def preMintBatchSize_def)
  ultimately show ?thesis using evs unfolding mints_def by blast
qed

text \<open>A mint ends as well: token ids fit a word, so the encoder does not panic.\<close>

lemma erc721_mint_encodes: "i < 2 ^ 63 \<Longrightarrow> encodeERC721Mint a (int i) \<noteq> None"
  by (simp add: encodeERC721Mint_def fill_at_def)

lemma clock_nonce: "clock_runs clk nd \<Longrightarrow> \<exists>r s'. nd_GetNonce nd a s = Some (r, s') \<and> clk s \<le> clk s'"
  unfolding clock_runs_def by blast

lemma clock_no_panic: "nd_GetNonce nd a s = None \<Longrightarrow> clock_runs clk nd \<Longrightarrow> False"
  using clock_nonce [of clk nd a s] by auto

lemma mint_body_time:
  assumes "clock_runs clk nd" "1 \<le> b" "mint_wait_body nd lb minter tgt deadline (b, w) = Inr (b', w')"
  shows "1 \<le> b' \<and> nat (deadline - clk (wd_node w')) < nat (deadline - clk (wd_node w))"
proof -
  define s1 where "s1 = snd (nd_Now nd (wd_node w))"
  define s2 where "s2 = snd (nd_Sleep nd b s1)"
  obtain r s3 where n: "nd_GetNonce nd (cl_hex lb minter) s2 = Some (r, s3)" "clk s2 \<le> clk s3"
    using clock_nonce [OF assms(1)] by blast
  have "clk s1 < deadline" "clk (wd_node w) \<le> clk s1" "clk s1 + b \<le> clk s2" "wd_node w' = s3" "1 \<le> b'"
    using assms n(1) by (auto simp: mint_wait_body_def get_nonce_def on_node_parts Let_def s1_def s2_def clock_runs_def
        split: prod.splits if_splits)
  then show ?thesis using assms(2) n(2) by simp
qed

lemma mint_body_answers:
  "clock_runs clk nd \<Longrightarrow> mint_wait_body nd lb minter tgt deadline v = Inl z \<Longrightarrow> z \<noteq> None"
  by (cases v) (auto simp: mint_wait_body_def get_nonce_def Let_def dest: clock_no_panic split: prod.splits if_splits option.splits)

lemma returns_mint_wait: "clock_runs clk nd \<Longrightarrow> returns (mint_wait nd lb minter tgt)"
proof -
  assume c: "clock_runs clk nd"
  let ?body = "\<lambda>deadline. mint_wait_body nd lb minter tgt deadline"
  have l: "loop (?body deadline) (200 * 1000000, w) \<noteq> None" for deadline w
  proof (rule loop_returns [where I = "\<lambda>v. 1 \<le> fst v" and m = "\<lambda>v. nat (deadline - clk (wd_node (snd v)))"])
    fix u u' assume "1 \<le> fst u" "?body deadline u = Inr u'"
    then show "1 \<le> fst u' \<and> nat (deadline - clk (wd_node (snd u'))) < nat (deadline - clk (wd_node (snd u)))"
      using mint_body_time [OF c, of "fst u" lb minter tgt deadline "snd u" "fst u'" "snd u'"] by simp
  qed simp
  have "Option.bind (loop (?body deadline) (200 * 1000000, w)) (\<lambda>r. r) \<noteq> None" for deadline w
  proof -
    obtain z where z: "loop (?body deadline) (200 * 1000000, w) = Some z" using l [of deadline w] by fastforce
    have "\<exists>v. True \<and> ?body deadline v = Inl z" by (rule loop_result [OF z]) simp_all
    then have "z \<noteq> None" using mint_body_answers [OF c] by blast
    with z show ?thesis by simp
  qed
  then have r: "returns (\<lambda>w. Option.bind (loop (?body deadline) (200 * 1000000, w)) (\<lambda>r. r))" for deadline
    unfolding returns_def by blast
  show ?thesis unfolding mint_wait_def by (intro returning r)
qed

lemma returns_mint_batch: "(\<forall>i \<in> set idxs. i < 2 ^ 63) \<Longrightarrow> returns (mint_batch nd lb d minter nft st idxs)"
proof (induction idxs)
  case (Cons i idxs)
  then have "returns (mint_one nd lb d minter nft st i)"
    using erc721_mint_encodes [of i] by (auto simp: mint_one_def BuildMintTx_def intro!: returning split: option.split)
  with Cons show ?case by (auto intro!: returning)
qed (simp add: returning)

lemma returns_mint_from:
  assumes "cnt < 2 ^ 63"
  shows "returns (mint_from nd lb d minter nft st cnt queued)"
proof (induction "cnt - queued" arbitrary: queued rule: less_induct)
  case less
  show ?case
    using less assms
    by (subst mint_from.simps)
      (auto simp: Let_def preMintBatchSize_def intro!: returning returns_mint_batch less.hyps split: option.split)
qed


lemma returns_Deploy: "clock_runs clk nd \<Longrightarrow> returns (Deploy nd lb d frm code)"
  by (auto simp: Deploy_def intro!: returning returns_nonce returns_deployContract)

lemma returns_PreMintNFTs: "clock_runs clk nd \<Longrightarrow> cnt < 2 ^ 63 \<Longrightarrow> returns (PreMintNFTs nd lb d minter nft cnt)"
  by (auto simp: PreMintNFTs_def intro!: returning returns_nonce returns_mint_from returns_mint_wait)

text \<open>
  Every deployment and every mint comes to an end, with a result or an error: when the clock of the
  system runs and a nonce is decodable, the deployment of the contracts, the deployment of a single one and
  the mint of any number of tokens an \<open>int\<close> can hold return.  Neither a node that never shows the code, nor
  one that stays in recovery mode, nor a transaction that is never included can make them run for ever.
\<close>
theorem deployments_end:
  assumes "clock_runs clk nd" "cnt < 2 ^ 63"
  shows "(\<exists>r w'. DeployAllWithProgress nd lb d frm contracts w = Some (r, w')) \<and>
    (\<exists>r w'. Deploy nd lb d frm code w = Some (r, w')) \<and> (\<exists>r w'. PreMintNFTs nd lb d minter nft cnt w = Some (r, w'))"
  by (intro conjI returns_run returns_DeployAll [OF assms(1)] returns_Deploy [OF assms(1)] returns_PreMintNFTs [OF assms])

section \<open>Witnesses\<close>

text \<open>
  A node that shows code from its first 200 ms on, takes every transaction, and whose nonce is the
  number of transactions it was sent.
\<close>

definition demo_node :: "(int \<times> nat) node" where
  "demo_node =
     \<lparr>nd_GetNonce = (\<lambda>a (t, n). Some (Inr (of_nat n), (t, n))),
      nd_GetCode = (\<lambda>a (t, n). (Inr (if 200 * 1000000 \<le> t then ''0x60'' else ''0x''), (t, n))),
      nd_Call = (\<lambda>m ps s. (Inr (Some (JStr ''0x'')), s)),
      nd_Send = (\<lambda>tx (t, n). (None, (t, n + 1))),
      nd_SendBatch = (\<lambda>txs (t, n). (map (\<lambda>_. None) txs, (t, n + length txs))),
      nd_Receipt = (\<lambda>h s. (Inr None, s)),
      nd_TxByHash = (\<lambda>h s. (Inr (Some (h, 1)), s)),
      nd_Now = (\<lambda>(t, n). (t, (t, n))),
      nd_Sleep = (\<lambda>d (t, n). (True, (t + \<bar>d\<bar>, n))),
      nd_Rounds = (\<lambda>s. ((\<lambda>k. if k = 3 then RoundTimeout else RoundTick), s)),
      nd_Random = (\<lambda>s. (7, s))\<rparr>"

definition demo_lib :: "eth_tx chain_lib" where
  "demo_lib =
     \<lparr>cl_signer = \<lparr>sg_sign = (\<lambda>a tx. Some tx), sg_encode = (\<lambda>tx. Some (tf_Data (fields_of tx)))\<rparr>, cl_hash = (\<lambda>tx. ''0xh''),
      cl_keccak = (\<lambda>bs. take 32 (bs @ replicate 32 0)), cl_rlp = (\<lambda>a n. replicate 12 0 @ be_bytes 20 (unat n + 1)),
      cl_hex = (\<lambda>a. ''0x''), cl_bytes2hex = (\<lambda>bs. ''''), cl_fromHex = (\<lambda>s. [1]), cl_errText = (\<lambda>e. ''''),
      cl_rawText = (\<lambda>j. '''')\<rparr>"

definition demo_world :: "(int \<times> nat) world" where
  "demo_world = \<lparr>wd_node = (300 * 1000000, 5), wd_trace = []\<rparr>"

lemma demo_clock: "clock_runs fst demo_node"
  by (auto simp: clock_runs_def demo_node_def)

theorem deployments_end_witness:
  "\<exists>r w'. PreMintNFTs demo_node demo_lib (NewDeployer 1 10) 3 4 1000000 demo_world = Some (r, w')"
  using deployments_end [OF demo_clock, of 1000000, THEN conjunct2, THEN conjunct2] by simp


definition demo_contracts :: "(string \<times> bytes) list" where
  "demo_contracts = base_contracts [1] [2] [3]"

lemma demo_exists: "fst (wd_node w) = 300 * 1000000 \<Longrightarrow> checkContractExists demo_node demo_lib a w = Some (Inr True, note_event (CodeSeen a) w)"
  by (cases w; cases "wd_node w") (simp add: checkContractExists_def andThen_def ask_node_def on_node_def demo_node_def has_code_def)

lemma demo_deploy_from:
  "fst (wd_node w) = 300 * 1000000 \<Longrightarrow>
   \<exists>addresses w'. deploy_from demo_node demo_lib d frm st total_n i before contracts w = Some (Inr (addresses, None), w')"
  by (induction contracts arbitrary: i before w)
    (simp_all add: deploy_one_def either_def andThen_def emit_def demo_exists note_event_def Let_def split: prod.split)

lemma demo_deployment:
  assumes "wd_node w = (300 * 1000000, n)"
  shows "\<exists>addresses w'. DeployAllWithProgress demo_node demo_lib d frm contracts w = Some (Inr (addresses, None), w')"
proof -
  have "get_nonce demo_node demo_lib frm w = Some (Inr (of_nat n), w)"
    using assms by (cases w) (simp add: get_nonce_def demo_node_def)
  then show ?thesis
    using demo_deploy_from [of w] assms by (simp add: DeployAllWithProgress_def either_def)
qed

theorem deployed_contracts_have_code_witness:
  "\<exists>addresses w'. DeployAllWithProgress demo_node demo_lib (NewDeployer 1 10) 3 demo_contracts demo_world = Some (Inr (addresses, None), w') \<and>
     map_keys addresses = {''ERC20'', ''GasConsumer'', ''NFT''}"
proof -
  obtain addresses w' where
    run: "DeployAllWithProgress demo_node demo_lib (NewDeployer 1 10) 3 demo_contracts demo_world = Some (Inr (addresses, None), w')"
    using demo_deployment [of demo_world 5] by (simp add: demo_world_def) blast
  have "distinct (map fst demo_contracts)" by code_simp
  from deployed_contracts_have_code [OF this run] have "map_keys addresses = fst ` set demo_contracts" by blast
  then show ?thesis using run by (auto simp: demo_contracts_def base_contracts_def)
qed

theorem premint_sends_consecutive_tokens_witness:
  "\<exists>r w' k. PreMintNFTs demo_node demo_lib (NewDeployer 1 10) 3 4 3 demo_world = Some (r, w') \<and> (r = Inr () \<longrightarrow> k = (3::nat)) \<and>
     (\<exists>evs. wd_trace w' = evs \<and> length (concat (batches evs)) = k)"
proof -
  obtain r w' where run: "PreMintNFTs demo_node demo_lib (NewDeployer 1 10) 3 4 3 demo_world = Some (r, w')"
    using returns_PreMintNFTs [OF demo_clock, THEN returns_run, of 3] by fastforce
  from premint_sends_consecutive_tokens [OF run] run show ?thesis
    by (auto simp: demo_world_def dest!: list_all2_lengthD)
qed

end
