(* ===== verification/Uni_Deploy.thy ===== *)
theory Uni_Deploy
  imports Contract_Deploy
begin

text \<open>
  \<open>internal/uniswapv3/deployer.go\<close> and \<open>pool.go\<close>, and the builder that drives them
  (\<open>internal/txbuilder/uniswap_v3_swap.go\<close>): five contracts, a pool with its price, liquidity, and accounts that
  hold both tokens and have approved the router.  A goroutine sees the node through a state of its own: what
  the others do shows in its answers only.
\<close>

section \<open>Addresses and constructor arguments\<close>

definition POOL_INIT_CODE_HASH :: bytes where
  "POOL_INIT_CODE_HASH = be_bytes 32 0xe34f199b19b2b4f47f68442619d555527d244f78a3297ea89325f843f87b8b54"

definition ComputePoolAddress :: "'g chain_lib \<Rightarrow> address \<Rightarrow> address \<Rightarrow> address \<Rightarrow> 32 word \<Rightarrow> address" where
  "ComputePoolAddress lb factory tokenA tokenB fee =
     (let (token0, token1) = SortTokens (cl_hex lb) tokenA tokenB;
          salt = cl_keccak lb ((replicate 12 0 @ address_Bytes token0) @ (replicate 12 0 @ address_Bytes token1) @ be_bytes 32 (unat fee));
          data = copy_at 53 POOL_INIT_CODE_HASH (copy_at 21 salt (copy_at 1 (address_Bytes factory) (0xff # replicate 84 0)))
      in bytes_address (drop 12 (cl_keccak lb data)))"

definition ComputeContractAddress :: "'g chain_lib \<Rightarrow> address \<Rightarrow> u64 \<Rightarrow> address" where
  "ComputeContractAddress lb sender n = bytes_address (drop 12 (cl_keccak lb (cl_rlp lb sender n)))"

definition appendConstructorArgs :: "bytes \<Rightarrow> address list \<Rightarrow> bytes" where
  "appendConstructorArgs code args =
     fold (\<lambda>(i, a) r. copy_at (length code + i * 32 + 12) (address_Bytes a) r) (zip [0..<length args] args)
       (copy_at 0 code (replicate (length code + length args * 32) 0))"

section \<open>Sending\<close>

definition setup_tx :: "chain_deployer \<Rightarrow> u64 \<Rightarrow> u64 \<Rightarrow> address option \<Rightarrow> int \<Rightarrow> bytes \<Rightarrow> eth_tx" where
  "setup_tx d n gas to v data =
     (let f = \<lparr>tf_Nonce = n, tf_Gas = gas, tf_To = to, tf_Value = v, tf_Data = data\<rparr>
      in if dp_useLegacy d then LegacyTx (dp_gasPrice d) f
         else DynamicFeeTx (dp_chainID d) (dp_gasPrice d) (dp_gasPrice d) f)"

definition signAndSendReturnHash :: "'s node \<Rightarrow> 'g chain_lib \<Rightarrow> address \<Rightarrow> eth_tx \<Rightarrow> ('s, 'm, 'g) chain_action" where
  "signAndSendReturnHash nd lb sender tx =
     (case sg_sign (cl_signer lb) sender tx of
        None \<Rightarrow> throw (SendErr SignFailed)
      | Some stx \<Rightarrow>
          (case sg_encode (cl_signer lb) stx of
             None \<Rightarrow> throw (SendErr EncodeFailed)
           | Some rlp \<Rightarrow> andThen (wrapped (\<lambda>e. SendErr (SendFailed e)) (submit nd sender tx rlp)) (\<lambda>_. ret stx)))"

definition signAndSend :: "'s node \<Rightarrow> 'g chain_lib \<Rightarrow> address \<Rightarrow> eth_tx \<Rightarrow> ('s, 'm, unit) chain_action" where
  "signAndSend nd lb sender tx = andThen (signAndSendReturnHash nd lb sender tx) (\<lambda>_. ret ())"

definition sendTxReturnHash ::
  "'s node \<Rightarrow> 'g chain_lib \<Rightarrow> chain_deployer \<Rightarrow> address \<Rightarrow> address \<Rightarrow> bytes \<Rightarrow> int \<Rightarrow> u64 \<Rightarrow> ('s, 'm, string) chain_action" where
  "sendTxReturnHash nd lb d sender to data v n =
     andThen (signAndSendReturnHash nd lb sender (setup_tx d n 500000 (Some to) v data)) (\<lambda>stx. ret (cl_hash lb stx))"

definition sendTx ::
  "'s node \<Rightarrow> 'g chain_lib \<Rightarrow> chain_deployer \<Rightarrow> address \<Rightarrow> address \<Rightarrow> bytes \<Rightarrow> int \<Rightarrow> u64 \<Rightarrow> ('s, 'm, unit) chain_action" where
  "sendTx nd lb d sender to data v n = andThen (sendTxReturnHash nd lb d sender to data v n) (\<lambda>_. ret ())"

text \<open>
  One round of a wait for a transaction: the receipt, or when the node has no receipts the transaction itself.
\<close>

definition inclusion ::
  "'s node \<Rightarrow> string \<Rightarrow> ('s, 'm) world_scheme \<Rightarrow> (deploy_err + unit) option \<times> ('s, 'm) world_scheme" where
  "inclusion nd h w =
     (let (rc, w1) = on_node (nd_Receipt nd h) w in
      case rc of
        Inl _ \<Rightarrow>
          (let (t, w2) = on_node (nd_TxByHash nd h) w1 in
           case t of
             Inr (Some (_, n)) \<Rightarrow> if 0 < n then (Some (Inr ()), note_event (Confirmed h) w2) else (None, w2)
           | _ \<Rightarrow> (None, w2))
      | Inr None \<Rightarrow> (None, w1)
      | Inr (Some rc) \<Rightarrow> if tr_Status rc = 0 then (Some (Inl TxReverted), w1) else (Some (Inr ()), note_event (Confirmed h) w1))"

definition waitForTxReceipt :: "'s node \<Rightarrow> string \<Rightarrow> ('s, 'm, unit) chain_action" where
  "waitForTxReceipt nd h = await nd (inclusion nd h)"

definition gas_for :: "string \<Rightarrow> u64" where
  "gas_for name = (if name = ''createPool'' \<or> name = ''initializePool'' \<or> name = ''mintLiquidity'' then 8000000 else 500000)"

definition sendTxAndWaitForReceipt ::
  "'s node \<Rightarrow> 'g chain_lib \<Rightarrow> chain_deployer \<Rightarrow> address \<Rightarrow> address \<Rightarrow> bytes \<Rightarrow> int \<Rightarrow> u64 \<Rightarrow> string \<Rightarrow> ('s, 'm, unit) chain_action" where
  "sendTxAndWaitForReceipt nd lb d sender to data v n name =
     andThen (signAndSendReturnHash nd lb sender (setup_tx d n (gas_for name) (Some to) v data))
       (\<lambda>stx. await nd (inclusion nd (cl_hash lb stx)))"

section \<open>The five contracts\<close>

definition code_shown ::
  "'s node \<Rightarrow> 'g chain_lib \<Rightarrow> address \<Rightarrow> string \<Rightarrow> ('s, 'm) world_scheme \<Rightarrow> (deploy_err + address) option \<times> ('s, 'm) world_scheme" where
  "code_shown nd lb a h w =
     (let (code, w1) = on_node (nd_GetCode nd (cl_hex lb a)) w in
      case code of
        Inl _ \<Rightarrow> (None, w1)
      | Inr c \<Rightarrow>
          if c \<noteq> ''0x'' \<and> 2 < length c then
            (let (_, w2) = on_node (nd_Receipt nd h) w1 in (Some (Inr a), note_event (CodeSeen a) w2))
          else (None, w1))"

definition waitForDeploymentWithReceipt :: "'s node \<Rightarrow> 'g chain_lib \<Rightarrow> address \<Rightarrow> string \<Rightarrow> ('s, 'm, address) chain_action" where
  "waitForDeploymentWithReceipt nd lb a h = await nd (code_shown nd lb a h)"

definition deploy_code :: "'s node \<Rightarrow> 'g chain_lib \<Rightarrow> chain_deployer \<Rightarrow> address \<Rightarrow> bytes \<Rightarrow> u64 \<Rightarrow> ('s, 'm, address) chain_action" where
  "deploy_code nd lb d frm code n =
     andThen (wrapped (Step ''send deployment tx'') (signAndSendReturnHash nd lb frm (setup_tx d n 8000000 None 0 code)))
       (\<lambda>stx. waitForDeploymentWithReceipt nd lb (ComputeContractAddress lb frm n) (cl_hash lb stx))"

text \<open>The progress callback of the caller.\<close>

type_synonym ('s, 'm) on_progress = "string \<Rightarrow> int \<Rightarrow> int \<Rightarrow> ('s, 'm, unit) chain_action"

text \<open>The \<open>k\<close>-th contract is the \<open>k + 1\<close>-st to be processed, its nonce offset is \<open>k\<close>.\<close>

definition deployOrSkip ::
  "'s node \<Rightarrow> 'g chain_lib \<Rightarrow> chain_deployer \<Rightarrow> address \<Rightarrow> ('s, 'm) on_progress \<Rightarrow> u64 \<Rightarrow> nat \<Rightarrow> string \<Rightarrow> bytes \<Rightarrow>
     ('s, 'm, address) chain_action" where
  "deployOrSkip nd lb d frm onProgress startNonce k name code =
     (let expectedAddr = ComputeContractAddress lb frm (startNonce + of_nat k);
          done = (\<lambda>a. andThen (onProgress name (int k + 1) 5) (\<lambda>_. ret a)) in
      either (checkContractExists nd lb expectedAddr) (\<lambda>ex.
        if ex = Inr True then done expectedAddr
        else
          andThen (wrapped (\<lambda>e. Step ''get nonce'' (NodeErr e)) (get_nonce nd lb frm)) (\<lambda>n.
            andThen (deploy_code nd lb d frm code n) done)))"

record uni_code =
  uc_WETH9 :: bytes
  uc_MockUSDC :: bytes
  uc_Factory :: bytes
  uc_SwapRouter :: bytes
  uc_NPM :: bytes

definition router_code :: "uni_code \<Rightarrow> address \<Rightarrow> address \<Rightarrow> bytes" where
  "router_code uc factory weth = appendConstructorArgs (uc_SwapRouter uc) [factory, weth]"

definition npm_code :: "uni_code \<Rightarrow> address \<Rightarrow> address \<Rightarrow> bytes" where
  "npm_code uc factory weth = appendConstructorArgs (uc_NPM uc) [factory, weth, 0]"

definition uni_DeployAllWithProgress ::
  "'s node \<Rightarrow> 'g chain_lib \<Rightarrow> uni_code \<Rightarrow> chain_deployer \<Rightarrow> address \<Rightarrow> ('s, 'm) on_progress \<Rightarrow>
     ('s, 'm, deployed_contracts) chain_action" where
  "uni_DeployAllWithProgress nd lb uc d frm onProgress =
     andThen (wrapped (\<lambda>e. Step ''get nonce'' (NodeErr e)) (get_nonce nd lb frm)) (\<lambda>st.
     let dep = deployOrSkip nd lb d frm onProgress st in
     andThen (wrapped (Step ''deploy WETH9'') (dep 0 ''WETH9'' (uc_WETH9 uc))) (\<lambda>weth.
     andThen (wrapped (Step ''deploy MockUSDC'') (dep 1 ''MockUSDC'' (uc_MockUSDC uc))) (\<lambda>usdc.
     andThen (wrapped (Step ''deploy Factory'') (dep 2 ''UniswapV3Factory'' (uc_Factory uc))) (\<lambda>factory.
     andThen (wrapped (Step ''deploy SwapRouter'') (dep 3 ''SwapRouter'' (router_code uc factory weth))) (\<lambda>router.
     andThen (wrapped (Step ''deploy NonfungiblePositionManager'') (dep 4 ''NonfungiblePositionManager'' (npm_code uc factory weth))) (\<lambda>npm.
     ret \<lparr>dc_WETH9 = weth, dc_USDC = usdc, dc_Factory = factory, dc_SwapRouter = router,
          dc_NonfungiblePositionManager = npm, dc_Pool = 0\<rparr>))))))"


section \<open>The pool\<close>

definition call_params :: "'g chain_lib \<Rightarrow> address \<Rightarrow> bytes \<Rightarrow> json" where
  "call_params lb to data =
     JArr [JObj [(''data'', JStr (''0x'' @ cl_bytes2hex lb data)), (''to'', JStr (cl_hex lb to))], JStr ''latest'']"

definition eth_call :: "'s node \<Rightarrow> 'g chain_lib \<Rightarrow> address \<Rightarrow> bytes \<Rightarrow> (('s, 'm) world_scheme, rpc_err, raw_message) action" where
  "eth_call nd lb to data = ask_node (nd_Call nd ''eth_call'' (call_params lb to data))"

text \<open>The answer of the factory is decoded into the same variable both times; \<open>null\<close> leaves it.\<close>

definition pool_text :: "string \<Rightarrow> raw_message \<Rightarrow> ('s, 'm, string) chain_action" where
  "pool_text cur m = (case Option.bind m (\<lambda>j. string_value j cur) of None \<Rightarrow> throw BadReply | Some s \<Rightarrow> ret s)"

definition query_pool ::
  "'s node \<Rightarrow> 'g chain_lib \<Rightarrow> deployed_contracts \<Rightarrow> bytes \<Rightarrow> string \<Rightarrow> ('s, 'm, string) chain_action" where
  "query_pool nd lb c data cur =
     andThen (wrapped (\<lambda>e. Step ''query pool address'' (NodeErr e)) (eth_call nd lb (dc_Factory c) data)) (pool_text cur)"

text \<open>
  The address of the pool, and whether it was there already.  Then its price, where it was not.
\<close>

definition find_or_create_pool ::
  "'s node \<Rightarrow> 'g chain_lib \<Rightarrow> chain_deployer \<Rightarrow> address \<Rightarrow> deployed_contracts \<Rightarrow> pool_config \<Rightarrow>
     ('s, 'm, address \<times> u64 option) chain_action" where
  "find_or_create_pool nd lb d frm c cfg =
     computed (EncodeGetPool (cl_keccak lb) (dc_WETH9 c) (dc_USDC c) (pc_Fee cfg)) (\<lambda>getData.
     andThen (query_pool nd lb c getData '''') (\<lambda>txt.
     let found = HexToAddress lb txt in
     andThen (if found \<noteq> 0 then either (checkContractExists nd lb found) (\<lambda>ex. ret (ex = Inr True)) else ret False) (\<lambda>known.
     if known then ret (found, None)
     else
       andThen (wrapped (\<lambda>e. Step ''get nonce'' (NodeErr e)) (get_nonce nd lb frm)) (\<lambda>n.
       computed (EncodeCreatePool (cl_keccak lb) (dc_WETH9 c) (dc_USDC c) (pc_Fee cfg)) (\<lambda>createData.
       andThen (wrapped (Step ''create pool'') (sendTxAndWaitForReceipt nd lb d frm (dc_Factory c) createData 0 n ''createPool'')) (\<lambda>_.
       andThen (query_pool nd lb c getData txt) (\<lambda>txt'.
       if HexToAddress lb txt' = 0 then throw NotCreated else ret (HexToAddress lb txt', Some (n + 1)))))))))"

definition initialize_pool ::
  "'s node \<Rightarrow> 'g chain_lib \<Rightarrow> chain_deployer \<Rightarrow> address \<Rightarrow> address \<Rightarrow> pool_config \<Rightarrow> u64 \<Rightarrow> ('s, 'm, unit) chain_action" where
  "initialize_pool nd lb d frm poolAddr cfg n =
     andThen (wrapped (\<lambda>e. Step ''get pool code'' (NodeErr e)) (ask_node (nd_GetCode nd (cl_hex lb poolAddr)))) (\<lambda>code.
     if code = ''0x'' \<or> length code \<le> 2 then throw NotCreated
     else
       computed (EncodeInitialize (cl_keccak lb) (pc_SqrtPriceX96 cfg)) (\<lambda>initData.
       wrapped (Step ''initialize pool'') (sendTxAndWaitForReceipt nd lb d frm poolAddr initData 0 n ''initializePool'')))"

text \<open>The address is stored in the contracts as soon as it is known, so it stays when a later step fails.\<close>

definition CreateAndInitializePoolWithProgress ::
  "'s node \<Rightarrow> 'g chain_lib \<Rightarrow> chain_deployer \<Rightarrow> address \<Rightarrow> deployed_contracts \<Rightarrow> pool_config \<Rightarrow> ('s, 'm) on_progress \<Rightarrow>
     ('s, 'm, deployed_contracts \<times> deploy_err option) chain_action" where
  "CreateAndInitializePoolWithProgress nd lb d frm c cfg onProgress =
     either (find_or_create_pool nd lb d frm c cfg) (\<lambda>r. case r of
         Inl e \<Rightarrow> ret (c, Some e)
       | Inr (poolAddr, fresh) \<Rightarrow>
           either (case fresh of None \<Rightarrow> ret () | Some n \<Rightarrow> initialize_pool nd lb d frm poolAddr cfg n) (\<lambda>r. case r of
               Inl e \<Rightarrow> ret (c\<lparr>dc_Pool := poolAddr\<rparr>, Some e)
             | Inr _ \<Rightarrow> andThen (onProgress ''Pool'' 1 1) (\<lambda>_. ret (c\<lparr>dc_Pool := poolAddr\<rparr>, None))))"

section \<open>Liquidity\<close>

text \<open>Tokens and approvals of the deployer: the four steps that come first.\<close>

definition fund_deployer ::
  "'s node \<Rightarrow> 'g chain_lib \<Rightarrow> chain_deployer \<Rightarrow> address \<Rightarrow> deployed_contracts \<Rightarrow> pool_config \<Rightarrow> u64 \<Rightarrow> ('s, 'm, unit) chain_action" where
  "fund_deployer nd lb d frm c cfg n =
     (let k = cl_keccak lb; npm = dc_NonfungiblePositionManager c in
      computed (EncodeMint k frm (pc_LiquidityUSDC cfg)) (\<lambda>mintData.
      andThen (wrapped (Step ''mint USDC'') (sendTxAndWaitForReceipt nd lb d frm (dc_USDC c) mintData 0 n ''mintUSDC'')) (\<lambda>_.
      andThen (wrapped (Step ''wrap ETH'')
        (sendTxAndWaitForReceipt nd lb d frm (dc_WETH9 c) (EncodeDeposit k) (pc_LiquidityWETH cfg) (n + 1) ''wrapETH'')) (\<lambda>_.
      computed (EncodeApprove k npm MaxUint256) (\<lambda>approve.
      andThen (wrapped (Step ''approve WETH'') (sendTxAndWaitForReceipt nd lb d frm (dc_WETH9 c) approve 0 (n + 2) ''approveWETH'')) (\<lambda>_.
      wrapped (Step ''approve USDC for NFT position manager'')
        (sendTxAndWaitForReceipt nd lb d frm (dc_USDC c) approve 0 (n + 3) ''approveUSDC'')))))))"

definition liquidity_params :: "'g chain_lib \<Rightarrow> address \<Rightarrow> deployed_contracts \<Rightarrow> pool_config \<Rightarrow> int \<Rightarrow> mint_params" where
  "liquidity_params lb frm c cfg nowSeconds =
     (let (token0, token1) = SortTokens (cl_hex lb) (dc_WETH9 c) (dc_USDC c);
          (amount0, amount1) = (if token0 = dc_WETH9 c then (pc_LiquidityWETH cfg, pc_LiquidityUSDC cfg)
                                else (pc_LiquidityUSDC cfg, pc_LiquidityWETH cfg))
      in \<lparr>mp_Token0 = token0, mp_Token1 = token1, mp_Fee = pc_Fee cfg, mp_TickLower = pc_TickLower cfg,
          mp_TickUpper = pc_TickUpper cfg, mp_Amount0Desired = amount0, mp_Amount1Desired = amount1, mp_Amount0Min = 0,
          mp_Amount1Min = 0, mp_Recipient = frm, mp_Deadline = nowSeconds + 3600\<rparr>)"

text \<open>Calls whose answers are only logged: pool slot, balances, allowances, wiring of the position manager.\<close>

fun probe_all :: "'s node \<Rightarrow> 'g chain_lib \<Rightarrow> (address \<times> bytes) list \<Rightarrow> ('s, 'm, unit) chain_action" where
  "probe_all nd lb [] = ret ()"
| "probe_all nd lb ((to, data) # rest) = either (eth_call nd lb to data) (\<lambda>_. probe_all nd lb rest)"

definition state_probes :: "'g chain_lib \<Rightarrow> address \<Rightarrow> deployed_contracts \<Rightarrow> (address \<times> bytes) list" where
  "state_probes lb frm c =
     (let k = cl_keccak lb; npm = dc_NonfungiblePositionManager c in
      [(dc_Pool c, selector k ''slot0()''), (dc_WETH9 c, EncodeBalanceOf k frm), (dc_USDC c, EncodeBalanceOf k frm),
       (dc_WETH9 c, EncodeAllowance k frm npm), (dc_USDC c, EncodeAllowance k frm npm)])"

definition manager_probes :: "'g chain_lib \<Rightarrow> deployed_contracts \<Rightarrow> (address \<times> bytes) list" where
  "manager_probes lb c =
     [(dc_NonfungiblePositionManager c, selector (cl_keccak lb) ''WETH9()''),
      (dc_NonfungiblePositionManager c, selector (cl_keccak lb) ''factory()'')]"

definition trace_mint :: "'s node \<Rightarrow> 'g chain_lib \<Rightarrow> address \<Rightarrow> deployed_contracts \<Rightarrow> bytes \<Rightarrow> ('s, 'm, unit) chain_action" where
  "trace_mint nd lb frm c mintData =
     (let params = JObj [(''data'', JStr (''0x'' @ cl_bytes2hex lb mintData)), (''from'', JStr (cl_hex lb frm)),
                         (''gas'', JStr ''0x1E8480''), (''to'', JStr (cl_hex lb (dc_NonfungiblePositionManager c)))]
      in either (ask_node (nd_Call nd ''debug_traceCall'' (JArr [params, JStr ''latest'', JObj [(''tracer'', JStr ''callTracer'')]])))
        (\<lambda>r. case r of
            Inr _ \<Rightarrow> ret ()
          | Inl _ \<Rightarrow> either (ask_node (nd_Call nd ''eth_call'' (JArr [params, JStr ''latest'']))) (\<lambda>_. ret ())))"

definition add_liquidity ::
  "'s node \<Rightarrow> 'g chain_lib \<Rightarrow> chain_deployer \<Rightarrow> address \<Rightarrow> deployed_contracts \<Rightarrow> pool_config \<Rightarrow> u64 \<Rightarrow> ('s, 'm, unit) chain_action" where
  "add_liquidity nd lb d frm c cfg n =
     andThen (observe (nd_Now nd)) (\<lambda>now.
     andThen (probe_all nd lb (state_probes lb frm c)) (\<lambda>_.
     computed (EncodeMintPosition (cl_keccak lb) (liquidity_params lb frm c cfg (now div 1000000000))) (\<lambda>mintData.
     andThen (probe_all nd lb (manager_probes lb c)) (\<lambda>_.
     andThen (trace_mint nd lb frm c mintData) (\<lambda>_.
     wrapped (Step ''add liquidity'')
       (sendTxAndWaitForReceipt nd lb d frm (dc_NonfungiblePositionManager c) mintData 0 n ''mintLiquidity''))))))"

definition ProvisionLiquidity ::
  "'s node \<Rightarrow> 'g chain_lib \<Rightarrow> chain_deployer \<Rightarrow> address \<Rightarrow> deployed_contracts \<Rightarrow> pool_config \<Rightarrow> ('s, 'm, unit) chain_action" where
  "ProvisionLiquidity nd lb d frm c cfg =
     andThen (wrapped (\<lambda>e. Step ''get nonce'' (NodeErr e)) (get_nonce nd lb frm)) (\<lambda>n.
     andThen (fund_deployer nd lb d frm c cfg n) (\<lambda>_. add_liquidity nd lb d frm c cfg (n + 4)))"

section \<open>Accounts\<close>

definition setupAccountFireAndForget ::
  "'s node \<Rightarrow> 'g chain_lib \<Rightarrow> chain_deployer \<Rightarrow> deployed_contracts \<Rightarrow> account_setup_config \<Rightarrow> address \<Rightarrow> ('s, 'm, string) chain_action" where
  "setupAccountFireAndForget nd lb d c cfg a =
     (let k = cl_keccak lb in
      andThen (wrapped (\<lambda>e. Step ''get nonce'' (NodeErr e)) (get_nonce nd lb a)) (\<lambda>n.
      computed (EncodeMint k a (as_USDCAmount cfg)) (\<lambda>mintData.
      andThen (wrapped (Step ''mint USDC'') (sendTx nd lb d a (dc_USDC c) mintData 0 n)) (\<lambda>_.
      andThen (wrapped (Step ''wrap ETH'') (sendTx nd lb d a (dc_WETH9 c) (EncodeDeposit k) (as_WETHAmount cfg) (n + 1))) (\<lambda>_.
      computed (EncodeApprove k (dc_SwapRouter c) MaxUint256) (\<lambda>approve.
      andThen (wrapped (Step ''approve WETH'') (sendTx nd lb d a (dc_WETH9 c) approve 0 (n + 2))) (\<lambda>_.
      wrapped (Step ''approve USDC'') (sendTxReturnHash nd lb d a (dc_USDC c) approve 0 (n + 3)))))))))"

definition SetupAccount ::
  "'s node \<Rightarrow> 'g chain_lib \<Rightarrow> chain_deployer \<Rightarrow> deployed_contracts \<Rightarrow> account_setup_config \<Rightarrow> address \<Rightarrow> ('s, 'm, unit) chain_action" where
  "SetupAccount nd lb d c cfg a = andThen (setupAccountFireAndForget nd lb d c cfg a) (\<lambda>_. ret ())"

definition getSampleIndices :: "nat \<Rightarrow> nat list" where
  "getSampleIndices n =
     rev (remdups (rev ((if 0 < n then [0] else []) @ (if 2 < n then [n div 4, n div 2, 3 * n div 4] else []) @
       (if 1 < n then [n - 1] else []))))"

definition trim_quotes :: "string \<Rightarrow> string" where
  "trim_quotes s = rev (dropWhile (\<lambda>c. c = CHR 0x22) (rev (dropWhile (\<lambda>c. c = CHR 0x22) s)))"

definition balance_of_text :: "'g chain_lib \<Rightarrow> raw_message \<Rightarrow> int" where
  "balance_of_text lb m =
     (let s = trim_quotes (case m of None \<Rightarrow> '''' | Some j \<Rightarrow> cl_rawText lb j) in
      if s = '''' \<or> s = ''0x'' then 0 else int (be_value (cl_fromHex lb s)))"

definition getTokenBalance :: "'s node \<Rightarrow> 'g chain_lib \<Rightarrow> address \<Rightarrow> address \<Rightarrow> (('s, 'm) world_scheme, rpc_err, int) action" where
  "getTokenBalance nd lb token a =
     andThen (eth_call nd lb token (EncodeBalanceOf (cl_keccak lb) a))
       (\<lambda>m. call (\<lambda>w. (Inr (balance_of_text lb m), note_event (BalanceRead token a (balance_of_text lb m)) w)))"

fun check_samples ::
  "'s node \<Rightarrow> 'g chain_lib \<Rightarrow> deployed_contracts \<Rightarrow> account_setup_config \<Rightarrow> address list \<Rightarrow> ('s, 'm, unit) chain_action" where
  "check_samples nd lb c cfg [] = ret ()"
| "check_samples nd lb c cfg (a # as) =
     andThen (wrapped NodeErr (getTokenBalance nd lb (dc_USDC c) a)) (\<lambda>usdc.
     if usdc < as_USDCAmount cfg then throw (TooPoor a)
     else
       andThen (wrapped NodeErr (getTokenBalance nd lb (dc_WETH9 c) a)) (\<lambda>weth.
       if weth < as_WETHAmount cfg then throw (TooPoor a) else check_samples nd lb c cfg as))"


text \<open>
  All accounts at once.  \<open>sends i\<close> and \<open>waits i\<close> are the node as the \<open>i\<close>-th goroutine of each phase meets it,
  \<open>arrival\<close> the order in which the first ones report, \<open>arrivalOf\<close> that of the waits of a batch.  The run
  keeps the trace of every goroutine; it is \<open>None\<close> when one of them panics or does not end.
\<close>

record 's setup_env =
  se_sends :: "nat \<Rightarrow> 's"
  se_waits :: "nat \<Rightarrow> 's"
  se_checks :: 's
  se_arrival :: "nat list"
  se_batchArrival :: "nat list \<Rightarrow> nat list"

record setup_run =
  sr_result :: "deploy_err + unit"
  sr_sends :: "chain_event list list"
  sr_waits :: "chain_event list list"
  sr_checks :: "chain_event list"

definition fresh :: "'s \<Rightarrow> 's world" where
  "fresh s = \<lparr>wd_node = s, wd_trace = []\<rparr>"

definition first_failure :: "nat list \<Rightarrow> (nat \<Rightarrow> 'e + 'a) \<Rightarrow> 'e option" where
  "first_failure order res = first_error (List.map_filter (\<lambda>i. case res i of Inl e \<Rightarrow> Some e | Inr _ \<Rightarrow> None) order)"

text \<open>The waits, twenty at a time; a batch in which one fails is the last.\<close>

fun wait_batches ::
  "'s node \<Rightarrow> 's setup_env \<Rightarrow> string list \<Rightarrow> nat list list \<Rightarrow> ((deploy_err + unit) \<times> chain_event list list) option" where
  "wait_batches nd env hashes [] = Some (Inr (), [])"
| "wait_batches nd env hashes (b # bs) =
     Option.bind (those (map (\<lambda>i. waitForTxReceipt nd (hashes ! i) (fresh (se_waits env i))) b)) (\<lambda>outs.
       let evs = map (wd_trace \<circ> snd) outs;
           res = (\<lambda>i. case map_of (zip b outs) i of Some (r, _) \<Rightarrow> r | None \<Rightarrow> Inr ())
       in case first_failure (se_batchArrival env b) res of
            Some e \<Rightarrow> Some (Inl (Step ''waiting for setup TX confirmation'' e), evs)
          | None \<Rightarrow> map_option (\<lambda>(r, more). (r, evs @ more)) (wait_batches nd env hashes bs))"

definition SetupAccounts ::
  "'s node \<Rightarrow> 'g chain_lib \<Rightarrow> chain_deployer \<Rightarrow> 's setup_env \<Rightarrow> address list \<Rightarrow> deployed_contracts \<Rightarrow> account_setup_config \<Rightarrow>
     setup_run option" where
  "SetupAccounts nd lb d env accounts c cfg =
     (if accounts = [] then Some \<lparr>sr_result = Inr (), sr_sends = [], sr_waits = [], sr_checks = []\<rparr>
      else
        let n = length accounts in
        Option.bind (those (map (\<lambda>i. setupAccountFireAndForget nd lb d c cfg (accounts ! i) (fresh (se_sends env i))) [0..<n])) (\<lambda>outs.
        let sent = map (wd_trace \<circ> snd) outs in
        case first_failure (se_arrival env) (\<lambda>i. fst (outs ! i)) of
          Some e \<Rightarrow> Some \<lparr>sr_result = Inl (Step ''setup account'' e), sr_sends = sent, sr_waits = [], sr_checks = []\<rparr>
        | None \<Rightarrow>
            let hashes = map (\<lambda>out. case fst out of Inr h \<Rightarrow> h | Inl _ \<Rightarrow> '''') outs in
            Option.bind (wait_batches nd env hashes (batches_of 20 [0..<n])) (\<lambda>(r, waited).
            case r of
              Inl e \<Rightarrow> Some \<lparr>sr_result = Inl e, sr_sends = sent, sr_waits = waited, sr_checks = []\<rparr>
            | Inr _ \<Rightarrow>
                map_option (\<lambda>(r, w). \<lparr>sr_result = r, sr_sends = sent, sr_waits = waited, sr_checks = wd_trace w\<rparr>)
                  (check_samples nd lb c cfg (map (\<lambda>i. accounts ! i) (getSampleIndices n)) (fresh (se_checks env))))))"

section \<open>The builder\<close>

text \<open>
  \<open>DeployContractsWithProgress\<close>: seven steps, the five contracts, the pool and the liquidity; the counter of
  the two callbacks is the number of contracts processed.  The builder keeps what it learned before an error.
  The assertions on the dynamic types of its arguments are outside the model.
\<close>

definition DeployContractsWithProgress ::
  "'s node \<Rightarrow> 'g chain_lib \<Rightarrow> uni_code \<Rightarrow> address \<Rightarrow> int \<Rightarrow> int \<Rightarrow> ('s, 'm) on_progress \<Rightarrow> swap_builder \<Rightarrow>
     ('s, 'm, swap_builder \<times> deploy_err option) chain_action" where
  "DeployContractsWithProgress nd lb uc frm chainID gasPrice onProgress b =
     (let d = NewDeployer chainID gasPrice in
      either (uni_DeployAllWithProgress nd lb uc d frm (\<lambda>name k _. onProgress name k 7)) (\<lambda>r. case r of
          Inl e \<Rightarrow> ret (b, Some (Step ''deploy contracts'' e))
        | Inr c \<Rightarrow>
            let cfg = DefaultPoolConfig (dc_WETH9 c) (dc_USDC c); b1 = b\<lparr>sb_contracts := c, sb_poolConfig := cfg\<rparr> in
            andThen (CreateAndInitializePoolWithProgress nd lb d frm c cfg (\<lambda>name _ _. onProgress name 6 7)) (\<lambda>(c2, err).
            let b2 = b1\<lparr>sb_contracts := c2\<rparr> in
            case err of
              Some e \<Rightarrow> ret (b2, Some (Step ''create pool'' e))
            | None \<Rightarrow>
                either (ProvisionLiquidity nd lb d frm c2 cfg) (\<lambda>r. case r of
                    Inl e \<Rightarrow> ret (b2, Some (Step ''provision liquidity'' e))
                  | Inr _ \<Rightarrow>
                      andThen (onProgress ''Liquidity'' 7 7)
                        (\<lambda>_. ret (b2\<lparr>sb_setupConfig := DefaultAccountSetupConfig, sb_deployed := True\<rparr>, None))))))"

definition builder_SetupAccounts ::
  "'s node \<Rightarrow> 'g chain_lib \<Rightarrow> 's setup_env \<Rightarrow> address list \<Rightarrow> int \<Rightarrow> int \<Rightarrow> swap_builder \<Rightarrow> setup_run option" where
  "builder_SetupAccounts nd lb env accounts chainID gasPrice b =
     (if \<not> sb_deployed b then Some \<lparr>sr_result = Inl NotDeployed, sr_sends = [], sr_waits = [], sr_checks = []\<rparr>
      else SetupAccounts nd lb (NewDeployer chainID gasPrice) env accounts (sb_contracts b) (sb_setupConfig b))"

section \<open>What was sent and confirmed\<close>

text \<open>
  A run follows a script of transactions of one sender when it submits them one by one, every one after the
  previous was confirmed under the hash of the signed transaction, and stops at the first that is refused or
  not confirmed.  \<open>finished\<close> runs have done the whole script.
\<close>

fun follows :: "'g chain_lib \<Rightarrow> address \<Rightarrow> eth_tx list \<Rightarrow> chain_event list \<Rightarrow> bool" where
  "follows lb a [] evs \<longleftrightarrow> evs = []"
| "follows lb a (tx # txs) evs \<longleftrightarrow>
     evs = [] \<or> (\<exists>e. evs = [Submitted a tx e]) \<or>
     (\<exists>stx rest. sg_sign (cl_signer lb) a tx = Some stx \<and> follows lb a txs rest \<and>
        evs = Submitted a tx None # Confirmed (cl_hash lb stx) # rest)"

fun finished :: "'g chain_lib \<Rightarrow> address \<Rightarrow> eth_tx list \<Rightarrow> chain_event list \<Rightarrow> bool" where
  "finished lb a [] evs \<longleftrightarrow> evs = []"
| "finished lb a (tx # txs) evs \<longleftrightarrow>
     (\<exists>stx rest. sg_sign (cl_signer lb) a tx = Some stx \<and> finished lb a txs rest \<and>
        evs = Submitted a tx None # Confirmed (cl_hash lb stx) # rest)"

lemma follows_Nil [simp]: "follows lb a txs []"
  by (cases txs) simp_all

lemma finished_follows: "finished lb a txs evs \<Longrightarrow> follows lb a txs evs"
  by (induction txs arbitrary: evs) auto

lemma finished_append: "finished lb a txs e1 \<Longrightarrow> finished lb a txs' e2 \<Longrightarrow> finished lb a (txs @ txs') (e1 @ e2)"
  by (induction txs arbitrary: e1) auto

lemma follows_append: "finished lb a txs e1 \<Longrightarrow> follows lb a txs' e2 \<Longrightarrow> follows lb a (txs @ txs') (e1 @ e2)"
  by (induction txs arbitrary: e1) auto

lemma follows_prefix: "follows lb a txs evs \<Longrightarrow> follows lb a (txs @ txs') evs"
  by (induction txs arbitrary: evs) auto

lemma runs_signAndSend [run_rules]:
  "runs (signAndSendReturnHash nd lb a tx) (\<lambda>r evs.
     (evs = [] \<and> isl r) \<or> (\<exists>e. evs = [Submitted a tx (Some e)] \<and> isl r) \<or>
     (\<exists>stx. sg_sign (cl_signer lb) a tx = Some stx \<and> r = Inr stx \<and> evs = [Submitted a tx None]))"
  unfolding signAndSendReturnHash_def
  by (rule runs_weaken, (rule run_rules)+) (auto split: option.splits)

lemma inclusion_keeps: "inclusion nd h w = (None, w') \<Longrightarrow> extends w [] w'"
  by (auto simp: inclusion_def on_node_def extends_def Let_def split: prod.splits sum.splits option.splits if_splits)

lemma inclusion_settles:
  "inclusion nd h w = (Some r, w') \<Longrightarrow> \<exists>evs. extends w evs w' \<and> (if r = Inr () then evs = [Confirmed h] else evs = [] \<and> r = Inl TxReverted)"
  by (auto simp: inclusion_def on_node_def extends_def note_event_def Let_def split: prod.splits sum.splits option.splits if_splits)

lemma runs_inclusion [run_rules]:
  "runs (await nd (inclusion nd h)) (\<lambda>r evs. if r = Inr () then evs = [Confirmed h] else evs = [] \<and> isl r)"
  by (rule runs_weaken [OF runs_await [OF inclusion_keeps inclusion_settles]]) (auto split: if_splits)

lemma runs_sendTxAndWait [run_rules]:
  "runs (sendTxAndWaitForReceipt nd lb d a to data v n name) (\<lambda>r evs.
     follows lb a [setup_tx d n (gas_for name) (Some to) v data] evs \<and>
     (r = Inr () \<longrightarrow> finished lb a [setup_tx d n (gas_for name) (Some to) v data] evs))"
  unfolding sendTxAndWaitForReceipt_def
  by (rule runs_weaken, (rule run_rules)+) (auto split: if_splits)


lemma approve_encodes: "EncodeApprove k a MaxUint256 \<noteq> None"
  by (simp add: EncodeApprove_def encode_address_amount_def fill_at_def MaxUint256_def)

definition funding_script :: "'g chain_lib \<Rightarrow> chain_deployer \<Rightarrow> deployed_contracts \<Rightarrow> pool_config \<Rightarrow> u64 \<Rightarrow> bytes \<Rightarrow> bytes \<Rightarrow> eth_tx list" where
  "funding_script lb d c cfg n mintUSDC approve =
     [setup_tx d n 500000 (Some (dc_USDC c)) 0 mintUSDC,
      setup_tx d (n + 1) 500000 (Some (dc_WETH9 c)) (pc_LiquidityWETH cfg) (EncodeDeposit (cl_keccak lb)),
      setup_tx d (n + 2) 500000 (Some (dc_WETH9 c)) 0 approve,
      setup_tx d (n + 3) 500000 (Some (dc_USDC c)) 0 approve]"

lemma gas_for_funding [simp]:
  "gas_for ''mintUSDC'' = 500000" "gas_for ''wrapETH'' = 500000" "gas_for ''approveWETH'' = 500000" "gas_for ''approveUSDC'' = 500000"
  "gas_for ''mintLiquidity'' = 8000000" "gas_for ''createPool'' = 8000000" "gas_for ''initializePool'' = 8000000"
  by (simp_all add: gas_for_def)

lemma runs_fund_deployer [run_rules]:
  "runs (fund_deployer nd lb d frm c cfg n) (\<lambda>r evs. \<exists>mintUSDC approve.
     EncodeMint (cl_keccak lb) frm (pc_LiquidityUSDC cfg) = Some mintUSDC \<and>
     EncodeApprove (cl_keccak lb) (dc_NonfungiblePositionManager c) MaxUint256 = Some approve \<and>
     follows lb frm (funding_script lb d c cfg n mintUSDC approve) evs \<and>
     (r = Inr () \<longrightarrow> finished lb frm (funding_script lb d c cfg n mintUSDC approve) evs))"
proof -
  obtain approve where a: "EncodeApprove (cl_keccak lb) (dc_NonfungiblePositionManager c) MaxUint256 = Some approve"
    using approve_encodes by blast
  show ?thesis
    unfolding fund_deployer_def Let_def
    by (rule runs_weaken, (rule run_rules)+) (auto simp: a funding_script_def)
qed


lemma runs_probe_all [run_rules]: "runs (probe_all nd lb ps :: ('s, 'm, unit) chain_action) (\<lambda>r evs. r = Inr () \<and> evs = [])"
proof (induction ps)
  case Nil
  show ?case unfolding probe_all.simps by (rule runs_weaken, rule run_rules) simp
next
  case (Cons p ps)
  obtain to data where p: "p = (to, data)" by fastforce
  show ?case
    unfolding p probe_all.simps eth_call_def by (rule runs_weaken, rule runs_either, (rule Cons | rule run_rules)+) auto
qed

lemma runs_eth_call [run_rules]: "runs (eth_call nd lb to data) (\<lambda>r evs. evs = [])"
  unfolding eth_call_def by (rule run_rules)

lemma runs_trace_mint [run_rules]: "runs (trace_mint nd lb frm c mintData) (\<lambda>r evs. r = Inr () \<and> evs = [])"
  unfolding trace_mint_def Let_def by (rule runs_weaken, (rule run_rules)+) auto

text \<open>The transactions of a provision of liquidity, in order.\<close>

definition position_tx :: "chain_deployer \<Rightarrow> deployed_contracts \<Rightarrow> u64 \<Rightarrow> bytes \<Rightarrow> eth_tx" where
  "position_tx d c n mintPosition = setup_tx d (n + 4) 8000000 (Some (dc_NonfungiblePositionManager c)) 0 mintPosition"

definition liquidity_script ::
  "'g chain_lib \<Rightarrow> chain_deployer \<Rightarrow> address \<Rightarrow> deployed_contracts \<Rightarrow> pool_config \<Rightarrow> u64 \<Rightarrow> int \<Rightarrow> bytes \<Rightarrow> bytes \<Rightarrow> eth_tx list" where
  "liquidity_script lb d frm c cfg n now mintUSDC approve =
     funding_script lb d c cfg n mintUSDC approve @
       (case EncodeMintPosition (cl_keccak lb) (liquidity_params lb frm c cfg now) of
          None \<Rightarrow> [] | Some mintPosition \<Rightarrow> [position_tx d c n mintPosition])"

lemma runs_add_liquidity [run_rules]:
  "runs (add_liquidity nd lb d frm c cfg (n + 4)) (\<lambda>r evs. \<exists>now p.
     EncodeMintPosition (cl_keccak lb) (liquidity_params lb frm c cfg now) = Some p \<and>
     follows lb frm [position_tx d c n p] evs \<and> (r = Inr () \<longrightarrow> finished lb frm [position_tx d c n p] evs))"
  unfolding add_liquidity_def position_tx_def
  by (rule runs_weaken, (rule run_rules)+) (auto simp del: follows.simps finished.simps)

lemma runs_ProvisionLiquidity:
  "runs (ProvisionLiquidity nd lb d frm c cfg) (\<lambda>r evs. evs = [] \<and> isl r \<or>
     (\<exists>n now mintUSDC approve. EncodeMint (cl_keccak lb) frm (pc_LiquidityUSDC cfg) = Some mintUSDC \<and>
        EncodeApprove (cl_keccak lb) (dc_NonfungiblePositionManager c) MaxUint256 = Some approve \<and>
        follows lb frm (liquidity_script lb d frm c cfg n now mintUSDC approve) evs \<and>
        (r = Inr () \<longrightarrow> finished lb frm (liquidity_script lb d frm c cfg n now mintUSDC approve) evs \<and>
           length (liquidity_script lb d frm c cfg n now mintUSDC approve) = 5)))"
proof -
  have five: "length (liquidity_script lb d frm c cfg n now mintUSDC approve) = 5"
    if "EncodeMintPosition (cl_keccak lb) (liquidity_params lb frm c cfg now) = Some p" for n now mintUSDC approve p
    using that by (simp add: liquidity_script_def funding_script_def)
  have funds: "follows lb frm (liquidity_script lb d frm c cfg n now mintUSDC approve) evs"
    if "follows lb frm (funding_script lb d c cfg n mintUSDC approve) evs" for n now mintUSDC approve evs
    using that by (simp add: liquidity_script_def follows_prefix)
  have position: "follows lb frm (liquidity_script lb d frm c cfg n now mintUSDC approve) (e1 @ e2)"
      "finished lb frm [position_tx d c n p] e2 \<Longrightarrow> finished lb frm (liquidity_script lb d frm c cfg n now mintUSDC approve) (e1 @ e2)"
    if "EncodeMintPosition (cl_keccak lb) (liquidity_params lb frm c cfg now) = Some p"
      "finished lb frm (funding_script lb d c cfg n mintUSDC approve) e1" "follows lb frm [position_tx d c n p] e2"
    for n now mintUSDC approve p e1 e2
    unfolding liquidity_script_def using that by (simp_all only: option.case follows_append finished_append)
  show ?thesis
    unfolding ProvisionLiquidity_def
    apply (rule runs_weaken, (rule run_rules)+, elim exE conjE disjE)
    apply (simp_all del: follows.simps finished.simps)
    subgoal for r evs x e1 e2 n e mintUSDC approve using funds by metis
    subgoal for r evs x e1 e2 n e1a e2a mintUSDC now approve p
      using position [of now p n mintUSDC approve e1a e2a] five [of now p n mintUSDC approve] by metis
    done
qed


text \<open>
  C31: Liquidity is added only after everything it needs is on the chain.  Whatever the node answers, the
  transactions of a provision are the deployer's mint of USDC, the wrapping of ETH, the two approvals of the
  position manager and the mint of the position, with consecutive nonces from the one the node reported; each
  is submitted only after the node reported the previous one as included, so the position is minted only
  once the other four are; a refused or failed transaction is the last one; and a provision without error has
  submitted and confirmed all five.
\<close>
theorem liquidity_after_confirmed_funding:
  assumes "ProvisionLiquidity nd lb d frm c cfg w = Some (r, w')"
  shows "\<exists>evs. wd_trace w' = wd_trace w @ evs \<and>
    (evs = [] \<and> isl r \<or>
     (\<exists>n now mintUSDC approve. EncodeMint (cl_keccak lb) frm (pc_LiquidityUSDC cfg) = Some mintUSDC \<and>
        EncodeApprove (cl_keccak lb) (dc_NonfungiblePositionManager c) MaxUint256 = Some approve \<and>
        follows lb frm (liquidity_script lb d frm c cfg n now mintUSDC approve) evs \<and>
        (r = Inr () \<longrightarrow> finished lb frm (liquidity_script lb d frm c cfg n now mintUSDC approve) evs \<and>
           length (liquidity_script lb d frm c cfg n now mintUSDC approve) = 5)))"
  using runsD [OF runs_ProvisionLiquidity assms] by (rule ex_forward) (erule conj_forward, simp add: extends_def, assumption)

section \<open>The accounts\<close>

fun fires :: "address \<Rightarrow> eth_tx list \<Rightarrow> chain_event list \<Rightarrow> bool" where
  "fires a [] evs \<longleftrightarrow> evs = []"
| "fires a (tx # txs) evs \<longleftrightarrow>
     evs = [] \<or> (\<exists>e. evs = [Submitted a tx (Some e)]) \<or> (\<exists>rest. evs = Submitted a tx None # rest \<and> fires a txs rest)"

definition fired :: "address \<Rightarrow> eth_tx list \<Rightarrow> chain_event list" where
  "fired a txs = map (\<lambda>tx. Submitted a tx None) txs"

definition setup_script ::
  "'g chain_lib \<Rightarrow> chain_deployer \<Rightarrow> deployed_contracts \<Rightarrow> account_setup_config \<Rightarrow> u64 \<Rightarrow> bytes \<Rightarrow> bytes \<Rightarrow> eth_tx list" where
  "setup_script lb d c cfg n mintUSDC approve =
     [setup_tx d n 500000 (Some (dc_USDC c)) 0 mintUSDC,
      setup_tx d (n + 1) 500000 (Some (dc_WETH9 c)) (as_WETHAmount cfg) (EncodeDeposit (cl_keccak lb)),
      setup_tx d (n + 2) 500000 (Some (dc_WETH9 c)) 0 approve,
      setup_tx d (n + 3) 500000 (Some (dc_USDC c)) 0 approve]"

text \<open>What the goroutine of one account did; \<open>h\<close> is the hash it reports.\<close>

definition account_sends ::
  "'g chain_lib \<Rightarrow> chain_deployer \<Rightarrow> deployed_contracts \<Rightarrow> account_setup_config \<Rightarrow> address \<Rightarrow> string option \<Rightarrow> chain_event list \<Rightarrow> bool" where
  "account_sends lb d c cfg a h evs \<longleftrightarrow> evs = [] \<and> h = None \<or>
     (\<exists>n mintUSDC approve. EncodeMint (cl_keccak lb) a (as_USDCAmount cfg) = Some mintUSDC \<and>
        EncodeApprove (cl_keccak lb) (dc_SwapRouter c) MaxUint256 = Some approve \<and>
        fires a (setup_script lb d c cfg n mintUSDC approve) evs \<and>
        (h \<noteq> None \<longrightarrow> evs = fired a (setup_script lb d c cfg n mintUSDC approve) \<and>
           (\<exists>stx. sg_sign (cl_signer lb) a (last (setup_script lb d c cfg n mintUSDC approve)) = Some stx \<and> h = Some (cl_hash lb stx))))"

lemma runs_sendTxReturnHash [run_rules]:
  "runs (sendTxReturnHash nd lb d a to data v n) (\<lambda>r evs. fires a [setup_tx d n 500000 (Some to) v data] evs \<and>
     (\<forall>h. r = Inr h \<longrightarrow> evs = [Submitted a (setup_tx d n 500000 (Some to) v data) None] \<and>
        (\<exists>stx. sg_sign (cl_signer lb) a (setup_tx d n 500000 (Some to) v data) = Some stx \<and> h = cl_hash lb stx)))"
  unfolding sendTxReturnHash_def by (rule runs_weaken, (rule run_rules)+) auto

lemma runs_sendTx [run_rules]:
  "runs (sendTx nd lb d a to data v n) (\<lambda>r evs. fires a [setup_tx d n 500000 (Some to) v data] evs \<and>
     (r = Inr () \<longrightarrow> evs = [Submitted a (setup_tx d n 500000 (Some to) v data) None]))"
  unfolding sendTx_def by (rule runs_weaken, (rule run_rules)+) auto

lemma runs_setupAccount [run_rules]:
  "runs (setupAccountFireAndForget nd lb d c cfg a)
     (\<lambda>r evs. account_sends lb d c cfg a (case r of Inl _ \<Rightarrow> None | Inr h \<Rightarrow> Some h) evs)"
proof -
  obtain approve where ap: "EncodeApprove (cl_keccak lb) (dc_SwapRouter c) MaxUint256 = Some approve"
    using approve_encodes by blast
  show ?thesis
    unfolding setupAccountFireAndForget_def Let_def
    by (rule runs_weaken, (rule run_rules)+)
      (auto simp: ap account_sends_def setup_script_def fired_def split: sum.split, blast)
qed


lemma runs_check_samples:
  "runs (check_samples nd lb c cfg as :: ('s, 'm, unit) chain_action) (\<lambda>r evs. r = Inr () \<longrightarrow>
     (\<forall>a \<in> set as. (\<exists>b \<ge> as_USDCAmount cfg. BalanceRead (dc_USDC c) a b \<in> set evs) \<and>
        (\<exists>b \<ge> as_WETHAmount cfg. BalanceRead (dc_WETH9 c) a b \<in> set evs)))"
proof (induction "as")
  case Nil
  show ?case unfolding check_samples.simps by (rule runs_weaken, rule run_rules) simp
next
  case (Cons a as)
  have balance: "runs (getTokenBalance nd lb t a) (\<lambda>r evs. \<forall>b. r = Inr b \<longrightarrow> evs = [BalanceRead t a b])" for t
    by (auto simp: runs_def getTokenBalance_def andThen_Some eth_call_def ask_node_def on_node_def note_event_def extends_def
        split: prod.splits)
  show ?case
    unfolding check_samples.simps
    by (rule runs_weaken, (rule Cons balance | rule run_rules)+) (auto simp: not_less split: if_splits, force+)
qed

lemma no_first_failure: "first_failure order res = None \<longleftrightarrow> (\<forall>i \<in> set order. \<not> isl (res i))"
proof -
  have "List.map_filter (\<lambda>i. case res i of Inl e \<Rightarrow> Some e | Inr _ \<Rightarrow> None) order = [] \<longleftrightarrow> (\<forall>i \<in> set order. \<not> isl (res i))"
    by (induction order) (auto simp: List.map_filter_def split: sum.splits)
  then show ?thesis by (auto simp: first_failure_def first_error_def split: list.splits)
qed

lemma those_Some: "those xs = Some ys \<longleftrightarrow> xs = map Some ys"
proof (induction xs arbitrary: ys)
  case (Cons x xs)
  then show ?case by (cases x; cases ys) (auto split: option.splits)
qed auto

text \<open>The sampled indices are distinct, in range, at most five, and the first and the last account are among them.\<close>

lemma sample_indices:
  "distinct (getSampleIndices n) \<and> set (getSampleIndices n) \<subseteq> {..<n} \<and> length (getSampleIndices n) \<le> 5 \<and>
   (0 < n \<longrightarrow> 0 \<in> set (getSampleIndices n) \<and> n - 1 \<in> set (getSampleIndices n))"
proof -
  have "length (remdups (rev xs)) \<le> length xs" for xs :: "nat list" using length_remdups_leq [of "rev xs"] by simp
  from this [of "(if 0 < n then [0] else []) @ (if 2 < n then [n div 4, n div 2, 3 * n div 4] else []) @ (if 1 < n then [n - 1] else [])"]
  have "length (getSampleIndices n) \<le> 5" by (auto simp: getSampleIndices_def split: if_splits)
  moreover have "2 < n \<Longrightarrow> 3 * n div 4 < n" by presburger
  ultimately show ?thesis by (auto simp: getSampleIndices_def)
qed

text \<open>The waits that all succeed: one confirmation each, under the hash that was waited for.\<close>

lemma wait_for_one:
  "waitForTxReceipt nd h (fresh s) = Some (r, w') \<Longrightarrow> if r = Inr () then wd_trace w' = [Confirmed h] else isl r"
  using runsD [OF runs_inclusion, of nd h "fresh s" r w'] by (auto simp: waitForTxReceipt_def extends_def fresh_def split: if_splits)

lemma wait_batches_ok:
  assumes "\<And>b. set (se_batchArrival env b) = set b" "distinct (concat bs)"
    and "wait_batches nd env hashes bs = Some (Inr (), evs)"
  shows "evs = map (\<lambda>i. [Confirmed (hashes ! i)]) (concat bs)"
  using assms(2,3)
proof (induction bs arbitrary: evs)
  case (Cons b bs)
  then obtain outs more where outs: "map (\<lambda>i. waitForTxReceipt nd (hashes ! i) (fresh (se_waits env i))) b = map Some outs"
    and evs: "evs = map (wd_trace \<circ> snd) outs @ more" and more: "wait_batches nd env hashes bs = Some (Inr (), more)"
    and ok: "first_failure (se_batchArrival env b) (\<lambda>i. case map_of (zip b outs) i of Some (r, _) \<Rightarrow> r | None \<Rightarrow> Inr ()) = None"
    by (auto simp: those_Some bind_eq_Some_conv Let_def split: option.splits)
  have len: "length outs = length b" using outs map_eq_imp_length_eq by fastforce
  have one: "wd_trace (snd (outs ! k)) = [Confirmed (hashes ! (b ! k))]" if "k < length b" for k
  proof -
    have "map_of (zip b outs) (b ! k) = Some (outs ! k)" using Cons.prems(1) len that by (simp add: map_of_zip_nth)
    moreover have "\<not> isl (case map_of (zip b outs) (b ! k) of Some (r, _) \<Rightarrow> r | None \<Rightarrow> Inr ())"
      using ok nth_mem [OF that] unfolding no_first_failure assms(1) by blast
    ultimately have "\<not> isl (fst (outs ! k))" by (simp add: case_prod_beta)
    moreover have "waitForTxReceipt nd (hashes ! (b ! k)) (fresh (se_waits env (b ! k))) = Some (outs ! k)"
      using outs that len by (metis (mono_tags, lifting) length_map nth_map)
    ultimately show ?thesis
      using wait_for_one [of nd "hashes ! (b ! k)" "se_waits env (b ! k)" "fst (outs ! k)" "snd (outs ! k)"] by (auto split: if_splits)
  qed
  then have "map (wd_trace \<circ> snd) outs = map (\<lambda>i. [Confirmed (hashes ! i)]) b" using len by (auto intro!: nth_equalityI)
  then show ?case using Cons.IH [OF _ more] Cons.prems(1) evs by simp
qed simp


lemma not_Inr_unit: "x \<noteq> Inr () \<longleftrightarrow> (\<exists>e. x = Inl e)"
  by (cases x) auto

lemma not_Inl_unit: "(\<forall>e. x \<noteq> Inl e) \<longleftrightarrow> x = Inr ()"
  by (cases x) auto

lemma setup_one:
  assumes "setupAccountFireAndForget nd lb d c cfg a (fresh s) = Some (r, w')"
  shows "account_sends lb d c cfg a (case r of Inl _ \<Rightarrow> None | Inr h \<Rightarrow> Some h) (wd_trace w')"
  using runsD [OF runs_setupAccount assms] by (auto simp: extends_def fresh_def)

text \<open>
  The parallel setup of accounts.  Whatever the node answers and whichever goroutine comes first, the
  transactions of an account are the mint of USDC, the wrapping of ETH and the two approvals of the swap
  router, with consecutive nonces, and those sent are the first ones.  When the setup reports success, all four
  were accepted for every account and the last one was reported as included, and the sampled accounts (the
  first and the last among them) showed at least the configured amount of both tokens.
\<close>
theorem accounts_are_set_up:
  assumes "SetupAccounts nd lb d env accounts c cfg = Some run" "accounts \<noteq> []"
    and arrive: "set (se_arrival env) = {..<length accounts}" "\<And>b. set (se_batchArrival env b) = set b"
  shows "length (sr_sends run) = length accounts \<and>
    (\<forall>i < length accounts. \<exists>h. account_sends lb d c cfg (accounts ! i) h (sr_sends run ! i) \<and>
       (sr_result run = Inr () \<longrightarrow> h \<noteq> None \<and> sr_waits run ! i = [Confirmed (the h)])) \<and>
    (sr_result run = Inr () \<longrightarrow> (\<forall>i \<in> set (getSampleIndices (length accounts)).
       (\<exists>b \<ge> as_USDCAmount cfg. BalanceRead (dc_USDC c) (accounts ! i) b \<in> set (sr_checks run)) \<and>
       (\<exists>b \<ge> as_WETHAmount cfg. BalanceRead (dc_WETH9 c) (accounts ! i) b \<in> set (sr_checks run))))"
proof -
  define n where "n = length accounts"
  obtain outs where o: "map (\<lambda>i. setupAccountFireAndForget nd lb d c cfg (accounts ! i) (fresh (se_sends env i))) [0..<n] = map Some outs"
    using assms(1,2) by (auto simp: SetupAccounts_def n_def Let_def those_Some bind_eq_Some_conv)
  define hs where "hs = map (\<lambda>out. case fst out of Inr h \<Rightarrow> h | Inl _ \<Rightarrow> '''') outs"
  have len: "length outs = n" using o map_eq_imp_length_eq by fastforce
  have each: "account_sends lb d c cfg (accounts ! i) (case fst (outs ! i) of Inl _ \<Rightarrow> None | Inr h \<Rightarrow> Some h) (wd_trace (snd (outs ! i)))"
    if "i < n" for i
  proof -
    have "setupAccountFireAndForget nd lb d c cfg (accounts ! i) (fresh (se_sends env i)) = Some (outs ! i)"
      using arg_cong [OF o, of "\<lambda>xs. xs ! i"] that len by simp
    then show ?thesis using setup_one [of nd lb d c cfg "accounts ! i" _ "fst (outs ! i)" "snd (outs ! i)"] by simp
  qed
  have run: "sr_sends run = map (wd_trace \<circ> snd) outs" and ok: "sr_result run = Inr () \<Longrightarrow>
      first_failure (se_arrival env) (\<lambda>i. fst (outs ! i)) = None \<and>
      (\<exists>waited w. wait_batches nd env hs (batches_of 20 [0..<n]) = Some (Inr (), waited) \<and> sr_waits run = waited \<and>
         check_samples nd lb c cfg (map (\<lambda>i. accounts ! i) (getSampleIndices n)) (fresh (se_checks env)) = Some (Inr (), w) \<and>
         sr_checks run = wd_trace w)"
    using assms(1,2) by (auto simp: SetupAccounts_def n_def [symmetric] not_Inr_unit not_Inl_unit o those_map_Some hs_def [symmetric] Let_def bind_eq_Some_conv
        split: option.split_asm sum.split_asm)
  have success: "\<exists>h. fst (outs ! i) = Inr h \<and> sr_waits run ! i = [Confirmed h]" if r: "sr_result run = Inr ()" and i: "i < n" for i
  proof -
    have "\<not> isl (fst (outs ! i))" using ok [OF r] i arrive(1) unfolding no_first_failure n_def by blast
    then obtain h where h: "fst (outs ! i) = Inr h" by (cases "fst (outs ! i)") auto
    have "sr_waits run = map (\<lambda>i. [Confirmed (hs ! i)]) [0..<n]"
      using ok [OF r] wait_batches_ok [where env = env and bs = "batches_of 20 [0..<n]", OF arrive(2)]
      by (auto simp: batches_of_concat)
    then show ?thesis using h i len by (simp add: hs_def)
  qed
  have checks: "\<forall>a \<in> set (map (\<lambda>i. accounts ! i) (getSampleIndices n)).
      (\<exists>b \<ge> as_USDCAmount cfg. BalanceRead (dc_USDC c) a b \<in> set (sr_checks run)) \<and>
      (\<exists>b \<ge> as_WETHAmount cfg. BalanceRead (dc_WETH9 c) a b \<in> set (sr_checks run))" if r: "sr_result run = Inr ()"
  proof -
    obtain w where w: "check_samples nd lb c cfg (map (\<lambda>i. accounts ! i) (getSampleIndices n)) (fresh (se_checks env)) = Some (Inr (), w)"
        "sr_checks run = wd_trace w" using ok [OF r] by blast
    from runsD [OF runs_check_samples w(1)] show ?thesis unfolding w(2) by (auto simp: extends_def fresh_def)
  qed
  show ?thesis
    unfolding n_def [symmetric]
  proof (intro conjI allI impI)
    fix i assume "i < n"
    then show "\<exists>h. account_sends lb d c cfg (accounts ! i) h (sr_sends run ! i) \<and>
        (sr_result run = Inr () \<longrightarrow> h \<noteq> None \<and> sr_waits run ! i = [Confirmed (the h)])"
      using each [of i] success [of i] len by (force simp: run)
  qed (use checks run len in auto)
qed


text \<open>\<open>SetupAccount\<close> returns without waiting for any of its four transactions.\<close>

lemma setup_account_does_not_wait: "runs (SetupAccount nd lb d c cfg a) (\<lambda>r evs. \<forall>h. Confirmed h \<notin> set evs)"
proof -
  have "fires b txs evs \<Longrightarrow> Confirmed h \<notin> set evs" for b txs evs h by (induction b txs evs rule: fires.induct) auto
  then show ?thesis
    unfolding SetupAccount_def
    by (intro runs_weaken [OF runs_andThen [OF runs_setupAccount runs_ret]]) (fastforce simp: account_sends_def)
qed

section \<open>The wiring of the contracts\<close>

definition arg_word :: "address \<Rightarrow> bytes" where
  "arg_word a = replicate 12 0 @ address_Bytes a"

lemma fold_args:
  "fold (\<lambda>(i, a) r. copy_at (length pre + i * 32 + 12) (address_Bytes a) r) (zip [k..<k + length args] args)
     (pre @ dn @ replicate (length args * 32) 0) = pre @ dn @ concat (map arg_word args)" if "length dn = k * 32"
  using that
proof (induction args arbitrary: k dn)
  case (Cons a args)
  have z: "replicate (length (a # args) * 32) (0 :: 8 word) = replicate 12 0 @ replicate 20 0 @ replicate (length args * 32) 0"
    by (simp flip: replicate_add)
  have c: "copy_at (length pre + k * 32 + 12) (address_Bytes a) (pre @ dn @ replicate (length (a # args) * 32) 0) =
      pre @ (dn @ arg_word a) @ replicate (length args * 32) 0"
    using copy_append [of "pre @ dn @ replicate 12 0"] Cons.prems unfolding z
    by (simp add: copy_at_def arg_word_def)
  have "[k..<k + length (a # args)] = k # [Suc k..<Suc k + length args]" by (simp add: upt_rec)
  then show ?case using Cons.IH [of "dn @ arg_word a" "Suc k"] Cons.prems c by (simp add: arg_word_def)
qed simp

lemma appendConstructorArgs_layout: "appendConstructorArgs code args = code @ concat (map arg_word args)"
proof -
  have "copy_at 0 code (replicate (length code + length args * 32) 0) = code @ [] @ replicate (length args * 32) 0"
    by (simp add: copy_at_def)
  then show ?thesis using fold_args [of "[]" 0 code args] by (simp add: appendConstructorArgs_def)
qed

definition uni_in_place :: "'g chain_lib \<Rightarrow> chain_deployer \<Rightarrow> address \<Rightarrow> u64 \<Rightarrow> chain_event list \<Rightarrow> nat \<Rightarrow> bytes \<Rightarrow> address \<Rightarrow> bool" where
  "uni_in_place lb d frm st evs k code a \<longleftrightarrow> CodeSeen a \<in> set evs \<and>
     (a = ComputeContractAddress lb frm (st + of_nat k) \<or>
      (\<exists>n. a = ComputeContractAddress lb frm n \<and> Submitted frm (setup_tx d n 8000000 None 0 code) None \<in> set evs))"

lemma uni_in_place_mono: "uni_in_place lb d frm st evs k code a \<Longrightarrow> set evs \<subseteq> set evs' \<Longrightarrow> uni_in_place lb d frm st evs' k code a"
  by (auto simp: uni_in_place_def)

lemma code_shown_keeps: "code_shown nd lb a h w = (None, w') \<Longrightarrow> extends w [] w'"
  by (auto simp: code_shown_def on_node_def extends_def Let_def split: prod.splits sum.splits if_splits)

lemma code_shown_settles:
  "code_shown nd lb a h w = (Some r, w') \<Longrightarrow> \<exists>evs. extends w evs w' \<and> (r = Inr a \<and> evs = [CodeSeen a])"
  by (auto simp: code_shown_def on_node_def extends_def note_event_def Let_def split: prod.splits sum.splits if_splits)

lemma runs_wait_code [run_rules]:
  "runs (waitForDeploymentWithReceipt nd lb a h) (\<lambda>r evs. \<forall>b. r = Inr b \<longrightarrow> b = a \<and> evs = [CodeSeen a])"
  unfolding waitForDeploymentWithReceipt_def
  by (rule runs_weaken [OF runs_await [OF code_shown_keeps code_shown_settles]]) auto

lemma runs_deploy_code [run_rules]:
  "runs (deploy_code nd lb d frm code n) (\<lambda>r evs. \<forall>a. r = Inr a \<longrightarrow>
     evs = [Submitted frm (setup_tx d n 8000000 None 0 code) None, CodeSeen a] \<and> a = ComputeContractAddress lb frm n)"
  unfolding deploy_code_def by (rule runs_weaken, (rule run_rules)+) auto

lemma runs_deployOrSkip:
  assumes "\<And>name i j. runs (onProgress name i j) (\<lambda>r evs. True)"
  shows "runs (deployOrSkip nd lb d frm onProgress st k name code) (\<lambda>r evs. \<forall>a. r = Inr a \<longrightarrow> uni_in_place lb d frm st evs k code a)"
  unfolding deployOrSkip_def Let_def
  by (rule runs_weaken, (rule run_rules assms)+) (auto simp: uni_in_place_def split: if_splits)


text \<open>The five contracts of a deployment with their places and byte codes.\<close>

definition wiring :: "uni_code \<Rightarrow> deployed_contracts \<Rightarrow> (nat \<times> bytes \<times> address) list" where
  "wiring uc c =
     [(0, uc_WETH9 uc, dc_WETH9 c), (1, uc_MockUSDC uc, dc_USDC c), (2, uc_Factory uc, dc_Factory c),
      (3, uc_SwapRouter uc @ be_bytes 32 (unat (dc_Factory c)) @ be_bytes 32 (unat (dc_WETH9 c)), dc_SwapRouter c),
      (4, uc_NPM uc @ be_bytes 32 (unat (dc_Factory c)) @ be_bytes 32 (unat (dc_WETH9 c)) @ be_bytes 32 0,
        dc_NonfungiblePositionManager c)]"

lemma arg_word_abi: "arg_word a = be_bytes 32 (unat a)"
proof -
  have "unat a < 256 ^ 20" using unsigned_less [of a] by simp
  from be_bytes_pad [OF this, of 12] show ?thesis by (simp add: arg_word_def address_Bytes_def)
qed

lemma codes_abi:
  "router_code uc factory weth = uc_SwapRouter uc @ be_bytes 32 (unat factory) @ be_bytes 32 (unat weth)"
  "npm_code uc factory weth = uc_NPM uc @ be_bytes 32 (unat factory) @ be_bytes 32 (unat weth) @ be_bytes 32 0"
  by (simp_all add: router_code_def npm_code_def appendConstructorArgs_layout arg_word_abi)

lemma runs_uni_DeployAll:
  assumes "\<And>name i j. runs (onProgress name i j) (\<lambda>r evs. True)"
  shows "runs (uni_DeployAllWithProgress nd lb uc d frm onProgress) (\<lambda>r evs. \<forall>c. r = Inr c \<longrightarrow>
    (\<exists>st. list_all (\<lambda>(k, code, a). uni_in_place lb d frm st evs k code a) (wiring uc c)))"
proof -
  note dep = runs_deployOrSkip [where onProgress = onProgress, OF assms]
  show ?thesis
    unfolding uni_DeployAllWithProgress_def Let_def
    by (rule runs_weaken, (rule run_rules dep)+)
      (auto simp: wiring_def codes_abi [symmetric], rule exI, intro conjI, (erule uni_in_place_mono, force)+)
qed


section \<open>Everything ends\<close>

definition node_answers :: "'s node \<Rightarrow> bool" where
  "node_answers nd \<longleftrightarrow> timers_fire nd \<and> (\<forall>a. returns (nd_GetNonce nd a)) \<and>
     (\<forall>s. 0 \<le> fst (nd_Now nd s) \<and> fst (nd_Now nd s) < 2 ^ 63)"

lemma returns_answers [returning]:
  "node_answers nd \<Longrightarrow> returns (get_nonce nd lb a)" "node_answers nd \<Longrightarrow> returns (await nd question)"
  by (auto simp: node_answers_def intro: returning)

lemma returns_sending [returning]:
  "returns (signAndSendReturnHash nd lb a tx)" "returns (sendTxReturnHash nd lb d a to data v n)" "returns (sendTx nd lb d a to data v n)"
  by (auto simp: signAndSendReturnHash_def sendTxReturnHash_def sendTx_def intro!: returning split: option.split)

lemma returns_sendTxAndWait [returning]: "node_answers nd \<Longrightarrow> returns (sendTxAndWaitForReceipt nd lb d a to data v n name)"
  by (auto simp: sendTxAndWaitForReceipt_def intro!: returning)

lemma returns_uni_DeployAll [returning]:
  "node_answers nd \<Longrightarrow> (\<And>name i j. returns (onProgress name i j)) \<Longrightarrow> returns (uni_DeployAllWithProgress nd lb uc d frm onProgress)"
  by (auto simp: uni_DeployAllWithProgress_def deployOrSkip_def deploy_code_def waitForDeploymentWithReceipt_def Let_def intro!: returning)

text \<open>The encoders do not panic on amounts of a word.\<close>

lemma encodes_amount:
  "u256 v \<Longrightarrow> EncodeMint k a v \<noteq> None" "u256 v \<Longrightarrow> EncodeInitialize k v \<noteq> None" "EncodeGetPool k a b fee \<noteq> None" "EncodeCreatePool k a b fee \<noteq> None"
proof -
  have f: "fill_at off 32 v data \<noteq> None" if "u256 v" for off v data
    using that by (auto simp: fill_at_def u256_def nat_less_iff)
  show "u256 v \<Longrightarrow> EncodeMint k a v \<noteq> None" "u256 v \<Longrightarrow> EncodeInitialize k v \<noteq> None"
    using f by (auto simp: EncodeMint_def encode_address_amount_def EncodeInitialize_def)
  have "u256 (uint fee)" by simp
  from f [OF this] show "EncodeGetPool k a b fee \<noteq> None" "EncodeCreatePool k a b fee \<noteq> None"
    unfolding EncodeGetPool_def EncodeCreatePool_def encode_pool_call_def by blast+
qed

definition amounts_fit :: "pool_config \<Rightarrow> bool" where
  "amounts_fit cfg \<longleftrightarrow> u256 (pc_SqrtPriceX96 cfg) \<and> u256 (pc_LiquidityWETH cfg) \<and> u256 (pc_LiquidityUSDC cfg)"

lemma encodes_position:
  assumes "amounts_fit cfg" "0 \<le> now" "now < 2 ^ 63"
  shows "EncodeMintPosition k (liquidity_params lb frm c cfg now) \<noteq> None"
proof -
  have f: "\<exists>z. fill_at off 32 v data = Some z" if "u256 v" for off v data
    using that by (auto simp: fill_at_def u256_def nat_less_iff)
  have "u256 (now + 3600)" "u256 0" using assms(2,3) by (simp_all add: u256_def)
  then show ?thesis
    using assms(1) f unfolding EncodeMintPosition_def liquidity_params_def amounts_fit_def
    by (auto simp: Let_def bind_eq_None_conv split: prod.split if_splits)
qed


lemma returns_pool [returning]:
  assumes "node_answers nd" "amounts_fit cfg" "\<And>name i j. returns (onProgress name i j)"
  shows "returns (CreateAndInitializePoolWithProgress nd lb d frm c cfg onProgress)"
proof -
  have query: "returns (query_pool nd lb c data cur)" for data cur
    by (auto simp: query_pool_def eth_call_def pool_text_def intro!: returning split: option.split)
  show ?thesis
    using assms(2)
    by (auto simp: CreateAndInitializePoolWithProgress_def find_or_create_pool_def initialize_pool_def Let_def amounts_fit_def
        intro!: returning assms query encodes_amount split: sum.split option.split)
qed

lemma andThen_observe: "on_node f w = (x, w') \<Longrightarrow> andThen (observe f) g w = g x w'"
  by (simp add: andThen_def observe_def)

lemma returns_add_liquidity [returning]:
  assumes "node_answers nd" "amounts_fit cfg"
  shows "returns (add_liquidity nd lb d frm c cfg n)"
proof -
  have probes: "returns (probe_all nd lb ps)" for ps
    by (induction ps rule: probe_all.induct [where ?P = "\<lambda>nd lb ps. returns (probe_all nd lb ps)"])
      (auto simp: eth_call_def intro!: returning)
  have "returns (trace_mint nd lb frm c data)" for data
    by (auto simp: trace_mint_def Let_def intro!: returning split: sum.split)
  then have rest: "returns (computed (EncodeMintPosition (cl_keccak lb) (liquidity_params lb frm c cfg now)) (\<lambda>mintData.
     andThen (probe_all nd lb (manager_probes lb c)) (\<lambda>_.
     andThen (trace_mint nd lb frm c mintData) (\<lambda>_.
     wrapped (Step ''add liquidity'')
       (sendTxAndWaitForReceipt nd lb d frm (dc_NonfungiblePositionManager c) mintData 0 n ''mintLiquidity'')))))"
    if "0 \<le> now" "now < 2 ^ 63" for now
    using encodes_position [OF assms(2) that, of "cl_keccak lb" lb frm c] assms(1) by (auto intro!: returning probes)
  have ends: "add_liquidity nd lb d frm c cfg n w \<noteq> None" for w
  proof -
    obtain now w1 where o: "on_node (nd_Now nd) w = (now, w1)" by fastforce
    then have "0 \<le> now" "now < 2 ^ 63" using assms(1) by (auto simp: node_answers_def on_node_parts)
    then have "0 \<le> now div 1000000000" "now div 1000000000 < 2 ^ 63" by auto
    note r = returns_run [OF returns_andThen [OF probes rest [OF this]]]
    show ?thesis unfolding add_liquidity_def andThen_observe [OF o] not_None_eq using r by auto
  qed
  show ?thesis unfolding returns_def by (rule allI) (rule ends)
qed

lemma returns_ProvisionLiquidity [returning]:
  "node_answers nd \<Longrightarrow> amounts_fit cfg \<Longrightarrow> returns (ProvisionLiquidity nd lb d frm c cfg)"
  using approve_encodes
  by (auto simp: ProvisionLiquidity_def fund_deployer_def Let_def amounts_fit_def intro!: returning encodes_amount)

lemma default_amounts: "amounts_fit (DefaultPoolConfig weth usdc)"
  by (simp add: amounts_fit_def DefaultPoolConfig_def u256_def)

lemma returns_setupAccount:
  "node_answers nd \<Longrightarrow> u256 (as_USDCAmount cfg) \<Longrightarrow> returns (setupAccountFireAndForget nd lb d c cfg a)"
  using approve_encodes by (auto simp: setupAccountFireAndForget_def Let_def intro!: returning encodes_amount)

lemma returns_check_samples: "returns (check_samples nd lb c cfg as)"
proof (induction "as")
  case (Cons a as)
  then show ?case by (auto simp: getTokenBalance_def eth_call_def intro!: returning)
qed (unfold check_samples.simps, rule returning)

lemma wait_batches_end: "node_answers nd \<Longrightarrow> \<exists>r evs. wait_batches nd env hashes bs = Some (r, evs)"
proof (induction bs)
  case (Cons b bs)
  have "those (map (\<lambda>i. waitForTxReceipt nd (hashes ! i) (fresh (se_waits env i))) b) \<noteq> None"
    by (intro those_total) (auto simp: waitForTxReceipt_def list_all_iff intro!: returns_run [OF returns_answers(2) [OF Cons.prems]])
  then show ?case using Cons by (fastforce simp: Let_def split: option.splits)
qed simp

lemma SetupAccounts_ends:
  assumes "node_answers nd" "u256 (as_USDCAmount cfg)"
  shows "\<exists>run. SetupAccounts nd lb d env accounts c cfg = Some run"
proof -
  let ?n = "length accounts"
  have "those (map (\<lambda>i. setupAccountFireAndForget nd lb d c cfg (accounts ! i) (fresh (se_sends env i))) [0..<?n]) \<noteq> None"
    by (intro those_total) (auto simp: list_all_iff intro!: returns_run [OF returns_setupAccount [OF assms]])
  then obtain outs where
    o: "those (map (\<lambda>i. setupAccountFireAndForget nd lb d c cfg (accounts ! i) (fresh (se_sends env i))) [0..<?n]) = Some outs"
    by auto
  define hs where "hs = map (\<lambda>out. case fst out of Inr h \<Rightarrow> h | Inl _ \<Rightarrow> '''') outs"
  obtain r waited where b: "wait_batches nd env hs (batches_of 20 [0..<?n]) = Some (r, waited)"
    using wait_batches_end [OF assms(1)] by blast
  obtain r' w where c: "check_samples nd lb c cfg (map (\<lambda>i. accounts ! i) (getSampleIndices ?n)) (fresh (se_checks env)) = Some (r', w)"
    using returns_run [OF returns_check_samples] by blast
  show ?thesis
    by (cases "first_failure (se_arrival env) (\<lambda>i. fst (outs ! i))"; cases r)
      (simp_all add: SetupAccounts_def Let_def o b c flip: hs_def)
qed

text \<open>
  C32: The preparation of Uniswap always comes to an end, with a result or an error: when nonces are decodable,
  the clock shows a date and the timers of the waits fire, the builder's deployment of contracts, pool and
  liquidity returns, and so does the setup of any number of accounts with amounts that fit a word, however
  its goroutines are scheduled.  A node that never includes a transaction cannot block it.
\<close>
theorem uniswap_preparation_ends:
  assumes "node_answers nd" "\<And>name i j. returns (onProgress name i j)" "u256 (as_USDCAmount (sb_setupConfig b))"
  shows "(\<exists>r w'. DeployContractsWithProgress nd lb uc frm chainID gasPrice onProgress b w = Some (r, w')) \<and>
    (\<exists>run. builder_SetupAccounts nd lb env accounts chainID gasPrice b = Some run)"
proof
  have "returns (DeployContractsWithProgress nd lb uc frm chainID gasPrice onProgress b)"
    by (auto simp: DeployContractsWithProgress_def Let_def intro!: returning assms default_amounts split: sum.split option.split)
  then show "\<exists>r w'. DeployContractsWithProgress nd lb uc frm chainID gasPrice onProgress b w = Some (r, w')" by (rule returns_run)
  show "\<exists>run. builder_SetupAccounts nd lb env accounts chainID gasPrice b = Some run"
    using SetupAccounts_ends [OF assms(1,3)] by (auto simp: builder_SetupAccounts_def)
qed


section \<open>Witnesses\<close>

definition demo_uni_node :: "(int \<times> nat) node" where
  "demo_uni_node = demo_node\<lparr>nd_Now := (\<lambda>s. (1700000000 * 10 ^ 9, s))\<rparr>"

lemma demo_answers: "node_answers demo_uni_node"
proof -
  have "timers_fire demo_uni_node"
    by (auto simp: timers_fire_def demo_uni_node_def demo_node_def intro!: exI [of _ 3])
  then show ?thesis by (auto simp: node_answers_def demo_uni_node_def demo_node_def returns_def)
qed

definition demo_contracts_at :: deployed_contracts where
  "demo_contracts_at = \<lparr>dc_WETH9 = 1, dc_USDC = 2, dc_Factory = 3, dc_SwapRouter = 4, dc_NonfungiblePositionManager = 5, dc_Pool = 6\<rparr>"

theorem liquidity_after_confirmed_funding_witness:
  "\<exists>r w' evs. ProvisionLiquidity demo_uni_node demo_lib (NewDeployer 1 10) 9 demo_contracts_at (DefaultPoolConfig 1 2) demo_world = Some (r, w') \<and>
     wd_trace w' = evs \<and> (r = Inr () \<longrightarrow> evs \<noteq> [])"
proof -
  obtain r w' where run: "ProvisionLiquidity demo_uni_node demo_lib (NewDeployer 1 10) 9 demo_contracts_at (DefaultPoolConfig 1 2) demo_world = Some (r, w')"
    using returns_run [OF returns_ProvisionLiquidity [OF demo_answers default_amounts]] by blast
  from liquidity_after_confirmed_funding [OF run] have "r = Inr () \<longrightarrow> wd_trace w' \<noteq> []"
    by (auto simp: demo_world_def liquidity_script_def funding_script_def)
  then show ?thesis using run by blast
qed

definition demo_env :: "(int \<times> nat) setup_env" where
  "demo_env = \<lparr>se_sends = (\<lambda>i. (0, i)), se_waits = (\<lambda>i. (0, i)), se_checks = (0, 0), se_arrival = [1, 0], se_batchArrival = rev\<rparr>"

theorem accounts_are_set_up_witness:
  "\<exists>run. SetupAccounts demo_uni_node demo_lib (NewDeployer 1 10) demo_env [7, 8] demo_contracts_at DefaultAccountSetupConfig = Some run \<and>
     length (sr_sends run) = 2"
proof -
  have "u256 (as_USDCAmount DefaultAccountSetupConfig)" by (simp add: DefaultAccountSetupConfig_def u256_def)
  from SetupAccounts_ends [OF demo_answers this] obtain run where
    run: "SetupAccounts demo_uni_node demo_lib (NewDeployer 1 10) demo_env [7, 8] demo_contracts_at DefaultAccountSetupConfig = Some run"
    by blast
  have "set (se_arrival demo_env) = {..<length [7, 8 :: address]}" "\<And>b. set (se_batchArrival demo_env b) = set b"
    by (auto simp: demo_env_def)
  from accounts_are_set_up [OF run _ this] run show ?thesis by simp
qed

definition quiet :: "('s, 'm) on_progress" where
  "quiet name i j = ret ()"

definition demo_code :: uni_code where
  "demo_code = \<lparr>uc_WETH9 = [1], uc_MockUSDC = [2], uc_Factory = [3], uc_SwapRouter = [4], uc_NPM = [5]\<rparr>"

lemma demo_wired:
  "\<exists>c w'. uni_DeployAllWithProgress demo_node demo_lib demo_code (NewDeployer 1 10) 9 quiet demo_world = Some (Inr c, w')"
proof -
  have n: "get_nonce demo_node demo_lib 9 demo_world = Some (Inr 5, demo_world)"
    by (simp add: get_nonce_def demo_node_def demo_world_def)
  have dep: "deployOrSkip demo_node demo_lib d frm quiet st k name code w =
      Some (Inr (ComputeContractAddress demo_lib frm (st + of_nat k)), note_event (CodeSeen (ComputeContractAddress demo_lib frm (st + of_nat k))) w)"
    if "fst (wd_node w) = 300 * 1000000" for d frm st k name code and w :: "(int \<times> nat) world"
    using that by (simp add: deployOrSkip_def either_def andThen_def demo_exists quiet_def Let_def)
  have "fst (wd_node demo_world) = 300 * 1000000" by (simp add: demo_world_def)
  then show ?thesis
    by (simp add: uni_DeployAllWithProgress_def andThen_def wrapped_def either_def n dep note_event_def Let_def)
qed


theorem uniswap_preparation_ends_witness:
  "\<exists>r w'. DeployContractsWithProgress demo_uni_node demo_lib demo_code 9 1 10 quiet
     (NewUniswapV3SwapBuilder\<lparr>sb_setupConfig := DefaultAccountSetupConfig\<rparr>) demo_world = Some (r, w')"
proof -
  let ?b = "NewUniswapV3SwapBuilder\<lparr>sb_setupConfig := DefaultAccountSetupConfig\<rparr>"
  have "returns (quiet name i j)" for name i j unfolding quiet_def by (rule returning)
  moreover have "u256 (as_USDCAmount (sb_setupConfig ?b))" by (simp add: DefaultAccountSetupConfig_def u256_def)
  ultimately show ?thesis using uniswap_preparation_ends [OF demo_answers, where b = ?b and onProgress = quiet] by blast
qed

end
