(* ===== verification/Contract_Setup.thy ===== *)
theory Contract_Setup
  imports Uni_Deploy Store
begin

text \<open>
  \<open>internal/loadgen/contracts.go\<close>: making sure the contracts a test needs are there, from the cache of an
  earlier start or by deploying them, with the deployers, the transaction builders, the account manager and
  the store of the other components.  The fields of the load generator it works on extend the world.
\<close>

section \<open>The load generator\<close>

record 's lg_world = "'s world" +
  lg_erc20 :: address
  lg_gasConsumer :: address
  lg_nft :: address
  lg_contractsDeployed :: bool
  lg_registry :: registry
  lg_manager :: manager
  lg_cache :: "database option"

type_synonym ('s, 'a) lg_action = "('s lg_world, deploy_err, 'a) action"

text \<open>
  What a call meets outside: the node, the contracts' byte code, the answers of the store's engine, the order
  in which Go iterates over a map, the goroutines of an account setup, the nonces of a resynchronisation.
\<close>

record 's lg_env =
  le_node :: "'s node"
  le_erc20 :: bytes
  le_gasConsumer :: bytes
  le_nft :: bytes
  le_code :: uni_code
  le_deployer :: chain_deployer
  le_chainID :: int
  le_gasPrice :: int
  le_now :: int
  le_load :: query_env
  le_loadAccounts :: query_env
  le_save :: "nat \<Rightarrow> string option"
  le_delete :: "string option"
  le_mark :: tx_env
  le_iterate :: "(string \<times> string) list \<Rightarrow> (string \<times> string) list"
  le_setup :: "'s setup_env"
  le_nonces :: "nat \<Rightarrow> rpc_err + u64"

definition with_world :: "('w \<Rightarrow> ('w, 'e, 'a) action) \<Rightarrow> ('w, 'e, 'a) action" where
  "with_world f = (\<lambda>w. f w w)"

definition change :: "('w \<Rightarrow> 'w) \<Rightarrow> ('w, 'e, unit) action" where
  "change f = call (\<lambda>w. (Inr (), f w))"

definition change_cache :: "(database \<Rightarrow> database) \<Rightarrow> ('s, unit) lg_action" where
  "change_cache f = change (\<lambda>w. w\<lparr>lg_cache := map_option f (lg_cache w)\<rparr>)"

section \<open>The builders\<close>

definition set_contract :: "transaction_type \<Rightarrow> address \<Rightarrow> registry \<Rightarrow> registry" where
  "set_contract ty a r = (case registry_Get ty r of Inl _ \<Rightarrow> r | Inr b \<Rightarrow> map_put ty (SetContractAddress a b) r)"

definition install_base :: "address \<Rightarrow> address \<Rightarrow> address \<Rightarrow> 's lg_world \<Rightarrow> 's lg_world" where
  "install_base erc20 gasConsumer nft w =
     w\<lparr>lg_erc20 := erc20, lg_gasConsumer := gasConsumer, lg_nft := nft, lg_contractsDeployed := True,
       lg_registry := set_contract TxTypeHeavyCompute gasConsumer (set_contract TxTypeStorageWrite gasConsumer
         (set_contract TxTypeERC721Transfer nft (set_contract TxTypeERC20Approve erc20
           (set_contract TxTypeERC20Transfer erc20 (lg_registry w)))))\<rparr>"

definition put_swap :: "transaction_type \<Rightarrow> swap_builder \<Rightarrow> 's lg_world \<Rightarrow> 's lg_world" where
  "put_swap ty b w = w\<lparr>lg_registry := map_put ty (UniswapV3SwapBuilder b) (lg_registry w)\<rparr>"

section \<open>The cache\<close>

fun save_contracts :: "(nat \<Rightarrow> string option) \<Rightarrow> nat \<Rightarrow> cached_contract list \<Rightarrow> database \<Rightarrow> database" where
  "save_contracts io k [] db = db"
| "save_contracts io k (c # cs) db = save_contracts io (k + 1) cs (snd (SaveCachedContract (io k) c db))"

definition cache_entry :: "'s lg_env \<Rightarrow> 'g chain_lib \<Rightarrow> string \<times> address \<Rightarrow> cached_contract" where
  "cache_entry env lb = (\<lambda>(name, a).
     \<lparr>cc_Name = name, cc_Address = cl_hex lb a, cc_ChainID = le_chainID env, cc_CreatedAt = le_now env\<rparr>)"

definition base_names :: "'s lg_world \<Rightarrow> (string \<times> address) list" where
  "base_names w = [(''ERC20'', lg_erc20 w), (''GasConsumer'', lg_gasConsumer w), (''NFT'', lg_nft w)]"

definition uniswap_names :: "deployed_contracts \<Rightarrow> (string \<times> address) list" where
  "uniswap_names c =
     [(''uniswap:WETH9'', dc_WETH9 c), (''uniswap:USDC'', dc_USDC c), (''uniswap:Factory'', dc_Factory c),
      (''uniswap:SwapRouter'', dc_SwapRouter c), (''uniswap:NonfungiblePositionManager'', dc_NonfungiblePositionManager c),
      (''uniswap:Pool'', dc_Pool c)]"

definition saveBaseContractsToCache :: "'s lg_env \<Rightarrow> 'g chain_lib \<Rightarrow> ('s, unit) lg_action" where
  "saveBaseContractsToCache env lb =
     with_world (\<lambda>w. change_cache (save_contracts (le_save env) 0 (map (cache_entry env lb) (base_names w))))"

definition saveUniswapContractsToCache :: "'s lg_env \<Rightarrow> 'g chain_lib \<Rightarrow> swap_builder \<Rightarrow> ('s, unit) lg_action" where
  "saveUniswapContractsToCache env lb b =
     change_cache (save_contracts (le_save env) 0 (map (cache_entry env lb) (uniswap_names (sb_contracts b))))"

definition drop_cached_contracts :: "'s lg_env \<Rightarrow> ('s, unit) lg_action" where
  "drop_cached_contracts env = change_cache (\<lambda>db. snd (DeleteCachedContracts (le_delete env) (le_chainID env) db))"

definition mark_ready :: "'s lg_env \<Rightarrow> 'g chain_lib \<Rightarrow> test_account list \<Rightarrow> ('s, unit) lg_action" where
  "mark_ready env lb accs =
     change_cache (\<lambda>db. snd (MarkAccountsUniswapReady (le_mark env) (le_chainID env) (map (cl_hex lb \<circ> ta_addr) accs) db))"

text \<open>The setup of accounts; the goroutines' events are appended account by account.\<close>

definition setup_accounts :: "'s lg_env \<Rightarrow> 'g chain_lib \<Rightarrow> swap_builder \<Rightarrow> test_account list \<Rightarrow> ('s, unit) lg_action" where
  "setup_accounts env lb b accs =
     computed (builder_SetupAccounts (le_node env) lb (le_setup env) (map ta_addr accs) (le_chainID env) (le_gasPrice env) b) (\<lambda>run.
       call (\<lambda>w. (sr_result run, w\<lparr>wd_trace := wd_trace w @ concat (sr_sends run) @ concat (sr_waits run) @ sr_checks run\<rparr>)))"

definition resync_nonces :: "'s lg_env \<Rightarrow> nat \<Rightarrow> ('s, unit) lg_action" where
  "resync_nonces env total_n =
     with_world (\<lambda>w. computed (InitializeNoncesFromChain (le_nonces env) total_n (lg_manager w)) (\<lambda>(e, m).
       andThen (change (\<lambda>w. w\<lparr>lg_manager := m\<rparr>)) (\<lambda>_.
         case e of Some e \<Rightarrow> throw (Step ''resync nonces'' (NodeErr e)) | None \<Rightarrow> ret ())))"

section \<open>Restoring from the cache\<close>

text \<open>Only a failed resynchronisation is an error; a failed load or setup is a warning.\<close>

definition setupUniswapAccountsFromCache :: "'s lg_env \<Rightarrow> 'g chain_lib \<Rightarrow> swap_builder \<Rightarrow> ('s, unit) lg_action" where
  "setupUniswapAccountsFromCache env lb b =
     with_world (\<lambda>w.
       case lg_cache w of None \<Rightarrow> (\<lambda>w. None)
       | Some db \<Rightarrow>
         (case LoadCachedAccounts (le_loadAccounts env) (le_chainID env) db of
            Inl _ \<Rightarrow> ret ()
          | Inr cached \<Rightarrow>
              computed (those (mg_dynamic (lg_manager w))) (\<lambda>dyn.
                let ready = ca_Address ` set (filter ca_UniswapReady cached);
                    needSetup = filter (\<lambda>a. cl_hex lb (ta_addr a) \<notin> ready) (mg_accounts (lg_manager w) @ dyn) in
                if needSetup = [] then ret ()
                else
                  either (setup_accounts env lb b needSetup) (\<lambda>r. case r of
                      Inl _ \<Rightarrow> ret ()
                    | Inr _ \<Rightarrow>
                        andThen (wrapped (Step ''resync nonces after incremental Uniswap setup'')
                          (resync_nonces env (length (mg_accounts (lg_manager w)) + length dyn)))
                          (\<lambda>_. mark_ready env lb needSetup)))))"

definition cached_map :: "cached_contract list \<Rightarrow> (string \<times> string) list" where
  "cached_map cached = fold (\<lambda>c. map_put (cc_Name c) (cc_Address c)) cached []"

definition uniswap_of :: "(string, address) gomap \<Rightarrow> deployed_contracts option" where
  "uniswap_of valid =
     (case map (\<lambda>n. map_get valid n) [''uniswap:WETH9'', ''uniswap:USDC'', ''uniswap:Factory'', ''uniswap:SwapRouter'',
        ''uniswap:NonfungiblePositionManager'', ''uniswap:Pool''] of
        [Some weth, Some usdc, Some factory, Some router, Some npm, Some poolAddr] \<Rightarrow>
          Some \<lparr>dc_WETH9 = weth, dc_USDC = usdc, dc_Factory = factory, dc_SwapRouter = router,
            dc_NonfungiblePositionManager = npm, dc_Pool = poolAddr\<rparr>
      | _ \<Rightarrow> None)"

definition restore_uniswap ::
  "'s lg_env \<Rightarrow> 'g chain_lib \<Rightarrow> transaction_type \<Rightarrow> swap_builder \<Rightarrow> (string, address) gomap \<Rightarrow> ('s, bool) lg_action" where
  "restore_uniswap env lb ty b valid =
     (case uniswap_of valid of
        None \<Rightarrow>
          andThen (drop_cached_contracts env) (\<lambda>_.
          andThen (change (\<lambda>w. w\<lparr>lg_contractsDeployed := False\<rparr>)) (\<lambda>_. ret False))
      | Some c \<Rightarrow>
          andThen (change (put_swap ty (RestoreContracts c b))) (\<lambda>_.
          andThen (setupUniswapAccountsFromCache env lb (RestoreContracts c b)) (\<lambda>_. ret True)))"

text \<open>\<open>need\<close> is the swap builder when its contracts are needed.\<close>

definition tryRestoreCachedContracts ::
  "'s lg_env \<Rightarrow> 'g chain_lib \<Rightarrow> transaction_type \<Rightarrow> swap_builder option \<Rightarrow> ('s, bool) lg_action" where
  "tryRestoreCachedContracts env lb ty need =
     with_world (\<lambda>w.
       case lg_cache w of None \<Rightarrow> (\<lambda>w. None)
       | Some db \<Rightarrow>
         (case LoadCachedContracts (le_load env) (le_chainID env) db of
            Inl _ \<Rightarrow> ret False
          | Inr cached \<Rightarrow>
              if cached = [] then ret False
              else
                andThen (ValidateCachedContracts (le_node env) lb (le_iterate env (cached_map cached))) (\<lambda>(valid, invalid).
                if invalid \<noteq> [] then andThen (drop_cached_contracts env) (\<lambda>_. ret False)
                else
                  (case (map_get valid ''ERC20'', map_get valid ''GasConsumer'', map_get valid ''NFT'') of
                     (Some erc20, Some gasConsumer, Some nft) \<Rightarrow>
                       andThen (change (install_base erc20 gasConsumer nft)) (\<lambda>_.
                       case need of None \<Rightarrow> ret True | Some b \<Rightarrow> restore_uniswap env lb ty b valid)
                   | _ \<Rightarrow> andThen (drop_cached_contracts env) (\<lambda>_. ret False)))))"

section \<open>Deploying\<close>

text \<open>The progress callbacks only store a number and a text to display.\<close>

definition show_progress :: "int \<Rightarrow> ('s, 'm) on_progress" where
  "show_progress offset name k total_n = emit (Reported name (offset + k) total_n)"

definition deploy_uniswap ::
  "'s lg_env \<Rightarrow> 'g chain_lib \<Rightarrow> transaction_type \<Rightarrow> swap_builder \<Rightarrow> address \<Rightarrow> ('s, unit) lg_action" where
  "deploy_uniswap env lb ty b frm =
     andThen (DeployContractsWithProgress (le_node env) lb (le_code env) frm (le_chainID env) (le_gasPrice env) (show_progress 0) b) (\<lambda>(b', err).
     andThen (change (put_swap ty b')) (\<lambda>_.
     case err of
       Some e \<Rightarrow> throw (Step ''failed to deploy Uniswap V3 contracts'' e)
     | None \<Rightarrow>
         with_world (\<lambda>w.
           computed (those (mg_dynamic (lg_manager w))) (\<lambda>dyn.
             let accs = mg_accounts (lg_manager w) @ dyn in
             andThen (wrapped (Step ''failed to setup accounts for Uniswap'') (setup_accounts env lb b' accs)) (\<lambda>_.
             andThen (observe (nd_Sleep (le_node env) (5 * 1000000000))) (\<lambda>_.
             andThen (wrapped (Step ''failed to resync nonces after Uniswap setup'') (resync_nonces env (length accs))) (\<lambda>_.
             andThen (saveUniswapContractsToCache env lb b') (\<lambda>_. mark_ready env lb dyn))))))))"

definition deploy_base :: "'s lg_env \<Rightarrow> 'g chain_lib \<Rightarrow> address \<Rightarrow> ('s, unit) lg_action" where
  "deploy_base env lb frm =
     andThen (DeployAllWithProgress (le_node env) lb (le_deployer env) frm
       (base_contracts (le_erc20 env) (le_gasConsumer env) (le_nft env))) (\<lambda>(results, err).
     case err of
       Some e \<Rightarrow> throw (Step ''failed to deploy contracts'' e)
     | None \<Rightarrow>
         let found = (\<lambda>name. case map_get results name of None \<Rightarrow> 0 | Some a \<Rightarrow> a) in
         andThen (change (install_base (found ''ERC20'') (found ''GasConsumer'') (found ''NFT''))) (\<lambda>_. saveBaseContractsToCache env lb))"

definition ensureContractsDeployed :: "'s lg_env \<Rightarrow> 'g chain_lib \<Rightarrow> transaction_type \<Rightarrow> ('s, unit) lg_action" where
  "ensureContractsDeployed env lb txType =
     (if txType = TxTypeEthTransfer then ret ()
      else with_world (\<lambda>w.
        let need = (case GetComplexBuilder txType (lg_registry w) of None \<Rightarrow> None | Some b \<Rightarrow> if sb_deployed b then None else Some b) in
        if lg_contractsDeployed w \<and> need = None then ret ()
        else
          (case mg_accounts (lg_manager w) of
             [] \<Rightarrow> throw NoAccounts
           | a # _ \<Rightarrow>
               andThen (if lg_cache w \<noteq> None \<and> \<not> lg_contractsDeployed w then tryRestoreCachedContracts env lb txType need else ret False)
                 (\<lambda>restored.
               if restored then ret ()
               else
                 andThen (case need of None \<Rightarrow> ret () | Some b \<Rightarrow> deploy_uniswap env lb txType b (ta_addr a)) (\<lambda>_.
                 with_world (\<lambda>w. if lg_contractsDeployed w then ret () else deploy_base env lb (ta_addr a)))))))"


section \<open>The contracts are ready\<close>

text \<open>What an action makes of the fields: from worlds with \<open>P\<close> it ends in worlds with \<open>Q\<close> of its result.\<close>

definition turns :: "('w \<Rightarrow> bool) \<Rightarrow> ('w, 'e, 'a) action \<Rightarrow> ('e + 'a \<Rightarrow> 'w \<Rightarrow> bool) \<Rightarrow> bool" where
  "turns P m Q \<longleftrightarrow> (\<forall>w r w'. P w \<longrightarrow> m w = Some (r, w') \<longrightarrow> Q r w')"

named_theorems turn_rules "what actions make of the fields of the load generator"

lemma turnsD: "turns P m Q \<Longrightarrow> P w \<Longrightarrow> m w = Some (r, w') \<Longrightarrow> Q r w'"
  by (simp add: turns_def)

lemma turns_weaken: "turns P m Q' \<Longrightarrow> (\<And>r w. Q' r w \<Longrightarrow> Q r w) \<Longrightarrow> turns P m Q"
  by (auto simp: turns_def)

lemma turns_ret [turn_rules]: "(\<And>w. P w \<Longrightarrow> Q (Inr x) w) \<Longrightarrow> turns P (ret x) Q"
  by (auto simp: turns_def)

lemma turns_throw [turn_rules]: "(\<And>w. P w \<Longrightarrow> Q (Inl e) w) \<Longrightarrow> turns P (throw e) Q"
  by (auto simp: turns_def)

lemma turns_pre: "turns P' m Q \<Longrightarrow> (\<And>w. P w \<Longrightarrow> P' w) \<Longrightarrow> turns P m Q"
  by (auto simp: turns_def)

lemma turns_change [turn_rules]: "(\<And>w. P w \<Longrightarrow> Q (Inr ()) (f w)) \<Longrightarrow> turns P (change f) Q"
  by (auto simp: turns_def change_def)

lemma turns_with_world [turn_rules]: "(\<And>w. P w \<Longrightarrow> turns (\<lambda>u. u = w \<and> P u) (f w) Q) \<Longrightarrow> turns P (with_world f) Q"
  by (auto simp: turns_def with_world_def)

lemma turns_computed [turn_rules]: "(\<And>v. x = Some v \<Longrightarrow> turns P (f v) Q) \<Longrightarrow> turns P (computed x f) Q"
  by (cases x) (simp_all add: turns_def)

lemma turns_andThen:
  assumes "turns P m (\<lambda>r w. case r of Inl e \<Rightarrow> Q (Inl e) w | Inr x \<Rightarrow> R x w)" "\<And>x. turns (R x) (f x) Q"
  shows "turns P (andThen m f) Q"
  using assms unfolding turns_def andThen_Some by (fastforce split: sum.splits)

lemma turns_either:
  assumes "turns P m R" "\<And>x. turns (R x) (f x) Q"
  shows "turns P (either m f) Q"
  using assms unfolding turns_def either_Some by blast

lemma turns_wrapped: "turns P m (\<lambda>r w. case r of Inl e \<Rightarrow> Q (Inl (g e)) w | Inr x \<Rightarrow> Q (Inr x) w) \<Longrightarrow> turns P (wrapped g m) Q"
  unfolding turns_def wrapped_Some by (fastforce split: sum.splits)

text \<open>The deployers leave the fields alone.\<close>

definition same_fields :: "('s, 'm) world_scheme \<Rightarrow> ('s, 'm) world_scheme \<Rightarrow> bool" where
  "same_fields w w' \<longleftrightarrow> world.more w' = world.more w"

lemma same_fields_iff:
  "same_fields w w' \<longleftrightarrow> w' = w\<lparr>wd_node := wd_node w', wd_trace := wd_trace w'\<rparr>"
proof
  obtain n t m where w: "w = \<lparr>wd_node = n, wd_trace = t, \<dots> = m\<rparr>" by (rule world.cases_scheme)
  obtain n' t' m' where w': "w' = \<lparr>wd_node = n', wd_trace = t', \<dots> = m'\<rparr>" by (rule world.cases_scheme)
  show "same_fields w w' \<Longrightarrow> w' = w\<lparr>wd_node := wd_node w', wd_trace := wd_trace w'\<rparr>"
    by (simp add: same_fields_def w w')
  show "w' = w\<lparr>wd_node := wd_node w', wd_trace := wd_trace w'\<rparr> \<Longrightarrow> same_fields w w'"
    by (simp add: same_fields_def w w')
qed

lemma same_fields_obtain:
  assumes "same_fields w w'"
  obtains n t where "w' = w\<lparr>wd_node := n, wd_trace := t\<rparr>"
  using assms same_fields_iff by blast

lemma same_fields_lg:
  assumes "same_fields w (w' :: 's lg_world)"
  shows "lg_erc20 w' = lg_erc20 w \<and> lg_gasConsumer w' = lg_gasConsumer w \<and> lg_nft w' = lg_nft w \<and>
    lg_contractsDeployed w' = lg_contractsDeployed w \<and> lg_registry w' = lg_registry w \<and> lg_manager w' = lg_manager w \<and>
    lg_cache w' = lg_cache w"
proof -
  obtain n t where w': "w' = w\<lparr>wd_node := n, wd_trace := t\<rparr>" by (rule same_fields_obtain [OF assms])
  show ?thesis unfolding w' by simp
qed

text \<open>The recorded addresses and the targets of the builders agree.\<close>

definition targets_agree :: "'s lg_world \<Rightarrow> bool" where
  "targets_agree w \<longleftrightarrow>
     (\<forall>b. map_get (lg_registry w) TxTypeERC20Transfer = Some b \<longrightarrow> target b = lg_erc20 w) \<and>
     (\<forall>b. map_get (lg_registry w) TxTypeERC20Approve = Some b \<longrightarrow> target b = lg_erc20 w) \<and>
     (\<forall>b. map_get (lg_registry w) TxTypeERC721Transfer = Some b \<longrightarrow> target b = lg_nft w) \<and>
     (\<forall>b. map_get (lg_registry w) TxTypeStorageWrite = Some b \<longrightarrow> target b = lg_gasConsumer w) \<and>
     (\<forall>b. map_get (lg_registry w) TxTypeHeavyCompute = Some b \<longrightarrow> target b = lg_gasConsumer w)"

text \<open>Every builder is registered under its type.\<close>

definition registry_ok :: "'s lg_world \<Rightarrow> bool" where
  "registry_ok w \<longleftrightarrow> (\<forall>ty b. map_get (lg_registry w) ty = Some b \<longrightarrow> builder_Type b = ty)"

text \<open>The node has shown code at an address.\<close>

definition shown :: "('s, 'm) world_scheme \<Rightarrow> address \<Rightarrow> bool" where
  "shown w a \<longleftrightarrow> CodeSeen a \<in> set (wd_trace w)"

definition contracts_ok :: "'s lg_world \<Rightarrow> bool" where
  "contracts_ok w \<longleftrightarrow> registry_ok w \<and>
     (lg_contractsDeployed w \<longrightarrow> targets_agree w \<and> shown w (lg_erc20 w) \<and> shown w (lg_gasConsumer w) \<and> shown w (lg_nft w))"

lemma builder_Type_set [simp]: "builder_Type (SetContractAddress a b) = builder_Type b"
  by (cases b) simp_all

lemma set_contract_get:
  "map_get (set_contract ty a r) ty' = (if ty' = ty then map_option (SetContractAddress a) (map_get r ty) else map_get r ty')"
  by (auto simp: set_contract_def registry_Get_def split: option.split)

lemma target_set: "builder_Type b \<noteq> TxTypeEthTransfer \<Longrightarrow> builder_Type b \<noteq> TxTypeUniswapSwap \<Longrightarrow> target (SetContractAddress a b) = a"
  by (cases b) simp_all

lemma install_base_ok:
  "registry_ok w \<Longrightarrow> shown w e \<Longrightarrow> shown w g \<Longrightarrow> shown w n \<Longrightarrow>
   contracts_ok (install_base e g n w) \<and> lg_contractsDeployed (install_base e g n w)"
  by (auto simp: contracts_ok_def shown_def registry_ok_def targets_agree_def install_base_def set_contract_get target_set split: if_splits)

text \<open>The swap builder of a type, when it has one, has its contracts.\<close>

definition swap_ok :: "transaction_type \<Rightarrow> 's lg_world \<Rightarrow> bool" where
  "swap_ok ty w \<longleftrightarrow> (\<forall>b. GetComplexBuilder ty (lg_registry w) = Some b \<longrightarrow> sb_deployed b)"

text \<open>What holds while the contracts are being prepared for a type whose swap builder is \<open>need\<close>.\<close>

definition preparing :: "transaction_type \<Rightarrow> swap_builder option \<Rightarrow> 's lg_world \<Rightarrow> bool" where
  "preparing ty need w \<longleftrightarrow> contracts_ok w \<and> (if need = None then swap_ok ty w else ty = TxTypeUniswapSwap)"

definition contracts_of :: "'s lg_world \<Rightarrow> address \<times> address \<times> address \<times> bool \<times> registry" where
  "contracts_of w = (lg_erc20 w, lg_gasConsumer w, lg_nft w, lg_contractsDeployed w, lg_registry w)"

text \<open>Predicates of the contracts that survive more events.\<close>

definition goes_on :: "'s lg_world \<Rightarrow> 's lg_world \<Rightarrow> bool" where
  "goes_on w w' \<longleftrightarrow> contracts_of w' = contracts_of w \<and> set (wd_trace w) \<subseteq> set (wd_trace w')"

definition about_contracts :: "('s lg_world \<Rightarrow> bool) \<Rightarrow> bool" where
  "about_contracts P \<longleftrightarrow> (\<forall>w w'. goes_on w w' \<longrightarrow> P w \<longrightarrow> P w')"

lemma about_contractsD: "about_contracts P \<Longrightarrow> P w \<Longrightarrow> goes_on w w' \<Longrightarrow> P w'"
  unfolding about_contracts_def by blast

lemma about_contracts_intros [intro, simp]:
  "about_contracts lg_contractsDeployed" "about_contracts (\<lambda>w. \<not> lg_contractsDeployed w)" "about_contracts (\<lambda>w. c)"
  "about_contracts (swap_ok ty)" "about_contracts (\<lambda>w. shown w a)"
  unfolding about_contracts_def goes_on_def contracts_of_def swap_ok_def shown_def by auto

lemma goes_on_contracts: "goes_on w w' \<Longrightarrow> contracts_ok w \<Longrightarrow> contracts_ok w'"
  by (auto simp: goes_on_def contracts_of_def contracts_ok_def registry_ok_def targets_agree_def shown_def)

lemma about_contracts_ok [intro, simp]: "about_contracts contracts_ok"
  unfolding about_contracts_def using goes_on_contracts by blast

lemma about_contracts_both [intro]: "about_contracts P \<Longrightarrow> about_contracts Q \<Longrightarrow> about_contracts (\<lambda>w. P w \<and> Q w)"
  unfolding about_contracts_def by blast

lemma about_contracts_preparing [intro, simp]: "about_contracts (preparing ty need)"
  unfolding preparing_def by (cases need) auto

lemma goes_on_outside:
  assumes "runs m R" "m w = Some (r, w')"
  shows "goes_on w w'"
proof -
  obtain evs where ext: "extends w evs w'" using runsD [OF assms] by blast
  then have "same_fields w w'" by (simp add: same_fields_def extends_def)
  then have "contracts_of w' = contracts_of w" using same_fields_lg unfolding contracts_of_def by blast
  then show ?thesis using ext by (simp add: goes_on_def extends_def)
qed

lemma turns_runs: "runs m R \<Longrightarrow> about_contracts P \<Longrightarrow> turns P m (\<lambda>r. P)"
  unfolding turns_def using goes_on_outside about_contractsD by blast

text \<open>What it returns may be described by the events it adds.\<close>

lemma turns_runs_events:
  assumes "runs m R" "about_contracts P" "\<And>r evs w. R r evs \<Longrightarrow> set evs \<subseteq> set (wd_trace w) \<Longrightarrow> P w \<Longrightarrow> Q r w"
  shows "turns P m Q"
  unfolding turns_def
proof (intro allI impI)
  fix w r w' assume P: "P w" and m: "m w = Some (r, w')"
  obtain evs where "extends w evs w'" "R r evs" using runsD [OF assms(1) m] by blast
  moreover have "P w'" by (rule about_contractsD [OF assms(2) P goes_on_outside [OF assms(1) m]])
  ultimately show "Q r w'" using assms(3) by (simp add: extends_def)
qed

lemma turns_change_cache: "about_contracts P \<Longrightarrow> turns P (change_cache f) (\<lambda>r. P)"
  unfolding change_cache_def by (rule turns_change) (erule about_contractsD, assumption, simp add: goes_on_def contracts_of_def)

lemma turns_setup_accounts:
  assumes "about_contracts P"
  shows "turns P (setup_accounts env lb b accs) (\<lambda>r. P)"
  unfolding turns_def setup_accounts_def computed_Some call_run
proof (intro allI impI, elim exE conjE)
  fix w r w' run assume "P w" and
    "Some (sr_result run, w\<lparr>wd_trace := wd_trace w @ concat (sr_sends run) @ concat (sr_waits run) @ sr_checks run\<rparr>) = Some (r, w')"
  then show "P w'" using about_contractsD [OF assms \<open>P w\<close>] by (auto simp: goes_on_def contracts_of_def)
qed

lemma turns_seq:
  assumes "turns P m (\<lambda>r. P)" "\<And>e w. P w \<Longrightarrow> Q (Inl e) w" "\<And>x. turns P (f x) Q"
  shows "turns P (andThen m f) Q"
  by (rule turns_andThen [where R = "\<lambda>x. P"], rule turns_weaken [OF assms(1)])
    (use assms(2,3) in \<open>auto split: sum.split\<close>)

text \<open>Actions that keep a predicate: one rule per construct.\<close>

named_theorems keep_rules "actions that keep a predicate"

lemma keep_ret [keep_rules]: "turns P (ret x) (\<lambda>r. P)" by (simp add: turns_def)

lemma keep_throw [keep_rules]: "turns P (throw e) (\<lambda>r. P)" by (simp add: turns_def)

lemma keep_panic [keep_rules]: "turns P (\<lambda>w. None) Q" by (simp add: turns_def)

lemma keep_andThen [keep_rules]: "turns P m (\<lambda>r. P) \<Longrightarrow> (\<And>x. turns P (f x) (\<lambda>r. P)) \<Longrightarrow> turns P (andThen m f) (\<lambda>r. P)"
  by (rule turns_seq)

lemma keep_either [keep_rules]: "turns P m (\<lambda>r. P) \<Longrightarrow> (\<And>x. turns P (f x) (\<lambda>r. P)) \<Longrightarrow> turns P (either m f) (\<lambda>r. P)"
  by (rule turns_either)

lemma keep_wrapped [keep_rules]: "turns P m (\<lambda>r. P) \<Longrightarrow> turns P (wrapped g m) (\<lambda>r. P)"
  unfolding turns_def wrapped_Some by blast

lemma keep_computed [keep_rules]: "(\<And>v. turns P (f v) Q) \<Longrightarrow> turns P (computed x f) Q"
  by (rule turns_computed)

lemma keep_with_world [keep_rules]: "(\<And>w. P w \<Longrightarrow> turns P (f w) Q) \<Longrightarrow> turns P (with_world f) Q"
  unfolding turns_def with_world_def by blast

lemma keep_if [keep_rules]: "(c \<Longrightarrow> turns P m Q) \<Longrightarrow> (\<not> c \<Longrightarrow> turns P m' Q) \<Longrightarrow> turns P (if c then m else m') Q"
  by simp

lemma keep_option [keep_rules]:
  "(x = None \<Longrightarrow> turns P m Q) \<Longrightarrow> (\<And>v. x = Some v \<Longrightarrow> turns P (f v) Q) \<Longrightarrow> turns P (case x of None \<Rightarrow> m | Some v \<Rightarrow> f v) Q"
  by (cases x) simp_all

lemma keep_sum [keep_rules]:
  "(\<And>e. x = Inl e \<Longrightarrow> turns P (f e) Q) \<Longrightarrow> (\<And>v. x = Inr v \<Longrightarrow> turns P (g v) Q) \<Longrightarrow> turns P (case x of Inl e \<Rightarrow> f e | Inr v \<Rightarrow> g v) Q"
  by (cases x) simp_all

lemma keep_pair [keep_rules]: "(\<And>a b. turns P (f a b) Q) \<Longrightarrow> turns P (case x of (a, b) \<Rightarrow> f a b) Q"
  by (cases x) simp

lemma turns_resync_nonces: "about_contracts P \<Longrightarrow> turns P (resync_nonces env total_n) (\<lambda>r. P)"
  unfolding resync_nonces_def
  by (intro keep_rules turns_change) (erule about_contractsD, assumption, simp add: goes_on_def contracts_of_def)

lemma turns_setupUniswapAccountsFromCache: "about_contracts P \<Longrightarrow> turns P (setupUniswapAccountsFromCache env lb b) (\<lambda>r. P)"
  unfolding setupUniswapAccountsFromCache_def mark_ready_def Let_def
  by (intro keep_rules turns_setup_accounts turns_resync_nonces turns_change_cache)

text \<open>What the two changes of the builders establish.\<close>

lemma set_contract_keeps_swap [simp]: "GetComplexBuilder ty (set_contract ty' a r) = GetComplexBuilder ty r"
proof (cases "map_get r ty'")
  case (Some b)
  then show ?thesis by (cases b) (auto simp: GetComplexBuilder_def set_contract_get)
qed (simp add: set_contract_def registry_Get_def)

lemma install_base_preparing:
  "preparing ty need w \<Longrightarrow> shown w e \<Longrightarrow> shown w g \<Longrightarrow> shown w n \<Longrightarrow>
   preparing ty need (install_base e g n w) \<and> lg_contractsDeployed (install_base e g n w)"
  using install_base_ok [of w e g n]
  by (auto simp: preparing_def contracts_ok_def swap_ok_def install_base_def split: if_splits)

lemma put_swap_preparing:
  assumes "contracts_ok w"
  shows "contracts_ok (put_swap TxTypeUniswapSwap b w) \<and> lg_contractsDeployed (put_swap TxTypeUniswapSwap b w) = lg_contractsDeployed w \<and>
    swap_ok TxTypeUniswapSwap (put_swap TxTypeUniswapSwap b w) = sb_deployed b"
  using assms by (auto simp: contracts_ok_def registry_ok_def targets_agree_def put_swap_def swap_ok_def GetComplexBuilder_def shown_def)

text \<open>The outcome of a step that is to make the contracts ready: \<open>done\<close> of its result says that they are.\<close>

definition settled :: "transaction_type \<Rightarrow> swap_builder option \<Rightarrow> ('r \<Rightarrow> bool) \<Rightarrow> 'r \<Rightarrow> 's lg_world \<Rightarrow> bool" where
  "settled ty need fin r w \<longleftrightarrow> preparing ty need w \<and> (fin r \<longrightarrow> lg_contractsDeployed w \<and> swap_ok ty w)"

lemma settled_error [simp]: "\<not> fin r \<Longrightarrow> settled ty need fin r w = preparing ty need w"
  by (simp add: settled_def)

lemma settled_keep:
  "turns (\<lambda>w. preparing ty need w \<and> lg_contractsDeployed w \<and> swap_ok ty w) m (\<lambda>r w. preparing ty need w \<and> lg_contractsDeployed w \<and> swap_ok ty w) \<Longrightarrow>
   turns (\<lambda>w. preparing ty need w \<and> lg_contractsDeployed w \<and> swap_ok ty w) m (settled ty need fin)"
  by (erule turns_weaken) (simp add: settled_def)

lemma undeployed_ok: "contracts_ok w \<Longrightarrow> contracts_ok (w\<lparr>lg_contractsDeployed := False\<rparr>)"
  by (simp add: contracts_ok_def registry_ok_def)

lemma turns_restore_uniswap:
  assumes "ty = TxTypeUniswapSwap"
  shows "turns (\<lambda>w. preparing ty (Some b0) w \<and> lg_contractsDeployed w) (restore_uniswap env lb ty b valid) (settled ty (Some b0) (\<lambda>r. r = Inr True))"
proof (cases "uniswap_of valid")
  case None
  show ?thesis unfolding restore_uniswap_def drop_cached_contracts_def using None
    by (auto simp: settled_def preparing_def undeployed_ok intro!: turns_seq turns_change_cache about_contracts_both turns_andThen
        [where m = "change _" and R = "\<lambda>_. preparing ty (Some b0)"] turns_change turns_ret)
next
  case (Some c)
  show ?thesis unfolding restore_uniswap_def Some option.case
  proof (rule turns_andThen [where R = "\<lambda>_ w. preparing ty (Some b0) w \<and> lg_contractsDeployed w \<and> swap_ok ty w"], rule turns_change)
    show "preparing ty (Some b0) w \<and> lg_contractsDeployed w \<Longrightarrow>
      case Inr () of Inl e \<Rightarrow> settled ty (Some b0) (\<lambda>r. r = Inr True) (Inl e) (put_swap ty (RestoreContracts c b) w)
      | Inr x \<Rightarrow> preparing ty (Some b0) (put_swap ty (RestoreContracts c b) w) \<and>
          lg_contractsDeployed (put_swap ty (RestoreContracts c b) w) \<and> swap_ok ty (put_swap ty (RestoreContracts c b) w)" for w
      using put_swap_preparing [of w "RestoreContracts c b"] assms by (simp add: preparing_def RestoreContracts_def)
  qed (rule settled_keep, intro keep_rules turns_setupUniswapAccountsFromCache about_contracts_both about_contracts_intros about_contracts_preparing)
qed

text \<open>The cache gives addresses the node has just shown code at.\<close>

lemma runs_ValidateCachedContracts:
  "runs (ValidateCachedContracts nd lb xs :: ('s, 'm, (string, address) gomap \<times> string list) chain_action)
     (\<lambda>r evs. \<forall>valid invalid name a. r = Inr (valid, invalid) \<longrightarrow> map_get valid name = Some a \<longrightarrow> CodeSeen a \<in> set evs)"
proof (induction nd lb xs rule: ValidateCachedContracts.induct)
  case (1 nd lb)
  show ?case unfolding ValidateCachedContracts.simps by (rule runs_weaken, rule run_rules) auto
next
  case (2 nd lb name addrHex rest)
  show ?case unfolding ValidateCachedContracts.simps case_prod_beta
    by (rule runs_weaken, (rule run_rules 2)+) (auto split: if_splits)
qed

lemma turns_tryRestoreCachedContracts:
  "turns (preparing ty need) (tryRestoreCachedContracts env lb ty need) (settled ty need (\<lambda>r. r = Inr True))"
proof -
  let ?Q = "settled ty need (\<lambda>r. r = Inr True)"
  have drop: "turns (preparing ty need) (andThen (drop_cached_contracts env) (\<lambda>_. ret False)) ?Q"
    unfolding drop_cached_contracts_def by (intro turns_seq turns_change_cache turns_ret) simp_all
  have install: "turns (\<lambda>w. preparing ty need w \<and> shown w e \<and> shown w g \<and> shown w n)
      (andThen (change (install_base e g n)) (\<lambda>_. case need of None \<Rightarrow> ret True | Some b \<Rightarrow> restore_uniswap env lb ty b valid)) ?Q" for e g n valid
  proof (rule turns_andThen [where R = "\<lambda>_ w. preparing ty need w \<and> lg_contractsDeployed w"], rule turns_change,
      simp only: sum.case, elim conjE, rule install_base_preparing, assumption+)
    show "turns (\<lambda>w. preparing ty need w \<and> lg_contractsDeployed w)
      (case need of None \<Rightarrow> ret True | Some b \<Rightarrow> restore_uniswap env lb ty b valid) ?Q"
    proof (cases need)
      case (Some b)
      show ?thesis
      proof (cases "ty = TxTypeUniswapSwap")
        case True
        then show ?thesis unfolding Some option.case by (rule turns_restore_uniswap)
      qed (simp add: turns_def preparing_def Some)
    qed (auto intro!: turns_ret simp: settled_def preparing_def)
  qed
  let ?K = "\<lambda>(valid, invalid).
     if invalid \<noteq> [] then andThen (drop_cached_contracts env) (\<lambda>_. ret False)
     else (case (map_get valid ''ERC20'', map_get valid ''GasConsumer'', map_get valid ''NFT'') of
         (Some erc20, Some gasConsumer, Some nft) \<Rightarrow>
           andThen (change (install_base erc20 gasConsumer nft)) (\<lambda>_. case need of None \<Rightarrow> ret True | Some b \<Rightarrow> restore_uniswap env lb ty b valid)
       | _ \<Rightarrow> andThen (drop_cached_contracts env) (\<lambda>_. ret False))"
  let ?R = "\<lambda>(valid, invalid) w. preparing ty need w \<and> (\<forall>name a. map_get valid name = Some a \<longrightarrow> shown w a)"
  have checked: "turns (?R x) (?K x) ?Q" for x
    unfolding case_prod_beta
    by (intro keep_if keep_option, (rule turns_pre [OF drop], simp)+, rule turns_pre [OF install], simp_all add: turns_pre [OF drop])
  have "turns (preparing ty need) (andThen (ValidateCachedContracts (le_node env) lb xs) ?K) ?Q" for xs
  proof (rule turns_andThen [where R = ?R, OF _ checked], rule turns_runs_events [OF runs_ValidateCachedContracts about_contracts_preparing])
  qed (auto simp: shown_def split: sum.split)
  then show ?thesis
    unfolding tryRestoreCachedContracts_def by (intro keep_with_world keep_option keep_sum keep_if keep_panic turns_ret) simp_all
qed

text \<open>The deployments.\<close>

lemma runs_show_progress [run_rules]: "runs (show_progress offset name i j) (\<lambda>r evs. True)"
  unfolding show_progress_def by (rule runs_weaken, rule run_rules) simp

lemma turns_CreateAndInitializePool:
  assumes "about_contracts P"
  shows "turns P (CreateAndInitializePoolWithProgress nd lb d frm c cfg (\<lambda>name i j. show_progress offset (f name) (g i) (h j))) (\<lambda>r. P)"
  unfolding CreateAndInitializePoolWithProgress_def find_or_create_pool_def query_pool_def pool_text_def initialize_pool_def Let_def
  by (intro keep_rules; rule turns_runs [OF _ assms], rule run_rules)

lemma turns_DeployContracts:
  assumes "about_contracts P"
  shows "turns P (DeployContractsWithProgress nd lb uc frm chainID gasPrice (show_progress 0) b) (\<lambda>r. P)"
proof -
  have uni: "turns P (uni_DeployAllWithProgress nd lb uc d frm (\<lambda>name k _. show_progress 0 name k 7)) (\<lambda>r. P)" for d
    by (rule turns_runs [OF runs_uni_DeployAll assms]) (rule runs_show_progress)
  have pool: "turns P (CreateAndInitializePoolWithProgress nd lb d frm c cfg (\<lambda>name _ _. show_progress 0 name 6 7)) (\<lambda>r. P)" for d c cfg
    by (rule turns_CreateAndInitializePool [OF assms])
  show ?thesis unfolding DeployContractsWithProgress_def Let_def
    by (intro keep_rules uni pool; rule turns_runs [OF _ assms], rule run_rules runs_ProvisionLiquidity)
qed

lemma case_sum_run:
  "(case x of Inl e \<Rightarrow> f e | Inr v \<Rightarrow> g v) w = Some z \<longleftrightarrow> (\<exists>e. x = Inl e \<and> f e w = Some z) \<or> (\<exists>v. x = Inr v \<and> g v w = Some z)"
  by (cases x) simp_all

lemma case_option_run:
  "(case x of None \<Rightarrow> f | Some v \<Rightarrow> g v) w = Some z \<longleftrightarrow> (x = None \<and> f w = Some z) \<or> (\<exists>v. x = Some v \<and> g v w = Some z)"
  by (cases x) simp_all

lemma DeployContracts_deployed:
  "DeployContractsWithProgress nd lb uc frm chainID gasPrice onProgress b w = Some (Inr (b', None), w') \<Longrightarrow> sb_deployed b'"
  by (auto simp: DeployContractsWithProgress_def Let_def either_Some andThen_Some case_sum_run case_option_run)

lemma turns_deploy_uniswap:
  "turns (preparing TxTypeUniswapSwap (Some b0)) (deploy_uniswap env lb TxTypeUniswapSwap b frm)
     (\<lambda>r w. preparing TxTypeUniswapSwap (Some b0) w \<and> (r = Inr () \<longrightarrow> swap_ok TxTypeUniswapSwap w))"
proof -
  let ?P = "preparing TxTypeUniswapSwap (Some b0)" and ?ok = "swap_ok TxTypeUniswapSwap"
  let ?Q = "\<lambda>r w. ?P w \<and> (r = Inr () \<longrightarrow> ?ok w)"
  have keep: "turns (\<lambda>w. ?P w \<and> ?ok w) m (\<lambda>r w. ?P w \<and> ?ok w) \<Longrightarrow> turns (\<lambda>w. ?P w \<and> ?ok w) m ?Q" for m :: "('a, unit) lg_action"
    by (erule turns_weaken) simp
  have deployed: "turns ?P (DeployContractsWithProgress (le_node env) lb (le_code env) frm (le_chainID env) (le_gasPrice env) (show_progress 0) b)
      (\<lambda>r w. ?P w \<and> (\<forall>b'. r = Inr (b', None) \<longrightarrow> sb_deployed b'))"
    unfolding turns_def
    by (intro allI impI conjI) (erule (1) turnsD [OF turns_DeployContracts [OF about_contracts_preparing]], simp add: DeployContracts_deployed)
  show ?thesis
    unfolding deploy_uniswap_def mark_ready_def saveUniswapContractsToCache_def Let_def
  proof (rule turns_andThen [where R = "\<lambda>(b', err) w. ?P w \<and> (err = None \<longrightarrow> sb_deployed b')"],
      rule turns_weaken [OF deployed], force split: sum.split, split prod.split, intro allI impI, hypsubst, simp only: prod.case)
    fix b' err
    show "turns (\<lambda>w. ?P w \<and> (err = None \<longrightarrow> sb_deployed b')) (andThen (change (put_swap TxTypeUniswapSwap b')) (\<lambda>_.
       case err of Some e \<Rightarrow> throw (Step ''failed to deploy Uniswap V3 contracts'' e)
       | None \<Rightarrow> with_world (\<lambda>w. computed (those (mg_dynamic (lg_manager w))) (\<lambda>dyn.
             andThen (wrapped (Step ''failed to setup accounts for Uniswap'') (setup_accounts env lb b' (mg_accounts (lg_manager w) @ dyn))) (\<lambda>_.
             andThen (observe (nd_Sleep (le_node env) (5 * 1000000000))) (\<lambda>_.
             andThen (wrapped (Step ''failed to resync nonces after Uniswap setup'') (resync_nonces env (length (mg_accounts (lg_manager w) @ dyn)))) (\<lambda>_.
             andThen (change_cache (save_contracts (le_save env) 0 (map (cache_entry env lb) (uniswap_names (sb_contracts b')))))
               (\<lambda>_. change_cache (\<lambda>db. snd (MarkAccountsUniswapReady (le_mark env) (le_chainID env) (map (cl_hex lb \<circ> ta_addr) dyn) db))))))))))
       ?Q"
    proof (cases err)
      case (Some e)
      then show ?thesis
        by (auto simp: turns_def andThen_Some change_def preparing_def dest: put_swap_preparing)
    next
      case None
      show ?thesis unfolding None option.case
        by (rule turns_andThen [where R = "\<lambda>_ w. ?P w \<and> ?ok w"], rule turns_change, force simp: preparing_def dest: put_swap_preparing,
            rule keep, intro keep_rules turns_setup_accounts turns_resync_nonces turns_change_cache turns_runs [OF runs_observe]
              about_contracts_both about_contracts_preparing about_contracts_intros)
    qed
  qed
qed

lemma install_base_fields [simp]:
  "lg_contractsDeployed (install_base e g n w)" "swap_ok ty (install_base e g n w) = swap_ok ty w"
  by (simp_all add: install_base_def swap_ok_def)

definition found_at :: "(string, address) gomap \<Rightarrow> string \<Rightarrow> address" where
  "found_at results name = (case map_get results name of None \<Rightarrow> 0 | Some a \<Rightarrow> a)"

lemma deployed_base_shown:
  assumes "deployed_ok lb d frm st 0 [] (base_contracts e g n) results evs" "name \<in> {''ERC20'', ''GasConsumer'', ''NFT''}"
  shows "CodeSeen (found_at results name) \<in> set evs"
proof -
  have len: "length (base_contracts e g n) = 3" by (simp add: base_contracts_def)
  obtain j where "j < length (base_contracts e g n)" "fst (base_contracts e g n ! j) = name"
    using assms(2) that [of 0] that [of 1] that [of 2] unfolding len by (auto simp: base_contracts_def numeral_2_eq_2)
  then show ?thesis using assms(1) by (auto simp: deployed_ok_def in_place_def found_at_def)
qed

lemma turns_deploy_base:
  "turns (\<lambda>w. preparing ty need w \<and> swap_ok ty w) (deploy_base env lb frm)
     (\<lambda>r w. preparing ty need w \<and> (r = Inr () \<longrightarrow> lg_contractsDeployed w \<and> swap_ok ty w))"
proof -
  let ?P = "\<lambda>w. preparing ty need w \<and> swap_ok ty w"
  let ?Q = "\<lambda>r w. preparing ty need w \<and> (r = Inr () \<longrightarrow> lg_contractsDeployed w \<and> swap_ok ty w)"
  let ?R = "\<lambda>(results, err) w. ?P w \<and>
     (err = None \<longrightarrow> shown w (found_at results ''ERC20'') \<and> shown w (found_at results ''GasConsumer'') \<and> shown w (found_at results ''NFT''))"
  have about: "about_contracts ?P" by (intro about_contracts_both about_contracts_preparing about_contracts_intros)
  have "distinct (map fst (base_contracts (le_erc20 env) (le_gasConsumer env) (le_nft env)))" by (simp add: base_contracts_def)
  note run = runs_DeployAllWithProgress [OF this, of "le_node env" lb "le_deployer env" frm]
  have rest: "turns (?R x) (case x of (results, err) \<Rightarrow> case err of
       Some e \<Rightarrow> throw (Step ''failed to deploy contracts'' e)
     | None \<Rightarrow> andThen (change (install_base (found_at results ''ERC20'') (found_at results ''GasConsumer'') (found_at results ''NFT'')))
         (\<lambda>_. saveBaseContractsToCache env lb)) ?Q" for x
  proof (cases x; cases "snd x")
    fix results err assume x: "x = (results, err)" "snd x = None"
    have "turns (\<lambda>w. ?P w \<and> lg_contractsDeployed w) (saveBaseContractsToCache env lb) (\<lambda>r w. ?P w \<and> lg_contractsDeployed w)"
      unfolding saveBaseContractsToCache_def
      by (intro keep_rules turns_change_cache about_contracts_both about_contracts_preparing about_contracts_intros)
    then have save: "turns (\<lambda>w. ?P w \<and> lg_contractsDeployed w) (saveBaseContractsToCache env lb) ?Q" by (rule turns_weaken) simp
    show ?thesis using x install_base_preparing
      by (auto intro!: turns_andThen [where R = "\<lambda>_ w. ?P w \<and> lg_contractsDeployed w", OF _ save] turns_change)
  qed (auto simp: turns_def)
  show ?thesis
    unfolding deploy_base_def Let_def found_at_def [symmetric]
    by (rule turns_andThen [where R = ?R, OF turns_runs_events [OF run about] rest])
      (auto simp: shown_def dest: deployed_base_shown split: sum.split)
qed

lemma turns_ensureContractsDeployed:
  assumes "ty \<noteq> TxTypeEthTransfer"
  shows "turns contracts_ok (ensureContractsDeployed env lb ty)
     (\<lambda>r w. contracts_ok w \<and> (r = Inr () \<longrightarrow> lg_contractsDeployed w \<and> swap_ok ty w))"
proof -
  let ?Q = "\<lambda>r w. contracts_ok w \<and> (r = Inr () \<longrightarrow> lg_contractsDeployed w \<and> swap_ok ty w)"
  let ?base = "\<lambda>frm. with_world (\<lambda>w. if lg_contractsDeployed w then ret () else deploy_base env lb frm)"
  have base: "turns (\<lambda>w. preparing ty need w \<and> swap_ok ty w) (?base frm) ?Q" for need frm
  proof -
    have deploy: "turns (\<lambda>w. preparing ty need w \<and> swap_ok ty w) (deploy_base env lb frm) ?Q"
      by (rule turns_weaken [OF turns_deploy_base]) (simp add: preparing_def)
    have "?Q r w'" if "preparing ty need w \<and> swap_ok ty w" "?base frm w = Some (r, w')" for r w w'
    proof (cases "lg_contractsDeployed w")
      case False
      with that(2) have "deploy_base env lb frm w = Some (r, w')" by (simp add: with_world_def)
      then show ?thesis by (rule turnsD [OF deploy that(1)])
    qed (use that in \<open>simp add: preparing_def with_world_def\<close>)
    then show ?thesis unfolding turns_def by blast
  qed
  have uni: "turns (preparing ty need) (case need of None \<Rightarrow> ret () | Some b \<Rightarrow> deploy_uniswap env lb ty b frm)
      (\<lambda>r w. preparing ty need w \<and> (r = Inr () \<longrightarrow> swap_ok ty w))" for need frm
  proof (cases need)
    case (Some b)
    then show ?thesis using turns_deploy_uniswap [of b env lb b frm]
      by (cases "ty = TxTypeUniswapSwap") (auto simp: turns_def preparing_def)
  qed (auto simp: turns_def preparing_def)
  have fresh: "turns (preparing ty need) (andThen (case need of None \<Rightarrow> ret () | Some b \<Rightarrow> deploy_uniswap env lb ty b frm) (\<lambda>_. ?base frm)) ?Q"
    for need frm
    by (rule turns_andThen [where R = "\<lambda>_ w. preparing ty need w \<and> swap_ok ty w", OF _ base], rule turns_weaken [OF uni])
      (auto simp: preparing_def split: sum.split)
  have restore: "turns (preparing ty need) (if c then tryRestoreCachedContracts env lb ty need else ret False) (settled ty need (\<lambda>r. r = Inr True))"
    for c need
    using turns_tryRestoreCachedContracts [of ty need env lb] by (auto intro: turns_ret)
  have all: "turns (preparing ty need) (andThen (if c then tryRestoreCachedContracts env lb ty need else ret False) (\<lambda>restored.
      if restored then ret () else andThen (case need of None \<Rightarrow> ret () | Some b \<Rightarrow> deploy_uniswap env lb ty b frm) (\<lambda>_. ?base frm))) ?Q"
    for c need frm
    by (rule turns_andThen [where R = "\<lambda>restored w. preparing ty need w \<and> (restored \<longrightarrow> lg_contractsDeployed w \<and> swap_ok ty w)"],
        rule turns_weaken [OF restore], simp add: settled_def preparing_def split: sum.split)
      (auto intro!: turns_ret turns_pre [OF fresh] keep_if simp: preparing_def)
  show ?thesis
    unfolding turns_def
  proof (intro allI impI)
    fix w r w' assume ok: "contracts_ok w" and run: "ensureContractsDeployed env lb ty w = Some (r, w')"
    define need where "need = (case GetComplexBuilder ty (lg_registry w) of None \<Rightarrow> None | Some b \<Rightarrow> if sb_deployed b then None else Some b)"
    have prep: "preparing ty need w"
      using ok by (force simp: preparing_def need_def swap_ok_def contracts_ok_def registry_ok_def GetComplexBuilder_def
          split: option.splits tx_builder.splits if_splits)
    from run assms have step: "(if lg_contractsDeployed w \<and> need = None then ret () else
        (case mg_accounts (lg_manager w) of [] \<Rightarrow> throw NoAccounts
         | a # _ \<Rightarrow> andThen (if lg_cache w \<noteq> None \<and> \<not> lg_contractsDeployed w then tryRestoreCachedContracts env lb ty need else ret False)
             (\<lambda>restored. if restored then ret ()
               else andThen (case need of None \<Rightarrow> ret () | Some b \<Rightarrow> deploy_uniswap env lb ty b (ta_addr a)) (\<lambda>_. ?base (ta_addr a))))) w = Some (r, w')"
      unfolding ensureContractsDeployed_def with_world_def need_def Let_def by simp
    show "?Q r w'"
    proof (cases "lg_contractsDeployed w \<and> need = None")
      case True
      then show ?thesis using step ok prep by (simp add: preparing_def)
    next
      case False
      show ?thesis
      proof (cases "mg_accounts (lg_manager w)")
        case Nil
        then show ?thesis using step ok False by auto
      next
        case (Cons a as)
        note run' = step [unfolded if_not_P [OF False] Cons list.case]
        show ?thesis by (rule turnsD [OF all prep run'])
      qed
    qed
  qed
qed


text \<open>
  A failed setup of the accounts from the cache is no error: the load generator goes on, without the
  resynchronisation of the nonces that the setup's own transactions have moved.
\<close>

lemma failed_setup_goes_on:
  assumes "lg_cache w = Some db" "LoadCachedAccounts (le_loadAccounts env) (le_chainID env) db = Inr []"
    "mg_dynamic (lg_manager w) = map Some dyn" "mg_accounts (lg_manager w) \<noteq> []"
    "setup_accounts env lb b (mg_accounts (lg_manager w) @ dyn) w = Some (Inl e, w')"
  shows "setupUniswapAccountsFromCache env lb b w = Some (Inr (), w')"
  using assms by (simp add: setupUniswapAccountsFromCache_def with_world_def either_def Let_def)

section \<open>Witnesses\<close>

definition demo_query :: query_env where "demo_query = \<lparr>qe_err = None, qe_cut = None\<rparr>"

definition demo_tx_env :: tx_env where
  "demo_tx_env = \<lparr>te_begin = None, te_prepare = None, te_cancelled = (\<lambda>k. False), te_exec = (\<lambda>k. None), te_commit = None\<rparr>"

definition demo_lg_env :: "(int \<times> nat) lg_env" where
  "demo_lg_env =
     \<lparr>le_node = demo_node, le_erc20 = [1], le_gasConsumer = [2], le_nft = [3], le_code = demo_code, le_deployer = NewDeployer 1 10,
      le_chainID = 1, le_gasPrice = 10, le_now = 0, le_load = demo_query, le_loadAccounts = demo_query, le_save = (\<lambda>k. None),
      le_delete = None, le_mark = demo_tx_env, le_iterate = (\<lambda>m. m), le_setup = demo_env, le_nonces = (\<lambda>k. Inr 0)\<rparr>"

definition demo_lg_world :: "(int \<times> nat) lg_world" where
  "demo_lg_world =
     \<lparr>wd_node = (300 * 1000000, 5), wd_trace = [], lg_erc20 = 0, lg_gasConsumer = 0, lg_nft = 0, lg_contractsDeployed = False,
      lg_registry = NewDefaultRegistry ''00'' ''01'' 7,
      lg_manager = demo_manager, lg_cache = None\<rparr>"

lemma demo_lg_ok: "contracts_ok demo_lg_world"
  by (auto simp: contracts_ok_def registry_ok_def demo_lg_world_def NewDefaultRegistry_def registry_Register_def split: if_splits)


end
