(* ===== verification/Config.thy ===== *)
theory Config
  imports Go_Strings Rpc_Client Types
begin

text \<open>
  \<open>internal/config/config.go\<close>, \<open>internal/execnode\<close> and the client set-up of \<open>internal/loadgen/init.go\<close>: how
  environment variables and command-line flags become a configuration, which configurations are refused, what an
  execution layer can do, and which endpoint, credential and limits the RPC clients get.  The environment is a
  function from names to values, an unset variable is the empty string; the flags the user gave are options; a
  file is its contents or \<open>None\<close>.
\<close>

section \<open>Execution layers\<close>

record capabilities =
  el_Name :: string
  HasExternalBlockBuilder :: bool
  SupportsPreconfirmations :: bool
  SupportsBuilderStatusAPI :: bool
  SupportsBlockMetricsWS :: bool
  RequiresLegacyTx :: bool

definition capabilities_String :: "capabilities option \<Rightarrow> string" where
  "capabilities_String c = (case c of None \<Rightarrow> ''unknown'' | Some c \<Rightarrow> el_Name c)"

type_synonym layer_registry = "(string, capabilities) gomap"

definition layer_Register :: "capabilities option \<Rightarrow> layer_registry \<Rightarrow> layer_registry" where
  "layer_Register caps r = (case caps of None \<Rightarrow> r | Some c \<Rightarrow> map_put (el_Name c) c r)"

definition layer_Names :: "layer_registry \<Rightarrow> string list" where
  "layer_Names r = map fst r"

definition RethExtNativeCapabilities :: capabilities where
  "RethExtNativeCapabilities =
     \<lparr>el_Name = ''reth-ext-native'', HasExternalBlockBuilder = False, SupportsPreconfirmations = False,
      SupportsBuilderStatusAPI = False, SupportsBlockMetricsWS = False, RequiresLegacyTx = False\<rparr>"

definition OpRethCapabilities :: capabilities where
  "OpRethCapabilities =
     \<lparr>el_Name = ''op-reth'', HasExternalBlockBuilder = True, SupportsPreconfirmations = True,
      SupportsBuilderStatusAPI = True, SupportsBlockMetricsWS = True, RequiresLegacyTx = False\<rparr>"

definition RethCapabilities :: capabilities where
  "RethCapabilities = OpRethCapabilities\<lparr>el_Name := ''reth''\<rparr>"

definition GravityRethCapabilities :: capabilities where
  "GravityRethCapabilities =
     \<lparr>el_Name = ''gravity-reth'', HasExternalBlockBuilder = False, SupportsPreconfirmations = False,
      SupportsBuilderStatusAPI = False, SupportsBlockMetricsWS = False, RequiresLegacyTx = False\<rparr>"

definition CDKErigonCapabilities :: capabilities where
  "CDKErigonCapabilities =
     \<lparr>el_Name = ''cdk-erigon'', HasExternalBlockBuilder = False, SupportsPreconfirmations = False,
      SupportsBuilderStatusAPI = False, SupportsBlockMetricsWS = False, RequiresLegacyTx = True\<rparr>"

definition DefaultRegistry :: layer_registry where
  "DefaultRegistry =
     fold (layer_Register \<circ> Some)
       [OpRethCapabilities, GravityRethCapabilities, CDKErigonCapabilities, RethExtNativeCapabilities, RethCapabilities] []"

section \<open>Durations\<close>

text \<open>
  \<open>time.ParseDuration\<close>: a sign, then numbers with a fraction and a unit.  The integer parts are kept below \<open>2 ^ 63\<close>
  by the checks of the library, the fraction is multiplied in float64.  \<open>None\<close> is any error.
\<close>

definition duration_unit :: "string \<Rightarrow> nat option" where
  "duration_unit u =
     (if u = ''ns'' then Some 1 else if u = ''us'' then Some 1000 else if u = ''ms'' then Some 1000000
      else if u = ''s'' then Some 1000000000 else if u = ''m'' then Some (60 * 1000000000)
      else if u = ''h'' then Some (3600 * 1000000000)
      else if u = map char_of [194 :: nat, 181, 115] \<or> u = map char_of [206 :: nat, 188, 115] then Some 1000 else None)"

fun leadingInt :: "nat \<Rightarrow> string \<Rightarrow> (nat \<times> string) option" where
  "leadingInt x [] = Some (x, [])"
| "leadingInt x (c # cs) =
     (if \<not> is_digit c then Some (x, c # cs)
      else if 2 ^ 63 div 10 < x then None
      else let y = 10 * x + (of_char c - 48) in if 2 ^ 63 < y then None else leadingInt y cs)"

fun leadingFraction :: "nat \<Rightarrow> f64 \<Rightarrow> bool \<Rightarrow> string \<Rightarrow> nat \<times> f64 \<times> string" where
  "leadingFraction x scale over [] = (x, scale, [])"
| "leadingFraction x scale over (c # cs) =
     (if \<not> is_digit c then (x, scale, c # cs)
      else if over \<or> (2 ^ 63 - 1) div 10 < x then leadingFraction x scale True cs
      else let y = 10 * x + (of_char c - 48) in
        if 2 ^ 63 < y then leadingFraction x scale True cs else leadingFraction y (fmul scale 10) False cs)"

lemma leadingInt_length: "leadingInt x s = Some (v, t) \<Longrightarrow> length t \<le> length s"
proof (induction s arbitrary: x)
  case (Cons c cs)
  then show ?case by (fastforce simp: Let_def split: if_splits)
qed simp

lemma leadingFraction_length: "length (snd (snd (leadingFraction x sc ov s))) \<le> length s"
proof (induction s arbitrary: x sc ov)
  case (Cons c cs)
  then show ?case by (auto simp: Let_def intro: le_SucI)
qed simp

text \<open>A number: integer part, fraction and its scale, and the rest, which begins with the unit.\<close>

definition duration_number :: "string \<Rightarrow> (nat \<times> nat \<times> f64 \<times> string) option" where
  "duration_number s =
     (case leadingInt 0 s of None \<Rightarrow> None
      | Some (v, s1) \<Rightarrow>
          let dot = (s1 \<noteq> [] \<and> hd s1 = CHR ''.''); fr = (if dot then leadingFraction 0 1 False (tl s1) else (0, 1, s1)) in
          if length s1 = length s \<and> \<not> (dot \<and> length (snd (snd fr)) \<noteq> length (tl s1)) then None
          else Some (v, fst fr, fst (snd fr), snd (snd fr)))"

definition unit_text :: "string \<Rightarrow> string" where
  "unit_text s = takeWhile (\<lambda>c. \<not> (c = CHR ''.'' \<or> is_digit c)) s"

definition nanoseconds :: "nat \<Rightarrow> nat \<Rightarrow> f64 \<Rightarrow> nat \<Rightarrow> nat option" where
  "nanoseconds v f scale unit =
     (if 2 ^ 63 div unit < v then None
      else if 0 < f then
        let n = v * unit + nat (f64_trunc (fmul (f64_of_int (int f)) (fdiv (f64_of_int (int unit)) scale))) in
        if 2 ^ 63 < n then None else Some n
      else Some (v * unit))"

definition duration_part :: "string \<Rightarrow> (nat \<times> string) option" where
  "duration_part s =
     (if s = [] \<or> \<not> (hd s = CHR ''.'' \<or> is_digit (hd s)) then None
      else case duration_number s of None \<Rightarrow> None
      | Some (v, f, scale, s2) \<Rightarrow>
          (case duration_unit (unit_text s2) of None \<Rightarrow> None
           | Some unit \<Rightarrow> map_option (\<lambda>n. (n, drop (length (unit_text s2)) s2)) (nanoseconds v f scale unit)))"

lemma duration_number_length: "duration_number s = Some (v, f, sc, t) \<Longrightarrow> length t \<le> length s"
proof -
  assume num: "duration_number s = Some (v, f, sc, t)"
  then obtain x s1 where int: "leadingInt 0 s = Some (x, s1)" by (auto simp: duration_number_def split: option.splits)
  define fr where "fr = (if s1 \<noteq> [] \<and> hd s1 = CHR ''.'' then leadingFraction 0 1 False (tl s1) else (0, 1, s1))"
  have "duration_number s =
      (if length s1 = length s \<and> \<not> ((s1 \<noteq> [] \<and> hd s1 = CHR ''.'') \<and> length (snd (snd fr)) \<noteq> length (tl s1)) then None
       else Some (x, fst fr, fst (snd fr), snd (snd fr)))"
    unfolding duration_number_def int Let_def option.case prod.case fr_def ..
  then have "t = snd (snd fr)" using num by (auto split: if_split_asm)
  then have "length t \<le> length s1" using leadingFraction_length [of 0 1 False "tl s1"] unfolding fr_def by (cases "s1 \<noteq> [] \<and> hd s1 = CHR ''.''") auto
  then show ?thesis using leadingInt_length [OF int] by simp
qed

lemma duration_unit_empty: "duration_unit u = Some n \<Longrightarrow> u \<noteq> []"
  by (auto simp: duration_unit_def)

lemma duration_part_length: "duration_part s = Some (n, rest) \<Longrightarrow> length rest < length s"
proof -
  assume "duration_part s = Some (n, rest)"
  then obtain v f sc t k where num: "duration_number s = Some (v, f, sc, t)" and u: "duration_unit (unit_text t) = Some k"
    and rest: "rest = drop (length (unit_text t)) t"
    by (auto simp: duration_part_def split: if_splits option.splits)
  have "0 < length (unit_text t)" using duration_unit_empty [OF u] by simp
  moreover have "length (unit_text t) \<le> length t" by (simp add: unit_text_def length_takeWhile_le)
  ultimately show ?thesis using duration_number_length [OF num] unfolding rest length_drop by linarith
qed

function duration_sum :: "nat \<Rightarrow> string \<Rightarrow> nat option" where
  "duration_sum d s =
     (if s = [] then Some d
      else case duration_part s of None \<Rightarrow> None
      | Some (n, rest) \<Rightarrow> if 2 ^ 63 < d + n then None else duration_sum (d + n) rest)"
  by pat_completeness auto
termination
  by (relation "measure (\<lambda>(d, s). length s)") (auto dest: duration_part_length)

declare duration_sum.simps [simp del]

definition ParseDuration :: "string \<Rightarrow> int option" where
  "ParseDuration s =
     (let neg = (s \<noteq> [] \<and> hd s = CHR ''-''); body = (if neg \<or> (s \<noteq> [] \<and> hd s = CHR ''+'') then tl s else s) in
      if body = ''0'' then Some 0
      else if body = [] then None
      else case duration_sum 0 body of None \<Rightarrow> None
      | Some d \<Rightarrow> if neg then Some (- int d) else if 2 ^ 63 - 1 < d then None else Some (int d))"

lemma duration_example: "ParseDuration ''1m30s'' = Some (90 * second)"
  by (simp add: ParseDuration_def duration_sum.simps duration_part_def duration_number_def unit_text_def is_digit_def
      duration_unit_def nanoseconds_def second_def)

section \<open>The configuration\<close>

record endpoints =
  cf_BuilderRPCURL :: string
  cf_L2RPCURL :: string
  cf_L2WSURL :: string
  cf_PreconfWSURL :: string
  cf_ListenAddr :: string
  cf_DatabasePath :: string
  cf_ExecutionLayer :: string
  cf_CORSAllowedOrigins :: string
  cf_L2AuthTokenFile :: string
  cf_PrivacyRPCURL :: string
  cf_PrivacyAuthTokenFile :: string
  cf_PrivacyOrgIDFile :: string
  cf_PrivacyOrgID :: string
  cf_PrivacyRouteAll :: bool

record config = endpoints +
  cf_ChainID :: int
  cf_GasPrice :: int
  cf_GasTipCap :: int
  cf_GasFeeCap :: int
  cf_GasLimit :: u64
  cf_BlockTimeMS :: int
  cf_L2ClientTimeout :: int
  cf_L2ClientMaxRetries :: int
  cf_L2MaxSenderWorkers :: int
  cf_L2MaxConnsPerHost :: int
  cf_L2PipelineBatchDepth :: int
  cf_L2ForceHTTP2 :: bool
  cf_L2BatchAckTimeout :: int
  cf_Gasless :: bool
  cf_Capabilities :: "capabilities option"

record cli_config =
  cli_Pattern :: load_pattern
  cli_TPS :: int
  cli_Duration :: int
  cli_NumAccounts :: int

definition default_config :: config where
  "default_config =
     \<lparr>cf_BuilderRPCURL = ''http://localhost:13000'', cf_L2RPCURL = ''http://localhost:13000'', cf_L2WSURL = '''', cf_PreconfWSURL = '''',
      cf_ListenAddr = '':3001'', cf_DatabasePath = ''./data/loadgen.db'', cf_ExecutionLayer = ''reth'', cf_CORSAllowedOrigins = ''*'',
      cf_L2AuthTokenFile = '''', cf_PrivacyRPCURL = '''', cf_PrivacyAuthTokenFile = '''', cf_PrivacyOrgIDFile = '''', cf_PrivacyOrgID = '''',
      cf_PrivacyRouteAll = False, cf_ChainID = 42069, cf_GasPrice = 1000000000, cf_GasTipCap = 1000000000, cf_GasFeeCap = 0,
      cf_GasLimit = 21000, cf_BlockTimeMS = 250, cf_L2ClientTimeout = 0, cf_L2ClientMaxRetries = 0, cf_L2MaxSenderWorkers = 0,
      cf_L2MaxConnsPerHost = 0, cf_L2PipelineBatchDepth = 0, cf_L2ForceHTTP2 = False, cf_L2BatchAckTimeout = 0, cf_Gasless = False,
      cf_Capabilities = None\<rparr>"

datatype config_err =
    BadAckTimeout string | UnknownLayer string | NoBuilderURL | NoL2URL | BadChainID | BadTipCap | BadFeeCap | NoGasLimit
  | BadPattern load_pattern | BadTPS | BadDuration | BadAccounts

text \<open>A set variable is handed on; a number is taken when it parses and is in range, and ignored otherwise.\<close>

definition env_text :: "(string \<Rightarrow> string) \<Rightarrow> string \<Rightarrow> (string \<Rightarrow> config \<Rightarrow> config) \<Rightarrow> config \<Rightarrow> config" where
  "env_text getenv name set_field c = (if getenv name = '''' then c else set_field (getenv name) c)"

definition env_number ::
  "(string \<Rightarrow> string) \<Rightarrow> (string \<Rightarrow> int option) \<Rightarrow> (int \<Rightarrow> bool) \<Rightarrow> string \<Rightarrow> (int \<Rightarrow> config \<Rightarrow> config) \<Rightarrow> config \<Rightarrow> config" where
  "env_number getenv parse in_range name set_field =
     env_text getenv name (\<lambda>v c. case parse v of None \<Rightarrow> c | Some n \<Rightarrow> if in_range n then set_field n c else c)"

definition env_flag :: "(string \<Rightarrow> string) \<Rightarrow> string \<Rightarrow> (config \<Rightarrow> config) \<Rightarrow> config \<Rightarrow> config" where
  "env_flag getenv name set_field c = (if getenv name = ''true'' \<or> getenv name = ''1'' then set_field c else c)"

definition ParseBatchAckTimeout :: "string \<Rightarrow> config_err + int" where
  "ParseBatchAckTimeout v =
     (case ParseDuration v of None \<Rightarrow> Inl (BadAckTimeout v) | Some d \<Rightarrow> if d \<le> 0 then Inl (BadAckTimeout v) else Inr d)"

definition env_urls :: "(string \<Rightarrow> string) \<Rightarrow> config \<Rightarrow> config" where
  "env_urls getenv =
     env_text getenv ''EXECUTION_LAYER'' (\<lambda>v c. c\<lparr>cf_ExecutionLayer := v\<rparr>) \<circ>
     env_text getenv ''DATABASE_PATH'' (\<lambda>v c. c\<lparr>cf_DatabasePath := v\<rparr>) \<circ>
     env_text getenv ''LISTEN_ADDR'' (\<lambda>v c. c\<lparr>cf_ListenAddr := v\<rparr>) \<circ>
     env_text getenv ''PRECONF_WS_URL'' (\<lambda>v c. c\<lparr>cf_PreconfWSURL := v\<rparr>) \<circ>
     env_text getenv ''L2_WS_URL'' (\<lambda>v c. c\<lparr>cf_L2WSURL := v\<rparr>) \<circ>
     env_text getenv ''L2_RPC_URL'' (\<lambda>v c. c\<lparr>cf_L2RPCURL := v\<rparr>) \<circ>
     env_text getenv ''BUILDER_RPC_URL'' (\<lambda>v c. c\<lparr>cf_BuilderRPCURL := v\<rparr>)"

definition env_limits :: "(string \<Rightarrow> string) \<Rightarrow> config \<Rightarrow> config" where
  "env_limits getenv =
     env_number getenv ParseInt (\<lambda>n. 0 < n) ''L2_CLIENT_MAX_RETRIES'' (\<lambda>n c. c\<lparr>cf_L2ClientMaxRetries := n\<rparr>) \<circ>
     env_number getenv ParseInt (\<lambda>n. 0 < n) ''L2_MAX_CONNS_PER_HOST'' (\<lambda>n c. c\<lparr>cf_L2MaxConnsPerHost := n\<rparr>) \<circ>
     env_number getenv ParseInt (\<lambda>n. 0 < n) ''L2_MAX_SENDER_WORKERS'' (\<lambda>n c. c\<lparr>cf_L2MaxSenderWorkers := n\<rparr>) \<circ>
     env_flag getenv ''L2_FORCE_HTTP2'' (\<lambda>c. c\<lparr>cf_L2ForceHTTP2 := True\<rparr>) \<circ>
     env_number getenv ParseInt (\<lambda>n. 1 < n) ''L2_PIPELINE_BATCH_DEPTH'' (\<lambda>n c. c\<lparr>cf_L2PipelineBatchDepth := n\<rparr>) \<circ>
     env_number getenv ParseDuration (\<lambda>d. 0 < d) ''L2_CLIENT_TIMEOUT'' (\<lambda>d c. c\<lparr>cf_L2ClientTimeout := d\<rparr>) \<circ>
     env_text getenv ''L2_AUTH_TOKEN_FILE'' (\<lambda>v c. c\<lparr>cf_L2AuthTokenFile := v\<rparr>) \<circ>
     env_number getenv ParseInt (\<lambda>n. 0 \<le> n) ''GAS_FEE_CAP'' (\<lambda>n c. c\<lparr>cf_GasFeeCap := n\<rparr>) \<circ>
     env_number getenv ParseInt (\<lambda>n. 0 \<le> n) ''GAS_TIP_CAP'' (\<lambda>n c. c\<lparr>cf_GasTipCap := n\<rparr>) \<circ>
     env_text getenv ''CORS_ALLOWED_ORIGINS'' (\<lambda>v c. c\<lparr>cf_CORSAllowedOrigins := v\<rparr>) \<circ>
     env_number getenv ParseInt (\<lambda>n. 0 < n) ''BLOCK_TIME_MS'' (\<lambda>n c. c\<lparr>cf_BlockTimeMS := n\<rparr>)"

definition env_privacy :: "(string \<Rightarrow> string) \<Rightarrow> config \<Rightarrow> config" where
  "env_privacy getenv =
     env_flag getenv ''PRIVACY_ROUTE_ALL'' (\<lambda>c. c\<lparr>cf_PrivacyRouteAll := True\<rparr>) \<circ>
     env_text getenv ''PRIVACY_ORG_ID'' (\<lambda>v c. c\<lparr>cf_PrivacyOrgID := v\<rparr>) \<circ>
     env_text getenv ''PRIVACY_ORG_ID_FILE'' (\<lambda>v c. c\<lparr>cf_PrivacyOrgIDFile := v\<rparr>) \<circ>
     env_text getenv ''PRIVACY_AUTH_TOKEN_FILE'' (\<lambda>v c. c\<lparr>cf_PrivacyAuthTokenFile := v\<rparr>) \<circ>
     env_text getenv ''PRIVACY_RPC_URL'' (\<lambda>v c. c\<lparr>cf_PrivacyRPCURL := v\<rparr>)"

definition env_config :: "(string \<Rightarrow> string) \<Rightarrow> config_err + config" where
  "env_config getenv =
     (let c = env_limits getenv (env_urls getenv default_config); v = getenv ''L2_BATCH_ACK_TIMEOUT'' in
      if v = '''' then Inr (env_privacy getenv c)
      else case ParseBatchAckTimeout v of Inl e \<Rightarrow> Inl e | Inr d \<Rightarrow> Inr (env_privacy getenv (c\<lparr>cf_L2BatchAckTimeout := d\<rparr>)))"

section \<open>Flags and validation\<close>

record flags =
  fg_builder :: "string option"
  fg_l2 :: "string option"
  fg_preconf_ws :: "string option"
  fg_chainid :: "int option"
  fg_gasprice :: "int option"
  fg_gastipcap :: "int option"
  fg_gasfeecap :: "int option"
  fg_gaslimit :: "u64 option"
  fg_listen :: "string option"
  fg_pattern :: "string option"
  fg_tps :: "int option"
  fg_duration :: "int option"
  fg_accounts :: "int option"

definition given :: "'a option \<Rightarrow> 'a \<Rightarrow> 'a" where
  "given flag dflt = (case flag of None \<Rightarrow> dflt | Some v \<Rightarrow> v)"

definition apply_flags :: "flags \<Rightarrow> config \<Rightarrow> config" where
  "apply_flags f c =
     c\<lparr>cf_BuilderRPCURL := given (fg_builder f) (cf_BuilderRPCURL c), cf_L2RPCURL := given (fg_l2 f) (cf_L2RPCURL c),
       cf_PreconfWSURL := given (fg_preconf_ws f) (cf_PreconfWSURL c), cf_ChainID := given (fg_chainid f) (cf_ChainID c),
       cf_GasPrice := given (fg_gasprice f) (cf_GasPrice c), cf_GasTipCap := given (fg_gastipcap f) (cf_GasTipCap c),
       cf_GasFeeCap := given (fg_gasfeecap f) (cf_GasFeeCap c), cf_GasLimit := given (fg_gaslimit f) (cf_GasLimit c),
       cf_ListenAddr := given (fg_listen f) (cf_ListenAddr c)\<rparr>"

text \<open>A gas price that was set stands for the tip, unless the tip was changed too.\<close>

definition legacy_gas_price :: "config \<Rightarrow> config" where
  "legacy_gas_price c =
     (if cf_GasPrice c \<noteq> 1000000000 \<and> cf_GasTipCap c = 1000000000 then c\<lparr>cf_GasTipCap := cf_GasPrice c\<rparr> else c)"

definition config_Validate :: "config \<Rightarrow> config_err option" where
  "config_Validate c =
     (if cf_BuilderRPCURL c = '''' then Some NoBuilderURL
      else if cf_L2RPCURL c = '''' then Some NoL2URL
      else if cf_ChainID c \<le> 0 then Some BadChainID
      else if cf_GasTipCap c < 0 then Some BadTipCap
      else if cf_GasFeeCap c < 0 then Some BadFeeCap
      else if cf_GasLimit c = 0 then Some NoGasLimit
      else None)"

definition load_pattern_of :: "string \<Rightarrow> load_pattern" where
  "load_pattern_of s =
     (if s = ''constant'' then PatternConstant else if s = ''ramp'' then PatternRamp else if s = ''spike'' then PatternSpike
      else if s = ''adaptive'' then PatternAdaptive else if s = ''realistic'' then PatternRealistic
      else if s = ''adaptive-realistic'' then PatternAdaptiveRealistic else PatternOther s)"

definition cli_Validate :: "cli_config \<Rightarrow> config_err option" where
  "cli_Validate c =
     (if cli_Pattern c \<notin> {PatternConstant, PatternRamp, PatternSpike, PatternAdaptive, PatternRealistic, PatternAdaptiveRealistic}
      then Some (BadPattern (cli_Pattern c))
      else if cli_TPS c \<le> 0 then Some BadTPS
      else if cli_Duration c \<le> 0 then Some BadDuration
      else if cli_NumAccounts c \<le> 0 \<or> 10000 < cli_NumAccounts c then Some BadAccounts
      else None)"

definition cli_of :: "flags \<Rightarrow> cli_config" where
  "cli_of f =
     \<lparr>cli_Pattern = (if given (fg_pattern f) '''' = '''' then PatternConstant else load_pattern_of (given (fg_pattern f) '''')),
      cli_TPS = given (fg_tps f) 0, cli_Duration = given (fg_duration f) (30 * second), cli_NumAccounts = given (fg_accounts f) 100\<rparr>"

definition Load :: "(string \<Rightarrow> string) \<Rightarrow> flags \<Rightarrow> config_err + config \<times> cli_config option" where
  "Load getenv f =
     (case env_config getenv of Inl e \<Rightarrow> Inl e
      | Inr c0 \<Rightarrow>
          let c1 = legacy_gas_price (apply_flags f c0); caps = map_get DefaultRegistry (cf_ExecutionLayer c1);
              c = c1\<lparr>cf_Capabilities := caps\<rparr>
          in if caps = None then Inl (UnknownLayer (cf_ExecutionLayer c))
             else case config_Validate c of Some e \<Rightarrow> Inl e
             | None \<Rightarrow>
                 if 0 < given (fg_tps f) 0 then
                   (case cli_Validate (cli_of f) of Some e \<Rightarrow> Inl e | None \<Rightarrow> Inr (c, Some (cli_of f)))
                 else Inr (c, None))"

section \<open>The binary\<close>

text \<open>\<open>fmt.Sscanf(s, "%d")\<close>: blanks but no newline, a sign, and digits up to the first other character.\<close>

definition Sscanf_d :: "string \<Rightarrow> int option" where
  "Sscanf_d s =
     (let t = dropWhile (\<lambda>c. is_space c \<and> c \<noteq> CHR 0x0A) s; neg = (t \<noteq> [] \<and> hd t = CHR ''-'');
          body = (if neg \<or> (t \<noteq> [] \<and> hd t = CHR ''+'') then tl t else t)
      in case parse_digits (takeWhile is_digit body) of None \<Rightarrow> None
         | Some n \<Rightarrow> let v = (if neg then - int n else int n) in if is_i64 v then Some v else None)"

definition GetEnvOrDefault :: "(string \<Rightarrow> string) \<Rightarrow> string \<Rightarrow> string \<Rightarrow> string" where
  "GetEnvOrDefault getenv key dflt = (if getenv key \<noteq> '''' then getenv key else dflt)"

definition GetEnvIntOrDefault :: "(string \<Rightarrow> string) \<Rightarrow> string \<Rightarrow> int \<Rightarrow> int" where
  "GetEnvIntOrDefault getenv key dflt =
     (if getenv key \<noteq> '''' then (case Sscanf_d (getenv key) of Some i \<Rightarrow> i | None \<Rightarrow> dflt) else dflt)"

definition envDuration :: "(string \<Rightarrow> string) \<Rightarrow> string \<Rightarrow> int" where
  "envDuration getenv key =
     (if getenv key = '''' then 0 else case ParseDuration (getenv key) of None \<Rightarrow> 0 | Some d \<Rightarrow> if d \<le> 0 then 0 else d)"

definition envPositiveInt :: "(string \<Rightarrow> string) \<Rightarrow> string \<Rightarrow> int" where
  "envPositiveInt getenv key =
     (if getenv key = '''' then 0 else case ParseInt (getenv key) of None \<Rightarrow> 0 | Some n \<Rightarrow> if n \<le> 0 then 0 else n)"

definition batchAckTimeoutFromEnv :: "(string \<Rightarrow> string) \<Rightarrow> config_err + int" where
  "batchAckTimeoutFromEnv getenv =
     (let v = getenv ''L2_BATCH_ACK_TIMEOUT'' in if v = '''' then Inr 0 else ParseBatchAckTimeout v)"

record main_flags =
  mf_builder :: "string option"
  mf_l2 :: "string option"
  mf_preconf_ws :: "string option"
  mf_chainid :: "int option"
  mf_gasprice :: "int option"
  mf_gaslimit :: "u64 option"
  mf_listen :: "string option"
  mf_database :: "string option"
  mf_block_time_ms :: "int option"
  mf_execution_layer :: "string option"

definition gas_env :: "(string \<Rightarrow> string) \<Rightarrow> string \<Rightarrow> int \<Rightarrow> int" where
  "gas_env getenv key dflt =
     (if getenv key = '''' then dflt
      else case ParseInt (getenv key) of None \<Rightarrow> dflt | Some n \<Rightarrow> if 0 \<le> n then n else dflt)"

definition env_is_on :: "(string \<Rightarrow> string) \<Rightarrow> string \<Rightarrow> bool" where
  "env_is_on getenv key \<longleftrightarrow> getenv key = ''true'' \<or> getenv key = ''1''"

text \<open>\<open>main\<close> builds the configuration by hand; \<open>Inl\<close> is an exit before the server starts.\<close>

definition main_config :: "(string \<Rightarrow> string) \<Rightarrow> main_flags \<Rightarrow> config_err + config" where
  "main_config getenv f =
     (case batchAckTimeoutFromEnv getenv of Inl e \<Rightarrow> Inl e
      | Inr ack \<Rightarrow>
          let gasPrice = given (mf_gasprice f) 1000000000;
              layer = given (mf_execution_layer f) (GetEnvOrDefault getenv ''EXECUTION_LAYER'' ''reth'');
              caps = map_get DefaultRegistry layer
          in if caps = None then Inl (UnknownLayer layer)
             else Inr
               \<lparr>cf_BuilderRPCURL = given (mf_builder f) (GetEnvOrDefault getenv ''BUILDER_RPC_URL'' ''http://localhost:13000''),
                cf_L2RPCURL = given (mf_l2 f) (GetEnvOrDefault getenv ''L2_RPC_URL'' ''http://localhost:13000''),
                cf_L2WSURL = '''', cf_PreconfWSURL = given (mf_preconf_ws f) (GetEnvOrDefault getenv ''PRECONF_WS_URL'' ''''),
                cf_ListenAddr = given (mf_listen f) (GetEnvOrDefault getenv ''LISTEN_ADDR'' '':3001''),
                cf_DatabasePath = given (mf_database f) (GetEnvOrDefault getenv ''DATABASE_PATH'' ''./data/loadgen.db''),
                cf_ExecutionLayer = layer, cf_CORSAllowedOrigins = '''',
                cf_L2AuthTokenFile = getenv ''L2_AUTH_TOKEN_FILE'', cf_PrivacyRPCURL = getenv ''PRIVACY_RPC_URL'',
                cf_PrivacyAuthTokenFile = getenv ''PRIVACY_AUTH_TOKEN_FILE'', cf_PrivacyOrgIDFile = getenv ''PRIVACY_ORG_ID_FILE'',
                cf_PrivacyOrgID = getenv ''PRIVACY_ORG_ID'', cf_PrivacyRouteAll = env_is_on getenv ''PRIVACY_ROUTE_ALL'',
                cf_ChainID = given (mf_chainid f) 42069, cf_GasPrice = gasPrice, cf_GasTipCap = gas_env getenv ''GAS_TIP_CAP'' gasPrice,
                cf_GasFeeCap = gas_env getenv ''GAS_FEE_CAP'' 0, cf_GasLimit = given (mf_gaslimit f) 21000,
                cf_BlockTimeMS = given (mf_block_time_ms f) (GetEnvIntOrDefault getenv ''BLOCK_TIME_MS'' 250),
                cf_L2ClientTimeout = envDuration getenv ''L2_CLIENT_TIMEOUT'',
                cf_L2ClientMaxRetries = envPositiveInt getenv ''L2_CLIENT_MAX_RETRIES'',
                cf_L2MaxSenderWorkers = envPositiveInt getenv ''L2_MAX_SENDER_WORKERS'',
                cf_L2MaxConnsPerHost = envPositiveInt getenv ''L2_MAX_CONNS_PER_HOST'',
                cf_L2PipelineBatchDepth = envPositiveInt getenv ''L2_PIPELINE_BATCH_DEPTH'',
                cf_L2ForceHTTP2 = env_is_on getenv ''L2_FORCE_HTTP2'', cf_L2BatchAckTimeout = ack,
                cf_Gasless = env_is_on getenv ''GASLESS'', cf_Capabilities = caps\<rparr>)"

section \<open>The clients\<close>

record http_config = client_config +
  hc_URL :: string
  hc_Timeout :: int
  hc_MaxConnsPerHost :: int
  hc_ForceHTTP2 :: bool
  hc_AuthToken :: string

definition http_config_of :: "string \<Rightarrow> http_config" where
  "http_config_of url =
     \<lparr>cc_MaxRetries = 3, cc_InitialBackoff = 100 * 1000000, cc_MaxBackoff = 500 * 1000000, hc_URL = url, hc_Timeout = 2 * second,
      hc_MaxConnsPerHost = 0, hc_ForceHTTP2 = False, hc_AuthToken = ''''\<rparr>"

definition applyL2ClientTuning :: "config \<Rightarrow> http_config \<Rightarrow> http_config" where
  "applyL2ClientTuning cfg c =
     (let c1 = (if 0 < cf_L2ClientTimeout cfg then c\<lparr>hc_Timeout := cf_L2ClientTimeout cfg\<rparr> else c);
          c2 = (if 0 < cf_L2ClientMaxRetries cfg then c1\<lparr>cc_MaxRetries := cf_L2ClientMaxRetries cfg - 1\<rparr> else c1);
          c3 = (if 0 < cf_L2MaxConnsPerHost cfg then c2\<lparr>hc_MaxConnsPerHost := cf_L2MaxConnsPerHost cfg\<rparr> else c2)
      in if cf_L2ForceHTTP2 cfg then c3\<lparr>hc_ForceHTTP2 := True\<rparr> else c3)"

definition TrimRight_slash :: "string \<Rightarrow> string" where
  "TrimRight_slash s = rev (dropWhile (\<lambda>c. c = CHR ''/'') (rev s))"

definition privacyURL :: "(string \<Rightarrow> string option) \<Rightarrow> config \<Rightarrow> string" where
  "privacyURL readFile cfg =
     (let org = TrimSpace (cf_PrivacyOrgID cfg);
          orgID = (if org = '''' \<and> cf_PrivacyOrgIDFile cfg \<noteq> '''' then
                     (case readFile (cf_PrivacyOrgIDFile cfg) of None \<Rightarrow> org | Some b \<Rightarrow> TrimSpace b) else org)
      in if orgID = '''' then cf_PrivacyRPCURL cfg else TrimRight_slash (cf_PrivacyRPCURL cfg) @ ''/rpc/'' @ orgID)"

definition l2AuthToken :: "(string \<Rightarrow> string option) \<Rightarrow> config \<Rightarrow> string" where
  "l2AuthToken readFile cfg =
     (if cf_L2AuthTokenFile cfg = '''' then ''''
      else case readFile (cf_L2AuthTokenFile cfg) of None \<Rightarrow> '''' | Some b \<Rightarrow> TrimSpace b)"

text \<open>A client: its settings, and whether it splits batches into single calls.\<close>

datatype rpc_client = HTTPClient http_config | NoBatchClient http_config

definition buildPrivacyClient :: "(string \<Rightarrow> string option) \<Rightarrow> config \<Rightarrow> rpc_client option" where
  "buildPrivacyClient readFile cfg =
     (let pcfg = http_config_of (privacyURL readFile cfg) in
      if cf_PrivacyAuthTokenFile cfg = '''' then Some (NoBatchClient pcfg)
      else map_option (\<lambda>b. NoBatchClient (pcfg\<lparr>hc_AuthToken := TrimSpace b\<rparr>)) (readFile (cf_PrivacyAuthTokenFile cfg)))"

definition route_all :: "config \<Rightarrow> bool" where
  "route_all cfg \<longleftrightarrow> cf_PrivacyRouteAll cfg \<and> cf_PrivacyRPCURL cfg \<noteq> ''''"

text \<open>The clients for the builder and the node that \<open>NewLoadGenerator\<close> makes.\<close>

definition default_client :: "(string \<Rightarrow> string option) \<Rightarrow> config \<Rightarrow> string \<Rightarrow> rpc_client" where
  "default_client readFile cfg url =
     HTTPClient (applyL2ClientTuning cfg ((http_config_of url)\<lparr>hc_AuthToken := l2AuthToken readFile cfg\<rparr>))"

definition new_clients :: "(string \<Rightarrow> string option) \<Rightarrow> config \<Rightarrow> rpc_client \<times> rpc_client" where
  "new_clients readFile cfg =
     (case (if route_all cfg then buildPrivacyClient readFile cfg else None) of
        Some c \<Rightarrow> (c, c)
      | None \<Rightarrow> (default_client readFile cfg (cf_BuilderRPCURL cfg), default_client readFile cfg (cf_L2RPCURL cfg)))"

section \<open>Valid configurations\<close>

text \<open>The values the rest of the program divides by, waits for and counts with.\<close>

definition limits_ok :: "config \<Rightarrow> bool" where
  "limits_ok c \<longleftrightarrow> 0 < cf_BlockTimeMS c \<and> 0 \<le> cf_L2ClientTimeout c \<and> 0 \<le> cf_L2ClientMaxRetries c \<and> 0 \<le> cf_L2MaxSenderWorkers c \<and>
     0 \<le> cf_L2MaxConnsPerHost c \<and> (cf_L2PipelineBatchDepth c = 0 \<or> 1 < cf_L2PipelineBatchDepth c) \<and> 0 \<le> cf_L2BatchAckTimeout c"

definition config_ok :: "config \<Rightarrow> bool" where
  "config_ok c \<longleftrightarrow> limits_ok c \<and> cf_BuilderRPCURL c \<noteq> '''' \<and> cf_L2RPCURL c \<noteq> '''' \<and> 0 < cf_ChainID c \<and> 0 \<le> cf_GasTipCap c \<and>
     0 \<le> cf_GasFeeCap c \<and> cf_GasLimit c \<noteq> 0 \<and>
     (\<exists>caps. cf_Capabilities c = Some caps \<and> el_Name caps = cf_ExecutionLayer c \<and> caps \<in> snd ` set DefaultRegistry)"

definition cli_ok :: "cli_config \<Rightarrow> bool" where
  "cli_ok c \<longleftrightarrow> (\<forall>s. cli_Pattern c \<noteq> PatternOther s) \<and> 0 < cli_TPS c \<and> 0 < cli_Duration c \<and> cli_NumAccounts c \<in> {1..10000}"

lemma env_text_keeps: "P c \<Longrightarrow> (\<And>v c. P c \<Longrightarrow> P (f v c)) \<Longrightarrow> P (env_text getenv name f c)"
  by (simp add: env_text_def)

lemma env_number_keeps: "P c \<Longrightarrow> (\<And>n c. P c \<Longrightarrow> in_range n \<Longrightarrow> P (f n c)) \<Longrightarrow> P (env_number getenv parse in_range name f c)"
  by (simp add: env_number_def env_text_def split: option.split)

lemma env_flag_keeps: "P c \<Longrightarrow> (\<And>c. P c \<Longrightarrow> P (f c)) \<Longrightarrow> P (env_flag getenv name f c)"
  by (simp add: env_flag_def)

lemmas limits_keeps = env_text_keeps [where P = limits_ok] env_number_keeps [where P = limits_ok] env_flag_keeps [where P = limits_ok]

lemma env_urls_limits: "limits_ok c \<Longrightarrow> limits_ok (env_urls getenv c)"
  unfolding env_urls_def comp_def by ((rule limits_keeps)+; simp add: limits_ok_def)

lemma env_limits_limits: "limits_ok c \<Longrightarrow> limits_ok (env_limits getenv c)"
  unfolding env_limits_def comp_def by ((rule limits_keeps)+; simp add: limits_ok_def)

lemma env_privacy_limits: "limits_ok c \<Longrightarrow> limits_ok (env_privacy getenv c)"
  unfolding env_privacy_def comp_def by ((rule limits_keeps)+; simp add: limits_ok_def)

lemma env_config_ok: "env_config getenv = Inr c \<Longrightarrow> limits_ok c"
proof -
  assume env: "env_config getenv = Inr c"
  define c0 where "c0 = env_limits getenv (env_urls getenv default_config)"
  have "limits_ok default_config" by (simp add: limits_ok_def default_config_def)
  then have c0: "limits_ok c0" unfolding c0_def by (intro env_urls_limits env_limits_limits)
  moreover have "0 \<le> d \<Longrightarrow> limits_ok (c0\<lparr>cf_L2BatchAckTimeout := d\<rparr>)" for d using c0 by (simp add: limits_ok_def)
  ultimately show ?thesis using env unfolding env_config_def c0_def [symmetric] Let_def ParseBatchAckTimeout_def
    by (auto simp: env_privacy_limits split: if_splits option.splits)
qed

lemma default_layer: "map_get DefaultRegistry s = Some caps \<Longrightarrow> el_Name caps = s \<and> caps \<in> snd ` set DefaultRegistry"
  by (auto simp: DefaultRegistry_def layer_Register_def map_get_def map_put_def OpRethCapabilities_def GravityRethCapabilities_def
      CDKErigonCapabilities_def RethExtNativeCapabilities_def RethCapabilities_def split: if_splits)

text \<open>
  C34: Every configuration that \<open>Load\<close> accepts is well-formed: URLs and gas limit are set, the chain id and the
  block time are positive, fees and limits are not negative, the pipeline depth is unset or above one, and the
  capabilities are those of the registered execution layer of that name.  Command-line settings come with a
  known pattern, a positive rate and duration and at most 10000 accounts.
\<close>
theorem loaded_config_is_valid:
  assumes "Load getenv f = Inr (c, cli)"
  shows "config_ok c \<and> (\<forall>s. cli = Some s \<longrightarrow> cli_ok s)"
proof -
  obtain c0 where env: "env_config getenv = Inr c0" using assms by (auto simp: Load_def split: sum.splits)
  define c1 where "c1 = legacy_gas_price (apply_flags f c0)"
  define caps where "caps = map_get DefaultRegistry (cf_ExecutionLayer c1)"
  have c: "c = c1\<lparr>cf_Capabilities := caps\<rparr>" "caps \<noteq> None" "config_Validate c = None"
    and cli: "cli = Some s \<Longrightarrow> s = cli_of f \<and> cli_Validate s = None" for s
    using assms unfolding Load_def env sum.case Let_def c1_def [symmetric] caps_def [symmetric]
    by (auto split: if_splits option.splits)
  have "limits_ok c0" by (rule env_config_ok [OF env])
  then have "limits_ok c" by (simp add: c(1) c1_def legacy_gas_price_def apply_flags_def limits_ok_def)
  moreover have "\<exists>cp. cf_Capabilities c = Some cp \<and> el_Name cp = cf_ExecutionLayer c \<and> cp \<in> snd ` set DefaultRegistry"
    using c(2) default_layer unfolding c(1) caps_def by auto
  ultimately have "config_ok c" using c(3) by (auto simp: config_ok_def config_Validate_def split: if_splits)
  moreover have "cli_ok s" if "cli = Some s" for s
    using cli [OF that] by (auto simp: cli_ok_def cli_Validate_def split: if_splits)
  ultimately show ?thesis by blast
qed

definition no_flags :: flags where
  "no_flags = \<lparr>fg_builder = None, fg_l2 = None, fg_preconf_ws = None, fg_chainid = None, fg_gasprice = None, fg_gastipcap = None,
     fg_gasfeecap = None, fg_gaslimit = None, fg_listen = None, fg_pattern = None, fg_tps = None, fg_duration = None, fg_accounts = None\<rparr>"

definition no_main_flags :: main_flags where
  "no_main_flags = \<lparr>mf_builder = None, mf_l2 = None, mf_preconf_ws = None, mf_chainid = None, mf_gasprice = None, mf_gaslimit = None,
     mf_listen = None, mf_database = None, mf_block_time_ms = None, mf_execution_layer = None\<rparr>"

definition demo_environment :: "string \<Rightarrow> string" where
  "demo_environment = (\<lambda>name. if name = ''EXECUTION_LAYER'' then ''cdk-erigon'' else if name = ''GAS_TIP_CAP'' then ''5''
     else if name = ''L2_BATCH_ACK_TIMEOUT'' then ''2s'' else '''')"

lemma demo_load:
  "\<exists>c cli. Load demo_environment (no_flags\<lparr>fg_tps := Some 50\<rparr>) = Inr (c, cli) \<and> cf_GasTipCap c = 5 \<and> cli \<noteq> None" (is ?tps)
  "\<exists>c cli. Load demo_environment no_flags = Inr (c, cli)" (is ?plain)
proof -
  have "ParseDuration ''2s'' = Some (2 * second)"
    by (simp add: ParseDuration_def duration_sum.simps duration_part_def duration_number_def unit_text_def is_digit_def
        duration_unit_def nanoseconds_def second_def)
  moreover have "ParseInt ''5'' = Some 5"
    by (simp add: ParseInt_def parse_digits_def digits_value_def is_digit_def is_i64_def)
  ultimately show ?tps ?plain
    by (simp_all add: Load_def env_config_def env_limits_def env_urls_def env_privacy_def env_text_def env_number_def env_flag_def
        demo_environment_def ParseBatchAckTimeout_def default_config_def apply_flags_def legacy_gas_price_def given_def no_flags_def
        DefaultRegistry_def layer_Register_def map_get_def map_put_def CDKErigonCapabilities_def OpRethCapabilities_def
        GravityRethCapabilities_def RethExtNativeCapabilities_def RethCapabilities_def config_Validate_def cli_Validate_def cli_of_def
        second_def)
qed

theorem loaded_config_is_valid_witness:
  "\<exists>c cli. Load demo_environment (no_flags\<lparr>fg_tps := Some 50\<rparr>) = Inr (c, cli) \<and> config_ok c \<and> cf_GasTipCap c = 5"
  using demo_load(1) loaded_config_is_valid by blast

section \<open>Where a setting comes from\<close>

text \<open>A step of the environment changes its own field and no other.\<close>

definition number_from :: "(string \<Rightarrow> string) \<Rightarrow> (string \<Rightarrow> int option) \<Rightarrow> (int \<Rightarrow> bool) \<Rightarrow> string \<Rightarrow> int \<Rightarrow> int" where
  "number_from getenv parse in_range name d =
     (if getenv name = '''' then d else case parse (getenv name) of None \<Rightarrow> d | Some n \<Rightarrow> if in_range n then n else d)"

lemma env_text_other: "(\<And>v c. sel (f v c) = sel c) \<Longrightarrow> sel (env_text getenv name f c) = sel c"
  by (simp add: env_text_def)

lemma env_number_other: "(\<And>n c. sel (f n c) = sel c) \<Longrightarrow> sel (env_number getenv parse in_range name f c) = sel c"
  by (simp add: env_number_def env_text_def split: option.split)

lemma env_flag_other: "(\<And>c. sel (f c) = sel c) \<Longrightarrow> sel (env_flag getenv name f c) = sel c"
  by (simp add: env_flag_def)

lemma env_text_at: "(\<And>v c. sel (f v c) = v) \<Longrightarrow> sel (env_text getenv name f c) = (if getenv name = '''' then sel c else getenv name)"
  by (simp add: env_text_def)

lemma env_number_at: "(\<And>n c. sel (f n c) = n) \<Longrightarrow> sel (env_number getenv parse in_range name f c) = number_from getenv parse in_range name (sel c)"
  by (simp add: env_number_def env_text_def number_from_def split: option.split)

lemma env_flag_at: "(\<And>c. sel (f c)) \<Longrightarrow> sel (env_flag getenv name f c) = (env_is_on getenv name \<or> sel c)"
  by (auto simp: env_flag_def env_is_on_def)

lemmas env_fields =
  env_text_other [where sel = cf_BuilderRPCURL] env_text_other [where sel = cf_L2RPCURL] env_text_other [where sel = cf_L2WSURL]
  env_text_other [where sel = cf_PreconfWSURL] env_text_other [where sel = cf_ListenAddr] env_text_other [where sel = cf_DatabasePath]
  env_text_other [where sel = cf_ExecutionLayer] env_text_other [where sel = cf_CORSAllowedOrigins] env_text_other [where sel = cf_L2AuthTokenFile]
  env_text_other [where sel = cf_PrivacyRPCURL] env_text_other [where sel = cf_PrivacyAuthTokenFile] env_text_other [where sel = cf_PrivacyOrgIDFile]
  env_text_other [where sel = cf_PrivacyOrgID] env_text_other [where sel = cf_GasTipCap] env_text_other [where sel = cf_GasFeeCap]
  env_text_other [where sel = cf_BlockTimeMS] env_text_other [where sel = cf_L2ClientTimeout] env_text_other [where sel = cf_L2ClientMaxRetries]
  env_text_other [where sel = cf_L2MaxSenderWorkers] env_text_other [where sel = cf_L2MaxConnsPerHost] env_text_other [where sel = cf_L2PipelineBatchDepth]
  env_text_other [where sel = cf_PrivacyRouteAll] env_text_other [where sel = cf_L2ForceHTTP2] env_text_other [where sel = cf_ChainID]
  env_text_other [where sel = cf_GasPrice] env_text_other [where sel = cf_GasLimit] env_text_other [where sel = cf_L2BatchAckTimeout]
  env_text_other [where sel = cf_Gasless] env_text_other [where sel = cf_Capabilities]
  env_number_other [where sel = cf_BuilderRPCURL] env_number_other [where sel = cf_L2RPCURL] env_number_other [where sel = cf_L2WSURL]
  env_number_other [where sel = cf_PreconfWSURL] env_number_other [where sel = cf_ListenAddr] env_number_other [where sel = cf_DatabasePath]
  env_number_other [where sel = cf_ExecutionLayer] env_number_other [where sel = cf_CORSAllowedOrigins] env_number_other [where sel = cf_L2AuthTokenFile]
  env_number_other [where sel = cf_PrivacyRPCURL] env_number_other [where sel = cf_PrivacyAuthTokenFile] env_number_other [where sel = cf_PrivacyOrgIDFile]
  env_number_other [where sel = cf_PrivacyOrgID] env_number_other [where sel = cf_GasTipCap] env_number_other [where sel = cf_GasFeeCap]
  env_number_other [where sel = cf_BlockTimeMS] env_number_other [where sel = cf_L2ClientTimeout] env_number_other [where sel = cf_L2ClientMaxRetries]
  env_number_other [where sel = cf_L2MaxSenderWorkers] env_number_other [where sel = cf_L2MaxConnsPerHost] env_number_other [where sel = cf_L2PipelineBatchDepth]
  env_number_other [where sel = cf_PrivacyRouteAll] env_number_other [where sel = cf_L2ForceHTTP2] env_number_other [where sel = cf_ChainID]
  env_number_other [where sel = cf_GasPrice] env_number_other [where sel = cf_GasLimit] env_number_other [where sel = cf_L2BatchAckTimeout]
  env_number_other [where sel = cf_Gasless] env_number_other [where sel = cf_Capabilities]
  env_flag_other [where sel = cf_BuilderRPCURL] env_flag_other [where sel = cf_L2RPCURL] env_flag_other [where sel = cf_L2WSURL]
  env_flag_other [where sel = cf_PreconfWSURL] env_flag_other [where sel = cf_ListenAddr] env_flag_other [where sel = cf_DatabasePath]
  env_flag_other [where sel = cf_ExecutionLayer] env_flag_other [where sel = cf_CORSAllowedOrigins] env_flag_other [where sel = cf_L2AuthTokenFile]
  env_flag_other [where sel = cf_PrivacyRPCURL] env_flag_other [where sel = cf_PrivacyAuthTokenFile] env_flag_other [where sel = cf_PrivacyOrgIDFile]
  env_flag_other [where sel = cf_PrivacyOrgID] env_flag_other [where sel = cf_GasTipCap] env_flag_other [where sel = cf_GasFeeCap]
  env_flag_other [where sel = cf_BlockTimeMS] env_flag_other [where sel = cf_L2ClientTimeout] env_flag_other [where sel = cf_L2ClientMaxRetries]
  env_flag_other [where sel = cf_L2MaxSenderWorkers] env_flag_other [where sel = cf_L2MaxConnsPerHost] env_flag_other [where sel = cf_L2PipelineBatchDepth]
  env_flag_other [where sel = cf_PrivacyRouteAll] env_flag_other [where sel = cf_L2ForceHTTP2] env_flag_other [where sel = cf_ChainID]
  env_flag_other [where sel = cf_GasPrice] env_flag_other [where sel = cf_GasLimit] env_flag_other [where sel = cf_L2BatchAckTimeout]
  env_flag_other [where sel = cf_Gasless] env_flag_other [where sel = cf_Capabilities]
  env_text_at [where sel = cf_BuilderRPCURL] env_text_at [where sel = cf_L2RPCURL] env_text_at [where sel = cf_L2WSURL]
  env_text_at [where sel = cf_PreconfWSURL] env_text_at [where sel = cf_ListenAddr] env_text_at [where sel = cf_DatabasePath]
  env_text_at [where sel = cf_ExecutionLayer] env_text_at [where sel = cf_CORSAllowedOrigins] env_text_at [where sel = cf_L2AuthTokenFile]
  env_text_at [where sel = cf_PrivacyRPCURL] env_text_at [where sel = cf_PrivacyAuthTokenFile] env_text_at [where sel = cf_PrivacyOrgIDFile]
  env_text_at [where sel = cf_PrivacyOrgID]
  env_number_at [where sel = cf_GasTipCap] env_number_at [where sel = cf_GasFeeCap] env_number_at [where sel = cf_BlockTimeMS]
  env_number_at [where sel = cf_L2ClientTimeout] env_number_at [where sel = cf_L2ClientMaxRetries] env_number_at [where sel = cf_L2MaxSenderWorkers]
  env_number_at [where sel = cf_L2MaxConnsPerHost] env_number_at [where sel = cf_L2PipelineBatchDepth]
  env_flag_at [where sel = cf_PrivacyRouteAll] env_flag_at [where sel = cf_L2ForceHTTP2]

definition plain_config :: "(string \<Rightarrow> string) \<Rightarrow> int \<Rightarrow> config" where
  "plain_config getenv d = env_privacy getenv ((env_limits getenv (env_urls getenv default_config))\<lparr>cf_L2BatchAckTimeout := d\<rparr>)"

lemma plain_texts:
  "cf_BuilderRPCURL (plain_config getenv d) = GetEnvOrDefault getenv ''BUILDER_RPC_URL'' ''http://localhost:13000''"
  "cf_L2RPCURL (plain_config getenv d) = GetEnvOrDefault getenv ''L2_RPC_URL'' ''http://localhost:13000''"
  "cf_L2WSURL (plain_config getenv d) = getenv ''L2_WS_URL''"
  "cf_PreconfWSURL (plain_config getenv d) = getenv ''PRECONF_WS_URL''"
  "cf_ListenAddr (plain_config getenv d) = GetEnvOrDefault getenv ''LISTEN_ADDR'' '':3001''"
  "cf_DatabasePath (plain_config getenv d) = GetEnvOrDefault getenv ''DATABASE_PATH'' ''./data/loadgen.db''"
  "cf_ExecutionLayer (plain_config getenv d) = GetEnvOrDefault getenv ''EXECUTION_LAYER'' ''reth''"
  "cf_CORSAllowedOrigins (plain_config getenv d) = GetEnvOrDefault getenv ''CORS_ALLOWED_ORIGINS'' ''*''"
  by (simp add: plain_config_def env_limits_def env_urls_def env_privacy_def comp_def env_fields GetEnvOrDefault_def default_config_def)+

lemma plain_rest:
  "cf_L2AuthTokenFile (plain_config getenv d) = getenv ''L2_AUTH_TOKEN_FILE''"
  "cf_PrivacyRPCURL (plain_config getenv d) = getenv ''PRIVACY_RPC_URL''"
  "cf_PrivacyAuthTokenFile (plain_config getenv d) = getenv ''PRIVACY_AUTH_TOKEN_FILE''"
  "cf_PrivacyOrgIDFile (plain_config getenv d) = getenv ''PRIVACY_ORG_ID_FILE''"
  "cf_PrivacyOrgID (plain_config getenv d) = getenv ''PRIVACY_ORG_ID''"
  "cf_PrivacyRouteAll (plain_config getenv d) = env_is_on getenv ''PRIVACY_ROUTE_ALL''"
  "cf_L2ForceHTTP2 (plain_config getenv d) = env_is_on getenv ''L2_FORCE_HTTP2''"
  "cf_ChainID (plain_config getenv d) = 42069" "cf_GasPrice (plain_config getenv d) = 1000000000"
  "cf_GasLimit (plain_config getenv d) = 21000" "cf_Gasless (plain_config getenv d) = False"
  "cf_Capabilities (plain_config getenv d) = None"
  by (simp add: plain_config_def env_limits_def env_urls_def env_privacy_def comp_def env_fields default_config_def)+

lemma plain_numbers:
  "cf_GasTipCap (plain_config getenv d) = gas_env getenv ''GAS_TIP_CAP'' 1000000000"
  "cf_GasFeeCap (plain_config getenv d) = gas_env getenv ''GAS_FEE_CAP'' 0"
  "cf_BlockTimeMS (plain_config getenv d) = number_from getenv ParseInt (\<lambda>n. 0 < n) ''BLOCK_TIME_MS'' 250"
  "cf_L2ClientTimeout (plain_config getenv d) = envDuration getenv ''L2_CLIENT_TIMEOUT''"
  "cf_L2ClientMaxRetries (plain_config getenv d) = envPositiveInt getenv ''L2_CLIENT_MAX_RETRIES''"
  "cf_L2MaxSenderWorkers (plain_config getenv d) = envPositiveInt getenv ''L2_MAX_SENDER_WORKERS''"
  "cf_L2MaxConnsPerHost (plain_config getenv d) = envPositiveInt getenv ''L2_MAX_CONNS_PER_HOST''"
  "cf_L2PipelineBatchDepth (plain_config getenv d) = number_from getenv ParseInt (\<lambda>n. 1 < n) ''L2_PIPELINE_BATCH_DEPTH'' 0"
  "cf_L2BatchAckTimeout (plain_config getenv d) = d"
  by (simp add: plain_config_def env_limits_def env_urls_def env_privacy_def comp_def env_fields default_config_def
      gas_env_def envDuration_def envPositiveInt_def number_from_def not_le split: option.split)+

lemmas plain_fields = plain_texts plain_rest plain_numbers

lemma env_config_plain: "env_config getenv = Inr c \<longleftrightarrow> (\<exists>d. batchAckTimeoutFromEnv getenv = Inr d \<and> c = plain_config getenv d)"
proof -
  let ?c = "env_limits getenv (env_urls getenv default_config)"
  have "cf_L2BatchAckTimeout ?c = 0"
    by (simp add: env_limits_def env_urls_def comp_def env_fields default_config_def)
  then have "?c\<lparr>cf_L2BatchAckTimeout := 0\<rparr> = ?c" by (cases ?c) simp
  then show ?thesis
    by (auto simp: env_config_def batchAckTimeoutFromEnv_def plain_config_def Let_def split: sum.split)
qed

definition settled :: "(string \<Rightarrow> string) \<Rightarrow> flags \<Rightarrow> int \<Rightarrow> config" where
  "settled getenv f d = legacy_gas_price (apply_flags f (plain_config getenv d))"

lemma load_result:
  assumes "Load getenv f = Inr (c, cli)"
  obtains d where "batchAckTimeoutFromEnv getenv = Inr d"
    "c = settled getenv f d\<lparr>cf_Capabilities := map_get DefaultRegistry (cf_ExecutionLayer (settled getenv f d))\<rparr>"
    "map_get DefaultRegistry (cf_ExecutionLayer (settled getenv f d)) \<noteq> None"
proof -
  obtain c0 where env: "env_config getenv = Inr c0" using assms by (auto simp: Load_def split: sum.splits)
  obtain d where ack: "batchAckTimeoutFromEnv getenv = Inr d" and c0: "c0 = plain_config getenv d"
    using env env_config_plain by blast
  define c1 where "c1 = settled getenv f d"
  define caps where "caps = map_get DefaultRegistry (cf_ExecutionLayer c1)"
  have "c = c1\<lparr>cf_Capabilities := caps\<rparr>" "caps \<noteq> None"
    using assms unfolding Load_def env sum.case Let_def c0 settled_def [symmetric] c1_def [symmetric] caps_def [symmetric]
    by (auto split: if_splits option.splits)
  with ack show thesis unfolding caps_def c1_def by (rule that)
qed

text \<open>
  A setting comes from its command-line flag, and where the flag is not given from its environment variable,
  and where that is unset or not in range from the default; only the tip is the gas price instead when that was
  set and the tip was left at its default.
\<close>
theorem flags_over_environment:
  assumes "Load getenv f = Inr (c, cli)"
  shows "cf_BuilderRPCURL c = given (fg_builder f) (GetEnvOrDefault getenv ''BUILDER_RPC_URL'' ''http://localhost:13000'') \<and>
    cf_L2RPCURL c = given (fg_l2 f) (GetEnvOrDefault getenv ''L2_RPC_URL'' ''http://localhost:13000'') \<and>
    cf_PreconfWSURL c = given (fg_preconf_ws f) (getenv ''PRECONF_WS_URL'') \<and>
    cf_ListenAddr c = given (fg_listen f) (GetEnvOrDefault getenv ''LISTEN_ADDR'' '':3001'') \<and>
    cf_ExecutionLayer c = GetEnvOrDefault getenv ''EXECUTION_LAYER'' ''reth'' \<and>
    cf_ChainID c = given (fg_chainid f) 42069 \<and> cf_GasLimit c = given (fg_gaslimit f) 21000 \<and>
    cf_GasFeeCap c = given (fg_gasfeecap f) (gas_env getenv ''GAS_FEE_CAP'' 0) \<and>
    cf_BlockTimeMS c = number_from getenv ParseInt (\<lambda>n. 0 < n) ''BLOCK_TIME_MS'' 250 \<and>
    (let tip = given (fg_gastipcap f) (gas_env getenv ''GAS_TIP_CAP'' 1000000000); price = given (fg_gasprice f) 1000000000 in
     cf_GasPrice c = price \<and> cf_GasTipCap c = (if tip = 1000000000 then price else tip))"
proof -
  obtain d where "c = settled getenv f d\<lparr>cf_Capabilities := map_get DefaultRegistry (cf_ExecutionLayer (settled getenv f d))\<rparr>"
    using assms by (rule load_result)
  then show ?thesis
    by (simp add: settled_def legacy_gas_price_def apply_flags_def plain_fields Let_def)
qed

theorem flags_over_environment_witness:
  "\<exists>c cli. Load demo_environment (no_flags\<lparr>fg_tps := Some 50\<rparr>) = Inr (c, cli) \<and> cf_ExecutionLayer c = ''cdk-erigon'' \<and> cf_ChainID c = 42069"
proof -
  obtain c cli where run: "Load demo_environment (no_flags\<lparr>fg_tps := Some 50\<rparr>) = Inr (c, cli)" using demo_load(1) by blast
  show ?thesis
    using flags_over_environment [OF run] run by (simp add: GetEnvOrDefault_def demo_environment_def no_flags_def given_def)
qed

text \<open>
  The binary builds its configuration by hand, and without flags it builds the one \<open>Load\<close> would, but for the
  websocket of the node and the allowed origins, which it leaves empty, and gasless mode, which \<open>Load\<close> does not
  read; provided the block time is unset and the pipeline depth is not one.
\<close>
theorem binary_matches_load:
  assumes "Load getenv no_flags = Inr (c, cli)" "getenv ''BLOCK_TIME_MS'' = ''''" "envPositiveInt getenv ''L2_PIPELINE_BATCH_DEPTH'' \<noteq> 1"
  shows "main_config getenv no_main_flags =
    Inr (c\<lparr>cf_L2WSURL := '''', cf_CORSAllowedOrigins := '''', cf_Gasless := env_is_on getenv ''GASLESS''\<rparr>)"
proof -
  have depth: "number_from getenv ParseInt (\<lambda>n. 1 < n) ''L2_PIPELINE_BATCH_DEPTH'' 0 = envPositiveInt getenv ''L2_PIPELINE_BATCH_DEPTH''"
    using assms(3) by (cases "getenv ''L2_PIPELINE_BATCH_DEPTH'' = ''''") (auto simp: number_from_def envPositiveInt_def split: option.splits)
  obtain d where ack: "batchAckTimeoutFromEnv getenv = Inr d"
    and c: "c = settled getenv no_flags d\<lparr>cf_Capabilities := map_get DefaultRegistry (cf_ExecutionLayer (settled getenv no_flags d))\<rparr>"
    and caps: "map_get DefaultRegistry (cf_ExecutionLayer (settled getenv no_flags d)) \<noteq> None"
    using assms(1) by (rule load_result)
  have plain: "settled getenv no_flags d = plain_config getenv d"
    by (cases "plain_config getenv d")
      (use plain_numbers(1) [of getenv d] plain_rest(9) [of getenv d] in \<open>simp add: settled_def legacy_gas_price_def apply_flags_def no_flags_def given_def\<close>)
  have ws: "GetEnvOrDefault getenv ''PRECONF_WS_URL'' '''' = getenv ''PRECONF_WS_URL''" by (simp add: GetEnvOrDefault_def)
  have block: "number_from getenv ParseInt (\<lambda>n. 0 < n) ''BLOCK_TIME_MS'' 250 = GetEnvIntOrDefault getenv ''BLOCK_TIME_MS'' 250"
    by (simp add: number_from_def GetEnvIntOrDefault_def assms(2))
  have layer: "map_get DefaultRegistry (GetEnvOrDefault getenv ''EXECUTION_LAYER'' ''reth'') \<noteq> None"
    using caps by (simp add: plain plain_texts)
  show ?thesis
    unfolding c plain main_config_def ack
    by (simp add: no_main_flags_def given_def layer Let_def) (rule config.equality; simp add: plain_fields depth ws block)
qed

theorem binary_matches_load_witness:
  "\<exists>c cli. Load demo_environment no_flags = Inr (c, cli) \<and> main_config demo_environment no_main_flags =
    Inr (c\<lparr>cf_L2WSURL := '''', cf_CORSAllowedOrigins := '''', cf_Gasless := env_is_on demo_environment ''GASLESS''\<rparr>)"
proof -
  obtain c cli where run: "Load demo_environment no_flags = Inr (c, cli)" using demo_load(2) by blast
  show ?thesis
    using binary_matches_load [OF run] run by (simp add: demo_environment_def envPositiveInt_def)
qed

end
