(* ===== verification/Environment.thy ===== *)
theory Environment
  imports Config Block_Metrics Tx_Builder Actions
begin

text \<open>
  What the load generator asks the node and the block builder about themselves (\<open>internal/loadgen/builder.go\<close>):
  the reset of the builder before funding, the snapshot of the environment that is stored with a result, and the
  signed attestations of the headers of a test.  The answer of an HTTP request is an argument, \<open>None\<close> when the
  request failed.  The configuration is one that \<open>Load\<close> or the binary accepted, so its capabilities are set;
  they are the argument \<open>caps\<close>.
\<close>

section \<open>Commands to the builder\<close>

datatype builder_err = PostFailed string | BadStatus string int

definition post_builder :: "string \<Rightarrow> capabilities \<Rightarrow> http_reply option \<Rightarrow> builder_err option" where
  "post_builder path caps rep =
     (if \<not> HasExternalBlockBuilder caps then None
      else case rep of None \<Rightarrow> Some (PostFailed path)
        | Some r \<Rightarrow> if hr_status r \<noteq> 200 then Some (BadStatus path (hr_status r)) else None)"

definition resetBuilderNonces :: "capabilities \<Rightarrow> http_reply option \<Rightarrow> builder_err option" where
  "resetBuilderNonces = post_builder ''/reset-nonces''"

definition flushBuilderMempool :: "capabilities \<Rightarrow> http_reply option \<Rightarrow> builder_err option" where
  "flushBuilderMempool = post_builder ''/flush-mempool''"

section \<open>Decoding a struct\<close>

text \<open>
  The fields of an object in their order, each handed to the setter of the field its key matches; a field the
  struct does not have is skipped.
\<close>

definition uint_value :: "json \<Rightarrow> u64 \<Rightarrow> u64 option" where
  "uint_value j cur = (case j of JNum i \<Rightarrow> (if 0 \<le> i \<and> i < 2 ^ 64 then Some (of_int i) else None) | JNull \<Rightarrow> Some cur | _ \<Rightarrow> None)"

definition uint8_value :: "json \<Rightarrow> 8 word \<Rightarrow> 8 word option" where
  "uint8_value j cur = (case j of JNum i \<Rightarrow> (if 0 \<le> i \<and> i < 2 ^ 8 then Some (of_int i) else None) | JNull \<Rightarrow> Some cur | _ \<Rightarrow> None)"

definition bool_value :: "json \<Rightarrow> bool \<Rightarrow> bool option" where
  "bool_value j cur = (case j of JBool b \<Rightarrow> Some b | JNull \<Rightarrow> Some cur | _ \<Rightarrow> None)"

type_synonym 'r setter = "json \<Rightarrow> 'r \<Rightarrow> 'r option"

definition field_setter :: "(string \<times> 'r setter) list \<Rightarrow> string \<Rightarrow> 'r setter" where
  "field_setter fs k v r = (case find (\<lambda>(f, s). key_matches f k) fs of None \<Rightarrow> Some r | Some (f, s) \<Rightarrow> s v r)"

fun decode_fields :: "(string \<times> 'r setter) list \<Rightarrow> (string \<times> json) list \<Rightarrow> 'r \<Rightarrow> 'r option" where
  "decode_fields fs [] r = Some r"
| "decode_fields fs ((k, v) # kvs) r = Option.bind (field_setter fs k v r) (decode_fields fs kvs)"

definition decode_struct :: "(string \<times> 'r setter) list \<Rightarrow> json \<Rightarrow> 'r \<Rightarrow> 'r option" where
  "decode_struct fs j r = Option.bind (obj_entries j) (\<lambda>kvs. decode_fields fs kvs r)"

definition str_to :: "('r \<Rightarrow> string) \<Rightarrow> (string \<Rightarrow> 'r \<Rightarrow> 'r) \<Rightarrow> 'r setter" where
  "str_to get put v r = map_option (\<lambda>s. put s r) (string_value v (get r))"

definition int_to :: "('r \<Rightarrow> int) \<Rightarrow> (int \<Rightarrow> 'r \<Rightarrow> 'r) \<Rightarrow> 'r setter" where
  "int_to get put v r = map_option (\<lambda>n. put n r) (int_value v (get r))"

definition uint_to :: "('r \<Rightarrow> u64) \<Rightarrow> (u64 \<Rightarrow> 'r \<Rightarrow> 'r) \<Rightarrow> 'r setter" where
  "uint_to get put v r = map_option (\<lambda>n. put n r) (uint_value v (get r))"

definition bool_to :: "('r \<Rightarrow> bool) \<Rightarrow> (bool \<Rightarrow> 'r \<Rightarrow> 'r) \<Rightarrow> 'r setter" where
  "bool_to get put v r = map_option (\<lambda>b. put b r) (bool_value v (get r))"

section \<open>The environment of a test\<close>

record builder_conf =
  bf_BlockTimeMs :: int
  bf_GasLimit :: u64
  bf_MaxTxsPerBlock :: int
  bf_TxOrdering :: string
  bf_EnablePreconfs :: bool
  bf_SkipEmptyBlocks :: bool
  bf_IncludeDepositTx :: bool
  bf_BlockAttestationEnabled :: bool
  bf_HSMProvider :: string
  bf_HSMKeyIDActive :: string
  bf_HSMFailoverEnabled :: bool

definition no_builder :: builder_conf where
  "no_builder = \<lparr>bf_BlockTimeMs = 0, bf_GasLimit = 0, bf_MaxTxsPerBlock = 0, bf_TxOrdering = '''', bf_EnablePreconfs = False,
     bf_SkipEmptyBlocks = False, bf_IncludeDepositTx = False, bf_BlockAttestationEnabled = False, bf_HSMProvider = '''',
     bf_HSMKeyIDActive = '''', bf_HSMFailoverEnabled = False\<rparr>"

definition builder_fields :: "(string \<times> builder_conf setter) list" where
  "builder_fields =
     [(''blockTimeMs'', int_to bf_BlockTimeMs (\<lambda>v b. b\<lparr>bf_BlockTimeMs := v\<rparr>)),
      (''gasLimit'', uint_to bf_GasLimit (\<lambda>v b. b\<lparr>bf_GasLimit := v\<rparr>)),
      (''maxTxsPerBlock'', int_to bf_MaxTxsPerBlock (\<lambda>v b. b\<lparr>bf_MaxTxsPerBlock := v\<rparr>)),
      (''txOrdering'', str_to bf_TxOrdering (\<lambda>v b. b\<lparr>bf_TxOrdering := v\<rparr>)),
      (''enablePreconfirmations'', bool_to bf_EnablePreconfs (\<lambda>v b. b\<lparr>bf_EnablePreconfs := v\<rparr>)),
      (''skipEmptyBlocks'', bool_to bf_SkipEmptyBlocks (\<lambda>v b. b\<lparr>bf_SkipEmptyBlocks := v\<rparr>)),
      (''includeDepositTx'', bool_to bf_IncludeDepositTx (\<lambda>v b. b\<lparr>bf_IncludeDepositTx := v\<rparr>)),
      (''blockAttestationEnabled'', bool_to bf_BlockAttestationEnabled (\<lambda>v b. b\<lparr>bf_BlockAttestationEnabled := v\<rparr>)),
      (''hsmProvider'', str_to bf_HSMProvider (\<lambda>v b. b\<lparr>bf_HSMProvider := v\<rparr>)),
      (''hsmKeyIdActive'', str_to bf_HSMKeyIDActive (\<lambda>v b. b\<lparr>bf_HSMKeyIDActive := v\<rparr>)),
      (''hsmFailoverEnabled'', bool_to bf_HSMFailoverEnabled (\<lambda>v b. b\<lparr>bf_HSMFailoverEnabled := v\<rparr>))]"

record environment =
  ev_Builder :: builder_conf
  ev_GasTipCapGwei :: f64
  ev_GasFeeCapGwei :: f64
  ev_ExecutionLayer :: string
  ev_ERC20RecipientPool :: u64
  ev_ERC20RecipientPoolSeed :: string
  ev_NodeName :: string
  ev_NodeVersion :: string
  ev_ChainID :: u64
  ev_UseBlockBuilder :: bool

definition parseNodeName :: "string \<Rightarrow> string \<Rightarrow> string" where
  "parseNodeName version executionLayer =
     (let v = ToLower version in
      if Contains v ''gravity'' then ''gravity-reth''
      else if Contains v ''-op'' \<or> Contains v ''optimism'' then ''op-reth''
      else if Contains v ''erigon'' \<or> Contains v ''cdk'' then ''cdk-erigon''
      else if Contains v ''reth'' then (if executionLayer = ''gravity-reth'' then ''gravity-reth'' else ''op-reth'')
      else executionLayer)"

text \<open>The two requests to the node, \<open>ask\<close> being \<open>Client.Call\<close> without parameters; \<open>None\<close> is a missing client.\<close>

definition chain_id_of_text :: "string \<Rightarrow> u64" where
  "chain_id_of_text s =
     (if 2 < length s \<and> take 2 s = ''0x'' then (case parseHexUint64 s of (v, err) \<Rightarrow> if err then 0 else v) else 0)"

definition fetchNodeInfo :: "(string \<Rightarrow> rpc_err + raw_message) option \<Rightarrow> string \<times> u64" where
  "fetchNodeInfo ask =
     (case ask of None \<Rightarrow> ('''', 0)
      | Some f \<Rightarrow>
          (let text = (\<lambda>m. case f m of Inl _ \<Rightarrow> None | Inr raw \<Rightarrow> unmarshal_string raw) in
           (case text ''web3_clientVersion'' of None \<Rightarrow> '''' | Some v \<Rightarrow> v,
            case text ''eth_chainId'' of None \<Rightarrow> 0 | Some s \<Rightarrow> chain_id_of_text s)))"

definition load_gen_environment :: "(string \<Rightarrow> string) \<Rightarrow> config \<Rightarrow> capabilities \<Rightarrow> (string \<Rightarrow> rpc_err + raw_message) option \<Rightarrow> environment" where
  "load_gen_environment getenv cfg caps ask =
     (let (poolSize, seed, _) = ERC20RecipientPoolFromEnv (getenv ''ERC20_RECIPIENT_POOL'') (getenv ''ERC20_RECIPIENT_POOL_SEED'');
          (version, chain) = fetchNodeInfo ask
      in \<lparr>ev_Builder = no_builder, ev_GasTipCapGwei = fdiv (f64_of_int (cf_GasTipCap cfg)) 1000000000,
          ev_GasFeeCapGwei = fdiv (f64_of_int (cf_GasFeeCap cfg)) 1000000000, ev_ExecutionLayer = cf_ExecutionLayer cfg,
          ev_ERC20RecipientPool = poolSize, ev_ERC20RecipientPoolSeed = seed,
          ev_NodeName = (if version \<noteq> '''' then parseNodeName version (cf_ExecutionLayer cfg) else el_Name caps),
          ev_NodeVersion = version, ev_ChainID = chain, ev_UseBlockBuilder = HasExternalBlockBuilder caps\<rparr>)"

text \<open>The status of the builder, when it answers with one that decodes.\<close>

definition builder_answer :: "capabilities \<Rightarrow> http_reply option \<Rightarrow> builder_conf option" where
  "builder_answer caps rep =
     (if \<not> SupportsBuilderStatusAPI caps then None
      else case rep of None \<Rightarrow> None
        | Some r \<Rightarrow> if hr_status r \<noteq> 200 then None else Option.bind (hr_body r) (\<lambda>j. decode_struct builder_fields j no_builder))"

text \<open>The order of transactions and the deposit flag the incremental verification goes by.\<close>

record verify_settings =
  vs_txOrdering :: string
  vs_includeDepositTx :: bool

definition fetchBuilderConfig ::
  "(string \<Rightarrow> string) \<Rightarrow> config \<Rightarrow> capabilities \<Rightarrow> (string \<Rightarrow> rpc_err + raw_message) option \<Rightarrow> http_reply option \<Rightarrow>
     verify_settings \<Rightarrow> environment \<times> verify_settings" where
  "fetchBuilderConfig getenv cfg caps ask rep s =
     (let env = load_gen_environment getenv cfg caps ask in
      case builder_answer caps rep of
        None \<Rightarrow> (env, s)
      | Some b \<Rightarrow> (env\<lparr>ev_Builder := b\<rparr>, s\<lparr>vs_txOrdering := bf_TxOrdering b, vs_includeDepositTx := bf_IncludeDepositTx b\<rparr>))"
section \<open>Signed headers\<close>

text \<open>
  \<open>fmt.Sprint\<close> of a decoded value of any type.  A number has become a float64; an integer below \<open>2 ^ 53\<close> is
  exact, and from \<open>10 ^ 6\<close> on it is written with an exponent.  The other values are left to \<open>other\<close>.
\<close>

fun decimal_digits :: "nat \<Rightarrow> string" where
  "decimal_digits n = (if n < 10 then [char_of (48 + n)] else decimal_digits (n div 10) @ [char_of (48 + n mod 10)])"

declare decimal_digits.simps [simp del]

definition exponent_form :: "string \<Rightarrow> string" where
  "exponent_form ds =
     (let kept = rev (dropWhile (\<lambda>c. c = CHR ''0'') (rev ds)); e = decimal_digits (length ds - 1)
      in hd ds # (if length kept \<le> 1 then '''' else CHR ''.'' # tl kept) @ ''e+'' @ (if length e < 2 then CHR ''0'' # e else e))"

definition sprint_integer :: "int \<Rightarrow> string" where
  "sprint_integer i =
     (let ds = decimal_digits (nat \<bar>i\<bar>) in (if i < 0 then ''-'' else '''') @ (if length ds \<le> 6 then ds else exponent_form ds))"

definition sprint_any :: "(json \<Rightarrow> string) \<Rightarrow> json \<Rightarrow> string" where
  "sprint_any other j =
     (case j of JNull \<Rightarrow> ''<nil>'' | JStr s \<Rightarrow> s | JBool b \<Rightarrow> (if b then ''true'' else ''false'')
      | JNum i \<Rightarrow> (if \<bar>i\<bar> < 2 ^ 53 then sprint_integer i else other j) | _ \<Rightarrow> other j)"

lemma digit_chars:
  "char_of (48 :: nat) = CHR ''0''" "char_of (49 :: nat) = CHR ''1''" "char_of (55 :: nat) = CHR ''7''" "char_of (57 :: nat) = CHR ''9''"
  by code_simp+

text \<open>A base fee of one gwei that the builder sends as a number is kept in scientific notation.\<close>

lemma base_fee_text:
  "sprint_any other (JNum 1000000000) = ''1e+09''" "sprint_any other (JNum 1000000007) = ''1.000000007e+09''"
  by (simp_all add: sprint_any_def sprint_integer_def exponent_form_def decimal_digits.simps Let_def digit_chars)

record commitment =
  cm_BlockHash :: string
  cm_ParentHash :: string
  cm_StateRoot :: string
  cm_ReceiptsRoot :: string
  cm_BlockNumber :: u64
  cm_Timestamp :: u64
  cm_GasUsed :: u64
  cm_BaseFeePerGasWei :: json
  cm_SequencerAddress :: string

record attestation_payload =
  ap_SchemaVersion :: int
  ap_Status :: string
  ap_DomainChainID :: u64
  ap_Commitment :: commitment
  ap_DigestHex :: string
  ap_SignatureHex :: string
  ap_RHex :: string
  ap_SHex :: string
  ap_V :: "8 word"
  ap_KeyID :: string
  ap_Provider :: string
  ap_Failover :: bool
  ap_Error :: string
  ap_SignedAt :: "int option"

definition no_commitment :: commitment where
  "no_commitment = \<lparr>cm_BlockHash = '''', cm_ParentHash = '''', cm_StateRoot = '''', cm_ReceiptsRoot = '''', cm_BlockNumber = 0,
     cm_Timestamp = 0, cm_GasUsed = 0, cm_BaseFeePerGasWei = JNull, cm_SequencerAddress = ''''\<rparr>"

definition no_payload :: attestation_payload where
  "no_payload = \<lparr>ap_SchemaVersion = 0, ap_Status = '''', ap_DomainChainID = 0, ap_Commitment = no_commitment, ap_DigestHex = '''',
     ap_SignatureHex = '''', ap_RHex = '''', ap_SHex = '''', ap_V = 0, ap_KeyID = '''', ap_Provider = '''', ap_Failover = False,
     ap_Error = '''', ap_SignedAt = None\<rparr>"

definition commitment_fields :: "(string \<times> commitment setter) list" where
  "commitment_fields =
     [(''blockHash'', str_to cm_BlockHash (\<lambda>v c. c\<lparr>cm_BlockHash := v\<rparr>)),
      (''parentHash'', str_to cm_ParentHash (\<lambda>v c. c\<lparr>cm_ParentHash := v\<rparr>)),
      (''stateRoot'', str_to cm_StateRoot (\<lambda>v c. c\<lparr>cm_StateRoot := v\<rparr>)),
      (''receiptsRoot'', str_to cm_ReceiptsRoot (\<lambda>v c. c\<lparr>cm_ReceiptsRoot := v\<rparr>)),
      (''blockNumber'', uint_to cm_BlockNumber (\<lambda>v c. c\<lparr>cm_BlockNumber := v\<rparr>)),
      (''timestamp'', uint_to cm_Timestamp (\<lambda>v c. c\<lparr>cm_Timestamp := v\<rparr>)),
      (''gasUsed'', uint_to cm_GasUsed (\<lambda>v c. c\<lparr>cm_GasUsed := v\<rparr>)),
      (''baseFeePerGasWei'', \<lambda>v c. Some (c\<lparr>cm_BaseFeePerGasWei := v\<rparr>)),
      (''sequencerAddress'', str_to cm_SequencerAddress (\<lambda>v c. c\<lparr>cm_SequencerAddress := v\<rparr>))]"

text \<open>\<open>parse_time\<close> is the parser of RFC 3339 times.\<close>

definition time_to :: "(string \<Rightarrow> int option) \<Rightarrow> attestation_payload setter" where
  "time_to parse_time v p =
     (case v of JNull \<Rightarrow> Some p | JStr s \<Rightarrow> map_option (\<lambda>t. p\<lparr>ap_SignedAt := Some t\<rparr>) (parse_time s) | _ \<Rightarrow> None)"

definition payload_fields :: "(string \<Rightarrow> int option) \<Rightarrow> (string \<times> attestation_payload setter) list" where
  "payload_fields parse_time =
     [(''schemaVersion'', int_to ap_SchemaVersion (\<lambda>v p. p\<lparr>ap_SchemaVersion := v\<rparr>)),
      (''status'', str_to ap_Status (\<lambda>v p. p\<lparr>ap_Status := v\<rparr>)),
      (''domain'', decode_struct [(''chainId'', uint_to ap_DomainChainID (\<lambda>v p. p\<lparr>ap_DomainChainID := v\<rparr>))]),
      (''commitment'', \<lambda>v p. map_option (\<lambda>c. p\<lparr>ap_Commitment := c\<rparr>) (decode_struct commitment_fields v (ap_Commitment p))),
      (''digestHex'', str_to ap_DigestHex (\<lambda>v p. p\<lparr>ap_DigestHex := v\<rparr>)),
      (''signatureHex'', str_to ap_SignatureHex (\<lambda>v p. p\<lparr>ap_SignatureHex := v\<rparr>)),
      (''rHex'', str_to ap_RHex (\<lambda>v p. p\<lparr>ap_RHex := v\<rparr>)),
      (''sHex'', str_to ap_SHex (\<lambda>v p. p\<lparr>ap_SHex := v\<rparr>)),
      (''v'', \<lambda>v p. map_option (\<lambda>n. p\<lparr>ap_V := n\<rparr>) (uint8_value v (ap_V p))),
      (''keyId'', str_to ap_KeyID (\<lambda>v p. p\<lparr>ap_KeyID := v\<rparr>)),
      (''provider'', str_to ap_Provider (\<lambda>v p. p\<lparr>ap_Provider := v\<rparr>)),
      (''failover'', bool_to ap_Failover (\<lambda>v p. p\<lparr>ap_Failover := v\<rparr>)),
      (''error'', str_to ap_Error (\<lambda>v p. p\<lparr>ap_Error := v\<rparr>)),
      (''signedAt'', time_to parse_time)]"
definition attested :: "(json \<Rightarrow> string) \<Rightarrow> (string \<Rightarrow> int option) \<Rightarrow> http_reply option \<Rightarrow> attestation_payload option" where
  "attested other parse_time rep =
     (case rep of None \<Rightarrow> None
      | Some r \<Rightarrow>
          if hr_status r = 404 then None
          else if hr_status r \<noteq> 200 then None
          else Option.bind (hr_body r) (\<lambda>j. decode_struct (payload_fields parse_time) j no_payload))"

text \<open>What is kept of an attestation.\<close>

record header_attestation =
  ha_SchemaVersion :: int
  ha_Status :: string
  ha_BlockNumber :: u64
  ha_BlockHash :: string
  ha_ParentHash :: string
  ha_StateRoot :: string
  ha_ReceiptsRoot :: string
  ha_Timestamp :: u64
  ha_GasUsed :: u64
  ha_BaseFeeWei :: string
  ha_Sequencer :: string
  ha_DigestHex :: string
  ha_SignatureHex :: string
  ha_RHex :: string
  ha_SHex :: string
  ha_V :: "8 word"
  ha_KeyID :: string
  ha_Provider :: string
  ha_Failover :: bool
  ha_Error :: string
  ha_SignedAt :: "int option"

definition attestation_of :: "(json \<Rightarrow> string) \<Rightarrow> attestation_payload \<Rightarrow> header_attestation" where
  "attestation_of other p =
     (let c = ap_Commitment p in
      \<lparr>ha_SchemaVersion = ap_SchemaVersion p, ha_Status = ap_Status p, ha_BlockNumber = cm_BlockNumber c,
       ha_BlockHash = cm_BlockHash c, ha_ParentHash = cm_ParentHash c, ha_StateRoot = cm_StateRoot c,
       ha_ReceiptsRoot = cm_ReceiptsRoot c, ha_Timestamp = cm_Timestamp c, ha_GasUsed = cm_GasUsed c,
       ha_BaseFeeWei = sprint_any other (cm_BaseFeePerGasWei c), ha_Sequencer = cm_SequencerAddress c,
       ha_DigestHex = ap_DigestHex p, ha_SignatureHex = ap_SignatureHex p, ha_RHex = ap_RHex p, ha_SHex = ap_SHex p,
       ha_V = ap_V p, ha_KeyID = ap_KeyID p, ha_Provider = ap_Provider p, ha_Failover = ap_Failover p, ha_Error = ap_Error p,
       ha_SignedAt = ap_SignedAt p\<rparr>)"

text \<open>
  The loop over the blocks.  \<open>get n\<close> is the answer for block \<open>n\<close>, \<open>ctxDone k\<close> whether the context has ended before
  the request number \<open>k\<close>.  The block number is a 64-bit word: for the largest last block the loop never ends by itself.
\<close>

definition attestation_body ::
  "(u64 \<Rightarrow> header_attestation option) \<Rightarrow> (nat \<Rightarrow> bool) \<Rightarrow> u64 \<Rightarrow> u64 \<times> nat \<times> header_attestation list \<Rightarrow>
     header_attestation list + u64 \<times> nat \<times> header_attestation list" where
  "attestation_body get ctxDone lastBlock st =
     (case st of (n, k, acc) \<Rightarrow>
        if lastBlock < n then Inl acc
        else if ctxDone k then Inl acc
        else Inr (n + 1, k + 1, acc @ (case get n of None \<Rightarrow> [] | Some a \<Rightarrow> [a])))"

definition fetchHeaderAttestations ::
  "capabilities \<Rightarrow> (u64 \<Rightarrow> header_attestation option) \<Rightarrow> (nat \<Rightarrow> bool) \<Rightarrow> u64 \<Rightarrow> u64 \<Rightarrow> header_attestation list option" where
  "fetchHeaderAttestations caps get ctxDone firstBlock lastBlock =
     (if firstBlock = 0 \<or> lastBlock = 0 \<or> lastBlock < firstBlock then Some []
      else if \<not> SupportsBuilderStatusAPI caps then Some []
      else loop (attestation_body get ctxDone lastBlock) (firstBlock, 0, []))"

text \<open>The attestations of the blocks asked for, in their order, up to where the context ended.\<close>

lemma unat_next: "unat (n :: u64) < 2 ^ 64 - 1 \<Longrightarrow> unat (n + 1) = unat n + 1"
  by (simp add: unat_word_ariths)

lemma map_filter_cons: "List.map_filter f (x # xs) = (case f x of None \<Rightarrow> [] | Some y \<Rightarrow> [y]) @ List.map_filter f xs"
  by (simp add: List.map_filter_def split: option.split)

lemma map_filter_map: "List.map_filter f (map g xs) = List.map_filter (f \<circ> g) xs"
  by (induction xs) (simp_all add: List.map_filter_def)

lemma attestation_loop:
  assumes "unat lastBlock < 2 ^ 64 - 1"
  shows "unat n + d = unat lastBlock + 1 \<Longrightarrow>
    \<exists>m \<le> d. loop (attestation_body get ctxDone lastBlock) (n, k, acc) =
      Some (acc @ List.map_filter (\<lambda>i. get (n + of_nat i)) [0..<m]) \<and> (m < d \<longrightarrow> ctxDone (k + m))"
proof (induction d arbitrary: n k acc)
  case 0
  then show ?case by (simp add: attestation_body_def List.map_filter_def word_less_nat_alt)
next
  case (Suc d)
  then have le: "\<not> lastBlock < n" and next_n: "unat (n + 1) = unat n + 1"
    using assms by (simp_all add: word_less_nat_alt unat_next)
  show ?case
  proof (cases "ctxDone k")
    case True
    then show ?thesis using le by (intro exI [of _ 0]) (simp add: attestation_body_def List.map_filter_def)
  next
    case False
    let ?acc = "acc @ (case get n of None \<Rightarrow> [] | Some a \<Rightarrow> [a])"
    have "unat (n + 1) + d = unat lastBlock + 1" using Suc.prems next_n by simp
    from Suc.IH [OF this, of "k + 1" ?acc] obtain m
      where m: "m \<le> d" "loop (attestation_body get ctxDone lastBlock) (n + 1, k + 1, ?acc) =
        Some (?acc @ List.map_filter (\<lambda>i. get (n + 1 + of_nat i)) [0..<m])" "m < d \<longrightarrow> ctxDone (k + 1 + m)" by blast
    have step: "attestation_body get ctxDone lastBlock (n, k, acc) = Inr (n + 1, k + 1, ?acc)"
      using le False by (simp add: attestation_body_def)
    have ups: "[0..<Suc m] = 0 # map Suc [0..<m]" by (simp add: upt_conv_Cons map_Suc_upt del: upt_Suc)
    have "List.map_filter (\<lambda>i. get (n + of_nat i)) [0..<Suc m] =
        (case get n of None \<Rightarrow> [] | Some a \<Rightarrow> [a]) @ List.map_filter (\<lambda>i. get (n + 1 + of_nat i)) [0..<m]"
      unfolding ups map_filter_cons map_filter_map by (simp add: comp_def add.assoc)
    then show ?thesis
      using m loop_goes_on [where body = "attestation_body get ctxDone lastBlock" and v = "(n, k, acc)", OF step] by (intro exI [of _ "Suc m"]) simp
  qed
qed

text \<open>At most one attestation for each block of the range.\<close>

lemma attestations_of_range:
  assumes "fetchHeaderAttestations caps get ctxDone firstBlock lastBlock = Some as" "unat lastBlock < 2 ^ 64 - 1"
    "firstBlock \<noteq> 0" "firstBlock \<le> lastBlock"
  shows "\<exists>m \<le> unat (lastBlock - firstBlock) + 1. as = List.map_filter (\<lambda>i. get (firstBlock + of_nat i)) [0..<m]"
proof (cases "SupportsBuilderStatusAPI caps")
  case True
  have "unat firstBlock + (unat (lastBlock - firstBlock) + 1) = unat lastBlock + 1"
    using assms(4) by (simp add: unat_sub word_le_nat_alt)
  from attestation_loop [OF assms(2) this, of get ctxDone 0 "[]"] obtain m
    where "m \<le> unat (lastBlock - firstBlock) + 1" "loop (attestation_body get ctxDone lastBlock) (firstBlock, 0, []) =
      Some (List.map_filter (\<lambda>i. get (firstBlock + of_nat i)) [0..<m])" by auto
  moreover have "lastBlock \<noteq> 0" using assms(3,4) by (auto simp: word_le_nat_alt unat_eq_zero)
  ultimately show ?thesis using assms(1,3,4) True
    by (intro exI [of _ m]) (simp add: fetchHeaderAttestations_def leD)
next
  case False
  then show ?thesis using assms(1) by (intro exI [of _ 0]) (auto simp: fetchHeaderAttestations_def List.map_filter_def split: if_splits)
qed

lemma map_filter_length: "length (List.map_filter f xs) \<le> length xs"
  by (simp add: List.map_filter_def)

lemma attestations_found:
  assumes "fetchHeaderAttestations caps get ctxDone firstBlock lastBlock = Some as" "unat lastBlock < 2 ^ 64 - 1"
    "firstBlock \<noteq> 0" "firstBlock \<le> lastBlock"
  shows "length as \<le> unat (lastBlock - firstBlock) + 1"
  using attestations_of_range [OF assms] map_filter_length [of "\<lambda>i. get (firstBlock + of_nat i)" "[0..<m]" for m]
  by (auto intro: order_trans)

lemma attestations_end: "unat lastBlock < 2 ^ 64 - 1 \<Longrightarrow> fetchHeaderAttestations caps get ctxDone firstBlock lastBlock \<noteq> None"
  using attestation_loop [of lastBlock firstBlock "unat lastBlock + 1 - unat firstBlock" get ctxDone 0 "[]"]
  by (auto simp: fetchHeaderAttestations_def word_less_nat_alt)

section \<open>The name of a node\<close>

text \<open>A recognised client has one of three names; the layer decides between them only for a plain reth.\<close>

lemma node_names: "parseNodeName version layer \<in> {''gravity-reth'', ''op-reth'', ''cdk-erigon'', layer}"
  by (simp add: parseNodeName_def Let_def)

text \<open>Without the status API the settings of the builder are those of an unknown one, whatever an address answers.\<close>

lemma no_status_no_builder:
  "\<not> SupportsBuilderStatusAPI caps \<Longrightarrow>
    fetchBuilderConfig getenv cfg caps ask rep s = (load_gen_environment getenv cfg caps ask, s) \<and>
    ev_Builder (load_gen_environment getenv cfg caps ask) = no_builder"
  by (simp add: fetchBuilderConfig_def builder_answer_def load_gen_environment_def split_beta)

text \<open>An answered status sets the order the incremental verification goes by to the one in the snapshot.\<close>

lemma snapshot_settles_order:
  assumes "fetchBuilderConfig getenv cfg caps ask rep s = (env, s')" "builder_answer caps rep \<noteq> None"
  shows "vs_txOrdering s' = bf_TxOrdering (ev_Builder env)" "vs_includeDepositTx s' = bf_IncludeDepositTx (ev_Builder env)"
  using assms by (auto simp: fetchBuilderConfig_def)

end
