(* ===== verification/Test_Result.thy ===== *)
theory Test_Result
  imports Environment Confirmations Verifier Store_Facts
begin

text \<open>
  The result of a test (\<open>saveTestResult\<close> and \<open>persistTestData\<close> of \<open>internal/loadgen/persistence.go\<close>): the counters
  and rates, the block metrics summed from the time series or taken from the chain, the verdict of the verifier,
  contracts and accounts, and the three writes to the store, the last of which happens in the background.  The
  clock, the node, the builder and the engine of the store are arguments.
\<close>

section \<open>Block metrics of the whole test\<close>

record period_totals =
  pt_GasUsed :: u64
  pt_GasLimit :: u64
  pt_Blocks :: int
  pt_PeakMgas :: f64
  pt_FillSum :: f64
  pt_FillCount :: nat

definition no_totals :: period_totals where
  "no_totals = \<lparr>pt_GasUsed = 0, pt_GasLimit = 0, pt_Blocks = 0, pt_PeakMgas = 0, pt_FillSum = 0, pt_FillCount = 0\<rparr>"

definition add_period :: "series_point \<Rightarrow> period_totals \<Rightarrow> period_totals" where
  "add_period p t =
     \<lparr>pt_GasUsed = pt_GasUsed t + sp_GasUsed p, pt_GasLimit = pt_GasLimit t + sp_GasLimit p, pt_Blocks = pt_Blocks t + sp_BlockCount p,
      pt_PeakMgas = (if pt_PeakMgas t < sp_MgasPerSec p then sp_MgasPerSec p else pt_PeakMgas t),
      pt_FillSum = (if 0 < sp_FillRate p then fadd (pt_FillSum t) (sp_FillRate p) else pt_FillSum t),
      pt_FillCount = (if 0 < sp_FillRate p then pt_FillCount t + 1 else pt_FillCount t)\<rparr>"

definition series_totals :: "series_point list \<Rightarrow> period_totals" where
  "series_totals ps = fold add_period ps no_totals"

record block_summary =
  bm_Blocks :: int
  bm_GasUsed :: u64
  bm_FillRate :: f64
  bm_PeakMgas :: f64
  bm_AvgMgas :: f64

definition series_summary :: "f64 \<Rightarrow> series_point list \<Rightarrow> block_summary" where
  "series_summary durationSec ps =
     (let t = series_totals ps in
      \<lparr>bm_Blocks = pt_Blocks t, bm_GasUsed = pt_GasUsed t,
       bm_FillRate = (if 0 < pt_FillCount t then fdiv (pt_FillSum t) (f64_of_int (int (pt_FillCount t))) else 0),
       bm_PeakMgas = pt_PeakMgas t,
       bm_AvgMgas = (if 0 < durationSec \<and> 0 < pt_GasUsed t
                     then fdiv (fdiv (f64_of_int (uint (pt_GasUsed t))) 1000000) durationSec else 0)\<rparr>)"

definition no_chain_metrics :: on_chain_metrics where
  "no_chain_metrics = \<lparr>oc_firstBlock = 0, oc_lastBlock = 0, oc_txCount = 0, oc_gasUsed = 0, oc_mgasPerSec = 0, oc_tps = 0,
     oc_durationSecs = 0\<rparr>"

text \<open>The number of blocks of the range, as the code converts it to an \<open>int\<close>.\<close>

definition block_span :: "on_chain_metrics \<Rightarrow> int" where
  "block_span oc = sint (oc_lastBlock oc - oc_firstBlock oc + 1)"

definition has_range :: "on_chain_metrics \<Rightarrow> bool" where
  "has_range oc \<longleftrightarrow> 0 < oc_firstBlock oc \<and> oc_firstBlock oc \<le> oc_lastBlock oc"

text \<open>No source of blocks worked during the test: the figures of the chain stand in.\<close>

definition with_fallback :: "on_chain_metrics \<Rightarrow> block_summary \<Rightarrow> block_summary" where
  "with_fallback oc b =
     (if bm_Blocks b = 0 \<and> bm_GasUsed b = 0 \<and> has_range oc then
        b\<lparr>bm_Blocks := block_span oc, bm_GasUsed := oc_gasUsed oc, bm_PeakMgas := oc_mgasPerSec oc, bm_AvgMgas := oc_mgasPerSec oc\<rparr>
      else b)"

section \<open>Contracts and accounts\<close>

record named_contract =
  nc_Name :: string
  nc_Address :: address

definition if_deployed :: "string \<Rightarrow> address \<Rightarrow> named_contract list" where
  "if_deployed name a = (if a \<noteq> 0 then [\<lparr>nc_Name = name, nc_Address = a\<rparr>] else [])"

record contract_fields =
  cs_deployed :: bool
  cs_erc20 :: address
  cs_gasConsumer :: address
  cs_nft :: address
  cs_uniswap :: "deployed_contracts option"

text \<open>\<open>cs_uniswap\<close> is \<open>None\<close> when the registry has no swap builder or the builder is not deployed.\<close>

definition listed_contracts :: "contract_fields \<Rightarrow> named_contract list option" where
  "listed_contracts c =
     (if \<not> cs_deployed c then None
      else Some (if_deployed ''ERC20'' (cs_erc20 c) @ if_deployed ''GasConsumer'' (cs_gasConsumer c) @ if_deployed ''NFT'' (cs_nft c) @
        (case cs_uniswap c of None \<Rightarrow> []
         | Some u \<Rightarrow>
             if_deployed ''WETH9'' (dc_WETH9 u) @ if_deployed ''USDC'' (dc_USDC u) @ if_deployed ''UniswapV3Factory'' (dc_Factory u) @
             if_deployed ''SwapRouter'' (dc_SwapRouter u) @
             if_deployed ''NonfungiblePositionManager'' (dc_NonfungiblePositionManager u) @
             if_deployed ''WETH/USDC Pool'' (dc_Pool u))))"

datatype account_role = RoleDeployer | RoleFunder | RoleFunded

record account_info =
  ai_Address :: address
  ai_Role :: account_role
  ai_Index :: nat

record accounts_info =
  tai_TotalCount :: nat
  tai_DynamicCount :: nat
  tai_FundedCount :: int
  tai_FunderAddress :: "address option"
  tai_Accounts :: "address list"
  tai_AllAccounts :: "account_info list"

definition accounts_with_roles :: "address list \<Rightarrow> address list \<Rightarrow> account_info list" where
  "accounts_with_roles builtIn dynamic =
     map (\<lambda>(i, a). \<lparr>ai_Address = a, ai_Role = (if i = 0 then RoleDeployer else RoleFunder), ai_Index = i\<rparr>) (enumerate 0 builtIn) @
     map (\<lambda>(i, a). \<lparr>ai_Address = a, ai_Role = RoleFunded, ai_Index = i\<rparr>) (enumerate 0 dynamic)"

text \<open>The list kept for older clients has at most 100 addresses.\<close>

definition legacy_accounts :: "address list \<Rightarrow> address list \<Rightarrow> address list" where
  "legacy_accounts builtIn dynamic = (let xs = take 100 builtIn in xs @ take (100 - length xs) dynamic)"

definition test_accounts_info :: "address list \<Rightarrow> address list \<Rightarrow> int \<Rightarrow> accounts_info" where
  "test_accounts_info builtIn dynamic funded =
     \<lparr>tai_TotalCount = length builtIn + length dynamic, tai_DynamicCount = length dynamic, tai_FundedCount = funded,
      tai_FunderAddress = (case builtIn of [] \<Rightarrow> None | a # _ \<Rightarrow> Some a), tai_Accounts = legacy_accounts builtIn dynamic,
      tai_AllAccounts = accounts_with_roles builtIn dynamic\<rparr>"

section \<open>The log of transactions\<close>

definition status_text :: "entry_status \<Rightarrow> string" where
  "status_text s = (case s of EntryPending \<Rightarrow> ''pending'' | EntryConfirmed \<Rightarrow> ''confirmed'' | EntryDiscarded \<Rightarrow> ''discarded'')"

text \<open>The copies in the buffer get the times and the status of the entries in the map.\<close>

definition merge_final :: "(hash, tx_log_entry) gomap \<Rightarrow> tx_log_entry \<Rightarrow> tx_log_entry" where
  "merge_final m b =
     (case map_get m (te_TxHash b) of None \<Rightarrow> b
      | Some e \<Rightarrow> b\<lparr>te_ConfirmedAtMs := te_ConfirmedAtMs e, te_PreconfAtMs := te_PreconfAtMs e,
          te_ConfirmLatencyMs := te_ConfirmLatencyMs e, te_PreconfLatencyMs := te_PreconfLatencyMs e, te_Status := te_Status e\<rparr>)"

definition log_entry_of :: "(hash \<Rightarrow> string) \<Rightarrow> tx_log_entry \<Rightarrow> log_entry" where
  "log_entry_of hexOf e =
     \<lparr>le_TxHash = hexOf (te_TxHash e), le_SentAtMs = te_SentAtMs e, le_ConfirmedAtMs = te_ConfirmedAtMs e,
      le_PreconfAtMs = te_PreconfAtMs e, le_ConfirmLatencyMs = te_ConfirmLatencyMs e, le_PreconfLatencyMs = te_PreconfLatencyMs e,
      le_Status = status_text (te_Status e), le_ErrorReason = '''', le_FromAccount = int (te_FromAccount e), le_Nonce = te_Nonce e,
      le_GasTipGwei = te_GasTipGwei e\<rparr>"

definition confirmed_hashes :: "(hash, tx_log_entry) gomap \<Rightarrow> hash list" where
  "confirmed_hashes m = map fst (filter (\<lambda>(h, e). te_Status e = EntryConfirmed) m)"
section \<open>The result kept in memory\<close>

record test_result =
  ts_ID :: string
  ts_StartedAt :: int
  ts_CompletedAt :: int
  ts_Pattern :: load_pattern
  ts_TransactionType :: transaction_type
  ts_DurationMs :: int
  ts_TxSent :: nat
  ts_TxConfirmed :: nat
  ts_TxFailed :: nat
  ts_TxDiscarded :: u64
  ts_AverageTPS :: f64
  ts_PeakTPS :: int
  ts_Latency :: "latency_report option"
  ts_PreconfLatency :: "latency_report option"
  ts_FlowStats :: flow_stats
  ts_PrivacyMode :: bool
  ts_Config :: start_test_request

record finish_state = confirm_state +
  fi_testID :: string
  fi_startTime :: int
  fi_config :: start_test_request
  fi_txType :: transaction_type
  fi_discarded :: u64
  fi_forceStop :: bool
  fi_series :: "series_point list"
  fi_snapshots :: "snapshot list"
  fi_settings :: verify_settings
  fi_contracts :: contract_fields
  fi_history :: "test_result list"

definition average_tps :: "nat \<Rightarrow> int \<Rightarrow> f64" where
  "average_tps sent took =
     (if 0 < duration_Seconds took then fdiv (f64_of_int (int sent)) (duration_Seconds took) else 0)"

text \<open>\<open>now\<close> is read for the elapsed time, \<open>completedAt\<close> for the time of completion.\<close>

definition result_of :: "int \<Rightarrow> int \<Rightarrow> finish_state \<Rightarrow> test_result" where
  "result_of now completedAt s =
     (let (sent, confirmed, failed) = GetSnapshot (metricsCol s); took = now - fi_startTime s in
      \<lparr>ts_ID = fi_testID s, ts_StartedAt = fi_startTime s, ts_CompletedAt = completedAt, ts_Pattern = rq_Pattern (fi_config s),
       ts_TransactionType = fi_txType s, ts_DurationMs = Milliseconds took, ts_TxSent = sent, ts_TxConfirmed = confirmed,
       ts_TxFailed = failed, ts_TxDiscarded = fi_discarded s, ts_AverageTPS = average_tps sent took,
       ts_PeakTPS = block_state.peakRate (blockState s), ts_Latency = latency_GetStats (latencyStats (metricsCol s)),
       ts_PreconfLatency = latency_GetStats (preconfLatencies s), ts_FlowStats = flow_GetStats (flowTracker (metricsCol s)),
       ts_PrivacyMode = False, ts_Config = fi_config s\<rparr>)"

definition remember_result :: "test_result \<Rightarrow> finish_state \<Rightarrow> finish_state" where
  "remember_result r s = s\<lparr>fi_history := take_last 100 (fi_history s @ [r])\<rparr>"

section \<open>The verdict\<close>

record verdict = verification_result +
  vd_HeaderAttestationExpected :: int
  vd_HeaderAttestationFound :: nat
  vd_HeaderAttestations :: "header_attestation list"

text \<open>
  What the run meets outside.  \<open>fe_env\<close> is the snapshot of the environment with the settings it leaves behind;
  \<open>fe_batch\<close>, \<open>fe_single\<close> and \<open>fe_head\<close> are the requests of the block metrics, \<open>fe_blocks\<close>, \<open>fe_receipts\<close> and
  \<open>fe_shuffle\<close> those of the verifier for the order the builder gave, \<open>fe_attest\<close> and \<open>fe_attestDone\<close> those for the
  signed headers.
\<close>

record finish_env =
  fe_now :: int
  fe_completedAt :: int
  fe_later :: int
  fe_hasClient :: bool
  fe_caps :: capabilities
  fe_env :: "verify_settings \<Rightarrow> environment \<times> verify_settings"
  fe_batch :: "u64 list \<Rightarrow> rpc_err + block_full option list"
  fe_single :: "u64 \<Rightarrow> rpc_err + block_full option"
  fe_head :: "u64 option option"
  fe_blocks :: block_source
  fe_receipts :: receipt_source
  fe_shuffle :: "string list \<Rightarrow> nat list"
  fe_attest :: "u64 \<Rightarrow> header_attestation option"
  fe_attestDone :: "nat \<Rightarrow> bool"
  fe_hex :: "hash \<Rightarrow> string"
  fe_builtIn :: "address list"
  fe_dynamic :: "address list"
  fe_funded :: int

definition verdict_of :: "verification_result \<Rightarrow> verdict" where
  "verdict_of v = verification_result.extend v
     (verdict.fields 0 0 [])"

definition final_verdict :: "finish_env \<Rightarrow> environment \<Rightarrow> on_chain_metrics \<Rightarrow> finish_state \<Rightarrow> verdict option option" where
  "final_verdict fe env oc s =
     (if \<not> fe_hasClient fe \<or> fi_forceStop s then Some None
      else
        let order = bf_TxOrdering (ev_Builder env); incl = bf_IncludeDepositTx (ev_Builder env);
            confirmed = of_nat (fst (snd (GetSnapshot (metricsCol s)))); hashes = map (fe_hex fe) (confirmed_hashes (pendingTxs s))
        in map_option (Some \<circ> verdict_of)
          (if fi_snapshots s \<noteq> [] then Some (AggregateSnapshots (fi_snapshots s) (oc_txCount oc) confirmed order)
           else VerifyTestResults incl (fe_blocks fe) (fe_receipts fe) (fe_shuffle fe hashes) (oc_txCount oc) confirmed
             (oc_firstBlock oc) (oc_lastBlock oc) order hashes))"

definition with_attestations :: "finish_env \<Rightarrow> environment \<Rightarrow> on_chain_metrics \<Rightarrow> verdict option \<Rightarrow> verdict option option" where
  "with_attestations fe env oc v =
     (case v of None \<Rightarrow> Some None
      | Some r \<Rightarrow>
          if bf_BlockAttestationEnabled (ev_Builder env) \<and> has_range oc then
            map_option (\<lambda>as. Some (if as = [] then r
              else r\<lparr>vd_HeaderAttestationExpected := block_span oc, vd_HeaderAttestationFound := length as,
                     vd_HeaderAttestations := as\<rparr>))
              (fetchHeaderAttestations (fe_caps fe) (fe_attest fe) (fe_attestDone fe) (oc_firstBlock oc) (oc_lastBlock oc))
          else Some (Some r))"
section \<open>Writing it to the store\<close>

text \<open>The objects of a run that are kept as JSON texts, as values of the store's type \<open>'j\<close>.\<close>

record 'j boxes =
  bx_latency :: "latency_report \<Rightarrow> 'j"
  bx_tips :: "tip_histogram_bucket list \<Rightarrow> 'j"
  bx_types :: "tx_type_metrics list \<Rightarrow> 'j"
  bx_environment :: "environment \<Rightarrow> 'j"
  bx_verdict :: "verdict \<Rightarrow> 'j"
  bx_contracts :: "named_contract list \<Rightarrow> 'j"
  bx_accounts :: "accounts_info \<Rightarrow> 'j"

definition finished_run ::
  "'j boxes \<Rightarrow> 'j option \<Rightarrow> finish_env \<Rightarrow> environment \<Rightarrow> on_chain_metrics \<Rightarrow> verdict option \<Rightarrow> finish_state \<Rightarrow> 'j test_run" where
  "finished_run bx readLoad fe env oc v s =
     (let (sent, confirmed, failed) = GetSnapshot (metricsCol s);
          b = with_fallback oc (series_summary (duration_Seconds (fe_later fe - fi_startTime s)) (fi_series s));
          realistic = EffectiveRealisticConfig (rq_Pattern (fi_config s)) (rq_RealisticConfig (fi_config s))
      in \<lparr>tr_ID = fi_testID s, tr_StartedAt = 0, tr_CompletedAt = None, tr_Pattern = PatternOther '''', tr_TransactionType = TxTypeOther '''',
          tr_DurationMs = 0, tr_TxSent = of_nat sent, tr_TxConfirmed = of_nat confirmed, tr_TxFailed = of_nat failed,
          tr_TxDiscarded = fi_discarded s, tr_AverageTPS = average_tps sent (fe_now fe - fi_startTime s),
          tr_PeakTPS = block_state.peakRate (blockState s), tr_Status = ''completed'', tr_ErrorMessage = '''',
          tr_TxLoggingEnabled = False, tr_ExecutionLayer = '''', tr_PrivacyMode = False, tr_CustomName = None, tr_IsFavorite = False,
          tr_BlockCount = bm_Blocks b, tr_TotalGasUsed = block_summary.bm_GasUsed b, tr_AvgFillRate = bm_FillRate b,
          tr_PeakMgasPerSec = bm_PeakMgas b, tr_AvgMgasPerSec = bm_AvgMgas b,
          tr_OnChainFirstBlock = oc_firstBlock oc, tr_OnChainLastBlock = oc_lastBlock oc, tr_OnChainTxCount = oc_txCount oc,
          tr_OnChainGasUsed = oc_gasUsed oc, tr_OnChainMgasPerSec = oc_mgasPerSec oc, tr_OnChainTps = oc_tps oc,
          tr_OnChainDurationSecs = oc_durationSecs oc,
          tr_AccountsActive = (if realistic = None then 0 else int (length (fe_dynamic fe))),
          tr_AccountsFunded = (if realistic = None then 0 else fe_funded fe),
          tr_LatencyStats = map_option (bx_latency bx) (latency_GetStats (latencyStats (metricsCol s))),
          tr_PreconfLatency = map_option (bx_latency bx) (latency_GetStats (preconfLatencies s)),
          tr_PendingLatency = map_option (bx_latency bx) (latency_GetStats (pendingLatency (metricsCol s))),
          tr_Config = None,
          tr_TipHistogram = (if realistic = None then None else map_option (bx_tips bx) (GetTipHistogram realistic (metricsCol s))),
          tr_TxTypeMetrics = (if realistic = None then None else Some (bx_types bx (GetTxTypeMetrics (metricsCol s)))),
          tr_ReadLoad = readLoad, tr_Environment = Some (bx_environment bx env), tr_Verification = map_option (bx_verdict bx) v,
          tr_DeployedContracts = map_option (bx_contracts bx) (listed_contracts (fi_contracts s)),
          tr_TestAccounts = Some (bx_accounts bx (test_accounts_info (fe_builtIn fe) (fe_dynamic fe) (fe_funded fe)))\<rparr>)"

text \<open>The engine of the store during the two writes that are waited for.\<close>

record store_env =
  st_completeErr :: "string option"
  st_now :: int
  st_series :: tx_env

text \<open>The log buffer after the merge, and the entries that a goroutine of its own will insert.\<close>

definition merged_log :: "finish_state \<Rightarrow> finish_state" where
  "merged_log s =
     (if txLoggingEnabled s \<and> txLogBuf s \<noteq> [] then s\<lparr>txLogBuf := map (merge_final (pendingTxs s)) (txLogBuf s)\<rparr> else s)"

definition pending_insert :: "(hash \<Rightarrow> string) \<Rightarrow> finish_state \<Rightarrow> (string \<times> log_entry list) option" where
  "pending_insert hexOf s =
     (if txLoggingEnabled s \<and> txLogBuf s \<noteq> [] then Some (fi_testID s, map (log_entry_of hexOf) (txLogBuf s)) else None)"

text \<open>
  \<open>None\<close> stands for a panic of the verifier or a request for headers that never ends.  The result is the state,
  the database and the insert that is still to happen.
\<close>

definition persistTestData ::
  "'j boxes \<Rightarrow> 'j codec \<Rightarrow> 'j option \<Rightarrow> finish_env \<Rightarrow> store_env \<Rightarrow> finish_state \<Rightarrow> database \<Rightarrow>
     (finish_state \<times> database \<times> (string \<times> log_entry list) option) option" where
  "persistTestData bx cd readLoad fe se s db =
     do { oc \<leftarrow> (if fi_forceStop s then Some no_chain_metrics
                 else calculateOnChainMetrics (fe_batch fe) (fe_single fe) (fe_head fe) (blockState s));
          let (env, settings) = fe_env fe (fi_settings s);
          v \<leftarrow> final_verdict fe env oc s;
          v' \<leftarrow> with_attestations fe env oc v;
          let run = finished_run bx readLoad fe env oc v' s;
          let (e1, db1) = CompleteTestRun cd (st_completeErr se) (st_now se) (fi_testID s) run db;
          let (e2, db2) = (if fi_series s \<noteq> [] then BulkInsertTimeSeries (st_series se) (fi_testID s) (fi_series s) db1 else (None, db1));
          let s1 = merged_log (s\<lparr>fi_settings := settings\<rparr>);
          Some (s1, db2, pending_insert (fe_hex fe) s1) }"

definition saveTestResult ::
  "'j boxes \<Rightarrow> 'j codec \<Rightarrow> 'j option \<Rightarrow> finish_env \<Rightarrow> store_env \<Rightarrow> finish_state \<Rightarrow> database option \<Rightarrow>
     (finish_state \<times> database option \<times> (string \<times> log_entry list) option) option" where
  "saveTestResult bx cd readLoad fe se s store =
     (let s1 = remember_result (result_of (fe_now fe) (fe_completedAt fe) s) s in
      case store of None \<Rightarrow> Some (s1, None, None)
      | Some db \<Rightarrow> map_option (\<lambda>(s2, db', ins). (s2, Some db', ins)) (persistTestData bx cd readLoad fe se s1 db))"

text \<open>The goroutine, on the database as it is by then.\<close>

definition insert_logs_later :: "tx_env \<Rightarrow> (string \<times> log_entry list) option \<Rightarrow> database \<Rightarrow> sql_err option \<times> database" where
  "insert_logs_later env ins db = (case ins of None \<Rightarrow> (None, db) | Some (i, es) \<Rightarrow> BulkInsertTxLogs env i es db)"
section \<open>What ends up in the store\<close>

text \<open>The operations on the transaction log during a test.\<close>

datatype log_op = LogSent hash int nat u64 f64 | LogConfirmed hash int | LogPreconfirmed hash int

fun log_step :: "log_op \<Rightarrow> 'a lg_core_scheme \<Rightarrow> 'a lg_core_scheme" where
  "log_step (LogSent h t a n tip) s = recordTxSent h t a n tip s"
| "log_step (LogConfirmed h t) s = recordTxConfirmed h t s"
| "log_step (LogPreconfirmed h t) s = recordTxPreconfirmed h t s"

fun sent_of :: "log_op \<Rightarrow> hash list" where
  "sent_of (LogSent h _ _ _ _) = [h]"
| "sent_of _ = []"

text \<open>Every entry of the buffer has an entry of the map.\<close>

definition log_ok :: "'a lg_core_scheme \<Rightarrow> bool" where
  "log_ok s \<longleftrightarrow> txLoggingEnabled s \<and> map_wf (pendingTxs s) \<and> (\<forall>e \<in> set (txLogBuf s). status_of s (te_TxHash e) \<noteq> None)"

lemma log_step_ok:
  assumes "log_ok s"
  shows "log_ok (log_step op s)" "map te_TxHash (txLogBuf (log_step op s)) = map te_TxHash (txLogBuf s) @ sent_of op"
proof -
  have "log_ok (log_step op s) \<and> map te_TxHash (txLogBuf (log_step op s)) = map te_TxHash (txLogBuf s) @ sent_of op"
  proof (cases op)
    case (LogSent h t a n tip)
    then show ?thesis using assms by (auto simp: log_ok_def recordTxSent_def status_of_def Let_def)
  next
    case (LogConfirmed h t)
    then show ?thesis using assms
      by (cases "map_get (pendingTxs s) h") (auto simp: log_ok_def recordTxConfirmed_def status_of_def)
  next
    case (LogPreconfirmed h t)
    then show ?thesis using assms
      by (cases "map_get (pendingTxs s) h") (auto simp: log_ok_def recordTxPreconfirmed_def status_of_def)
  qed
  then show "log_ok (log_step op s)" "map te_TxHash (txLogBuf (log_step op s)) = map te_TxHash (txLogBuf s) @ sent_of op" by simp_all
qed

lemma log_run_ok:
  assumes "log_ok s"
  shows "log_ok (fold log_step ops s) \<and>
    map te_TxHash (txLogBuf (fold log_step ops s)) = map te_TxHash (txLogBuf s) @ concat (map sent_of ops)"
  using assms
proof (induction ops arbitrary: s)
  case (Cons op ops)
  show ?case using Cons.IH [OF log_step_ok(1) [OF Cons.prems, of op]] log_step_ok(2) [OF Cons.prems, of op] by simp
qed simp

lemma resolve_one_buf [simp]: "txLogBuf (snd (resolve_one now r h s)) = txLogBuf s"
  by (simp add: resolve_one_def recordTxConfirmed_def sub_pending_def Let_def split: receipt_reply.split option.split)

lemma resolve_all_buf [simp]: "txLogBuf (snd (resolve_all now rs hs s)) = txLogBuf s"
  by (induction hs arbitrary: s) (simp_all add: Let_def split_beta)

lemma resolve_one_logging [simp]: "txLoggingEnabled (snd (resolve_one now r h s)) = txLoggingEnabled s"
  by (simp add: resolve_one_def recordTxConfirmed_def sub_pending_def Let_def split: receipt_reply.split option.split)

lemma resolve_all_logging [simp]: "txLoggingEnabled (snd (resolve_all now rs hs s)) = txLoggingEnabled s"
  by (induction hs arbitrary: s) (simp_all add: Let_def split_beta)

lemma resolve_ok:
  assumes "log_ok s" "resolvePendingViaReceipts c now rs s = (n, s1)"
  shows "log_ok s1 \<and> txLogBuf s1 = txLogBuf s"
proof (cases c)
  case True
  let ?hs = "pending_hashes (pendingTxs s)"
  have wf: "map_wf (pendingTxs s)" and on: "txLoggingEnabled s" using assms(1) by (simp_all add: log_ok_def)
  have s1: "s1 = snd (resolve_all now rs ?hs s)" using assms(2) True on by (simp add: resolvePendingViaReceipts_def)
  have "set ?hs \<subseteq> pend s" using pending_hashes_get [OF wf] by (auto simp: pend_def)
  from resolve_all_effect [OF on wf pending_hashes_distinct [OF wf] this, of now rs]
  have "map_wf (pendingTxs s1)" "status_of s h \<noteq> None \<Longrightarrow> status_of s1 h \<noteq> None" for h
    by (auto simp: s1 split: if_splits)
  then show ?thesis using assms(1) by (simp add: log_ok_def s1 del: not_None_eq)
next
  case False
  then show ?thesis using assms by (simp add: resolvePendingViaReceipts_def)
qed

lemma finalize_ok:
  assumes "log_ok s" "finalizePendingTxs s = (n, s1)"
  shows "log_ok s1 \<and> txLogBuf s1 = txLogBuf s \<and> (\<forall>h. status_of s1 h \<noteq> Some EntryPending)"
proof -
  have s1: "s1 = snd (finalizePendingTxs s)" using assms(2) by simp
  have "map_wf (pendingTxs s1)" using assms by (auto simp: finalizePendingTxs_def log_ok_def map_wf_def comp_def split_beta)
  moreover have "status_of s1 h \<noteq> Some EntryPending" "status_of s1 h = None \<longleftrightarrow> status_of s h = None" for h
    unfolding s1 finalize_status by (auto split: if_splits)
  moreover have "txLogBuf s1 = txLogBuf s" "txLoggingEnabled s1 = txLoggingEnabled s" using assms(2) by (auto simp: finalizePendingTxs_def)
  ultimately show ?thesis using assms(1) by (simp add: log_ok_def)
qed

lemma merged_entry:
  assumes "status_of s (te_TxHash b) \<noteq> None"
  shows "te_TxHash (merge_final (pendingTxs s) b) = te_TxHash b"
    "status_of s (te_TxHash b) = Some (te_Status (merge_final (pendingTxs s) b))"
  using assms by (auto simp: merge_final_def status_of_def)
text \<open>What saving a result hands to the goroutine that inserts the log.\<close>

lemma save_pending_insert:
  assumes "saveTestResult bx cd readLoad fe se s (Some db) = Some (s', Some db', ins)" "log_ok s" "txLogBuf s \<noteq> []"
  shows "ins = Some (fi_testID s, map (log_entry_of (fe_hex fe) \<circ> merge_final (pendingTxs s)) (txLogBuf s))"
proof -
  let ?s = "remember_result (result_of (fe_now fe) (fe_completedAt fe) s) s"
  have p: "persistTestData bx cd readLoad fe se ?s db = Some (s', db', ins)"
    using assms(1) by (auto simp: saveTestResult_def Let_def)
  obtain settings where "ins = pending_insert (fe_hex fe) (merged_log (?s\<lparr>fi_settings := settings\<rparr>))"
    using p by (auto simp: persistTestData_def Let_def split: prod.splits bind_split_asm)
  then show ?thesis using assms(2,3) by (simp add: pending_insert_def merged_log_def remember_result_def log_ok_def)
qed

definition demo_request :: start_test_request where
  "demo_request =
     \<lparr>rq_Pattern = PatternConstant, rq_DurationSec = 10, rq_NumAccounts = 1, rq_TransactionType = TxTypeEthTransfer, rq_ConstantRate = 1,
      rq_RampStart = 0, rq_RampEnd = 0, rq_RampSteps = 0, rq_BaselineRate = 0, rq_SpikeRate = 0, rq_SpikeDuration = 0,
      rq_SpikeInterval = 0, rq_AdaptiveInitialRate = 0, rq_AdaptiveTargetPending = 0, rq_AdaptiveRateStep = 0,
      rq_RealisticConfig = None, rq_ReadLoad = None, rq_PrivacyMode = False, rq_Gasless = False, rq_FixNonceGaps = False,
      rq_Erc721PreMint = 0\<rparr>"

definition demo_finish :: finish_state where
  "demo_finish = confirm_state.extend (example_confirm\<lparr>txLoggingEnabled := True, pendingTxs := [], txLogBuf := []\<rparr>)
     (finish_state.fields ''run-1'' 0 demo_request TxTypeEthTransfer 0 True [] [] \<lparr>vs_txOrdering = '''', vs_includeDepositTx = False\<rparr>
       \<lparr>cs_deployed = False, cs_erc20 = 0, cs_gasConsumer = 0, cs_nft = 0, cs_uniswap = None\<rparr> [])"

definition demo_env :: finish_env where
  "demo_env =
     \<lparr>fe_now = 1000000000, fe_completedAt = 1000000000, fe_later = 1000000000, fe_hasClient = True, fe_caps = RethCapabilities,
      fe_env = (\<lambda>s. (load_gen_environment (\<lambda>_. '''') default_config RethCapabilities None, s)),
      fe_batch = (\<lambda>_. Inl CtxErr), fe_single = (\<lambda>_. Inl CtxErr), fe_head = None, fe_blocks = (\<lambda>_. Inl CtxErr, \<lambda>_. Inl CtxErr),
      fe_receipts = (\<lambda>_. Inl CtxErr, \<lambda>_. Inl CtxErr), fe_shuffle = (\<lambda>_. []), fe_attest = (\<lambda>_. None), fe_attestDone = (\<lambda>_. True),
      fe_hex = (\<lambda>h. replicate h CHR ''a''), fe_builtIn = [], fe_dynamic = [], fe_funded = 0\<rparr>"

definition demo_boxes :: "string boxes" where
  "demo_boxes = \<lparr>bx_latency = (\<lambda>_. ''latency''), bx_tips = (\<lambda>_. ''tips''), bx_types = (\<lambda>_. ''types''), bx_environment = (\<lambda>_. ''environment''),
     bx_verdict = (\<lambda>_. ''verdict''), bx_contracts = (\<lambda>_. ''contracts''), bx_accounts = (\<lambda>_. ''accounts'')\<rparr>"

lemma forced_save:
  assumes "fi_forceStop s"
  shows "\<exists>s' db' ins. saveTestResult bx cd readLoad fe se s (Some db) = Some (s', Some db', ins)"
proof -
  obtain env settings where "fe_env fe (fi_settings s) = (env, settings)" by fastforce
  then show ?thesis using assms
    by (simp add: saveTestResult_def persistTestData_def remember_result_def final_verdict_def with_attestations_def Let_def split_beta)
qed

lemma bulk_one:
  assumes "sql_uint (le_Nonce x) \<noteq> None" "i \<in> c_id ` set (db_runs db)"
  shows "\<exists>db'. BulkInsertTxLogs example_tx i [x] db = (None, db')"
  using assms by (simp add: BulkInsertTxLogs_def in_tx_def prepared_def example_tx_def insert_log_def)

section \<open>The figures of a result\<close>

text \<open>The totals are the sums over the periods, the peak is the largest rate.\<close>

lemma fold_periods:
  "pt_GasUsed (fold add_period ps t) = pt_GasUsed t + sum_list (map sp_GasUsed ps) \<and>
   pt_GasLimit (fold add_period ps t) = pt_GasLimit t + sum_list (map sp_GasLimit ps) \<and>
   pt_Blocks (fold add_period ps t) = pt_Blocks t + sum_list (map sp_BlockCount ps) \<and>
   pt_FillCount (fold add_period ps t) = pt_FillCount t + length (filter (\<lambda>p. 0 < sp_FillRate p) ps) \<and>
   pt_PeakMgas t \<le> pt_PeakMgas (fold add_period ps t) \<and> (\<forall>p \<in> set ps. sp_MgasPerSec p \<le> pt_PeakMgas (fold add_period ps t))"
proof (induction ps arbitrary: t)
  case (Cons p ps)
  have "pt_PeakMgas t \<le> pt_PeakMgas (add_period p t)" "sp_MgasPerSec p \<le> pt_PeakMgas (add_period p t)"
    by (auto simp: add_period_def)
  with Cons.IH [of "add_period p t"] show ?case by (auto simp: add_period_def)
qed simp

lemma series_totals_are_sums:
  "pt_GasUsed (series_totals ps) = sum_list (map sp_GasUsed ps)" "pt_Blocks (series_totals ps) = sum_list (map sp_BlockCount ps)"
  "p \<in> set ps \<Longrightarrow> sp_MgasPerSec p \<le> pt_PeakMgas (series_totals ps)"
  using fold_periods [of ps no_totals] by (simp_all add: series_totals_def no_totals_def)

text \<open>The chain stands in only when no period saw a block or gas.\<close>

lemma fallback_keeps_measured: "bm_Blocks b \<noteq> 0 \<Longrightarrow> with_fallback oc b = b"
  by (simp add: with_fallback_def)

lemma legacy_accounts_first: "legacy_accounts builtIn dynamic = take 100 (builtIn @ dynamic)"
  by (cases "length builtIn \<le> 100") (simp_all add: legacy_accounts_def Let_def)

lemma accounts_with_roles_all: "map ai_Address (accounts_with_roles builtIn dynamic) = builtIn @ dynamic"
  by (simp add: accounts_with_roles_def comp_def split_beta enumerate_eq_zip)

text \<open>A forced stop stores no verdict.\<close>

lemma forced_stop_unverified: "fi_forceStop s \<Longrightarrow> final_verdict fe env oc s = Some None"
  by (simp add: final_verdict_def)

lemma sint_small: "unat (x :: u64) < 2 ^ 63 \<Longrightarrow> sint x = int (unat x)"
proof -
  assume "unat x < 2 ^ 63"
  then have "int (unat x) < int (2 ^ 63)" by (simp only: of_nat_less_iff)
  then have "uint x < 2 ^ 63" by simp
  moreover have "0 \<le> uint x" by simp
  ultimately have "signed_take_bit 63 (uint x) = uint x" by (intro signed_take_bit_int_eq_self) linarith+
  then show "sint x = int (unat x)" by (simp add: sint_uint)
qed

text \<open>The stored number of signed headers is at most the number of blocks of the range.\<close>

lemma attestations_within_range:
  assumes "with_attestations fe env oc (Some v) = Some (Some r)" "vd_HeaderAttestationFound v = 0"
    "unat (oc_lastBlock oc) < 2 ^ 63"
  shows "vd_HeaderAttestationFound r = 0 \<or> int (vd_HeaderAttestationFound r) \<le> vd_HeaderAttestationExpected r"
proof (cases "bf_BlockAttestationEnabled (ev_Builder env) \<and> has_range oc")
  case True
  obtain as where as: "fetchHeaderAttestations (fe_caps fe) (fe_attest fe) (fe_attestDone fe) (oc_firstBlock oc) (oc_lastBlock oc) = Some as"
    and r: "r = (if as = [] then v else v\<lparr>vd_HeaderAttestationExpected := block_span oc, vd_HeaderAttestationFound := length as,
      vd_HeaderAttestations := as\<rparr>)"
    using assms(1) True by (auto simp: with_attestations_def)
  have range: "oc_firstBlock oc \<noteq> 0" "oc_firstBlock oc \<le> oc_lastBlock oc" using True by (auto simp: has_range_def)
  have n: "length as \<le> unat (oc_lastBlock oc - oc_firstBlock oc) + 1"
    by (rule attestations_found [OF as _ range]) (use assms(3) in simp)
  have "0 < unat (oc_firstBlock oc)" using range(1) by (simp add: unat_gt_0)
  then have d: "unat (oc_lastBlock oc - oc_firstBlock oc) + 1 < 2 ^ 63"
    using assms(3) range(2) by (simp add: unat_sub word_le_nat_alt)
  then have u: "unat (oc_lastBlock oc - oc_firstBlock oc + 1) = unat (oc_lastBlock oc - oc_firstBlock oc) + 1"
    by (intro unat_next) simp
  have "block_span oc = int (unat (oc_lastBlock oc - oc_firstBlock oc) + 1)"
    using sint_small [of "oc_lastBlock oc - oc_firstBlock oc + 1"] d u by (simp add: block_span_def)
  then have "int (length as) \<le> block_span oc" using n by linarith
  then show ?thesis using r assms(2) by (cases "as = []") simp_all
next
  case False
  then show ?thesis using assms(1,2) by (auto simp: with_attestations_def split: if_splits)
qed

end
