(* ===== verification/Account_Setup.thy ===== *)
theory Account_Setup
  imports Environment Account_Manager Store_Facts
begin

text \<open>
  The accounts of a test (\<open>internal/loadgen/accounts.go\<close> and the accounts part of \<open>runInitialization\<close> in
  \<open>init.go\<close>): taken from the cache of an earlier start when their balances allow it, topped up, or generated and
  funded from scratch, and saved for the next start.  The answers of the node, the builder and the store's engine
  are arguments; an account is known by its address, the codec of private keys by \<open>keyOf\<close> and \<open>keyHex\<close>.
\<close>

section \<open>What a set-up meets outside\<close>

record 's accounts_env =
  ae_caps :: capabilities
  ae_signer :: "'s tx_signer"
  ae_amount :: int
  ae_maxProcs :: nat
  ae_keyOf :: "string \<Rightarrow> address option"
  ae_keyHex :: "address \<Rightarrow> string"
  ae_hexOf :: "address \<Rightarrow> string"
  ae_load :: query_env
  ae_wipeAccounts :: "string option"
  ae_wipeContracts :: "string option"
  ae_balances :: "nat \<Rightarrow> rpc_err + int"
  ae_resetRefund :: "http_reply option"
  ae_refund :: funding_env
  ae_newKeys :: "nat \<Rightarrow> address option"
  ae_resetFund :: "http_reply option"
  ae_fund :: funding_env
  ae_nonces :: "nat \<Rightarrow> rpc_err + u64"
  ae_save :: tx_env
  ae_now :: int

record accounts_state =
  as_manager :: manager
  as_cache :: "database option"
  as_generated :: int
  as_fundingSent :: int

section \<open>The cache\<close>

definition cached_row :: "'s accounts_env \<Rightarrow> int \<Rightarrow> string \<times> string \<Rightarrow> cached_account" where
  "cached_row env chain p =
     \<lparr>ca_Address = fst p, ca_PrivateKeyHex = snd p, ca_ChainID = chain, ca_CreatedAt = ae_now env, ca_UniswapReady = False\<rparr>"

text \<open>The error of a save is logged; \<open>None\<close> is the panic on an account that was not generated.\<close>

definition saveDynamicAccountsToCache :: "'s accounts_env \<Rightarrow> int \<Rightarrow> accounts_state \<Rightarrow> accounts_state option" where
  "saveDynamicAccountsToCache env chain s =
     (case as_cache s of None \<Rightarrow> Some s
      | Some db \<Rightarrow>
          map_option (\<lambda>pairs. s\<lparr>as_cache := Some (snd (SaveCachedAccounts (ae_save env) (map (cached_row env chain) pairs) db))\<rparr>)
            (ExportDynamicAccountKeys (ae_hexOf env) (ae_keyHex env) (as_manager s)))"

text \<open>A cached key that does not decode makes the whole cache invalid.\<close>

definition decode_cached :: "'s accounts_env \<Rightarrow> cached_account list \<Rightarrow> test_account list option" where
  "decode_cached env cached =
     map_opt (\<lambda>ca. map_option (\<lambda>a. \<lparr>ta_addr = a, ta_acc = NewAccount\<rparr>) (ae_keyOf env (ca_PrivateKeyHex ca))) cached"

definition wipe_accounts :: "'s accounts_env \<Rightarrow> int \<Rightarrow> database \<Rightarrow> database" where
  "wipe_accounts env chain db = snd (DeleteCachedAccounts (ae_wipeAccounts env) chain db)"

definition wipe_cache :: "'s accounts_env \<Rightarrow> int \<Rightarrow> database \<Rightarrow> database" where
  "wipe_cache env chain db = snd (DeleteCachedContracts (ae_wipeContracts env) chain (wipe_accounts env chain db))"

definition minCachedBalance :: int where "minCachedBalance = 10 ^ 18"

section \<open>Warm start\<close>

text \<open>
  The accounts of the test with the manager they leave behind: funded ones first, then unfunded ones that are funded
  again, then new ones.  \<open>Inl\<close> is a warm start given up because the builder could not be reset.
\<close>

definition refund_cached ::
  "'s accounts_env \<Rightarrow> nat \<Rightarrow> test_account list \<Rightarrow> test_account list \<Rightarrow> manager \<Rightarrow> (builder_err + test_account list \<times> manager) option" where
  "refund_cached env needed funded unfunded m =
     (if unfunded = [] then Some (Inr (funded, m))
      else
        let toRefund = (if needed < length funded + length unfunded then take (needed - length funded) unfunded else unfunded) in
        if toRefund = [] then Some (Inr (funded, m))
        else case resetBuilderNonces (ae_caps env) (ae_resetRefund env) of
            Some e \<Rightarrow> Some (Inl e)
          | None \<Rightarrow>
              map_option (\<lambda>(run, m1). Inr (if fr_err run \<noteq> None then funded else funded @ toRefund, m1))
                (FundAccounts (ae_signer env) (ae_refund env) (ae_amount env) toRefund m))"

definition add_new_accounts ::
  "'s accounts_env \<Rightarrow> nat \<Rightarrow> test_account list \<Rightarrow> manager \<Rightarrow> (test_account list \<times> manager) option" where
  "add_new_accounts env needed accs m =
     (if needed \<le> length accs then Some (accs, m)
      else case GenerateDynamicAccounts (ae_maxProcs env) (ae_newKeys env) (needed - length accs) m of
          (False, m1) \<Rightarrow> Some (accs, m1)
        | (True, m1) \<Rightarrow>
            do { new_accs \<leftarrow> those (mg_dynamic m1);
                 (run, m2) \<leftarrow> FundDynamicAccounts (ae_signer env) (ae_fund env) (ae_amount env) m1;
                 Some (accs @ new_accs, m2) })"

definition choose_test_accounts ::
  "'s accounts_env \<Rightarrow> nat \<Rightarrow> test_account list \<Rightarrow> test_account list \<Rightarrow> manager \<Rightarrow>
     (builder_err + (test_account list \<times> nat) \<times> manager) option" where
  "choose_test_accounts env needed funded unfunded m =
     (if needed \<le> length funded then Some (Inr ((take needed funded, 0), m))
      else do { r \<leftarrow> refund_cached env needed funded unfunded m;
                case r of Inl e \<Rightarrow> Some (Inl e)
                | Inr (accs, m1) \<Rightarrow>
                    map_option (\<lambda>(accs', m2). Inr ((accs', needed - length accs), m2)) (add_new_accounts env needed accs m1) })"

text \<open>\<open>True\<close> is a warm start; \<open>None\<close> is a panic or a wait that never ends.\<close>

definition tryWarmStartAccounts :: "'s accounts_env \<Rightarrow> nat \<Rightarrow> int \<Rightarrow> accounts_state \<Rightarrow> (bool \<times> accounts_state) option" where
  "tryWarmStartAccounts env needed chain s =
     (case as_cache s of None \<Rightarrow> None
      | Some db \<Rightarrow>
          (case LoadCachedAccounts (ae_load env) chain db of
             Inl e \<Rightarrow> Some (False, s)
           | Inr cached \<Rightarrow>
               if cached = [] then Some (False, s)
               else case decode_cached env cached of
                   None \<Rightarrow> Some (False, s\<lparr>as_cache := Some (wipe_accounts env chain db)\<rparr>)
                 | Some accs \<Rightarrow>
                     let (funded, unfunded) = ValidateBalances (ae_balances env) accs minCachedBalance in
                     if funded = [] then Some (False, s\<lparr>as_cache := Some (wipe_cache env chain db)\<rparr>)
                     else do {
                       r \<leftarrow> choose_test_accounts env needed funded unfunded (as_manager s);
                       case r of Inl e \<Rightarrow> Some (False, s)
                       | Inr ((chosen, needNew), m) \<Rightarrow>
                           do { (e, m') \<leftarrow> InitializeDynamicNonces (ae_nonces env) (SetDynamicAccounts chosen m);
                                let s1 = s\<lparr>as_manager := m', as_generated := int (length chosen), as_fundingSent := int (length chosen)\<rparr>;
                                s2 \<leftarrow> (if 0 < needNew then saveDynamicAccountsToCache env chain s1 else Some s1);
                                Some (True, s2) } }))"

section \<open>Cold start\<close>

datatype accounts_err = GenerationFailed | ResetFailed builder_err | NothingFunded nat

definition funding_pause :: "int \<Rightarrow> int" where
  "funding_pause funded = max 5 (go_quot funded 4000 + 3) * second"

text \<open>The error, when there is one, and the state it leaves.\<close>

definition fund_generated :: "'s accounts_env \<Rightarrow> nat \<Rightarrow> accounts_state \<Rightarrow> (accounts_err option \<times> accounts_state) option" where
  "fund_generated env needed s =
     (case resetBuilderNonces (ae_caps env) (ae_resetFund env) of
        Some e \<Rightarrow> Some (Some (ResetFailed e), s)
      | None \<Rightarrow>
          map_option (\<lambda>(run, m). (if mg_funded m = 0 then Some (NothingFunded needed) else None,
              s\<lparr>as_manager := m, as_fundingSent := mg_funded m\<rparr>))
            (FundDynamicAccounts (ae_signer env) (ae_fund env) (ae_amount env) (as_manager s)))"

definition coldStartAccounts :: "'s accounts_env \<Rightarrow> bool \<Rightarrow> nat \<Rightarrow> int \<Rightarrow> accounts_state \<Rightarrow> (accounts_err option \<times> accounts_state) option" where
  "coldStartAccounts env gasless needed chain s =
     (case GenerateDynamicAccounts (ae_maxProcs env) (ae_newKeys env) needed (as_manager s) of
        (False, m) \<Rightarrow> Some (Some GenerationFailed, s\<lparr>as_manager := m\<rparr>)
      | (True, m) \<Rightarrow>
          do { let s1 = s\<lparr>as_manager := m, as_generated := int needed\<rparr>;
               (failed, s2) \<leftarrow> (if gasless then Some (None, s1) else fund_generated env needed s1);
               case failed of Some e \<Rightarrow> Some (Some e, s2)
               | None \<Rightarrow>
                   do { (e, m') \<leftarrow> InitializeDynamicNonces (ae_nonces env) (as_manager s2);
                        map_option (Pair None) (saveDynamicAccountsToCache env chain (s2\<lparr>as_manager := m'\<rparr>)) } })"

definition ensureAccounts :: "'s accounts_env \<Rightarrow> bool \<Rightarrow> nat \<Rightarrow> int \<Rightarrow> accounts_state \<Rightarrow> (accounts_err option \<times> accounts_state) option" where
  "ensureAccounts env gasless numAccounts chain s =
     (let builtIn = length (mg_accounts (as_manager s)) in
      if numAccounts \<le> builtIn then Some (None, s)
      else let needed = numAccounts - builtIn in
        do { (warm, s1) \<leftarrow> (if as_cache s \<noteq> None \<and> \<not> gasless then tryWarmStartAccounts env needed chain s else Some (False, s));
             if warm then Some (None, s1) else coldStartAccounts env gasless needed chain s1 })"
section \<open>The accounts in use can be recovered\<close>

text \<open>The cache holds a key for the account; the engine of the store does not fail; the codecs of keys and addresses.\<close>

definition recoverable :: "'s accounts_env \<Rightarrow> int \<Rightarrow> database \<Rightarrow> address \<Rightarrow> bool" where
  "recoverable env chain db a \<longleftrightarrow>
     (\<exists>row \<in> set (db_accounts db). ca_ChainID row = chain \<and> ae_keyOf env (ca_PrivateKeyHex row) = Some a)"

definition quiet_tx :: "tx_env \<Rightarrow> bool" where
  "quiet_tx t \<longleftrightarrow> te_begin t = None \<and> te_prepare t = None \<and> (\<forall>k. \<not> te_cancelled t k \<and> te_exec t k = None) \<and> te_commit t = None"

definition key_codec :: "'s accounts_env \<Rightarrow> bool" where
  "key_codec env \<longleftrightarrow> inj (ae_hexOf env) \<and> (\<forall>a. ae_keyOf env (ae_keyHex env a) = Some a)"

lemma those_is_map: "those xs = Some ys \<Longrightarrow> xs = map Some ys"
  by (induction xs arbitrary: ys) (auto split: option.splits)

lemma force_all_addr: "map ta_addr (snd (force_all f r i n accs)) = map ta_addr accs"
proof (induction accs arbitrary: i n)
  case (Cons a accs)
  then show ?case by (cases n) (simp_all add: split_beta Let_def)
qed simp

lemma dynamic_nonces:
  assumes "InitializeDynamicNonces r m = Some (e, m')"
  shows "\<exists>dyn dyn'. mg_dynamic m = map Some dyn \<and> mg_dynamic m' = map Some dyn' \<and> map ta_addr dyn' = map ta_addr dyn"
proof -
  obtain dyn where dyn: "those (mg_dynamic m) = Some dyn" using assms by (auto simp: InitializeDynamicNonces_def split: option.splits)
  then have "mg_dynamic m' = map Some (snd (force_all ForceResync r 0 (length dyn) dyn))"
    using assms by (auto simp: InitializeDynamicNonces_def Let_def split_beta)
  then show ?thesis using those_is_map [OF dyn] force_all_addr by blast
qed

lemma quiet_exec: "quiet_tx t \<Longrightarrow> \<exists>db'. exec_rows t insert_account k rows db = Inr db'"
  by (induction rows arbitrary: k db) (simp_all add: quiet_tx_def insert_account_def)

lemma saved_accounts:
  assumes "quiet_tx t"
  shows "account_at (snd (SaveCachedAccounts t rows db)) = account_at db ++ map_of (rev (map (\<lambda>a. (account_key a, a)) rows))"
proof (cases rows)
  case Nil
  then show ?thesis by (simp add: SaveCachedAccounts_def)
next
  case (Cons r rs)
  obtain db' where "exec_rows t insert_account 0 rows db = Inr db'" using quiet_exec [OF assms] by blast
  moreover from this have "snd (SaveCachedAccounts t rows db) = db'"
    using assms Cons by (simp add: SaveCachedAccounts_def in_tx_def prepared_def quiet_tx_def del: exec_rows.simps)
  ultimately show ?thesis using exec_accounts by blast
qed

lemma save_recoverable:
  assumes "saveDynamicAccountsToCache env chain s = Some s'" "as_cache s = Some db" "mg_dynamic (as_manager s) = map Some dyn"
    and ok: "quiet_tx (ae_save env)" "key_codec env"
  shows "\<exists>db'. as_cache s' = Some db' \<and> as_manager s' = as_manager s \<and> (\<forall>a \<in> set dyn. recoverable env chain db' (ta_addr a))"
proof -
  define rows where "rows = map (\<lambda>a. cached_row env chain (ae_hexOf env (ta_addr a), ae_keyHex env (ta_addr a))) dyn"
  define db' where "db' = snd (SaveCachedAccounts (ae_save env) rows db)"
  have s': "s' = s\<lparr>as_cache := Some db'\<rparr>"
    using assms(1-3) by (simp add: saveDynamicAccountsToCache_def ExportDynamicAccountKeys_def db'_def rows_def comp_def)
  have "recoverable env chain db' (ta_addr a)" if a: "a \<in> set dyn" for a
  proof -
    let ?k = "(ae_hexOf env (ta_addr a), chain)" and ?m = "map_of (rev (map (\<lambda>r. (account_key r, r)) rows))"
    have "?k \<in> fst ` set (rev (map (\<lambda>r. (account_key r, r)) rows))"
      using a by (force simp: rows_def account_key_def cached_row_def)
    then have "?m ?k \<noteq> None" by (simp only: map_of_eq_None_iff not_not)
    then obtain row where row: "?m ?k = Some row" by blast
    then have "(?k, row) \<in> set (rev (map (\<lambda>r. (account_key r, r)) rows))" by (rule map_of_SomeD)
    then have key: "account_key row = ?k" and "row \<in> set rows" by auto
    then obtain b where b: "row = cached_row env chain (ae_hexOf env b, ae_keyHex env b)" unfolding rows_def by auto
    have "b = ta_addr a" using ok(2) key by (auto simp: b key_codec_def account_key_def cached_row_def dest: injD)
    moreover have "account_at db' ?k = Some row" using row saved_accounts [OF ok(1), of rows db] by (simp add: db'_def)
    then have "row \<in> set (db_accounts db')" by (auto simp: account_at_def dest: map_of_SomeD)
    ultimately show ?thesis using b ok(2) unfolding recoverable_def by (intro bexI [of _ row]) (simp_all add: cached_row_def key_codec_def)
  qed
  then show ?thesis by (auto simp: s')
qed

lemma map_opt_set: "map_opt f xs = Some ys \<Longrightarrow> y \<in> set ys \<Longrightarrow> \<exists>x \<in> set xs. f x = Some y"
  by (induction xs arbitrary: ys) (auto split: Option.bind_splits)

lemma decoded_recoverable:
  assumes "LoadCachedAccounts q chain db = Inr cached" "decode_cached env cached = Some accs" "a \<in> set accs"
  shows "recoverable env chain db (ta_addr a)"
proof -
  obtain ca where "ca \<in> set cached" "ae_keyOf env (ca_PrivateKeyHex ca) = Some (ta_addr a)"
    using map_opt_set [OF assms(2) [unfolded decode_cached_def] assms(3)] by auto
  then show ?thesis using assms(1) by (auto simp: recoverable_def LoadCachedAccounts_def split: option.splits)
qed

lemma split_by_balance: "fold (\<lambda>i (f, u). if P i then (f @ [xs ! i], u) else (f, u @ [xs ! i])) is (f0, u0) =
    (f0 @ map ((!) xs) (filter P is), u0 @ map ((!) xs) (filter (\<lambda>i. \<not> P i) is))"
  by (induction "is" arbitrary: f0 u0) auto

lemma ValidateBalances_sets:
  assumes "ValidateBalances replies accs b = (funded, unfunded)"
  shows "set funded \<union> set unfunded \<subseteq> set accs"
  using assms by (auto simp: ValidateBalances_def split_by_balance Let_def)
lemma refund_from_cache:
  assumes "refund_cached env needed funded unfunded m = Some (Inr (accs, m1))" shows "set accs \<subseteq> set funded \<union> set unfunded"
  using assms by (auto simp: refund_cached_def Let_def split: if_splits option.splits dest: in_set_takeD)

text \<open>When nothing new was needed every account comes from the cache.\<close>

lemma chosen_from_cache:
  assumes "choose_test_accounts env needed funded unfunded m = Some (Inr ((chosen, 0), m'))"
  shows "set chosen \<subseteq> set funded \<union> set unfunded"
proof (cases "needed \<le> length funded")
  case True
  then show ?thesis using assms by (auto simp: choose_test_accounts_def dest: in_set_takeD)
next
  case False
  then obtain accs m1 where r: "refund_cached env needed funded unfunded m = Some (Inr (accs, m1))"
    and rest: "map_option (\<lambda>(accs', m2). Inr ((accs', needed - length accs), m2)) (add_new_accounts env needed accs m1) =
        (Some (Inr ((chosen, 0), m')) :: (builder_err + (test_account list \<times> nat) \<times> manager) option)"
    using assms by (auto simp: choose_test_accounts_def split: bind_split_asm sum.split_asm)
  then have "chosen = accs" by (auto simp: add_new_accounts_def split: if_splits)
  then show ?thesis using refund_from_cache [OF r] by simp
qed

text \<open>The state the accounts are left in.\<close>

definition accounts_saved :: "'s accounts_env \<Rightarrow> int \<Rightarrow> accounts_state \<Rightarrow> bool" where
  "accounts_saved env chain s \<longleftrightarrow>
     (\<exists>db dyn. as_cache s = Some db \<and> mg_dynamic (as_manager s) = map Some dyn \<and> (\<forall>a \<in> set dyn. recoverable env chain db (ta_addr a)))"

lemma warm_start_saved:
  assumes run: "tryWarmStartAccounts env needed chain s = Some (True, s')" and ok: "quiet_tx (ae_save env)" "key_codec env"
  shows "accounts_saved env chain s'"
proof -
  obtain db cached accs funded unfunded where db: "as_cache s = Some db" "LoadCachedAccounts (ae_load env) chain db = Inr cached"
    and dec: "decode_cached env cached = Some accs" and vb: "ValidateBalances (ae_balances env) accs minCachedBalance = (funded, unfunded)"
    using run by (auto simp: tryWarmStartAccounts_def Let_def split: option.split_asm sum.split_asm if_split_asm prod.split_asm)
  obtain chosen needNew m e m' where ch: "choose_test_accounts env needed funded unfunded (as_manager s) = Some (Inr ((chosen, needNew), m))"
    and init: "InitializeDynamicNonces (ae_nonces env) (SetDynamicAccounts chosen m) = Some (e, m')"
    and s': "(if 0 < needNew then saveDynamicAccountsToCache env chain else Some)
        (s\<lparr>as_manager := m', as_generated := int (length chosen), as_fundingSent := int (length chosen)\<rparr>) = Some s'"
    using run by (auto simp: tryWarmStartAccounts_def db dec vb Let_def split: if_split_asm bind_split_asm sum.split_asm prod.split_asm)
  obtain dyn where dyn: "mg_dynamic m' = map Some dyn" "map ta_addr dyn = map ta_addr chosen"
    using dynamic_nonces [OF init] by (auto simp: SetDynamicAccounts_def inj_map_eq_map)
  show ?thesis
  proof (cases "0 < needNew")
    case True
    then show ?thesis using save_recoverable [OF _ _ _ ok] s' db(1) dyn(1) by (fastforce simp: accounts_saved_def)
  next
    case False
    have "set chosen \<subseteq> set accs" using chosen_from_cache ch ValidateBalances_sets [OF vb] False by blast
    then have "\<forall>a \<in> ta_addr ` set chosen. recoverable env chain db a" using decoded_recoverable [OF db(2) dec] by auto
    moreover have "ta_addr ` set chosen = ta_addr ` set dyn" using dyn(2) by (metis list.set_map)
    ultimately show ?thesis using s' False db(1) dyn(1) by (auto simp: accounts_saved_def)
  qed
qed

lemma cold_start_saved:
  assumes run: "coldStartAccounts env gasless needed chain s = Some (None, s')" and ok: "quiet_tx (ae_save env)" "key_codec env"
    and db: "as_cache s = Some db"
  shows "accounts_saved env chain s'"
proof -
  obtain m where gen: "GenerateDynamicAccounts (ae_maxProcs env) (ae_newKeys env) needed (as_manager s) = (True, m)"
    using run by (cases "GenerateDynamicAccounts (ae_maxProcs env) (ae_newKeys env) needed (as_manager s)")
      (auto simp: coldStartAccounts_def split: bool.split_asm)
  let ?s1 = "s\<lparr>as_manager := m, as_generated := int needed\<rparr>"
  obtain s2 e m' where funded: "(if gasless then Some (None, ?s1) else fund_generated env needed ?s1) = Some (None, s2)"
    and init: "InitializeDynamicNonces (ae_nonces env) (as_manager s2) = Some (e, m')"
    and s': "saveDynamicAccountsToCache env chain (s2\<lparr>as_manager := m'\<rparr>) = Some s'"
    using run unfolding coldStartAccounts_def gen prod.case bool.case Let_def
    by (auto split: bind_split_asm option.split_asm prod.split_asm)
  have s2: "as_cache s2 = Some db"
    using funded db by (auto simp: fund_generated_def Let_def split: if_split_asm option.split_asm)
  obtain dyn where "mg_dynamic m' = map Some dyn" using dynamic_nonces [OF init] by blast
  then show ?thesis using save_recoverable [OF s' _ _ ok] s2 by (fastforce simp: accounts_saved_def)
qed

section \<open>What a start does to the cache\<close>

text \<open>
  A node that answers no balance query is taken for a new chain: the keys and contracts of the chain are deleted,
  whatever is on the accounts.
\<close>

lemma outage_wipes_cache:
  assumes "as_cache s = Some db" "LoadCachedAccounts (ae_load env) chain db = Inr cached" "cached \<noteq> []"
    "decode_cached env cached = Some accs" "\<And>i. isl (ae_balances env i)" "ae_wipeAccounts env = None"
  obtains s' db' where "tryWarmStartAccounts env needed chain s = Some (False, s')" "as_cache s' = Some db'"
    "\<And>a. \<not> recoverable env chain db' a"
proof -
  have "ValidateBalances (ae_balances env) accs minCachedBalance = ([], accs)"
  proof -
    have "(case ae_balances env i of Inl x \<Rightarrow> False | Inr b \<Rightarrow> minCachedBalance \<le> b) = False" for i
      using assms(5) [of i] by (cases "ae_balances env i") simp_all
    then show ?thesis by (simp add: ValidateBalances_def split_by_balance Let_def map_nth cong: filter_cong)
  qed
  then have gone: "tryWarmStartAccounts env needed chain s = Some (False, s\<lparr>as_cache := Some (wipe_cache env chain db)\<rparr>)"
    using assms(1-4) by (simp add: tryWarmStartAccounts_def)
  have "ca_ChainID row \<noteq> chain" if "row \<in> set (db_accounts (wipe_cache env chain db))" for row
    using that assms(6) by (auto simp: wipe_cache_def wipe_accounts_def DeleteCachedAccounts_def DeleteCachedContracts_def exec_stmt_def
        split: option.splits)
  then have "\<not> recoverable env chain (wipe_cache env chain db) a" for a by (auto simp: recoverable_def)
  with gone show thesis by (intro that [of "s\<lparr>as_cache := Some (wipe_cache env chain db)\<rparr>" "wipe_cache env chain db"]) simp_all
qed

text \<open>Saving a topped-up cache forgets which of its accounts were set up for Uniswap.\<close>

lemma top_up_forgets_readiness:
  assumes "saveDynamicAccountsToCache env chain s = Some s'" "as_cache s = Some db" "mg_dynamic (as_manager s) = map Some dyn"
    "quiet_tx (ae_save env)" "a \<in> set dyn"
  shows "\<exists>db' row. as_cache s' = Some db' \<and> account_at db' (ae_hexOf env (ta_addr a), chain) = Some row \<and> \<not> ca_UniswapReady row"
proof -
  define rows where "rows = map (\<lambda>a. cached_row env chain (ae_hexOf env (ta_addr a), ae_keyHex env (ta_addr a))) dyn"
  define db' where "db' = snd (SaveCachedAccounts (ae_save env) rows db)"
  let ?k = "(ae_hexOf env (ta_addr a), chain)" and ?m = "map_of (rev (map (\<lambda>r. (account_key r, r)) rows))"
  have s': "s' = s\<lparr>as_cache := Some db'\<rparr>"
    using assms(1-3) by (simp add: saveDynamicAccountsToCache_def ExportDynamicAccountKeys_def db'_def rows_def comp_def)
  have "?k \<in> fst ` set (rev (map (\<lambda>r. (account_key r, r)) rows))"
    using assms(5) by (force simp: rows_def account_key_def cached_row_def)
  then have "?m ?k \<noteq> None" by (simp only: map_of_eq_None_iff not_not)
  then obtain row where row: "?m ?k = Some row" by blast
  then have "row \<in> set rows" by (auto dest: map_of_SomeD)
  then have "\<not> ca_UniswapReady row" by (auto simp: rows_def cached_row_def)
  moreover have "account_at db' ?k = Some row" using row saved_accounts [OF assms(4), of rows db] by (simp add: db'_def)
  ultimately show ?thesis using s' by simp
qed

section \<open>A warm start\<close>

definition demo_cached :: cached_account where
  "demo_cached = \<lparr>ca_Address = ''aaaaaaa'', ca_PrivateKeyHex = ''kkkkkkk'', ca_ChainID = 1337, ca_CreatedAt = 0, ca_UniswapReady = True\<rparr>"

definition demo_accounts_env :: "(address \<times> eth_tx) accounts_env" where
  "demo_accounts_env =
     \<lparr>ae_caps = RethCapabilities, ae_signer = demo_signer, ae_amount = 5, ae_maxProcs = 4,
      ae_keyOf = (\<lambda>h. Some (of_nat (length h))), ae_keyHex = (\<lambda>a. replicate (unat a) CHR ''k''),
      ae_hexOf = (\<lambda>a. replicate (unat a) CHR ''a''), ae_load = no_failure, ae_wipeAccounts = None, ae_wipeContracts = None,
      ae_balances = (\<lambda>_. Inr (10 ^ 18)), ae_resetRefund = None, ae_refund = demo_funding, ae_newKeys = (\<lambda>_. None),
      ae_resetFund = None, ae_fund = demo_funding, ae_nonces = (\<lambda>_. Inr 3), ae_save = example_tx, ae_now = 0\<rparr>"

definition demo_accounts_state :: accounts_state where
  "demo_accounts_state =
     \<lparr>as_manager = demo_manager, as_cache = Some (empty_database\<lparr>db_accounts := [demo_cached]\<rparr>), as_generated = 0, as_fundingSent = 0\<rparr>"

lemma demo_codec: "key_codec demo_accounts_env" "quiet_tx (ae_save demo_accounts_env)"
proof -
  have "inj (\<lambda>a :: address. replicate (unat a) CHR ''a'')"
    by (rule injI) (metis length_replicate word_unat_eq_iff)
  then show "key_codec demo_accounts_env" "quiet_tx (ae_save demo_accounts_env)"
    by (simp_all add: key_codec_def demo_accounts_env_def quiet_tx_def example_tx_def)
qed


end
