(* ===== verification/Load_Generator.thy ===== *)
theory Load_Generator
  imports Contract_Setup Account_Setup Test_Result Adaptive Lifecycle Read_Load
begin

text \<open>
  The load generator as its API sees it (\<open>internal/loadgen/loadgen.go\<close> and \<open>api.go\<close>): the fields of the struct
  over the states of the other components, starting and resetting a test, the metrics of a running test, the
  requests to the history, and the recycling of funds.  The answers of the node, the builder and the store's engine
  are arguments.
\<close>

section \<open>The state\<close>

datatype init_phase =
    InitPhaseNone | InitPhaseGeneratingAccts | InitPhaseFundingAccts | InitPhaseWaitingForFunding
  | InitPhaseInitNonces | InitPhaseDeployingContracts | InitPhaseStartingWorkers

datatype verify_phase =
    VerifyPhaseNone | VerifyPhaseOnChainMetrics | VerifyPhaseAggregating | VerifyPhaseTxCount
  | VerifyPhaseTipOrder | VerifyPhaseReceipts

record init_progress =
  ip_Phase :: init_phase
  ip_AccountsTotal :: int
  ip_AccountsGen :: int
  ip_FundingTotal :: int
  ip_FundingSent :: int
  ip_ContractsTotal :: int
  ip_ContractsDone :: int

record verify_progress =
  vp_Phase :: verify_phase
  vp_BlocksToVerify :: int
  vp_BlocksVerified :: int
  vp_ReceiptsToSample :: int
  vp_ReceiptsSampled :: int

text \<open>Why a test failed: the messages \<open>setError\<close> is called with.\<close>

datatype test_failure =
    InvalidRatios ratio_error | NoPrivacyToken | GaslessOnlyTransfers | NoAccountsFor accounts_err | NonceInitFailed rpc_err
  | DeployFailed deploy_err | NftUnavailable | NoAccountForPreMint | PreMintFailed deploy_err | UnknownPattern string
  | ReadLoadFailed read_setup_error
and read_setup_error = EngineRefused new_error | ProbeFailed probe_error

text \<open>
  A sender is known by its client and its concurrency; the two RPC clients by their configuration.  The store is the
  one of the cache, a store of SQLite serving both.
\<close>

record sender_conf =
  sn_client :: rpc_client
  sn_concurrency :: int

record 'n generator = confirm_state +
  gn_cfg :: config
  gn_status :: test_status
  gn_error :: "test_failure option"
  gn_warnings :: "(int \<times> int \<times> f64) list"
  gn_init :: init_progress
  gn_verify :: verify_progress
  gn_rate :: rate_control
  gn_startTime :: "int option"
  gn_duration :: int
  gn_currentTPS :: f64
  gn_lastSentCount :: nat
  gn_stopping :: bool
  gn_forceStop :: bool
  gn_discarded :: u64
  gn_config :: start_test_request
  gn_txType :: transaction_type
  gn_testID :: string
  gn_gasless :: bool
  gn_gasCaps :: "(int \<times> int) option"
  gn_readEngine :: "engine option"
  gn_ctx :: run_ctx
  gn_world :: "'n lg_world"
  gn_builder :: rpc_client
  gn_l2 :: rpc_client
  gn_sender :: sender_conf
  gn_defaultSender :: sender_conf
  gn_series :: "series_point list"
  gn_snapshots :: "snapshot list"
  gn_settings :: verify_settings
  gn_history :: "test_result list"

definition gn_manager :: "'n generator \<Rightarrow> manager" where "gn_manager s = lg_manager (gn_world s)"

definition gn_store :: "'n generator \<Rightarrow> database option" where "gn_store s = lg_cache (gn_world s)"

section \<open>Starting\<close>

definition no_progress :: init_progress where
  "no_progress = \<lparr>ip_Phase = InitPhaseNone, ip_AccountsTotal = 0, ip_AccountsGen = 0, ip_FundingTotal = 0, ip_FundingSent = 0,
     ip_ContractsTotal = 0, ip_ContractsDone = 0\<rparr>"

definition set_failure :: "test_failure \<Rightarrow> 'n generator \<Rightarrow> 'n generator" where
  "set_failure e s = s\<lparr>gn_status := StatusError, gn_error := Some e\<rparr>"

datatype start_error = AlreadyRunning | BadRatios ratio_error

text \<open>Without an error the initialization of the request is running in the background afterwards.\<close>

definition generator_StartTest :: "start_test_request \<Rightarrow> 'n generator \<Rightarrow> start_error option \<times> 'n generator" where
  "generator_StartTest req s =
     (if gn_status s = StatusRunning \<or> gn_status s = StatusInitializing then (Some AlreadyRunning, s)
      else
        let s1 = s\<lparr>gn_status := StatusInitializing, gn_error := None, gn_init := no_progress, gn_config := req\<rparr> in
        case (case rq_RealisticConfig req of
                Some c \<Rightarrow> if UsesRealisticMix (rq_Pattern req) then ValidateTxTypeRatios (rt_TxTypeRatios c) else None
              | None \<Rightarrow> None) of
          Some e \<Rightarrow> (Some (BadRatios e), set_failure (InvalidRatios e) s1)
        | None \<Rightarrow> (None, s1))"

section \<open>Resetting\<close>

text \<open>
  The fields of the rate controller that a reset clears: \<open>currentPattern\<close>, the limiter and what the builder said
  about attestations stay.
\<close>

definition reset_rate :: "rate_control \<Rightarrow> rate_control" where
  "reset_rate r =
     r\<lparr>currentRate := 0, rc_pendingCount := 0, recentSends := 0, recentFails := 0, recentRevocations := 0, circuitOpen := False,
       preCircuitRate := 0, nonceResyncNeeded := False, builderPressure := 0, latestBaseFeeGwei := 0,
       latestGasPriceGwei := 0, latestGasUsed := 0\<rparr>"

text \<open>The answer of the builder to the flush of its mempool is logged only.\<close>

definition generator_Reset :: "'n generator \<Rightarrow> 'n generator" where
  "generator_Reset s =
     (if gn_status s = StatusRunning then s
      else s\<lparr>gn_status := StatusIdle, gn_error := None, metricsCol := Collector_Reset (metricsCol s),
        preconfLatencies := latency_Reset (preconfLatencies s), gn_rate := reset_rate (gn_rate s),
        lg_pendingCount := 0, lg_recentSends := 0, lg_recentFails := 0, lg_recentRevocations := 0,
        lastPreconfSeqNum := 0, preconfGaps := 0, gn_discarded := 0, gn_startTime := None, gn_duration := 0, gn_currentTPS := 0,
        gn_warnings := [], gn_gasCaps := None,
        blockState := reset_blocks ((blockState s)\<lparr>block_state.peakRate := 0\<rparr>),
        gn_snapshots := [], recentConfirmedHashes := [], gn_settings := (gn_settings s)\<lparr>vs_txOrdering := ''''\<rparr>,
        pendingTxs := []\<rparr>)"

text \<open>The status fields move as the lifecycle says; starting an accepted request is the new thread.\<close>

definition lifecycle_view :: "thread list \<Rightarrow> nat \<Rightarrow> nat \<Rightarrow> 'n generator \<Rightarrow> lifecycle" where
  "lifecycle_view ts st fin s =
     \<lparr>status = gn_status s, testError = (gn_error s \<noteq> None), stopping = gn_stopping s, forceStop = gn_forceStop s,
      threads = ts, started = st, finished = fin\<rparr>"

lemma start_refines_lifecycle:
  "(let (e, s') = generator_StartTest req s in
      lifecycle_view (if e = None then ts @ [InitEarly] else ts) st fin s' = snd (StartTest req (lifecycle_view ts st fin s)) \<and>
      (e \<noteq> None \<longleftrightarrow> fst (StartTest req (lifecycle_view ts st fin s))))"
  by (simp add: generator_StartTest_def StartTest_def lifecycle_view_def set_failure_def setError_def Let_def split: option.split if_split)

lemma reset_refines_lifecycle:
  "lifecycle_view ts st fin (generator_Reset s) = Reset_status (lifecycle_view ts st fin s)"
  by (simp add: generator_Reset_def Reset_status_def lifecycle_view_def)

section \<open>The metrics of a running test\<close>

record test_metrics =
  mt_Status :: test_status
  mt_Error :: "test_failure option"
  mt_Warnings :: "(int \<times> int \<times> f64) list"
  mt_TxSent :: nat
  mt_TxConfirmed :: nat
  mt_TxFailed :: nat
  mt_TxDiscarded :: u64
  mt_TxPending :: nat
  mt_TxPreconfirmed :: nat
  mt_TxRevoked :: nat
  mt_TxDropped :: nat
  mt_TxRequeued :: nat
  mt_CurrentTPS :: f64
  mt_AverageTPS :: f64
  mt_ElapsedMs :: int
  mt_DurationMs :: int
  mt_TargetTPS :: int
  mt_PeakTPS :: int
  mt_Pattern :: load_pattern
  mt_TransactionType :: transaction_type
  mt_Latency :: "latency_report option"
  mt_PreconfLatency :: "latency_report option"
  mt_PendingLatency :: "latency_report option"
  mt_FlowStats :: flow_stats
  mt_ReadLoad :: "read_load_metrics option"
  mt_TipHistogram :: "tip_histogram_bucket list option"
  mt_TxTypeMetrics :: "tx_type_metrics list"
  mt_AccountsFunded :: int
  mt_AccountsActive :: int
  mt_LatestBaseFeeGwei :: f64
  mt_LatestGasPriceGwei :: f64
  mt_LatestGasUsed :: u64
  mt_TotalGasUsed :: u64
  mt_BlockCount :: int
  mt_PeakMgasPerSec :: f64
  mt_AvgMgasPerSec :: f64
  mt_AvgFillRate :: f64
  mt_CurrentMgasPerSec :: f64
  mt_CurrentFillRate :: f64
  mt_BlockAttestationEnabled :: bool
  mt_HSMProvider :: string
  mt_HSMKeyIDActive :: string
  mt_HSMFailoverEnabled :: bool
  mt_PrivacyAvailable :: bool
  mt_PrivacyMode :: bool
  mt_Init :: "init_progress option"
  mt_Verify :: "verify_progress option"

definition elapsed_ms :: "int \<Rightarrow> 'n generator \<Rightarrow> int" where
  "elapsed_ms now s = (case gn_startTime s of None \<Rightarrow> 0 | Some t \<Rightarrow> Milliseconds (now - t))"

definition per_second :: "f64 \<Rightarrow> int \<Rightarrow> f64" where
  "per_second x ms = fdiv x (fdiv (f64_of_int ms) 1000)"

definition block_fill_rate :: "u64 \<Rightarrow> u64 \<Rightarrow> f64" where
  "block_fill_rate used limit = (if 0 < limit then fmul (fdiv (f64_of_int (uint used)) (f64_of_int (uint limit))) 100 else 0)"

definition last_fill_rate :: "block_state \<Rightarrow> f64" where
  "last_fill_rate b = (if blockMetrics b = [] then 0 else block_fill_rate (bp_gasUsed (last (blockMetrics b))) (bp_gasLimit (last (blockMetrics b))))"

text \<open>The read load's part; \<open>None\<close> is a panic in the engine.\<close>

definition readLoadMetrics :: "int \<Rightarrow> 'n generator \<Rightarrow> read_load_metrics option option" where
  "readLoadMetrics now s = (case gn_readEngine s of None \<Rightarrow> Some None | Some e \<Rightarrow> map_option Some (engine_Metrics now e))"

definition metrics_of :: "int \<Rightarrow> f64 \<Rightarrow> read_load_metrics option \<Rightarrow> 'n generator \<Rightarrow> test_metrics" where
  "metrics_of now rolling reads s =
     (let c = metricsCol s; b = blockState s; r = gn_rate s; (sent, confirmed, failed) = GetSnapshot c; ms = elapsed_ms now s;
          realistic = EffectiveRealisticConfig (rq_Pattern (gn_config s)) (rq_RealisticConfig (gn_config s))
      in \<lparr>mt_Status = gn_status s, mt_Error = gn_error s, mt_Warnings = gn_warnings s,
          mt_TxSent = sent, mt_TxConfirmed = confirmed, mt_TxFailed = failed, mt_TxDiscarded = 0,
          mt_TxPending = txPending c, mt_TxPreconfirmed = txPreconfirmed c, mt_TxRevoked = txRevoked c, mt_TxDropped = txDropped c,
          mt_TxRequeued = txRequeued c, mt_CurrentTPS = gn_currentTPS s,
          mt_AverageTPS = (if 0 < ms then per_second (f64_of_int (int sent)) ms else 0),
          mt_ElapsedMs = ms, mt_DurationMs = (if gn_startTime s = None then 0 else Milliseconds (gn_duration s)),
          mt_TargetTPS = currentRate r, mt_PeakTPS = block_state.peakRate b, mt_Pattern = rq_Pattern (gn_config s),
          mt_TransactionType = gn_txType s, mt_Latency = latency_GetStats (latencyStats c),
          mt_PreconfLatency = latency_GetStats (preconfLatency c), mt_PendingLatency = latency_GetStats (pendingLatency c),
          mt_FlowStats = flow_GetStats (flowTracker c), mt_ReadLoad = reads,
          mt_TipHistogram = (if realistic = None then None else GetTipHistogram realistic c),
          mt_TxTypeMetrics = (if realistic = None then [] else GetTxTypeMetrics c),
          mt_AccountsFunded = (if realistic = None then 0 else mg_funded (gn_manager s)),
          mt_AccountsActive = (if realistic = None then 0 else int (length (mg_dynamic (gn_manager s)))),
          mt_LatestBaseFeeGwei = latestBaseFeeGwei r, mt_LatestGasPriceGwei = latestGasPriceGwei r, mt_LatestGasUsed = latestGasUsed r,
          mt_TotalGasUsed = cumulativeGasUsed b, mt_BlockCount = totalBlockCount b, mt_PeakMgasPerSec = peakMgasPerSec b,
          mt_AvgMgasPerSec = (if 0 < ms \<and> 0 < cumulativeGasUsed b
            then per_second (fdiv (f64_of_int (uint (cumulativeGasUsed b))) 1000000) ms else 0),
          mt_AvgFillRate = block_fill_rate (cumulativeGasUsed b) (cumulativeGasLimit b),
          mt_CurrentMgasPerSec = rolling, mt_CurrentFillRate = last_fill_rate b,
          mt_BlockAttestationEnabled = blockAttestationEnabled r, mt_HSMProvider = hsmProvider r, mt_HSMKeyIDActive = hsmKeyIDActive r,
          mt_HSMFailoverEnabled = hsmFailoverEnabled r, mt_PrivacyAvailable = (cf_PrivacyRPCURL (gn_cfg s) \<noteq> ''''),
          mt_PrivacyMode = rq_PrivacyMode (gn_config s),
          mt_Init = (if gn_status s = StatusInitializing then Some (gn_init s) else None),
          mt_Verify = (if gn_status s = StatusVerifying then Some (gn_verify s) else None)\<rparr>)"

text \<open>Reading the rolling rate prunes its window.\<close>

definition GetMetrics :: "int \<Rightarrow> 'n generator \<Rightarrow> (test_metrics \<times> 'n generator) option" where
  "GetMetrics now s =
     (let (rolling, b') = calculateRollingMgasPerSec (gn_ctx s) now (blockState s); s' = s\<lparr>blockState := b'\<rparr>
      in map_option (\<lambda>reads. (metrics_of now rolling reads s', s')) (readLoadMetrics now s'))"

lemma rolling_rate_state:
  "\<exists>w r. snd (calculateRollingMgasPerSec ctx now b) = b\<lparr>rollingGasWindow := w, lastMgasPerSec := r\<rparr>"
proof -
  have id: "b = b\<lparr>rollingGasWindow := rollingGasWindow b, lastMgasPerSec := lastMgasPerSec b\<rparr>" by simp
  have kept: "b\<lparr>rollingGasWindow := w\<rparr> = b\<lparr>rollingGasWindow := w, lastMgasPerSec := lastMgasPerSec b\<rparr>" for w by simp
  show ?thesis
    by (cases ctx) (auto simp: calculateRollingMgasPerSec_def Let_def split: prod.split intro: id kept)
qed

text \<open>Asking for the metrics moves nothing of the test but the pruned window and the cached rate.\<close>

lemma metrics_leave_the_test:
  assumes "GetMetrics now s = Some (m, s')"
  shows "\<exists>w r. s' = s\<lparr>blockState := (blockState s)\<lparr>rollingGasWindow := w, lastMgasPerSec := r\<rparr>\<rparr>"
proof -
  have "s' = s\<lparr>blockState := snd (calculateRollingMgasPerSec (gn_ctx s) now (blockState s))\<rparr>"
    using assms by (auto simp: GetMetrics_def split_beta Let_def)
  moreover obtain w r where "snd (calculateRollingMgasPerSec (gn_ctx s) now (blockState s)) =
      (blockState s)\<lparr>rollingGasWindow := w, lastMgasPerSec := r\<rparr>"
    using rolling_rate_state by blast
  ultimately show ?thesis by (intro exI [of _ w] exI [of _ r]) simp
qed

text \<open>
  The average rate is over the time since the start, also when the test is long over: it goes on falling.
\<close>

lemma average_keeps_falling:
  assumes "gn_startTime s = Some 0" "txSent (metricsCol s) = 1000"
  shows "mt_AverageTPS (metrics_of (10 * second) x y s) = 100" "mt_AverageTPS (metrics_of (20 * second) x y s) = 50"
proof -
  have "fl 10000 = 10000" "fl 20000 = 20000" "fl 10 = 10" "fl 20 = 20" "fl 1000 = 1000" "fl 100 = 100" "fl 50 = 50"
    using fl_of_int [of 10000] fl_of_int [of 20000] fl_of_int [of 10] fl_of_int [of 20] fl_of_int [of 1000] fl_of_int [of 100]
      fl_of_int [of 50] by simp_all
  then show "mt_AverageTPS (metrics_of (10 * second) x y s) = 100" "mt_AverageTPS (metrics_of (20 * second) x y s) = 50"
    using assms by (simp_all add: metrics_of_def Let_def split_beta GetSnapshot_def elapsed_ms_def Milliseconds_def go_quot_def
        second_def per_second_def f64_of_int_def fdiv_def)
qed

section \<open>The history\<close>

text \<open>What the store's engine answers to the statements of one request, and the orders it delivers rows in.\<close>

record 'j api_env =
  ai_codec :: "'j codec"
  ai_orderRuns :: "run_row list \<Rightarrow> run_row list"
  ai_orderPoints :: "series_row list \<Rightarrow> series_row list"
  ai_orderLogs :: "log_row list \<Rightarrow> log_row list"
  ai_count :: "string option"
  ai_row :: "string option"
  ai_rows :: query_env
  ai_exec :: "string option"

definition GetHistoryPaginated :: "'j api_env \<Rightarrow> int \<Rightarrow> int \<Rightarrow> 'n generator \<Rightarrow> sql_err + 'j test_run paginated" where
  "GetHistoryPaginated env limit offset s =
     (case gn_store s of
        None \<Rightarrow> Inr \<lparr>pg_Items = [], pg_Total = 0, pg_Limit = limit, pg_Offset = offset\<rparr>
      | Some db \<Rightarrow> ListTestRuns (ai_codec env) (ai_orderRuns env) (ai_count env) (ai_rows env) limit offset db)"

record 'j run_detail =
  dt_Run :: "'j test_run"
  dt_TimeSeries :: "series_point list"

definition GetTestRunDetail :: "'j api_env \<Rightarrow> string \<Rightarrow> 'n generator \<Rightarrow> sql_err + 'j run_detail option" where
  "GetTestRunDetail env i s =
     (case gn_store s of None \<Rightarrow> Inr None
      | Some db \<Rightarrow>
          (case GetTestRun (ai_codec env) (ai_row env) i db of
             Inl e \<Rightarrow> Inl e
           | Inr None \<Rightarrow> Inr None
           | Inr (Some run) \<Rightarrow>
               (case GetTimeSeries (ai_orderPoints env) (ai_rows env) i db of
                  Inl e \<Rightarrow> Inl e
                | Inr points \<Rightarrow> Inr (Some \<lparr>dt_Run = run, dt_TimeSeries = points\<rparr>))))"

definition GetTestRunTransactions :: "'j api_env \<Rightarrow> string \<Rightarrow> int \<Rightarrow> int \<Rightarrow> 'n generator \<Rightarrow> sql_err + log_entry paginated" where
  "GetTestRunTransactions env i limit offset s =
     (case gn_store s of
        None \<Rightarrow> Inr \<lparr>pg_Items = [], pg_Total = 0, pg_Limit = limit, pg_Offset = offset\<rparr>
      | Some db \<Rightarrow> GetTxLogs (ai_orderLogs env) (ai_count env) (ai_rows env) i limit offset db)"

definition put_store :: "database \<Rightarrow> 'n generator \<Rightarrow> 'n generator" where
  "put_store db s = s\<lparr>gn_world := (gn_world s)\<lparr>lg_cache := Some db\<rparr>\<rparr>"

definition generator_Delete :: "'j api_env \<Rightarrow> string \<Rightarrow> 'n generator \<Rightarrow> sql_err option \<times> 'n generator" where
  "generator_Delete env i s =
     (case gn_store s of None \<Rightarrow> (None, s)
      | Some db \<Rightarrow> let (e, db') = DeleteTestRun (ai_exec env) i db in (e, put_store db' s))"

definition generator_Update :: "'j api_env \<Rightarrow> string \<Rightarrow> metadata_update \<Rightarrow> 'n generator \<Rightarrow> sql_err option \<times> 'n generator" where
  "generator_Update env i u s =
     (case gn_store s of None \<Rightarrow> (None, s)
      | Some db \<Rightarrow> let (e, db') = UpdateTestRunMetadata (ai_exec env) i u db in (e, put_store db' s))"

section \<open>Funds and health\<close>

datatype recycle_failure = RecycleWhileRunning | RecyclePartly recycle_err

text \<open>\<open>None\<close> is a panic on an account that was not generated.\<close>

definition generator_Recycle ::
  "'s tx_signer \<Rightarrow> recycle_env \<Rightarrow> 'n generator \<Rightarrow> ((nat \<times> recycle_failure option) \<times> eth_tx option list \<times> 'n generator) option" where
  "generator_Recycle sg env s =
     (if gn_status s = StatusRunning then Some ((0, Some RecycleWhileRunning), [], s)
      else map_option (\<lambda>((n, e), txs, m).
        ((n, map_option RecyclePartly e), txs, s\<lparr>gn_world := (gn_world s)\<lparr>lg_manager := m\<rparr>\<rparr>)) (RecycleFunds sg env (gn_manager s)))"

text \<open>A reset does not look at funds or history: what is stored and who is funded stay.\<close>

lemma reset_keeps_the_store: "gn_store (generator_Reset s) = gn_store s" "gn_manager (generator_Reset s) = gn_manager s"
  by (simp_all add: generator_Reset_def gn_store_def gn_manager_def)

end
