(* ===== verification/Stop_Test.thy ===== *)
theory Stop_Test
  imports Load_Generator
begin

text \<open>
  The stop sequence (\<open>stopTest\<close> of \<open>internal/loadgen/loadgen.go\<close> and \<open>stopIncrementalVerification\<close> of
  \<open>verification.go\<close>): the reads end, the last snapshot is taken, the test's last block is recorded, late
  confirmations are waited for, the rest of the pending transactions is resolved or discarded, and the result is
  saved.  The clock, the answers of the node and the messages that still arrive are arguments.
\<close>

section \<open>The parts of the state the components work on\<close>

definition on_confirm :: "(confirm_state \<Rightarrow> confirm_state) \<Rightarrow> 'n generator \<Rightarrow> 'n generator" where
  "on_confirm f s = confirm_state.extend (f (confirm_state.truncate s)) (confirm_state.more s)"

text \<open>The contracts as the result lists them; the swap builder's when it is deployed.\<close>

definition contract_fields_of :: "'n lg_world \<Rightarrow> contract_fields" where
  "contract_fields_of w =
     \<lparr>cs_deployed = lg_contractsDeployed w, cs_erc20 = lg_erc20 w, cs_gasConsumer = lg_gasConsumer w, cs_nft = lg_nft w,
      cs_uniswap = (case GetComplexBuilder TxTypeUniswapSwap (lg_registry w) of
        None \<Rightarrow> None | Some b \<Rightarrow> if sb_deployed b then Some (sb_contracts b) else None)\<rparr>"

text \<open>A test that is stopped has a start time.\<close>

definition finish_of :: "'n generator \<Rightarrow> finish_state" where
  "finish_of s = confirm_state.extend (confirm_state.truncate s)
     (finish_state.fields (gn_testID s) (case gn_startTime s of None \<Rightarrow> 0 | Some t \<Rightarrow> t) (gn_config s) (gn_txType s) (gn_discarded s)
        (gn_forceStop s) (gn_series s) (gn_snapshots s) (gn_settings s) (contract_fields_of (gn_world s)) (gn_history s))"

text \<open>What saving changes: the log buffer, the settings the builder answered with, the history, the store.\<close>

definition put_finish :: "finish_state \<Rightarrow> database option \<Rightarrow> 'n generator \<Rightarrow> 'n generator" where
  "put_finish f store s =
     s\<lparr>txLogBuf := txLogBuf f, gn_settings := fi_settings f, gn_history := fi_history f,
       gn_world := (gn_world s)\<lparr>lg_cache := store\<rparr>\<rparr>"

section \<open>The sequence\<close>

record 'j stop_env =
  sq_now :: int
  sq_blocks :: "u64 list \<Rightarrow> rpc_err + block_full option list"
  sq_receipts :: "string list \<Rightarrow> rpc_err + tx_receipt option list"
  sq_endBlock :: "u64 option"
  sq_hashOf :: "string \<Rightarrow> hash"
  sq_late :: "((nat \<Rightarrow> int) \<times> preconf_message) list"
  sq_forced :: bool
  sq_resolvedAt :: int
  sq_lookup :: "hash \<Rightarrow> receipt_reply"
  sq_boxes :: "'j boxes"
  sq_codec :: "'j codec"
  sq_readBox :: "read_load_metrics \<Rightarrow> 'j"
  sq_finish :: finish_env
  sq_engine :: store_env

definition stop_reads :: "int \<Rightarrow> 'n generator \<Rightarrow> 'n generator" where
  "stop_reads now s = s\<lparr>gn_readEngine := map_option (Stop_engine now) (gn_readEngine s)\<rparr>"

text \<open>The last snapshot of the incremental verification, before the context is cancelled; \<open>None\<close> is a panic of the verifier.\<close>

definition incremental_of :: "'n generator \<Rightarrow> incremental" where
  "incremental_of s = \<lparr>ic_recentBlocks = recentBlockNumbers (blockState s), ic_recentHashes = recentConfirmedHashes s, ic_snapshots = gn_snapshots s\<rparr>"

definition put_incremental :: "incremental \<Rightarrow> 'n generator \<Rightarrow> 'n generator" where
  "put_incremental i s =
     s\<lparr>blockState := (blockState s)\<lparr>recentBlockNumbers := ic_recentBlocks i\<rparr>, recentConfirmedHashes := ic_recentHashes i,
       gn_snapshots := ic_snapshots i\<rparr>"

definition stopIncrementalVerification :: "'j stop_env \<Rightarrow> 'n generator \<Rightarrow> 'n generator option" where
  "stopIncrementalVerification env s =
     map_option (\<lambda>i. put_incremental i s)
       (runIncrementalVerification (vs_includeDepositTx (gn_settings s)) (sq_blocks env) (sq_receipts env)
          (vs_txOrdering (gn_settings s)) (incremental_of s))"

definition record_end :: "u64 option \<Rightarrow> 'n generator \<Rightarrow> 'n generator" where
  "record_end n s = (case n of None \<Rightarrow> s | Some b \<Rightarrow> s\<lparr>blockState := (blockState s)\<lparr>testEndBlockNumber := b\<rparr>\<rparr>)"

text \<open>How long late confirmations are waited for.\<close>

definition grace_period :: "'n generator \<Rightarrow> int" where
  "grace_period s =
     (if cf_PreconfWSURL (gn_cfg s) \<noteq> '''' then 3 * second
      else let i = lastBlockInterval (blockState s); g = 6 * (if i \<le> 0 then 2 * second else i);
               g' = (if g < 6 * second then 6 * second else g)
           in if 30 * second < g' then 30 * second else g')"

definition waits_for_late :: "'n generator \<Rightarrow> bool" where
  "waits_for_late s \<longleftrightarrow> \<not> gn_forceStop s \<and> 0 < countPendingTxs s"

text \<open>A stop request during the wait sets \<open>forceStop\<close>, which ends the wait and skips the receipts.\<close>

definition wait_for_late :: "'j stop_env \<Rightarrow> 'n generator \<Rightarrow> 'n generator" where
  "wait_for_late env s =
     (if waits_for_late s
      then (on_confirm (handle_messages (sq_hashOf env) (sq_late env)) s)\<lparr>gn_forceStop := sq_forced env\<rparr> else s)"

definition resolve_late :: "'j stop_env \<Rightarrow> 'n generator \<Rightarrow> 'n generator" where
  "resolve_late env s =
     (if gn_forceStop s then s else snd (resolvePendingViaReceipts True (sq_resolvedAt env) (sq_lookup env) s))"

definition discard_pending :: "'n generator \<Rightarrow> 'n generator" where
  "discard_pending s = (let (n, s1) = finalizePendingTxs s in s1\<lparr>gn_discarded := of_nat n\<rparr>)"

text \<open>The insert of the log that goes on in the background is the second component.\<close>

definition save_result ::
  "'j stop_env \<Rightarrow> 'n generator \<Rightarrow> ('n generator \<times> (string \<times> log_entry list) option) option" where
  "save_result env s =
     do { reads \<leftarrow> readLoadMetrics (sq_now env) s;
          (f, store, ins) \<leftarrow> saveTestResult (sq_boxes env) (sq_codec env) (map_option (sq_readBox env) reads) (sq_finish env) (sq_engine env)
            (finish_of s) (gn_store s);
          Some (put_finish f store s, ins) }"

definition stop_sequence :: "'j stop_env \<Rightarrow> 'n generator \<Rightarrow> ('n generator \<times> (string \<times> log_entry list) option) option" where
  "stop_sequence env s0 =
     do { s1 \<leftarrow> stopIncrementalVerification env (stop_reads (sq_now env) s0);
          let s2 = record_end (sq_endBlock env) (s1\<lparr>gn_ctx := CtxCancelled\<rparr>);
          let s3 = discard_pending (resolve_late env (wait_for_late env s2));
          (s4, ins) \<leftarrow> save_result env (s3\<lparr>gn_status := StatusVerifying\<rparr>);
          Some (s4\<lparr>gn_status := StatusCompleted\<rparr>, ins) }"

text \<open>The guards: only a running test, and only the first caller runs the sequence.\<close>

definition generator_stopTest :: "'j stop_env \<Rightarrow> 'n generator \<Rightarrow> ('n generator \<times> (string \<times> log_entry list) option) option" where
  "generator_stopTest env s =
     (if gn_status s \<noteq> StatusRunning then Some (s, None)
      else if gn_stopping s then Some (s, None)
      else stop_sequence env (s\<lparr>gn_stopping := True\<rparr>))"

definition generator_StopTest :: "'j stop_env \<Rightarrow> 'n generator \<Rightarrow> ('n generator \<times> (string \<times> log_entry list) option) option" where
  "generator_StopTest env s = generator_stopTest env (s\<lparr>gn_forceStop := True\<rparr>)"

lemma grace_bounds: "3 * second \<le> grace_period s" "grace_period s \<le> 30 * second"
  by (simp_all add: grace_period_def Let_def second_def)

section \<open>A stopped test is settled\<close>

lemma on_confirm_fields [simp]:
  "gn_status (on_confirm f s) = gn_status s" "gn_testID (on_confirm f s) = gn_testID s" "gn_config (on_confirm f s) = gn_config s"
  "gn_readEngine (on_confirm f s) = gn_readEngine s" "gn_history (on_confirm f s) = gn_history s"
  by (cases s; simp add: on_confirm_def confirm_state.defs)+

lemma finish_of_fields [simp]:
  "metricsCol (finish_of s) = metricsCol s" "fi_testID (finish_of s) = gn_testID s" "fi_discarded (finish_of s) = gn_discarded s"
  "fi_history (finish_of s) = gn_history s" "fi_config (finish_of s) = gn_config s"
  by (simp_all add: finish_of_def finish_state.defs confirm_state.defs)

lemma last_take_last: "0 < n \<Longrightarrow> last (take_last n (xs @ [x])) = x"
  by (simp add: take_last_def last_drop)

lemma saved_history:
  assumes "saveTestResult bx cd readLoad fe se s store = Some (f, store', ins)"
  shows "fi_history f = take_last 100 (fi_history s @ [result_of (fe_now fe) (fe_completedAt fe) s])"
proof (cases store)
  case None
  then show ?thesis using assms by (auto simp: saveTestResult_def Let_def remember_result_def)
next
  case (Some db)
  let ?s = "remember_result (result_of (fe_now fe) (fe_completedAt fe) s) s"
  obtain db' where "persistTestData bx cd readLoad fe se ?s db = Some (f, db', ins)"
    using assms Some by (auto simp: saveTestResult_def Let_def)
  then have "fi_history f = fi_history ?s"
    by (auto simp: persistTestData_def Let_def merged_log_def split: prod.splits bind_split_asm)
  then show ?thesis by (simp add: remember_result_def)
qed

lemma result_of_finish [simp]:
  "ts_ID (result_of a b s) = fi_testID s" "ts_TxDiscarded (result_of a b s) = fi_discarded s"
  "ts_TxSent (result_of a b s) = txSent (metricsCol s)" "ts_TxConfirmed (result_of a b s) = txConfirmed (metricsCol s)"
  "ts_TxFailed (result_of a b s) = txFailed (metricsCol s)"
  by (simp_all add: result_of_def GetSnapshot_def Let_def)

text \<open>What saving the result leaves.\<close>

lemma save_result_effect:
  assumes "save_result env s = Some (s', ins)"
  shows "gn_status s' = gn_status s" "pendingTxs s' = pendingTxs s" "metricsCol s' = metricsCol s" "gn_discarded s' = gn_discarded s"
    "gn_readEngine s' = gn_readEngine s" "gn_testID s' = gn_testID s" "gn_config s' = gn_config s"
    "gn_history s' \<noteq> []" "ts_ID (last (gn_history s')) = gn_testID s" "ts_TxSent (last (gn_history s')) = txSent (metricsCol s)"
    "ts_TxConfirmed (last (gn_history s')) = txConfirmed (metricsCol s)" "ts_TxDiscarded (last (gn_history s')) = gn_discarded s"
proof -
  obtain reads f store where f: "saveTestResult (sq_boxes env) (sq_codec env) (map_option (sq_readBox env) reads) (sq_finish env) (sq_engine env)
      (finish_of s) (gn_store s) = Some (f, store, ins)" and s': "s' = put_finish f store s"
    using assms by (auto simp: save_result_def split: bind_split_asm)
  note h = saved_history [OF f]
  show "gn_history s' \<noteq> []" by (simp add: s' put_finish_def h take_last_def)
  show "gn_status s' = gn_status s" "pendingTxs s' = pendingTxs s" "metricsCol s' = metricsCol s" "gn_discarded s' = gn_discarded s"
    "gn_readEngine s' = gn_readEngine s" "gn_testID s' = gn_testID s" "gn_config s' = gn_config s"
    by (simp_all add: s' put_finish_def)
  show "ts_ID (last (gn_history s')) = gn_testID s" "ts_TxSent (last (gn_history s')) = txSent (metricsCol s)"
    "ts_TxConfirmed (last (gn_history s')) = txConfirmed (metricsCol s)" "ts_TxDiscarded (last (gn_history s')) = gn_discarded s"
    by (simp_all add: s' put_finish_def h last_take_last)
qed

lemma discard_pending_effect:
  "\<forall>(h, e) \<in> set (pendingTxs (discard_pending s)). te_Status e \<noteq> EntryPending"
  "gn_discarded (discard_pending s) = of_nat (countPendingTxs s)"
  "gn_status (discard_pending s) = gn_status s" "gn_testID (discard_pending s) = gn_testID s"
  "gn_config (discard_pending s) = gn_config s" "gn_readEngine (discard_pending s) = gn_readEngine s"
  by (auto simp: discard_pending_def finalizePendingTxs_def Let_def split: if_splits)

lemma before_discard:
  "gn_status (resolve_late env s) = gn_status s" "gn_testID (resolve_late env s) = gn_testID s"
  "gn_config (resolve_late env s) = gn_config s" "gn_readEngine (resolve_late env s) = gn_readEngine s"
  "gn_testID (wait_for_late env s) = gn_testID s" "gn_config (wait_for_late env s) = gn_config s"
  "gn_readEngine (wait_for_late env s) = gn_readEngine s"
proof -
  have one: "gn_status (snd (resolve_one t r h s)) = gn_status s \<and> gn_testID (snd (resolve_one t r h s)) = gn_testID s \<and>
      gn_config (snd (resolve_one t r h s)) = gn_config s \<and> gn_readEngine (snd (resolve_one t r h s)) = gn_readEngine s" for t r h
    and s :: "'x generator"
    by (simp add: resolve_one_def recordTxConfirmed_def sub_pending_def Let_def split: receipt_reply.split option.split)
  have all: "gn_status (snd (resolve_all t rs hs s)) = gn_status s \<and> gn_testID (snd (resolve_all t rs hs s)) = gn_testID s \<and>
      gn_config (snd (resolve_all t rs hs s)) = gn_config s \<and> gn_readEngine (snd (resolve_all t rs hs s)) = gn_readEngine s" for t rs hs
    and s :: "'x generator"
    by (induction hs arbitrary: s) (simp_all add: Let_def split_beta one)
  show "gn_status (resolve_late env s) = gn_status s" "gn_testID (resolve_late env s) = gn_testID s"
    "gn_config (resolve_late env s) = gn_config s" "gn_readEngine (resolve_late env s) = gn_readEngine s"
    by (simp_all add: resolve_late_def resolvePendingViaReceipts_def all)
  show "gn_testID (wait_for_late env s) = gn_testID s" "gn_config (wait_for_late env s) = gn_config s"
    "gn_readEngine (wait_for_late env s) = gn_readEngine s"
    by (simp_all add: wait_for_late_def)
qed

lemma stopped_engine: "e_closed (Stop_engine now e)"
  by (simp add: Stop_engine_def Let_def split: option.split)

text \<open>How a stop that returns leaves the test.\<close>

lemma stop_outcome:
  assumes "generator_stopTest env s = Some (s', ins)" "gn_status s = StatusRunning" "\<not> gn_stopping s"
  shows "gn_status s' = StatusCompleted \<and> (\<forall>(h, e) \<in> set (pendingTxs s'). te_Status e \<noteq> EntryPending) \<and>
    pred_option e_closed (gn_readEngine s') \<and> gn_config s' = gn_config s \<and> gn_history s' \<noteq> [] \<and>
    (let r = last (gn_history s') in ts_ID r = gn_testID s \<and> ts_TxSent r = txSent (metricsCol s') \<and>
       ts_TxConfirmed r = txConfirmed (metricsCol s') \<and> ts_TxDiscarded r = gn_discarded s')"
proof -
  let ?s0 = "stop_reads (sq_now env) (s\<lparr>gn_stopping := True\<rparr>)"
  obtain s1 s4 where s1: "stopIncrementalVerification env ?s0 = Some s1"
    and s4: "save_result env ((discard_pending (resolve_late env (wait_for_late env
      (record_end (sq_endBlock env) (s1\<lparr>gn_ctx := CtxCancelled\<rparr>)))))\<lparr>gn_status := StatusVerifying\<rparr>) = Some (s4, ins)"
    and s': "s' = s4\<lparr>gn_status := StatusCompleted\<rparr>"
    using assms by (auto simp: generator_stopTest_def stop_sequence_def Let_def split: bind_split_asm)
  have keep: "gn_testID s1 = gn_testID s" "gn_config s1 = gn_config s" "gn_readEngine s1 = map_option (Stop_engine (sq_now env)) (gn_readEngine s)"
    using s1 by (auto simp: stopIncrementalVerification_def put_incremental_def stop_reads_def)
  note saved = save_result_effect [OF s4]
  have "gn_testID (record_end n t) = gn_testID t" "gn_config (record_end n t) = gn_config t" "gn_readEngine (record_end n t) = gn_readEngine t"
    for n and t :: "'a generator" by (simp_all add: record_end_def split: option.split)
  then have fields: "gn_testID s4 = gn_testID s" "gn_config s4 = gn_config s"
    "gn_readEngine s4 = map_option (Stop_engine (sq_now env)) (gn_readEngine s)"
    using saved by (simp_all add: keep before_discard discard_pending_effect(2-6))
  have "\<forall>(h, e) \<in> set (pendingTxs s4). te_Status e \<noteq> EntryPending"
    using saved(2) discard_pending_effect(1) by simp
  moreover have "pred_option e_closed (gn_readEngine s4)" by (cases "gn_readEngine s") (simp_all add: fields stopped_engine)
  moreover have "let r = last (gn_history s4) in ts_ID r = gn_testID s \<and> ts_TxSent r = txSent (metricsCol s4) \<and>
       ts_TxConfirmed r = txConfirmed (metricsCol s4) \<and> ts_TxDiscarded r = gn_discarded s4"
    using saved fields by (simp add: Let_def)
  ultimately show ?thesis using saved(8) fields by (simp add: s')
qed


definition demo_client :: rpc_client where "demo_client = HTTPClient (http_config_of ''http://localhost:13000'')"

definition demo_generator :: "(int \<times> nat) generator" where
  "demo_generator = confirm_state.extend
     (example_confirm\<lparr>txLoggingEnabled := True, pendingTxs := [(3, \<lparr>te_TxHash = 3, te_SentAtMs = 5, te_ConfirmedAtMs = 0,
        te_PreconfAtMs = 0, te_ConfirmLatencyMs = 0, te_PreconfLatencyMs = 0, te_Status = EntryPending, te_FromAccount = 0,
        te_Nonce = 0, te_GasTipGwei = 0\<rparr>)]\<rparr>)
     (generator.fields default_config StatusRunning None [] no_progress
        \<lparr>vp_Phase = VerifyPhaseNone, vp_BlocksToVerify = 0, vp_BlocksVerified = 0, vp_ReceiptsToSample = 0, vp_ReceiptsSampled = 0\<rparr>
        \<lparr>recentSends = 0, recentFails = 0, recentRevocations = 0, currentRate = 100, rc_pendingCount = 0, circuitOpen = False,
          nonceResyncNeeded = False, preCircuitRate = 0, builderPressure = 0, latestBaseFeeGwei = 0, latestGasPriceGwei = 0,
          latestGasUsed = 0, blockAttestationEnabled = False, hsmProvider = '''', hsmKeyIDActive = '''', hsmFailoverEnabled = False,
          rateLimiter = NewLimiter 100 0, currentPattern = None\<rparr>
        (Some 0) (60 * second) 0 0 False True 0 demo_request TxTypeEthTransfer ''run-1'' False None None CtxLive demo_lg_world
        demo_client demo_client \<lparr>sn_client = demo_client, sn_concurrency = 16000\<rparr> \<lparr>sn_client = demo_client, sn_concurrency = 16000\<rparr>
        [] [] \<lparr>vs_txOrdering = '''', vs_includeDepositTx = False\<rparr> [])"

definition demo_stop :: "string stop_env" where
  "demo_stop =
     \<lparr>sq_now = 1000000000, sq_blocks = (\<lambda>_. Inl rpc_err.CtxErr), sq_receipts = (\<lambda>_. Inl rpc_err.CtxErr), sq_endBlock = Some 9, sq_hashOf = length,
      sq_late = [], sq_forced = True, sq_resolvedAt = 0, sq_lookup = (\<lambda>_. NotOnChain), sq_boxes = demo_boxes, sq_codec = store_codec,
      sq_readBox = (\<lambda>_. ''reads''), sq_finish = Test_Result.demo_env,
      sq_engine = \<lparr>st_completeErr = None, st_now = 0, st_series = example_tx\<rparr>\<rparr>"

lemmas generator_records = confirm_state.defs generator.defs

lemma demo_generator_fields [simp]:
  "gn_status demo_generator = StatusRunning" "gn_stopping demo_generator = False" "gn_forceStop demo_generator = True"
  "gn_readEngine demo_generator = None" "gn_testID demo_generator = ''run-1''" "gn_snapshots demo_generator = []"
  "recentConfirmedHashes demo_generator = []" "recentBlockNumbers (blockState demo_generator) = []" "gn_history demo_generator = []"
  "gn_store demo_generator = None" "txSent (metricsCol demo_generator) = 0" "gn_startTime demo_generator = Some 0"
  by (simp_all add: demo_generator_def generator_records example_confirm_def NewMemoryCollector_def gn_store_def demo_lg_world_def)

lemma demo_stops: "\<exists>s' ins. generator_stopTest demo_stop demo_generator = Some (s', ins)"
  by (simp add: generator_stopTest_def stop_sequence_def stopIncrementalVerification_def runIncrementalVerification_def incremental_of_def
      stop_reads_def put_incremental_def demo_stop_def save_result_def readLoadMetrics_def saveTestResult_def Let_def record_end_def
      discard_pending_def finalizePendingTxs_def resolve_late_def wait_for_late_def waits_for_late_def gn_store_def
      demo_generator_def generator_records demo_lg_world_def example_confirm_def)


end
