(* ===== verification/Request_Codec.thy ===== *)
theory Request_Codec
  imports Environment Test_Setup Store
begin

text \<open>
  A start request as it arrives: the JSON object of \<open>pkg/types/types.go\<close> decoded field by field, with the Go
  rules for a key (any case), a null (the field keeps its value) and a number with a fraction (no int field takes
  it).  A body that does not decode is \<open>None\<close>.
\<close>

section \<open>Names\<close>

definition transaction_type_of :: "string \<Rightarrow> transaction_type" where
  "transaction_type_of s =
     (if s = ''eth-transfer'' then TxTypeEthTransfer else if s = ''erc20-transfer'' then TxTypeERC20Transfer
      else if s = ''erc20-approve'' then TxTypeERC20Approve else if s = ''erc721-transfer'' then TxTypeERC721Transfer
      else if s = ''uniswap-swap'' then TxTypeUniswapSwap else if s = ''storage-write'' then TxTypeStorageWrite
      else if s = ''heavy-compute'' then TxTypeHeavyCompute else TxTypeOther s)"

definition tip_distribution_of :: "string \<Rightarrow> tip_distribution" where
  "tip_distribution_of s =
     (if s = ''exponential'' then TipDistExponential else if s = ''power-law'' then TipDistPowerLaw
      else if s = ''uniform'' then TipDistUniform else TipDistOther s)"

definition block_selection_of :: "string \<Rightarrow> read_block_selection" where
  "block_selection_of s =
     (if s = '''' then ReadBlockUnset else if s = ''latest'' then ReadBlockLatest else if s = ''recent'' then ReadBlockRecent
      else if s = ''archive'' then ReadBlockArchive else ReadBlockOther s)"

section \<open>Setters\<close>

text \<open>A string of a named type, a float64, a struct by value, a pointer to a struct, a pointer to a bool.\<close>

definition name_to :: "(string \<Rightarrow> 'n) \<Rightarrow> ('n \<Rightarrow> 'r \<Rightarrow> 'r) \<Rightarrow> 'r setter" where
  "name_to f put v r = (case v of JStr s \<Rightarrow> Some (put (f s) r) | JNull \<Rightarrow> Some r | _ \<Rightarrow> None)"

definition float_to :: "(f64 \<Rightarrow> 'r \<Rightarrow> 'r) \<Rightarrow> 'r setter" where
  "float_to put v r = (case v of JNum i \<Rightarrow> Some (put (f64_of_int i) r) | JFrac x \<Rightarrow> Some (put x r) | JNull \<Rightarrow> Some r | _ \<Rightarrow> None)"

definition struct_to :: "(string \<times> 'q setter) list \<Rightarrow> ('r \<Rightarrow> 'q) \<Rightarrow> ('q \<Rightarrow> 'r \<Rightarrow> 'r) \<Rightarrow> 'r setter" where
  "struct_to fs get put v r = map_option (\<lambda>q. put q r) (decode_struct fs v (get r))"

definition pointer_to :: "(string \<times> 'q setter) list \<Rightarrow> 'q \<Rightarrow> ('r \<Rightarrow> 'q option) \<Rightarrow> ('q option \<Rightarrow> 'r \<Rightarrow> 'r) \<Rightarrow> 'r setter" where
  "pointer_to fs zero get put v r =
     (if v = JNull then Some (put None r)
      else map_option (\<lambda>q. put (Some q) r) (decode_struct fs v (case get r of None \<Rightarrow> zero | Some q \<Rightarrow> q)))"

definition bool_pointer_to :: "(bool option \<Rightarrow> 'r \<Rightarrow> 'r) \<Rightarrow> 'r setter" where
  "bool_pointer_to put v r = (case v of JBool b \<Rightarrow> Some (put (Some b) r) | JNull \<Rightarrow> Some (put None r) | _ \<Rightarrow> None)"

definition str_pointer_to :: "(string option \<Rightarrow> 'r \<Rightarrow> 'r) \<Rightarrow> 'r setter" where
  "str_pointer_to put v r = (case v of JStr s \<Rightarrow> Some (put (Some s) r) | JNull \<Rightarrow> Some (put None r) | _ \<Rightarrow> None)"

section \<open>The parts of a request\<close>

definition ratio_zero :: tx_type_ratio where
  "ratio_zero = \<lparr>EthTransfer = 0, ERC20Transfer = 0, ERC20Approve = 0, UniswapSwap = 0, StorageWrite = 0, HeavyCompute = 0\<rparr>"

definition ratio_fields :: "(string \<times> tx_type_ratio setter) list" where
  "ratio_fields =
     [(''ethTransfer'', int_to EthTransfer (\<lambda>v r. r\<lparr>EthTransfer := v\<rparr>)),
      (''erc20Transfer'', int_to ERC20Transfer (\<lambda>v r. r\<lparr>ERC20Transfer := v\<rparr>)),
      (''erc20Approve'', int_to ERC20Approve (\<lambda>v r. r\<lparr>ERC20Approve := v\<rparr>)),
      (''uniswapSwap'', int_to UniswapSwap (\<lambda>v r. r\<lparr>UniswapSwap := v\<rparr>)),
      (''storageWrite'', int_to StorageWrite (\<lambda>v r. r\<lparr>StorageWrite := v\<rparr>)),
      (''heavyCompute'', int_to HeavyCompute (\<lambda>v r. r\<lparr>HeavyCompute := v\<rparr>))]"

definition realistic_zero :: realistic_config where
  "realistic_zero = \<lparr>rt_NumAccounts = 0, rt_TargetTPS = 0, rt_MinTipGwei = 0, rt_MaxTipGwei = 0,
     rt_TipDistribution = TipDistOther '''', rt_TxTypeRatios = ratio_zero\<rparr>"

definition realistic_fields :: "(string \<times> realistic_config setter) list" where
  "realistic_fields =
     [(''numAccounts'', int_to rt_NumAccounts (\<lambda>v r. r\<lparr>rt_NumAccounts := v\<rparr>)),
      (''targetTps'', int_to rt_TargetTPS (\<lambda>v r. r\<lparr>rt_TargetTPS := v\<rparr>)),
      (''minTipGwei'', float_to (\<lambda>v r. r\<lparr>rt_MinTipGwei := v\<rparr>)),
      (''maxTipGwei'', float_to (\<lambda>v r. r\<lparr>rt_MaxTipGwei := v\<rparr>)),
      (''tipDistribution'', name_to tip_distribution_of (\<lambda>v r. r\<lparr>rt_TipDistribution := v\<rparr>)),
      (''txTypeRatios'', struct_to ratio_fields rt_TxTypeRatios (\<lambda>v r. r\<lparr>rt_TxTypeRatios := v\<rparr>))]"

definition mix_zero :: read_mix where
  "mix_zero = \<lparr>EthCall = 0, GetBalance = 0, GetLogs = 0, GetBlockByNumber = 0, GetReceipt = 0\<rparr>"

definition mix_fields :: "(string \<times> read_mix setter) list" where
  "mix_fields =
     [(''ethCall'', int_to EthCall (\<lambda>v r. r\<lparr>EthCall := v\<rparr>)),
      (''getBalance'', int_to GetBalance (\<lambda>v r. r\<lparr>GetBalance := v\<rparr>)),
      (''getLogs'', int_to GetLogs (\<lambda>v r. r\<lparr>GetLogs := v\<rparr>)),
      (''getBlockByNumber'', int_to GetBlockByNumber (\<lambda>v r. r\<lparr>GetBlockByNumber := v\<rparr>)),
      (''getReceipt'', int_to GetReceipt (\<lambda>v r. r\<lparr>GetReceipt := v\<rparr>))]"

definition read_load_zero :: read_load_config where
  "read_load_zero = \<lparr>rl_Enabled = False, rl_TargetRPS = 0, rl_Concurrency = 0, rl_RPCURL = '''', rl_BlockSelection = ReadBlockUnset,
     rl_BlockWindow = 0, rl_ArchiveDepthPct = 0, rl_RequireArchive = None, rl_LogsRangeBlocks = 0, rl_FullBlocks = False, rl_Mix = mix_zero\<rparr>"

definition read_load_fields :: "(string \<times> read_load_config setter) list" where
  "read_load_fields =
     [(''enabled'', bool_to rl_Enabled (\<lambda>v r. r\<lparr>rl_Enabled := v\<rparr>)),
      (''targetRps'', int_to rl_TargetRPS (\<lambda>v r. r\<lparr>rl_TargetRPS := v\<rparr>)),
      (''concurrency'', int_to rl_Concurrency (\<lambda>v r. r\<lparr>rl_Concurrency := v\<rparr>)),
      (''rpcUrl'', str_to rl_RPCURL (\<lambda>v r. r\<lparr>rl_RPCURL := v\<rparr>)),
      (''blockSelection'', name_to block_selection_of (\<lambda>v r. r\<lparr>rl_BlockSelection := v\<rparr>)),
      (''blockWindow'', int_to rl_BlockWindow (\<lambda>v r. r\<lparr>rl_BlockWindow := v\<rparr>)),
      (''archiveDepthPct'', int_to rl_ArchiveDepthPct (\<lambda>v r. r\<lparr>rl_ArchiveDepthPct := v\<rparr>)),
      (''requireArchive'', bool_pointer_to (\<lambda>v r. r\<lparr>rl_RequireArchive := v\<rparr>)),
      (''logsRangeBlocks'', int_to rl_LogsRangeBlocks (\<lambda>v r. r\<lparr>rl_LogsRangeBlocks := v\<rparr>)),
      (''fullBlocks'', bool_to rl_FullBlocks (\<lambda>v r. r\<lparr>rl_FullBlocks := v\<rparr>)),
      (''mix'', struct_to mix_fields rl_Mix (\<lambda>v r. r\<lparr>rl_Mix := v\<rparr>))]"

section \<open>The request\<close>

text \<open>
  The zero request, whose strings are empty; an absent transaction type is the empty string, \<open>TxTypeOther ''''\<close>,
  and stands for the default.
\<close>

definition request_zero :: start_test_request where
  "request_zero =
     \<lparr>rq_Pattern = PatternOther '''', rq_DurationSec = 0, rq_NumAccounts = 0, rq_TransactionType = TxTypeOther '''',
      rq_ConstantRate = 0, rq_RampStart = 0, rq_RampEnd = 0, rq_RampSteps = 0, rq_BaselineRate = 0,
      rq_SpikeRate = 0, rq_SpikeDuration = 0, rq_SpikeInterval = 0, rq_AdaptiveInitialRate = 0,
      rq_AdaptiveTargetPending = 0, rq_AdaptiveRateStep = 0, rq_RealisticConfig = None, rq_ReadLoad = None,
      rq_PrivacyMode = False, rq_Gasless = False, rq_FixNonceGaps = False, rq_Erc721PreMint = 0\<rparr>"

definition request_fields :: "(string \<times> start_test_request setter) list" where
  "request_fields =
     [(''pattern'', name_to load_pattern_of (\<lambda>v r. r\<lparr>rq_Pattern := v\<rparr>)),
      (''durationSec'', int_to rq_DurationSec (\<lambda>v r. r\<lparr>rq_DurationSec := v\<rparr>)),
      (''numAccounts'', int_to rq_NumAccounts (\<lambda>v r. r\<lparr>rq_NumAccounts := v\<rparr>)),
      (''transactionType'', name_to transaction_type_of (\<lambda>v r. r\<lparr>rq_TransactionType := v\<rparr>)),
      (''constantRate'', int_to rq_ConstantRate (\<lambda>v r. r\<lparr>rq_ConstantRate := v\<rparr>)),
      (''rampStart'', int_to rq_RampStart (\<lambda>v r. r\<lparr>rq_RampStart := v\<rparr>)),
      (''rampEnd'', int_to rq_RampEnd (\<lambda>v r. r\<lparr>rq_RampEnd := v\<rparr>)),
      (''rampSteps'', int_to rq_RampSteps (\<lambda>v r. r\<lparr>rq_RampSteps := v\<rparr>)),
      (''baselineRate'', int_to rq_BaselineRate (\<lambda>v r. r\<lparr>rq_BaselineRate := v\<rparr>)),
      (''spikeRate'', int_to rq_SpikeRate (\<lambda>v r. r\<lparr>rq_SpikeRate := v\<rparr>)),
      (''spikeDuration'', int_to rq_SpikeDuration (\<lambda>v r. r\<lparr>rq_SpikeDuration := v\<rparr>)),
      (''spikeInterval'', int_to rq_SpikeInterval (\<lambda>v r. r\<lparr>rq_SpikeInterval := v\<rparr>)),
      (''adaptiveInitialRate'', int_to rq_AdaptiveInitialRate (\<lambda>v r. r\<lparr>rq_AdaptiveInitialRate := v\<rparr>)),
      (''adaptiveTargetPending'', int_to rq_AdaptiveTargetPending (\<lambda>v r. r\<lparr>rq_AdaptiveTargetPending := v\<rparr>)),
      (''adaptiveRateStep'', int_to rq_AdaptiveRateStep (\<lambda>v r. r\<lparr>rq_AdaptiveRateStep := v\<rparr>)),
      (''realisticConfig'', pointer_to realistic_fields realistic_zero rq_RealisticConfig (\<lambda>v r. r\<lparr>rq_RealisticConfig := v\<rparr>)),
      (''readLoad'', pointer_to read_load_fields read_load_zero rq_ReadLoad (\<lambda>v r. r\<lparr>rq_ReadLoad := v\<rparr>)),
      (''privacyMode'', bool_to rq_PrivacyMode (\<lambda>v r. r\<lparr>rq_PrivacyMode := v\<rparr>)),
      (''gasless'', bool_to rq_Gasless (\<lambda>v r. r\<lparr>rq_Gasless := v\<rparr>)),
      (''fixNonceGaps'', bool_to rq_FixNonceGaps (\<lambda>v r. r\<lparr>rq_FixNonceGaps := v\<rparr>)),
      (''erc721PreMint'', int_to rq_Erc721PreMint (\<lambda>v r. r\<lparr>rq_Erc721PreMint := v\<rparr>))]"

definition decode_request :: "json \<Rightarrow> start_test_request option" where
  "decode_request j = decode_struct request_fields j request_zero"

definition update_fields :: "(string \<times> metadata_update setter) list" where
  "update_fields =
     [(''customName'', str_pointer_to (\<lambda>v r. r\<lparr>mu_CustomName := v\<rparr>)),
      (''isFavorite'', bool_pointer_to (\<lambda>v r. r\<lparr>mu_IsFavorite := v\<rparr>))]"

definition decode_update :: "json \<Rightarrow> metadata_update option" where
  "decode_update j = decode_struct update_fields j \<lparr>mu_CustomName = None, mu_IsFavorite = None\<rparr>"

end
