(* ===== verification/Http_Server.thy ===== *)
theory Http_Server
  imports Stop_Test Request_Codec
begin

text \<open>
  The HTTP API of the load generator (\<open>internal/transport/http.go\<close>): the routes, the CORS middleware and one
  function per handler over the operations of \<open>LoadGeneratorAPI\<close>.  A request is what the handlers look at: method,
  cleaned path, the two query parameters, the origin and the JSON value of its body.  A handler that panics is
  \<open>None\<close>; the server then closes the connection.
\<close>

section \<open>The service behind the server\<close>

record ('w, 'j) service =
  sv_Start :: "start_test_request \<Rightarrow> 'w \<Rightarrow> start_error option \<times> 'w"
  sv_Stop :: "'w \<Rightarrow> 'w option"
  sv_Reset :: "'w \<Rightarrow> 'w"
  sv_Metrics :: "'w \<Rightarrow> (test_metrics \<times> 'w) option"
  sv_Runs :: "int \<Rightarrow> int \<Rightarrow> 'w \<Rightarrow> sql_err + 'j test_run paginated"
  sv_Detail :: "string \<Rightarrow> 'w \<Rightarrow> sql_err + 'j run_detail option"
  sv_Logs :: "string \<Rightarrow> int \<Rightarrow> int \<Rightarrow> 'w \<Rightarrow> sql_err + log_entry paginated"
  sv_Delete :: "string \<Rightarrow> 'w \<Rightarrow> sql_err option \<times> 'w"
  sv_Update :: "string \<Rightarrow> metadata_update \<Rightarrow> 'w \<Rightarrow> sql_err option \<times> 'w"
  sv_Recycle :: "'w \<Rightarrow> ((nat \<times> recycle_failure option) \<times> 'w) option"
  sv_L2Fails :: bool
  sv_BuilderFails :: bool

section \<open>Requests and responses\<close>

record http_request =
  hq_Method :: string
  hq_Path :: string
  hq_Limit :: string
  hq_Offset :: string
  hq_Origin :: string
  hq_Body :: "json option"

datatype http_error =
    MethodNotAllowed | InvalidBody | ValidationError request_error | StartFailed start_error | MissingTestID
  | StoreFailed sql_err | RunNotStored sql_err | TestRunNotFound | NoStoredConfig | StoredConfigInvalid request_error

datatype 'j http_body =
    NoBody | ErrorBody http_error | MetricsBody test_metrics | StatusBody string | RelaunchedBody string
  | RecycledBody nat "recycle_failure option" | RunsBody "'j test_run paginated" | DetailBody "'j run_detail"
  | RunBody "'j test_run" | LogsBody "log_entry paginated" | DeletedBody | HealthyBody | ReadyBody bool "(string \<times> bool) list"

record 'j http_response =
  hp_Status :: int
  hp_Headers :: "(string \<times> string) list"
  hp_Body :: "'j http_body"

definition json_reply :: "int \<Rightarrow> 'j http_body \<Rightarrow> 'j http_response" where
  "json_reply code b = \<lparr>hp_Status = code, hp_Headers = [(''Content-Type'', ''application/json'')], hp_Body = b\<rparr>"

definition writeJSONError :: "http_error \<Rightarrow> int \<Rightarrow> 'j http_response" where
  "writeJSONError e code = json_reply code (ErrorBody e)"

type_synonym ('w, 'j) handler = "http_request \<Rightarrow> 'w \<Rightarrow> ('j http_response \<times> 'w) option"

definition only_method :: "string \<Rightarrow> ('w, 'j) handler \<Rightarrow> ('w, 'j) handler" where
  "only_method m h r w = (if hq_Method r \<noteq> m then Some (writeJSONError MethodNotAllowed 405, w) else h r w)"

section \<open>Handlers\<close>

definition handleStatus :: "('w, 'j) service \<Rightarrow> ('w, 'j) handler" where
  "handleStatus sv = only_method ''GET'' (\<lambda>r w. map_option (\<lambda>(m, w'). (json_reply 200 (MetricsBody m), w')) (sv_Metrics sv w))"

definition start_test :: "('w, 'j) service \<Rightarrow> start_test_request \<Rightarrow> 'j http_body \<Rightarrow> 'w \<Rightarrow> 'j http_response \<times> 'w" where
  "start_test sv req b w =
     (case sv_Start sv req w of (Some e, w') \<Rightarrow> (writeJSONError (StartFailed e) 500, w') | (None, w') \<Rightarrow> (json_reply 200 b, w'))"

definition handleStart :: "('w, 'j) service \<Rightarrow> ('w, 'j) handler" where
  "handleStart sv = only_method ''POST'' (\<lambda>r w. Some
     (case Option.bind (hq_Body r) decode_request of
        None \<Rightarrow> (writeJSONError InvalidBody 400, w)
      | Some req \<Rightarrow>
          (case validateStartRequest req of
             Some e \<Rightarrow> (writeJSONError (ValidationError e) 400, w)
           | None \<Rightarrow> start_test sv req (StatusBody ''started'') w)))"

definition handleStop :: "('w, 'j) service \<Rightarrow> ('w, 'j) handler" where
  "handleStop sv = only_method ''POST'' (\<lambda>r w. map_option (Pair (json_reply 200 (StatusBody ''stopped''))) (sv_Stop sv w))"

definition handleReset :: "('w, 'j) service \<Rightarrow> ('w, 'j) handler" where
  "handleReset sv = only_method ''POST'' (\<lambda>r w. Some (json_reply 200 (StatusBody ''reset''), sv_Reset sv w))"

text \<open>A failed recycling is answered with what was recycled, and 200.\<close>

definition handleRecycle :: "('w, 'j) service \<Rightarrow> ('w, 'j) handler" where
  "handleRecycle sv = only_method ''POST'' (\<lambda>r w. map_option (\<lambda>((n, e), w'). (json_reply 200 (RecycledBody n e), w')) (sv_Recycle sv w))"

text \<open>A parameter that does not parse or is out of range keeps the default.\<close>

definition page_limit :: "int \<Rightarrow> int \<Rightarrow> string \<Rightarrow> int" where
  "page_limit def_n max_n s =
     (if s = '''' then def_n else case ParseInt s of None \<Rightarrow> def_n | Some l \<Rightarrow> if 0 < l \<and> l \<le> max_n then l else def_n)"

definition page_offset :: "string \<Rightarrow> int" where
  "page_offset s = (if s = '''' then 0 else case ParseInt s of None \<Rightarrow> 0 | Some n \<Rightarrow> if 0 \<le> n then n else 0)"

definition handleHistory :: "('w, 'j) service \<Rightarrow> ('w, 'j) handler" where
  "handleHistory sv = only_method ''GET'' (\<lambda>r w. Some
     (case sv_Runs sv (page_limit 50 100 (hq_Limit r)) (page_offset (hq_Offset r)) w of
        Inl e \<Rightarrow> (writeJSONError (StoreFailed e) 500, w)
      | Inr pg \<Rightarrow> (json_reply 200 (RunsBody pg), w)))"

definition handleTestTransactions :: "('w, 'j) service \<Rightarrow> string \<Rightarrow> ('w, 'j) handler" where
  "handleTestTransactions sv testID = only_method ''GET'' (\<lambda>r w. Some
     (case sv_Logs sv testID (page_limit 100 1000 (hq_Limit r)) (page_offset (hq_Offset r)) w of
        Inl e \<Rightarrow> (writeJSONError (StoreFailed e) 500, w)
      | Inr pg \<Rightarrow> (json_reply 200 (LogsBody pg), w)))"

text \<open>\<open>unbox\<close> is the request that a stored configuration is.\<close>

definition handleTestRelaunch :: "('j \<Rightarrow> start_test_request) \<Rightarrow> ('w, 'j) service \<Rightarrow> string \<Rightarrow> ('w, 'j) handler" where
  "handleTestRelaunch unbox sv testID = only_method ''POST'' (\<lambda>r w. Some
     (case sv_Detail sv testID w of
        Inl e \<Rightarrow> (writeJSONError (StoreFailed e) 500, w)
      | Inr None \<Rightarrow> (writeJSONError TestRunNotFound 404, w)
      | Inr (Some d) \<Rightarrow>
          (case tr_Config (dt_Run d) of
             None \<Rightarrow> (writeJSONError NoStoredConfig 422, w)
           | Some c \<Rightarrow>
               (case validateStartRequest (unbox c) of
                  Some e \<Rightarrow> (writeJSONError (StoredConfigInvalid e) 422, w)
                | None \<Rightarrow> start_test sv (unbox c) (RelaunchedBody testID) w))))"

text \<open>Whether the text of an error contains \<open>not found\<close>.\<close>

definition says_not_found :: "sql_err \<Rightarrow> bool" where
  "says_not_found e = (case e of RunNotFound i \<Rightarrow> True | SqlFailed t \<Rightarrow> Contains t ''not found'' | _ \<Rightarrow> False)"

definition handle_delete :: "('w, 'j) service \<Rightarrow> string \<Rightarrow> ('w, 'j) handler" where
  "handle_delete sv testID r w = Some
     (case sv_Delete sv testID w of
        (Some e, w') \<Rightarrow> (writeJSONError (StoreFailed e) 500, w')
      | (None, w') \<Rightarrow> (json_reply 200 DeletedBody, w'))"

text \<open>The updated run is read again without a check that there is one.\<close>

definition handle_patch :: "('w, 'j) service \<Rightarrow> string \<Rightarrow> ('w, 'j) handler" where
  "handle_patch sv testID r w =
     (case Option.bind (hq_Body r) decode_update of
        None \<Rightarrow> Some (writeJSONError InvalidBody 400, w)
      | Some u \<Rightarrow>
          (case sv_Update sv testID u w of
             (Some e, w') \<Rightarrow> Some (if says_not_found e then writeJSONError (RunNotStored e) 404 else writeJSONError (StoreFailed e) 500, w')
           | (None, w') \<Rightarrow>
               (case sv_Detail sv testID w' of
                  Inl e \<Rightarrow> Some (writeJSONError (StoreFailed e) 500, w')
                | Inr None \<Rightarrow> None
                | Inr (Some d) \<Rightarrow> Some (json_reply 200 (RunBody (dt_Run d)), w'))))"

definition handle_detail :: "('w, 'j) service \<Rightarrow> string \<Rightarrow> ('w, 'j) handler" where
  "handle_detail sv testID = only_method ''GET'' (\<lambda>r w. Some
     (case sv_Detail sv testID w of
        Inl e \<Rightarrow> (writeJSONError (StoreFailed e) 500, w)
      | Inr None \<Rightarrow> (writeJSONError TestRunNotFound 404, w)
      | Inr (Some d) \<Rightarrow> (json_reply 200 (DetailBody d), w)))"

fun split_on :: "char \<Rightarrow> string \<Rightarrow> string list" where
  "split_on c [] = [[]]"
| "split_on c (x # xs) =
     (if x = c then [] # split_on c xs else (case split_on c xs of [] \<Rightarrow> [[x]] | p # ps \<Rightarrow> (x # p) # ps))"

definition TrimPrefix :: "string \<Rightarrow> string \<Rightarrow> string" where
  "TrimPrefix s p = (if HasPrefix s p then drop (length p) s else s)"

definition handleHistoryDetail :: "('j \<Rightarrow> start_test_request) \<Rightarrow> ('w, 'j) service \<Rightarrow> ('w, 'j) handler" where
  "handleHistoryDetail unbox sv r w =
     (let parts = split_on CHR ''/'' (TrimPrefix (hq_Path r) ''/history/'') in
      if parts = [] \<or> hd parts = '''' then Some (writeJSONError MissingTestID 400, w)
      else let testID = hd parts in
        if 1 < length parts \<and> parts ! 1 = ''transactions'' then handleTestTransactions sv testID r w
        else if 1 < length parts \<and> parts ! 1 = ''relaunch'' then handleTestRelaunch unbox sv testID r w
        else if hq_Method r = ''DELETE'' then handle_delete sv testID r w
        else if hq_Method r = ''PATCH'' then handle_patch sv testID r w
        else handle_detail sv testID r w)"

definition handleHealth :: "('w, 'j) handler" where
  "handleHealth r w = Some (json_reply 200 HealthyBody, w)"

text \<open>The latencies of the checks are left out.\<close>

definition handleReady :: "('w, 'j) service option \<Rightarrow> ('w, 'j) handler" where
  "handleReady health r w =
     (let checks = (case health of None \<Rightarrow> [] | Some sv \<Rightarrow> [(''l2-rpc'', \<not> sv_L2Fails sv), (''builder-rpc'', \<not> sv_BuilderFails sv)]);
          good = list_all snd checks
      in Some (json_reply (if good then 200 else 503) (ReadyBody good checks), w))"

section \<open>CORS and routes\<close>

text \<open>The allowed origins, \<open>None\<close> when every origin is.\<close>

definition allowed_origins :: "string \<Rightarrow> string list option" where
  "allowed_origins setting =
     (let s = TrimSpace setting in if s = '''' \<or> s = ''*'' then None else Some (map TrimSpace (split_on CHR '','' s)))"

definition cors_headers :: "string list option \<Rightarrow> string \<Rightarrow> (string \<times> string) list" where
  "cors_headers allowed origin =
     (case allowed of
        None \<Rightarrow> [(''Access-Control-Allow-Origin'', ''*'')]
      | Some os \<Rightarrow>
          if origin \<noteq> '''' \<and> origin \<in> set os then [(''Access-Control-Allow-Origin'', origin), (''Vary'', ''Origin'')] else []) @
     [(''Access-Control-Allow-Methods'', ''GET, POST, PATCH, DELETE, OPTIONS''), (''Access-Control-Allow-Headers'', ''Content-Type'')]"

definition corsMiddleware :: "string list option \<Rightarrow> ('w, 'j) handler \<Rightarrow> ('w, 'j) handler" where
  "corsMiddleware allowed h r w =
     (let hs = cors_headers allowed (hq_Origin r) in
      if hq_Method r = ''OPTIONS'' then Some (\<lparr>hp_Status = 200, hp_Headers = hs, hp_Body = NoBody\<rparr>, w)
      else map_option (\<lambda>(p, w'). (p\<lparr>hp_Headers := hs @ hp_Headers p\<rparr>, w')) (h r w))"

datatype route = RStatus | RStart | RStop | RReset | RRecycle | RHistory | RHistoryDetail | RWebSocket | RHealth | RReady | RPrometheus

definition routes :: "(string \<times> route) list" where
  "routes =
     [(''/v1/status'', RStatus), (''/v1/start'', RStart), (''/v1/stop'', RStop), (''/v1/reset'', RReset), (''/v1/recycle'', RRecycle),
      (''/v1/history'', RHistory), (''/v1/ws'', RWebSocket),
      (''/status'', RStatus), (''/start'', RStart), (''/stop'', RStop), (''/reset'', RReset), (''/recycle'', RRecycle),
      (''/history'', RHistory), (''/ws'', RWebSocket), (''/health'', RHealth), (''/ready'', RReady), (''/metrics'', RPrometheus)]"

text \<open>The multiplexer: an exact pattern, or a pattern that ends in a slash and is a prefix.\<close>

definition route_of :: "string \<Rightarrow> route option" where
  "route_of path =
     (case map_of routes path of
        Some r \<Rightarrow> Some r
      | None \<Rightarrow> if HasPrefix path ''/v1/history/'' \<or> HasPrefix path ''/history/'' then Some RHistoryDetail else None)"

text \<open>The web socket, the Prometheus endpoint and unknown paths are answered elsewhere: \<open>elsewhere\<close>.\<close>

record ('w, 'j) server =
  hs_service :: "('w, 'j) service"
  hs_health :: bool
  hs_origins :: "string list option"
  hs_unbox :: "'j \<Rightarrow> start_test_request"
  hs_elsewhere :: "route option \<Rightarrow> http_request \<Rightarrow> 'j http_response"

definition NewServer ::
  "('w, 'j) service \<Rightarrow> bool \<Rightarrow> string \<Rightarrow> ('j \<Rightarrow> start_test_request) \<Rightarrow> (route option \<Rightarrow> http_request \<Rightarrow> 'j http_response) \<Rightarrow> ('w, 'j) server" where
  "NewServer sv health origins unbox elsewhere =
     \<lparr>hs_service = sv, hs_health = health, hs_origins = allowed_origins origins, hs_unbox = unbox, hs_elsewhere = elsewhere\<rparr>"

definition Handler :: "('w, 'j) server \<Rightarrow> ('w, 'j) handler" where
  "Handler s r w =
     (let sv = hs_service s; cors = corsMiddleware (hs_origins s) in
      case route_of (hq_Path r) of
        Some RStatus \<Rightarrow> cors (handleStatus sv) r w
      | Some RStart \<Rightarrow> cors (handleStart sv) r w
      | Some RStop \<Rightarrow> cors (handleStop sv) r w
      | Some RReset \<Rightarrow> cors (handleReset sv) r w
      | Some RRecycle \<Rightarrow> cors (handleRecycle sv) r w
      | Some RHistory \<Rightarrow> cors (handleHistory sv) r w
      | Some RHistoryDetail \<Rightarrow> cors (handleHistoryDetail (hs_unbox s) sv) r w
      | Some RHealth \<Rightarrow> handleHealth r w
      | Some RReady \<Rightarrow> handleReady (if hs_health s then Some sv else None) r w
      | other \<Rightarrow> Some (hs_elsewhere s other r, w))"

section \<open>What a request can do\<close>

text \<open>
  What the server relies on: asking for the metrics, an update that fails, and a start that is refused because a
  test is in progress leave \<open>keep\<close> of the service as it is; a start that begins a test begins it with its request.
\<close>

locale test_service =
  fixes sv :: "('w, 'j) service" and keep :: "'w \<Rightarrow> 'v"
  assumes metrics_keep: "sv_Metrics sv w = Some (m, w') \<Longrightarrow> keep w' = keep w"
    and failed_update: "sv_Update sv i u w = (Some e, w') \<Longrightarrow> keep w' = keep w"
begin

text \<open>A request with GET or OPTIONS leaves the service as it is, whatever its path.\<close>

lemma reading_keeps:
  assumes "Handler s r w = Some (p, w')" "hs_service s = sv" "hq_Method r = ''GET'' \<or> hq_Method r = ''OPTIONS''"
  shows "keep w' = keep w"
proof -
  have detail: "keep w1 = keep w" if "handleHistoryDetail unbox sv r w = Some (q, w1)" "hq_Method r = ''GET''" for unbox q w1
    using that by (auto simp: handleHistoryDetail_def handleTestTransactions_def handleTestRelaunch_def handle_detail_def only_method_def
        Let_def split: if_splits sum.splits option.splits)
  show ?thesis
  proof (cases "hq_Method r = ''OPTIONS''")
    case True
    then show ?thesis using assms(1,2)
      by (auto simp: Handler_def Let_def corsMiddleware_def handleHealth_def handleReady_def split: option.splits route.splits)
  next
    case False
    then have "hq_Method r = ''GET''" using assms(3) by blast
    then show ?thesis using assms(1,2) detail metrics_keep
      by (auto simp: Handler_def Let_def corsMiddleware_def handleHealth_def handleReady_def handleStatus_def handleStart_def handleStop_def
          handleReset_def handleRecycle_def handleHistory_def only_method_def split: option.splits route.splits sum.splits)
  qed
qed

text \<open>A request that is answered with 400, 404, 405 or 422 leaves it as it is.\<close>

lemma rejected_keeps:
  assumes "Handler s r w = Some (p, w')" "hs_service s = sv" "hp_Status p \<in> {400, 404, 405, 422}"
  shows "keep w' = keep w"
proof -
  define safe where "safe h \<longleftrightarrow> (\<forall>q w1. h r w = Some (q, w1) \<longrightarrow> hp_Status q \<in> {400, 404, 405, 422} \<longrightarrow> keep w1 = keep w)"
    for h :: "('w, 'j) handler"
  have start: "hp_Status q \<in> {200, 500}" if "start_test sv req b w = (q, w1)" for req b q w1
    using that by (auto simp: start_test_def writeJSONError_def json_reply_def split: prod.splits option.splits)
  have logs: "safe (handleTestTransactions sv i)" for i
    unfolding safe_def by (auto simp: handleTestTransactions_def only_method_def split: if_splits sum.splits)
  have relaunch: "safe (handleTestRelaunch unbox sv i)" for unbox i
    unfolding safe_def
    by (auto simp: handleTestRelaunch_def only_method_def split: if_splits sum.splits option.splits dest!: start)
  have read: "safe (handle_detail sv i)" for i
    unfolding safe_def by (auto simp: handle_detail_def only_method_def split: if_splits sum.splits option.splits)
  have erase: "safe (handle_delete sv i)" for i
    unfolding safe_def by (auto simp: handle_delete_def writeJSONError_def json_reply_def split: prod.splits option.splits)
  have patch: "safe (handle_patch sv i)" for i
    using failed_update unfolding safe_def
    by (auto simp: handle_patch_def writeJSONError_def json_reply_def split: if_splits sum.splits option.splits prod.splits)
  have detail: "safe (handleHistoryDetail unbox sv)" for unbox
    using logs relaunch read erase patch unfolding safe_def
    by (auto simp: handleHistoryDetail_def Let_def split: if_splits)
  have direct: "safe (handleStatus sv)" "safe (handleStart sv)" "safe (handleStop sv)" "safe (handleReset sv)" "safe (handleRecycle sv)"
    "safe (handleHistory sv)" "safe handleHealth" "safe (handleReady h)" for h
    unfolding safe_def
    by (auto simp: handleStatus_def handleStart_def handleStop_def handleReset_def handleRecycle_def handleHistory_def only_method_def
        handleHealth_def handleReady_def writeJSONError_def json_reply_def Let_def
        split: if_splits sum.splits option.splits prod.splits dest!: start)
  have cors: "safe (corsMiddleware al h)" if "safe h" for al h
    using that unfolding safe_def by (auto simp: corsMiddleware_def Let_def split: if_splits)
  have "safe (Handler s)"
    unfolding safe_def Handler_def Let_def assms(2)
    using cors [OF direct(1)] cors [OF direct(2)] cors [OF direct(3)] cors [OF direct(4)] cors [OF direct(5)] cors [OF direct(6)]
      cors [OF detail] direct(7,8)
    by (auto simp: safe_def split: option.splits route.splits)
  then show ?thesis using assms(1,3) by (auto simp: safe_def)
qed

end

section \<open>The load generator as the service\<close>

text \<open>What the requests of one moment meet outside.  Inserts of transaction logs that go on are kept beside the state.\<close>

record ('s, 'j) moment =
  mo_now :: int
  mo_api :: "'j api_env"
  mo_stop :: "'j stop_env"
  mo_signer :: "'s tx_signer"
  mo_recycle :: recycle_env
  mo_l2Fails :: bool
  mo_builderFails :: bool

type_synonym 'n running = "'n generator \<times> (string \<times> log_entry list) list"

definition generator_service :: "('s, 'j) moment \<Rightarrow> ('n running, 'j) service" where
  "generator_service mo =
     \<lparr>sv_Start = (\<lambda>req (s, bg). let (e, s') = generator_StartTest req s in (e, (s', bg))),
      sv_Stop = (\<lambda>(s, bg). map_option (\<lambda>(s', ins). (s', bg @ (case ins of None \<Rightarrow> [] | Some i \<Rightarrow> [i]))) (generator_StopTest (mo_stop mo) s)),
      sv_Reset = (\<lambda>(s, bg). (generator_Reset s, bg)),
      sv_Metrics = (\<lambda>(s, bg). map_option (\<lambda>(m, s'). (m, (s', bg))) (GetMetrics (mo_now mo) s)),
      sv_Runs = (\<lambda>limit offset (s, bg). GetHistoryPaginated (mo_api mo) limit offset s),
      sv_Detail = (\<lambda>i (s, bg). GetTestRunDetail (mo_api mo) i s),
      sv_Logs = (\<lambda>i limit offset (s, bg). GetTestRunTransactions (mo_api mo) i limit offset s),
      sv_Delete = (\<lambda>i (s, bg). let (e, s') = generator_Delete (mo_api mo) i s in (e, (s', bg))),
      sv_Update = (\<lambda>i u (s, bg). let (e, s') = generator_Update (mo_api mo) i u s in (e, (s', bg))),
      sv_Recycle = (\<lambda>(s, bg). map_option (\<lambda>(out, txs, s'). (out, (s', bg))) (generator_Recycle (mo_signer mo) (mo_recycle mo) s)),
      sv_L2Fails = mo_l2Fails mo, sv_BuilderFails = mo_builderFails mo\<rparr>"

text \<open>The state without the rolling window and the cached rate.\<close>

definition but_rolling :: "'n running \<Rightarrow> 'n running" where
  "but_rolling w = ((fst w)\<lparr>blockState := (blockState (fst w))\<lparr>rollingGasWindow := [], lastMgasPerSec := 0\<rparr>\<rparr>, snd w)"

lemma failed_update_keeps:
  assumes "generator_Update env i u s = (Some e, s')" shows "s' = s"
proof (cases "gn_store s")
  case None
  then show ?thesis using assms by (simp add: generator_Update_def)
next
  case (Some db)
  obtain db' where u: "UpdateTestRunMetadata (ai_exec env) i u db = (Some e, db')" and s': "s' = put_store db' s"
    using assms Some by (auto simp: generator_Update_def split: prod.splits)
  have "db' = db" using u by (auto simp: UpdateTestRunMetadata_def exec_stmt_def split: if_splits option.splits sum.splits)
  then show ?thesis using s' Some by (simp add: put_store_def gn_store_def)
qed

interpretation gs: test_service "generator_service mo" but_rolling for mo
proof (unfold_locales, goal_cases)
  case (1 w m w')
  then show ?case using metrics_leave_the_test by (fastforce simp: generator_service_def but_rolling_def split: prod.splits)
next
  case (2 i u w e w')
  then show ?case using failed_update_keeps by (fastforce simp: generator_service_def split: prod.splits)
qed

section \<open>What requests do to a test\<close>

text \<open>
  C38: A request with GET or OPTIONS, and a request that is answered with 400, 404, 405 or 422, leaves the load
  generator, its test and its store as they are, except for the rolling window that asking for the metrics prunes.
\<close>
theorem reads_and_rejections_keep:
  assumes "Handler (NewServer (generator_service mo) health origins unbox elsewhere) r w = Some (p, w')"
    "hq_Method r \<in> {''GET'', ''OPTIONS''} \<or> hp_Status p \<in> {400, 404, 405, 422}"
  shows "but_rolling w' = but_rolling w"
proof -
  have "hs_service (NewServer (generator_service mo) health origins unbox elsewhere) = generator_service mo"
    by (simp add: NewServer_def)
  then show ?thesis using assms gs.reading_keeps gs.rejected_keeps by (metis insertE singletonD)
qed

text \<open>A sequence of requests, each at a moment of its own; \<open>None\<close> is a panic.\<close>

fun serve :: "(('s, 'j) moment \<Rightarrow> ('n running, 'j) server) \<Rightarrow> (('s, 'j) moment \<times> http_request) list \<Rightarrow> 'n running \<Rightarrow> 'n running option" where
  "serve srv [] w = Some w"
| "serve srv ((mo, r) # rs) w = (case Handler (srv mo) r w of None \<Rightarrow> None | Some (p, w') \<Rightarrow> serve srv rs w')"

text \<open>A test is in preparation or has been since the last look only with a validated request.\<close>

definition config_checked :: "'n running \<Rightarrow> 'n running \<Rightarrow> bool" where
  "config_checked w w' \<longleftrightarrow>
     (gn_config (fst w') = gn_config (fst w) \<and> (gn_status (fst w') = StatusInitializing \<longrightarrow> gn_status (fst w) = StatusInitializing)) \<or>
     validateStartRequest (gn_config (fst w')) = None"

lemma config_checked_refl [simp]: "config_checked w w" by (simp add: config_checked_def)

lemma config_checked_trans: "config_checked w w' \<Longrightarrow> config_checked w' w'' \<Longrightarrow> config_checked w w''"
  by (auto simp: config_checked_def)

lemma service_start_checked:
  assumes "sv_Start (generator_service mo) req w = (e, w')" "validateStartRequest req = None"
  shows "config_checked w w'"
  using assms by (auto simp: generator_service_def generator_StartTest_def set_failure_def config_checked_def Let_def
      split: prod.splits if_splits option.splits)

lemma stop_keeps_config:
  assumes "generator_StopTest env s = Some (s', ins)"
  shows "gn_config s' = gn_config s \<and> (gn_status s' = StatusInitializing \<longrightarrow> gn_status s = StatusInitializing)"
proof (cases "gn_status s = StatusRunning \<and> \<not> gn_stopping s")
  case True
  let ?s = "s\<lparr>gn_forceStop := True\<rparr>"
  from True have "gn_status ?s = StatusRunning" "\<not> gn_stopping ?s" by simp_all
  from stop_outcome [OF assms [unfolded generator_StopTest_def] this] show ?thesis by simp
next
  case False
  then show ?thesis using assms by (auto simp: generator_StopTest_def generator_stopTest_def split: if_splits)
qed

lemma service_keeps_config:
  "sv_Stop (generator_service mo) w = Some w' \<Longrightarrow> config_checked w w'"
  "config_checked w (sv_Reset (generator_service mo) w)"
  "sv_Metrics (generator_service mo) w = Some (m, w') \<Longrightarrow> config_checked w w'"
  "sv_Delete (generator_service mo) i w = (e, w') \<Longrightarrow> config_checked w w'"
  "sv_Update (generator_service mo) i u w = (e, w') \<Longrightarrow> config_checked w w'"
  "sv_Recycle (generator_service mo) w = Some (q, w') \<Longrightarrow> config_checked w w'"
  using stop_keeps_config
  by (fastforce simp: generator_service_def config_checked_def generator_Reset_def GetMetrics_def generator_Delete_def generator_Update_def
      generator_Recycle_def put_store_def Let_def split: prod.splits option.splits if_splits)+

lemma start_test_checked:
  assumes "start_test (generator_service mo) req b w = (p, w')" "validateStartRequest req = None"
  shows "config_checked w w'"
proof -
  obtain e where "sv_Start (generator_service mo) req w = (e, w')"
    using assms(1) by (cases "sv_Start (generator_service mo) req w") (auto simp: start_test_def split: option.splits)
  then show ?thesis using assms(2) by (rule service_start_checked)
qed

definition checks :: "('n running, 'j) handler \<Rightarrow> bool" where
  "checks h \<longleftrightarrow> (\<forall>r w p w'. h r w = Some (p, w') \<longrightarrow> config_checked w w')"

lemma checks_only: "checks h \<Longrightarrow> checks (only_method m h)"
  by (auto simp: checks_def only_method_def)

lemma checks_cors: "checks h \<Longrightarrow> checks (corsMiddleware al h)"
  by (auto simp: checks_def corsMiddleware_def Let_def split: if_splits)

lemma direct_checks:
  "checks (handleStatus (generator_service mo))" "checks (handleStart (generator_service mo))" "checks (handleStop (generator_service mo))"
  "checks (handleReset (generator_service mo))" "checks (handleRecycle (generator_service mo))" "checks (handleHistory (generator_service mo))"
  "checks handleHealth" "checks (handleReady h)"
proof -
  show "checks (handleStatus (generator_service mo))"
    unfolding handleStatus_def by (rule checks_only) (auto simp: checks_def dest: service_keeps_config(3))
  show "checks (handleStart (generator_service mo))"
    unfolding handleStart_def by (rule checks_only) (auto simp: checks_def split: option.splits dest: start_test_checked)
  show "checks (handleStop (generator_service mo))"
    unfolding handleStop_def by (rule checks_only) (auto simp: checks_def dest: service_keeps_config(1))
  show "checks (handleReset (generator_service mo))"
    unfolding handleReset_def by (rule checks_only) (auto simp: checks_def simp del: split_paired_All simp: service_keeps_config(2))
  show "checks (handleRecycle (generator_service mo))"
    unfolding handleRecycle_def by (rule checks_only) (auto simp: checks_def dest: service_keeps_config(6))
  show "checks (handleHistory (generator_service mo))"
    unfolding handleHistory_def by (rule checks_only) (auto simp: checks_def split: sum.splits)
  show "checks handleHealth" by (simp add: checks_def handleHealth_def)
  show "checks (handleReady h)" by (simp add: checks_def handleReady_def Let_def)
qed

lemma run_checks:
  "checks (handleTestTransactions (generator_service mo) i)" "checks (handleTestRelaunch unbox (generator_service mo) i)"
  "checks (handle_detail (generator_service mo) i)" "checks (handle_delete (generator_service mo) i)"
  "checks (handle_patch (generator_service mo) i)"
proof -
  show "checks (handleTestTransactions (generator_service mo) i)"
    unfolding handleTestTransactions_def by (rule checks_only) (auto simp: checks_def split: sum.splits)
  show "checks (handleTestRelaunch unbox (generator_service mo) i)"
    unfolding handleTestRelaunch_def by (rule checks_only) (auto simp: checks_def split: sum.splits option.splits dest: start_test_checked)
  show "checks (handle_detail (generator_service mo) i)"
    unfolding handle_detail_def by (rule checks_only) (auto simp: checks_def split: sum.splits option.splits)
  show "checks (handle_delete (generator_service mo) i)"
    by (auto simp: checks_def handle_delete_def split: prod.splits option.splits dest: service_keeps_config(4))
  show "checks (handle_patch (generator_service mo) i)"
    by (auto simp: checks_def handle_patch_def split: prod.splits option.splits sum.splits dest: service_keeps_config(5))
qed

lemma checksD: "checks h \<Longrightarrow> h r w = Some (p, w') \<Longrightarrow> config_checked w w'"
  unfolding checks_def by blast

lemma detail_checks: "checks (handleHistoryDetail unbox (generator_service mo))"
  unfolding checks_def
proof (intro allI impI)
  fix r :: http_request and w w' :: "'a running" and p
  assume "handleHistoryDetail unbox (generator_service mo) r w = Some (p, w')"
  then show "config_checked w w'"
    unfolding handleHistoryDetail_def Let_def
    by (simp split: if_splits)
      (erule checksD [OF run_checks(1)] checksD [OF run_checks(2)] checksD [OF run_checks(3)] checksD [OF run_checks(4)] checksD [OF run_checks(5)])+
qed

lemma handler_checked:
  assumes "Handler s r w = Some (p, w')" "hs_service s = generator_service mo"
  shows "config_checked w w'"
proof (cases "route_of (hq_Path r)")
  case None
  then show ?thesis using assms by (simp add: Handler_def)
next
  case (Some rt)
  note direct = direct_checks(1-6) [THEN checks_cors, THEN checksD] detail_checks [THEN checks_cors, THEN checksD]
    direct_checks(7,8) [THEN checksD]
  show ?thesis using assms(1) unfolding Handler_def Let_def assms(2) Some option.case
    by (cases rt) (simp_all only: route.case option.inject prod.inject, (erule direct | simp)+)
qed

text \<open>
  C37: Whatever requests arrive, in whatever order and over whatever routes (a start, a relaunch of a stored run, or
  anything else), a test is prepared only for a configuration that passed validation: the configuration after them
  is the one before, or a validated one, and the same holds of a test that they left initializing.
\<close>
theorem served_tests_are_validated:
  assumes "serve srv rs w = Some w'" "\<And>mo. hs_service (srv mo) = generator_service mo"
  shows "(gn_config (fst w') = gn_config (fst w) \<and> (gn_status (fst w') = StatusInitializing \<longrightarrow> gn_status (fst w) = StatusInitializing)) \<or>
    validateStartRequest (gn_config (fst w')) = None"
proof -
  have "config_checked w w'"
    using assms(1)
  proof (induction rs arbitrary: w)
    case (Cons x rs)
    obtain mo r p w1 where x: "x = (mo, r)" and h: "Handler (srv mo) r w = Some (p, w1)" and rest: "serve srv rs w1 = Some w'"
      using Cons.prems by (cases x) (auto split: option.splits)
    show ?case using config_checked_trans [OF handler_checked [OF h assms(2)] Cons.IH [OF rest]] .
  qed simp
  then show ?thesis by (simp add: config_checked_def)
qed

section \<open>The versioned routes\<close>

lemma split_on_slash [simp]: "split_on c (c # xs) = [] # split_on c xs" by simp


text \<open>An update with no field of a run that is not stored is no error, and the handler then reads a run that is not there.\<close>

lemma empty_patch_panics:
  assumes "GetTestRunDetail (mo_api mo) i s = Inr None" "decode_update j = Some \<lparr>mu_CustomName = None, mu_IsFavorite = None\<rparr>"
    "gn_store s = Some db" "hq_Body r = Some j"
  shows "handle_patch (generator_service mo) i r (s, bg) = None"
proof -
  have "put_store db s = s" using assms(3) by (simp add: put_store_def gn_store_def)
  then show ?thesis using assms
    by (simp add: handle_patch_def generator_service_def generator_Update_def UpdateTestRunMetadata_def)
qed

section \<open>Witnesses\<close>

definition demo_moment :: "(address \<times> eth_tx, string) moment" where
  "demo_moment =
     \<lparr>mo_now = 2000000000,
      mo_api = \<lparr>ai_codec = store_codec, ai_orderRuns = (\<lambda>x. x), ai_orderPoints = (\<lambda>x. x), ai_orderLogs = (\<lambda>x. x), ai_count = None,
        ai_row = None, ai_rows = demo_query, ai_exec = None\<rparr>,
      mo_stop = demo_stop, mo_signer = demo_signer, mo_recycle = demo_recycle, mo_l2Fails = False, mo_builderFails = False\<rparr>"

definition demo_server :: "(address \<times> eth_tx, string) moment \<Rightarrow> ((int \<times> nat) running, string) server" where
  "demo_server mo = NewServer (generator_service mo) True '''' (\<lambda>_. request_zero) (\<lambda>_ _. json_reply 404 NoBody)"

definition demo_http :: "string \<Rightarrow> string \<Rightarrow> json option \<Rightarrow> http_request" where
  "demo_http m path b = \<lparr>hq_Method = m, hq_Path = path, hq_Limit = '''', hq_Offset = '''', hq_Origin = '''', hq_Body = b\<rparr>"

definition demo_body :: json where
  "demo_body = JObj [(''pattern'', JStr ''constant''), (''durationSec'', JNum 60), (''constantRate'', JNum 100)]"

lemma demo_decodes:
  "decode_request demo_body = Some (request_zero\<lparr>rq_Pattern := PatternConstant, rq_DurationSec := 60, rq_ConstantRate := 100\<rparr>)"
  by (simp add: decode_request_def demo_body_def decode_struct_def obj_entries_def field_setter_def request_fields_def key_matches_def
      ToLower_def lower_char_def name_to_def int_to_def int_value_def is_i64_def load_pattern_of_def)

theorem reads_and_rejections_keep_witness:
  "\<exists>p w'. Handler (demo_server demo_moment) (demo_http ''GET'' ''/status'' None) (demo_generator, []) = Some (p, w') \<and>
     but_rolling w' = but_rolling (demo_generator, [])"
proof -
  have "\<exists>p w'. Handler (demo_server demo_moment) (demo_http ''GET'' ''/status'' None) (demo_generator, []) = Some (p, w')"
    by (simp add: Handler_def demo_server_def NewServer_def demo_http_def route_of_def routes_def corsMiddleware_def handleStatus_def
        only_method_def generator_service_def GetMetrics_def readLoadMetrics_def split_beta Let_def)
  then obtain p w' where run: "Handler (demo_server demo_moment) (demo_http ''GET'' ''/status'' None) (demo_generator, []) = Some (p, w')"
    by blast
  have "hq_Method (demo_http ''GET'' ''/status'' None) \<in> {''GET'', ''OPTIONS''} \<or> hp_Status p \<in> {400, 404, 405, 422}"
    by (simp add: demo_http_def)
  from reads_and_rejections_keep [OF run [unfolded demo_server_def] this] run show ?thesis by blast
qed

theorem served_tests_are_validated_witness:
  "\<exists>w'. serve demo_server [(demo_moment, demo_http ''POST'' ''/v1/start'' (Some demo_body))] (demo_generator\<lparr>gn_status := StatusIdle\<rparr>, []) = Some w' \<and>
     gn_status (fst w') = StatusInitializing \<and> validateStartRequest (gn_config (fst w')) = None"
proof -
  let ?w = "(demo_generator\<lparr>gn_status := StatusIdle\<rparr>, [])"
  have valid: "validateStartRequest (request_zero\<lparr>rq_Pattern := PatternConstant, rq_DurationSec := 60, rq_ConstantRate := 100\<rparr>) = None"
    by (simp add: validateStartRequest_def common_checks_def pattern_checks_def read_load_check_def valid_pattern_def valid_tx_type_def
        request_zero_def)
  then have "\<exists>w'. serve demo_server [(demo_moment, demo_http ''POST'' ''/v1/start'' (Some demo_body))] ?w = Some w' \<and>
      gn_status (fst w') = StatusInitializing"
    by (simp add: Handler_def demo_server_def NewServer_def demo_http_def route_of_def routes_def corsMiddleware_def handleStart_def
        only_method_def demo_decodes start_test_def generator_service_def generator_StartTest_def Let_def request_zero_def)
  then obtain w' where run: "serve demo_server [(demo_moment, demo_http ''POST'' ''/v1/start'' (Some demo_body))] ?w = Some w'"
    and st: "gn_status (fst w') = StatusInitializing" by blast
  have "hs_service (demo_server mo) = generator_service mo" for mo by (simp add: demo_server_def NewServer_def)
  from served_tests_are_validated [OF run this] run st show ?thesis by auto
qed


end
