(* ===== verification/Read_Setup.thy ===== *)
theory Read_Setup
  imports Load_Generator
begin

text \<open>
  The read load of a test (\<open>internal/loadgen/readload.go\<close>): its client, its targets, the probe that decides
  whether the node can serve it, and its start.  The answers of the node the reads go to depend on the client;
  they are arguments, as are the random draw and the texts of addresses.
\<close>

section \<open>The client of the reads\<close>

definition readClientTimeout :: int where "readClientTimeout = 10 * second"

definition readClientRetries :: int where "readClientRetries = 0"

definition read_url :: "config \<Rightarrow> read_load_config \<Rightarrow> string" where
  "read_url cfg rl = (if rl_RPCURL rl = '''' then cf_L2RPCURL cfg else rl_RPCURL rl)"

definition read_client :: "(string \<Rightarrow> string option) \<Rightarrow> config \<Rightarrow> read_load_config \<Rightarrow> rpc_client" where
  "read_client readFile cfg rl =
     (let url = read_url cfg rl;
          c = (http_config_of url)\<lparr>hc_Timeout := readClientTimeout, cc_MaxRetries := readClientRetries\<rparr>
      in HTTPClient (if url = cf_L2RPCURL cfg then c\<lparr>hc_AuthToken := l2AuthToken readFile cfg\<rparr> else c))"

section \<open>What the engine reads\<close>

text \<open>The head the test has seen, or the answer to a question of its own.\<close>

definition readHeadBlock :: "u64 option \<Rightarrow> 'n generator \<Rightarrow> u64" where
  "readHeadBlock reply s =
     (let b = blockState s; seen = (if lastBlockNumber b < rpcLastBlockNumber b then rpcLastBlockNumber b else lastBlockNumber b)
      in if 0 < seen then seen else case reply of None \<Rightarrow> 0 | Some n \<Rightarrow> n)"

definition sampleConfirmedTxHash :: "nat \<Rightarrow> 'n generator \<Rightarrow> string option" where
  "sampleConfirmedTxHash r s =
     (let hs = recentConfirmedHashes s in if hs = [] then None else Some (hs ! (r mod length hs)))"

section \<open>Set-up and start\<close>

record read_env =
  rv_readFile :: "string \<Rightarrow> string option"
  rv_hex :: "address \<Rightarrow> string"
  rv_head :: "rpc_client \<Rightarrow> u64 option"
  rv_probe :: "rpc_client \<Rightarrow> string option"
  rv_now :: int

text \<open>The engine knows the zero address as the empty text.\<close>

definition read_target :: "(address \<Rightarrow> string) \<Rightarrow> address \<Rightarrow> string" where
  "read_target hex a = (if a = 0 then '''' else hex a)"

text \<open>\<open>None\<close> is the panic on an account that was not generated.\<close>

definition read_addresses :: "(address \<Rightarrow> string) \<Rightarrow> manager \<Rightarrow> string list option" where
  "read_addresses hex m = map_option (\<lambda>dyn. map (hex \<circ> ta_addr) (mg_accounts m @ dyn)) (those (mg_dynamic m))"

definition new_read_engine ::
  "read_env \<Rightarrow> read_load_config \<Rightarrow> string list \<Rightarrow> 'n generator \<Rightarrow> read_setup_error + engine" where
  "new_read_engine env rl addrs s =
     (case NewEngine False False False rl addrs (read_target (rv_hex env) (lg_erc20 (gn_world s))) (rv_now env) of
        Inl e \<Rightarrow> Inl (EngineRefused e)
      | Inr e \<Rightarrow>
          let c = read_client (rv_readFile env) (gn_cfg s) rl in
          (case Probe (rv_head env c) (rv_probe env c) e of
             (Some err, _) \<Rightarrow> Inl (ProbeFailed err)
           | (None, e') \<Rightarrow> Inr e'))"

definition setupReadLoad ::
  "read_env \<Rightarrow> start_test_request \<Rightarrow> 'n generator \<Rightarrow> (read_setup_error option \<times> 'n generator) option" where
  "setupReadLoad env req s0 =
     (let s = s0\<lparr>gn_readEngine := None\<rparr> in
      case rq_ReadLoad req of
        None \<Rightarrow> Some (None, s)
      | Some rl \<Rightarrow>
          if \<not> rl_Enabled rl then Some (None, s)
          else map_option (\<lambda>addrs.
            case new_read_engine env rl addrs s of
              Inl e \<Rightarrow> (Some e, s)
            | Inr e \<Rightarrow> (None, s\<lparr>gn_readEngine := Some e\<rparr>)) (read_addresses (rv_hex env) (gn_manager s)))"

text \<open>The engine starts with the head it would read now.\<close>

definition startReadLoad :: "u64 option \<Rightarrow> int \<Rightarrow> 'n generator \<Rightarrow> 'n generator" where
  "startReadLoad reply now s =
     s\<lparr>gn_readEngine := map_option (Start_engine (readHeadBlock reply s) now) (gn_readEngine s)\<rparr>"

section \<open>Reads are on when they were asked for\<close>

definition reads_wanted :: "start_test_request \<Rightarrow> bool" where
  "reads_wanted req \<longleftrightarrow> (case rq_ReadLoad req of None \<Rightarrow> False | Some rl \<Rightarrow> rl_Enabled rl)"

lemma setup_read_load_effect:
  assumes "setupReadLoad env req s = Some (err, s')"
  shows "\<exists>e. s' = s\<lparr>gn_readEngine := e\<rparr> \<and> (err = None \<longrightarrow> (e \<noteq> None \<longleftrightarrow> reads_wanted req)) \<and> (err \<noteq> None \<longrightarrow> e = None)"
proof -
  consider (off) "\<not> reads_wanted req" "err = None" "s' = s\<lparr>gn_readEngine := None\<rparr>"
    | (refused) e where "err = Some e" "s' = s\<lparr>gn_readEngine := None\<rparr>"
    | (on) e where "reads_wanted req" "err = None" "s' = s\<lparr>gn_readEngine := Some e\<rparr>"
  proof (cases "reads_wanted req")
    case False
    then show ?thesis using assms off by (auto simp: setupReadLoad_def reads_wanted_def Let_def split: option.split_asm)
  next
    case True
    define s0 where "s0 = s\<lparr>gn_readEngine := None\<rparr>"
    from True obtain rl addrs where "(case new_read_engine env rl addrs s0 of
        Inl e \<Rightarrow> (Some e, s0) | Inr e \<Rightarrow> (None, s0\<lparr>gn_readEngine := Some e\<rparr>)) = (err, s')"
      using assms by (auto simp: setupReadLoad_def reads_wanted_def Let_def s0_def [symmetric] split: option.split_asm)
    then show ?thesis using refused on True by (cases "new_read_engine env rl addrs s0") (auto simp: s0_def)
  qed
  then show ?thesis
  proof cases
    case off
    then show ?thesis by (intro exI [of _ None]) simp
  next
    case refused
    then show ?thesis by (intro exI [of _ None]) simp
  next
    case (on e)
    then show ?thesis by (intro exI [of _ "Some e"]) simp
  qed
qed

text \<open>The credential of the node is sent to the node's address only, and a failed read is not repeated.\<close>

lemma read_credential_stays:
  assumes "read_client readFile cfg rl = HTTPClient c"
  shows "hc_AuthToken c \<noteq> '''' \<Longrightarrow> hc_URL c = cf_L2RPCURL cfg" "cc_MaxRetries c = 0"
  using assms by (auto simp: read_client_def Let_def readClientRetries_def http_config_of_def split: if_splits)

text \<open>A set-up that succeeds leaves an engine that can read archived blocks whenever the request insists on them.\<close>

lemma probed_engine:
  assumes "setupReadLoad env req s = Some (None, s')" "gn_readEngine s' = Some e"
  shows "RequireArchive (e_cfg e) \<longrightarrow> archiveTarget e"
  using assms
  by (auto simp: setupReadLoad_def new_read_engine_def Probe_def Let_def split: option.splits if_splits sum.splits)

end
