(* ===== verification/Initialization.thy ===== *)
theory Initialization
  imports Read_Setup Test_Setup Worker Stop_Test
begin

text \<open>
  The initialization of a test (\<open>runInitialization\<close> of \<open>internal/loadgen/init.go\<close>): the steps of the goroutine
  that \<open>StartTest\<close> starts, in their order, over the state of the load generator.  Clients, chain id, accounts,
  nonces and fees, contracts, pattern and rate, the reset of the counters, the run in the store, the sources of
  confirmations, the read load, and the goroutines of the test.  The answers of the node, the builder and the
  store's engine are arguments.  A step that panics, or waits forever, is \<open>None\<close>; the goroutine recovers from a panic
  by setting the error status.  Texts, and the progress
  numbers that are only displayed while a step runs, are left out.
\<close>

section \<open>The launch of a test\<close>

text \<open>The goroutines a test consists of, in the order in which they are started.\<close>

datatype routine =
    PreconfWS | BuilderMetricsWS | L2WS | ChainPoller | SenderWorker nat | TpsCalculator
  | AdaptiveController | BackpressureMonitor | CompletionWatcher | IncrementalVerification

record 'n launch =
  la_gen :: "'n generator"
  la_running :: "routine list"

type_synonym ('n, 'a) launch_step = "('n launch, test_failure, 'a) action"

definition with_gen :: "('n generator \<Rightarrow> ('n, 'a) launch_step) \<Rightarrow> ('n, 'a) launch_step" where
  "with_gen f = with_world (\<lambda>l. f (la_gen l))"

definition upd :: "('n generator \<Rightarrow> 'n generator) \<Rightarrow> ('n, unit) launch_step" where
  "upd f = change (\<lambda>l. l\<lparr>la_gen := f (la_gen l)\<rparr>)"

definition spawn :: "routine list \<Rightarrow> ('n, unit) launch_step" where
  "spawn rs = change (\<lambda>l. l\<lparr>la_running := la_running l @ rs\<rparr>)"

text \<open>An action of the contracts.\<close>

definition on_contracts :: "('n, 'a) lg_action \<Rightarrow> ('n launch, deploy_err, 'a) action" where
  "on_contracts m = (\<lambda>l. map_option (\<lambda>(r, w). (r, l\<lparr>la_gen := (la_gen l)\<lparr>gn_world := w\<rparr>\<rparr>)) (m (gn_world (la_gen l))))"

record ('s, 'n, 'g, 'j) init_env =
  ie_now :: int
  ie_readFile :: "string \<Rightarrow> string option"
  ie_getenv :: "string \<Rightarrow> string"
  ie_chainId :: "rpc_err + raw_message"
  ie_accounts :: "'s accounts_env"
  ie_nonces :: "nat \<Rightarrow> rpc_err + u64"
  ie_gasPrice :: "u64 option"
  ie_baseFee :: "u64 option"
  ie_contracts :: "'n lg_env"
  ie_lib :: "'g chain_lib"
  ie_codec :: "'j codec"
  ie_requestBox :: "start_test_request \<Rightarrow> 'j"
  ie_runName :: string
  ie_createErr :: "string option"
  ie_startBlock :: "u64 option"
  ie_reads :: read_env
  ie_readHead :: "u64 option"
  ie_ask :: "(string \<Rightarrow> rpc_err + raw_message) option"
  ie_builder :: "http_reply option"

section \<open>Clients and chain id\<close>

text \<open>The concurrency of a sender through the privacy proxy.\<close>

definition privacy_sender :: "rpc_client \<Rightarrow> sender_conf" where
  "privacy_sender c = \<lparr>sn_client = c, sn_concurrency = 2000\<rparr>"

definition rebuild_clients :: "(string \<Rightarrow> string option) \<Rightarrow> ('n, unit) launch_step" where
  "rebuild_clients readFile =
     with_gen (\<lambda>s.
       if \<not> route_all (gn_cfg s) then ret ()
       else case buildPrivacyClient readFile (gn_cfg s) of
           None \<Rightarrow> throw NoPrivacyToken
         | Some c \<Rightarrow> upd (\<lambda>s. s\<lparr>gn_builder := c, gn_l2 := c, gn_sender := privacy_sender c\<rparr>))"

text \<open>
  The text of the reply without its quotes, read as a hexadecimal number (also when the node sends a decimal one);
  \<open>Int64\<close> keeps the low 64 bits.
\<close>

definition raw_digits :: "json \<Rightarrow> string" where
  "raw_digits j = (case j of JStr s \<Rightarrow> s | JNum i \<Rightarrow> (if i < 0 then ''-'' else '''') @ decimal_digits (nat \<bar>i\<bar>) | _ \<Rightarrow> ''null'')"

definition big_SetString16 :: "string \<Rightarrow> int option" where
  "big_SetString16 s =
     (let neg = (s \<noteq> [] \<and> hd s = CHR ''-''); body = (if neg \<or> (s \<noteq> [] \<and> hd s = CHR ''+'') then tl s else s)
      in if body = [] \<or> list_ex (\<lambda>c. hex_digit c = None) body then None
         else Some (if neg then - int (hex_value body) else int (hex_value body)))"

definition detected_chain_id :: "rpc_err + raw_message \<Rightarrow> int option" where
  "detected_chain_id reply =
     (case reply of
        Inl _ \<Rightarrow> None
      | Inr None \<Rightarrow> None
      | Inr (Some j) \<Rightarrow>
          let s = raw_digits j; t = (if HasPrefix s ''0x'' then drop 2 s else s) in
          case big_SetString16 t of None \<Rightarrow> None | Some v \<Rightarrow> if 0 < v then Some (sint (word_of_int v :: u64)) else None)"

definition adopt_chain_id :: "rpc_err + raw_message \<Rightarrow> ('n, unit) launch_step" where
  "adopt_chain_id reply =
     upd (\<lambda>s. case detected_chain_id reply of None \<Rightarrow> s
       | Some c \<Rightarrow> if c \<noteq> cf_ChainID (gn_cfg s) then s\<lparr>gn_cfg := (gn_cfg s)\<lparr>cf_ChainID := c\<rparr>\<rparr> else s)"

section \<open>Kind of test\<close>

text \<open>The request with its default type.\<close>

definition with_default_type :: "start_test_request \<Rightarrow> start_test_request" where
  "with_default_type req = (if rq_TransactionType req = TxTypeOther '''' then req\<lparr>rq_TransactionType := TxTypeEthTransfer\<rparr> else req)"

definition choose_kind :: "start_test_request \<Rightarrow> ('n, unit) launch_step" where
  "choose_kind req =
     andThen (upd (\<lambda>s. s\<lparr>gn_txType := rq_TransactionType req, gn_gasless := rq_Gasless req \<or> cf_Gasless (gn_cfg s)\<rparr>)) (\<lambda>_.
     with_gen (\<lambda>s.
       if gn_gasless s \<and> (rq_TransactionType req \<noteq> TxTypeEthTransfer \<or> UsesRealisticMix (rq_Pattern req))
       then throw GaslessOnlyTransfers else ret ()))"

section \<open>Accounts, nonces and fees\<close>

definition show_phase :: "init_phase \<Rightarrow> ('n, unit) launch_step" where
  "show_phase p = upd (\<lambda>s. s\<lparr>gn_init := (gn_init s)\<lparr>ip_Phase := p\<rparr>\<rparr>)"

definition accounts_of :: "'n generator \<Rightarrow> accounts_state" where
  "accounts_of s = \<lparr>as_manager = gn_manager s, as_cache = gn_store s, as_generated = ip_AccountsGen (gn_init s),
     as_fundingSent = ip_FundingSent (gn_init s)\<rparr>"

definition put_accounts :: "accounts_state \<Rightarrow> 'n generator \<Rightarrow> 'n generator" where
  "put_accounts a s =
     s\<lparr>gn_world := (gn_world s)\<lparr>lg_manager := as_manager a, lg_cache := as_cache a\<rparr>,
       gn_init := (gn_init s)\<lparr>ip_AccountsGen := as_generated a, ip_FundingSent := as_fundingSent a\<rparr>\<rparr>"

text \<open>The environment speaks of the configured execution layer and chain.\<close>

definition layer_of :: "config \<Rightarrow> 's accounts_env \<Rightarrow> 's accounts_env" where
  "layer_of cfg env = (case cf_Capabilities cfg of None \<Rightarrow> env | Some c \<Rightarrow> env\<lparr>ae_caps := c\<rparr>)"

definition prepare_accounts :: "'s accounts_env \<Rightarrow> start_test_request \<Rightarrow> ('n, int) launch_step" where
  "prepare_accounts env req =
     with_gen (\<lambda>s.
       let (n, warning) = choose_accounts (cf_BlockTimeMS (gn_cfg s)) req in
       andThen (upd (\<lambda>s. s\<lparr>gn_warnings := gn_warnings s @ (case warning of None \<Rightarrow> [] | Some w \<Rightarrow> [w]),
         gn_init := (gn_init s)\<lparr>ip_AccountsTotal := n\<rparr>\<rparr>)) (\<lambda>_.
       computed (ensureAccounts (layer_of (gn_cfg s) env) (gn_gasless s) (nat n) (cf_ChainID (gn_cfg s)) (accounts_of s)) (\<lambda>(err, a).
       andThen (upd (put_accounts a)) (\<lambda>_. case err of Some e \<Rightarrow> throw (NoAccountsFor e) | None \<Rightarrow> ret n))))"

definition init_nonces :: "(nat \<Rightarrow> rpc_err + u64) \<Rightarrow> int \<Rightarrow> ('n, unit) launch_step" where
  "init_nonces replies n =
     andThen (show_phase InitPhaseInitNonces) (\<lambda>_.
     with_gen (\<lambda>s.
       let (err, m) = InitializeNonces replies (nat (min n (int (length (mg_accounts (gn_manager s)))))) (gn_manager s) in
       andThen (upd (\<lambda>s. s\<lparr>gn_world := (gn_world s)\<lparr>lg_manager := m\<rparr>\<rparr>)) (\<lambda>_.
       case err of Some e \<Rightarrow> throw (NonceInitFailed e) | None \<Rightarrow> ret ())))"

definition set_fees :: "u64 option \<Rightarrow> u64 option \<Rightarrow> ('n, unit) launch_step" where
  "set_fees gasPrice baseFee =
     upd (\<lambda>s. s\<lparr>gn_gasCaps := Some (gas_caps (gn_gasless s) (cf_GasTipCap (gn_cfg s)) (cf_GasFeeCap (gn_cfg s)) gasPrice baseFee)\<rparr>)"

section \<open>Contracts\<close>

text \<open>The environment speaks of the configured chain and gas price.\<close>

definition chain_of :: "config \<Rightarrow> 'n lg_env \<Rightarrow> 'n lg_env" where
  "chain_of cfg env = env\<lparr>le_chainID := cf_ChainID cfg, le_gasPrice := cf_GasPrice cfg\<rparr>"

definition contracts_total :: "transaction_type \<Rightarrow> int" where
  "contracts_total ty = (if ty = TxTypeUniswapSwap then 10 else 3)"

definition ensure_contracts :: "'n lg_env \<Rightarrow> 'g chain_lib \<Rightarrow> transaction_type \<Rightarrow> ('n, unit) launch_step" where
  "ensure_contracts env lb ty =
     andThen (if ty = TxTypeEthTransfer then ret ()
       else upd (\<lambda>s. s\<lparr>gn_init := (gn_init s)\<lparr>ip_Phase := InitPhaseDeployingContracts, ip_ContractsTotal := contracts_total ty\<rparr>\<rparr>)) (\<lambda>_.
     with_gen (\<lambda>s. wrapped DeployFailed (on_contracts (ensureContractsDeployed (chain_of (gn_cfg s) env) lb ty))))"

definition pre_mint :: "'n lg_env \<Rightarrow> 'g chain_lib \<Rightarrow> start_test_request \<Rightarrow> ('n, unit) launch_step" where
  "pre_mint env lb req =
     (if rq_TransactionType req = TxTypeERC721Transfer \<and> 0 < rq_Erc721PreMint req
      then with_gen (\<lambda>s.
        if lg_nft (gn_world s) = 0 then throw NftUnavailable
        else (case mg_accounts (gn_manager s) of
            [] \<Rightarrow> throw NoAccountForPreMint
          | a # _ \<Rightarrow> wrapped PreMintFailed (on_contracts
              (PreMintNFTs (le_node env) lb (le_deployer env) (ta_addr a) (lg_nft (gn_world s)) (rq_Erc721PreMint req)))))
      else ret ())"

section \<open>Pattern, rate and counters\<close>

definition set_pattern :: "start_test_request \<Rightarrow> ('n, pattern) launch_step" where
  "set_pattern req =
     (case pattern_Get NewRegistry (rq_Pattern req) (pattern_config_of req) of
        Inl e \<Rightarrow> throw (UnknownPattern e)
      | Inr pat \<Rightarrow> andThen (upd (\<lambda>s. s\<lparr>gn_rate := (gn_rate s)\<lparr>currentPattern := Some pat\<rparr>\<rparr>)) (\<lambda>_. ret pat))"

definition set_rate :: "int \<Rightarrow> pattern \<Rightarrow> ('n, unit) launch_step" where
  "set_rate now pat =
     computed (initial_rate pat) (\<lambda>(r, pat'). upd (\<lambda>s.
       s\<lparr>gn_rate := (gn_rate s)\<lparr>currentPattern := Some pat', currentRate := f64_trunc r, rateLimiter := NewLimiter r now, rc_pendingCount := 0\<rparr>,
         blockState := (blockState s)\<lparr>block_state.peakRate := 0\<rparr>, lg_pendingCount := 0, gn_stopping := False, gn_forceStop := False\<rparr>))"

definition reset_counters :: "start_test_request \<Rightarrow> 'n generator \<Rightarrow> 'n generator" where
  "reset_counters req s =
     (let c = Collector_Reset (metricsCol s) in
      s\<lparr>metricsCol := (if UsesRealisticMix (rq_Pattern req) then InitRealisticMetrics c else c),
        preconfLatencies := latency_Reset (preconfLatencies s), lastPreconfSeqNum := 0, preconfGaps := 0\<rparr>)"

definition set_times :: "int \<Rightarrow> start_test_request \<Rightarrow> 'n generator \<Rightarrow> 'n generator" where
  "set_times now req s =
     s\<lparr>gn_startTime := Some now, gn_duration := rq_DurationSec req * second, gn_lastSentCount := 0, gn_currentTPS := 0\<rparr>"

text \<open>The buffers are emptied whether or not transactions are logged.\<close>

definition initBuffers :: "'n generator \<Rightarrow> 'n generator" where
  "initBuffers s = s\<lparr>gn_series := [], txLogBuf := [], pendingTxs := []\<rparr>"

definition set_logging :: "start_test_request \<Rightarrow> 'n generator \<Rightarrow> 'n generator" where
  "set_logging req s = initBuffers (s\<lparr>txLoggingEnabled := shouldLogTransactions (rq_DurationSec req) (logging_rate req)\<rparr>)"

section \<open>The run in the store\<close>

text \<open>The run that is stored; fields the literal leaves out have Go's zero values.\<close>

definition new_run :: "(start_test_request \<Rightarrow> 'j) \<Rightarrow> string \<Rightarrow> start_test_request \<Rightarrow> 'n generator \<Rightarrow> 'j test_run" where
  "new_run box name req s =
     \<lparr>tr_ID = gn_testID s, tr_StartedAt = (case gn_startTime s of None \<Rightarrow> 0 | Some t \<Rightarrow> t), tr_CompletedAt = None,
      tr_Pattern = rq_Pattern req, tr_TransactionType = gn_txType s, tr_DurationMs = Milliseconds (gn_duration s),
      tr_TxSent = 0, tr_TxConfirmed = 0, tr_TxFailed = 0, tr_TxDiscarded = 0, tr_AverageTPS = 0, tr_PeakTPS = 0,
      tr_Status = ''running'', tr_ErrorMessage = '''', tr_TxLoggingEnabled = txLoggingEnabled s,
      tr_ExecutionLayer = cf_ExecutionLayer (gn_cfg s), tr_PrivacyMode = rq_PrivacyMode req, tr_CustomName = Some name, tr_IsFavorite = False,
      tr_BlockCount = 0, tr_TotalGasUsed = 0, tr_AvgFillRate = 0, tr_PeakMgasPerSec = 0, tr_AvgMgasPerSec = 0,
      tr_OnChainFirstBlock = 0, tr_OnChainLastBlock = 0, tr_OnChainTxCount = 0, tr_OnChainGasUsed = 0, tr_OnChainMgasPerSec = 0,
      tr_OnChainTps = 0, tr_OnChainDurationSecs = 0, tr_AccountsActive = 0, tr_AccountsFunded = 0,
      tr_LatencyStats = None, tr_PreconfLatency = None, tr_PendingLatency = None, tr_Config = Some (box req), tr_TipHistogram = None,
      tr_TxTypeMetrics = None, tr_ReadLoad = None, tr_Environment = None, tr_Verification = None, tr_DeployedContracts = None,
      tr_TestAccounts = None\<rparr>"

text \<open>An error of the store is logged only.\<close>

definition create_run :: "'j codec \<Rightarrow> string option \<Rightarrow> (start_test_request \<Rightarrow> 'j) \<Rightarrow> string \<Rightarrow> start_test_request \<Rightarrow> 'n generator \<Rightarrow> 'n generator" where
  "create_run cd io box name req s =
     (case gn_store s of None \<Rightarrow> s
      | Some db \<Rightarrow> put_store (snd (CreateTestRun cd io (new_run box name req s) db)) s)"

definition test_id :: "int \<Rightarrow> string" where
  "test_id now = ''test-'' @ decimal_digits (nat now)"

definition open_run :: "('s, 'n, 'g, 'j) init_env \<Rightarrow> start_test_request \<Rightarrow> 'n generator \<Rightarrow> 'n generator" where
  "open_run env req s =
     (create_run (ie_codec env) (ie_createErr env) (ie_requestBox env) (ie_runName env) req (s\<lparr>gn_testID := test_id (ie_now env)\<rparr>))
       \<lparr>gn_ctx := CtxLive\<rparr>"

section \<open>Sources of confirmations\<close>

text \<open>Without capabilities the goroutine panics here.\<close>

definition has_preconf :: "config \<Rightarrow> capabilities \<Rightarrow> bool" where
  "has_preconf cfg caps \<longleftrightarrow> SupportsPreconfirmations caps \<and> cf_PreconfWSURL cfg \<noteq> ''''"

definition open_sockets :: "('n, unit) launch_step" where
  "open_sockets =
     with_gen (\<lambda>s. computed (cf_Capabilities (gn_cfg s)) (\<lambda>caps.
       spawn ((if has_preconf (gn_cfg s) caps then [PreconfWS] else []) @
         (if SupportsBlockMetricsWS caps \<and> cf_PreconfWSURL (gn_cfg s) \<noteq> '''' then [BuilderMetricsWS] else []) @ [L2WS])))"

definition clear_blocks :: "'n generator \<Rightarrow> 'n generator" where
  "clear_blocks s =
     s\<lparr>blockState := reset_blocks (blockState s), gn_snapshots := [], recentConfirmedHashes := [],
       gn_settings := (gn_settings s)\<lparr>vs_txOrdering := ''''\<rparr>\<rparr>"

definition record_start :: "u64 option \<Rightarrow> 'n generator \<Rightarrow> 'n generator" where
  "record_start n s = (case n of None \<Rightarrow> s | Some b \<Rightarrow> s\<lparr>blockState := (blockState s)\<lparr>testStartBlockNumber := b\<rparr>\<rparr>)"

definition open_poller :: "('n, unit) launch_step" where
  "open_poller =
     with_gen (\<lambda>s. computed (cf_Capabilities (gn_cfg s)) (\<lambda>caps. if has_preconf (gn_cfg s) caps then ret () else spawn [ChainPoller]))"

definition route_sends :: "(string \<Rightarrow> string option) \<Rightarrow> start_test_request \<Rightarrow> ('n, unit) launch_step" where
  "route_sends readFile req =
     with_gen (\<lambda>s.
       if route_all (gn_cfg s) then ret ()
       else if rq_PrivacyMode req \<and> cf_PrivacyRPCURL (gn_cfg s) \<noteq> '''' then
         (case buildPrivacyClient readFile (gn_cfg s) of
            None \<Rightarrow> throw NoPrivacyToken
          | Some c \<Rightarrow> upd (\<lambda>s. s\<lparr>gn_sender := privacy_sender c\<rparr>))
       else upd (\<lambda>s. s\<lparr>gn_sender := gn_defaultSender s\<rparr>))"

section \<open>The workers\<close>

definition setup_reads :: "read_env \<Rightarrow> start_test_request \<Rightarrow> ('n, unit) launch_step" where
  "setup_reads env req =
     with_gen (\<lambda>s. computed (setupReadLoad env req s) (\<lambda>(err, s').
       andThen (upd (\<lambda>_. s')) (\<lambda>_. case err of Some e \<Rightarrow> throw (ReadLoadFailed e) | None \<Rightarrow> ret ())))"

definition worker_pool :: "config \<Rightarrow> int" where
  "worker_pool cfg = senderWorkerPool (Some \<lparr>L2MaxSenderWorkers = cf_L2MaxSenderWorkers cfg, L2BatchAckTimeout = cf_L2BatchAckTimeout cfg,
     L2PipelineBatchDepth = cf_L2PipelineBatchDepth cfg\<rparr>)"

definition workers_of :: "int \<Rightarrow> 'n generator \<Rightarrow> nat" where
  "workers_of n s =
     nat (num_workers (int (length (mg_accounts (gn_manager s)) + length (mg_dynamic (gn_manager s)))) (worker_pool (gn_cfg s)) n)"

definition start_workers :: "('s, 'n, 'g, 'j) init_env \<Rightarrow> int \<Rightarrow> pattern \<Rightarrow> ('n, unit) launch_step" where
  "start_workers env n pat =
     andThen (with_gen (\<lambda>s. spawn (map SenderWorker [0..<workers_of n s]))) (\<lambda>_.
     andThen (upd (startReadLoad (ie_readHead env) (ie_now env))) (\<lambda>_.
     spawn ([TpsCalculator] @ (if NeedsAdaptiveController pat then [AdaptiveController] else []) @ [BackpressureMonitor, CompletionWatcher])))"

definition go_running :: "'n generator \<Rightarrow> 'n generator" where
  "go_running s = s\<lparr>gn_status := StatusRunning, gn_init := (gn_init s)\<lparr>ip_Phase := InitPhaseNone\<rparr>\<rparr>"

text \<open>The order of the builder's transactions is asked for when the workers are already running.\<close>

definition ask_builder :: "('s, 'n, 'g, 'j) init_env \<Rightarrow> ('n, unit) launch_step" where
  "ask_builder env =
     with_gen (\<lambda>s. computed (cf_Capabilities (gn_cfg s)) (\<lambda>caps.
       let (e, settings) = fetchBuilderConfig (ie_getenv env) (gn_cfg s) caps (ie_ask env) (ie_builder env) (gn_settings s) in
       upd (\<lambda>s. s\<lparr>gn_settings := settings\<lparr>vs_txOrdering := bf_TxOrdering (ev_Builder e)\<rparr>\<rparr>)))"

definition start_incremental :: "('n, unit) launch_step" where
  "start_incremental = andThen (upd (\<lambda>s. put_incremental (startIncrementalVerification (incremental_of s)) s)) (\<lambda>_. spawn [IncrementalVerification])"

section \<open>The initialization\<close>

text \<open>Everything that can be prepared without a trace of the test; the result is the number of accounts.\<close>

definition prepare_test :: "('s, 'n, 'g, 'j) init_env \<Rightarrow> start_test_request \<Rightarrow> ('n, int) launch_step" where
  "prepare_test env req =
     andThen (upd (\<lambda>s. s\<lparr>gn_warnings := []\<rparr>)) (\<lambda>_.
     andThen (rebuild_clients (ie_readFile env)) (\<lambda>_.
     andThen (adopt_chain_id (ie_chainId env)) (\<lambda>_.
     andThen (choose_kind req) (\<lambda>_.
     andThen (prepare_accounts (ie_accounts env) req) (\<lambda>n.
     andThen (init_nonces (ie_nonces env) n) (\<lambda>_.
     andThen (set_fees (ie_gasPrice env) (ie_baseFee env)) (\<lambda>_.
     andThen (ensure_contracts (ie_contracts env) (ie_lib env) (DeployTxTypeFor req)) (\<lambda>_.
     andThen (pre_mint (ie_contracts env) (ie_lib env) req) (\<lambda>_. ret n)))))))))"

definition arm_test :: "('s, 'n, 'g, 'j) init_env \<Rightarrow> start_test_request \<Rightarrow> ('n, pattern) launch_step" where
  "arm_test env req =
     andThen (set_pattern req) (\<lambda>pat.
     andThen (set_rate (ie_now env) pat) (\<lambda>_.
     andThen (upd (open_run env req \<circ> set_logging req \<circ> set_times (ie_now env) req \<circ> reset_counters req)) (\<lambda>_. ret pat)))"

definition connect_test :: "('s, 'n, 'g, 'j) init_env \<Rightarrow> start_test_request \<Rightarrow> ('n, unit) launch_step" where
  "connect_test env req =
     andThen open_sockets (\<lambda>_.
     andThen (upd (record_start (ie_startBlock env) \<circ> clear_blocks)) (\<lambda>_.
     andThen open_poller (\<lambda>_.
     andThen (route_sends (ie_readFile env) req) (\<lambda>_.
     andThen (show_phase InitPhaseStartingWorkers) (\<lambda>_. setup_reads (ie_reads env) req)))))"

definition run_test :: "('s, 'n, 'g, 'j) init_env \<Rightarrow> int \<Rightarrow> pattern \<Rightarrow> ('n, unit) launch_step" where
  "run_test env n pat =
     andThen (start_workers env n pat) (\<lambda>_.
     andThen (upd go_running) (\<lambda>_.
     andThen (ask_builder env) (\<lambda>_. start_incremental)))"

definition initialization_steps :: "('s, 'n, 'g, 'j) init_env \<Rightarrow> start_test_request \<Rightarrow> ('n, unit) launch_step" where
  "initialization_steps env req0 =
     (let req = with_default_type req0 in
      andThen (prepare_test env req) (\<lambda>n.
      andThen (arm_test env req) (\<lambda>pat.
      andThen (connect_test env req) (\<lambda>_. run_test env n pat))))"

text \<open>The goroutine: the failure that ended it, the state it leaves, and the goroutines it has started.\<close>

definition runInitialization ::
  "('s, 'n, 'g, 'j) init_env \<Rightarrow> start_test_request \<Rightarrow> 'n generator \<Rightarrow> (test_failure option \<times> 'n generator \<times> routine list) option" where
  "runInitialization env req s =
     map_option (\<lambda>(r, l). case r of
         Inl e \<Rightarrow> (Some e, set_failure e (la_gen l), la_running l)
       | Inr _ \<Rightarrow> (None, la_gen l, la_running l))
       (initialization_steps env req \<lparr>la_gen = s, la_running = []\<rparr>)"

section \<open>Steps as transformations of the launch\<close>

lemma with_gen_run [simp]: "with_gen f l = f (la_gen l) l" by (simp add: with_gen_def with_world_def)

lemma upd_run [simp]: "upd f l = Some (Inr (), l\<lparr>la_gen := f (la_gen l)\<rparr>)" by (simp add: upd_def change_def)

lemma spawn_run [simp]: "spawn rs l = Some (Inr (), l\<lparr>la_running := la_running l @ rs\<rparr>)" by (simp add: spawn_def change_def)

lemma turns_with_gen [keep_rules]: "(\<And>s. turns P (f s) Q) \<Longrightarrow> turns P (with_gen f) Q"
  by (simp add: turns_def)

lemma turns_upd [keep_rules]: "(\<And>l. P l \<Longrightarrow> Q (Inr ()) (l\<lparr>la_gen := f (la_gen l)\<rparr>)) \<Longrightarrow> turns P (upd f) Q"
  by (simp add: turns_def)

lemma turns_spawn: "(\<And>l. P l \<Longrightarrow> Q (Inr ()) (l\<lparr>la_running := la_running l @ rs\<rparr>)) \<Longrightarrow> turns P (spawn rs) Q"
  by (simp add: turns_def)

text \<open>A predicate that sees of the contracts' world only what \<open>I\<close> says is kept by actions that keep \<open>I\<close>.\<close>

lemma turns_on_contracts:
  assumes "turns I m (\<lambda>r. I)" "\<And>l. P l \<Longrightarrow> I (gn_world (la_gen l))"
    and "\<And>l w. P l \<Longrightarrow> I w \<Longrightarrow> P (l\<lparr>la_gen := (la_gen l)\<lparr>gn_world := w\<rparr>\<rparr>)"
  shows "turns P (on_contracts m) (\<lambda>r. P)"
  using assms by (fastforce simp: turns_def on_contracts_def)

section \<open>Preparing\<close>

text \<open>The fields the lifecycle is about, what is running, and contracts as the deployment left them.\<close>

definition untouched :: "'n launch \<Rightarrow> 'n launch \<Rightarrow> bool" where
  "untouched l0 l \<longleftrightarrow> la_running l = la_running l0 \<and> gn_status (la_gen l) = gn_status (la_gen l0) \<and>
     gn_error (la_gen l) = gn_error (la_gen l0) \<and> gn_stopping (la_gen l) = gn_stopping (la_gen l0) \<and>
     gn_forceStop (la_gen l) = gn_forceStop (la_gen l0) \<and> cf_GasTipCap (gn_cfg (la_gen l)) = cf_GasTipCap (gn_cfg (la_gen l0)) \<and>
     contracts_ok (gn_world (la_gen l))"

lemma contracts_ok_accounts [simp]:
  "contracts_ok (w\<lparr>lg_manager := m\<rparr>) = contracts_ok w" "contracts_ok (w\<lparr>lg_cache := c\<rparr>) = contracts_ok w"
  by (simp_all add: contracts_ok_def registry_ok_def targets_agree_def shown_def)

lemma prepares_accounts: "turns (untouched l0) (prepare_accounts env req) (\<lambda>r. untouched l0)"
  unfolding prepare_accounts_def
  by (simp add: Let_def split_beta, intro keep_rules) (auto simp: untouched_def put_accounts_def)

lemma prepares_kind:
  "turns (untouched l0) (rebuild_clients readFile) (\<lambda>r. untouched l0)"
  "turns (untouched l0) (adopt_chain_id cid) (\<lambda>r. untouched l0)"
  "turns (untouched l0) (choose_kind req) (\<lambda>r. untouched l0)"
  unfolding rebuild_clients_def adopt_chain_id_def choose_kind_def
  by (intro keep_rules; simp add: untouched_def split: option.split)+

lemma prepares_nonces: "turns (untouched l0) (init_nonces replies n) (\<lambda>r. untouched l0)"
  unfolding init_nonces_def show_phase_def
  by (simp add: Let_def split_beta, intro keep_rules) (auto simp: untouched_def)

lemma prepares_fees: "turns (untouched l0) (set_fees gasPrice baseFee) (\<lambda>r. untouched l0)"
  unfolding set_fees_def by (intro keep_rules) (simp add: untouched_def)

text \<open>Fees and contracts of the type are there.\<close>

definition priced :: "'n generator \<Rightarrow> bool" where
  "priced s \<longleftrightarrow> (\<exists>tip fee. gn_gasCaps s = Some (tip, fee) \<and> tip \<le> fee)"

definition has_contracts :: "transaction_type \<Rightarrow> 'n generator \<Rightarrow> bool" where
  "has_contracts ty s \<longleftrightarrow> contracts_ok (gn_world s) \<and> (ty \<noteq> TxTypeEthTransfer \<longrightarrow> lg_contractsDeployed (gn_world s) \<and> swap_ok ty (gn_world s))"

lemma gas_caps_ordered: "0 \<le> tip0 \<Longrightarrow> \<exists>tip fee. gas_caps g tip0 fee0 price base = (tip, fee) \<and> tip \<le> fee"
  using gas_caps_are_sufficient [of g tip0 fee0 price base "fst (gas_caps g tip0 fee0 price base)" "snd (gas_caps g tip0 fee0 price base)"]
  by (cases "gas_caps g tip0 fee0 price base") (auto split: if_splits)

lemma fees_priced:
  assumes "0 \<le> cf_GasTipCap (gn_cfg (la_gen l0))"
  shows "turns (untouched l0) (set_fees gasPrice baseFee) (\<lambda>r l. untouched l0 l \<and> priced (la_gen l))"
  unfolding set_fees_def using assms gas_caps_ordered
  by (intro turns_upd) (simp add: untouched_def priced_def)

lemma ensures_contracts:
  "turns (\<lambda>l. untouched l0 l \<and> priced (la_gen l)) (ensure_contracts env lb ty)
     (\<lambda>r l. untouched l0 l \<and> (r = Inr () \<longrightarrow> priced (la_gen l) \<and> has_contracts ty (la_gen l)))"
proof -
  let ?P = "\<lambda>l. untouched l0 l \<and> priced (la_gen l)"
  let ?Q = "\<lambda>r l. untouched l0 l \<and> (r = Inr () \<longrightarrow> priced (la_gen l) \<and> has_contracts ty (la_gen l))"
  have deployed: "turns ?P (wrapped DeployFailed (on_contracts (ensureContractsDeployed env' lb ty))) ?Q" for env'
  proof (cases "ty = TxTypeEthTransfer")
    case True
    then show ?thesis
      by (auto simp: turns_def ensureContractsDeployed_def wrapped_Some on_contracts_def untouched_def has_contracts_def priced_def)
  next
    case False
    note ready = turnsD [OF turns_ensureContractsDeployed [OF False]]
    show ?thesis unfolding turns_def wrapped_Some on_contracts_def
      using ready [of "gn_world (la_gen l)" for l] False by (fastforce simp: untouched_def has_contracts_def priced_def)
  qed
  have shown: "turns ?P (if ty = TxTypeEthTransfer then ret () else upd (\<lambda>s. s\<lparr>gn_init := (gn_init s)\<lparr>ip_Phase := ph, ip_ContractsTotal := k\<rparr>\<rparr>))
      (\<lambda>r. ?P)" for ph k
    by (intro keep_rules) (simp_all add: untouched_def priced_def)
  show ?thesis unfolding ensure_contracts_def
    by (rule turns_andThen [where R = "\<lambda>_. ?P"], rule turns_weaken [OF shown], simp split: sum.split)
      (intro turns_with_gen deployed)
qed

lemma mints:
  "turns (\<lambda>l. untouched l0 l \<and> priced (la_gen l) \<and> has_contracts ty (la_gen l)) (pre_mint env lb req)
     (\<lambda>r l. untouched l0 l \<and> priced (la_gen l) \<and> has_contracts ty (la_gen l))"
proof -
  let ?I = "\<lambda>w. contracts_ok w \<and> (ty \<noteq> TxTypeEthTransfer \<longrightarrow> lg_contractsDeployed w \<and> swap_ok ty w)"
  have "turns ?I (PreMintNFTs nd lb d a nft n) (\<lambda>r. ?I)" for nd d a nft n
    by (rule turns_runs [OF runs_PreMintNFTs])
      (cases "ty = TxTypeEthTransfer"; simp; intro about_contracts_both about_contracts_ok about_contracts_intros)
  then show ?thesis unfolding pre_mint_def
    by (auto intro!: keep_rules turns_on_contracts [where I = ?I] simp: untouched_def has_contracts_def priced_def split: list.split)
qed

lemma turns_early:
  assumes "turns P m (\<lambda>r. P)" "\<And>x. turns P (f x) (\<lambda>r l. P l \<and> (isl r \<or> Q r l))"
  shows "turns P (andThen m f) (\<lambda>r l. P l \<and> (isl r \<or> Q r l))"
  by (rule turns_seq [OF assms(1) _ assms(2)]) simp

lemma prepares:
  assumes "0 \<le> cf_GasTipCap (gn_cfg (la_gen l0))"
  shows "turns (untouched l0) (prepare_test env req)
    (\<lambda>r l. untouched l0 l \<and> (isl r \<or> priced (la_gen l) \<and> has_contracts (DeployTxTypeFor req) (la_gen l)))"
proof -
  let ?R = "\<lambda>l. untouched l0 l \<and> priced (la_gen l)"
  let ?S = "\<lambda>l. untouched l0 l \<and> priced (la_gen l) \<and> has_contracts (DeployTxTypeFor req) (la_gen l)"
  let ?Q = "\<lambda>r l. untouched l0 l \<and> (isl r \<or> priced (la_gen l) \<and> has_contracts (DeployTxTypeFor req) (la_gen l))"
  have mint: "turns ?S (andThen (pre_mint e lb req) (\<lambda>_. ret n)) ?Q" for e lb and n :: int
    by (rule turns_andThen [where R = "\<lambda>_. ?S"], rule turns_weaken [OF mints], simp split: sum.split)
      (auto intro!: turns_ret)
  have contracts: "turns ?R (andThen (ensure_contracts e lb (DeployTxTypeFor req)) (\<lambda>_. andThen (pre_mint e lb req) (\<lambda>_. ret n))) ?Q"
    for e lb and n :: int
    by (rule turns_andThen [OF _ mint], rule turns_weaken [OF ensures_contracts]) (auto split: sum.split)
  have fees: "turns (untouched l0) (andThen (set_fees g b) (\<lambda>_. andThen (ensure_contracts e lb (DeployTxTypeFor req))
      (\<lambda>_. andThen (pre_mint e lb req) (\<lambda>_. ret n)))) ?Q" for g b e lb and n :: int
    by (rule turns_andThen [OF _ contracts], rule turns_weaken [OF fees_priced [OF assms]]) (simp split: sum.split)
  have "turns (untouched l0) (upd (\<lambda>s. s\<lparr>gn_warnings := []\<rparr>)) (\<lambda>r. untouched l0)"
    by (intro keep_rules) (simp add: untouched_def)
  then show ?thesis unfolding prepare_test_def
    by (intro turns_early prepares_kind prepares_accounts prepares_nonces fees)
qed

section \<open>Arming\<close>

text \<open>A test that is about to run: nothing counted, nothing pending, nobody asked it to stop, a positive rate.\<close>

definition armed :: "'n generator \<Rightarrow> bool" where
  "armed s \<longleftrightarrow> \<not> gn_stopping s \<and> \<not> gn_forceStop s \<and> GetSnapshot (metricsCol s) = (0, 0, 0) \<and> lg_pendingCount s = 0 \<and>
     pendingTxs s = [] \<and> txLogBuf s = [] \<and> gn_series s = [] \<and> gn_startTime s \<noteq> None \<and> gn_ctx s = CtxLive \<and>
     1 \<le> currentRate (gn_rate s) \<and> currentPattern (gn_rate s) \<noteq> None"

lemma initial_rate_positive: "initial_rate pat = Some (r, pat') \<Longrightarrow> 1 \<le> f64_trunc r"
proof -
  assume "initial_rate pat = Some (r, pat')"
  then obtain k where "r = (if f64_of_int k \<le> 0 then 100 else f64_of_int k)"
    by (auto simp: initial_rate_def Let_def split: option.splits)
  moreover have "1 \<le> f64_trunc (f64_of_int k)" if "\<not> f64_of_int k \<le> 0"
  proof -
    have "\<not> k \<le> 0" using that fl_mono [of "of_int k" 0] by (auto simp: f64_of_int_def)
    then have "f64_trunc (of_int 1) \<le> f64_trunc (f64_of_int k)"
      using fl_mono [of 1 "of_int k"] by (intro f64_trunc_mono) (simp add: f64_of_int_def)
    then show ?thesis using f64_trunc_of_int [of 1] by simp
  qed
  ultimately show ?thesis using f64_trunc_of_int [of 100] by simp
qed

text \<open>What stays through the steps after the preparation.\<close>

definition kept :: "'n generator \<Rightarrow> 'n generator \<Rightarrow> bool" where
  "kept s0 s \<longleftrightarrow> gn_status s = gn_status s0 \<and> gn_error s = gn_error s0 \<and> gn_gasCaps s = gn_gasCaps s0 \<and> gn_cfg s = gn_cfg s0 \<and>
     gn_manager s = gn_manager s0 \<and> (\<forall>ty. has_contracts ty s0 \<longrightarrow> has_contracts ty s)"

lemma kept_refl: "kept s s" by (simp add: kept_def)

lemma kept_trans: "kept s0 s1 \<Longrightarrow> kept s1 s2 \<Longrightarrow> kept s0 s2" by (simp add: kept_def)

lemma kept_priced: "kept s0 s \<Longrightarrow> priced s0 \<Longrightarrow> priced s" by (simp add: kept_def priced_def)

lemma has_contracts_world: "has_contracts ty s \<Longrightarrow> gn_world s' = gn_world s \<Longrightarrow> has_contracts ty s'"
  by (simp add: has_contracts_def)

lemma open_run_fields [simp]:
  "gn_status (open_run env req s) = gn_status s" "gn_error (open_run env req s) = gn_error s"
  "gn_gasCaps (open_run env req s) = gn_gasCaps s" "gn_cfg (open_run env req s) = gn_cfg s"
  "gn_manager (open_run env req s) = gn_manager s" "gn_rate (open_run env req s) = gn_rate s"
  "gn_stopping (open_run env req s) = gn_stopping s" "gn_forceStop (open_run env req s) = gn_forceStop s"
  "metricsCol (open_run env req s) = metricsCol s" "lg_pendingCount (open_run env req s) = lg_pendingCount s"
  "pendingTxs (open_run env req s) = pendingTxs s" "txLogBuf (open_run env req s) = txLogBuf s"
  "gn_series (open_run env req s) = gn_series s" "gn_startTime (open_run env req s) = gn_startTime s" "gn_ctx (open_run env req s) = CtxLive"
  by (simp_all add: open_run_def create_run_def put_store_def gn_manager_def split: option.split)

lemma open_run_contracts: "has_contracts ty s \<Longrightarrow> has_contracts ty (open_run env req s)"
  by (simp add: open_run_def create_run_def put_store_def has_contracts_def swap_ok_def split: option.split)

lemma arms:
  assumes "arm_test env req l = Some (r, l')"
  shows "la_running l' = la_running l \<and> kept (la_gen l) (la_gen l') \<and>
    (case r of Inl e \<Rightarrow> gn_stopping (la_gen l') = gn_stopping (la_gen l) \<and> gn_forceStop (la_gen l') = gn_forceStop (la_gen l) | Inr pat \<Rightarrow> armed (la_gen l'))"
proof (cases "pattern_Get NewRegistry (rq_Pattern req) (pattern_config_of req)")
  case (Inl e)
  then show ?thesis using assms by (auto simp: arm_test_def set_pattern_def andThen_Some kept_refl)
next
  case (Inr pat)
  let ?s = "la_gen l"
  obtain x pat' t where rate: "initial_rate pat = Some (x, pat')" and r: "r = Inr pat"
    and l': "la_running l' = la_running l" "la_gen l' = open_run env req t"
    and t: "t = set_logging req (set_times (ie_now env) req (reset_counters req
      (?s\<lparr>gn_rate := (gn_rate ?s)\<lparr>currentPattern := Some pat', currentRate := f64_trunc x, rateLimiter := NewLimiter x (ie_now env), rc_pendingCount := 0\<rparr>,
         blockState := (blockState ?s)\<lparr>block_state.peakRate := 0\<rparr>, lg_pendingCount := 0, gn_stopping := False, gn_forceStop := False\<rparr>)))"
    using assms Inr by (auto simp: arm_test_def set_pattern_def set_rate_def andThen_Some computed_Some)
  note fields = set_logging_def initBuffers_def set_times_def reset_counters_def Let_def
  have world: "gn_world t = gn_world ?s" by (simp add: t fields)
  have "has_contracts ty (open_run env req t)" if "has_contracts ty ?s" for ty
    by (rule open_run_contracts, rule has_contracts_world [OF that world])
  moreover have "gn_manager t = gn_manager ?s" using world by (simp add: gn_manager_def)
  ultimately have "kept ?s (la_gen l')" unfolding kept_def l' by (simp add: t fields)
  moreover have "armed (la_gen l')" unfolding armed_def l' using initial_rate_positive [OF rate]
    by (simp add: t fields GetSnapshot_def Collector_Reset_def InitRealisticMetrics_def)
  ultimately show ?thesis using l' r by simp
qed

section \<open>Connecting and running\<close>

definition sources_of :: "config \<Rightarrow> capabilities \<Rightarrow> routine list" where
  "sources_of cfg caps =
     (if has_preconf cfg caps then [PreconfWS] else []) @
     (if SupportsBlockMetricsWS caps \<and> cf_PreconfWSURL cfg \<noteq> '''' then [BuilderMetricsWS] else []) @ [L2WS] @
     (if has_preconf cfg caps then [] else [ChainPoller])"

text \<open>What the steps from here on leave of a test that is armed.\<close>

definition carries :: "'n generator \<Rightarrow> 'n generator \<Rightarrow> bool" where
  "carries s0 s \<longleftrightarrow> gn_error s = gn_error s0 \<and> gn_cfg s = gn_cfg s0 \<and> gn_gasCaps s = gn_gasCaps s0 \<and> gn_world s = gn_world s0 \<and>
     gn_stopping s = gn_stopping s0 \<and> gn_forceStop s = gn_forceStop s0 \<and> metricsCol s = metricsCol s0 \<and>
     lg_pendingCount s = lg_pendingCount s0 \<and> pendingTxs s = pendingTxs s0 \<and> txLogBuf s = txLogBuf s0 \<and> gn_series s = gn_series s0 \<and>
     gn_startTime s = gn_startTime s0 \<and> gn_ctx s = gn_ctx s0 \<and> gn_rate s = gn_rate s0"

lemma carries_refl [simp]: "carries s s" by (simp add: carries_def)

lemma carries_trans: "carries s0 s1 \<Longrightarrow> carries s1 s2 \<Longrightarrow> carries s0 s2" by (simp add: carries_def)

lemma carries_armed: "carries s0 s \<Longrightarrow> armed s0 \<Longrightarrow> armed s" by (simp add: carries_def armed_def)

lemma carries_contracts: "carries s0 s \<Longrightarrow> has_contracts ty s0 \<Longrightarrow> has_contracts ty s" by (simp add: carries_def has_contracts_def)

lemma carries_priced: "carries s0 s \<Longrightarrow> priced s0 \<Longrightarrow> priced s" by (simp add: carries_def priced_def)

lemma carries_preparation [simp]:
  "carries s (record_start n (clear_blocks s))" "gn_status (record_start n (clear_blocks s)) = gn_status s"
  "gn_cfg (record_start n (clear_blocks s)) = gn_cfg s"
  by (simp_all add: carries_def record_start_def clear_blocks_def split: option.split)

lemma routed:
  assumes "route_sends readFile req l = Some (r, l')"
  shows "la_running l' = la_running l \<and> carries (la_gen l) (la_gen l') \<and> gn_status (la_gen l') = gn_status (la_gen l) \<and>
    (\<forall>e. r = Inl e \<longrightarrow> e = NoPrivacyToken)"
  using assms by (auto simp: route_sends_def carries_def split: if_splits option.splits)

lemma reads_set_up:
  assumes "setup_reads env req l = Some (r, l')"
  shows "la_running l' = la_running l \<and> carries (la_gen l) (la_gen l') \<and> gn_status (la_gen l') = gn_status (la_gen l) \<and>
    (case r of Inl e \<Rightarrow> \<exists>x. e = ReadLoadFailed x | Inr _ \<Rightarrow> gn_readEngine (la_gen l') \<noteq> None \<longleftrightarrow> reads_wanted req)"
proof -
  obtain err s' where done_setup: "setupReadLoad env req (la_gen l) = Some (err, s')" and l': "l' = l\<lparr>la_gen := s'\<rparr>"
    and r: "r = (case err of Some e \<Rightarrow> Inl (ReadLoadFailed e) | None \<Rightarrow> Inr ())"
    using assms by (auto simp: setup_reads_def computed_Some andThen_Some split: option.splits)
  obtain e where "s' = (la_gen l)\<lparr>gn_readEngine := e\<rparr>" "err = None \<longrightarrow> (e \<noteq> None \<longleftrightarrow> reads_wanted req)"
    using setup_read_load_effect [OF done_setup] by blast
  then show ?thesis by (auto simp: l' r carries_def split: option.split)
qed

lemma connects:
  assumes "connect_test env req l = Some (r, l')"
  shows "\<exists>caps. cf_Capabilities (gn_cfg (la_gen l)) = Some caps \<and> la_running l' = la_running l @ sources_of (gn_cfg (la_gen l)) caps \<and>
    carries (la_gen l) (la_gen l') \<and> gn_status (la_gen l') = gn_status (la_gen l) \<and>
    (case r of Inl e \<Rightarrow> e = NoPrivacyToken \<or> (\<exists>x. e = ReadLoadFailed x) | Inr _ \<Rightarrow> gn_readEngine (la_gen l') \<noteq> None \<longleftrightarrow> reads_wanted req)"
proof -
  let ?cfg = "gn_cfg (la_gen l)"
  define l2 where "l2 = l\<lparr>la_gen := record_start (ie_startBlock env) (clear_blocks (la_gen l)),
    la_running := la_running l @ sources_of ?cfg (the (cf_Capabilities ?cfg))\<rparr>"
  obtain caps where caps: "cf_Capabilities ?cfg = Some caps"
    and rest: "andThen (route_sends (ie_readFile env) req)
      (\<lambda>_. andThen (show_phase InitPhaseStartingWorkers) (\<lambda>_. setup_reads (ie_reads env) req)) l2 = Some (r, l')"
  proof -
    from assms obtain caps where "cf_Capabilities ?cfg = Some caps"
      by (auto simp: connect_test_def open_sockets_def andThen_Some computed_Some)
    with assms show ?thesis
      by (intro that [of caps]; cases l) (auto simp: connect_test_def open_sockets_def open_poller_def andThen_def l2_def sources_of_def split: if_splits)
  qed
  have l2: "carries (la_gen l) (la_gen l2)" "gn_status (la_gen l2) = gn_status (la_gen l)"
    "la_running l2 = la_running l @ sources_of ?cfg caps" by (simp_all add: l2_def caps)
  obtain r1 l3 where route: "route_sends (ie_readFile env) req l2 = Some (r1, l3)"
    and next_step: "case r1 of Inl e \<Rightarrow> r = Inl e \<and> l' = l3
      | Inr _ \<Rightarrow> setup_reads (ie_reads env) req (l3\<lparr>la_gen := (la_gen l3)\<lparr>gn_init := (gn_init (la_gen l3))\<lparr>ip_Phase := InitPhaseStartingWorkers\<rparr>\<rparr>\<rparr>) = Some (r, l')"
    using rest by (auto simp: andThen_Some show_phase_def)
  note l3 = routed [OF route]
  show ?thesis
  proof (cases r1)
    case (Inl e)
    then show ?thesis using next_step l3 l2 caps by (auto dest: carries_trans)
  next
    case (Inr u)
    note reads = reads_set_up [OF next_step [unfolded Inr sum.case]]
    have "carries (la_gen l3) (la_gen l')" using reads by (simp add: carries_def)
    then show ?thesis using reads l3 l2 caps by (auto dest: carries_trans split: sum.splits)
  qed
qed

text \<open>The workers that were started, and that nothing but sources runs before.\<close>

fun is_worker :: "routine \<Rightarrow> bool" where
  "is_worker (SenderWorker i) = True"
| "is_worker _ = False"

definition sources :: "routine set" where "sources = {PreconfWS, BuilderMetricsWS, L2WS, ChainPoller}"

lemma sources_of_sources: "set (sources_of cfg caps) \<subseteq> sources" by (auto simp: sources_of_def sources_def)

lemma confirmation_source: "PreconfWS \<in> set (sources_of cfg caps) \<longleftrightarrow> ChainPoller \<notin> set (sources_of cfg caps)"
  by (auto simp: sources_of_def)

lemma no_worker_in_sources: "filter is_worker (sources_of cfg caps) = []"
  by (simp add: sources_of_def)

text \<open>The goroutines of a running test after the sources.\<close>

definition crew :: "nat \<Rightarrow> bool \<Rightarrow> routine list" where
  "crew n adapts = map SenderWorker [0..<n] @ [TpsCalculator] @ (if adapts then [AdaptiveController] else []) @
     [BackpressureMonitor, CompletionWatcher, IncrementalVerification]"

lemma crew_workers: "filter is_worker (crew n adapts) = map SenderWorker [0..<n]"
  by (simp add: crew_def filter_map comp_def)

lemma runs_test:
  assumes "run_test env n pat l = Some (r, l')"
  shows "r = Inr () \<and> la_running l' = la_running l @ crew (workers_of n (la_gen l)) (NeedsAdaptiveController pat) \<and>
    gn_status (la_gen l') = StatusRunning \<and> carries (la_gen l) (la_gen l') \<and>
    (gn_readEngine (la_gen l') \<noteq> None \<longleftrightarrow> gn_readEngine (la_gen l) \<noteq> None)"
  using assms
  by (auto simp: run_test_def start_workers_def andThen_Some ask_builder_def computed_Some start_incremental_def put_incremental_def
      split_beta Let_def go_running_def startReadLoad_def crew_def carries_def)

section \<open>A test that was started, and one that was not\<close>

lemma initial_untouched: "contracts_ok (gn_world s) \<Longrightarrow> untouched \<lparr>la_gen = s, la_running = []\<rparr> \<lparr>la_gen = s, la_running = []\<rparr>"
  by (simp add: untouched_def)

lemma initialization_ends:
  assumes "runInitialization env req s = Some (err, s', rs)"
  obtains (started) l where "err = None" "initialization_steps env req \<lparr>la_gen = s, la_running = []\<rparr> = Some (Inr (), l)"
      "s' = la_gen l" "rs = la_running l"
  | (failed) e l where "err = Some e" "initialization_steps env req \<lparr>la_gen = s, la_running = []\<rparr> = Some (Inl e, l)"
      "s' = set_failure e (la_gen l)" "rs = la_running l"
proof -
  obtain r l where run: "initialization_steps env req \<lparr>la_gen = s, la_running = []\<rparr> = Some (r, l)"
    and out: "(err, s', rs) = (case r of Inl e \<Rightarrow> (Some e, set_failure e (la_gen l), la_running l) | Inr _ \<Rightarrow> (None, la_gen l, la_running l))"
    using assms by (auto simp: runInitialization_def)
  show thesis by (cases r) (use run out started failed in auto)
qed

lemma workers_within:
  "int (workers_of n s) \<le> max 0 (worker_pool (gn_cfg s))"
  "workers_of n s \<le> length (mg_accounts (gn_manager s)) + length (mg_dynamic (gn_manager s))"
  by (auto simp: workers_of_def num_workers_def Let_def split: if_splits)

lemma worker_pool_positive: "0 < worker_pool cfg"
  by (simp add: worker_pool_def senderWorkerPool_def)

text \<open>How an initialization ends.\<close>

lemma start_outcome:
  assumes "runInitialization env req s = Some (None, s', rs)" "contracts_ok (gn_world s)" "0 \<le> cf_GasTipCap (gn_cfg s)"
  shows "gn_error s' = gn_error s \<and> gn_status s' = StatusRunning \<and> armed s' \<and> priced s' \<and> has_contracts (DeployTxTypeFor (with_default_type req)) s' \<and>
    (gn_readEngine s' \<noteq> None \<longleftrightarrow> reads_wanted (with_default_type req)) \<and>
    (\<exists>n. filter is_worker rs = map SenderWorker [0..<n] \<and> int n \<le> worker_pool (gn_cfg s') \<and>
       n \<le> length (mg_accounts (gn_manager s')) + length (mg_dynamic (gn_manager s'))) \<and>
    (PreconfWS \<in> set rs \<longleftrightarrow> ChainPoller \<notin> set rs)"
proof -
  let ?req = "with_default_type req" and ?l0 = "\<lparr>la_gen = s, la_running = []\<rparr>"
  obtain n l1 pat l2 l3 l4 r where p: "prepare_test env ?req ?l0 = Some (Inr n, l1)" and a: "arm_test env ?req l1 = Some (Inr pat, l2)"
    and c: "connect_test env ?req l2 = Some (Inr (), l3)" and g: "run_test env n pat l3 = Some (r, l4)"
    and s': "s' = la_gen l4" "rs = la_running l4"
    using assms(1) by (cases rule: initialization_ends) (auto simp: initialization_steps_def Let_def andThen_Some)
  have l1: "la_running l1 = []" "gn_error (la_gen l1) = gn_error s" "priced (la_gen l1)" "has_contracts (DeployTxTypeFor ?req) (la_gen l1)"
    using turnsD [OF prepares initial_untouched [OF assms(2)] p] assms(3) by (simp_all add: untouched_def)
  have l2: "la_running l2 = []" "gn_error (la_gen l2) = gn_error s" "armed (la_gen l2)" "priced (la_gen l2)" "has_contracts (DeployTxTypeFor ?req) (la_gen l2)"
    using arms [OF a] l1 by (auto simp: kept_def priced_def)
  obtain caps where l3: "la_running l3 = sources_of (gn_cfg (la_gen l2)) caps" "carries (la_gen l2) (la_gen l3)"
    "gn_readEngine (la_gen l3) \<noteq> None \<longleftrightarrow> reads_wanted ?req"
    using connects [OF c] l2(1) by auto
  note run = runs_test [OF g]
  then have l4: "la_running l4 = sources_of (gn_cfg (la_gen l2)) caps @ crew (workers_of n (la_gen l3)) (NeedsAdaptiveController pat)"
    and still: "carries (la_gen l3) (la_gen l4)" and reads: "gn_readEngine (la_gen l4) \<noteq> None \<longleftrightarrow> reads_wanted ?req" using l3 by simp_all
  note whole = carries_trans [OF l3(2) still]
  have facts: "armed (la_gen l4)" "priced (la_gen l4)" "has_contracts (DeployTxTypeFor ?req) (la_gen l4)"
    using carries_armed [OF whole] carries_priced [OF whole] carries_contracts [OF whole] l2 by blast+
  have err: "gn_error (la_gen l4) = gn_error s" using whole l2(2) by (simp add: carries_def)
  have "filter is_worker rs = map SenderWorker [0..<workers_of n (la_gen l3)]"
    by (simp add: s' l4 no_worker_in_sources crew_workers)
  moreover have "PreconfWS \<in> set rs \<longleftrightarrow> ChainPoller \<notin> set rs"
    using confirmation_source by (auto simp: s' l4 crew_def)
  moreover have "gn_cfg (la_gen l4) = gn_cfg (la_gen l3)" "gn_manager (la_gen l4) = gn_manager (la_gen l3)"
    using still by (simp_all add: carries_def gn_manager_def)
  ultimately show ?thesis using facts reads run err workers_within [of n "la_gen l3"] worker_pool_positive [of "gn_cfg (la_gen l3)"]
    unfolding s' by (intro conjI exI [of _ "workers_of n (la_gen l3)"]) auto
qed

lemma failure_outcome:
  assumes "runInitialization env req s = Some (Some e, s', rs)" "contracts_ok (gn_world s)" "0 \<le> cf_GasTipCap (gn_cfg s)"
  shows "gn_status s' = StatusError \<and> gn_error s' = Some e \<and> set rs \<subseteq> {PreconfWS, BuilderMetricsWS, L2WS, ChainPoller} \<and>
    (rs \<noteq> [] \<longrightarrow> e = NoPrivacyToken \<or> (\<exists>x. e = ReadLoadFailed x)) \<and> contracts_ok (gn_world s') \<and>
    (gn_stopping s' = gn_stopping s \<and> gn_forceStop s' = gn_forceStop s \<or> \<not> gn_stopping s' \<and> \<not> gn_forceStop s' \<and> gn_ctx s' = CtxLive) \<and>
    (rs \<noteq> [] \<longrightarrow> gn_ctx s' = CtxLive)"
proof -
  let ?req = "with_default_type req" and ?l0 = "\<lparr>la_gen = s, la_running = []\<rparr>"
  obtain l where run: "initialization_steps env req ?l0 = Some (Inl e, l)" and s': "s' = set_failure e (la_gen l)" "rs = la_running l"
    using assms(1) by (cases rule: initialization_ends) auto
  note prepared = turnsD [OF prepares initial_untouched [OF assms(2)]]
  consider "prepare_test env ?req ?l0 = Some (Inl e, l)"
    | n l1 where "prepare_test env ?req ?l0 = Some (Inr n, l1)" "arm_test env ?req l1 = Some (Inl e, l)"
    | n l1 pat l2 where "prepare_test env ?req ?l0 = Some (Inr n, l1)" "arm_test env ?req l1 = Some (Inr pat, l2)"
        "connect_test env ?req l2 = Some (Inl e, l)"
    | n pat l3 where "run_test env n pat l3 = Some (Inl e, l)"
    using run by (auto simp: initialization_steps_def Let_def andThen_Some)
  then have "set rs \<subseteq> sources \<and> (rs \<noteq> [] \<longrightarrow> e = NoPrivacyToken \<or> (\<exists>x. e = ReadLoadFailed x)) \<and> contracts_ok (gn_world (la_gen l)) \<and>
    (gn_stopping (la_gen l) = gn_stopping s \<and> gn_forceStop (la_gen l) = gn_forceStop s \<or>
      \<not> gn_stopping (la_gen l) \<and> \<not> gn_forceStop (la_gen l) \<and> gn_ctx (la_gen l) = CtxLive) \<and> (rs \<noteq> [] \<longrightarrow> gn_ctx (la_gen l) = CtxLive)"
  proof cases
    case 1
    then show ?thesis using prepared [OF _ 1] assms(3) by (auto simp: s' untouched_def)
  next
    case 2
    then show ?thesis using prepared [OF _ 2(1)] assms(3) arms [OF 2(2)] by (auto simp: s' untouched_def kept_def has_contracts_def)
  next
    case 3
    have "armed (la_gen l2) \<and> la_running l2 = [] \<and> has_contracts (DeployTxTypeFor ?req) (la_gen l2)"
      using prepared [OF _ 3(1)] assms(3) arms [OF 3(2)] by (auto simp: untouched_def kept_def)
    moreover obtain caps where "la_running l = la_running l2 @ sources_of (gn_cfg (la_gen l2)) caps" "carries (la_gen l2) (la_gen l)"
      "e = NoPrivacyToken \<or> (\<exists>x. e = ReadLoadFailed x)" using connects [OF 3(3)] by auto
    ultimately show ?thesis using sources_of_sources by (auto simp: s' has_contracts_def carries_def armed_def)
  next
    case 4
    then show ?thesis using runs_test [OF 4] by simp
  qed
  then show ?thesis by (auto simp: s' set_failure_def sources_def)
qed

text \<open>
  C14: An initialization that ends without a failure leaves a running test that can do its work: no stop is pending, no
  transaction is counted, pending or logged, the rate is positive, the fee cap covers the tip, the contracts of
  the type are deployed with code the node has shown, and reads are set up exactly when the request asks for them.
  The workers are numbered from zero, at most one per account and no more than the pool has, and confirmations
  have one source, the preconfirmation socket or the chain poller.
\<close>
theorem started_test_is_armed:
  assumes "runInitialization env req s = Some (None, s', rs)" "contracts_ok (gn_world s)" "0 \<le> cf_GasTipCap (gn_cfg s)"
  shows "gn_status s' = StatusRunning \<and> armed s' \<and> priced s' \<and> has_contracts (DeployTxTypeFor (with_default_type req)) s' \<and>
    (gn_readEngine s' \<noteq> None \<longleftrightarrow> reads_wanted (with_default_type req)) \<and>
    (\<exists>n. filter is_worker rs = map SenderWorker [0..<n] \<and> int n \<le> worker_pool (gn_cfg s') \<and>
       n \<le> length (mg_accounts (gn_manager s')) + length (mg_dynamic (gn_manager s'))) \<and>
    (PreconfWS \<in> set rs \<longleftrightarrow> ChainPoller \<notin> set rs)"
  using start_outcome [OF assms] by blast


text \<open>
  The goroutine moves the status fields as the lifecycle's thread does: it clears the stop flags on the way, and
  ends in the running status or, before or after that, in the error status.
\<close>

lemma initialization_refines_lifecycle:
  assumes "runInitialization env req s = Some (err, s', rs)" "contracts_ok (gn_world s)" "0 \<le> cf_GasTipCap (gn_cfg s)"
  shows "case err of
      None \<Rightarrow> lifecycle_view [] (st + 1) fin s' = init_done 0 (init_reset 0 (lifecycle_view [InitEarly] st fin s))
    | Some e \<Rightarrow> lifecycle_view [] st fin s' \<in>
        {setError (drop_thread 0 (lifecycle_view [InitEarly] st fin s)), setError (drop_thread 0 (init_reset 0 (lifecycle_view [InitEarly] st fin s)))}"
proof (cases err)
  case None
  note out = start_outcome [OF assms(1) [unfolded None] assms(2,3)]
  show ?thesis using out by (simp add: None lifecycle_view_def init_done_def init_reset_def drop_thread_def armed_def)
next
  case (Some e)
  note out = failure_outcome [OF assms(1) [unfolded Some] assms(2,3)]
  show ?thesis using out by (auto simp: Some lifecycle_view_def setError_def init_reset_def drop_thread_def)
qed

text \<open>
  A failure at the last steps does not end the sources it has started: their context is live, and nothing cancels
  it before the next test replaces it.
\<close>

lemma failed_start_leaves_sources:
  assumes "runInitialization env req s = Some (Some e, s', rs)" "contracts_ok (gn_world s)" "0 \<le> cf_GasTipCap (gn_cfg s)" "rs \<noteq> []"
  shows "gn_ctx s' = CtxLive" "gn_ctx (generator_Reset s') = CtxLive" "gn_ctx (snd (generator_StartTest req' s')) = CtxLive"
  using failure_outcome [OF assms(1-3)] assms(4)
  by (auto simp: generator_Reset_def generator_StartTest_def Let_def set_failure_def split: option.split)

section \<open>Two starts\<close>

definition demo_request2 :: start_test_request where "demo_request2 = plain_request\<lparr>rq_NumAccounts := 2\<rparr>"

definition demo_init :: "(address \<times> eth_tx, int \<times> nat, eth_tx, string) init_env" where
  "demo_init =
     \<lparr>ie_now = 0, ie_readFile = (\<lambda>_. None), ie_getenv = (\<lambda>_. ''''), ie_chainId = Inl rpc_err.CtxErr, ie_accounts = demo_accounts_env,
      ie_nonces = (\<lambda>_. Inr 0), ie_gasPrice = None, ie_baseFee = None, ie_contracts = demo_lg_env, ie_lib = demo_lib,
      ie_codec = store_codec, ie_requestBox = (\<lambda>_. ''config''), ie_runName = ''constant test'', ie_createErr = None, ie_startBlock = Some 5,
      ie_reads = \<lparr>rv_readFile = (\<lambda>_. None), rv_hex = (\<lambda>_. ''0x''), rv_head = (\<lambda>_. None), rv_probe = (\<lambda>_. None), rv_now = 0\<rparr>,
      ie_readHead = None, ie_ask = None, ie_builder = None\<rparr>"

text \<open>A configuration with an execution layer, and the state after a start request was accepted.\<close>

definition demo_config2 :: config where
  "demo_config2 = default_config\<lparr>cf_Capabilities := Some RethCapabilities, cf_PrivacyRPCURL := ''http://proxy'', cf_PrivacyAuthTokenFile := ''token''\<rparr>"

definition demo_accepted :: "(int \<times> nat) generator" where
  "demo_accepted = demo_generator\<lparr>gn_cfg := demo_config2, gn_status := StatusInitializing\<rparr>"

lemma demo_accepted_ok: "contracts_ok (gn_world demo_accepted)" "0 \<le> cf_GasTipCap (gn_cfg demo_accepted)"
  using demo_lg_ok by (simp_all add: demo_accepted_def demo_generator_def generator_records demo_config2_def default_config_def)

lemma demo_fields [simp]:
  "gn_cfg demo_accepted = demo_config2" "gn_world demo_accepted = demo_lg_world" "gn_manager demo_accepted = demo_manager" "gn_store demo_accepted = None"
  "lg_manager demo_lg_world = demo_manager" "lg_cache demo_lg_world = None"
  by (simp_all add: demo_accepted_def demo_generator_def generator_records gn_manager_def gn_store_def demo_lg_world_def)

lemma demo_config_fields [simp]:
  "\<not> route_all demo_config2" "cf_BlockTimeMS demo_config2 = 250" "\<not> cf_Gasless demo_config2"
  "cf_Capabilities demo_config2 = Some RethCapabilities" "cf_PreconfWSURL demo_config2 = ''''"
  "cf_PrivacyRPCURL demo_config2 = ''http://proxy''" "cf_PrivacyAuthTokenFile demo_config2 = ''token''"
  "\<not> has_preconf demo_config2 caps"
  by (simp_all add: route_all_def has_preconf_def demo_config2_def default_config_def)

lemma demo_init_fields [simp]:
  "ie_now demo_init = 0" "ie_readFile demo_init = (\<lambda>_. None)" "ie_chainId demo_init = Inl rpc_err.CtxErr" "ie_accounts demo_init = demo_accounts_env"
  "ie_nonces demo_init = (\<lambda>_. Inr 0)" "ie_startBlock demo_init = Some 5"
  by (simp_all add: demo_init_def)

lemma demo_manager_accounts: "length (mg_accounts demo_manager) = 2" "mg_accounts demo_manager = demo_accounts 2"
  by (simp_all add: demo_manager_def SetDynamicAccounts_def NewManager_def demo_accounts_def)

lemma demo_forced:
  "fst (force_all ForceResync (\<lambda>_. Inr 0) 0 2 [\<lparr>ta_addr = 0, ta_acc = NewAccount\<rparr>, \<lparr>ta_addr = 1, ta_acc = NewAccount\<rparr>]) = []"
  by (simp add: numeral_2_eq_2 ForceResync_def)

text \<open>The common part: two built-in accounts are enough, and simple transfers need no contracts.\<close>

lemma demo_prepares:
  assumes "req = demo_request2\<lparr>rq_PrivacyMode := p\<rparr>"
  shows "\<exists>l. prepare_test demo_init req \<lparr>la_gen = demo_accepted, la_running = []\<rparr> = Some (Inr 2, l) \<and> gn_cfg (la_gen l) = demo_config2 \<and>
    gn_store (la_gen l) = None"
proof -
  have n: "choose_accounts 250 req = (2, CheckAccountSufficiency 2 100 250)"
    by (simp add: assms demo_request2_def plain_request_def choose_accounts_def requested_accounts_def target_rate_def)
  have ty: "rq_TransactionType req = TxTypeEthTransfer" "\<not> UsesRealisticMix (rq_Pattern req)" "\<not> rq_Gasless req" "DeployTxTypeFor req = TxTypeEthTransfer"
    by (simp_all add: assms demo_request2_def plain_request_def UsesRealisticMix_def DeployTxTypeFor_def EffectiveRealisticConfig_def)
  show ?thesis
    unfolding prepare_test_def
    by (simp add: andThen_def rebuild_clients_def adopt_chain_id_def detected_chain_id_def choose_kind_def ty prepare_accounts_def n
        ensureAccounts_def accounts_of_def put_accounts_def init_nonces_def show_phase_def set_fees_def ensure_contracts_def
        on_contracts_def wrapped_def either_def ensureContractsDeployed_def pre_mint_def demo_manager_accounts
        InitializeNonces_def demo_accounts_def demo_forced first_error_def Let_def split_beta upt_rec gn_manager_def gn_store_def)
qed

lemma demo_arms:
  assumes "req = demo_request2\<lparr>rq_PrivacyMode := p\<rparr>"
  shows "\<exists>pat l2. arm_test demo_init req l = Some (Inr pat, l2)"
proof -
  have pat: "pattern_Get NewRegistry (rq_Pattern req) (pattern_config_of req) = Inr (ConstantP (NewConstant (pc_ConstantRate (pattern_config_of req))))"
    by (simp add: assms demo_request2_def plain_request_def pattern_Get_NewRegistry)
  obtain x where "initial_rate (ConstantP (NewConstant (pc_ConstantRate (pattern_config_of req)))) = Some x"
    by (simp add: initial_rate_def Constant_GetRate_def Let_def)
  then show ?thesis by (cases x) (simp add: arm_test_def set_pattern_def set_rate_def andThen_def pat)
qed

lemma demo_typed:
  "with_default_type demo_request2 = demo_request2"
  "with_default_type (demo_request2\<lparr>rq_PrivacyMode := p\<rparr>) = demo_request2\<lparr>rq_PrivacyMode := p\<rparr>"
  by (simp_all add: with_default_type_def demo_request2_def plain_request_def)

lemma no_reads:
  "rq_ReadLoad req = None \<Longrightarrow> setup_reads env req l = Some (Inr (), l\<lparr>la_gen := (la_gen l)\<lparr>gn_readEngine := None\<rparr>\<rparr>)"
  by (simp add: setup_reads_def setupReadLoad_def andThen_def)

lemma demo_starts: "\<exists>s' rs. runInitialization demo_init demo_request2 demo_accepted = Some (None, s', rs)"
proof -
  have req: "demo_request2 = demo_request2\<lparr>rq_PrivacyMode := False\<rparr>" by (simp add: demo_request2_def plain_request_def)
  obtain l where l: "prepare_test demo_init demo_request2 \<lparr>la_gen = demo_accepted, la_running = []\<rparr> = Some (Inr 2, l)" "gn_cfg (la_gen l) = demo_config2"
    using demo_prepares [OF req] by blast
  obtain pat l2 where l2: "arm_test demo_init demo_request2 l = Some (Inr pat, l2)" using demo_arms [OF req] by blast
  then have cfg: "gn_cfg (la_gen l2) = demo_config2" using arms [OF l2] l(2) by (simp add: kept_def)
  obtain l3 where l3: "connect_test demo_init demo_request2 l2 = Some (Inr (), l3)"
    using cfg
    by (simp add: no_reads connect_test_def open_sockets_def open_poller_def route_sends_def show_phase_def andThen_def spawn_run
        demo_request2_def plain_request_def split: if_split)
  have "gn_cfg (la_gen l3) = demo_config2" using connects [OF l3] cfg by (auto simp: carries_def)
  then obtain l4 where "run_test demo_init 2 pat l3 = Some (Inr (), l4)"
    by (simp add: run_test_def start_workers_def ask_builder_def start_incremental_def put_incremental_def andThen_def split_beta Let_def
        startReadLoad_def go_running_def)
  then show ?thesis using l(1) l2 l3
    by (simp add: runInitialization_def initialization_steps_def andThen_def Let_def demo_typed)
qed

lemma demo_fails:
  "\<exists>s' rs. runInitialization demo_init (demo_request2\<lparr>rq_PrivacyMode := True\<rparr>) demo_accepted = Some (Some NoPrivacyToken, s', rs) \<and>
     rs \<noteq> []"
proof -
  let ?req = "demo_request2\<lparr>rq_PrivacyMode := True\<rparr>"
  obtain l where l: "prepare_test demo_init ?req \<lparr>la_gen = demo_accepted, la_running = []\<rparr> = Some (Inr 2, l)" "gn_cfg (la_gen l) = demo_config2"
    using demo_prepares [OF refl] by blast
  obtain pat l2 where l2: "arm_test demo_init ?req l = Some (Inr pat, l2)" using demo_arms [OF refl] by blast
  then have cfg: "gn_cfg (la_gen l2) = demo_config2" using arms [OF l2] l(2) by (simp add: kept_def)
  have no_token: "buildPrivacyClient (\<lambda>_. None) demo_config2 = None" by (simp add: buildPrivacyClient_def Let_def)
  obtain l3 where l3: "connect_test demo_init ?req l2 = Some (Inl NoPrivacyToken, l3)" "la_running l3 \<noteq> []"
    using cfg by (simp add: connect_test_def open_sockets_def open_poller_def route_sends_def andThen_def no_token split: if_split)
  then show ?thesis using l(1) l2
    by (simp add: runInitialization_def initialization_steps_def andThen_def Let_def demo_typed)
qed

theorem started_test_is_armed_witness:
  "\<exists>s' rs. runInitialization demo_init demo_request2 demo_accepted = Some (None, s', rs) \<and> gn_status s' = StatusRunning \<and> armed s' \<and>
     (PreconfWS \<in> set rs \<longleftrightarrow> ChainPoller \<notin> set rs)"
proof -
  obtain s' rs where run: "runInitialization demo_init demo_request2 demo_accepted = Some (None, s', rs)" using demo_starts by blast
  from started_test_is_armed [OF run demo_accepted_ok] run show ?thesis by blast
qed


end
