(* ===== verification/Spec2Isabelle.thy ===== *)
theory Spec2Isabelle
  imports Nonce_Pool Collector Patterns Rate_Limiter Adaptive Sender Pipeline Tx_Log Worker
    Worker_Accounting Nonce_Healer Read_Load Test_Setup Lifecycle
    Verifier Block_Metrics Confirmations Tx_Builder Account_Manager Store_Facts Contract_Setup Config Test_Result
    Account_Setup Http_Server Initialization
begin

text \<open>
  The load generator drives an Ethereum L2: it prepares accounts and contracts, sends signed transactions at
  a rate that follows a pattern or adapts to the chain, watches which of them are included, compares what
  happened with the chain, and stores the history of its tests.  This development models its packages as HOL
  functions and states what makes each of them correct.  All paths below are relative to \<open>src\<close>.

  \<^bold>\<open>The parts and how they interact.\<close>
  A request reaches the router (\<open>Http_Server\<close>), is decoded (\<open>Request_Codec\<close>) and handed to the load generator
  (\<open>Load_Generator\<close>), which holds the state of the test.  A start request is validated and turned into
  accounts, fees, a pattern and a number of workers (\<open>Test_Setup\<close>, \<open>Config\<close>); the goroutine that prepares a test
  and those that end it agree on a status (\<open>Lifecycle\<close>).  The preparation (\<open>Initialization\<close>) funds accounts
  (\<open>Account_Setup\<close>, \<open>Account_Manager\<close>), deploys contracts or takes them from the cache (\<open>Contract_Deploy\<close>,
  \<open>Uni_Deploy\<close>, \<open>Contract_Setup\<close>), asks the builder about itself (\<open>Environment\<close>) and starts the workers (\<open>Worker\<close>).
  A worker waits for the rate limiter (\<open>Rate_Limiter\<close>), whose rate comes from a pattern (\<open>Patterns\<close>) or from the
  controller (\<open>Adaptive\<close>), reserves a nonce of its account (\<open>Nonce_Account\<close>), lets the workload choose and a
  builder build the transaction (\<open>Workload\<close>, \<open>Tx_Builder\<close>, \<open>Abi\<close>; the single-transaction path is \<open>Pipeline\<close>), and
  hands batches to the sender (\<open>Sender\<close>), which calls the RPC client (\<open>Rpc_Client\<close>).  The callbacks of the
  sender and the confirmations (\<open>Confirmations\<close>, \<open>Block_Metrics\<close>) count in the collector (\<open>Collector\<close> over
  \<open>Tx_Tracker\<close>, \<open>Tx_Flow\<close>, \<open>Latency\<close>, \<open>Atomic\<close>) and in the transaction log (\<open>Tx_Log\<close>).  A nonce gap is found and
  filled by the healer (\<open>Nonce_Healer\<close>), read requests are a load of their own (\<open>Read_Load\<close>, \<open>Read_Setup\<close>).  At
  the end the stop sequence (\<open>Stop_Test\<close>) settles the transaction log, lets the verifier read the chain again
  (\<open>Verifier\<close> over \<open>Chain_Reader\<close>), assembles the result (\<open>Test_Result\<close>) and stores it (\<open>Store\<close>).

  \<^bold>\<open>Theories, code and what is shown.\<close>
  \<^item> \<open>Prelude\<close>, \<open>Go_Strings\<close>, \<open>Float64\<close>, \<open>Actions\<close>: machine integers, the binary search of the package \<open>sort\<close>,
    batches of a list, polling with a deadline; the string functions; float64 as the rational it denotes with
    rounding to 53 bits; actions that may fail or never return, loops of actions and the rules by which a relation
    between the states before and after is kept along an action.
  \<^item> \<open>Types\<close> (\<open>pkg/types\<close>): the data of the requests and results.
  \<^item> \<open>Atomic\<close> (\<open>internal/metrics/atomic.go\<close>): any interleaving of the compare-and-swap loops gives the results
    of the calls run one after the other.
  \<^item> \<open>Tx_Tracker\<close>, \<open>Tx_Flow\<close>, \<open>Latency\<close>, \<open>Collector\<close> (\<open>internal/metrics\<close>): the tracker never outgrows its ring;
    every finished journey of a transaction is in one class; extrema, sums and histogram are those of the samples;
    the counters of the collector add up.
  \<^item> \<open>Nonce_Account\<close> (\<open>internal/account/account.go\<close>) and \<open>Nonce_Pool\<close>: one operation per critical section; along
    every interleaving the handed-out, returned and free nonces partition those below the counter, and the next
    nonce is the least one missing.
  \<^item> \<open>Account_Manager\<close> (\<open>internal/account/manager.go\<close>): funding leaves no nonce gap whichever sends fail, and the
    wait for confirmations returns.
  \<^item> \<open>Patterns\<close> (\<open>internal/pattern\<close>), \<open>Rate_Limiter\<close> (\<open>internal/ratelimit\<close>), \<open>Adaptive\<close> (the controllers of
    \<open>internal/loadgen/workers.go\<close>): bounds of every rate, spacing of permits, and the floor the controller keeps.
  \<^item> \<open>Sender\<close>, \<open>Pipeline\<close>, \<open>Worker\<close>, \<open>Worker_Accounting\<close> (\<open>internal/sender\<close>, \<open>internal/pipeline\<close>,
    \<open>internal/loadgen/workers.go\<close>): callbacks run once per transaction, a nonce is in at most one place, and every
    transaction counted as sent is pending, failed or lost.
  \<^item> \<open>Workload\<close>, \<open>Abi\<close>, \<open>Tx_Builder\<close> (\<open>internal/workload\<close>, \<open>internal/txbuilder\<close>, \<open>internal/uniswapv3/abi.go\<close>): the
    draw has the configured weights; what the encoders write decodes to what was asked.
  \<^item> \<open>Nonce_Healer\<close> (\<open>internal/noncehealer\<close>), \<open>Read_Load\<close> (\<open>internal/readload\<close>): exactly the gap is filled, within
    the limit; the read counters add up.
  \<^item> \<open>Rpc_Client\<close> (\<open>internal/rpc\<close>): the first decisive reply is returned and the rest retried within the limit;
    batch answers are in the order of the requests whatever the order of the reply.  \<open>Chain_Reader\<close>, \<open>Verifier\<close>
    (\<open>internal/verification\<close>): the verdict on tips is that of the rule, and the one aggregated from the snapshots
    that of the whole.
  \<^item> \<open>Block_Metrics\<close>, \<open>Confirmations\<close>, \<open>Tx_Log\<close> (\<open>websocket.go\<close>, \<open>chainpoller.go\<close>, \<open>blockmetrics.go\<close> and
    \<open>persistence.go\<close> of \<open>internal/loadgen\<close>): a block is counted once whichever of the sources report it, every
    block after the start is scanned once, a confirmation is counted for the transactions of the test only, and at
    the end every entry of the log is settled.
  \<^item> \<open>Test_Setup\<close>, \<open>Lifecycle\<close>, \<open>Config\<close> (\<open>internal/transport/http.go\<close>, \<open>internal/loadgen/init.go\<close>,
    \<open>internal/loadgen/loadgen.go\<close>, \<open>internal/config\<close>, \<open>internal/execnode\<close>, \<open>cmd/loadgen\<close>): fees that suffice, one test
    at a time along every interleaving, and configurations that are well-formed once loaded.
  \<^item> \<open>Store_Schema\<close>, \<open>Store\<close>, \<open>Store_Facts\<close> (\<open>internal/storage\<close>): a completed run reads back, keys and references
    stay intact, bulk inserts are atomic, the cache is a map.
  \<^item> \<open>Node_World\<close>, \<open>Contract_Deploy\<close>, \<open>Uni_Deploy\<close>, \<open>Contract_Setup\<close> (\<open>internal/contract\<close>, \<open>internal/uniswapv3\<close>,
    \<open>internal/loadgen/contracts.go\<close>): the contracts that are handed on have code and refer to each other, liquidity
    is minted after its funding, accounts are set up in the order of their nonces, and the preparation ends.
  \<^item> \<open>Account_Setup\<close> (\<open>accounts.go\<close>, \<open>init.go\<close>), \<open>Environment\<close> (\<open>builder.go\<close>, \<open>helpers.go\<close>), \<open>Test_Result\<close>
    (\<open>persistence.go\<close>): how the accounts of a test are chosen and funded, what is recorded of the nodes, and the
    result that is assembled from the collector, the block metrics and the log.
  \<^item> \<open>Request_Codec\<close> (the JSON tags of \<open>pkg/types/types.go\<close>), \<open>Load_Generator\<close> (\<open>loadgen.go\<close>, \<open>api.go\<close>),
    \<open>Stop_Test\<close> (\<open>stopTest\<close> and \<open>StopTest\<close> of \<open>loadgen.go\<close>), \<open>Http_Server\<close> (\<open>internal/transport/http.go\<close>): starting
    and resetting implement the steps of \<open>Lifecycle\<close>; a test that was stopped is settled and saved; a read or a
    rejected request leaves the load generator as it was, only validated requests start a test, and the versioned
    paths answer as the plain ones.
  \<^item> \<open>Read_Setup\<close> (\<open>readload.go\<close> of \<open>internal/loadgen\<close>), \<open>Initialization\<close> (\<open>runInitialization\<close> of \<open>init.go\<close>): the
    goroutine that prepares a test, composed of the steps of the other theories.  When it ends without a failure
    the test is armed; when it fails nothing that sends was started; either way the status moves as in \<open>Lifecycle\<close>.

  \<^bold>\<open>Correspondence.\<close>
  A struct is a record whose fields carry a prefix of their own, an enumeration or an interface with known
  implementations a datatype.  A Go \<open>uint64\<close> on which arithmetic can wrap is a word of 64 bits; an \<open>int\<close> is an
  \<open>int\<close>, with the range written out where the width matters.  An operation under a lock is one function.  An error
  is \<open>Inl\<close>, a panic is \<open>None\<close>.  A clock reading, a random draw, the answer of a node, a signature, a hash and the
  database engine are arguments.  Goroutines are interleavings of events where they share state.

  \<^bold>\<open>Interfaces.\<close>
  \<open>nonce_source\<close> is what the pipeline and the workers need of an account, \<open>rate_source\<close> what the rate loop needs of
  a pattern, \<open>batch_reader\<close> what the verifier needs of the RPC client, \<open>bulk_table\<close> what saving a result needs of a
  table, \<open>test_service\<close> what the HTTP handlers need of the load generator.  Each is interpreted on the model of
  its provider: the account under both of its invariants, the three patterns and their sum, the batch requests of
  the RPC client, the two log tables, the operations of the load generator.

  \<^bold>\<open>Loops.\<close>
  A loop over a list is structural recursion or has a measure.  A loop that waits for the outside is \<open>loop\<close>,
  \<open>poll_loop\<close> or \<open>scan_from\<close>, partial functions into \<open>option\<close>: that they return is proved from a measure on the
  rounds, a deadline on the clock, or the assumption that the node answers.  No definition takes fuel.

  \<^bold>\<open>Not modelled.\<close>
  Sockets, HTTP connections and JSON framing below \<open>Client.Call\<close>; the lexer of JSON text (a request body is a
  parsed tree or a parse error); the metrics stream of \<open>internal/transport/websocket.go\<close>; the front end of \<open>internal/mcp\<close> and \<open>cmd/mcp\<close>, which translates tool calls into HTTP requests; the
  Prometheus gauges of \<open>internal/metrics/prometheus.go\<close>; profiling, flag parsing and log lines; the byte code of the
  contracts, key derivation, hashing and signing (arguments); the funding loop that \<open>manager.go\<close> keeps for reference.
\<close>

end
